(* ===== verification/Prelude.thy ===== *)
theory Prelude
  imports Main "HOL-Library.Sublist" "HOL-Library.Char_ord" "HOL-Library.List_Lexorder"
    "HOL-Library.Multiset"
begin

text \<open>
  Shared vocabulary of the development: the result type of fallible Rust code and the
  operators \<^verbatim>\<open>?\<close>, \<^verbatim>\<open>map_err\<close> and ``collect into a Result'', the stable descending
  sort that \<^verbatim>\<open>sort_by(|a, b| b.k.cmp(&a.k))\<close> performs, insertion-ordered
  deduplication, and the general loop \<^verbatim>\<open>while\<close> with early return together with its total
  correctness rule. The lists are compared lexicographically (\<^verbatim>\<open>List_Lexorder\<close>), as Rust
  compares strings.
\<close>

named_theorems result_simps \<open>unfolding rules of the result operators\<close>
named_theorems kv_simps \<open>what the storage contracts say about one operation\<close>
named_theorems model_defs \<open>definitions of the model unfolded by most proofs\<close>

section \<open>Results\<close>

text \<open>\<^verbatim>\<open>Result<T, E>\<close> is \<open>'e + 'a\<close>, with \<^const>\<open>Inl\<close> for \<^verbatim>\<open>Err\<close>.\<close>

definition res_bind :: "'e + 'a \<Rightarrow> ('a \<Rightarrow> 'e + 'b) \<Rightarrow> 'e + 'b" where
  "res_bind r f = (case r of Inl e \<Rightarrow> Inl e | Inr x \<Rightarrow> f x)"

definition map_err :: "('e \<Rightarrow> 'f) \<Rightarrow> 'e + 'a \<Rightarrow> 'f + 'a" where
  "map_err g r = (case r of Inl e \<Rightarrow> Inl (g e) | Inr x \<Rightarrow> Inr x)"

definition ok_or :: "'e \<Rightarrow> 'a option \<Rightarrow> 'e + 'a" where
  "ok_or e x = (case x of None \<Rightarrow> Inl e | Some v \<Rightarrow> Inr v)"

fun collect_res :: "('a \<Rightarrow> 'e + 'b) \<Rightarrow> 'a list \<Rightarrow> 'e + 'b list" where
  "collect_res f [] = Inr []"
| "collect_res f (x # xs) =
     res_bind (f x) (\<lambda>y. res_bind (collect_res f xs) (\<lambda>ys. Inr (y # ys)))"

definition is_ok :: "'e + 'a \<Rightarrow> bool" where
  "is_ok r = (case r of Inl _ \<Rightarrow> False | Inr _ \<Rightarrow> True)"

lemma res_bind_simps [simp, result_simps]:
  "res_bind (Inl e) f = Inl e" "res_bind (Inr x) f = f x"
  by (simp_all add: res_bind_def)

lemma map_err_simps [simp, result_simps]:
  "map_err g (Inl e) = Inl (g e)" "map_err g (Inr x) = Inr x"
  by (simp_all add: map_err_def)

lemma ok_or_simps [simp, result_simps]: "ok_or e None = Inl e" "ok_or e (Some v) = Inr v"
  by (simp_all add: ok_or_def)

lemma is_ok_simps [simp, result_simps]: "\<not> is_ok (Inl e)" "is_ok (Inr x)"
  by (simp_all add: is_ok_def)

lemma res_bind_eq_Inr [result_simps]:
  "res_bind r f = Inr y \<longleftrightarrow> (\<exists>x. r = Inr x \<and> f x = Inr y)"
  by (cases r) auto

lemma map_err_eq_Inr [simp, result_simps]: "map_err g r = Inr y \<longleftrightarrow> r = Inr y"
  by (cases r) auto

lemma map_err_eq_Inl [result_simps]: "map_err g r = Inl f \<longleftrightarrow> (\<exists>e. r = Inl e \<and> f = g e)"
  by (cases r) auto

lemma ok_or_eq_Inr [simp]: "ok_or e x = Inr v \<longleftrightarrow> x = Some v"
  by (cases x) auto

lemma collect_res_Inr:
  "collect_res f xs = Inr ys \<longleftrightarrow> list_all2 (\<lambda>x y. f x = Inr y) xs ys"
proof (induction xs arbitrary: ys)
  case Nil
  show ?case by auto
next
  case (Cons x xs)
  show ?case by (cases ys) (auto simp: Cons.IH res_bind_eq_Inr)
qed

lemma collect_res_all_ok:
  assumes "\<And>x. x \<in> set xs \<Longrightarrow> f x = Inr (g x)"
  shows "collect_res f xs = Inr (map g xs)"
  using assms by (induction xs) auto

lemma collect_res_error:
  "(\<exists>e. collect_res f xs = Inl e) \<longleftrightarrow> (\<exists>x \<in> set xs. \<exists>e. f x = Inl e)"
proof (induction xs)
  case (Cons x xs)
  show ?case
  proof (cases "f x")
    case (Inr y)
    then show ?thesis
      using Cons.IH by (cases "collect_res f xs") (auto simp: res_bind_def)
  qed auto
qed simp

section \<open>Stable descending sort\<close>

fun insert_desc :: "('a \<Rightarrow> 'k::linorder) \<Rightarrow> 'a \<Rightarrow> 'a list \<Rightarrow> 'a list" where
  "insert_desc k x [] = [x]"
| "insert_desc k x (y # ys) = (if k y \<le> k x then x # y # ys else y # insert_desc k x ys)"

text \<open>\<^verbatim>\<open>v.sort_by(|a, b| k(b).cmp(&k(a)))\<close>: stable, largest key first.\<close>

definition sort_desc :: "('a \<Rightarrow> 'k::linorder) \<Rightarrow> 'a list \<Rightarrow> 'a list" where
  "sort_desc k xs = foldr (insert_desc k) xs []"

lemma sort_desc_simps [simp]:
  "sort_desc k [] = []" "sort_desc k (x # xs) = insert_desc k x (sort_desc k xs)"
  by (simp_all add: sort_desc_def)

lemma mset_insert_desc [simp]: "mset (insert_desc k x xs) = add_mset x (mset xs)"
  by (induction xs) auto

lemma set_insert_desc [simp]: "set (insert_desc k x xs) = insert x (set xs)"
  by (induction xs) auto

lemma mset_sort_desc [simp]: "mset (sort_desc k xs) = mset xs"
  by (induction xs) auto

lemma set_sort_desc [simp]: "set (sort_desc k xs) = set xs"
  by (induction xs) auto

lemma length_sort_desc [simp]: "length (sort_desc k xs) = length xs"
  using mset_eq_length [OF mset_sort_desc] .

lemma sorted_insert_desc:
  "sorted_wrt (\<lambda>a b. k b \<le> k a) xs \<Longrightarrow> sorted_wrt (\<lambda>a b. k b \<le> k a) (insert_desc k x xs)"
  by (induction xs) (auto intro: order_trans)

lemma sorted_sort_desc: "sorted_wrt (\<lambda>a b. k b \<le> k a) (sort_desc k xs)"
  by (induction xs) (auto intro: sorted_insert_desc)

lemma filter_insert_desc:
  "sorted_wrt (\<lambda>a b. k b \<le> k a) xs \<Longrightarrow>
   filter (\<lambda>y. k y = c) (insert_desc k x xs) =
   (if k x = c then x # filter (\<lambda>y. k y = c) xs else filter (\<lambda>y. k y = c) xs)"
proof (induction xs)
  case (Cons y ys)
  show ?case
  proof (cases "k y \<le> k x")
    case False
    with Cons show ?thesis by auto
  qed auto
qed auto

text \<open>Stability: rows with equal keys keep their order.\<close>

lemma sort_desc_stable: "filter (\<lambda>y. k y = c) (sort_desc k xs) = filter (\<lambda>y. k y = c) xs"
  by (induction xs) (auto simp: filter_insert_desc sorted_sort_desc)

section \<open>Deduplication in insertion order\<close>

text \<open>
  \<^verbatim>\<open>for x in xs { if seen.insert(k(x)) { out.push(x) } }\<close>: the first element of each
  key is kept, in the order of the input.
\<close>

fun dedup_by :: "('a \<Rightarrow> 'k) \<Rightarrow> 'k set \<Rightarrow> 'a list \<Rightarrow> 'a list" where
  "dedup_by k seen [] = []"
| "dedup_by k seen (x # xs) =
     (if k x \<in> seen then dedup_by k seen xs else x # dedup_by k (insert (k x) seen) xs)"

lemma dedup_by_keys: "k ` set (dedup_by k seen xs) = k ` set xs - seen"
  by (induction xs arbitrary: seen) auto

lemma dedup_by_subset: "set (dedup_by k seen xs) \<subseteq> set xs"
  by (induction xs arbitrary: seen) (auto split: if_splits)

lemma dedup_by_distinct: "distinct (map k (dedup_by k seen xs))"
proof (induction xs arbitrary: seen)
  case (Cons x xs)
  have "k x \<notin> k ` set (dedup_by k (insert (k x) seen) xs)"
    by (simp add: dedup_by_keys)
  with Cons.IH show ?case by simp
qed simp

lemma dedup_by_id: "distinct (map k xs) \<Longrightarrow> k ` set xs \<inter> seen = {} \<Longrightarrow> dedup_by k seen xs = xs"
proof (induction xs arbitrary: seen)
  case (Cons x xs)
  then have "k ` set xs \<inter> insert (k x) seen = {}" by auto
  with Cons show ?case by simp
qed simp

lemma dedup_by_append:
  "dedup_by k seen (xs @ ys) = dedup_by k seen xs @ dedup_by k (seen \<union> k ` set xs) ys"
proof (induction xs arbitrary: seen)
  case (Cons x xs)
  show ?case by (auto simp: Cons.IH insert_absorb Un_insert_left)
qed simp

section \<open>Loops with early return\<close>

text \<open>
  \<open>loop_until fin step s\<close> runs \<open>step\<close> until \<open>fin\<close> holds; an error of \<open>step\<close> is the
  early return of the \<^verbatim>\<open>?\<close> operator. \<^const>\<open>None\<close> is a loop that never returns.
\<close>

partial_function (option) loop_until ::
    "('s \<Rightarrow> bool) \<Rightarrow> ('s \<Rightarrow> 'e + 's) \<Rightarrow> 's \<Rightarrow> ('e + 's) option" where
  "loop_until fin step s =
     (if fin s then Some (Inr s)
      else case step s of Inl e \<Rightarrow> Some (Inl e) | Inr s' \<Rightarrow> loop_until fin step s')"

declare loop_until.simps [code]

lemma loop_until_done: "fin s \<Longrightarrow> loop_until fin step s = Some (Inr s)"
  by (simp add: loop_until.simps)

lemma loop_until_step:
  "\<not> fin s \<Longrightarrow> step s = Inr s' \<Longrightarrow> loop_until fin step s = loop_until fin step s'"
  by (simp add: loop_until.simps [of fin step s])

lemma loop_until_error:
  "\<not> fin s \<Longrightarrow> step s = Inl e \<Longrightarrow> loop_until fin step s = Some (Inl e)"
  by (simp add: loop_until.simps [of fin step s])

text \<open>
  Total correctness: with an invariant that every successful step keeps and a measure
  that every successful step decreases, the loop returns; a normal result satisfies the
  invariant, an early return is an error of some step taken under the invariant.
\<close>

lemma loop_until_total:
  fixes m :: "'s \<Rightarrow> nat"
  assumes inv: "I s"
    and keep: "\<And>t t'. I t \<Longrightarrow> \<not> fin t \<Longrightarrow> step t = Inr t' \<Longrightarrow> I t' \<and> m t' < m t"
  shows "(\<exists>t. loop_until fin step s = Some (Inr t) \<and> I t \<and> fin t) \<or>
         (\<exists>e t. loop_until fin step s = Some (Inl e) \<and> I t \<and> \<not> fin t \<and> step t = Inl e)"
  using inv
proof (induction "m s" arbitrary: s rule: less_induct)
  case less
  show ?case
  proof (cases "fin s")
    case True
    with less.prems show ?thesis by (auto simp: loop_until_done)
  next
    case False
    show ?thesis
    proof (cases "step s")
      case (Inl e)
      with False less.prems show ?thesis by (auto simp: loop_until_error)
    next
      case (Inr s')
      with keep [OF less.prems False] have "I s'" "m s' < m s" by auto
      moreover from False Inr have "loop_until fin step s = loop_until fin step s'"
        by (rule loop_until_step)
      ultimately show ?thesis using less.hyps [of s'] by simp
    qed
  qed
qed

text \<open>Partial correctness: an invariant of the steps holds of a normal result.\<close>

lemma loop_until_inv_aux:
  fixes I :: "'s \<Rightarrow> bool" and step :: "'s \<Rightarrow> 'e + 's"
  assumes "loop_until fin step s = Some r"
  shows "(\<forall>t t'. I t \<longrightarrow> \<not> fin t \<longrightarrow> step t = Inr t' \<longrightarrow> I t') \<longrightarrow> I s \<longrightarrow> (\<forall>t. r = Inr t \<longrightarrow> I t)"
proof (rule loop_until.raw_induct [OF _ assms], intro impI allI)
  fix loop :: "('s \<Rightarrow> bool) \<Rightarrow> ('s \<Rightarrow> 'e + 's) \<Rightarrow> 's \<Rightarrow> ('e + 's) option" 
    and fin and step :: "'s \<Rightarrow> 'e + 's" and s r t
  assume IH: "\<And>fin step s r. loop fin step s = Some r \<Longrightarrow>
      (\<forall>t t'. I t \<longrightarrow> \<not> fin t \<longrightarrow> step t = Inr t' \<longrightarrow> I t') \<longrightarrow> I s \<longrightarrow> (\<forall>t. r = Inr t \<longrightarrow> I t)"
    and body: "(if fin s then Some (Inr s)
      else case step s of Inl e \<Rightarrow> Some (Inl e) | Inr s' \<Rightarrow> loop fin step s') = Some r"
    and keep: "\<forall>t t'. I t \<longrightarrow> \<not> fin t \<longrightarrow> step t = Inr t' \<longrightarrow> I t'" and s: "I s" and r: "r = Inr t"
  show "I t"
  proof (cases "fin s")
    case True
    with body s r show ?thesis by simp
  next
    case False
    with body r obtain s' where s': "step s = Inr s'" "loop fin step s' = Some r"
      by (cases "step s") auto
    from keep s False s'(1) have "I s'" by blast
    with IH [OF s'(2)] keep r show ?thesis by blast
  qed
qed

lemma loop_until_inv:
  assumes "loop_until fin step s = Some (Inr t)" "I s"
    and "\<And>t t'. I t \<Longrightarrow> \<not> fin t \<Longrightarrow> step t = Inr t' \<Longrightarrow> I t'"
  shows "I t"
  using loop_until_inv_aux [of fin step s "Inr t" I] assms by blast

section \<open>Rows collected into a map\<close>

text \<open>
  \<^verbatim>\<open>rows.into_iter().collect::<HashMap<_, _>>()\<close>: a later row replaces an earlier one of the
  same key.
\<close>

definition collect_map :: "('k \<times> 'v) list \<Rightarrow> 'k \<rightharpoonup> 'v" where
  "collect_map rows = map_of (rev rows)"

lemma map_of_rev_distinct: "distinct (map fst rows) \<Longrightarrow> map_of (rev rows) = map_of rows"
  by (metis distinct_rev map_of_inject_set rev_map set_rev)

lemma collect_map_distinct: "distinct (map fst rows) \<Longrightarrow> collect_map rows = map_of rows"
  by (simp add: collect_map_def map_of_rev_distinct)

lemma finite_dom_collect_map [simp]: "finite (dom (collect_map rows))"
  by (simp add: collect_map_def finite_dom_map_of)

section \<open>Iteration order of hash containers\<close>

text \<open>
  A \<^verbatim>\<open>HashSet\<close> or \<^verbatim>\<open>HashMap\<close> is iterated in an order the standard library does not specify.
  Definitions that iterate one take the order as a function of the set; theorems about
  them assume only that it lists each element once.
\<close>

definition iteration_order :: "('a set \<Rightarrow> 'a list) \<Rightarrow> bool" where
  "iteration_order it \<longleftrightarrow> (\<forall>S. finite S \<longrightarrow> distinct (it S) \<and> set (it S) = S)"

lemma iteration_orderD:
  assumes "iteration_order it" "finite S"
  shows "distinct (it S)" "set (it S) = S"
  using assms by (auto simp: iteration_order_def)

lemma iteration_order_sorted: "iteration_order (sorted_list_of_set :: string set \<Rightarrow> string list)"
  by (simp add: iteration_order_def)

end
