(* ===== verification/Rust_Strings.thy ===== *)
theory Rust_Strings
  imports Prelude
begin

text \<open>
  Rust's \<^verbatim>\<open>&str\<close> operations. A string is the list of its Unicode scalar values, of
  which Isabelle's \<open>char\<close> covers U+0000 to U+00FF; on that range every function below
  computes what the standard library computes (\<^verbatim>\<open>char::is_whitespace\<close>,
  \<^verbatim>\<open>to_lowercase\<close>, \<^verbatim>\<open>to_ascii_lowercase\<close>, \<^verbatim>\<open>trim\<close>, \<^verbatim>\<open>split_whitespace\<close>,
  \<^verbatim>\<open>strip_prefix\<close>, \<^verbatim>\<open>contains\<close>, \<^verbatim>\<open>len\<close> in UTF-8 bytes, \<^verbatim>\<open>parse::<u32>\<close>). The order on
  strings is the order of their scalar values, which is the order of their UTF-8 bytes.
\<close>

text \<open>A name between single quotes, as error messages put it.\<close>

definition quoted :: "string \<Rightarrow> string" where
  "quoted s = CHR 0x27 # s @ [CHR 0x27]"

definition char_code :: "char \<Rightarrow> nat" where
  "char_code c = of_char c"

definition is_whitespace :: "char \<Rightarrow> bool" where
  "is_whitespace c =
     (let n = char_code c in (9 \<le> n \<and> n \<le> 13) \<or> n = 32 \<or> n = 133 \<or> n = 160)"

definition ascii_lower :: "char \<Rightarrow> char" where
  "ascii_lower c =
     (let n = char_code c in if 65 \<le> n \<and> n \<le> 90 then char_of (n + 32) else c)"

definition char_lower :: "char \<Rightarrow> char" where
  "char_lower c =
     (let n = char_code c
      in if (65 \<le> n \<and> n \<le> 90) \<or> (192 \<le> n \<and> n \<le> 222 \<and> n \<noteq> 215) then char_of (n + 32) else c)"

definition to_ascii_lowercase :: "string \<Rightarrow> string" where
  "to_ascii_lowercase = map ascii_lower"

definition to_lowercase :: "string \<Rightarrow> string" where
  "to_lowercase = map char_lower"

definition eq_ignore_ascii_case :: "string \<Rightarrow> string \<Rightarrow> bool" where
  "eq_ignore_ascii_case a b = (to_ascii_lowercase a = to_ascii_lowercase b)"

definition trim_start :: "string \<Rightarrow> string" where
  "trim_start = dropWhile is_whitespace"

definition trim :: "string \<Rightarrow> string" where
  "trim s = rev (dropWhile is_whitespace (rev (dropWhile is_whitespace s)))"

definition trim_start_matches :: "char \<Rightarrow> string \<Rightarrow> string" where
  "trim_start_matches c = dropWhile (\<lambda>x. x = c)"

text \<open>\<^verbatim>\<open>s.split(p)\<close>: the pieces between separators, the empty ones included.\<close>

fun split_on :: "('c \<Rightarrow> bool) \<Rightarrow> 'c list \<Rightarrow> 'c list list" where
  "split_on p [] = [[]]"
| "split_on p (c # cs) =
     (if p c then [] # split_on p cs
      else case split_on p cs of [] \<Rightarrow> [[c]] | w # ws \<Rightarrow> (c # w) # ws)"

definition split_whitespace :: "string \<Rightarrow> string list" where
  "split_whitespace s = filter (\<lambda>w. w \<noteq> []) (split_on is_whitespace s)"

fun join :: "'c list \<Rightarrow> 'c list list \<Rightarrow> 'c list" where
  "join sep [] = []"
| "join sep [w] = w"
| "join sep (w # ws) = w @ sep @ join sep ws"

definition strip_prefix :: "'c list \<Rightarrow> 'c list \<Rightarrow> 'c list option" where
  "strip_prefix p s = (if prefix p s then Some (drop (length p) s) else None)"

definition contains :: "'c list \<Rightarrow> 'c list \<Rightarrow> bool" where
  "contains s p = sublist p s"

definition utf8_len :: "string \<Rightarrow> nat" where
  "utf8_len s = sum_list (map (\<lambda>c. if char_code c < 128 then 1 else 2) s)"

text \<open>\<^verbatim>\<open>str::parse::<u32>\<close>: an optional \<open>+\<close>, at least one digit, no overflow.\<close>

definition digit_value :: "char \<Rightarrow> nat option" where
  "digit_value c = (let n = char_code c in if 48 \<le> n \<and> n \<le> 57 then Some (n - 48) else None)"

fun digits_value :: "nat \<Rightarrow> string \<Rightarrow> nat option" where
  "digits_value acc [] = Some acc"
| "digits_value acc (c # cs) =
     (case digit_value c of
        None \<Rightarrow> None
      | Some d \<Rightarrow> (let v = acc * 10 + d in if v < 2 ^ 32 then digits_value v cs else None))"

definition parse_u32 :: "string \<Rightarrow> nat option" where
  "parse_u32 s =
     (let ds = (case s of c # cs \<Rightarrow> (if c = CHR ''+'' then cs else s) | [] \<Rightarrow> s)
      in if ds = [] then None else digits_value 0 ds)"

text \<open>Decimal output, and its zero-padded form \<^verbatim>\<open>{:0w}\<close>.\<close>

fun show_nat :: "nat \<Rightarrow> string" where
  "show_nat n = (if n < 10 then [char_of (48 + n)] else show_nat (n div 10) @ [char_of (48 + n mod 10)])"

declare show_nat.simps [simp del]

definition show_pad :: "nat \<Rightarrow> nat \<Rightarrow> string" where
  "show_pad w n = (let s = show_nat n in replicate (w - length s) CHR ''0'' @ s)"

section \<open>Laws\<close>

lemma strip_prefix_append [simp]: "strip_prefix p (p @ s) = Some s"
  by (simp add: strip_prefix_def)

lemma strip_prefix_Some: "strip_prefix p s = Some r \<longleftrightarrow> s = p @ r"
  by (auto simp: strip_prefix_def prefix_def)

lemma strip_prefix_None: "strip_prefix p s = None \<longleftrightarrow> \<not> prefix p s"
  by (simp add: strip_prefix_def)

lemma split_on_ne [simp]: "split_on p s \<noteq> []"
  by (induction s) (auto split: list.split)

lemma split_on_pieces: "w \<in> set (split_on p s) \<Longrightarrow> c \<in> set w \<Longrightarrow> \<not> p c \<and> c \<in> set s"
proof (induction s arbitrary: w)
  case (Cons x xs)
  then show ?case
    by (cases "split_on p xs") (fastforce split: if_splits)+
qed simp

lemma split_on_free: "(\<And>c. c \<in> set s \<Longrightarrow> \<not> p c) \<Longrightarrow> split_on p s = [s]"
  by (induction s) auto

lemma split_whitespace_pieces:
  assumes "w \<in> set (split_whitespace s)"
  shows "w \<noteq> []" "\<forall>c \<in> set w. \<not> is_whitespace c"
  using assms by (auto simp: split_whitespace_def dest: split_on_pieces)

lemma split_on_append_sep:
  "(\<And>c. c \<in> set w \<Longrightarrow> \<not> p c) \<Longrightarrow> p x \<Longrightarrow> split_on p (w @ x # s) = w # split_on p s"
  by (induction w) (auto split: list.split)

lemma split_on_join:
  assumes "p x" "ws \<noteq> []" "\<And>w c. w \<in> set ws \<Longrightarrow> c \<in> set w \<Longrightarrow> \<not> p c"
  shows "split_on p (join [x] ws) = ws"
  using assms(2,3)
proof (induction "[x]" ws rule: join.induct)
  case (2 w)
  then show ?case by (auto intro: split_on_free)
next
  case (3 w v ws)
  have "split_on p (w @ x # join [x] (v # ws)) = w # split_on p (join [x] (v # ws))"
    using assms(1) 3(3) by (intro split_on_append_sep) auto
  moreover have "split_on p (join [x] (v # ws)) = v # ws"
    using 3 by auto
  ultimately show ?case by simp
qed simp

lemma whitespace_space [simp]: "is_whitespace CHR '' ''"
  by (simp add: is_whitespace_def char_code_def)

text \<open>Collapsing white space is idempotent: the words of the joined words are the words.\<close>

lemma split_whitespace_join:
  "split_whitespace (join '' '' (split_whitespace s)) = split_whitespace s"
proof (cases "split_whitespace s = []")
  case True
  then show ?thesis by (simp add: split_whitespace_def)
next
  case False
  then have "split_on is_whitespace (join '' '' (split_whitespace s)) = split_whitespace s"
    by (intro split_on_join) (auto dest: split_whitespace_pieces)
  then show ?thesis
    by (simp add: split_whitespace_def)
qed

lemma char_code_less [simp]: "char_code c < 256"
  by (simp add: char_code_def)

lemma char_code_char_of [simp]: "n < 256 \<Longrightarrow> char_code (char_of n) = n"
  by (simp add: char_code_def)

lemma ascii_lower_code:
  "char_code (ascii_lower c) = (if 65 \<le> char_code c \<and> char_code c \<le> 90 then char_code c + 32 else char_code c)"
  by (simp add: ascii_lower_def Let_def)

lemma ascii_lower_idem [simp]: "ascii_lower (ascii_lower c) = ascii_lower c"
proof -
  have "\<not> (65 \<le> char_code (ascii_lower c) \<and> char_code (ascii_lower c) \<le> 90)"
    by (simp add: ascii_lower_code)
  then show ?thesis by (auto simp: ascii_lower_def [of "ascii_lower c"] Let_def)
qed

lemma to_ascii_lowercase_idem [simp]: "to_ascii_lowercase (to_ascii_lowercase s) = to_ascii_lowercase s"
  by (simp add: to_ascii_lowercase_def)

lemma char_lower_code:
  "char_code (char_lower c) =
     (if (65 \<le> char_code c \<and> char_code c \<le> 90) \<or> (192 \<le> char_code c \<and> char_code c \<le> 222 \<and> char_code c \<noteq> 215)
      then char_code c + 32 else char_code c)"
  by (simp add: char_lower_def Let_def)

lemma char_lower_idem [simp]: "char_lower (char_lower c) = char_lower c"
proof -
  have "\<not> ((65 \<le> char_code (char_lower c) \<and> char_code (char_lower c) \<le> 90) \<or>
          (192 \<le> char_code (char_lower c) \<and> char_code (char_lower c) \<le> 222 \<and> char_code (char_lower c) \<noteq> 215))"
    by (simp add: char_lower_code)
  then show ?thesis by (auto simp: char_lower_def [of "char_lower c"] Let_def)
qed

lemma to_lowercase_idem [simp]: "to_lowercase (to_lowercase s) = to_lowercase s"
  by (simp add: to_lowercase_def)

lemma ascii_lower_space: "is_whitespace (ascii_lower c) = is_whitespace c"
  by (auto simp: is_whitespace_def ascii_lower_code Let_def)

lemma char_lower_space: "is_whitespace (char_lower c) = is_whitespace c"
  by (auto simp: is_whitespace_def char_lower_code Let_def)

lemma dropWhile_map_pred:
  "(\<And>c. P (f c) = P c) \<Longrightarrow> dropWhile P (map f s) = map f (dropWhile P s)"
  by (induction s) auto

lemma trim_map: "(\<And>c. is_whitespace (f c) = is_whitespace c) \<Longrightarrow> trim (map f s) = map f (trim s)"
  by (simp add: trim_def dropWhile_map_pred rev_map [symmetric] del: rev_map)
     (simp add: rev_map dropWhile_map_pred)

lemma dropWhile_dropWhile_rev:
  assumes "dropWhile P s = s"
  shows "dropWhile P (rev (dropWhile P (rev s))) = rev (dropWhile P (rev s))"
proof (cases s)
  case (Cons x xs)
  with assms have "\<not> P x" by (metis dropWhile.simps(2) impossible_Cons length_dropWhile_le)
  then have "dropWhile P (rev xs @ [x]) = dropWhile P (rev xs) @ [x]"
    by (induction "rev xs" rule: rev_induct) (auto simp: dropWhile_append)
  with Cons \<open>\<not> P x\<close> show ?thesis by simp
qed simp

lemma dropWhile_idem [simp]: "dropWhile P (dropWhile P s) = dropWhile P s"
  by (induction s) auto

lemma trim_idem [simp]: "trim (trim s) = trim s"
proof -
  have "dropWhile is_whitespace (trim s) = trim s"
    by (simp add: trim_def dropWhile_dropWhile_rev)
  then show ?thesis by (simp add: trim_def [of "trim s"]) (simp add: trim_def)
qed

lemma contains_refl [simp]: "contains s s"
  by (simp add: contains_def)

lemma contains_append: "contains (a @ p @ b) p"
  by (auto simp: contains_def sublist_def)

lemma map_append_right: "map f (a @ b) = map f a @ map f b"
  by simp

lemma digits_value_bound: "acc < 2 ^ 32 \<Longrightarrow> digits_value acc s = Some n \<Longrightarrow> n < 2 ^ 32"
proof (induction acc s rule: digits_value.induct)
  case (2 acc c cs)
  then show ?case by (auto simp: Let_def split: option.splits if_splits)
qed simp

lemma parse_u32_bound: "parse_u32 s = Some n \<Longrightarrow> n < 2 ^ 32"
  unfolding parse_u32_def Let_def
  by (rule digits_value_bound [of 0]) (auto split: if_splits simp del: digits_value.simps)

end
