(* ===== verification/Kv_Store.thy ===== *)
theory Kv_Store
  imports Rust_Strings "HOL-Library.AList"
begin

text \<open>
  The storage interface the node is written against. \<^verbatim>\<open>fold_db\<close>'s \<^verbatim>\<open>KvStore\<close> trait and its
  typed wrapper \<^verbatim>\<open>TypedKvStore\<close> are not part of this repository: an implementation is a
  parameter, a record of its four operations over an abstract store state, and the
  locale \<open>kv_store\<close> is the contract the node relies on. Reads return a result; writes
  return a result and the next state, so that a failed write in the middle of a loop
  leaves the state the earlier writes produced. Errors are carried as their displayed
  text. \<open>kv_reliable\<close> adds that operations do not fail. \<open>mem_ops\<close> is the in-memory store
  on association lists, which shows that the contract can be met.
\<close>

record ('s, 'e, 'v) kv_ops =
  kv_get :: "'s \<Rightarrow> string \<Rightarrow> 'e + 'v option"
  kv_put :: "'s \<Rightarrow> string \<Rightarrow> 'v \<Rightarrow> ('e + unit) \<times> 's"
  kv_delete :: "'s \<Rightarrow> string \<Rightarrow> ('e + bool) \<times> 's"
  kv_scan_prefix :: "'s \<Rightarrow> string \<Rightarrow> 'e + (string \<times> 'v) list"

text \<open>The loop \<^verbatim>\<open>for (k, v) in rows { store.put(k, v).await?; }\<close>.\<close>

fun put_all :: "('s, 'e, 'v) kv_ops \<Rightarrow> 's \<Rightarrow> (string \<times> 'v) list \<Rightarrow> ('e + unit) \<times> 's" where
  "put_all ops s [] = (Inr (), s)"
| "put_all ops s ((k, v) # rows) =
     (case kv_put ops s k v of
        (Inl e, s') \<Rightarrow> (Inl e, s')
      | (Inr _, s') \<Rightarrow> put_all ops s' rows)"

text \<open>The loop \<^verbatim>\<open>for k in keys { store.delete(k).await?; n += 1; }\<close>.\<close>

fun delete_all :: "('s, 'e, 'v) kv_ops \<Rightarrow> 's \<Rightarrow> string list \<Rightarrow> nat \<Rightarrow> ('e + nat) \<times> 's" where
  "delete_all ops s [] n = (Inr n, s)"
| "delete_all ops s (k # ks) n =
     (case kv_delete ops s k of
        (Inl e, s') \<Rightarrow> (Inl e, s')
      | (Inr _, s') \<Rightarrow> delete_all ops s' ks (Suc n))"

section \<open>The contract\<close>

text \<open>
  \<open>view s\<close> is the finite map a store state represents. An operation that succeeds does
  what its documentation says of that map; nothing is assumed of one that fails.
\<close>

locale kv_store =
  fixes ops :: "('s, 'e, 'v) kv_ops"
    and view :: "'s \<Rightarrow> string \<Rightarrow> 'v option"
  assumes get_ok: "kv_get ops s k = Inr r \<Longrightarrow> r = view s k"
    and put_ok: "kv_put ops s k v = (Inr u, s') \<Longrightarrow> view s' = (view s)(k \<mapsto> v)"
    and delete_ok: "kv_delete ops s k = (Inr b, s') \<Longrightarrow>
        view s' = (view s)(k := None) \<and> b = (view s k \<noteq> None)"
    and scan_ok: "kv_scan_prefix ops s p = Inr rows \<Longrightarrow>
        distinct (map fst rows) \<and> (\<forall>k v. (k, v) \<in> set rows \<longleftrightarrow> prefix p k \<and> view s k = Some v)"
begin

lemma scan_map_of:
  assumes "kv_scan_prefix ops s p = Inr rows"
  shows "map_of rows k = (if prefix p k then view s k else None)"
proof (cases "map_of rows k")
  case None
  then have "k \<notin> fst ` set rows" by (simp add: map_of_eq_None_iff)
  then have "\<And>v. (k, v) \<notin> set rows" by force
  with None scan_ok [OF assms] show ?thesis by (cases "view s k") auto
next
  case (Some v)
  then have "(k, v) \<in> set rows" by (rule map_of_SomeD)
  with Some scan_ok [OF assms] show ?thesis by auto
qed

lemma put_all_view:
  assumes "put_all ops s rows = (Inr u, s')"
  shows "view s' = view s ++ map_of (rev rows)"
  using assms
proof (induction rows arbitrary: s)
  case (Cons kv rows)
  obtain k v where kv: "kv = (k, v)" by (cases kv)
  with Cons.prems obtain t where t: "kv_put ops s k v = (Inr (), t)" "put_all ops t rows = (Inr u, s')"
    by (auto split: prod.splits sum.splits)
  from Cons.IH [OF t(2)] have "view s' = view t ++ map_of (rev rows)" .
  also have "view t = view s ++ [k \<mapsto> v]" using put_ok [OF t(1)] by simp
  finally show ?case
    by (simp add: kv del: map_add_upd map_add_empty)
qed simp

lemma put_all_view_distinct:
  assumes "put_all ops s rows = (Inr u, s')" "distinct (map fst rows)"
  shows "view s' k = (case map_of rows k of Some v \<Rightarrow> Some v | None \<Rightarrow> view s k)"
proof -
  have "map_of (rev rows) = map_of rows"
    using assms(2) by (rule map_of_rev_distinct)
  with put_all_view [OF assms(1)] show ?thesis
    by (simp add: map_add_def split: option.split)
qed

lemma delete_all_view:
  assumes "delete_all ops s ks n = (Inr m, s')"
  shows "view s' = (\<lambda>k. if k \<in> set ks then None else view s k)" "m = n + length ks"
  using assms
proof (induction ks arbitrary: s n)
  case (Cons k ks)
  {
    case 1
    then obtain b t where t: "kv_delete ops s k = (Inr b, t)" "delete_all ops t ks (Suc n) = (Inr m, s')"
      by (auto split: prod.splits sum.splits)
    with Cons.IH(1) [OF t(2)] delete_ok [OF t(1)] show ?case by (auto simp: fun_eq_iff)
  next
    case 2
    then obtain b t where t: "kv_delete ops s k = (Inr b, t)" "delete_all ops t ks (Suc n) = (Inr m, s')"
      by (auto split: prod.splits sum.splits)
    with Cons.IH(2) [OF t(2)] show ?case by simp
  }
qed auto

end

text \<open>A store in which a write that fails has no effect.\<close>

locale kv_atomic = kv_store +
  assumes put_fail: "kv_put ops s k v = (Inl e, s') \<Longrightarrow> view s' = view s"
    and delete_fail: "kv_delete ops s k = (Inl e, s') \<Longrightarrow> view s' = view s"
begin

lemma put_frame: "kv_put ops s k v = (r, s') \<Longrightarrow> k \<noteq> j \<Longrightarrow> view s' j = view s j"
  using put_fail put_ok by (cases r) fastforce+

lemma delete_frame: "kv_delete ops s k = (r, s') \<Longrightarrow> k \<noteq> j \<Longrightarrow> view s' j = view s j"
  using delete_fail delete_ok by (cases r) fastforce+

lemma delete_all_frame: "delete_all ops s ks n = (r, s') \<Longrightarrow> j \<notin> set ks \<Longrightarrow> view s' j = view s j"
proof (induction ks arbitrary: s n)
  case (Cons k ks)
  obtain b t where t: "kv_delete ops s k = (b, t)" by (cases "kv_delete ops s k")
  with delete_frame [OF t, of j] Cons show ?case by (cases b) auto
qed simp

end

text \<open>A store whose operations do not fail.\<close>

locale kv_reliable = kv_store +
  assumes get_total: "\<exists>r. kv_get ops s k = Inr r"
    and put_total: "\<exists>s'. kv_put ops s k v = (Inr (), s')"
    and delete_total: "\<exists>b s'. kv_delete ops s k = (Inr b, s')"
    and scan_total: "\<exists>rows. kv_scan_prefix ops s p = Inr rows"
begin

lemma get_eq: "kv_get ops s k = Inr (view s k)"
  using get_total [of s k] get_ok [of s k] by auto

lemma put_obtains:
  obtains s' where "kv_put ops s k v = (Inr (), s')" "view s' = (view s)(k \<mapsto> v)"
  using put_total [of s k v] put_ok [of s k v] by auto

lemma put_all_total: "\<exists>s'. put_all ops s rows = (Inr (), s')"
proof (induction rows arbitrary: s)
  case (Cons kv rows)
  obtain k v where kv: "kv = (k, v)" by (cases kv)
  obtain t where "kv_put ops s k v = (Inr (), t)" using put_total by blast
  with Cons.IH [of t] kv show ?case by simp
qed simp

lemma delete_all_total: "\<exists>m s'. delete_all ops s ks n = (Inr m, s')"
proof (induction ks arbitrary: s n)
  case (Cons k ks)
  obtain b t where "kv_delete ops s k = (Inr b, t)" using delete_total by blast
  with Cons.IH [of t "Suc n"] show ?case by simp
qed simp

end

sublocale kv_reliable \<subseteq> kv_atomic
proof
  fix s k v e s'
  assume "kv_put ops s k v = (Inl e, s')"
  with put_total [of s k v] show "view s' = view s" by auto
next
  fix s k e s'
  assume "kv_delete ops s k = (Inl e, s')"
  with delete_total [of s k] show "view s' = view s" by auto
qed

section \<open>Serialization\<close>

text \<open>
  \<^verbatim>\<open>serde_json::to_vec\<close> and \<^verbatim>\<open>from_slice\<close> are a parameter too: what is relied on is that a
  value read back from its own serialization is that value.
\<close>

definition codec_ok :: "('a \<Rightarrow> string + 'b) \<Rightarrow> ('b \<Rightarrow> string + 'a) \<Rightarrow> bool" where
  "codec_ok to_vec from_slice \<longleftrightarrow> (\<forall>x b. to_vec x = Inr b \<longrightarrow> from_slice b = Inr x)"

text \<open>A serializer that never fails, as for types whose fields are all representable.\<close>

definition codec_total :: "('a \<Rightarrow> string + 'b) \<Rightarrow> ('b \<Rightarrow> string + 'a) \<Rightarrow> bool" where
  "codec_total to_vec from_slice \<longleftrightarrow>
     codec_ok to_vec from_slice \<and> (\<forall>x. \<exists>b. to_vec x = Inr b)"

lemma codec_okD: "codec_ok tv fs \<Longrightarrow> tv x = Inr b \<Longrightarrow> fs b = Inr x"
  by (simp add: codec_ok_def)

lemma codec_total_ok: "codec_total tv fs \<Longrightarrow> codec_ok tv fs"
  by (simp add: codec_total_def)

lemma codec_total_Inr: "codec_total Inr Inr"
  by (simp add: codec_total_def codec_ok_def)

section \<open>The in-memory store\<close>

definition mem_ops :: "((string \<times> 'v) list, 'e, 'v) kv_ops" where
  "mem_ops = \<lparr>
     kv_get = (\<lambda>s k. Inr (map_of s k)),
     kv_put = (\<lambda>s k v. (Inr (), AList.update k v s)),
     kv_delete = (\<lambda>s k. (Inr (map_of s k \<noteq> None), AList.delete k s)),
     kv_scan_prefix = (\<lambda>s p. Inr (filter (\<lambda>(k, v). prefix p k) (AList.clearjunk s)))\<rparr>"

lemma mem_ops_simps [simp]:
  "kv_get mem_ops s k = Inr (map_of s k)"
  "kv_put mem_ops s k v = (Inr (), AList.update k v s)"
  "kv_delete mem_ops s k = (Inr (map_of s k \<noteq> None), AList.delete k s)"
  "kv_scan_prefix mem_ops s p = Inr (filter (\<lambda>(k, v). prefix p k) (AList.clearjunk s))"
  by (simp_all add: mem_ops_def)

lemma mem_kv_reliable: "kv_reliable mem_ops map_of"
proof unfold_locales
  fix s :: "(string \<times> 'v) list" and p :: string and rows :: "(string \<times> 'v) list"
  assume "kv_scan_prefix mem_ops s p = Inr rows"
  then have rows: "rows = filter (\<lambda>(k, v). prefix p k) (AList.clearjunk s)" by simp
  have "distinct (map fst (filter (\<lambda>(k, v). prefix p k) (AList.clearjunk s)))"
    by (rule distinct_map_filter) (rule distinct_clearjunk)
  moreover have "(k, v) \<in> set (AList.clearjunk s) \<longleftrightarrow> map_of s k = Some v" for k v
    using map_of_eq_Some_iff [OF distinct_clearjunk, of s k v] by (simp add: map_of_clearjunk)
  ultimately show "distinct (map fst rows) \<and>
      (\<forall>k v. (k, v) \<in> set rows \<longleftrightarrow> prefix p k \<and> map_of s k = Some v)"
    using rows by auto
qed (auto simp: update_conv' delete_conv')

interpretation mem: kv_reliable mem_ops map_of
  by (rule mem_kv_reliable)

end
