(* ===== verification/User_Profile.thy ===== *)
theory User_Profile
  imports Kv_Store
begin

text \<open>
  \<^verbatim>\<open>src/user_profile.rs\<close>: the typed accessor for user-scoped state. Every key it writes
  lives under \<^verbatim>\<open>user_profile/\<close> in the metadata namespace. The store over that namespace
  (\<^verbatim>\<open>TypedKvStore\<close>) is the parameter \<open>ops\<close>. The main fact is that the accessor meets the
  storage contract itself, on sub-keys and with its own error type, whatever store it is
  built on.
\<close>

datatype schema_error = InvalidData string

definition USER_PROFILE_PREFIX :: string where
  "USER_PROFILE_PREFIX = ''user_profile/''"

definition profile_key :: "string \<Rightarrow> string" where
  "profile_key sub_key = USER_PROFILE_PREFIX @ sub_key"

definition profile_get :: "('s, string, 'v) kv_ops \<Rightarrow> 's \<Rightarrow> string \<Rightarrow> schema_error + 'v option" where
  "profile_get ops s sub_key =
     map_err (\<lambda>e. InvalidData (''user_profile read '' @ quoted sub_key @ '' failed: '' @ e))
       (kv_get ops s (profile_key sub_key))"

definition profile_put ::
    "('s, string, 'v) kv_ops \<Rightarrow> 's \<Rightarrow> string \<Rightarrow> 'v \<Rightarrow> (schema_error + unit) \<times> 's" where
  "profile_put ops s sub_key v =
     (case kv_put ops s (profile_key sub_key) v of (r, s') \<Rightarrow>
       (map_err (\<lambda>e. InvalidData (''user_profile write '' @ quoted sub_key @ '' failed: '' @ e)) r, s'))"

definition profile_delete ::
    "('s, string, 'v) kv_ops \<Rightarrow> 's \<Rightarrow> string \<Rightarrow> (schema_error + bool) \<times> 's" where
  "profile_delete ops s sub_key =
     (case kv_delete ops s (profile_key sub_key) of (r, s') \<Rightarrow>
       (map_err (\<lambda>e. InvalidData (''user_profile delete '' @ quoted sub_key @ '' failed: '' @ e)) r, s'))"

definition profile_scan ::
    "('s, string, 'v) kv_ops \<Rightarrow> 's \<Rightarrow> string \<Rightarrow> schema_error + (string \<times> 'v) list" where
  "profile_scan ops s sub_prefix =
     res_bind
       (map_err (\<lambda>e. InvalidData (''user_profile scan '' @ quoted sub_prefix @ '' failed: '' @ e))
         (kv_scan_prefix ops s (profile_key sub_prefix)))
       (\<lambda>raw. Inr (map (\<lambda>(k, v).
          (case strip_prefix USER_PROFILE_PREFIX k of Some r \<Rightarrow> r | None \<Rightarrow> k, v)) raw))"

definition profile_ops :: "('s, string, 'v) kv_ops \<Rightarrow> ('s, schema_error, 'v) kv_ops" where
  "profile_ops ops = \<lparr>
     kv_get = profile_get ops, kv_put = profile_put ops,
     kv_delete = profile_delete ops, kv_scan_prefix = profile_scan ops\<rparr>"

definition profile_view :: "('s \<Rightarrow> string \<Rightarrow> 'v option) \<Rightarrow> 's \<Rightarrow> string \<Rightarrow> 'v option" where
  "profile_view view s sub_key = view s (profile_key sub_key)"

lemmas profile_op_defs =
  profile_get_def profile_put_def profile_delete_def profile_scan_def

lemma profile_ops_simps [simp]:
  "kv_get (profile_ops ops) = profile_get ops"
  "kv_put (profile_ops ops) = profile_put ops"
  "kv_delete (profile_ops ops) = profile_delete ops"
  "kv_scan_prefix (profile_ops ops) = profile_scan ops"
  by (simp_all add: profile_ops_def)

lemma profile_key_inject [simp]: "profile_key a = profile_key b \<longleftrightarrow> a = b"
  by (simp add: profile_key_def)

lemma profile_key_prefix [simp]: "prefix (profile_key a) (profile_key b) \<longleftrightarrow> prefix a b"
  by (simp add: profile_key_def)

lemma strip_profile_key [simp]: "strip_prefix USER_PROFILE_PREFIX (profile_key k) = Some k"
  by (simp add: profile_key_def)

lemma under_profile_key: "prefix (profile_key p) k \<Longrightarrow> \<exists>k'. k = profile_key k' \<and> prefix p k'"
  by (auto simp: prefix_def profile_key_def)

lemma profile_scan_rows:
  assumes "kv_store ops view" "profile_scan ops s p = Inr rows"
  shows "distinct (map fst rows) \<and>
    (\<forall>k v. (k, v) \<in> set rows \<longleftrightarrow> prefix p k \<and> profile_view view s k = Some v)"
proof -
  from assms(2) obtain raw where raw: "kv_scan_prefix ops s (profile_key p) = Inr raw"
    and rows: "rows = map (\<lambda>(k, v). (case strip_prefix USER_PROFILE_PREFIX k of Some r \<Rightarrow> r | None \<Rightarrow> k, v)) raw"
    by (auto simp: profile_scan_def res_bind_eq_Inr)
  have law: "distinct (map fst raw)"
    "\<And>k v. (k, v) \<in> set raw \<longleftrightarrow> prefix (profile_key p) k \<and> view s k = Some v"
    using kv_store.scan_ok [OF assms(1) raw] by auto
  let ?f = "\<lambda>k. case strip_prefix USER_PROFILE_PREFIX k of Some r \<Rightarrow> r | None \<Rightarrow> k"
  have keys: "\<exists>k'. k = profile_key k' \<and> prefix p k'" if "(k, v) \<in> set raw" for k v
    using law(2) that under_profile_key by blast
  have "map fst rows = map ?f (map fst raw)" by (simp add: rows case_prod_beta)
  moreover have "inj_on ?f (set (map fst raw))"
  proof (rule inj_onI)
    fix a b
    assume ab: "a \<in> set (map fst raw)" "b \<in> set (map fst raw)" "?f a = ?f b"
    have "\<exists>k'. k = profile_key k'" if "k \<in> set (map fst raw)" for k
      using that by (auto dest!: keys)
    with ab(1,2) obtain a' b' where "a = profile_key a'" "b = profile_key b'" by meson
    with ab(3) show "a = b" by simp
  qed
  ultimately have "distinct (map fst rows)"
    using law(1) by (simp only: distinct_map)
  moreover have "(k, v) \<in> set rows \<longleftrightarrow> prefix p k \<and> profile_view view s k = Some v" for k v
  proof
    assume "(k, v) \<in> set rows"
    then obtain k0 where k0: "(k0, v) \<in> set raw" "k = ?f k0" by (auto simp: rows)
    with keys obtain k' where "k0 = profile_key k'" "prefix p k'" by blast
    with k0 law(2) show "prefix p k \<and> profile_view view s k = Some v"
      by (auto simp: profile_view_def)
  next
    assume "prefix p k \<and> profile_view view s k = Some v"
    then have "(profile_key k, v) \<in> set raw" by (simp add: law(2) profile_view_def)
    then have "(?f (profile_key k), v) \<in> set rows" by (force simp: rows)
    then show "(k, v) \<in> set rows" by simp
  qed
  ultimately show ?thesis by blast
qed

text \<open>
  The accessor implements the storage contract over sub-keys, given that the store below
  implements it over full keys.
\<close>

lemma profile_kv_store:
  assumes "kv_store ops view"
  shows "kv_store (profile_ops ops) (profile_view view)"
proof (rule kv_store.intro)
  show "r = profile_view view s k" if "kv_get (profile_ops ops) s k = Inr r" for s k r
    using that kv_store.get_ok [OF assms] by (auto simp: profile_get_def profile_view_def)
next
  fix s k v u s'
  assume "kv_put (profile_ops ops) s k v = (Inr u, s')"
  then have "kv_put ops s (profile_key k) v = (Inr u, s')"
    by (auto simp: profile_put_def split: prod.splits)
  from kv_store.put_ok [OF assms this] show "profile_view view s' = (profile_view view s)(k \<mapsto> v)"
    by (auto simp: profile_view_def fun_eq_iff)
next
  fix s k b s'
  assume "kv_delete (profile_ops ops) s k = (Inr b, s')"
  then have "kv_delete ops s (profile_key k) = (Inr b, s')"
    by (auto simp: profile_delete_def split: prod.splits)
  from kv_store.delete_ok [OF assms this]
  show "profile_view view s' = (profile_view view s)(k := None) \<and> b = (profile_view view s k \<noteq> None)"
    by (auto simp: profile_view_def fun_eq_iff)
next
  show "distinct (map fst rows) \<and>
      (\<forall>k v. (k, v) \<in> set rows \<longleftrightarrow> prefix p k \<and> profile_view view s k = Some v)"
    if "kv_scan_prefix (profile_ops ops) s p = Inr rows" for s p rows
    using that profile_scan_rows [OF assms] by simp
qed

lemma profile_scan_values:
  assumes "kv_store ops view" "profile_scan ops s p = Inr rows"
  shows "set (map snd rows) = {v. \<exists>n. profile_view view s (p @ n) = Some v}"
proof -
  have "v \<in> set (map snd rows) \<longleftrightarrow> (\<exists>k. (k, v) \<in> set rows)" for v by force
  also have "(\<exists>k. (k, v) \<in> set rows) \<longleftrightarrow> (\<exists>k. prefix p k \<and> profile_view view s k = Some v)" for v
    using profile_scan_rows [OF assms] by blast
  also have "(\<exists>k. prefix p k \<and> profile_view view s k = Some v) \<longleftrightarrow>
      (\<exists>n. profile_view view s (p @ n) = Some v)" for v
    by (auto simp: prefix_def)
  finally show ?thesis by blast
qed

lemma profile_kv_reliable:
  assumes "kv_reliable ops view"
  shows "kv_reliable (profile_ops ops) (profile_view view)"
proof (rule kv_reliable.intro)
  have store: "kv_store ops view" using assms by (simp add: kv_reliable_def)
  then show "kv_store (profile_ops ops) (profile_view view)" by (rule profile_kv_store)
  show "kv_reliable_axioms (profile_ops ops)"
  proof (rule kv_reliable_axioms.intro)
    fix s k v p
    show "\<exists>r. kv_get (profile_ops ops) s k = Inr r"
      using kv_reliable.get_total [OF assms] by (simp add: profile_get_def)
    show "\<exists>s'. kv_put (profile_ops ops) s k v = (Inr (), s')"
      using kv_reliable.put_total [OF assms, of s "profile_key k" v]
      by (auto simp: profile_put_def split: prod.splits)
    show "\<exists>b s'. kv_delete (profile_ops ops) s k = (Inr b, s')"
      using kv_reliable.delete_total [OF assms, of s "profile_key k"]
      by (auto simp: profile_delete_def split: prod.splits)
    show "\<exists>rows. kv_scan_prefix (profile_ops ops) s p = Inr rows"
      using kv_reliable.scan_total [OF assms, of s "profile_key p"]
      by (auto simp: profile_scan_def)
  qed
qed

text \<open>The profile accessor over the in-memory store.\<close>

interpretation profile_mem: kv_reliable "profile_ops mem_ops" "profile_view map_of"
  by (rule profile_kv_reliable [OF mem_kv_reliable])

end
