(* ===== verification/Contact_Book.thy ===== *)
theory Contact_Book
  imports User_Profile
begin

text \<open>
  \<^verbatim>\<open>src/trust/contact_book.rs\<close>: the contacts of a user, keyed by public key, kept in the
  profile store one record per contact. \<open>book_ok\<close> is the invariant of the book (each
  contact is filed under its own key), kept by every operation. A saved book is read back
  unchanged, merged over what the store held before.
\<close>

datatype trust_direction = Outgoing | Incoming | Mutual

record contact =
  public_key :: string
  display_name :: string
  contact_hint :: "string option"
  direction :: trust_direction
  connected_at :: int
  pseudonym :: "string option"
  messaging_pseudonym :: "string option"
  messaging_public_key :: "string option"
  identity_pseudonym :: "string option"
  revoked :: bool
  roles :: "string \<rightharpoonup> string"

type_synonym contact_book = "string \<rightharpoonup> contact"

definition CONTACTS_PREFIX :: string where
  "CONTACTS_PREFIX = ''contacts/''"

definition contact_key :: "string \<Rightarrow> string" where
  "contact_key pk = CONTACTS_PREFIX @ pk"

definition from_discovery ::
    "string \<Rightarrow> string \<Rightarrow> string option \<Rightarrow> trust_direction \<Rightarrow> int \<Rightarrow> string option \<Rightarrow> string option
     \<Rightarrow> string option \<Rightarrow> string \<Rightarrow> string \<Rightarrow> contact" where
  "from_discovery pk name hint dir now ps msg_pk id_ps role_domain role_name = \<lparr>
     public_key = pk, display_name = name, contact_hint = hint, direction = dir,
     connected_at = now, pseudonym = ps, messaging_pseudonym = ps,
     messaging_public_key = msg_pk, identity_pseudonym = id_ps, revoked = False,
     roles = [role_domain \<mapsto> role_name]\<rparr>"

definition new_book :: contact_book where
  "new_book = Map.empty"

definition load_contacts :: "('s, string, contact) kv_ops \<Rightarrow> 's \<Rightarrow> schema_error + contact_book" where
  "load_contacts ops s =
     res_bind (profile_scan ops s CONTACTS_PREFIX) (\<lambda>rows.
       Inr (collect_map (map (\<lambda>(k, c).
         (case strip_prefix CONTACTS_PREFIX k of Some pk \<Rightarrow> pk | None \<Rightarrow> k, c)) rows)))"

text \<open>\<open>it\<close> is the iteration order of the hash map.\<close>

definition save_contacts ::
    "(string set \<Rightarrow> string list) \<Rightarrow> ('s, string, contact) kv_ops \<Rightarrow> 's \<Rightarrow> contact_book
     \<Rightarrow> (schema_error + unit) \<times> 's" where
  "save_contacts it ops s book =
     put_all (profile_ops ops) s (map (\<lambda>pk. (contact_key pk, the (book pk))) (it (dom book)))"

definition save_one ::
    "('s, string, contact) kv_ops \<Rightarrow> 's \<Rightarrow> contact \<Rightarrow> (schema_error + unit) \<times> 's" where
  "save_one ops s c = profile_put ops s (contact_key (public_key c)) c"

definition keep_new :: "'a option \<Rightarrow> 'a option \<Rightarrow> 'a option" where
  "keep_new new old = (if new \<noteq> None then new else old)"

definition upsert_contact :: "contact \<Rightarrow> contact_book \<Rightarrow> contact_book" where
  "upsert_contact c book =
     (case book (public_key c) of
        Some existing \<Rightarrow> book(public_key c \<mapsto> existing\<lparr>
          display_name := display_name c,
          contact_hint := contact_hint c,
          direction := direction c,
          connected_at := connected_at c,
          pseudonym := keep_new (pseudonym c) (pseudonym existing),
          messaging_pseudonym := keep_new (messaging_pseudonym c) (messaging_pseudonym existing),
          messaging_public_key := keep_new (messaging_public_key c) (messaging_public_key existing),
          identity_pseudonym := keep_new (identity_pseudonym c) (identity_pseudonym existing),
          roles := (if dom (roles c) \<noteq> {} then roles c else roles existing),
          revoked := False\<rparr>)
      | None \<Rightarrow> book(public_key c \<mapsto> c))"

definition revoke :: "string \<Rightarrow> contact_book \<Rightarrow> bool \<times> contact_book" where
  "revoke pk book =
     (case book pk of
        Some c \<Rightarrow> (True, book(pk \<mapsto> c\<lparr>revoked := True\<rparr>))
      | None \<Rightarrow> (False, book))"

definition mark_mutual :: "string \<Rightarrow> contact_book \<Rightarrow> contact_book" where
  "mark_mutual pk book =
     (case book pk of Some c \<Rightarrow> book(pk \<mapsto> c\<lparr>direction := Mutual\<rparr>) | None \<Rightarrow> book)"

definition get_contact :: "contact_book \<Rightarrow> string \<Rightarrow> contact option" where
  "get_contact book pk = book pk"

definition active_contacts :: "(string set \<Rightarrow> string list) \<Rightarrow> contact_book \<Rightarrow> contact list" where
  "active_contacts it book =
     filter (\<lambda>c. \<not> revoked c) (map (\<lambda>pk. the (book pk)) (it (dom book)))"

section \<open>The invariant of the book\<close>

definition book_ok :: "contact_book \<Rightarrow> bool" where
  "book_ok book \<longleftrightarrow> finite (dom book) \<and> (\<forall>pk c. book pk = Some c \<longrightarrow> public_key c = pk)"

lemma book_ok_new: "book_ok new_book"
  by (simp add: book_ok_def new_book_def)

lemma book_ok_upd: "book_ok book \<Longrightarrow> public_key c = pk \<Longrightarrow> book_ok (book(pk \<mapsto> c))"
  by (simp add: book_ok_def)

lemma book_ok_upsert: "book_ok book \<Longrightarrow> book_ok (upsert_contact c book)"
  by (cases "book (public_key c)")
    (auto simp: upsert_contact_def intro!: book_ok_upd, auto simp: book_ok_def)

lemma book_ok_revoke: "book_ok book \<Longrightarrow> book_ok (snd (revoke pk book))"
  by (cases "book pk") (auto simp: revoke_def intro!: book_ok_upd, auto simp: book_ok_def)

lemma book_ok_mark_mutual: "book_ok book \<Longrightarrow> book_ok (mark_mutual pk book)"
  by (cases "book pk") (auto simp: mark_mutual_def intro!: book_ok_upd, auto simp: book_ok_def)

text \<open>The operations as data, and the books a sequence of them reaches.\<close>

datatype book_op = Upsert contact | Revoke string | MarkMutual string

fun run_book_op :: "book_op \<Rightarrow> contact_book \<Rightarrow> contact_book" where
  "run_book_op (Upsert c) book = upsert_contact c book"
| "run_book_op (Revoke pk) book = snd (revoke pk book)"
| "run_book_op (MarkMutual pk) book = mark_mutual pk book"

definition run_book_ops :: "book_op list \<Rightarrow> contact_book \<Rightarrow> contact_book" where
  "run_book_ops xs book = fold run_book_op xs book"

lemma book_ok_run_op: "book_ok book \<Longrightarrow> book_ok (run_book_op x book)"
  by (cases x) (auto simp: book_ok_upsert book_ok_revoke book_ok_mark_mutual)

lemma book_ok_run_ops: "book_ok book \<Longrightarrow> book_ok (run_book_ops xs book)"
  unfolding run_book_ops_def by (induction xs arbitrary: book) (auto simp: book_ok_run_op)

lemma dom_run_op: "dom book \<subseteq> dom (run_book_op x book)"
  by (cases x) (auto simp: upsert_contact_def revoke_def mark_mutual_def split: option.splits)

lemma dom_run_ops: "dom book \<subseteq> dom (run_book_ops xs book)"
  unfolding run_book_ops_def
proof (induction xs arbitrary: book)
  case (Cons x xs)
  have "dom book \<subseteq> dom (run_book_op x book)" by (rule dom_run_op)
  also have "\<dots> \<subseteq> dom (fold run_book_op xs (run_book_op x book))" by (rule Cons.IH)
  finally show ?case by simp
qed simp

text \<open>A revoked contact stays revoked until it is upserted again.\<close>

definition revoked_in :: "contact_book \<Rightarrow> string \<Rightarrow> bool" where
  "revoked_in book pk = (case book pk of Some c \<Rightarrow> revoked c | None \<Rightarrow> False)"

definition upserts :: "string \<Rightarrow> book_op \<Rightarrow> bool" where
  "upserts pk x = (case x of Upsert c \<Rightarrow> public_key c = pk | _ \<Rightarrow> False)"

lemma revoked_run_op: "revoked_in book pk \<Longrightarrow> \<not> upserts pk x \<Longrightarrow> revoked_in (run_book_op x book) pk"
  by (cases x)
    (auto simp: revoked_in_def upserts_def upsert_contact_def revoke_def mark_mutual_def split: option.splits)

lemma revoked_run_ops:
  "revoked_in book pk \<Longrightarrow> list_all (\<lambda>x. \<not> upserts pk x) xs \<Longrightarrow> revoked_in (run_book_ops xs book) pk"
  unfolding run_book_ops_def by (induction xs arbitrary: book) (auto simp: revoked_run_op)

lemma revoke_revokes: "fst (revoke pk book) \<Longrightarrow> revoked_in (snd (revoke pk book)) pk"
  by (auto simp: revoke_def revoked_in_def split: option.splits)

lemma active_contacts_set:
  assumes "book_ok book" "iteration_order it"
  shows "set (active_contacts it book) = {c. book (public_key c) = Some c \<and> \<not> revoked c}"
proof -
  have "set (it (dom book)) = dom book"
    by (rule iteration_orderD(2) [OF assms(2)]) (use assms(1) in \<open>simp add: book_ok_def\<close>)
  then have "c \<in> set (active_contacts it book) \<longleftrightarrow> (\<exists>pk. book pk = Some c) \<and> \<not> revoked c" for c
    by (force simp: active_contacts_def dom_def image_iff)
  with assms(1) show ?thesis unfolding book_ok_def by blast
qed

section \<open>Persistence\<close>

lemma contact_key_inject [simp]: "contact_key a = contact_key b \<longleftrightarrow> a = b"
  by (simp add: contact_key_def)

lemma contact_key_prefix [simp]: "prefix CONTACTS_PREFIX (contact_key pk)"
  by (simp add: contact_key_def)

lemma strip_contact_key [simp]: "strip_prefix CONTACTS_PREFIX (contact_key pk) = Some pk"
  by (simp add: contact_key_def)

lemma under_contacts: "prefix CONTACTS_PREFIX k \<Longrightarrow> \<exists>pk. k = contact_key pk"
  by (auto simp: prefix_def contact_key_def)

text \<open>What a store state holds of contacts.\<close>

definition stored_contacts :: "('s \<Rightarrow> string \<Rightarrow> contact option) \<Rightarrow> 's \<Rightarrow> contact_book" where
  "stored_contacts view s pk = profile_view view s (contact_key pk)"

abbreviation contact_row :: "string \<times> contact \<Rightarrow> string \<times> contact" where
  "contact_row \<equiv> \<lambda>(k, c). (case strip_prefix CONTACTS_PREFIX k of Some pk \<Rightarrow> pk | None \<Rightarrow> k, c)"

lemma map_of_contact_rows:
  assumes "\<And>k v. (k, v) \<in> set rows \<Longrightarrow> prefix CONTACTS_PREFIX k"
  shows "map_of (map contact_row rows) pk = map_of rows (contact_key pk)"
  using assms
proof (induction rows)
  case (Cons kc rows)
  obtain k c where kc: "kc = (k, c)" by (cases kc)
  with Cons.prems obtain pk0 where k: "k = contact_key pk0" using under_contacts by fastforce
  have "map_of (map contact_row rows) pk = map_of rows (contact_key pk)"
    using Cons.prems by (intro Cons.IH) auto
  with kc k show ?case by simp
qed simp

lemma distinct_contact_rows:
  assumes "\<And>k v. (k, v) \<in> set rows \<Longrightarrow> prefix CONTACTS_PREFIX k" "distinct (map fst rows)"
  shows "distinct (map fst (map contact_row rows))"
  using assms
proof (induction rows)
  case (Cons kc rows)
  obtain k c where kc: "kc = (k, c)" by (cases kc)
  with Cons.prems(1) obtain pk0 where k: "k = contact_key pk0" using under_contacts by fastforce
  have "map_of (map contact_row rows) pk0 = map_of rows (contact_key pk0)"
    using Cons.prems(1) by (intro map_of_contact_rows) auto
  also have "\<dots> = None" using Cons.prems(2) kc k by (simp add: map_of_eq_None_iff)
  finally have "pk0 \<notin> fst ` set (map contact_row rows)" by (simp only: map_of_eq_None_iff not_False_eq_True)
  moreover have "distinct (map fst (map contact_row rows))"
    using Cons.prems by (intro Cons.IH) auto
  ultimately show ?case by (simp add: kc k image_image)
qed simp

lemma load_contacts_eq:
  assumes "kv_store ops view" "load_contacts ops s = Inr book"
  shows "book = stored_contacts view s"
proof
  fix pk
  from assms(2) obtain rows where rows: "profile_scan ops s CONTACTS_PREFIX = Inr rows"
    and book: "book = collect_map (map contact_row rows)"
    by (auto simp: load_contacts_def res_bind_eq_Inr)
  have law: "distinct (map fst rows)" "\<And>k v. (k, v) \<in> set rows \<Longrightarrow> prefix CONTACTS_PREFIX k"
    using profile_scan_rows [OF assms(1) rows] by auto
  have "map_of rows (contact_key pk) = profile_view view s (contact_key pk)"
    using kv_store.scan_map_of [OF profile_kv_store [OF assms(1)], of s CONTACTS_PREFIX rows] rows by simp
  then show "book pk = stored_contacts view s pk"
    using map_of_contact_rows [OF law(2)] distinct_contact_rows [OF law(2,1)]
    by (simp only: book stored_contacts_def collect_map_distinct)
qed

lemma map_of_book_rows:
  assumes "finite (dom book)" "iteration_order it"
  shows "map_of (map (\<lambda>pk. (contact_key pk, the (book pk))) (it (dom book))) (contact_key pk) = book pk"
proof -
  have it: "distinct (it (dom book))" "set (it (dom book)) = dom book"
    using iteration_orderD [OF assms(2,1)] by auto
  have "map_of (map (\<lambda>pk. (contact_key pk, the (book pk))) xs) (contact_key pk) =
      (if pk \<in> set xs then Some (the (book pk)) else None)" for xs
    by (induction xs) auto
  with it show ?thesis by (cases "book pk") (auto simp: dom_def)
qed

lemma save_contacts_stored:
  assumes "kv_store ops view" "iteration_order it" "finite (dom book)"
    and "save_contacts it ops s book = (Inr u, s')"
  shows "stored_contacts view s' = stored_contacts view s ++ book"
proof
  fix pk
  let ?rows = "map (\<lambda>pk. (contact_key pk, the (book pk))) (it (dom book))"
  have "distinct (map fst ?rows)"
    using iteration_orderD(1) [OF assms(2,3)] by (simp add: comp_def distinct_map inj_on_def)
  then have "profile_view view s' k = (case map_of ?rows k of Some v \<Rightarrow> Some v | None \<Rightarrow> profile_view view s k)" for k
    using kv_store.put_all_view_distinct [OF profile_kv_store [OF assms(1)]] assms(4)
    by (simp add: save_contacts_def)
  then show "stored_contacts view s' pk = (stored_contacts view s ++ book) pk"
    using map_of_book_rows [OF assms(3,2)]
    by (simp add: stored_contacts_def map_add_def split: option.split)
qed

lemma save_one_stored:
  assumes "kv_store ops view" "save_one ops s c = (Inr u, s')"
  shows "stored_contacts view s' = (stored_contacts view s)(public_key c \<mapsto> c)"
proof -
  have "profile_view view s' = (profile_view view s)(contact_key (public_key c) \<mapsto> c)"
    using kv_store.put_ok [OF profile_kv_store [OF assms(1)]] assms(2) by (simp add: save_one_def)
  then show ?thesis by (auto simp: stored_contacts_def fun_eq_iff)
qed

lemma mem_load_contacts: "\<exists>book. load_contacts mem_ops s = Inr book"
  using profile_mem.scan_total [of s CONTACTS_PREFIX] by (auto simp: load_contacts_def)

end
