(* ===== verification/Sharing_Roles.thy ===== *)
theory Sharing_Roles
  imports User_Profile
begin

text \<open>
  \<^verbatim>\<open>src/trust/sharing_roles.rs\<close>: role definitions, each a (domain, tier) pair under a
  name, kept in the profile store one record per name. Loading from a store that has no
  role seeds the built-in roles and persists them.
\<close>

text \<open>\<^verbatim>\<open>AccessTier\<close> is declared by \<^verbatim>\<open>fold_db\<close>; these are the tiers this repository names.\<close>

datatype access_tier = Public | Outer | Trusted | Inner | Owner

record sharing_role =
  role_name :: string
  role_domain :: string
  role_tier :: access_tier
  role_description :: string

type_synonym role_config = "string \<rightharpoonup> sharing_role"

definition SHARING_ROLES_PREFIX :: string where
  "SHARING_ROLES_PREFIX = ''sharing_roles/''"

definition role_key :: "string \<Rightarrow> string" where
  "role_key name = SHARING_ROLES_PREFIX @ name"

definition add_role ::
    "string \<Rightarrow> string \<Rightarrow> access_tier \<Rightarrow> string \<Rightarrow> role_config \<Rightarrow> role_config" where
  "add_role name d tier desc cfg =
     cfg(name \<mapsto> \<lparr>role_name = name, role_domain = d, role_tier = tier, role_description = desc\<rparr>)"

definition default_roles :: role_config where
  "default_roles =
     (add_role ''financial_advisor'' ''financial'' Inner ''Can see financial data'' \<circ>
      add_role ''doctor'' ''medical'' Inner ''Can see medical records'' \<circ>
      add_role ''trainer'' ''health'' Trusted ''Can see fitness and wellness data'' \<circ>
      add_role ''family'' ''family'' Inner ''Can see family-related data'' \<circ>
      add_role ''acquaintance'' ''personal'' Outer ''Minimal personal sharing'' \<circ>
      add_role ''friend'' ''personal'' Trusted ''Can see general personal data'' \<circ>
      add_role ''close_friend'' ''personal'' Inner ''Can see most personal data'') Map.empty"

definition save_roles ::
    "(string set \<Rightarrow> string list) \<Rightarrow> ('s, string, sharing_role) kv_ops \<Rightarrow> 's \<Rightarrow> role_config
     \<Rightarrow> (schema_error + unit) \<times> 's" where
  "save_roles it ops s cfg =
     put_all (profile_ops ops) s (map (\<lambda>n. (role_key n, the (cfg n))) (it (dom cfg)))"

definition load_roles ::
    "(string set \<Rightarrow> string list) \<Rightarrow> ('s, string, sharing_role) kv_ops \<Rightarrow> 's
     \<Rightarrow> (schema_error + role_config) \<times> 's" where
  "load_roles it ops s =
     (case profile_scan ops s SHARING_ROLES_PREFIX of
        Inl e \<Rightarrow> (Inl e, s)
      | Inr rows \<Rightarrow>
          (if rows = [] then
             (case save_roles it ops s default_roles of
                (Inl e, s') \<Rightarrow> (Inl e, s')
              | (Inr _, s') \<Rightarrow> (Inr default_roles, s'))
           else (Inr (collect_map (map (\<lambda>(_, role). (role_name role, role)) rows)), s)))"

definition get_role :: "role_config \<Rightarrow> string \<Rightarrow> sharing_role option" where
  "get_role cfg name = cfg name"

definition roles_for_domain ::
    "(string set \<Rightarrow> string list) \<Rightarrow> role_config \<Rightarrow> string \<Rightarrow> sharing_role list" where
  "roles_for_domain it cfg dom_name =
     filter (\<lambda>r. role_domain r = dom_name) (map (\<lambda>n. the (cfg n)) (it (dom cfg)))"

section \<open>Well-formed configurations\<close>

text \<open>Each role is filed under its own name.\<close>

definition roles_ok :: "role_config \<Rightarrow> bool" where
  "roles_ok cfg \<longleftrightarrow> finite (dom cfg) \<and> (\<forall>n r. cfg n = Some r \<longrightarrow> role_name r = n)"

definition stored_roles :: "('s \<Rightarrow> string \<Rightarrow> sharing_role option) \<Rightarrow> 's \<Rightarrow> role_config" where
  "stored_roles view s n = profile_view view s (role_key n)"

lemma role_key_inject [simp]: "role_key a = role_key b \<longleftrightarrow> a = b"
  by (simp add: role_key_def)

lemma role_key_prefix [simp]: "prefix SHARING_ROLES_PREFIX (role_key n)"
  by (simp add: role_key_def)

lemma under_roles: "prefix SHARING_ROLES_PREFIX k \<Longrightarrow> \<exists>n. k = role_key n"
  by (auto simp: prefix_def role_key_def)

lemma roles_ok_add: "roles_ok cfg \<Longrightarrow> roles_ok (add_role n d t desc cfg)"
  by (simp add: roles_ok_def add_role_def)

lemma roles_ok_default: "roles_ok default_roles"
  unfolding default_roles_def comp_def
  by (intro roles_ok_add) (simp add: roles_ok_def)

lemma dom_default_roles:
  "dom default_roles = {''close_friend'', ''friend'', ''acquaintance'', ''family'', ''trainer'',
     ''doctor'', ''financial_advisor''}"
  by (auto simp: default_roles_def add_role_def)

section \<open>Persistence\<close>

lemma map_of_role_rows:
  assumes "finite (dom cfg)" "iteration_order it"
  shows "map_of (map (\<lambda>n. (role_key n, the (cfg n))) (it (dom cfg))) (role_key n) = cfg n"
proof -
  have it: "set (it (dom cfg)) = dom cfg" using iteration_orderD [OF assms(2,1)] by auto
  have "map_of (map (\<lambda>n. (role_key n, the (cfg n))) xs) (role_key n) =
      (if n \<in> set xs then Some (the (cfg n)) else None)" for xs
    by (induction xs) auto
  with it show ?thesis by (cases "cfg n") (auto simp: dom_def)
qed

lemma save_roles_stored:
  assumes "kv_store ops view" "iteration_order it" "finite (dom cfg)"
    and "save_roles it ops s cfg = (Inr u, s')"
  shows "stored_roles view s' = stored_roles view s ++ cfg"
proof
  fix n
  let ?rows = "map (\<lambda>n. (role_key n, the (cfg n))) (it (dom cfg))"
  have "distinct (map fst ?rows)"
    using iteration_orderD(1) [OF assms(2,3)] by (simp add: comp_def distinct_map inj_on_def)
  then have "profile_view view s' k = (case map_of ?rows k of Some v \<Rightarrow> Some v | None \<Rightarrow> profile_view view s k)" for k
    using kv_store.put_all_view_distinct [OF profile_kv_store [OF assms(1)]] assms(4)
    by (simp add: save_roles_def)
  then show "stored_roles view s' n = (stored_roles view s ++ cfg) n"
    using map_of_role_rows [OF assms(3,2)]
    by (simp add: stored_roles_def map_add_def split: option.split)
qed

lemma role_rows_map_of:
  assumes "\<And>k r. (k, r) \<in> set rows \<Longrightarrow> k = role_key (role_name r)"
  shows "map_of (map (\<lambda>(_, role). (role_name role, role)) rows) n = map_of rows (role_key n)"
  using assms
proof (induction rows)
  case (Cons kr rows)
  obtain k r where kr: "kr = (k, r)" by (cases kr)
  with Cons.prems have k: "k = role_key (role_name r)" by simp
  have "map_of (map (\<lambda>(_, role). (role_name role, role)) rows) n = map_of rows (role_key n)"
    using Cons.prems by (intro Cons.IH) auto
  with kr k show ?case by simp
qed simp

lemma distinct_role_rows:
  assumes "\<And>k r. (k, r) \<in> set rows \<Longrightarrow> k = role_key (role_name r)" "distinct (map fst rows)"
  shows "distinct (map fst (map (\<lambda>(_, role). (role_name role, role)) rows))"
proof -
  let ?names = "map fst (map (\<lambda>(_, role). (role_name role, role)) rows)"
  have eq: "map fst rows = map role_key ?names"
    using assms(1) by (auto simp: case_prod_beta)
  have "distinct (map role_key ?names)"
    using assms(2) by (simp only: eq)
  then show ?thesis by (simp only: distinct_map)
qed

lemma load_roles_stored:
  assumes store: "kv_store ops view" and ok: "roles_ok (stored_roles view s)"
    and ne: "stored_roles view s \<noteq> Map.empty"
    and load: "load_roles it ops s = (Inr cfg, s')"
  shows "cfg = stored_roles view s \<and> s' = s"
proof -
  from load obtain rows where rows: "profile_scan ops s SHARING_ROLES_PREFIX = Inr rows"
    by (auto simp: load_roles_def split: sum.splits)
  note law = profile_scan_rows [OF store rows]
  from ne obtain n r where nr: "stored_roles view s n = Some r" by (auto simp: fun_eq_iff)
  then have "(role_key n, r) \<in> set rows" using law by (simp add: stored_roles_def)
  then have ne': "rows \<noteq> []" by auto
  have keys: "k = role_key (role_name r)" if "(k, r) \<in> set rows" for k r
  proof -
    from that law have "prefix SHARING_ROLES_PREFIX k" "profile_view view s k = Some r" by auto
    with under_roles obtain n where "k = role_key n" by blast
    with \<open>profile_view view s k = Some r\<close> ok show ?thesis
      by (simp add: roles_ok_def stored_roles_def)
  qed
  have "map_of rows (role_key n) = stored_roles view s n" for n
    using kv_store.scan_map_of [OF profile_kv_store [OF store], of s SHARING_ROLES_PREFIX rows] rows
    by (simp add: stored_roles_def)
  moreover have "cfg = collect_map (map (\<lambda>(_, role). (role_name role, role)) rows) \<and> s' = s"
    using load rows ne' by (simp add: load_roles_def)
  moreover have "map_of (map (\<lambda>(_, role). (role_name role, role)) rows) n = map_of rows (role_key n)" for n
    using keys by (rule role_rows_map_of)
  moreover have "distinct (map fst (map (\<lambda>(_, role). (role_name role, role)) rows))"
    using keys law by (intro distinct_role_rows) auto
  ultimately show ?thesis
    by (simp only: collect_map_distinct fun_eq_iff) simp
qed

lemma load_roles_seeds:
  assumes store: "kv_store ops view" and it: "iteration_order it"
    and empty: "stored_roles view s = Map.empty"
    and load: "load_roles it ops s = (Inr cfg, s')"
  shows "cfg = default_roles \<and> stored_roles view s' = default_roles"
proof -
  from load obtain rows where rows: "profile_scan ops s SHARING_ROLES_PREFIX = Inr rows"
    by (auto simp: load_roles_def split: sum.splits)
  note law = profile_scan_rows [OF store rows]
  have "rows = []"
  proof (rule ccontr)
    assume "rows \<noteq> []"
    then obtain k r where "(k, r) \<in> set rows" by (cases rows) auto
    with law have "prefix SHARING_ROLES_PREFIX k" "profile_view view s k = Some r" by auto
    moreover from this(1) obtain n where "k = role_key n" using under_roles by blast
    ultimately have "stored_roles view s n = Some r" by (simp add: stored_roles_def)
    with empty show False by simp
  qed
  with load rows have "cfg = default_roles" "save_roles it ops s default_roles = (Inr (), s')"
    by (auto simp: load_roles_def split: prod.splits sum.splits)
  moreover have "finite (dom default_roles)" by (simp add: dom_default_roles)
  ultimately show ?thesis
    using save_roles_stored [OF store it] empty by auto
qed

end
