(* ===== verification/Trust_Invites.thy ===== *)
theory Trust_Invites
  imports User_Profile "HOL-Library.Word"
begin

unbundle bit_operations_syntax

text \<open>
  \<^verbatim>\<open>src/trust/identity_card.rs\<close>, \<^verbatim>\<open>trust_invite.rs\<close>, \<^verbatim>\<open>sent_invites.rs\<close> and
  \<^verbatim>\<open>declined_invites.rs\<close>: the identity card and its birthday check, the signed invite with
  its validity window and token form, and the two invite histories kept one record per
  nonce. Base64, Ed25519, SHA-256 and serde are a parameter (\<open>invite_crypto\<close>); time is
  an argument, in nanoseconds.
\<close>

section \<open>Identity card\<close>

record identity_card =
  card_name :: string
  card_hint :: "string option"
  card_birthday :: "string option"

definition new_card :: "string \<Rightarrow> string option \<Rightarrow> string option \<Rightarrow> identity_card" where
  "new_card n h b = \<lparr>card_name = n, card_hint = h, card_birthday = b\<rparr>"

definition validate_birthday :: "string \<Rightarrow> string + unit" where
  "validate_birthday input =
     (if input = [] then Inr ()
      else (let parts = split_on (\<lambda>c. c = CHR ''-'') input in
        if length parts \<noteq> 2 then Inl ''Expected MM-DD format (e.g. 03-15)''
        else case parse_u32 (parts ! 0) of
            None \<Rightarrow> Inl ''Month must be a number''
          | Some month \<Rightarrow>
            (case parse_u32 (parts ! 1) of
               None \<Rightarrow> Inl ''Day must be a number''
             | Some day \<Rightarrow>
                 if \<not> (1 \<le> month \<and> month \<le> 12)
                 then Inl (''Month '' @ show_nat month @ '' out of range (01-12)'')
                 else if \<not> (1 \<le> day \<and> day \<le> 31)
                 then Inl (''Day '' @ show_nat day @ '' out of range (01-31)'')
                 else Inr ())))"

definition IDENTITY_CARD_KEY :: string where
  "IDENTITY_CARD_KEY = ''identity_card''"

definition load_card :: "('s, string, identity_card) kv_ops \<Rightarrow> 's \<Rightarrow> schema_error + identity_card option" where
  "load_card ops s = profile_get ops s IDENTITY_CARD_KEY"

definition save_card ::
    "('s, string, identity_card) kv_ops \<Rightarrow> 's \<Rightarrow> identity_card \<Rightarrow> (schema_error + unit) \<times> 's" where
  "save_card ops s c = profile_put ops s IDENTITY_CARD_KEY c"

section \<open>Trust invite\<close>

record trust_invite =
  sender_pub_key :: string
  sender_identity :: identity_card
  proposed_role :: string
  nonce :: string
  created_at :: int
  signature :: string

text \<open>\<^verbatim>\<open>TrustInvitePayload\<close>: everything but the signature, in the order it is serialized.\<close>

type_synonym invite_payload = "string \<times> identity_card \<times> string \<times> string \<times> int"

record ('b, 'kp, 'pk, 'sig) invite_crypto =
  b64_decode :: "string \<Rightarrow> string + 'b"
  b64url_encode :: "'b \<Rightarrow> string"
  b64url_decode :: "string \<Rightarrow> string + 'b"
  keypair_from_secret :: "'b \<Rightarrow> string + 'kp"
  kp_sign :: "'kp \<Rightarrow> 'b \<Rightarrow> 'sig"
  sig_to_b64 :: "'sig \<Rightarrow> string"
  sig_from_b64 :: "string \<Rightarrow> string + 'sig"
  pk_from_b64 :: "string \<Rightarrow> string + 'pk"
  pk_verify :: "'pk \<Rightarrow> 'b \<Rightarrow> 'sig \<Rightarrow> bool"
  payload_to_vec :: "invite_payload \<Rightarrow> string + 'b"
  invite_to_vec :: "trust_invite \<Rightarrow> string + 'b"
  invite_from_slice :: "'b \<Rightarrow> string + trust_invite"
  empty_bytes :: "'b"
  sha256 :: "'b \<Rightarrow> 8 word list"

definition invite_payload_of :: "trust_invite \<Rightarrow> invite_payload" where
  "invite_payload_of i =
     (sender_pub_key i, sender_identity i, proposed_role i, nonce i, created_at i)"

text \<open>\<open>n\<close> is the generated nonce and \<open>now\<close> the current time.\<close>

definition create_invite ::
    "('b, 'kp, 'pk, 'sig) invite_crypto \<Rightarrow> string \<Rightarrow> int \<Rightarrow> string \<Rightarrow> string \<Rightarrow> identity_card \<Rightarrow> string
     \<Rightarrow> string + trust_invite" where
  "create_invite cr n now private_key_base64 public_key_base64 identity role =
     res_bind (map_err (\<lambda>e. ''Invalid private key: '' @ e) (b64_decode cr private_key_base64)) (\<lambda>secret_bytes.
     res_bind (map_err (\<lambda>e. ''Failed to load keypair: '' @ e) (keypair_from_secret cr secret_bytes)) (\<lambda>keypair.
     res_bind (map_err (\<lambda>e. ''Failed to serialize payload: '' @ e)
       (payload_to_vec cr (public_key_base64, identity, role, n, now))) (\<lambda>payload_bytes.
     Inr \<lparr>sender_pub_key = public_key_base64, sender_identity = identity, proposed_role = role,
          nonce = n, created_at = now,
          signature = sig_to_b64 cr (kp_sign cr keypair payload_bytes)\<rparr>)))"

definition MAX_AGE_SECS :: int where
  "MAX_AGE_SECS = 30 * 24 * 60 * 60"

text \<open>\<^verbatim>\<open>Duration::num_seconds\<close>: whole seconds, truncated towards zero.\<close>

definition num_seconds :: "int \<Rightarrow> int" where
  "num_seconds ns = (if 0 \<le> ns then ns div 1000000000 else - ((- ns) div 1000000000))"

definition show_int :: "int \<Rightarrow> string" where
  "show_int i = (if i < 0 then CHR ''-'' # show_nat (nat (- i)) else show_nat (nat i))"

definition verify_invite ::
    "('b, 'kp, 'pk, 'sig) invite_crypto \<Rightarrow> int \<Rightarrow> trust_invite \<Rightarrow> string + bool" where
  "verify_invite cr now i =
     (let age = num_seconds (now - created_at i) in
      if age > MAX_AGE_SECS then
        Inl (''Trust invite expired ('' @ show_int (age div 86400) @ '' days old, max ''
             @ show_int (MAX_AGE_SECS div 86400) @ '')'')
      else if age < -300 then Inl ''Trust invite timestamp is in the future''
      else
        res_bind (map_err (\<lambda>e. ''Invalid sender public key: '' @ e) (pk_from_b64 cr (sender_pub_key i))) (\<lambda>pub_key.
        res_bind (map_err (\<lambda>e. ''Failed to serialize payload: '' @ e)
          (payload_to_vec cr (invite_payload_of i))) (\<lambda>payload_bytes.
        res_bind (map_err (\<lambda>e. ''Invalid signature: '' @ e) (sig_from_b64 cr (signature i))) (\<lambda>sig.
        Inr (pk_verify cr pub_key payload_bytes sig)))))"

definition to_token :: "('b, 'kp, 'pk, 'sig) invite_crypto \<Rightarrow> trust_invite \<Rightarrow> string + string" where
  "to_token cr i =
     res_bind (map_err (\<lambda>e. ''Failed to serialize invite: '' @ e) (invite_to_vec cr i))
       (\<lambda>json. Inr (b64url_encode cr json))"

definition from_token :: "('b, 'kp, 'pk, 'sig) invite_crypto \<Rightarrow> string \<Rightarrow> string + trust_invite" where
  "from_token cr token =
     res_bind (map_err (\<lambda>e. ''Invalid token encoding: '' @ e) (b64url_decode cr token))
       (\<lambda>bytes. map_err (\<lambda>e. ''Invalid invite format: '' @ e) (invite_from_slice cr bytes))"

text \<open>\<^verbatim>\<open>format!("{:x}", n)\<close>: lower-case hexadecimal without leading zeros.\<close>

definition hex_digit :: "nat \<Rightarrow> char" where
  "hex_digit d = char_of (if d < 10 then 48 + d else 87 + d)"

fun show_hex :: "nat \<Rightarrow> string" where
  "show_hex n = (if n < 16 then [hex_digit n] else show_hex (n div 16) @ [hex_digit (n mod 16)])"

declare show_hex.simps [simp del]

definition be_u32 :: "8 word list \<Rightarrow> 32 word" where
  "be_u32 bs = foldl (\<lambda>acc b. push_bit 8 acc OR ucast b) 0 bs"

definition invite_fingerprint :: "('b, 'kp, 'pk, 'sig) invite_crypto \<Rightarrow> trust_invite \<Rightarrow> string" where
  "invite_fingerprint cr i =
     (let pub_bytes = (case b64_decode cr (sender_pub_key i) of Inr b \<Rightarrow> b | Inl _ \<Rightarrow> empty_bytes cr);
          hash = sha256 cr pub_bytes
      in show_hex (unat (be_u32 (take 4 hash))))"

section \<open>Sent invites\<close>

datatype sent_status = Pending | Accepted | Expired

record sent_invite =
  si_nonce :: string
  recipient_hint :: string
  si_role :: string
  si_created_at :: int
  si_status :: sent_status

definition SENT_INVITES_PREFIX :: string where
  "SENT_INVITES_PREFIX = ''invites/sent/''"

definition sent_key :: "string \<Rightarrow> string" where
  "sent_key n = SENT_INVITES_PREFIX @ n"

definition load_sent :: "('s, string, sent_invite) kv_ops \<Rightarrow> 's \<Rightarrow> schema_error + sent_invite list" where
  "load_sent ops s = res_bind (profile_scan ops s SENT_INVITES_PREFIX) (\<lambda>rows. Inr (map snd rows))"

definition save_sent ::
    "('s, string, sent_invite) kv_ops \<Rightarrow> 's \<Rightarrow> sent_invite list \<Rightarrow> (schema_error + unit) \<times> 's" where
  "save_sent ops s invites = put_all (profile_ops ops) s (map (\<lambda>i. (sent_key (si_nonce i), i)) invites)"

definition record_sent :: "sent_invite \<Rightarrow> sent_invite list \<Rightarrow> sent_invite list" where
  "record_sent invite invites =
     (if \<not> list_ex (\<lambda>i. si_nonce i = si_nonce invite) invites then invites @ [invite] else invites)"

fun mark_accepted :: "string \<Rightarrow> sent_invite list \<Rightarrow> sent_invite list" where
  "mark_accepted n [] = []"
| "mark_accepted n (i # is) =
     (if si_nonce i = n then i\<lparr>si_status := Accepted\<rparr> # is else i # mark_accepted n is)"

definition pending :: "sent_invite list \<Rightarrow> sent_invite list" where
  "pending invites = filter (\<lambda>i. si_status i = Pending) invites"

section \<open>Declined invites\<close>

record declined_invite =
  di_sender_pub_key :: string
  di_sender_name :: string
  di_sender_hint :: "string option"
  di_role :: string
  declined_at :: int
  di_nonce :: string

definition DECLINED_INVITES_PREFIX :: string where
  "DECLINED_INVITES_PREFIX = ''invites/declined/''"

definition declined_key :: "string \<Rightarrow> string" where
  "declined_key n = DECLINED_INVITES_PREFIX @ n"

definition load_declined ::
    "('s, string, declined_invite) kv_ops \<Rightarrow> 's \<Rightarrow> schema_error + declined_invite list" where
  "load_declined ops s = res_bind (profile_scan ops s DECLINED_INVITES_PREFIX) (\<lambda>rows. Inr (map snd rows))"

definition save_declined ::
    "('s, string, declined_invite) kv_ops \<Rightarrow> 's \<Rightarrow> declined_invite list \<Rightarrow> (schema_error + unit) \<times> 's" where
  "save_declined ops s invites =
     put_all (profile_ops ops) s (map (\<lambda>i. (declined_key (di_nonce i), i)) invites)"

definition decline :: "declined_invite \<Rightarrow> declined_invite list \<Rightarrow> declined_invite list" where
  "decline invite invites =
     (if \<not> list_ex (\<lambda>i. di_nonce i = di_nonce invite) invites then invites @ [invite] else invites)"

definition is_declined :: "declined_invite list \<Rightarrow> string \<Rightarrow> bool" where
  "is_declined invites n = list_ex (\<lambda>i. di_nonce i = n) invites"

definition undecline ::
    "('s, string, declined_invite) kv_ops \<Rightarrow> 's \<Rightarrow> declined_invite list \<Rightarrow> string
     \<Rightarrow> (schema_error + bool) \<times> 's \<times> declined_invite list" where
  "undecline ops s invites n =
     (let rest = filter (\<lambda>i. di_nonce i \<noteq> n) invites in
      if length rest < length invites then
        (case profile_delete ops s (declined_key n) of
           (Inl e, s') \<Rightarrow> (Inl e, s', rest)
         | (Inr _, s') \<Rightarrow> (Inr True, s', rest))
      else (Inr False, s, rest))"

section \<open>A log of records with distinct nonces\<close>

text \<open>
  The contract the two histories share: a list to which a record is added unless one with
  the same nonce is there, persisted one record per nonce under a prefix.
\<close>

locale nonce_log =
  fixes nonce_of :: "'a \<Rightarrow> string"
    and add :: "'a \<Rightarrow> 'a list \<Rightarrow> 'a list"
    and pre :: string
  assumes add_eq: "add x xs = (if nonce_of x \<in> nonce_of ` set xs then xs else xs @ [x])"
begin

lemma add_distinct: "distinct (map nonce_of xs) \<Longrightarrow> distinct (map nonce_of (add x xs))"
  by (auto simp: add_eq)

lemma add_nonces: "nonce_of ` set (add x xs) = insert (nonce_of x) (nonce_of ` set xs)"
  by (auto simp: add_eq)

lemma add_idem: "add x (add x xs) = add x xs"
  by (auto simp: add_eq)

lemma add_keeps: "prefix xs (add x xs)"
  by (simp add: add_eq)

lemma fold_add_distinct: "distinct (map nonce_of xs) \<Longrightarrow> distinct (map nonce_of (fold add ys xs))"
  by (induction ys arbitrary: xs) (auto intro: add_distinct)

lemma fold_add_nonces: "nonce_of ` set (fold add ys xs) = nonce_of ` set xs \<union> nonce_of ` set ys"
  by (induction ys arbitrary: xs) (auto simp: add_nonces)

text \<open>Saving every record and scanning the prefix gives the records back.\<close>

lemma save_scan:
  fixes ops :: "('s, string, 'a) kv_ops"
  assumes store: "kv_store ops view"
    and save: "put_all (profile_ops ops) s (map (\<lambda>i. (pre @ nonce_of i, i)) xs) = (Inr u, s')"
    and dist: "distinct (map nonce_of xs)"
    and scan: "profile_scan ops s' pre = Inr rows"
  shows "set (map snd rows) =
     set xs \<union> {v. \<exists>n. n \<notin> nonce_of ` set xs \<and> profile_view view s (pre @ n) = Some v}"
proof -
  let ?rows = "map (\<lambda>i. (pre @ nonce_of i, i)) xs"
  have keys: "distinct (map fst ?rows)"
    using dist by (simp add: comp_def distinct_map inj_on_def)
  have lookup: "map_of ?rows (pre @ n) = Some v \<longleftrightarrow> v \<in> set xs \<and> nonce_of v = n" for n v
    using map_of_eq_Some_iff [OF keys, of "pre @ n" v] by auto
  have missing: "map_of ?rows (pre @ n) = None \<longleftrightarrow> n \<notin> nonce_of ` set xs" for n
    by (auto simp: map_of_eq_None_iff image_image)
  have view': "profile_view view s' (pre @ n) =
      (case map_of ?rows (pre @ n) of Some v \<Rightarrow> Some v | None \<Rightarrow> profile_view view s (pre @ n))" for n
    by (rule kv_store.put_all_view_distinct [OF profile_kv_store [OF store] save keys])
  have "profile_view view s' (pre @ n) = Some v \<longleftrightarrow>
      (v \<in> set xs \<and> nonce_of v = n) \<or>
      (n \<notin> nonce_of ` set xs \<and> profile_view view s (pre @ n) = Some v)" for n v
    using lookup [of n v] missing [of n] view' [of n]
    by (cases "map_of ?rows (pre @ n)") (auto simp del: map_of_map)
  then show ?thesis
    using profile_scan_values [OF store scan] by auto
qed

end

interpretation sent: nonce_log si_nonce record_sent SENT_INVITES_PREFIX
  by unfold_locales (auto simp: record_sent_def list_ex_iff intro: rev_image_eqI)

interpretation declined: nonce_log di_nonce decline DECLINED_INVITES_PREFIX
  by unfold_locales (auto simp: decline_def list_ex_iff intro: rev_image_eqI)

lemma save_sent_load:
  assumes "kv_store ops view" "save_sent ops s xs = (Inr u, s')" "distinct (map si_nonce xs)"
    and "load_sent ops s' = Inr ys"
  shows "set ys = set xs \<union>
     {v. \<exists>n. n \<notin> si_nonce ` set xs \<and> profile_view view s (sent_key n) = Some v}"
proof -
  from assms(4) obtain rows where rows: "profile_scan ops s' SENT_INVITES_PREFIX = Inr rows" "ys = map snd rows"
    by (auto simp: load_sent_def res_bind_eq_Inr)
  from sent.save_scan [OF assms(1) _ assms(3) rows(1)] assms(2) show ?thesis
    by (simp add: save_sent_def sent_key_def rows(2))
qed

lemma save_declined_load:
  assumes "kv_store ops view" "save_declined ops s xs = (Inr u, s')" "distinct (map di_nonce xs)"
    and "load_declined ops s' = Inr ys"
  shows "set ys = set xs \<union>
     {v. \<exists>n. n \<notin> di_nonce ` set xs \<and> profile_view view s (declined_key n) = Some v}"
proof -
  from assms(4) obtain rows where rows: "profile_scan ops s' DECLINED_INVITES_PREFIX = Inr rows" "ys = map snd rows"
    by (auto simp: load_declined_def res_bind_eq_Inr)
  from declined.save_scan [OF assms(1) _ assms(3) rows(1)] assms(2) show ?thesis
    by (simp add: save_declined_def declined_key_def rows(2))
qed

lemma load_declined_set:
  assumes "kv_store ops view" "load_declined ops s = Inr ys"
  shows "set ys = {v. \<exists>n. profile_view view s (declined_key n) = Some v}"
proof -
  from assms(2) obtain rows where rows: "profile_scan ops s DECLINED_INVITES_PREFIX = Inr rows" "ys = map snd rows"
    by (auto simp: load_declined_def res_bind_eq_Inr)
  from profile_scan_values [OF assms(1) rows(1)] show ?thesis
    by (simp add: rows(2) declined_key_def)
qed

lemma undecline_effect:
  assumes store: "kv_store ops view"
    and keys: "\<And>n v. profile_view view s (declined_key n) = Some v \<Longrightarrow> di_nonce v = n"
    and load: "load_declined ops s = Inr xs" and und: "undecline ops s xs n = (Inr b, s', xs')"
    and load': "load_declined ops s' = Inr ys"
  shows "b = is_declined xs n \<and> \<not> is_declined ys n \<and> set ys = set xs' \<and> set xs' = {i \<in> set xs. di_nonce i \<noteq> n}"
proof -
  have xs: "set xs = {v. \<exists>m. profile_view view s (declined_key m) = Some v}"
    by (rule load_declined_set [OF store load])
  have rest: "xs' = filter (\<lambda>i. di_nonce i \<noteq> n) xs"
    using und by (auto simp: undecline_def Let_def split: if_splits prod.splits sum.splits)
  have hit: "length (filter (\<lambda>i. di_nonce i \<noteq> n) xs) < length xs \<longleftrightarrow> is_declined xs n"
    unfolding is_declined_def list_ex_iff using length_filter_less [of _ xs "\<lambda>i. di_nonce i \<noteq> n"]
    by (metis (mono_tags, lifting) filter_True less_irrefl)
  have ys: "set ys = {v. \<exists>m. profile_view view s' (declined_key m) = Some v}"
    by (rule load_declined_set [OF store load'])
  have "set ys = {i \<in> set xs. di_nonce i \<noteq> n} \<and> b = is_declined xs n"
  proof (cases "is_declined xs n")
    case True
    then obtain r where del: "profile_delete ops s (declined_key n) = (Inr r, s')" and b
      using und hit by (auto simp: undecline_def Let_def split: if_splits prod.splits sum.splits)
    have "profile_view view s' = (profile_view view s)(declined_key n := None)"
      using kv_store.delete_ok [OF profile_kv_store [OF store], of s "declined_key n" r s'] del by simp
    moreover have "declined_key m = declined_key n \<longleftrightarrow> m = n" for m by (simp add: declined_key_def)
    ultimately have "set ys = {v. \<exists>m. m \<noteq> n \<and> profile_view view s (declined_key m) = Some v}"
      using ys by auto
    with True \<open>b\<close> xs keys show ?thesis by blast
  next
    case False
    then have "s' = s" "\<not> b"
      using und hit by (auto simp: undecline_def Let_def split: if_splits prod.splits sum.splits)
    with False ys xs show ?thesis by (auto simp: is_declined_def list_ex_iff)
  qed
  then show ?thesis by (auto simp: is_declined_def list_ex_iff rest)
qed

lemma mark_accepted_nonces [simp]: "map si_nonce (mark_accepted n xs) = map si_nonce xs"
  by (induction xs) auto

lemma mark_accepted_others: "i \<in> set (mark_accepted n xs) \<Longrightarrow> si_nonce i \<noteq> n \<Longrightarrow> i \<in> set xs"
  by (induction xs) (auto split: if_splits)

lemma mark_accepted_keeps: "i \<in> set xs \<Longrightarrow> si_nonce i \<noteq> n \<Longrightarrow> i \<in> set (mark_accepted n xs)"
  by (induction xs) auto

lemma mark_accepted_hit:
  "distinct (map si_nonce xs) \<Longrightarrow> i \<in> set (mark_accepted n xs) \<Longrightarrow> si_nonce i = n \<Longrightarrow> si_status i = Accepted"
proof (induction xs)
  case (Cons x xs)
  show ?case
  proof (cases "si_nonce x = n")
    case True
    with Cons.prems(1) have "n \<notin> si_nonce ` set xs" by simp
    with Cons.prems True show ?thesis by auto
  next
    case False
    with Cons show ?thesis by auto
  qed
qed simp

section \<open>Validity window, signing, tokens\<close>

lemma num_seconds_le: "0 \<le> k \<Longrightarrow> num_seconds ns \<le> k \<longleftrightarrow> ns < (k + 1) * 1000000000"
  unfolding num_seconds_def by auto

lemma num_seconds_ge: "k < 0 \<Longrightarrow> k \<le> num_seconds ns \<longleftrightarrow> (k - 1) * 1000000000 < ns"
  unfolding num_seconds_def by auto

text \<open>The invite is inside its validity window at time \<open>now\<close>.\<close>

definition in_window :: "int \<Rightarrow> trust_invite \<Rightarrow> bool" where
  "in_window now i \<longleftrightarrow> -301 * 1000000000 < now - created_at i \<and>
     now - created_at i < (MAX_AGE_SECS + 1) * 1000000000"

lemma verify_window: "verify_invite cr now i = Inr b \<Longrightarrow> in_window now i"
  using num_seconds_le [of MAX_AGE_SECS "now - created_at i"]
    num_seconds_ge [of "-300" "now - created_at i"]
  by (auto simp: verify_invite_def in_window_def Let_def not_less MAX_AGE_SECS_def split: if_splits)

lemma verify_in_window:
  assumes "in_window now i"
  shows "verify_invite cr now i =
     res_bind (map_err (\<lambda>e. ''Invalid sender public key: '' @ e) (pk_from_b64 cr (sender_pub_key i))) (\<lambda>pub_key.
     res_bind (map_err (\<lambda>e. ''Failed to serialize payload: '' @ e)
       (payload_to_vec cr (invite_payload_of i))) (\<lambda>payload_bytes.
     res_bind (map_err (\<lambda>e. ''Invalid signature: '' @ e) (sig_from_b64 cr (signature i))) (\<lambda>sig.
     Inr (pk_verify cr pub_key payload_bytes sig))))"
proof -
  have "num_seconds (now - created_at i) \<le> MAX_AGE_SECS"
    using assms num_seconds_le [of MAX_AGE_SECS] by (simp add: in_window_def MAX_AGE_SECS_def)
  moreover have "-300 \<le> num_seconds (now - created_at i)"
    using assms num_seconds_ge [of "-300"] by (simp add: in_window_def)
  ultimately show ?thesis
    unfolding verify_invite_def Let_def by (simp only: not_less [symmetric] if_False)
qed

text \<open>
  What is relied on of the cryptography: the key pair made from \<open>sk\<close> signs messages that
  verify under \<open>pk\<close>, and the textual form of a signature is read back as the signature.
\<close>

definition signing_ok :: "('b, 'kp, 'pk, 'sig) invite_crypto \<Rightarrow> string \<Rightarrow> string \<Rightarrow> bool" where
  "signing_ok cr sk pk \<longleftrightarrow>
     (\<exists>b kp p. b64_decode cr sk = Inr b \<and> keypair_from_secret cr b = Inr kp \<and> pk_from_b64 cr pk = Inr p \<and>
        (\<forall>m. pk_verify cr p m (kp_sign cr kp m))) \<and>
     (\<forall>sig. sig_from_b64 cr (sig_to_b64 cr sig) = Inr sig)"

definition token_ok :: "('b, 'kp, 'pk, 'sig) invite_crypto \<Rightarrow> bool" where
  "token_ok cr \<longleftrightarrow> (\<forall>b. b64url_decode cr (b64url_encode cr b) = Inr b) \<and>
     codec_ok (invite_to_vec cr) (invite_from_slice cr)"

lemma create_then_verify:
  assumes "signing_ok cr sk pk" "create_invite cr n now sk pk idc role = Inr i" "in_window now' i"
  shows "verify_invite cr now' i = Inr True"
proof -
  from assms(1) obtain b kp p where
    key: "b64_decode cr sk = Inr b" "keypair_from_secret cr b = Inr kp" and sig: "pk_from_b64 cr pk = Inr p" "\<And>m. pk_verify cr p m (kp_sign cr kp m)"
      "\<And>sig. sig_from_b64 cr (sig_to_b64 cr sig) = Inr sig"
    by (auto simp: signing_ok_def)
  from assms(2) key obtain bytes where ser: "payload_to_vec cr (pk, idc, role, n, now) = Inr bytes"
    and i: "i = \<lparr>sender_pub_key = pk, sender_identity = idc, proposed_role = role, nonce = n,
        created_at = now, signature = sig_to_b64 cr (kp_sign cr kp bytes)\<rparr>"
    by (auto simp: create_invite_def res_bind_eq_Inr)
  have "invite_payload_of i = (pk, idc, role, n, now)" by (simp add: i invite_payload_of_def)
  with sig ser show ?thesis
    using verify_in_window [OF assms(3), of cr] by (simp add: i)
qed

lemma token_roundtrip_lemma:
  "token_ok cr \<Longrightarrow> to_token cr i = Inr t \<Longrightarrow> from_token cr t = Inr i"
  by (auto simp: token_ok_def to_token_def from_token_def res_bind_eq_Inr dest: codec_okD)

section \<open>The key fingerprint\<close>

lemma show_hex_length_le: "n < 16 ^ Suc k \<Longrightarrow> length (show_hex n) \<le> Suc k"
proof (induction k arbitrary: n)
  case 0
  then show ?case by (simp add: show_hex.simps)
next
  case (Suc k)
  have "n div 16 < 16 ^ Suc k" using Suc.prems by (simp add: less_mult_imp_div_less mult.commute)
  with Suc.IH show ?case by (subst show_hex.simps) auto
qed

lemma be_u32_4:
  "be_u32 [a, b, c, d] =
     (push_bit 24 (ucast a) OR push_bit 16 (ucast b) OR push_bit 8 (ucast c) OR ucast d :: 32 word)"
  by (simp add: be_u32_def push_bit_or or.assoc)

lemma low_nibble_bits:
  fixes a :: "8 word"
  assumes "a < 16" "4 \<le> m"
  shows "\<not> bit a m"
proof -
  have "unat a < 2 ^ 4"
    using assms(1) by (simp add: word_less_nat_alt)
  then have "take_bit 4 (unat a) = unat a" by (simp add: take_bit_nat_eq_self_iff)
  then have "take_bit 4 a = a"
    by (metis unsigned_take_bit_eq word_unat_eq_iff)
  then have "bit a m = (m < 4 \<and> bit a m)" by (metis bit_take_bit_iff)
  with assms(2) show ?thesis by simp
qed

lemma be_u32_small:
  assumes "a < 16"
  shows "unat (be_u32 [a, b, c, d]) < 16 ^ 7"
proof -
  have "take_bit 28 (be_u32 [a, b, c, d]) = be_u32 [a, b, c, d]"
  proof (rule bit_word_eqI)
    fix m assume "m < LENGTH(32)"
    show "bit (take_bit 28 (be_u32 [a, b, c, d])) m = bit (be_u32 [a, b, c, d]) m"
    proof (cases "m < 28")
      case True
      then show ?thesis by (simp add: bit_take_bit_iff)
    next
      case False
      then have "\<not> bit (be_u32 [a, b, c, d]) m"
        using low_nibble_bits [OF assms, of "m - 24"]
        by (auto simp: be_u32_4 bit_simps dest: bit_imp_le_length)
      then show ?thesis by (simp add: bit_take_bit_iff)
    qed
  qed
  then have "unat (be_u32 [a, b, c, d]) = take_bit 28 (unat (be_u32 [a, b, c, d]))"
    by (metis unsigned_take_bit_eq)
  also have "\<dots> < 2 ^ 28" by (rule take_bit_nat_less_exp)
  finally show ?thesis by simp
qed

lemma short_fingerprint:
  assumes "b64_decode cr (sender_pub_key i) = Inr bytes" "sha256 cr bytes = a # b # c # d # rest" "a < 16"
  shows "length (invite_fingerprint cr i) < 8"
proof -
  have "length (show_hex (unat (be_u32 [a, b, c, d]))) \<le> Suc 6"
    by (rule show_hex_length_le) (use be_u32_small [OF assms(3)] in simp)
  then show ?thesis by (simp add: invite_fingerprint_def assms(1,2))
qed

section \<open>An instance of the cryptography\<close>

text \<open>
  A transparent instance, which shows that what is relied on of the cryptography and of the codecs
  can be met: byte strings are strings, Base64 is the identity, a signature is the signed message
  and an invite is serialized as the sequence of its fields, each character marked and each
  field closed.
\<close>

definition enc_field :: "string \<Rightarrow> string" where
  "enc_field s = concat (map (\<lambda>c. [CHR ''.'', c]) s) @ [CHR ''|'']"

fun dec_fields :: "string \<Rightarrow> string \<Rightarrow> string list" where
  "dec_fields acc (m # c # rest) =
     (if m = CHR ''.'' then dec_fields (acc @ [c]) rest else acc # dec_fields [] (c # rest))"
| "dec_fields acc [m] = [acc]"
| "dec_fields acc [] = []"

lemma dec_field: "dec_fields acc (enc_field s @ rest) = (acc @ s) # dec_fields [] rest"
proof (induction s arbitrary: acc)
  case Nil
  show ?case by (cases rest) (simp_all add: enc_field_def)
next
  case (Cons c s)
  have "enc_field (c # s) @ rest = CHR ''.'' # c # (enc_field s @ rest)" by (simp add: enc_field_def)
  with Cons show ?case by simp
qed

lemma dec_fields_enc: "dec_fields [] (concat (map enc_field fs)) = fs"
  by (induction fs) (simp_all add: dec_field)

definition enc_opt :: "string option \<Rightarrow> string" where
  "enc_opt x = (case x of None \<Rightarrow> [] | Some s \<Rightarrow> CHR ''+'' # s)"

definition dec_opt :: "string \<Rightarrow> string option" where
  "dec_opt s = (case s of [] \<Rightarrow> None | c # r \<Rightarrow> Some r)"

definition enc_int :: "int \<Rightarrow> string" where
  "enc_int i = (if i < 0 then CHR ''-'' # replicate (nat (- i)) CHR ''1'' else replicate (nat i) CHR ''1'')"

definition dec_int :: "string \<Rightarrow> int" where
  "dec_int s = (case s of [] \<Rightarrow> 0 | c # r \<Rightarrow> if c = CHR ''-'' then - int (length r) else int (length s))"

lemma dec_enc [simp]: "dec_opt (enc_opt x) = x" "dec_int (enc_int i) = i"
proof -
  show "dec_opt (enc_opt x) = x" by (cases x) (simp_all add: enc_opt_def dec_opt_def)
  show "dec_int (enc_int i) = i"
    by (cases "nat i") (auto simp: enc_int_def dec_int_def)
qed

definition payload_fields :: "invite_payload \<Rightarrow> string list" where
  "payload_fields p = (case p of (pk, c, role, n, at) \<Rightarrow>
     [pk, card_name c, enc_opt (card_hint c), enc_opt (card_birthday c), role, n, enc_int at])"

definition plain_slice :: "string \<Rightarrow> string + trust_invite" where
  "plain_slice b = (case dec_fields [] b of
     [sig, pk, nm, h, bd, role, n, at] \<Rightarrow>
       Inr \<lparr>sender_pub_key = pk, sender_identity = new_card nm (dec_opt h) (dec_opt bd), proposed_role = role,
            nonce = n, created_at = dec_int at, signature = sig\<rparr>
   | _ \<Rightarrow> Inl ''malformed'')"

definition plain_crypto :: "(string, string, string, string) invite_crypto" where
  "plain_crypto = \<lparr>
     b64_decode = Inr, b64url_encode = id, b64url_decode = Inr,
     keypair_from_secret = Inr, kp_sign = (\<lambda>_ m. m), sig_to_b64 = id, sig_from_b64 = Inr,
     pk_from_b64 = Inr, pk_verify = (\<lambda>_ m sig. sig = m),
     payload_to_vec = (\<lambda>p. Inr (concat (map enc_field (payload_fields p)))),
     invite_to_vec = (\<lambda>i. Inr (concat (map enc_field (signature i # payload_fields (invite_payload_of i))))),
     invite_from_slice = plain_slice,
     empty_bytes = [], sha256 = (\<lambda>_. replicate 32 0)\<rparr>"

lemma plain_signing: "signing_ok plain_crypto sk pk"
  by (simp add: signing_ok_def plain_crypto_def)

lemma plain_token_ok: "token_ok plain_crypto"
proof -
  have "plain_slice (concat (map enc_field (signature i # payload_fields (invite_payload_of i)))) = Inr i" for i
    unfolding plain_slice_def dec_fields_enc
    by (simp add: payload_fields_def invite_payload_of_def new_card_def)
  then show ?thesis by (auto simp: token_ok_def codec_ok_def plain_crypto_def)
qed

lemma plain_creates: "\<exists>i. create_invite plain_crypto n now sk pk idc role = Inr i \<and> sender_pub_key i = pk"
  by (simp add: create_invite_def plain_crypto_def)

lemma plain_token: "\<exists>t. to_token plain_crypto i = Inr t"
  by (simp add: to_token_def plain_crypto_def)

lemma plain_hash: "b64_decode plain_crypto b = Inr b" "sha256 plain_crypto b = 0 # 0 # 0 # 0 # replicate 28 0"
  by (simp_all add: plain_crypto_def numeral_eq_Suc)

end
