(* ===== verification/Fingerprint_Keys.thy ===== *)
theory Fingerprint_Keys
  imports Rust_Strings "HOL-Library.Word"
begin

text \<open>
  \<^verbatim>\<open>src/fingerprints/keys.rs\<close>: content-derived primary keys. SHA-256 (the crate \<^verbatim>\<open>sha2\<close>,
  with its lower-case hexadecimal rendering) is the parameter \<open>sha\<close> on byte strings. The
  results say that the hashed byte string determines what was keyed: the module's kinds
  are prefix-free, and endpoints of one length cannot run into each other.
\<close>

section \<open>Kinds\<close>

definition kind_EMAIL :: string where "kind_EMAIL = ''email''"
definition kind_PHONE :: string where "kind_PHONE = ''phone''"
definition kind_FACE_EMBEDDING :: string where "kind_FACE_EMBEDDING = ''face_embedding''"
definition kind_FULL_NAME :: string where "kind_FULL_NAME = ''full_name''"
definition kind_FIRST_NAME :: string where "kind_FIRST_NAME = ''first_name''"
definition kind_HANDLE :: string where "kind_HANDLE = ''handle''"
definition kind_NODE_PUB_KEY :: string where "kind_NODE_PUB_KEY = ''node_pub_key''"

lemmas kind_defs = kind_EMAIL_def kind_PHONE_def kind_FACE_EMBEDDING_def kind_FULL_NAME_def
  kind_FIRST_NAME_def kind_HANDLE_def kind_NODE_PUB_KEY_def

definition fingerprint_kinds :: "string list" where
  "fingerprint_kinds = [kind_EMAIL, kind_PHONE, kind_FACE_EMBEDDING, kind_FULL_NAME, kind_FIRST_NAME,
     kind_HANDLE, kind_NODE_PUB_KEY]"

section \<open>Keys\<close>

type_synonym bytes = "8 word list"

text \<open>\<^verbatim>\<open>str::as_bytes\<close>: UTF-8, one byte below 128 and two above.\<close>

definition char_bytes :: "char \<Rightarrow> bytes" where
  "char_bytes c =
     (let n = char_code c in
      if n < 128 then [word_of_nat n] else [word_of_nat (192 + n div 64), word_of_nat (128 + n mod 64)])"

definition as_bytes :: "string \<Rightarrow> bytes" where
  "as_bytes s = concat (map char_bytes s)"

definition canonicalize_string :: "string \<Rightarrow> string \<Rightarrow> string" where
  "canonicalize_string kind value =
     (if kind = kind_EMAIL then to_ascii_lowercase (trim value)
      else if kind = kind_FULL_NAME \<or> kind = kind_FIRST_NAME then
        join '' '' (split_whitespace (to_lowercase (trim value)))
      else if kind = kind_PHONE then trim value
      else if kind = kind_HANDLE then to_ascii_lowercase (trim_start_matches (CHR ''@'') (trim value))
      else value)"

definition fingerprint_preimage :: "string \<Rightarrow> bytes \<Rightarrow> bytes" where
  "fingerprint_preimage kind canonical_bytes = as_bytes ''Fingerprint'' @ as_bytes kind @ canonical_bytes"

definition fingerprint_id_from_bytes :: "(bytes \<Rightarrow> string) \<Rightarrow> string \<Rightarrow> bytes \<Rightarrow> string" where
  "fingerprint_id_from_bytes sha kind canonical_bytes =
     ''fp_'' @ sha (fingerprint_preimage kind canonical_bytes)"

definition fingerprint_id_for_string :: "(bytes \<Rightarrow> string) \<Rightarrow> string \<Rightarrow> string \<Rightarrow> string" where
  "fingerprint_id_for_string sha kind value =
     fingerprint_id_from_bytes sha kind (as_bytes (canonicalize_string kind value))"

text \<open>An embedding is given by the native-endian bytes of its \<^verbatim>\<open>f32\<close> values, which are hashed raw.\<close>

definition fingerprint_id_for_face_embedding :: "(bytes \<Rightarrow> string) \<Rightarrow> bytes list \<Rightarrow> string" where
  "fingerprint_id_for_face_embedding sha embedding =
     fingerprint_id_from_bytes sha kind_FACE_EMBEDDING (concat embedding)"

definition edge_preimage :: "string \<Rightarrow> string \<Rightarrow> string \<Rightarrow> bytes" where
  "edge_preimage a b kind =
     (let (first, second) = (if a \<le> b then (a, b) else (b, a))
      in as_bytes ''Edge'' @ as_bytes first @ as_bytes second @ as_bytes kind)"

definition edge_id :: "(bytes \<Rightarrow> string) \<Rightarrow> string \<Rightarrow> string \<Rightarrow> string \<Rightarrow> string" where
  "edge_id sha a b kind = ''eg_'' @ sha (edge_preimage a b kind)"

definition identity_id_of :: "string \<Rightarrow> string" where
  "identity_id_of pub_key = ''id_'' @ pub_key"

definition mention_source_composite :: "string \<Rightarrow> string \<Rightarrow> string" where
  "mention_source_composite source_schema source_key = source_schema @ '':'' @ source_key"

section \<open>The byte form of strings\<close>

lemma as_bytes_simps [simp]:
  "as_bytes [] = []" "as_bytes (c # s) = char_bytes c @ as_bytes s"
  "as_bytes (s @ t) = as_bytes s @ as_bytes t"
  by (simp_all add: as_bytes_def)

lemma char_bytes_ne [simp]: "char_bytes c \<noteq> []"
  by (simp add: char_bytes_def Let_def)

lemma unat_byte [simp]: "n < 256 \<Longrightarrow> unat (word_of_nat n :: 8 word) = n"
  by (simp add: unsigned_of_nat take_bit_nat_eq_self)

lemma byte_eq: "a < 256 \<Longrightarrow> b < 256 \<Longrightarrow> (word_of_nat a :: 8 word) = word_of_nat b \<longleftrightarrow> a = b"
  using unat_byte by metis

lemma char_code_inject: "char_code a = char_code b \<longleftrightarrow> a = b"
  by (simp add: char_code_def)

text \<open>UTF-8 is a prefix code.\<close>

lemma char_bytes_prefix_code:
  assumes "char_bytes c @ x = char_bytes d @ y"
  shows "c = d \<and> x = y"
proof -
  let ?m = "char_code c" and ?n = "char_code d"
  have bounds: "?m < 256" "?n < 256" by simp_all
  then have b: "192 + ?m div 64 < 256" "192 + ?n div 64 < 256" "128 + ?m mod 64 < 256" "128 + ?n mod 64 < 256"
    by arith+
  have "?m = ?n \<and> x = y"
  proof (cases "?m < 128"; cases "?n < 128")
    assume "?m < 128" "?n < 128"
    with assms show ?thesis by (simp add: char_bytes_def byte_eq)
  next
    assume "?m < 128" "\<not> ?n < 128"
    with assms show ?thesis using byte_eq [OF bounds(1) b(2)] by (simp add: char_bytes_def Let_def)
  next
    assume "\<not> ?m < 128" "?n < 128"
    with assms show ?thesis using byte_eq [OF b(1) bounds(2)] by (simp add: char_bytes_def Let_def)
  next
    assume "\<not> ?m < 128" "\<not> ?n < 128"
    with assms have "?m div 64 = ?n div 64" "?m mod 64 = ?n mod 64" "x = y"
      using byte_eq [OF b(1,2)] byte_eq [OF b(3,4)] by (simp_all add: char_bytes_def Let_def)
    then show ?thesis by (metis div_mult_mod_eq)
  qed
  then show ?thesis by (simp add: char_code_inject)
qed

lemma as_bytes_inject [simp]: "as_bytes s = as_bytes t \<longleftrightarrow> s = t"
proof
  show "as_bytes s = as_bytes t \<Longrightarrow> s = t"
  proof (induction s arbitrary: t)
    case Nil
    then show ?case by (cases t) auto
  next
    case (Cons c s)
    then obtain d t' where "t = d # t'" by (cases t) auto
    with Cons show ?case using char_bytes_prefix_code by auto
  qed
qed simp

section \<open>What a key determines\<close>

lemma as_bytes_comparable:
  "as_bytes s @ x = as_bytes t @ y \<Longrightarrow> prefix s t \<or> prefix t s"
proof (induction s arbitrary: t)
  case (Cons c s)
  show ?case
  proof (cases t)
    case (Cons d t')
    with Cons.prems have "c = d" "as_bytes s @ x = as_bytes t' @ y"
      using char_bytes_prefix_code [of c "as_bytes s @ x" d "as_bytes t' @ y"] by simp_all
    with Cons.IH Cons show ?thesis by simp
  qed simp
qed simp

text \<open>No kind is a proper prefix of another.\<close>

lemma kinds_prefix_free:
  "list_all (\<lambda>k. list_all (\<lambda>k'. prefix k k' \<longrightarrow> k = k') fingerprint_kinds) fingerprint_kinds"
  by (simp add: fingerprint_kinds_def kind_defs)

lemma fingerprint_preimage_inject:
  assumes "k \<in> set fingerprint_kinds" "k' \<in> set fingerprint_kinds"
    and "fingerprint_preimage k x = fingerprint_preimage k' y"
  shows "k = k' \<and> x = y"
proof -
  from assms(3) have eq: "as_bytes k @ x = as_bytes k' @ y" by (simp add: fingerprint_preimage_def)
  from as_bytes_comparable [OF this] assms(1,2) have "k = k'"
    using kinds_prefix_free unfolding list_all_iff by blast
  with eq show ?thesis by simp
qed

lemma edge_preimage_sym: "edge_preimage a b k = edge_preimage b a k"
  by (auto simp: edge_preimage_def)

lemma edge_preimage_inject:
  assumes "length (as_bytes a) = n" "length (as_bytes b) = n" "length (as_bytes a') = n" "length (as_bytes b') = n"
    and "edge_preimage a b k = edge_preimage a' b' k'"
  shows "{a, b} = {a', b'} \<and> k = k'"
  using assms by (auto simp: edge_preimage_def append_eq_append_conv split: if_splits)

lemma split_whitespace_space_left: "is_whitespace c \<Longrightarrow> split_whitespace (c # s) = split_whitespace s"
  by (simp add: split_whitespace_def)

lemma split_on_snoc_sep: "p c \<Longrightarrow> split_on p (s @ [c]) = split_on p s @ [[]]"
  by (induction s) (auto split: list.splits)

lemma split_whitespace_space_right: "is_whitespace c \<Longrightarrow> split_whitespace (s @ [c]) = split_whitespace s"
  by (simp add: split_whitespace_def split_on_snoc_sep)

lemma split_whitespace_dropWhile: "split_whitespace (dropWhile is_whitespace s) = split_whitespace s"
  by (induction s) (auto simp: split_whitespace_space_left)

lemma split_whitespace_dropWhile_rev: "split_whitespace (rev (dropWhile is_whitespace s)) = split_whitespace (rev s)"
  by (induction s) (auto simp: split_whitespace_space_right)

lemma split_whitespace_trim [simp]: "split_whitespace (trim s) = split_whitespace s"
  using split_whitespace_dropWhile_rev [of "rev (dropWhile is_whitespace s)"]
  by (simp add: trim_def split_whitespace_dropWhile)

lemma split_whitespace_lower_words:
  "w \<in> set (split_whitespace (to_lowercase s)) \<Longrightarrow> to_lowercase w = w"
proof -
  assume "w \<in> set (split_whitespace (to_lowercase s))"
  then have "w \<in> set (split_on is_whitespace (to_lowercase s))" by (simp add: split_whitespace_def)
  from split_on_pieces [OF this] have "\<forall>c \<in> set w. c \<in> set (to_lowercase s)" by simp
  then show ?thesis unfolding to_lowercase_def by (intro map_idI) auto
qed

lemma to_lowercase_join: "to_lowercase (join '' '' ws) = join '' '' (map to_lowercase ws)"
proof (induction "'' ''" ws rule: join.induct)
  case (3 w v ws)
  have "char_lower CHR '' '' = CHR '' ''" by (simp add: char_lower_def char_code_def)
  with 3 show ?case by (simp add: to_lowercase_def)
qed (auto simp: to_lowercase_def)

lemma name_words_stable:
  "split_whitespace (to_lowercase (trim (join '' '' (split_whitespace (to_lowercase s))))) =
     split_whitespace (to_lowercase s)"
proof -
  let ?ws = "split_whitespace (to_lowercase s)"
  have "to_lowercase (trim (join '' '' ?ws)) = trim (to_lowercase (join '' '' ?ws))"
    by (simp add: to_lowercase_def trim_map char_lower_space)
  also have "to_lowercase (join '' '' ?ws) = join '' '' ?ws"
    using split_whitespace_lower_words by (simp add: to_lowercase_join map_idI)
  finally show ?thesis by (simp add: split_whitespace_join)
qed

lemma canonicalize_idem:
  assumes "kind \<noteq> kind_HANDLE"
  shows "canonicalize_string kind (canonicalize_string kind v) = canonicalize_string kind v"
proof -
  have "trim (to_ascii_lowercase s) = to_ascii_lowercase (trim s)" for s
    by (simp add: to_ascii_lowercase_def trim_map ascii_lower_space)
  then show ?thesis using assms name_words_stable by (simp add: canonicalize_string_def)
qed

end
