(* ===== verification/Floats.thy ===== *)
theory Floats
  imports Prelude "HOL-Library.Log_Nat"
begin

text \<open>
  IEEE 754 binary floating point as the Rust types \<^verbatim>\<open>f32\<close> and \<^verbatim>\<open>f64\<close> use it: a value is
  NaN, an infinity or a rational; an arithmetic result is rounded to the nearest
  representable value, ties to even, with gradual underflow and overflow to infinity; a
  comparison with NaN is false. The two zeros are one value: nothing in the code
  distinguishes them.
\<close>

datatype fl = NaN | PInf | NInf | Fin rat

text \<open>The exponent of the leading bit of a positive rational.\<close>

definition rat_log2 :: "rat \<Rightarrow> int" where
  "rat_log2 r =
     (let q = quotient_of r; e = bitlen (fst q) - bitlen (snd q)
      in if 2 powi e \<le> r then e else e - 1)"

definition round_even :: "rat \<Rightarrow> int" where
  "round_even r =
     (let n = \<lfloor>r\<rfloor>; d = r - of_int n
      in if d < 1 / 2 then n else if 1 / 2 < d then n + 1 else if even n then n else n + 1)"

text \<open>\<open>fl_round p emin emax\<close> rounds to \<open>p\<close> significant bits with exponents in range.\<close>

definition fl_round :: "int \<Rightarrow> int \<Rightarrow> int \<Rightarrow> rat \<Rightarrow> fl" where
  "fl_round p emin emax r =
     (if r = 0 then Fin 0
      else (let e = max emin (rat_log2 \<bar>r\<bar> - (p - 1));
                y = of_int (round_even (r / 2 powi e)) * 2 powi e
            in if 2 powi emax \<le> \<bar>y\<bar> then (if 0 < r then PInf else NInf) else Fin y))"

definition f64_round :: "rat \<Rightarrow> fl" where
  "f64_round = fl_round 53 (-1074) 1024"

definition f32_round :: "rat \<Rightarrow> fl" where
  "f32_round = fl_round 24 (-149) 128"

text \<open>\<^verbatim>\<open>x as f32\<close> for an \<^verbatim>\<open>f64\<close> value.\<close>

definition as_f32 :: "fl \<Rightarrow> fl" where
  "as_f32 x = (case x of Fin r \<Rightarrow> f32_round r | y \<Rightarrow> y)"

fun f64_add :: "fl \<Rightarrow> fl \<Rightarrow> fl" where
  "f64_add (Fin a) (Fin b) = f64_round (a + b)"
| "f64_add NaN _ = NaN"
| "f64_add _ NaN = NaN"
| "f64_add PInf NInf = NaN"
| "f64_add NInf PInf = NaN"
| "f64_add PInf _ = PInf"
| "f64_add _ PInf = PInf"
| "f64_add NInf _ = NInf"
| "f64_add _ NInf = NInf"

fun fl_lt :: "fl \<Rightarrow> fl \<Rightarrow> bool" where
  "fl_lt (Fin a) (Fin b) = (a < b)"
| "fl_lt NaN _ = False"
| "fl_lt _ NaN = False"
| "fl_lt NInf NInf = False"
| "fl_lt NInf _ = True"
| "fl_lt PInf _ = False"
| "fl_lt _ PInf = True"
| "fl_lt _ _ = False"

fun fl_le :: "fl \<Rightarrow> fl \<Rightarrow> bool" where
  "fl_le (Fin a) (Fin b) = (a \<le> b)"
| "fl_le NaN _ = False"
| "fl_le _ NaN = False"
| "fl_le NInf _ = True"
| "fl_le _ PInf = True"
| "fl_le _ _ = False"

definition sgn_fl :: "fl \<Rightarrow> rat" where
  "sgn_fl x = (case x of Fin r \<Rightarrow> sgn r | PInf \<Rightarrow> 1 | NInf \<Rightarrow> -1 | NaN \<Rightarrow> 0)"

definition signed_inf :: "rat \<Rightarrow> fl" where
  "signed_inf s = (if s = 0 then NaN else if 0 < s then PInf else NInf)"

fun f64_mul :: "fl \<Rightarrow> fl \<Rightarrow> fl" where
  "f64_mul (Fin a) (Fin b) = f64_round (a * b)"
| "f64_mul x y = (if x = NaN \<or> y = NaN then NaN else signed_inf (sgn_fl x * sgn_fl y))"

text \<open>The zero a value is divided by is the positive one: no divisor in the code is negative.\<close>

fun f64_div :: "fl \<Rightarrow> fl \<Rightarrow> fl" where
  "f64_div (Fin a) (Fin b) = (if b = 0 then signed_inf (sgn a) else f64_round (a / b))"
| "f64_div (Fin a) y = (if y = NaN then NaN else Fin 0)"
| "f64_div x (Fin b) = (if x = NaN then NaN else signed_inf (sgn_fl x * (if b < 0 then -1 else 1)))"
| "f64_div x y = NaN"

text \<open>\<^verbatim>\<open>f64::max\<close> and \<^verbatim>\<open>f64::min\<close> ignore a NaN.\<close>

definition fl_max :: "fl \<Rightarrow> fl \<Rightarrow> fl" where
  "fl_max x y = (if x = NaN then y else if y = NaN then x else if fl_lt x y then y else x)"

definition fl_min :: "fl \<Rightarrow> fl \<Rightarrow> fl" where
  "fl_min x y = (if x = NaN then y else if y = NaN then x else if fl_lt y x then y else x)"

definition nat_as_f64 :: "nat \<Rightarrow> fl" where
  "nat_as_f64 n = f64_round (of_nat n)"

section \<open>Integers are exact\<close>

lemma round_even_int [simp]: "round_even (of_int n) = n"
  by (simp add: round_even_def)

lemma quotient_of_pos_int: "quotient_of (of_int m) = (m, 1)"
  by (simp add: quotient_of_int Rat.of_int_def [symmetric] of_int_rat)

lemma rat_log2_int:
  assumes "0 < m"
  shows "rat_log2 (of_int m) = bitlen m - 1"
proof -
  have ge: "1 \<le> bitlen m"
    using assms bitlen_eq_zero_iff [of m] bitlen_nonneg [of m] by linarith
  have "(2::int) ^ nat (bitlen m - 1) \<le> m"
    using bitlen_bounds [OF assms] by simp
  then have "(of_int (2 ^ nat (bitlen m - 1)) :: rat) \<le> of_int m"
    by (simp only: of_int_le_iff)
  with ge have "(2::rat) powi (bitlen m - 1) \<le> of_int m"
    by (simp add: power_int_def)
  moreover have "bitlen 1 = 1"
    using bitlen_pow2 [of 1 0] by (simp add: bitlen_alt_def)
  ultimately show ?thesis
    by (simp add: rat_log2_def quotient_of_pos_int)
qed

lemma powi_neg_int: "e \<le> 0 \<Longrightarrow> (of_int m :: rat) / 2 powi e = of_int (m * 2 ^ nat (- e))"
  by (auto simp: power_int_def field_simps)

text \<open>An integer of at most 53 bits is an \<^verbatim>\<open>f64\<close> value: rounding leaves it alone.\<close>

lemma f64_round_int:
  assumes "\<bar>m\<bar> < 2 ^ 53"
  shows "f64_round (of_int m) = Fin (of_int m)"
proof (cases "m = 0")
  case True
  then show ?thesis by (simp add: f64_round_def fl_round_def)
next
  case False
  define e where "e = max (-1074) (rat_log2 \<bar>of_int m\<bar> - 52)"
  have "rat_log2 \<bar>of_int m\<bar> = bitlen \<bar>m\<bar> - 1"
    using False rat_log2_int [of "\<bar>m\<bar>"] by simp
  moreover have "bitlen \<bar>m\<bar> \<le> 53"
    using assms by (simp add: bitlen_le_iff_power)
  ultimately have e: "e \<le> 0" by (simp add: e_def)
  have y: "of_int (round_even (of_int m / 2 powi e)) * 2 powi e = (of_int m :: rat)"
    using powi_neg_int [OF e, of m] e
    by (simp only: round_even_int) (auto simp: power_int_def field_simps)
  have "\<bar>m\<bar> < 2 ^ 1024"
    by (rule less_le_trans [OF assms]) (simp add: power_increasing)
  then have "of_int \<bar>m\<bar> < (of_int (2 ^ 1024) :: rat)"
    by (simp only: of_int_less_iff)
  then have "\<bar>of_int m :: rat\<bar> < 2 powi 1024"
    by (simp add: power_int_def)
  with False y show ?thesis
    by (simp add: f64_round_def fl_round_def Let_def flip: e_def)
qed

lemma f64_add_int:
  "\<bar>a + b\<bar> < 2 ^ 53 \<Longrightarrow> f64_add (Fin (of_int a)) (Fin (of_int b)) = Fin (of_int (a + b))"
  using f64_round_int [of "a + b"] by simp

section \<open>Comparison laws\<close>

lemma fl_le_refl: "x \<noteq> NaN \<Longrightarrow> fl_le x x"
  by (cases x) auto

lemma fl_lt_irrefl [simp]: "\<not> fl_lt x x"
  by (cases x) auto

text \<open>Without NaN, \<^verbatim>\<open>!(a < b)\<close> is \<^verbatim>\<open>b <= a\<close>; with NaN it holds of any value.\<close>

lemma not_fl_lt: "\<not> fl_lt a b \<longleftrightarrow> a = NaN \<or> b = NaN \<or> fl_le b a"
  by (cases a; cases b) auto

lemma fl_lt_le_trans: "fl_lt a b \<Longrightarrow> fl_le b c \<Longrightarrow> fl_lt a c"
  by (cases a; cases b; cases c) auto

lemma fl_le_trans: "fl_le a b \<Longrightarrow> fl_le b c \<Longrightarrow> fl_le a c"
  by (cases a; cases b; cases c) auto

section \<open>Rounding is monotone\<close>

lemma bitlen_rat_bounds:
  assumes "0 < m"
  shows "2 powi (bitlen m - 1) \<le> (of_int m :: rat)" "(of_int m :: rat) < 2 powi (bitlen m)"
proof -
  have ge: "1 \<le> bitlen m"
    using assms bitlen_eq_zero_iff [of m] bitlen_nonneg [of m] by linarith
  have b: "(2::int) ^ nat (bitlen m - 1) \<le> m" "m < 2 ^ nat (bitlen m)"
    using bitlen_bounds [OF assms] by simp_all
  have "(of_int (2 ^ nat (bitlen m - 1)) :: rat) \<le> of_int m" using b(1) by (simp only: of_int_le_iff)
  with ge show "2 powi (bitlen m - 1) \<le> (of_int m :: rat)" by (simp add: power_int_def)
  have "(of_int m :: rat) < of_int (2 ^ nat (bitlen m))" using b(2) by (simp only: of_int_less_iff)
  with ge show "(of_int m :: rat) < 2 powi (bitlen m)" by (simp add: power_int_def)
qed

lemma rat_log2_bounds:
  assumes "0 < r"
  shows "2 powi (rat_log2 r) \<le> r" "r < 2 powi (rat_log2 r + 1)"
proof -
  obtain p d where q: "quotient_of r = (p, d)" by (cases "quotient_of r")
  have r: "r = of_int p / of_int d" and d: "0 < d"
    using quotient_of_div [OF q] quotient_of_denom_pos [OF q] by auto
  with assms have p: "0 < p" by (simp add: zero_less_divide_iff)
  let ?e = "bitlen p - bitlen d"
  have pow: "(2::rat) powi a * 2 powi b = 2 powi (a + b)" for a b by (simp add: power_int_add)
  have lower: "2 powi (?e - 1) < r"
  proof -
    have "(2 powi (?e - 1) * of_int d :: rat) < 2 powi (?e - 1) * 2 powi (bitlen d)"
      using bitlen_rat_bounds(2) [OF d] by (intro mult_strict_left_mono) auto
    also have "\<dots> = 2 powi (bitlen p - 1)" by (simp add: pow)
    also have "\<dots> \<le> of_int p" by (rule bitlen_rat_bounds(1) [OF p])
    finally show ?thesis using d by (simp add: r pos_less_divide_eq)
  qed
  have upper: "r < 2 powi (?e + 1)"
  proof -
    have "(of_int p :: rat) < 2 powi (bitlen p)" by (rule bitlen_rat_bounds(2) [OF p])
    also have "\<dots> = 2 powi (?e + 1) * 2 powi (bitlen d - 1)" by (simp add: pow)
    also have "\<dots> \<le> 2 powi (?e + 1) * of_int d"
      using bitlen_rat_bounds(1) [OF d] by (intro mult_left_mono) auto
    finally show ?thesis using d by (simp add: r pos_divide_less_eq)
  qed
  have log: "rat_log2 r = (if 2 powi ?e \<le> r then ?e else ?e - 1)"
    by (simp add: rat_log2_def q)
  show "2 powi (rat_log2 r) \<le> r" "r < 2 powi (rat_log2 r + 1)"
    using lower upper by (auto simp: log)
qed

lemma rat_log2_mono:
  assumes "0 < r" "r \<le> s"
  shows "rat_log2 r \<le> rat_log2 s"
proof (rule ccontr)
  assume "\<not> rat_log2 r \<le> rat_log2 s"
  then have "(2::rat) powi (rat_log2 s + 1) \<le> 2 powi (rat_log2 r)" by (intro power_int_increasing) auto
  with rat_log2_bounds [of r] rat_log2_bounds [of s] assms show False by linarith
qed

lemma round_even_bounds: "\<lfloor>r\<rfloor> \<le> round_even r" "round_even r \<le> \<lfloor>r\<rfloor> + 1"
  by (simp_all add: round_even_def Let_def)

lemma round_even_mono:
  assumes "r \<le> s"
  shows "round_even r \<le> round_even s"
proof (cases "\<lfloor>r\<rfloor> = \<lfloor>s\<rfloor>")
  case True
  with assms show ?thesis by (auto simp: round_even_def Let_def)
next
  case False
  with floor_mono [OF assms] have "\<lfloor>r\<rfloor> + 1 \<le> \<lfloor>s\<rfloor>" by linarith
  with round_even_bounds [of r] round_even_bounds [of s] show ?thesis by linarith
qed

text \<open>The value before the overflow check.\<close>

definition round_at :: "int \<Rightarrow> int \<Rightarrow> rat \<Rightarrow> rat" where
  "round_at p emin r =
     (let e = max emin (rat_log2 \<bar>r\<bar> - (p - 1)) in of_int (round_even (r / 2 powi e)) * 2 powi e)"

lemma fl_round_eq:
  "r \<noteq> 0 \<Longrightarrow> fl_round p emin emax r =
     (if 2 powi emax \<le> \<bar>round_at p emin r\<bar> then (if 0 < r then PInf else NInf) else Fin (round_at p emin r))"
  by (simp add: fl_round_def round_at_def Let_def)

lemma round_at_nonneg: "0 \<le> r \<Longrightarrow> 0 \<le> round_at p emin r"
proof -
  assume "0 \<le> r"
  then have "round_even 0 \<le> round_even (r / 2 powi e)" for e by (intro round_even_mono) simp
  then show ?thesis using round_even_int [of 0] by (simp add: round_at_def Let_def)
qed

text \<open>A power of two at or above the rounding unit is not crossed by rounding.\<close>

lemma round_below_power:
  assumes "r \<le> 2 powi k" "e \<le> k"
  shows "of_int (round_even (r / 2 powi e)) * 2 powi e \<le> (2 powi k :: rat)"
proof -
  have k: "(2::rat) powi k = of_int (2 ^ nat (k - e)) * 2 powi e"
  proof -
    have "(2::rat) powi k = 2 powi (k - e) * 2 powi e" by (simp flip: power_int_add)
    then show ?thesis using assms(2) by (simp add: power_int_def)
  qed
  have "r / 2 powi e \<le> of_int (2 ^ nat (k - e))" using assms(1) by (simp add: k pos_divide_le_eq)
  then have "round_even (r / 2 powi e) \<le> round_even (of_int (2 ^ nat (k - e)))" by (rule round_even_mono)
  then have "round_even (r / 2 powi e) \<le> 2 ^ nat (k - e)" by (simp only: round_even_int)
  then have "(of_int (round_even (r / 2 powi e)) :: rat) \<le> of_int (2 ^ nat (k - e))" by (simp only: of_int_le_iff)
  then show ?thesis unfolding k by (intro mult_right_mono) auto
qed

lemma round_above_power:
  assumes "2 powi k \<le> r" "e \<le> k"
  shows "(2 powi k :: rat) \<le> of_int (round_even (r / 2 powi e)) * 2 powi e"
proof -
  have k: "(2::rat) powi k = of_int (2 ^ nat (k - e)) * 2 powi e"
  proof -
    have "(2::rat) powi k = 2 powi (k - e) * 2 powi e" by (simp flip: power_int_add)
    then show ?thesis using assms(2) by (simp add: power_int_def)
  qed
  have "of_int (2 ^ nat (k - e)) \<le> r / 2 powi e" using assms(1) by (simp add: k pos_le_divide_eq)
  then have "round_even (of_int (2 ^ nat (k - e))) \<le> round_even (r / 2 powi e)" by (rule round_even_mono)
  then have "2 ^ nat (k - e) \<le> round_even (r / 2 powi e)" by (simp only: round_even_int)
  then have "(of_int (2 ^ nat (k - e)) :: rat) \<le> of_int (round_even (r / 2 powi e))" by (simp only: of_int_le_iff)
  then show ?thesis unfolding k by (intro mult_right_mono) auto
qed

lemma round_at_mono:
  assumes "0 < r" "r \<le> s" "1 \<le> p"
  shows "round_at p emin r \<le> round_at p emin s"
proof -
  let ?e = "\<lambda>r. max emin (rat_log2 r - (p - 1))"
  have s: "0 < s" using assms by linarith
  have log: "rat_log2 r \<le> rat_log2 s" by (rule rat_log2_mono [OF assms(1,2)])
  show ?thesis
  proof (cases "?e r = ?e s")
    case True
    have "r / 2 powi ?e s \<le> s / 2 powi ?e s" using assms(2) by (simp add: divide_right_mono)
    then have "round_even (r / 2 powi ?e s) \<le> round_even (s / 2 powi ?e s)" by (rule round_even_mono)
    then show ?thesis using assms(1) s True by (simp add: round_at_def Let_def mult_right_mono)
  next
    case False
    with log have "emin \<le> rat_log2 s - (p - 1)" "rat_log2 r < rat_log2 s" by auto
    then have e: "?e r \<le> rat_log2 s" "?e s \<le> rat_log2 s" using assms(3) log by auto
    have "(2::rat) powi (rat_log2 r + 1) \<le> 2 powi (rat_log2 s)"
      using \<open>rat_log2 r < rat_log2 s\<close> by (intro power_int_increasing) auto
    with rat_log2_bounds(2) [OF assms(1)] have "r \<le> 2 powi (rat_log2 s)" by linarith
    from round_below_power [OF this e(1)] round_above_power [OF rat_log2_bounds(1) [OF s] e(2)] assms(1) s
    show ?thesis by (simp add: round_at_def Let_def)
  qed
qed

lemma f64_round_mono:
  assumes "0 \<le> r" "r \<le> s" "f64_round s = Fin y"
  shows "\<exists>x. f64_round r = Fin x \<and> 0 \<le> x \<and> x \<le> y"
proof (cases "r = 0")
  case True
  have "0 \<le> y"
  proof (cases "s = 0")
    case True
    with assms(3) show ?thesis by (simp add: f64_round_def fl_round_def)
  next
    case nz: False
    with assms(2) True have "0 < s" by simp
    then show ?thesis
      using assms(3) round_at_nonneg [of s 53 "-1074"] unfolding f64_round_def fl_round_eq [OF nz]
      by (auto split: if_splits)
  qed
  with True show ?thesis by (simp add: f64_round_def fl_round_def)
next
  case False
  with assms have r: "0 < r" "0 < s" by auto
  have y: "y = round_at 53 (-1074) s" "\<not> 2 powi 1024 \<le> \<bar>round_at 53 (-1074) s\<bar>"
    using assms(3) r by (auto simp: f64_round_def fl_round_eq split: if_splits)
  have "round_at 53 (-1074) r \<le> round_at 53 (-1074) s" "0 \<le> round_at 53 (-1074) r"
    using round_at_mono [OF r(1) assms(2)] round_at_nonneg [of r] r by auto
  with y r show ?thesis by (auto simp: f64_round_def fl_round_eq)
qed

lemma f64_round_unit:
  assumes "0 \<le> r" "r \<le> 1"
  shows "\<exists>x. f64_round r = Fin x \<and> 0 \<le> x \<and> x \<le> 1"
proof -
  have "f64_round 1 = Fin 1" using f64_round_int [of 1] by simp
  from f64_round_mono [OF assms this] show ?thesis .
qed

lemma f64_round_at:
  assumes "2 powi (e + 52) \<le> r" "r < 2 powi (e + 53)" "-1074 \<le> e" "0 < r"
    and "of_int (round_even (r / 2 powi e)) * 2 powi e = y" "y < 2 powi 1024"
  shows "f64_round r = Fin y"
proof -
  have "rat_log2 r = e + 52"
  proof (rule antisym)
    show "rat_log2 r \<le> e + 52"
    proof (rule ccontr)
      assume "\<not> rat_log2 r \<le> e + 52"
      then have "(2::rat) powi (e + 53) \<le> 2 powi (rat_log2 r)" by (intro power_int_increasing) auto
      with rat_log2_bounds(1) [OF assms(4)] assms(2) show False by linarith
    qed
    show "e + 52 \<le> rat_log2 r"
    proof (rule ccontr)
      assume "\<not> e + 52 \<le> rat_log2 r"
      then have "(2::rat) powi (rat_log2 r + 1) \<le> 2 powi (e + 52)" by (intro power_int_increasing) auto
      with rat_log2_bounds(2) [OF assms(4)] assms(1) show False by linarith
    qed
  qed
  with assms(3,4,5) have "round_at 53 (-1074) r = y" by (simp add: round_at_def Let_def)
  with assms(4,6) round_at_nonneg [of r 53 "-1074"] show ?thesis by (auto simp: f64_round_def fl_round_eq)
qed

end
