(* ===== verification/Json_Query.thy ===== *)
theory Json_Query
  imports Floats Rust_Strings
begin

text \<open>
  \<^verbatim>\<open>serde_json::Value\<close> and the query interface of the node. An object is an association
  list; a number is an integer (\<^verbatim>\<open>u64\<close> or \<^verbatim>\<open>i64\<close>) or an \<^verbatim>\<open>f64\<close>. The query engine is \<^verbatim>\<open>fold_db\<close>'s and a
  parameter: a function from a query to an error or to the JSON records, each wrapped in
  a \<^verbatim>\<open>fields\<close> envelope.
\<close>

datatype json =
    JNull
  | JBool bool
  | JInt int
  | JNum fl
  | JStr string
  | JArr "json list"
  | JObj "(string \<times> json) list"

fun json_get :: "string \<Rightarrow> json \<Rightarrow> json option" where
  "json_get k (JObj kvs) = map_of kvs k"
| "json_get k _ = None"

fun as_str :: "json \<Rightarrow> string option" where
  "as_str (JStr s) = Some s"
| "as_str _ = None"

fun as_f64 :: "json \<Rightarrow> fl option" where
  "as_f64 (JNum x) = Some x"
| "as_f64 (JInt n) = Some (f64_round (of_int n))"
| "as_f64 _ = None"

fun as_i64 :: "json \<Rightarrow> int option" where
  "as_i64 (JInt n) = (if - (2 ^ 63) \<le> n \<and> n < 2 ^ 63 then Some n else None)"
| "as_i64 _ = None"

fun as_array :: "json \<Rightarrow> json list option" where
  "as_array (JArr xs) = Some xs"
| "as_array _ = None"

fun as_bool :: "json \<Rightarrow> bool option" where
  "as_bool (JBool b) = Some b"
| "as_bool _ = None"

fun is_object :: "json \<Rightarrow> bool" where
  "is_object (JObj kvs) = True"
| "is_object _ = False"

datatype fold_db_error = Config string | EngineError string

datatype hash_range_filter = HashKey string

datatype sort_order = Asc | Desc

record query =
  schema_name :: string
  q_fields :: "string list"
  key_filter :: "hash_range_filter option"
  as_of :: "string option"
  rehydrate_depth :: "nat option"
  q_sort_order :: "sort_order option"
  value_filters :: "json list option"

type_synonym query_engine = "query \<Rightarrow> fold_db_error + json list"

text \<open>The queries of this subsystem set a schema, fields and maybe a hash key, nothing else.\<close>

definition simple_query :: "string \<Rightarrow> string list \<Rightarrow> hash_range_filter option \<Rightarrow> query" where
  "simple_query sn fs flt = \<lparr>schema_name = sn, q_fields = fs, key_filter = flt, as_of = None,
     rehydrate_depth = None, q_sort_order = None, value_filters = None\<rparr>"

definition key_query :: "string \<Rightarrow> string list \<Rightarrow> string \<Rightarrow> query" where
  "key_query sn fs k = simple_query sn fs (Some (HashKey k))"

definition opt_bind :: "'a option \<Rightarrow> ('a \<Rightarrow> 'b option) \<Rightarrow> 'b option" where
  "opt_bind x f = (case x of None \<Rightarrow> None | Some v \<Rightarrow> f v)"

lemma opt_bind_simps [simp]: "opt_bind None f = None" "opt_bind (Some v) f = f v"
  by (simp_all add: opt_bind_def)

end
