(* ===== verification/Canonical_Names.thy ===== *)
theory Canonical_Names
  imports Json_Query
begin

text \<open>
  \<^verbatim>\<open>src/fingerprints/canonical_names.rs\<close>: the process-wide registry from descriptive names to the
  runtime names the schema service assigns. \<^const>\<open>None\<close> is the registry before its first
  installation. Installing into a populated registry inserts entry by entry in the hash
  map's order and stops at the first conflict; the entries inserted before it stay, so the
  operations return the registry they leave. The hints that two messages append after a
  dash outside the modelled character range are left out.
\<close>

type_synonym canonical_names = "string \<rightharpoonup> string"

definition cn_insert ::
    "string \<Rightarrow> string \<Rightarrow> canonical_names \<Rightarrow> (fold_db_error + unit) \<times> canonical_names" where
  "cn_insert descriptive canonical m =
     (case m descriptive of
        Some existing \<Rightarrow>
          (if existing = canonical then (Inr (), m)
           else (Inl (Config (''canonical_names: conflicting entries for '' @ CHR 0x27 # descriptive
                  @ CHR 0x27 # '': existing='' @ CHR 0x27 # existing @ CHR 0x27 # '', new='' @ CHR 0x27 # canonical
                  @ [CHR 0x27])), m))
      | None \<Rightarrow> (Inr (), m(descriptive \<mapsto> canonical)))"

definition cn_get :: "canonical_names \<Rightarrow> string \<Rightarrow> fold_db_error + string" where
  "cn_get m descriptive =
     ok_or (Config (''canonical_names: no canonical name registered for '' @ CHR 0x27 # descriptive @ [CHR 0x27]))
       (m descriptive)"

fun insert_each ::
    "(string \<times> string) list \<Rightarrow> canonical_names \<Rightarrow> (fold_db_error + unit) \<times> canonical_names" where
  "insert_each [] m = (Inr (), m)"
| "insert_each ((d, c) # rows) m =
     (case cn_insert d c m of
        (Inl e, m') \<Rightarrow> (Inl e, m')
      | (Inr _, m') \<Rightarrow> insert_each rows m')"

definition install ::
    "(string set \<Rightarrow> string list) \<Rightarrow> canonical_names \<Rightarrow> canonical_names option
     \<Rightarrow> (fold_db_error + unit) \<times> canonical_names option" where
  "install it mapping registry =
     (let guard = (case registry of None \<Rightarrow> Map.empty | Some m \<Rightarrow> m) in
      if dom guard = {} then (Inr (), Some mapping)
      else (case insert_each (map (\<lambda>d. (d, the (mapping d))) (it (dom mapping))) guard of
              (r, m) \<Rightarrow> (r, Some m)))"

definition lookup_name :: "canonical_names option \<Rightarrow> string \<Rightarrow> fold_db_error + string" where
  "lookup_name registry descriptive =
     (case registry of
        None \<Rightarrow> Inl (Config (''canonical_names: registry not initialized. Attempted lookup: ''
                  @ CHR 0x27 # descriptive @ [CHR 0x27]))
      | Some m \<Rightarrow> cn_get m descriptive)"

text \<open>
  What the fingerprint handlers read: the descriptive schema names (constants of
  \<^verbatim>\<open>schema_service_core\<close>, re-exported by \<^verbatim>\<open>src/fingerprints/schemas.rs\<close>), the registry and
  the query engine.
\<close>

record fp_names =
  FINGERPRINT :: string
  EDGE :: string
  MENTION :: string
  EDGE_BY_FINGERPRINT :: string
  MENTION_BY_FINGERPRINT :: string
  PERSONA :: string
  registry :: "canonical_names option"

record fp_env = fp_names +
  engine :: query_engine

definition env_lookup :: "fp_env \<Rightarrow> string \<Rightarrow> fold_db_error + string" where
  "env_lookup env descriptive = lookup_name (registry env) descriptive"

section \<open>Laws\<close>

lemma cn_insert_extends: "cn_insert d c m = (r, m') \<Longrightarrow> m \<subseteq>\<^sub>m m'"
  by (auto simp: cn_insert_def map_le_def split: option.splits if_splits)

lemma cn_insert_ok: "cn_insert d c m = (Inr u, m') \<Longrightarrow> m' = m(d \<mapsto> c) \<and> (m d = None \<or> m d = Some c)"
  by (auto simp: cn_insert_def split: option.splits if_splits)

lemma insert_each_extends: "insert_each rows m = (r, m') \<Longrightarrow> m \<subseteq>\<^sub>m m'"
proof (induction rows arbitrary: m)
  case (Cons dc rows)
  obtain d c where dc: "dc = (d, c)" by (cases dc)
  obtain q m1 where q: "cn_insert d c m = (q, m1)" by (cases "cn_insert d c m")
  have "m \<subseteq>\<^sub>m m1" by (rule cn_insert_extends [OF q])
  with Cons dc q show ?case
    by (auto split: sum.splits intro: map_le_trans)
qed simp

lemma insert_each_ok:
  "insert_each rows m = (Inr u, m') \<Longrightarrow> m' = m ++ map_of (rev rows) \<and> (\<forall>(d, c) \<in> set rows. m' d = Some c)"
proof (induction rows arbitrary: m)
  case (Cons dc rows)
  obtain d c where dc: "dc = (d, c)" by (cases dc)
  from Cons.prems dc obtain m1 where m1: "cn_insert d c m = (Inr (), m1)" "insert_each rows m1 = (Inr u, m')"
    by (auto split: prod.splits sum.splits)
  have eq: "m1 = m ++ [d \<mapsto> c]" using cn_insert_ok [OF m1(1)] by simp
  from Cons.IH [OF m1(2)] have IH: "m' = m1 ++ map_of (rev rows)" "\<forall>(d, c) \<in> set rows. m' d = Some c" by auto
  have "m1 d = Some c" by (simp add: eq)
  then have "m' d = Some c"
    using insert_each_extends [OF m1(2)] by (auto simp: map_le_def dom_def)
  moreover have "m' = m ++ map_of (rev (dc # rows))"
    unfolding IH(1) eq dc by (simp del: map_add_upd)
  ultimately show ?case using IH(2) dc by simp
qed simp

lemma install_extends:
  "install it mapping (Some m) = (r, Some m') \<Longrightarrow> m \<subseteq>\<^sub>m m'"
  by (auto simp: install_def Let_def split: if_splits prod.splits dest: insert_each_extends)

lemma install_ok:
  assumes "iteration_order it" "finite (dom mapping)" "dom m \<noteq> {}"
    and "install it mapping (Some m) = (Inr u, Some m')"
  shows "m' = m ++ mapping"
proof -
  let ?rows = "map (\<lambda>d. (d, the (mapping d))) (it (dom mapping))"
  have it: "distinct (it (dom mapping))" "set (it (dom mapping)) = dom mapping"
    using iteration_orderD [OF assms(1,2)] by auto
  from assms(3,4) have "insert_each ?rows m = (Inr u, m')"
    by (auto simp: install_def Let_def split: prod.splits)
  then have "m' = m ++ map_of (rev ?rows)" using insert_each_ok by blast
  also have "map_of (rev ?rows) = map_of ?rows"
    using it(1) by (intro map_of_rev_distinct) (simp add: comp_def)
  also have "map_of ?rows = mapping"
  proof
    fix d
    show "map_of ?rows d = mapping d"
      using it(2) by (cases "mapping d") (auto simp: map_of_map_restrict restrict_map_def dom_def)
  qed
  finally show ?thesis .
qed

end
