(* ===== verification/Handlers.thy ===== *)
theory Handlers
  imports Canonical_Names
begin

text \<open>
  \<^verbatim>\<open>src/handlers/response.rs\<close> and \<^verbatim>\<open>src/handlers/fingerprints/mod.rs\<close>: the error type of the
  handlers and its conversions, and the node the fingerprint handlers run on. The database
  is \<^verbatim>\<open>fold_db\<close>'s and a parameter: \<open>query_db\<close> and \<open>mutate_db\<close> over an abstract state, with
  the renderings of its errors, of JSON values and of \<^verbatim>\<open>f32\<close> values that messages embed.
  A handler returns its result and the state it leaves; the success envelope is the
  result itself.
\<close>

datatype handler_error =
    BadRequest string
  | Unauthorized string
  | NotFound string
  | Internal string
  | ServiceUnavailable string

fun status_code :: "handler_error \<Rightarrow> nat" where
  "status_code (BadRequest _) = 400"
| "status_code (Unauthorized _) = 401"
| "status_code (NotFound _) = 404"
| "status_code (Internal _) = 500"
| "status_code (ServiceUnavailable _) = 503"

definition handler_err :: "('e \<Rightarrow> string) \<Rightarrow> string \<Rightarrow> 'e + 'a \<Rightarrow> handler_error + 'a" where
  "handler_err show context r = map_err (\<lambda>e. Internal (''Failed to '' @ context @ '': '' @ show e)) r"

definition handler_err_msg :: "('e \<Rightarrow> string) \<Rightarrow> string \<Rightarrow> 'e + 'a \<Rightarrow> handler_error + 'a" where
  "handler_err_msg show msg r = map_err (\<lambda>e. Internal (msg @ '': '' @ show e)) r"

definition require_non_empty :: "string \<Rightarrow> string \<Rightarrow> handler_error + unit" where
  "require_non_empty value message = (if trim value = [] then Inl (BadRequest message) else Inr ())"

section \<open>The node\<close>

datatype mutation_type = Create | Update | Delete

text \<open>\<^verbatim>\<open>KeyValue\<close>: hash and range key of a record.\<close>

type_synonym key_value = "string option \<times> string option"

type_synonym payload = "string \<rightharpoonup> json"

record 'd fp_node = fp_names +
  query_db :: "'d \<Rightarrow> query_engine"
  mutate_db :: "'d \<Rightarrow> string \<Rightarrow> payload \<Rightarrow> key_value \<Rightarrow> mutation_type \<Rightarrow> (fold_db_error + string) \<times> 'd"
  show_error :: "fold_db_error \<Rightarrow> string"
  show_json :: "json \<Rightarrow> string"
  show_f32 :: "fl \<Rightarrow> string"

text \<open>What the resolver sees of a node in state \<open>d\<close>.\<close>

definition env_at :: "'d fp_node \<Rightarrow> 'd \<Rightarrow> fp_env" where
  "env_at nd d = \<lparr>FINGERPRINT = FINGERPRINT nd, EDGE = EDGE nd, MENTION = MENTION nd,
     EDGE_BY_FINGERPRINT = EDGE_BY_FINGERPRINT nd, MENTION_BY_FINGERPRINT = MENTION_BY_FINGERPRINT nd,
     PERSONA = PERSONA nd, registry = registry nd, engine = query_db nd d\<rparr>"

definition canonical_lookup :: "'d fp_node \<Rightarrow> string \<Rightarrow> handler_error + string" where
  "canonical_lookup nd name =
     map_err (\<lambda>e. Internal (''fingerprints: canonical_names not initialized for '' @ CHR 0x27 # name @ CHR 0x27 #
                 '': '' @ show_error nd e))
       (lookup_name (registry nd) name)"

lemma handler_err_simps [simp]:
  "handler_err sh c (Inr x) = Inr x" "handler_err sh c (Inl e) = Inl (Internal (''Failed to '' @ c @ '': '' @ sh e))"
  "handler_err_msg sh m (Inr x) = Inr x" "handler_err_msg sh m (Inl e) = Inl (Internal (m @ '': '' @ sh e))"
  by (simp_all add: handler_err_def handler_err_msg_def)

lemma handler_err_Inr [simp]:
  "handler_err sh c r = Inr x \<longleftrightarrow> r = Inr x" "handler_err_msg sh m r = Inr x \<longleftrightarrow> r = Inr x"
  by (simp_all add: handler_err_def handler_err_msg_def)

end
