(* ===== verification/Resolver.thy ===== *)
theory Resolver
  imports Canonical_Names
begin

text \<open>
  \<^verbatim>\<open>src/fingerprints/resolver.rs\<close>: a persona is resolved by walking the fingerprint graph
  from its seeds over edges that are not excluded, not forbidden by the user and not below
  the threshold, and by collecting the mentions of every fingerprint reached. The lookups
  are the source's queries over the engine; the walk is its loop over a stack; diagnostics
  count everything that was filtered. The main results characterise the outcome by an
  inductive definition of reachability (\<open>reach\<close>).
\<close>

section \<open>Data\<close>

record persona_spec =
  persona_id :: string
  seed_fingerprint_ids :: "string list"
  threshold :: fl
  excluded_edge_ids :: "string set"
  excluded_mention_ids :: "string set"
  included_mention_ids :: "string set"
  identity_id :: "string option"

record resolved_edge =
  edge_rid :: string
  edge_a :: string
  edge_b :: string
  edge_kind :: string
  edge_weight :: fl

definition other_endpoint :: "resolved_edge \<Rightarrow> string \<Rightarrow> string option" where
  "other_endpoint e fp =
     (if edge_a e = fp then Some (edge_b e)
      else if edge_b e = fp then Some (edge_a e) else None)"

definition USER_FORBIDDEN :: string where
  "USER_FORBIDDEN = ''UserForbidden''"

record diagnostics =
  missing_seeds :: "string list"
  excluded_edge_count :: nat
  forbidden_edge_count :: nat
  below_threshold_count :: nat
  excluded_mention_count :: nat
  dangling_edge_ids :: "string list"

definition no_diagnostics :: diagnostics where
  "no_diagnostics = \<lparr>missing_seeds = [], excluded_edge_count = 0, forbidden_edge_count = 0,
     below_threshold_count = 0, excluded_mention_count = 0, dangling_edge_ids = []\<rparr>"

definition diag_is_clean :: "diagnostics \<Rightarrow> bool" where
  "diag_is_clean d \<longleftrightarrow>
     missing_seeds d = [] \<and> excluded_edge_count d = 0 \<and> forbidden_edge_count d = 0 \<and>
     below_threshold_count d = 0 \<and> excluded_mention_count d = 0 \<and> dangling_edge_ids d = []"

record resolve_body =
  r_persona_id :: string
  r_fingerprint_ids :: "string set"
  r_edge_ids :: "string set"
  r_mention_ids :: "string set"
  r_identity_id :: "string option"

datatype resolve_result =
    Resolved resolve_body
  | ResolvedWithDiagnostics resolve_body diagnostics

fun result_body :: "resolve_result \<Rightarrow> resolve_body" where
  "result_body (Resolved b) = b"
| "result_body (ResolvedWithDiagnostics b d) = b"

fun result_diagnostics :: "resolve_result \<Rightarrow> diagnostics option" where
  "result_diagnostics (Resolved b) = None"
| "result_diagnostics (ResolvedWithDiagnostics b d) = Some d"

fun result_is_clean :: "resolve_result \<Rightarrow> bool" where
  "result_is_clean (Resolved b) = True"
| "result_is_clean (ResolvedWithDiagnostics b d) = False"

section \<open>Lookups\<close>

definition extract_string_field :: "json \<Rightarrow> string \<Rightarrow> string option" where
  "extract_string_field rec f =
     opt_bind (json_get ''fields'' rec) (\<lambda>fs. opt_bind (json_get f fs) as_str)"

definition extract_field_as_string :: "json \<Rightarrow> string \<Rightarrow> fold_db_error + string" where
  "extract_field_as_string fs f =
     ok_or (Config (''resolver: field '' @ CHR 0x27 # f @ CHR 0x27 # '' missing or non-string in record''))
       (opt_bind (json_get f fs) as_str)"

definition extract_field_as_f32 :: "json \<Rightarrow> string \<Rightarrow> fold_db_error + fl" where
  "extract_field_as_f32 fs f =
     ok_or (Config (''resolver: field '' @ CHR 0x27 # f @ CHR 0x27 # '' missing or non-numeric in record''))
       (map_option as_f32 (opt_bind (json_get f fs) as_f64))"

definition fingerprint_exists :: "fp_env \<Rightarrow> string \<Rightarrow> fold_db_error + bool" where
  "fingerprint_exists env fp =
     res_bind (env_lookup env (FINGERPRINT env)) (\<lambda>canonical.
     res_bind (engine env (key_query canonical [''id''] fp)) (\<lambda>results.
     Inr (results \<noteq> [])))"

definition edge_ids_touching :: "fp_env \<Rightarrow> string \<Rightarrow> fold_db_error + string list" where
  "edge_ids_touching env fp =
     res_bind (env_lookup env (EDGE_BY_FINGERPRINT env)) (\<lambda>canonical.
     res_bind (engine env (key_query canonical [''edge_id''] fp)) (\<lambda>results.
     Inr (List.map_filter (\<lambda>r. extract_string_field r ''edge_id'') results)))"

definition mention_ids_touching :: "fp_env \<Rightarrow> string \<Rightarrow> fold_db_error + string list" where
  "mention_ids_touching env fp =
     res_bind (env_lookup env (MENTION_BY_FINGERPRINT env)) (\<lambda>canonical.
     res_bind (engine env (key_query canonical [''mention_id''] fp)) (\<lambda>results.
     Inr (List.map_filter (\<lambda>r. extract_string_field r ''mention_id'') results)))"

definition fetch_edge :: "fp_env \<Rightarrow> string \<Rightarrow> fold_db_error + resolved_edge option" where
  "fetch_edge env eid =
     res_bind (env_lookup env (EDGE env)) (\<lambda>canonical.
     res_bind (engine env (key_query canonical [''id'', ''a'', ''b'', ''kind'', ''weight''] eid)) (\<lambda>results.
     case results of
       [] \<Rightarrow> Inr None
     | record # _ \<Rightarrow>
         res_bind (ok_or (Config ''Edge record missing 'fields' envelope'') (json_get ''fields'' record)) (\<lambda>fs.
         res_bind (extract_field_as_string fs ''id'') (\<lambda>i.
         res_bind (extract_field_as_string fs ''a'') (\<lambda>a.
         res_bind (extract_field_as_string fs ''b'') (\<lambda>b.
         res_bind (extract_field_as_string fs ''kind'') (\<lambda>k.
         res_bind (extract_field_as_f32 fs ''weight'') (\<lambda>w.
         Inr (Some \<lparr>edge_rid = i, edge_a = a, edge_b = b, edge_kind = k, edge_weight = w\<rparr>)))))))))"

section \<open>The walk\<close>

text \<open>\<open>w_queue\<close> holds the vector in reverse: its head is the end that \<^verbatim>\<open>pop\<close> and \<^verbatim>\<open>push\<close> use.\<close>

record walk_state =
  w_queue :: "string list"
  w_visited :: "string set"
  w_edges :: "string set"
  w_diag :: diagnostics

definition push_new :: "string \<Rightarrow> string list \<Rightarrow> string list" where
  "push_new x xs = (if x \<in> set xs then xs else xs @ [x])"

definition walk_edge ::
    "fp_env \<Rightarrow> persona_spec \<Rightarrow> string \<Rightarrow> string \<Rightarrow> walk_state \<Rightarrow> fold_db_error + walk_state" where
  "walk_edge env spec fp eid s =
     (if eid \<in> w_edges s then Inr s
      else if eid \<in> excluded_edge_ids spec then
        Inr (s\<lparr>w_diag := (w_diag s)\<lparr>excluded_edge_count := Suc (excluded_edge_count (w_diag s))\<rparr>\<rparr>)
      else res_bind (fetch_edge env eid) (\<lambda>found. case found of
          None \<Rightarrow>
            Inr (s\<lparr>w_diag := (w_diag s)\<lparr>dangling_edge_ids := push_new eid (dangling_edge_ids (w_diag s))\<rparr>\<rparr>)
        | Some edge \<Rightarrow>
            if edge_kind edge = USER_FORBIDDEN then
              Inr (s\<lparr>w_diag := (w_diag s)\<lparr>forbidden_edge_count := Suc (forbidden_edge_count (w_diag s))\<rparr>\<rparr>)
            else if fl_lt (edge_weight edge) (threshold spec) then
              Inr (s\<lparr>w_diag := (w_diag s)\<lparr>below_threshold_count := Suc (below_threshold_count (w_diag s))\<rparr>\<rparr>)
            else Inr (s\<lparr>
              w_edges := insert eid (w_edges s),
              w_queue := (case other_endpoint edge fp of
                  Some other \<Rightarrow> (if other \<notin> w_visited s then other # w_queue s else w_queue s)
                | None \<Rightarrow> w_queue s)\<rparr>)))"

fun walk_edges ::
    "fp_env \<Rightarrow> persona_spec \<Rightarrow> string \<Rightarrow> string list \<Rightarrow> walk_state \<Rightarrow> fold_db_error + walk_state" where
  "walk_edges env spec fp [] s = Inr s"
| "walk_edges env spec fp (eid # es) s = res_bind (walk_edge env spec fp eid s) (walk_edges env spec fp es)"

fun walk_step :: "fp_env \<Rightarrow> persona_spec \<Rightarrow> walk_state \<Rightarrow> fold_db_error + walk_state" where
  "walk_step env spec s =
     (case w_queue s of
        [] \<Rightarrow> Inr s
      | fp # rest \<Rightarrow>
          (let s = s\<lparr>w_queue := rest\<rparr> in
           if fp \<in> w_visited s then Inr s
           else res_bind (fingerprint_exists env fp) (\<lambda>found.
             if \<not> found then
               Inr (s\<lparr>w_diag := (w_diag s)\<lparr>missing_seeds := push_new fp (missing_seeds (w_diag s))\<rparr>\<rparr>)
             else
               res_bind (edge_ids_touching env fp) (\<lambda>es.
                 walk_edges env spec fp es (s\<lparr>w_visited := insert fp (w_visited s)\<rparr>)))))"

declare walk_step.simps [simp del]

definition walk_init :: "persona_spec \<Rightarrow> walk_state" where
  "walk_init spec = \<lparr>w_queue = rev (seed_fingerprint_ids spec), w_visited = {}, w_edges = {},
     w_diag = no_diagnostics\<rparr>"

definition walk :: "fp_env \<Rightarrow> persona_spec \<Rightarrow> (fold_db_error + walk_state) option" where
  "walk env spec = loop_until (\<lambda>s. w_queue s = []) (walk_step env spec) (walk_init spec)"

section \<open>Mentions and the result\<close>

fun add_mentions ::
    "string set \<Rightarrow> string list \<Rightarrow> string set \<times> nat \<Rightarrow> string set \<times> nat" where
  "add_mentions excl [] acc = acc"
| "add_mentions excl (m # ms) (found, n) =
     add_mentions excl ms (if m \<in> excl then (found, Suc n) else (insert m found, n))"

fun collect_mentions ::
    "fp_env \<Rightarrow> persona_spec \<Rightarrow> string list \<Rightarrow> string set \<times> nat \<Rightarrow> fold_db_error + string set \<times> nat" where
  "collect_mentions env spec [] acc = Inr acc"
| "collect_mentions env spec (fp # fps) acc =
     res_bind (mention_ids_touching env fp) (\<lambda>ms.
       collect_mentions env spec fps (add_mentions (excluded_mention_ids spec) ms acc))"

definition finish_resolve ::
    "(string set \<Rightarrow> string list) \<Rightarrow> fp_env \<Rightarrow> persona_spec \<Rightarrow> walk_state \<Rightarrow> fold_db_error + resolve_result" where
  "finish_resolve it env spec s =
     res_bind (collect_mentions env spec (it (w_visited s)) ({}, excluded_mention_count (w_diag s))) (\<lambda>(found, n).
       let diag = (w_diag s)\<lparr>excluded_mention_count := n\<rparr>;
           body = \<lparr>r_persona_id = persona_id spec, r_fingerprint_ids = w_visited s, r_edge_ids = w_edges s,
                   r_mention_ids = found \<union> included_mention_ids spec, r_identity_id = identity_id spec\<rparr>
       in Inr (if diag_is_clean diag then Resolved body else ResolvedWithDiagnostics body diag))"

text \<open>\<^const>\<open>None\<close> is a walk that never ends; \<open>it\<close> is the iteration order of the visited set.\<close>

definition resolve ::
    "(string set \<Rightarrow> string list) \<Rightarrow> fp_env \<Rightarrow> persona_spec \<Rightarrow> (fold_db_error + resolve_result) option" where
  "resolve it env spec =
     map_option (\<lambda>r. res_bind r (finish_resolve it env spec)) (walk env spec)"

end
