(* ===== verification/Personas.thy ===== *)
theory Personas
  imports Handlers Resolver "HOL-Library.Product_Lexorder"
begin

text \<open>
  \<^verbatim>\<open>src/handlers/fingerprints/personas.rs\<close>: list, read, patch, merge and delete personas.
  Each handler is the whole handler: guards in the source's order, the queries and
  mutations it sends, and the reread at the end. Logging is left out, and the long dash of
  two messages is written as two hyphens. \<^const>\<open>None\<close> is a resolver walk that never ends.
\<close>

section \<open>Results that may not return\<close>

definition obind :: "('e + 'a) option \<Rightarrow> ('a \<Rightarrow> ('e + 'b) option) \<Rightarrow> ('e + 'b) option" where
  "obind r f = (case r of None \<Rightarrow> None | Some (Inl e) \<Rightarrow> Some (Inl e) | Some (Inr x) \<Rightarrow> f x)"

lemma obind_simps [simp]:
  "obind None f = None" "obind (Some (Inl e)) f = Some (Inl e)" "obind (Some (Inr x)) f = f x"
  by (simp_all add: obind_def)

lemma obind_eq_Inr:
  "obind r f = Some (Inr y) \<longleftrightarrow> (\<exists>x. r = Some (Inr x) \<and> f x = Some (Inr y))"
  by (cases r; cases "the r") (auto simp: obind_def split: sum.splits)

fun collect_each :: "('a \<Rightarrow> ('e + 'b) option) \<Rightarrow> 'a list \<Rightarrow> ('e + 'b list) option" where
  "collect_each f [] = Some (Inr [])"
| "collect_each f (x # xs) = obind (f x) (\<lambda>y. obind (collect_each f xs) (\<lambda>ys. Some (Inr (y # ys))))"

text \<open>\<^verbatim>\<open>for id in ids { match f(id)? { Some(v) => out.push(v), None => continue } }\<close>.\<close>

fun fetch_each :: "('a \<Rightarrow> 'e + 'b option) \<Rightarrow> 'a list \<Rightarrow> 'e + 'b list" where
  "fetch_each f [] = Inr []"
| "fetch_each f (x # xs) =
     res_bind (f x) (\<lambda>o1. res_bind (fetch_each f xs) (\<lambda>ys.
       Inr (case o1 of None \<Rightarrow> ys | Some y \<Rightarrow> y # ys)))"

section \<open>Views\<close>

record persona_summary =
  ps_id :: string
  ps_name :: string
  ps_identity_linked :: bool
  ps_threshold :: fl
  ps_relationship :: string
  ps_trust_tier :: int
  ps_built_in :: bool
  ps_user_confirmed :: bool
  ps_fingerprint_count :: nat
  ps_edge_count :: nat
  ps_mention_count :: nat
  ps_aliases :: "string list"
  ps_created_at :: "string option"

record fingerprint_view =
  fv_id :: string
  fv_short_id :: string
  fv_kind :: string
  fv_display_value :: string
  fv_first_seen :: "string option"
  fv_last_seen :: "string option"
  fv_sample_source :: "string option"
  fv_sample_source_field :: "string option"
  fv_sample_mention_at :: "string option"

record edge_view =
  ev_id :: string
  ev_a :: string
  ev_b :: string
  ev_kind :: string
  ev_weight :: fl
  ev_created_at :: "string option"

record mention_view =
  mv_id :: string
  mv_source_schema :: string
  mv_source_key :: string
  mv_source_field :: string
  mv_extractor :: string
  mv_confidence :: fl
  mv_created_at :: "string option"

record persona_detail =
  pd_id :: string
  pd_name :: string
  pd_threshold :: fl
  pd_relationship :: string
  pd_trust_tier :: int
  pd_built_in :: bool
  pd_user_confirmed :: bool
  pd_identity_id :: "string option"
  pd_seed_fingerprint_ids :: "string list"
  pd_aliases :: "string list"
  pd_excluded_edge_ids :: "string list"
  pd_excluded_mention_ids :: "string list"
  pd_fingerprint_ids :: "string list"
  pd_edge_ids :: "string list"
  pd_mention_ids :: "string list"
  pd_fingerprints :: "fingerprint_view list"
  pd_edges :: "edge_view list"
  pd_mentions :: "mention_view list"
  pd_diagnostics :: "diagnostics option"

section \<open>Field extraction\<close>

definition string_field :: "json \<Rightarrow> string \<Rightarrow> string option" where
  "string_field fs name = opt_bind (json_get name fs) as_str"

definition bool_field :: "json \<Rightarrow> string \<Rightarrow> bool option" where
  "bool_field fs name = opt_bind (json_get name fs) as_bool"

definition int_field :: "json \<Rightarrow> string \<Rightarrow> int option" where
  "int_field fs name = opt_bind (json_get name fs) as_i64"

definition string_array_field :: "json \<Rightarrow> string \<Rightarrow> string list" where
  "string_array_field fs name =
     (case opt_bind (json_get name fs) as_array of
        None \<Rightarrow> []
      | Some arr \<Rightarrow> List.map_filter as_str arr)"

definition or_default :: "'a \<Rightarrow> 'a option \<Rightarrow> 'a" where
  "or_default d x = (case x of None \<Rightarrow> d | Some v \<Rightarrow> v)"

definition f32_field :: "json \<Rightarrow> string \<Rightarrow> fl option" where
  "f32_field fs name = map_option as_f32 (opt_bind (json_get name fs) as_f64)"

definition persona_fields :: "string list" where
  "persona_fields = [''id'', ''name'', ''seed_fingerprint_ids'', ''threshold'', ''excluded_mention_ids'',
     ''excluded_edge_ids'', ''included_mention_ids'', ''aliases'', ''relationship'', ''trust_tier'',
     ''identity_id'', ''user_confirmed'', ''built_in'', ''created_at'']"

text \<open>The literal \<^verbatim>\<open>0.85_f32\<close>.\<close>

definition f32_085 :: fl where
  "f32_085 = f32_round (85 / 100)"

definition identity_ref_key :: "json \<Rightarrow> string option" where
  "identity_ref_key v = (if v = JNull then None else opt_bind (json_get ''key'' v) as_str)"

definition persona_spec_from_fields :: "json \<Rightarrow> handler_error + persona_spec" where
  "persona_spec_from_fields fs =
     res_bind (ok_or (Internal ''persona record missing 'id' field'') (string_field fs ''id'')) (\<lambda>pid.
     Inr \<lparr>persona_id = pid,
          seed_fingerprint_ids = string_array_field fs ''seed_fingerprint_ids'',
          threshold = or_default f32_085 (f32_field fs ''threshold''),
          excluded_edge_ids = set (string_array_field fs ''excluded_edge_ids''),
          excluded_mention_ids = set (string_array_field fs ''excluded_mention_ids''),
          included_mention_ids = set (string_array_field fs ''included_mention_ids''),
          identity_id = opt_bind (json_get ''identity_id'' fs) identity_ref_key\<rparr>)"

definition extract_identity_key :: "json \<Rightarrow> string option" where
  "extract_identity_key fs =
     opt_bind (json_get ''identity_id'' fs) (\<lambda>v. if is_object v then opt_bind (json_get ''key'' v) as_str else None)"

definition union_string_arrays :: "string list \<Rightarrow> string list \<Rightarrow> string list" where
  "union_string_arrays a b = dedup_by (\<lambda>s. s) {} (a @ b)"

definition json_string_array :: "string list \<Rightarrow> json" where
  "json_string_array vs = JArr (map JStr vs)"

definition identity_ref :: "string \<Rightarrow> json" where
  "identity_ref key = JObj [(''schema'', JStr ''Identity''), (''key'', JStr key)]"

section \<open>Enrichment\<close>

definition first_fields :: "json list \<Rightarrow> json option" where
  "first_fields rs = (case rs of [] \<Rightarrow> None | r # _ \<Rightarrow> json_get ''fields'' r)"

definition fetch_mention_view :: "'d fp_node \<Rightarrow> 'd \<Rightarrow> string \<Rightarrow> string \<Rightarrow> handler_error + mention_view option" where
  "fetch_mention_view nd d canonical mid =
     res_bind (handler_err_msg (show_error nd) (''mention '' @ CHR 0x27 # mid @ CHR 0x27 # '' query failed'')
       (query_db nd d (key_query canonical [''id'', ''source_schema'', ''source_key'', ''source_field'', ''extractor'',
          ''confidence'', ''created_at''] mid))) (\<lambda>records.
     Inr (map_option (\<lambda>fs. \<lparr>mv_id = mid,
         mv_source_schema = or_default [] (string_field fs ''source_schema''),
         mv_source_key = or_default [] (string_field fs ''source_key''),
         mv_source_field = or_default [] (string_field fs ''source_field''),
         mv_extractor = or_default [] (string_field fs ''extractor''),
         mv_confidence = or_default (Fin 0) (f32_field fs ''confidence''),
         mv_created_at = string_field fs ''created_at''\<rparr>) (first_fields records)))"

definition fetch_mention_views :: "'d fp_node \<Rightarrow> 'd \<Rightarrow> string list \<Rightarrow> handler_error + mention_view list" where
  "fetch_mention_views nd d ids =
     res_bind (canonical_lookup nd (MENTION nd)) (\<lambda>canonical. fetch_each (fetch_mention_view nd d canonical) ids)"

definition fetch_sample_mention_for_fingerprint ::
    "'d fp_node \<Rightarrow> 'd \<Rightarrow> string \<Rightarrow> handler_error + mention_view option" where
  "fetch_sample_mention_for_fingerprint nd d fp =
     res_bind (canonical_lookup nd (MENTION_BY_FINGERPRINT nd)) (\<lambda>junction.
     res_bind (handler_err_msg (show_error nd)
         (''sample-mention junction query failed for '' @ CHR 0x27 # fp @ [CHR 0x27])
         (query_db nd d (key_query junction [''mention_id''] fp))) (\<lambda>rows.
     case rows of
       [] \<Rightarrow> Inr None
     | first # _ \<Rightarrow>
         (case extract_string_field first ''mention_id'' of
            None \<Rightarrow> Inr None
          | Some mid \<Rightarrow>
              res_bind (fetch_mention_views nd d [mid]) (\<lambda>mentions.
                Inr (case mentions of [] \<Rightarrow> None | m # _ \<Rightarrow> Some m)))))"

text \<open>\<^verbatim>\<open>split_once('_')\<close>: what follows the first underscore, if there is one.\<close>

definition after_underscore :: "string \<Rightarrow> string option" where
  "after_underscore s = (case dropWhile (\<lambda>c. c \<noteq> CHR ''_'') s of [] \<Rightarrow> None | _ # rest \<Rightarrow> Some rest)"

definition short_fingerprint_id :: "string \<Rightarrow> string" where
  "short_fingerprint_id full = take 8 (or_default full (after_underscore full))"

definition fingerprint_display_value :: "(json \<Rightarrow> string) \<Rightarrow> string \<Rightarrow> json option \<Rightarrow> string" where
  "fingerprint_display_value to_string kind value =
     (case value of
        None \<Rightarrow> []
      | Some v \<Rightarrow>
          if eq_ignore_ascii_case kind ''face_embedding'' \<or> eq_ignore_ascii_case kind ''faceembedding'' then
            ''face embedding ('' @ show_nat (case as_array v of Some a \<Rightarrow> length a | None \<Rightarrow> 0) @ '' dims)''
          else (case v of
              JStr s \<Rightarrow> s
            | JArr items \<Rightarrow> (if items = [] then ''[]'' else show_nat (length items) @ '' items'')
            | JNull \<Rightarrow> []
            | other \<Rightarrow> to_string other))"

definition fetch_fingerprint_view ::
    "'d fp_node \<Rightarrow> 'd \<Rightarrow> string \<Rightarrow> string \<Rightarrow> handler_error + fingerprint_view option" where
  "fetch_fingerprint_view nd d canonical fp =
     res_bind (handler_err_msg (show_error nd) (''fingerprint '' @ CHR 0x27 # fp @ CHR 0x27 # '' query failed'')
       (query_db nd d (key_query canonical [''id'', ''kind'', ''value'', ''first_seen'', ''last_seen''] fp))) (\<lambda>records.
     case first_fields records of
       None \<Rightarrow> Inr None
     | Some fs \<Rightarrow>
         (let kind = or_default [] (string_field fs ''kind'') in
          res_bind (fetch_sample_mention_for_fingerprint nd d fp) (\<lambda>sample.
          Inr (Some \<lparr>fv_id = fp, fv_short_id = short_fingerprint_id fp, fv_kind = kind,
            fv_display_value = fingerprint_display_value (show_json nd) kind (json_get ''value'' fs),
            fv_first_seen = string_field fs ''first_seen'', fv_last_seen = string_field fs ''last_seen'',
            fv_sample_source = map_option (\<lambda>m. mv_source_schema m @ '':'' @ mv_source_key m) sample,
            fv_sample_source_field =
              opt_bind sample (\<lambda>m. if mv_source_field m = [] then None else Some (mv_source_field m)),
            fv_sample_mention_at = opt_bind sample mv_created_at\<rparr>))))"

definition fetch_fingerprint_views :: "'d fp_node \<Rightarrow> 'd \<Rightarrow> string list \<Rightarrow> handler_error + fingerprint_view list" where
  "fetch_fingerprint_views nd d ids =
     res_bind (canonical_lookup nd (FINGERPRINT nd)) (\<lambda>canonical. fetch_each (fetch_fingerprint_view nd d canonical) ids)"

definition fetch_edge_view :: "'d fp_node \<Rightarrow> 'd \<Rightarrow> string \<Rightarrow> string \<Rightarrow> handler_error + edge_view option" where
  "fetch_edge_view nd d canonical eid =
     res_bind (handler_err_msg (show_error nd) (''edge '' @ CHR 0x27 # eid @ CHR 0x27 # '' query failed'')
       (query_db nd d (key_query canonical [''id'', ''a'', ''b'', ''kind'', ''weight'', ''created_at''] eid))) (\<lambda>records.
     Inr (map_option (\<lambda>fs. \<lparr>ev_id = eid,
         ev_a = or_default [] (string_field fs ''a''), ev_b = or_default [] (string_field fs ''b''),
         ev_kind = or_default [] (string_field fs ''kind''),
         ev_weight = or_default (Fin 0) (f32_field fs ''weight''),
         ev_created_at = string_field fs ''created_at''\<rparr>) (first_fields records)))"

definition fetch_edge_views :: "'d fp_node \<Rightarrow> 'd \<Rightarrow> string list \<Rightarrow> handler_error + edge_view list" where
  "fetch_edge_views nd d ids =
     res_bind (canonical_lookup nd (EDGE nd)) (\<lambda>canonical. fetch_each (fetch_edge_view nd d canonical) ids)"

section \<open>Reading personas\<close>

definition resolve_persona ::
    "(string set \<Rightarrow> string list) \<Rightarrow> 'd fp_node \<Rightarrow> 'd \<Rightarrow> persona_spec \<Rightarrow> (handler_error + resolve_result) option" where
  "resolve_persona it nd d spec =
     map_option (handler_err (show_error nd) ''resolve persona'') (resolve it (env_at nd d) spec)"

definition summary_of ::
    "(string set \<Rightarrow> string list) \<Rightarrow> 'd fp_node \<Rightarrow> 'd \<Rightarrow> json \<Rightarrow> (handler_error + persona_summary) option" where
  "summary_of it nd d record =
     obind (Some (ok_or (Internal ''persona record missing 'fields' envelope'') (json_get ''fields'' record))) (\<lambda>fs.
     obind (Some (persona_spec_from_fields fs)) (\<lambda>spec.
     obind (resolve_persona it nd d spec) (\<lambda>result.
     Some (Inr \<lparr>ps_id = persona_id spec, ps_name = or_default [] (string_field fs ''name''),
       ps_identity_linked = (identity_id spec \<noteq> None), ps_threshold = threshold spec,
       ps_relationship = or_default [] (string_field fs ''relationship''),
       ps_trust_tier = or_default 0 (int_field fs ''trust_tier''),
       ps_built_in = or_default False (bool_field fs ''built_in''),
       ps_user_confirmed = or_default False (bool_field fs ''user_confirmed''),
       ps_fingerprint_count = card (r_fingerprint_ids (result_body result)),
       ps_edge_count = card (r_edge_ids (result_body result)),
       ps_mention_count = card (r_mention_ids (result_body result)),
       ps_aliases = string_array_field fs ''aliases'', ps_created_at = string_field fs ''created_at''\<rparr>))))"

text \<open>The sort puts built-in personas first, then orders by name; it is stable.\<close>

definition list_personas ::
    "(string set \<Rightarrow> string list) \<Rightarrow> 'd fp_node \<Rightarrow> 'd \<Rightarrow> (handler_error + persona_summary list) option" where
  "list_personas it nd d =
     obind (Some (canonical_lookup nd (PERSONA nd))) (\<lambda>canonical.
     obind (Some (handler_err (show_error nd) ''query persona list''
       (query_db nd d (simple_query canonical persona_fields None)))) (\<lambda>records.
     obind (collect_each (summary_of it nd d) records) (\<lambda>personas.
     Some (Inr (sort_key (\<lambda>p. (\<not> ps_built_in p, ps_name p)) personas)))))"

definition fetch_persona_fields :: "'d fp_node \<Rightarrow> 'd \<Rightarrow> string \<Rightarrow> string \<Rightarrow> handler_error + json" where
  "fetch_persona_fields nd d canonical pid =
     res_bind (handler_err (show_error nd) ''query persona''
       (query_db nd d (key_query canonical persona_fields pid))) (\<lambda>records.
     case records of
       [] \<Rightarrow> Inl (NotFound (''persona '' @ CHR 0x27 # pid @ CHR 0x27 # '' not found''))
     | record # _ \<Rightarrow>
         ok_or (Internal ''persona record missing 'fields' envelope'') (json_get ''fields'' record))"

definition get_persona ::
    "(string set \<Rightarrow> string list) \<Rightarrow> 'd fp_node \<Rightarrow> 'd \<Rightarrow> string \<Rightarrow> (handler_error + persona_detail) option" where
  "get_persona it nd d pid =
     obind (Some (canonical_lookup nd (PERSONA nd))) (\<lambda>canonical.
     obind (Some (fetch_persona_fields nd d canonical pid)) (\<lambda>fs.
     obind (Some (persona_spec_from_fields fs)) (\<lambda>spec.
     obind (resolve_persona it nd d spec) (\<lambda>result.
     let fp_ids = sort (it (r_fingerprint_ids (result_body result)));
         edge_ids = sort (it (r_edge_ids (result_body result)));
         mention_ids = sort (it (r_mention_ids (result_body result)))
     in
     obind (Some (fetch_fingerprint_views nd d fp_ids)) (\<lambda>fingerprints.
     obind (Some (fetch_edge_views nd d edge_ids)) (\<lambda>edges.
     obind (Some (fetch_mention_views nd d mention_ids)) (\<lambda>mentions.
     Some (Inr \<lparr>pd_id = persona_id spec, pd_name = or_default [] (string_field fs ''name''),
       pd_threshold = threshold spec,
       pd_relationship = or_default [] (string_field fs ''relationship''),
       pd_trust_tier = or_default 0 (int_field fs ''trust_tier''),
       pd_built_in = or_default False (bool_field fs ''built_in''),
       pd_user_confirmed = or_default False (bool_field fs ''user_confirmed''),
       pd_identity_id = identity_id spec, pd_seed_fingerprint_ids = seed_fingerprint_ids spec,
       pd_aliases = string_array_field fs ''aliases'',
       pd_excluded_edge_ids = string_array_field fs ''excluded_edge_ids'',
       pd_excluded_mention_ids = string_array_field fs ''excluded_mention_ids'',
       pd_fingerprint_ids = fp_ids, pd_edge_ids = edge_ids, pd_mention_ids = mention_ids,
       pd_fingerprints = fingerprints, pd_edges = edges, pd_mentions = mentions,
       pd_diagnostics = result_diagnostics result\<rparr>))))))))"

section \<open>Deleting\<close>

definition delete_persona ::
    "'d fp_node \<Rightarrow> 'd \<Rightarrow> string \<Rightarrow> (handler_error + json) \<times> 'd" where
  "delete_persona nd d pid =
     (case canonical_lookup nd (PERSONA nd) of
        Inl e \<Rightarrow> (Inl e, d)
      | Inr canonical \<Rightarrow>
     (case handler_err (show_error nd) ''look up persona''
             (query_db nd d (key_query canonical [''id'', ''built_in''] pid)) of
        Inl e \<Rightarrow> (Inl e, d)
      | Inr [] \<Rightarrow> (Inl (NotFound (''persona '' @ CHR 0x27 # pid @ CHR 0x27 # '' not found'')), d)
      | Inr (record # _) \<Rightarrow>
     (case json_get ''fields'' record of
        None \<Rightarrow> (Inl (Internal ''persona record missing 'fields' envelope''), d)
      | Some fs \<Rightarrow>
          if or_default False (bool_field fs ''built_in'') then
            (Inl (BadRequest ''cannot delete a built-in persona (Me); reset your node identity instead''), d)
          else
            (case mutate_db nd d canonical Map.empty (Some pid, None) Delete of (r, d') \<Rightarrow>
               (res_bind (handler_err_msg (show_error nd) (''failed to delete persona '' @ CHR 0x27 # pid @ [CHR 0x27]) r)
                  (\<lambda>_. Inr (JObj [(''deleted_persona_id'', JStr pid)])), d')))))"

end
