(* ===== verification/Persona_Edit.thy ===== *)
theory Persona_Edit
  imports Personas
begin

text \<open>
  The editing half of \<^verbatim>\<open>src/handlers/fingerprints/personas.rs\<close>: \<^verbatim>\<open>PersonaPatch\<close>,
  \<^verbatim>\<open>apply_persona_patch\<close> and \<^verbatim>\<open>merge_personas\<close>. The edit of the payload is a function of
  its own (\<open>patch_payload\<close>, \<open>merge_payload\<close>), because the source does all of it before the
  single update it sends.
\<close>

section \<open>Patches\<close>

record persona_patch =
  pp_threshold :: "fl option"
  pp_add_excluded_edge_id :: "string option"
  pp_remove_excluded_edge_id :: "string option"
  pp_add_excluded_mention_id :: "string option"
  pp_remove_excluded_mention_id :: "string option"
  pp_name :: "string option"
  pp_relationship :: "string option"
  pp_aliases :: "string list option"
  pp_user_confirmed :: "bool option"
  pp_link_identity_id :: "string option"
  pp_clear_identity_id :: bool

definition empty_patch :: persona_patch where
  "empty_patch = \<lparr>pp_threshold = None, pp_add_excluded_edge_id = None, pp_remove_excluded_edge_id = None,
     pp_add_excluded_mention_id = None, pp_remove_excluded_mention_id = None, pp_name = None,
     pp_relationship = None, pp_aliases = None, pp_user_confirmed = None, pp_link_identity_id = None,
     pp_clear_identity_id = False\<rparr>"

definition patch_is_empty :: "persona_patch \<Rightarrow> bool" where
  "patch_is_empty p \<longleftrightarrow>
     pp_threshold p = None \<and> pp_add_excluded_edge_id p = None \<and> pp_remove_excluded_edge_id p = None \<and>
     pp_add_excluded_mention_id p = None \<and> pp_remove_excluded_mention_id p = None \<and> pp_name p = None \<and>
     pp_relationship p = None \<and> pp_aliases p = None \<and> pp_user_confirmed p = None \<and>
     pp_link_identity_id p = None \<and> \<not> pp_clear_identity_id p"

definition ALLOWED_RELATIONSHIPS :: "string list" where
  "ALLOWED_RELATIONSHIPS = [''self'', ''family'', ''colleague'', ''friend'', ''acquaintance'', ''unknown'']"

definition threshold_upper :: fl where
  "threshold_upper = Fin 1"

fun is_finite_fl :: "fl \<Rightarrow> bool" where
  "is_finite_fl (Fin _) = True"
| "is_finite_fl _ = False"

definition payload_array :: "payload \<Rightarrow> string \<Rightarrow> json list" where
  "payload_array m f = or_default [] (opt_bind (m f) as_array)"

definition apply_array_add :: "string \<Rightarrow> string \<Rightarrow> payload \<Rightarrow> payload" where
  "apply_array_add f value m =
     (let items = payload_array m f in
      m(f \<mapsto> JArr (if list_ex (\<lambda>v. as_str v = Some value) items then items else items @ [JStr value])))"

definition apply_array_remove :: "string \<Rightarrow> string \<Rightarrow> payload \<Rightarrow> payload" where
  "apply_array_remove f value m =
     m(f \<mapsto> JArr (filter (\<lambda>v. as_str v \<noteq> Some value) (payload_array m f)))"

definition payload_bool :: "payload \<Rightarrow> string \<Rightarrow> bool" where
  "payload_bool m f = or_default False (opt_bind (m f) as_bool)"

definition on_some :: "('a \<Rightarrow> 'm \<Rightarrow> 'm) \<Rightarrow> 'a option \<Rightarrow> 'm \<Rightarrow> 'm" where
  "on_some f x m = (case x of None \<Rightarrow> m | Some v \<Rightarrow> f v m)"

text \<open>The checks made before anything is read.\<close>

definition validate_patch :: "(fl \<Rightarrow> string) \<Rightarrow> persona_patch \<Rightarrow> handler_error + unit" where
  "validate_patch show_f p =
     (if patch_is_empty p then Inl (BadRequest ''persona patch must contain at least one mutable field'')
      else if pp_link_identity_id p \<noteq> None \<and> pp_clear_identity_id p then
        Inl (BadRequest ''link_identity_id and clear_identity_id are mutually exclusive -- pick one op per patch'')
      else
        res_bind (case pp_threshold p of
            None \<Rightarrow> Inr ()
          | Some t \<Rightarrow>
              if \<not> is_finite_fl t \<or> \<not> (fl_le (Fin 0) t \<and> fl_le t threshold_upper) then
                Inl (BadRequest (''threshold must be a finite number in [0.0, 1.0], got '' @ show_f t))
              else Inr ()) (\<lambda>_.
        res_bind (case pp_name p of None \<Rightarrow> Inr () | Some n \<Rightarrow> require_non_empty n ''name must not be empty'') (\<lambda>_.
        (case pp_relationship p of
            None \<Rightarrow> Inr ()
          | Some r \<Rightarrow>
              if r \<notin> set ALLOWED_RELATIONSHIPS then
                Inl (BadRequest (''relationship must be one of [\"self\", \"family\", \"colleague\", \"friend\", \"acquaintance\", \"unknown\"], got ''
                  @ CHR 0x27 # r @ [CHR 0x27]))
              else Inr ()))))"

text \<open>Step 3: the patch operations on the payload, in the source's order.\<close>

definition patch_arrays :: "persona_patch \<Rightarrow> payload \<Rightarrow> payload" where
  "patch_arrays p m =
     on_some (apply_array_remove ''excluded_mention_ids'') (pp_remove_excluded_mention_id p)
       (on_some (apply_array_add ''excluded_mention_ids'') (pp_add_excluded_mention_id p)
         (on_some (apply_array_remove ''excluded_edge_ids'') (pp_remove_excluded_edge_id p)
           (on_some (apply_array_add ''excluded_edge_ids'') (pp_add_excluded_edge_id p)
             (on_some (\<lambda>t m. m(''threshold'' \<mapsto> (if is_finite_fl t then JNum t else JNull))) (pp_threshold p) m))))"

definition patch_name :: "persona_patch \<Rightarrow> payload \<Rightarrow> handler_error + payload" where
  "patch_name p m =
     (case pp_name p of
        None \<Rightarrow> Inr m
      | Some n \<Rightarrow>
          if payload_bool m ''built_in'' then
            Inl (BadRequest ''cannot rename a built-in persona (Me) -- update the IdentityCard display name instead'')
          else Inr (m(''name'' \<mapsto> JStr (trim n))))"

definition patch_confirmed :: "persona_patch \<Rightarrow> payload \<Rightarrow> handler_error + payload" where
  "patch_confirmed p m =
     (case pp_user_confirmed p of
        None \<Rightarrow> Inr m
      | Some c \<Rightarrow>
          if payload_bool m ''user_confirmed'' \<and> \<not> c then
            Inl (BadRequest ''cannot un-confirm a persona; delete it if you want to reject it'')
          else Inr (m(''user_confirmed'' \<mapsto> JBool c)))"

definition patch_clear :: "persona_patch \<Rightarrow> payload \<Rightarrow> handler_error + payload" where
  "patch_clear p m =
     (if pp_clear_identity_id p then
        (if payload_bool m ''built_in'' then
           Inl (BadRequest ''cannot clear identity_id on a built-in persona (Me). Rotate the IdentityCard if you need to change it.'')
         else Inr (m(''identity_id'' \<mapsto> JNull)))
      else Inr m)"

definition patch_payload :: "persona_patch \<Rightarrow> payload \<Rightarrow> handler_error + payload" where
  "patch_payload p m0 =
     res_bind (patch_name p (patch_arrays p m0)) (\<lambda>m1.
     let m2 = on_some (\<lambda>r m. m(''relationship'' \<mapsto> JStr r)) (pp_relationship p) m1;
         m3 = on_some (\<lambda>as m. m(''aliases'' \<mapsto> JArr (map JStr as))) (pp_aliases p) m2
     in res_bind (patch_confirmed p m3) (\<lambda>m4.
        let m5 = on_some (\<lambda>i m. m(''identity_id'' \<mapsto> identity_ref i)) (pp_link_identity_id p) m4
        in patch_clear p m5))"

definition object_payload :: "handler_error \<Rightarrow> json \<Rightarrow> handler_error + payload" where
  "object_payload err fs = (case fs of JObj kvs \<Rightarrow> Inr (map_of kvs) | _ \<Rightarrow> Inl err)"

definition apply_persona_patch ::
    "(string set \<Rightarrow> string list) \<Rightarrow> 'd fp_node \<Rightarrow> 'd \<Rightarrow> string \<Rightarrow> persona_patch
     \<Rightarrow> (handler_error + persona_detail) option \<times> 'd" where
  "apply_persona_patch it nd d pid p =
     (case res_bind (validate_patch (show_f32 nd) p) (\<lambda>_.
           res_bind (canonical_lookup nd (PERSONA nd)) (\<lambda>canonical.
           res_bind (fetch_persona_fields nd d canonical pid) (\<lambda>fs.
           res_bind (object_payload (Internal ''persona record 'fields' envelope is not a JSON object'') fs) (\<lambda>m.
           res_bind (patch_payload p m) (\<lambda>m'. Inr (canonical, m')))))) of
        Inl e \<Rightarrow> (Some (Inl e), d)
      | Inr (canonical, m') \<Rightarrow>
          (case mutate_db nd d canonical m' (Some pid, None) Update of
             (Inl e, d') \<Rightarrow> (Some (Inl (Internal (''failed to update persona '' @ CHR 0x27 # pid @ CHR 0x27 # '': '' @ show_error nd e))), d')
           | (Inr _, d') \<Rightarrow> (get_persona it nd d' pid, d')))"

definition update_persona_threshold ::
    "(string set \<Rightarrow> string list) \<Rightarrow> 'd fp_node \<Rightarrow> 'd \<Rightarrow> string \<Rightarrow> fl
     \<Rightarrow> (handler_error + persona_detail) option \<times> 'd" where
  "update_persona_threshold it nd d pid t =
     apply_persona_patch it nd d pid (empty_patch\<lparr>pp_threshold := Some t\<rparr>)"

section \<open>Merging\<close>

definition merge_aliases :: "json \<Rightarrow> json \<Rightarrow> string list" where
  "merge_aliases survivor absorbed =
     (let aliases = fold (\<lambda>a as. if a \<in> set as then as else as @ [a])
            (string_array_field absorbed ''aliases'') (string_array_field survivor ''aliases'');
          survivor_name = or_default [] (string_field survivor ''name'');
          absorbed_name = or_default [] (string_field absorbed ''name'')
      in if absorbed_name \<noteq> [] \<and> absorbed_name \<noteq> survivor_name \<and> absorbed_name \<notin> set aliases
         then aliases @ [absorbed_name] else aliases)"

definition union_field :: "string \<Rightarrow> json \<Rightarrow> json \<Rightarrow> json" where
  "union_field f survivor absorbed =
     json_string_array (union_string_arrays (string_array_field survivor f) (string_array_field absorbed f))"

definition merge_payload :: "json \<Rightarrow> json \<Rightarrow> handler_error + payload" where
  "merge_payload survivor absorbed =
     (if or_default False (bool_field survivor ''built_in'') \<or> or_default False (bool_field absorbed ''built_in'') then
        Inl (BadRequest ''cannot merge a built-in persona (Me); rotate the IdentityCard instead'')
      else
        (case (extract_identity_key survivor, extract_identity_key absorbed) of
           (sk, ak) \<Rightarrow>
             if sk \<noteq> None \<and> ak \<noteq> None \<and> sk \<noteq> ak then
               Inl (BadRequest (''both personas are linked to different verified identities ('' @ the sk @ '' vs '' @ the ak
                 @ ''); unlink one before merging''))
             else
               res_bind (object_payload (Internal ''survivor persona fields is not a JSON object'') survivor) (\<lambda>m.
               let m1 = m(''seed_fingerprint_ids'' \<mapsto> union_field ''seed_fingerprint_ids'' survivor absorbed,
                          ''excluded_edge_ids'' \<mapsto> union_field ''excluded_edge_ids'' survivor absorbed,
                          ''excluded_mention_ids'' \<mapsto> union_field ''excluded_mention_ids'' survivor absorbed,
                          ''aliases'' \<mapsto> json_string_array (merge_aliases survivor absorbed))
               in Inr (if sk = None then on_some (\<lambda>k m. m(''identity_id'' \<mapsto> identity_ref k)) ak m1 else m1))))"

definition merge_personas ::
    "(string set \<Rightarrow> string list) \<Rightarrow> 'd fp_node \<Rightarrow> 'd \<Rightarrow> string \<Rightarrow> string
     \<Rightarrow> (handler_error + persona_detail) option \<times> 'd" where
  "merge_personas it nd d survivor_id absorbed_id =
     (if survivor_id = absorbed_id then (Some (Inl (BadRequest ''cannot merge a persona into itself'')), d)
      else
        case res_bind (canonical_lookup nd (PERSONA nd)) (\<lambda>canonical.
             res_bind (fetch_persona_fields nd d canonical survivor_id) (\<lambda>survivor.
             res_bind (fetch_persona_fields nd d canonical absorbed_id) (\<lambda>absorbed.
             res_bind (merge_payload survivor absorbed) (\<lambda>m. Inr (canonical, m))))) of
          Inl e \<Rightarrow> (Some (Inl e), d)
        | Inr (canonical, m) \<Rightarrow>
            (case mutate_db nd d canonical m (Some survivor_id, None) Update of
               (Inl e, d1) \<Rightarrow>
                 (Some (Inl (Internal (''failed to write merged survivor persona '' @ CHR 0x27 # survivor_id @ CHR 0x27 # '': '' @ show_error nd e))), d1)
             | (Inr _, d1) \<Rightarrow>
                 (case mutate_db nd d1 canonical Map.empty (Some absorbed_id, None) Delete of
                    (Inl e, d2) \<Rightarrow>
                      (Some (Inl (Internal (''survivor merged but failed to delete absorbed persona '' @ CHR 0x27 # absorbed_id @ CHR 0x27 # '': '' @ show_error nd e))), d2)
                  | (Inr _, d2) \<Rightarrow> (get_persona it nd d2 survivor_id, d2))))"

section \<open>What a patch changes\<close>

lemma on_some_simps [simp]: "on_some f None m = m" "on_some f (Some v) m = f v m"
  by (simp_all add: on_some_def)

text \<open>Frame rules: each step writes its own fields only.\<close>

lemma on_some_frame: "(\<And>v m. f v m k = m k) \<Longrightarrow> on_some f x m k = m k"
  by (cases x) auto

lemma array_frames:
  "k \<noteq> f \<Longrightarrow> apply_array_add f v m k = m k" "k \<noteq> f \<Longrightarrow> apply_array_remove f v m k = m k"
  by (simp_all add: apply_array_add_def apply_array_remove_def Let_def)

lemma patch_arrays_frame:
  assumes "k \<noteq> ''threshold''" "k \<noteq> ''excluded_edge_ids''" "k \<noteq> ''excluded_mention_ids''"
  shows "patch_arrays p m k = m k"
  using assms by (simp add: patch_arrays_def on_some_frame array_frames)

lemma patch_name_frame: "patch_name p m = Inr m' \<Longrightarrow> k \<noteq> ''name'' \<Longrightarrow> m' k = m k"
  by (cases "pp_name p") (auto simp: patch_name_def simp del: char.inject split: if_splits)

lemma patch_confirmed_frame: "patch_confirmed p m = Inr m' \<Longrightarrow> k \<noteq> ''user_confirmed'' \<Longrightarrow> m' k = m k"
  by (cases "pp_user_confirmed p") (auto simp: patch_confirmed_def simp del: char.inject split: if_splits)

lemma patch_clear_frame: "patch_clear p m = Inr m' \<Longrightarrow> k \<noteq> ''identity_id'' \<Longrightarrow> m' k = m k"
  by (auto simp: patch_clear_def simp del: char.inject split: if_splits)

text \<open>The stages of a successful patch.\<close>

lemma patch_payload_stages:
  assumes "patch_payload p m = Inr m'"
  obtains m1 m4 where
    "patch_name p (patch_arrays p m) = Inr m1"
    "patch_confirmed p (on_some (\<lambda>as m. m(''aliases'' \<mapsto> JArr (map JStr as))) (pp_aliases p)
       (on_some (\<lambda>r m. m(''relationship'' \<mapsto> JStr r)) (pp_relationship p) m1)) = Inr m4"
    "patch_clear p (on_some (\<lambda>i m. m(''identity_id'' \<mapsto> identity_ref i)) (pp_link_identity_id p) m4) = Inr m'"
  using assms unfolding patch_payload_def Let_def res_bind_eq_Inr by blast

text \<open>The fields the array stage writes, and those of the later stages.\<close>

definition array_stage_fields :: "string set" where
  "array_stage_fields = {''threshold'', ''excluded_edge_ids'', ''excluded_mention_ids''}"

definition late_stage_fields :: "string set" where
  "late_stage_fields = {''name'', ''relationship'', ''aliases'', ''user_confirmed'', ''identity_id''}"

lemma patch_payload_late_frame:
  assumes "patch_payload p m = Inr m'" "k \<notin> late_stage_fields"
  shows "m' k = patch_arrays p m k"
proof -
  from assms(2) have ne: "k \<noteq> ''name''" "k \<noteq> ''relationship''" "k \<noteq> ''aliases''" "k \<noteq> ''user_confirmed''"
      "k \<noteq> ''identity_id''"
    by (simp_all add: late_stage_fields_def)
  from assms(1) show ?thesis
  proof (rule patch_payload_stages)
    fix m1 m4
    let ?m3 = "on_some (\<lambda>as m. m(''aliases'' \<mapsto> JArr (map JStr as))) (pp_aliases p)
       (on_some (\<lambda>r m. m(''relationship'' \<mapsto> JStr r)) (pp_relationship p) m1)"
    assume st: "patch_name p (patch_arrays p m) = Inr m1" "patch_confirmed p ?m3 = Inr m4"
      "patch_clear p (on_some (\<lambda>i m. m(''identity_id'' \<mapsto> identity_ref i)) (pp_link_identity_id p) m4) = Inr m'"
    have "m' k = on_some (\<lambda>i m. m(''identity_id'' \<mapsto> identity_ref i)) (pp_link_identity_id p) m4 k"
      by (rule patch_clear_frame [OF st(3) ne(5)])
    also have "\<dots> = m4 k" by (rule on_some_frame) (simp add: ne)
    also have "\<dots> = ?m3 k" by (rule patch_confirmed_frame [OF st(2) ne(4)])
    also have "\<dots> = on_some (\<lambda>r m. m(''relationship'' \<mapsto> JStr r)) (pp_relationship p) m1 k"
      by (rule on_some_frame) (simp add: ne)
    also have "\<dots> = m1 k" by (rule on_some_frame) (simp add: ne)
    also have "\<dots> = patch_arrays p m k" by (rule patch_name_frame [OF st(1) ne(1)])
    finally show ?thesis .
  qed
qed

lemma patch_payload_frame:
  assumes "patch_payload p m = Inr m'" "k \<notin> array_stage_fields \<union> late_stage_fields"
  shows "m' k = m k"
  using patch_payload_late_frame [OF assms(1)] patch_arrays_frame assms(2)
  by (simp add: array_stage_fields_def)

section \<open>Guarded transitions\<close>

lemma patch_confirmed_one_way:
  assumes "patch_confirmed p m = Inr m'" "payload_bool m ''user_confirmed''"
  shows "payload_bool m' ''user_confirmed''"
  using assms by (cases "pp_user_confirmed p") (auto simp: patch_confirmed_def payload_bool_def or_default_def split: if_splits)

lemma payload_bool_cong: "m f = m' f \<Longrightarrow> payload_bool m f = payload_bool m' f"
  by (simp add: payload_bool_def)

text \<open>A confirmed persona stays confirmed.\<close>

lemma patch_keeps_confirmed:
  assumes "patch_payload p m = Inr m'" "payload_bool m ''user_confirmed''"
  shows "payload_bool m' ''user_confirmed''"
  using assms(1)
proof (rule patch_payload_stages)
  fix m1 m4
  let ?m3 = "on_some (\<lambda>as m. m(''aliases'' \<mapsto> JArr (map JStr as))) (pp_aliases p)
     (on_some (\<lambda>r m. m(''relationship'' \<mapsto> JStr r)) (pp_relationship p) m1)"
  assume st: "patch_name p (patch_arrays p m) = Inr m1" "patch_confirmed p ?m3 = Inr m4"
    "patch_clear p (on_some (\<lambda>i m. m(''identity_id'' \<mapsto> identity_ref i)) (pp_link_identity_id p) m4) = Inr m'"
  have "?m3 ''user_confirmed'' = m1 ''user_confirmed''" by (simp add: on_some_frame)
  also have "\<dots> = patch_arrays p m ''user_confirmed''" by (rule patch_name_frame [OF st(1)]) simp
  also have "\<dots> = m ''user_confirmed''" by (rule patch_arrays_frame) simp_all
  finally have "payload_bool ?m3 ''user_confirmed''" using assms(2) by (simp add: payload_bool_def)
  from patch_confirmed_one_way [OF st(2) this] have m4: "payload_bool m4 ''user_confirmed''" .
  have "m' ''user_confirmed'' = on_some (\<lambda>i m. m(''identity_id'' \<mapsto> identity_ref i)) (pp_link_identity_id p) m4 ''user_confirmed''"
    by (rule patch_clear_frame [OF st(3)]) simp
  also have "\<dots> = m4 ''user_confirmed''" by (simp add: on_some_frame)
  finally show ?thesis using m4 by (simp add: payload_bool_def)
qed

text \<open>A built-in persona is neither renamed nor unlinked.\<close>

lemma patch_built_in_guard:
  assumes "patch_payload p m = Inr m'" "payload_bool m ''built_in''"
  shows "pp_name p = None \<and> \<not> pp_clear_identity_id p"
  using assms(1)
proof (rule patch_payload_stages)
  fix m1 m4
  let ?m3 = "on_some (\<lambda>as m. m(''aliases'' \<mapsto> JArr (map JStr as))) (pp_aliases p)
     (on_some (\<lambda>r m. m(''relationship'' \<mapsto> JStr r)) (pp_relationship p) m1)"
  let ?m5 = "on_some (\<lambda>i m. m(''identity_id'' \<mapsto> identity_ref i)) (pp_link_identity_id p) m4"
  assume st: "patch_name p (patch_arrays p m) = Inr m1" "patch_confirmed p ?m3 = Inr m4" "patch_clear p ?m5 = Inr m'"
  have arr: "patch_arrays p m ''built_in'' = m ''built_in''" by (rule patch_arrays_frame) simp_all
  have "?m5 ''built_in'' = m4 ''built_in''" by (simp add: on_some_frame)
  also have "\<dots> = ?m3 ''built_in''" by (rule patch_confirmed_frame [OF st(2)]) simp
  also have "\<dots> = m1 ''built_in''" by (simp add: on_some_frame)
  also have "\<dots> = patch_arrays p m ''built_in''" by (rule patch_name_frame [OF st(1)]) simp
  finally have "payload_bool ?m5 ''built_in''" "payload_bool (patch_arrays p m) ''built_in''"
    using assms(2) arr by (simp_all add: payload_bool_def)
  with st(1,3) show ?thesis
    by (cases "pp_name p") (auto simp: patch_name_def patch_clear_def split: if_splits)
qed

section \<open>Exclusion lists\<close>

definition payload_strings :: "payload \<Rightarrow> string \<Rightarrow> string list" where
  "payload_strings m f = List.map_filter as_str (payload_array m f)"

lemma string_array_field_payload: "string_array_field (JObj kvs) f = payload_strings (map_of kvs) f"
  by (cases "map_of kvs f")
    (auto simp: string_array_field_def payload_strings_def payload_array_def or_default_def List.map_filter_def
      split: option.splits)

lemma set_map_filter_str: "set (List.map_filter as_str xs) = {s. JStr s \<in> set xs}"
proof -
  have "as_str v = Some s \<longleftrightarrow> v = JStr s" for v s by (cases v) auto
  then show ?thesis by (induction xs) (auto simp: map_filter_simps split: option.splits)
qed

lemma strings_after_add: "set (payload_strings (apply_array_add f v m) f) = insert v (set (payload_strings m f))"
proof -
  have "as_str w = Some v \<longleftrightarrow> w = JStr v" for w by (cases w) auto
  then show ?thesis
    by (auto simp: payload_strings_def apply_array_add_def payload_array_def Let_def or_default_def
        set_map_filter_str list_ex_iff)
qed

lemma strings_after_remove: "set (payload_strings (apply_array_remove f v m) f) = set (payload_strings m f) - {v}"
  by (auto simp: payload_strings_def apply_array_remove_def payload_array_def or_default_def set_map_filter_str)

end
