(* ===== verification/Resolver_Correct.thy ===== *)
theory Resolver_Correct
  imports Resolver
begin

text \<open>
  Correctness of the persona resolver. \<open>fp_graph\<close> is what the engine answers when no
  lookup fails (\<open>env_graph\<close>); \<open>reach\<close> is reachability over passable edges. The walk
  returns on every finite graph, visits exactly the reachable fingerprints, uses exactly
  their passable edges, and its diagnostics count exactly what was left out.
\<close>

section \<open>The graph behind the lookups\<close>

text \<open>\<open>g_ids\<close> is what a scan of the fingerprint schema lists; the resolver does not use it.\<close>

record fp_graph =
  g_ids :: "string list"
  g_exists :: "string \<Rightarrow> bool"
  g_edges :: "string \<Rightarrow> string list"
  g_edge :: "string \<Rightarrow> resolved_edge option"
  g_mentions :: "string \<Rightarrow> string list"

definition env_graph :: "fp_env \<Rightarrow> fp_graph \<Rightarrow> bool" where
  "env_graph env G \<longleftrightarrow>
     (\<forall>fp. fingerprint_exists env fp = Inr (g_exists G fp)) \<and>
     (\<forall>fp. edge_ids_touching env fp = Inr (g_edges G fp)) \<and>
     (\<forall>e. fetch_edge env e = Inr (g_edge G e)) \<and>
     (\<forall>fp. mention_ids_touching env fp = Inr (g_mentions G fp))"

text \<open>
  The junction lists an edge only under its own endpoints (the comment on
  \<^verbatim>\<open>other_endpoint\<close> relies on it), and there are finitely many edges.
\<close>

definition junction_ok :: "fp_graph \<Rightarrow> bool" where
  "junction_ok G \<longleftrightarrow> (\<forall>fp e edge. e \<in> set (g_edges G fp) \<longrightarrow> g_edge G e = Some edge \<longrightarrow>
     edge_a edge = fp \<or> edge_b edge = fp)"

definition finite_graph :: "fp_graph \<Rightarrow> bool" where
  "finite_graph G \<longleftrightarrow> finite (\<Union>fp. set (g_edges G fp))"

definition edge_passes :: "persona_spec \<Rightarrow> fp_graph \<Rightarrow> string \<Rightarrow> bool" where
  "edge_passes spec G e \<longleftrightarrow> e \<notin> excluded_edge_ids spec \<and>
     (case g_edge G e of
        None \<Rightarrow> False
      | Some edge \<Rightarrow> edge_kind edge \<noteq> USER_FORBIDDEN \<and> \<not> fl_lt (edge_weight edge) (threshold spec))"

definition linked :: "persona_spec \<Rightarrow> fp_graph \<Rightarrow> string \<Rightarrow> string \<Rightarrow> bool" where
  "linked spec G fp x \<longleftrightarrow> (\<exists>e edge. e \<in> set (g_edges G fp) \<and> edge_passes spec G e \<and>
     g_edge G e = Some edge \<and> other_endpoint edge fp = Some x)"

inductive reach :: "persona_spec \<Rightarrow> fp_graph \<Rightarrow> string \<Rightarrow> bool" for spec G where
  seed: "x \<in> set (seed_fingerprint_ids spec) \<Longrightarrow> g_exists G x \<Longrightarrow> reach spec G x"
| step: "reach spec G fp \<Longrightarrow> linked spec G fp x \<Longrightarrow> g_exists G x \<Longrightarrow> reach spec G x"

text \<open>The fingerprints the walk is led to: seeds, and endpoints of passable edges it uses.\<close>

definition led_to :: "persona_spec \<Rightarrow> fp_graph \<Rightarrow> string set \<Rightarrow> string \<Rightarrow> bool" where
  "led_to spec G V x \<longleftrightarrow> x \<in> set (seed_fingerprint_ids spec) \<or> (\<exists>fp \<in> V. linked spec G fp x)"

text \<open>How a junction row that is not passed is counted.\<close>

definition row_excluded :: "persona_spec \<Rightarrow> string \<Rightarrow> bool" where
  "row_excluded spec e \<longleftrightarrow> e \<in> excluded_edge_ids spec"

definition row_dangling :: "persona_spec \<Rightarrow> fp_graph \<Rightarrow> string \<Rightarrow> bool" where
  "row_dangling spec G e \<longleftrightarrow> e \<notin> excluded_edge_ids spec \<and> g_edge G e = None"

definition row_forbidden :: "persona_spec \<Rightarrow> fp_graph \<Rightarrow> string \<Rightarrow> bool" where
  "row_forbidden spec G e \<longleftrightarrow> e \<notin> excluded_edge_ids spec \<and>
     (\<exists>edge. g_edge G e = Some edge \<and> edge_kind edge = USER_FORBIDDEN)"

definition row_below :: "persona_spec \<Rightarrow> fp_graph \<Rightarrow> string \<Rightarrow> bool" where
  "row_below spec G e \<longleftrightarrow> e \<notin> excluded_edge_ids spec \<and>
     (\<exists>edge. g_edge G e = Some edge \<and> edge_kind edge \<noteq> USER_FORBIDDEN \<and> fl_lt (edge_weight edge) (threshold spec))"

lemmas row_defs = row_excluded_def row_dangling_def row_forbidden_def row_below_def edge_passes_def

definition rows_where :: "(string \<Rightarrow> bool) \<Rightarrow> fp_graph \<Rightarrow> string \<Rightarrow> nat" where
  "rows_where P G fp = length (filter P (g_edges G fp))"

section \<open>One fingerprint: the effect of its junction rows\<close>

definition edge_effect :: "persona_spec \<Rightarrow> fp_graph \<Rightarrow> string \<Rightarrow> string \<Rightarrow> walk_state \<Rightarrow> walk_state" where
  "edge_effect spec G fp e s =
     (if e \<in> w_edges s then s
      else if row_excluded spec e then
        s\<lparr>w_diag := (w_diag s)\<lparr>excluded_edge_count := Suc (excluded_edge_count (w_diag s))\<rparr>\<rparr>
      else (case g_edge G e of
          None \<Rightarrow> s\<lparr>w_diag := (w_diag s)\<lparr>dangling_edge_ids := push_new e (dangling_edge_ids (w_diag s))\<rparr>\<rparr>
        | Some edge \<Rightarrow>
            if edge_kind edge = USER_FORBIDDEN then
              s\<lparr>w_diag := (w_diag s)\<lparr>forbidden_edge_count := Suc (forbidden_edge_count (w_diag s))\<rparr>\<rparr>
            else if fl_lt (edge_weight edge) (threshold spec) then
              s\<lparr>w_diag := (w_diag s)\<lparr>below_threshold_count := Suc (below_threshold_count (w_diag s))\<rparr>\<rparr>
            else s\<lparr>w_edges := insert e (w_edges s),
                   w_queue := (case other_endpoint edge fp of
                       Some x \<Rightarrow> (if x \<notin> w_visited s then x # w_queue s else w_queue s)
                     | None \<Rightarrow> w_queue s)\<rparr>))"

lemma walk_edges_effect:
  assumes "env_graph env G"
  shows "walk_edges env spec fp es s = Inr (fold (edge_effect spec G fp) es s)"
proof (induction es arbitrary: s)
  case (Cons e es)
  have "walk_edge env spec fp e s = Inr (edge_effect spec G fp e s)"
    using assms
    by (auto simp: walk_edge_def edge_effect_def env_graph_def row_excluded_def split: option.splits)
  with Cons.IH show ?case by simp
qed simp

text \<open>Edges already used are passable edges, so a row that is skipped is not counted.\<close>

definition edges_pass :: "persona_spec \<Rightarrow> fp_graph \<Rightarrow> walk_state \<Rightarrow> bool" where
  "edges_pass spec G s \<longleftrightarrow> (\<forall>e \<in> w_edges s. edge_passes spec G e)"

lemma effect_edges:
  "edges_pass spec G s \<Longrightarrow> w_edges (edge_effect spec G fp e s) =
     w_edges s \<union> (if edge_passes spec G e then {e} else {})"
  by (auto simp: edges_pass_def edge_effect_def row_defs split: option.splits if_splits)

lemma effect_edges_pass: "edges_pass spec G s \<Longrightarrow> edges_pass spec G (edge_effect spec G fp e s)"
  using effect_edges [of spec G s fp e] by (auto simp: edges_pass_def split: if_splits)

lemma effect_visited [simp]: "w_visited (edge_effect spec G fp e s) = w_visited s"
  by (auto simp: edge_effect_def split: option.splits)

lemma effect_counts:
  assumes "edges_pass spec G s"
  shows "excluded_edge_count (w_diag (edge_effect spec G fp e s)) =
           excluded_edge_count (w_diag s) + (if row_excluded spec e then 1 else 0)"
    and "forbidden_edge_count (w_diag (edge_effect spec G fp e s)) =
           forbidden_edge_count (w_diag s) + (if row_forbidden spec G e then 1 else 0)"
    and "below_threshold_count (w_diag (edge_effect spec G fp e s)) =
           below_threshold_count (w_diag s) + (if row_below spec G e then 1 else 0)"
    and "set (dangling_edge_ids (w_diag (edge_effect spec G fp e s))) =
           set (dangling_edge_ids (w_diag s)) \<union> (if row_dangling spec G e then {e} else {})"
    and "missing_seeds (w_diag (edge_effect spec G fp e s)) = missing_seeds (w_diag s)"
    and "excluded_mention_count (w_diag (edge_effect spec G fp e s)) = excluded_mention_count (w_diag s)"
  using assms
  by (auto simp: edges_pass_def edge_effect_def row_defs push_new_def split: option.splits if_splits)

lemma fold_edges_pass: "edges_pass spec G s \<Longrightarrow> edges_pass spec G (fold (edge_effect spec G fp) es s)"
  by (induction es arbitrary: s) (auto intro: effect_edges_pass)

lemma fold_edges:
  "edges_pass spec G s \<Longrightarrow> w_edges (fold (edge_effect spec G fp) es s) =
     w_edges s \<union> {e \<in> set es. edge_passes spec G e}"
proof (induction es arbitrary: s)
  case (Cons e es)
  then show ?case
    using effect_edges [OF Cons.prems, of fp e] by (auto simp: effect_edges_pass)
qed simp

lemma fold_visited [simp]: "w_visited (fold (edge_effect spec G fp) es s) = w_visited s"
  by (induction es arbitrary: s) auto

lemma fold_counts_all:
  "edges_pass spec G s \<Longrightarrow>
     excluded_edge_count (w_diag (fold (edge_effect spec G fp) es s)) =
       excluded_edge_count (w_diag s) + length (filter (row_excluded spec) es) \<and>
     forbidden_edge_count (w_diag (fold (edge_effect spec G fp) es s)) =
       forbidden_edge_count (w_diag s) + length (filter (row_forbidden spec G) es) \<and>
     below_threshold_count (w_diag (fold (edge_effect spec G fp) es s)) =
       below_threshold_count (w_diag s) + length (filter (row_below spec G) es) \<and>
     set (dangling_edge_ids (w_diag (fold (edge_effect spec G fp) es s))) =
       set (dangling_edge_ids (w_diag s)) \<union> {e \<in> set es. row_dangling spec G e} \<and>
     missing_seeds (w_diag (fold (edge_effect spec G fp) es s)) = missing_seeds (w_diag s) \<and>
     excluded_mention_count (w_diag (fold (edge_effect spec G fp) es s)) = excluded_mention_count (w_diag s)"
proof (induction es arbitrary: s)
  case (Cons e es)
  from Cons.IH [OF effect_edges_pass [OF Cons.prems]] show ?case
    by (auto simp: effect_counts [OF Cons.prems])
qed simp

lemmas fold_counts =
  fold_counts_all [THEN conjunct1]
  fold_counts_all [THEN conjunct2, THEN conjunct1]
  fold_counts_all [THEN conjunct2, THEN conjunct2, THEN conjunct1]
  fold_counts_all [THEN conjunct2, THEN conjunct2, THEN conjunct2, THEN conjunct1]
  fold_counts_all [THEN conjunct2, THEN conjunct2, THEN conjunct2, THEN conjunct2, THEN conjunct1]
  fold_counts_all [THEN conjunct2, THEN conjunct2, THEN conjunct2, THEN conjunct2, THEN conjunct2]

text \<open>What one row pushes.\<close>

definition row_push :: "persona_spec \<Rightarrow> fp_graph \<Rightarrow> string \<Rightarrow> string \<Rightarrow> walk_state \<Rightarrow> string list" where
  "row_push spec G fp e s =
     (if e \<notin> w_edges s \<and> edge_passes spec G e
      then (case other_endpoint (the (g_edge G e)) fp of
              Some x \<Rightarrow> (if x \<notin> w_visited s then [x] else [])
            | None \<Rightarrow> [])
      else [])"

lemma effect_queue: "w_queue (edge_effect spec G fp e s) = row_push spec G fp e s @ w_queue s"
  by (auto simp: edge_effect_def row_push_def row_defs split: option.splits)

lemma row_push_mem:
  "x \<in> set (row_push spec G fp e s) \<longleftrightarrow> e \<notin> w_edges s \<and> edge_passes spec G e \<and>
     other_endpoint (the (g_edge G e)) fp = Some x \<and> x \<notin> w_visited s"
  unfolding row_push_def by (cases "other_endpoint (the (g_edge G e)) fp") (simp_all only: option.case if_split set_simps refl simp_thms empty_iff insert_iff, auto)

lemma row_push_linked:
  assumes "x \<in> set (row_push spec G fp e s)" "e \<in> set (g_edges G fp)"
  shows "linked spec G fp x"
proof -
  from assms(1) have passes: "edge_passes spec G e"
    by (simp add: row_push_mem)
  then obtain edge where edge: "g_edge G e = Some edge"
    by (auto simp: edge_passes_def split: option.splits)
  with assms(1) passes have "other_endpoint edge fp = Some x"
    by (simp add: row_push_mem)
  with assms(2) passes edge show ?thesis unfolding linked_def by blast
qed

lemma fold_queue_sound:
  assumes "set es \<subseteq> set (g_edges G fp)"
  shows "\<exists>ps. w_queue (fold (edge_effect spec G fp) es s) = ps @ w_queue s \<and>
     (\<forall>x \<in> set ps. linked spec G fp x)"
  using assms
proof (induction es arbitrary: s)
  case (Cons e es)
  obtain ps where ps: "w_queue (fold (edge_effect spec G fp) es (edge_effect spec G fp e s)) =
      ps @ w_queue (edge_effect spec G fp e s)" "\<forall>x \<in> set ps. linked spec G fp x"
    using Cons.IH [of "edge_effect spec G fp e s"] Cons.prems by auto
  have "\<forall>x \<in> set (ps @ row_push spec G fp e s). linked spec G fp x"
    using ps(2) row_push_linked Cons.prems by fastforce
  with ps(1) show ?case by (auto simp: effect_queue simp flip: append_assoc)
qed simp

lemma fold_queue_keep: "set (w_queue s) \<subseteq> set (w_queue (fold (edge_effect spec G fp) es s))"
proof (induction es arbitrary: s)
  case (Cons e es)
  from Cons.IH [of "edge_effect spec G fp e s"] show ?case by (simp add: effect_queue)
qed simp

text \<open>Every row not yet used has its other endpoint visited or pushed.\<close>

lemma fold_queue_complete:
  assumes "e \<in> set es" "e \<notin> w_edges s" "edge_passes spec G e" "edges_pass spec G s"
    and "g_edge G e = Some edge" "other_endpoint edge fp = Some x"
  shows "x \<in> w_visited s \<or> x \<in> set (w_queue (fold (edge_effect spec G fp) es s))"
  using assms(1,2,4)
proof (induction es arbitrary: s)
  case (Cons e' es)
  let ?s = "edge_effect spec G fp e' s"
  have keep: "set (w_queue ?s) \<subseteq> set (w_queue (fold (edge_effect spec G fp) es ?s))"
    by (rule fold_queue_keep)
  show ?case
  proof (cases "e' = e")
    case True
    then have "x \<in> w_visited s \<or> x \<in> set (w_queue ?s)"
      using assms(3,5,6) Cons.prems(2) by (auto simp: effect_queue row_push_mem)
    with keep show ?thesis by auto
  next
    case False
    with Cons.prems have "e \<in> set es" "e \<notin> w_edges ?s" "edges_pass spec G ?s"
      by (auto simp: effect_edges effect_edges_pass)
    with Cons.IH [of ?s] show ?thesis by simp
  qed
qed simp

text \<open>Each push spends an edge: the measure of the walk.\<close>

lemma row_push_length: "length (row_push spec G fp e s) \<le> (if e \<notin> w_edges s \<and> edge_passes spec G e then 1 else 0)"
  by (auto simp: row_push_def split: option.splits)

lemma fold_queue_measure:
  assumes "finite E" "set es \<subseteq> E" "edges_pass spec G s"
  shows "length (w_queue (fold (edge_effect spec G fp) es s)) + card (E - w_edges (fold (edge_effect spec G fp) es s))
         \<le> length (w_queue s) + card (E - w_edges s)"
  using assms(2,3)
proof (induction es arbitrary: s)
  case (Cons e es)
  let ?s = "edge_effect spec G fp e s"
  have "length (w_queue (fold (edge_effect spec G fp) es ?s)) + card (E - w_edges (fold (edge_effect spec G fp) es ?s))
      \<le> length (w_queue ?s) + card (E - w_edges ?s)"
    using Cons.prems by (intro Cons.IH) (auto intro: effect_edges_pass)
  also have "\<dots> \<le> length (w_queue s) + card (E - w_edges s)"
  proof (cases "e \<notin> w_edges s \<and> edge_passes spec G e")
    case True
    then have "w_edges ?s = insert e (w_edges s)" using effect_edges [OF Cons.prems(2)] by simp
    moreover have "card (E - insert e (w_edges s)) < card (E - w_edges s)"
      using True Cons.prems(1) assms(1) by (intro psubset_card_mono) auto
    ultimately show ?thesis
      using row_push_length [of spec G fp e s] True by (simp add: effect_queue)
  next
    case False
    then have "w_edges ?s = w_edges s" using effect_edges [OF Cons.prems(2)] by auto
    with False show ?thesis
      using row_push_length [of spec G fp e s] by (simp add: effect_queue split: if_splits)
  qed
  finally show ?case by simp
qed simp

section \<open>The invariant of the walk\<close>

definition rows_of :: "fp_graph \<Rightarrow> string set \<Rightarrow> (string \<Rightarrow> bool) \<Rightarrow> string set" where
  "rows_of G V P = {e. \<exists>fp \<in> V. e \<in> set (g_edges G fp) \<and> P e}"

definition covered :: "walk_state \<Rightarrow> string \<Rightarrow> bool" where
  "covered s x \<longleftrightarrow> x \<in> w_visited s \<or> x \<in> set (w_queue s) \<or> x \<in> set (missing_seeds (w_diag s))"

definition counts_ok :: "persona_spec \<Rightarrow> fp_graph \<Rightarrow> string set \<Rightarrow> diagnostics \<Rightarrow> bool" where
  "counts_ok spec G V d \<longleftrightarrow>
     excluded_edge_count d = (\<Sum>fp\<in>V. rows_where (row_excluded spec) G fp) \<and>
     forbidden_edge_count d = (\<Sum>fp\<in>V. rows_where (row_forbidden spec G) G fp) \<and>
     below_threshold_count d = (\<Sum>fp\<in>V. rows_where (row_below spec G) G fp) \<and>
     set (dangling_edge_ids d) = rows_of G V (row_dangling spec G) \<and>
     excluded_mention_count d = 0"

definition walk_inv :: "persona_spec \<Rightarrow> fp_graph \<Rightarrow> walk_state \<Rightarrow> bool" where
  "walk_inv spec G s \<longleftrightarrow>
     finite (w_visited s) \<and> w_visited s \<subseteq> Collect (reach spec G) \<and>
     (\<forall>x \<in> set (w_queue s). led_to spec G (w_visited s) x) \<and>
     (\<forall>x. led_to spec G (w_visited s) x \<longrightarrow> covered s x) \<and>
     w_edges s = rows_of G (w_visited s) (edge_passes spec G) \<and>
     counts_ok spec G (w_visited s) (w_diag s) \<and>
     (\<forall>x \<in> set (missing_seeds (w_diag s)). \<not> g_exists G x \<and> led_to spec G (w_visited s) x)"

lemma led_to_mono: "led_to spec G V x \<Longrightarrow> V \<subseteq> W \<Longrightarrow> led_to spec G W x"
  by (auto simp: led_to_def)

lemma led_to_reach:
  "led_to spec G V x \<Longrightarrow> V \<subseteq> Collect (reach spec G) \<Longrightarrow> g_exists G x \<Longrightarrow> reach spec G x"
  by (auto simp: led_to_def intro: reach.intros)

lemma set_push_new [simp]: "set (push_new x xs) = insert x (set xs)"
  by (auto simp: push_new_def)

lemma rows_of_insert: "rows_of G (insert fp V) P = rows_of G V P \<union> {e \<in> set (g_edges G fp). P e}"
  by (auto simp: rows_of_def)

lemma walk_inv_edges_pass: "walk_inv spec G s \<Longrightarrow> edges_pass spec G s"
  by (auto simp: walk_inv_def edges_pass_def rows_of_def)

text \<open>An edge used from another fingerprint leads back to that fingerprint.\<close>

lemma used_edge_visited:
  assumes "junction_ok G" "e \<in> rows_of G V (edge_passes spec G)" "e \<in> set (g_edges G fp)"
    and "fp \<notin> V" "g_edge G e = Some edge" "other_endpoint edge fp = Some x"
  shows "x \<in> V"
proof -
  from assms(2) obtain fp' where fp': "fp' \<in> V" "e \<in> set (g_edges G fp')"
    by (auto simp: rows_of_def)
  with assms(1,3,5) have "edge_a edge = fp' \<or> edge_b edge = fp'" "edge_a edge = fp \<or> edge_b edge = fp"
    unfolding junction_ok_def by blast+
  with fp'(1) assms(4,6) show ?thesis by (auto simp: other_endpoint_def split: if_splits)
qed

section \<open>The walk keeps the invariant\<close>

lemma walk_inv_init: "walk_inv spec G (walk_init spec)"
  by (auto simp: walk_inv_def walk_init_def led_to_def covered_def rows_of_def counts_ok_def no_diagnostics_def)

definition popped :: "walk_state \<Rightarrow> walk_state" where
  "popped s = s\<lparr>w_queue := tl (w_queue s)\<rparr>"

definition visiting :: "fp_graph \<Rightarrow> persona_spec \<Rightarrow> string \<Rightarrow> walk_state \<Rightarrow> walk_state" where
  "visiting G spec fp s =
     fold (edge_effect spec G fp) (g_edges G fp) (s\<lparr>w_visited := insert fp (w_visited s)\<rparr>)"

lemma walk_step_effect:
  assumes "env_graph env G" "w_queue s = fp # rest"
  shows "walk_step env spec s = Inr (
     if fp \<in> w_visited s then popped s
     else if \<not> g_exists G fp then
       (popped s)\<lparr>w_diag := (w_diag s)\<lparr>missing_seeds := push_new fp (missing_seeds (w_diag s))\<rparr>\<rparr>
     else visiting G spec fp (popped s))"
  using assms walk_edges_effect [OF assms(1)]
  by (simp add: walk_step.simps popped_def visiting_def env_graph_def)

lemma popped_simps [simp]:
  "w_queue (popped s) = tl (w_queue s)" "w_visited (popped s) = w_visited s"
  "w_edges (popped s) = w_edges s" "w_diag (popped s) = w_diag s"
  by (simp_all add: popped_def)

lemma visiting_visited [simp]: "w_visited (visiting G spec fp s) = insert fp (w_visited s)"
  by (simp add: visiting_def)

lemma visiting_edges:
  assumes "edges_pass spec G s"
  shows "w_edges (visiting G spec fp s) = w_edges s \<union> {e \<in> set (g_edges G fp). edge_passes spec G e}"
  using assms by (simp add: visiting_def fold_edges edges_pass_def)

lemma visiting_missing:
  assumes "edges_pass spec G s"
  shows "missing_seeds (w_diag (visiting G spec fp s)) = missing_seeds (w_diag s)"
  using assms by (simp add: visiting_def fold_counts edges_pass_def)

lemma visiting_counts:
  assumes "edges_pass spec G s" "counts_ok spec G (w_visited s) (w_diag s)"
    and "finite (w_visited s)" "fp \<notin> w_visited s"
  shows "counts_ok spec G (insert fp (w_visited s)) (w_diag (visiting G spec fp s))"
proof -
  have "edges_pass spec G (s\<lparr>w_visited := insert fp (w_visited s)\<rparr>)"
    using assms(1) by (simp add: edges_pass_def)
  then show ?thesis
    using assms(2-4)
    by (simp add: visiting_def fold_counts counts_ok_def rows_of_insert rows_where_def)
qed

lemma visiting_queue:
  shows "set (w_queue s) \<subseteq> set (w_queue (visiting G spec fp s))"
    and "x \<in> set (w_queue (visiting G spec fp s)) \<Longrightarrow> x \<in> set (w_queue s) \<or> linked spec G fp x"
proof -
  show "set (w_queue s) \<subseteq> set (w_queue (visiting G spec fp s))"
    using fold_queue_keep [of "s\<lparr>w_visited := insert fp (w_visited s)\<rparr>"] by (simp add: visiting_def)
  assume "x \<in> set (w_queue (visiting G spec fp s))"
  then show "x \<in> set (w_queue s) \<or> linked spec G fp x"
    using fold_queue_sound [of "g_edges G fp" G fp spec "s\<lparr>w_visited := insert fp (w_visited s)\<rparr>"]
    by (auto simp: visiting_def)
qed

lemma visiting_complete:
  assumes "junction_ok G" "w_edges s = rows_of G (w_visited s) (edge_passes spec G)"
    and "fp \<notin> w_visited s" "linked spec G fp x"
  shows "x \<in> insert fp (w_visited s) \<or> x \<in> set (w_queue (visiting G spec fp s))"
proof -
  from assms(4) obtain e edge where e: "e \<in> set (g_edges G fp)" "edge_passes spec G e"
      "g_edge G e = Some edge" "other_endpoint edge fp = Some x"
    by (auto simp: linked_def)
  show ?thesis
  proof (cases "e \<in> w_edges s")
    case True
    with used_edge_visited [OF assms(1) _ e(1) assms(3) e(3,4)] assms(2) show ?thesis by auto
  next
    case False
    have "edges_pass spec G s" using assms(2) by (auto simp: edges_pass_def rows_of_def)
    with fold_queue_complete [of e "g_edges G fp" "s\<lparr>w_visited := insert fp (w_visited s)\<rparr>" spec G edge fp x]
      False e show ?thesis by (simp add: visiting_def edges_pass_def)
  qed
qed

lemma walk_inv_visit:
  assumes inv: "walk_inv spec G s" and q: "w_queue s = fp # rest"
    and new: "fp \<notin> w_visited s" "g_exists G fp" and jn: "junction_ok G"
  shows "walk_inv spec G (visiting G spec fp (popped s))"
proof -
  let ?t = "visiting G spec fp (popped s)" and ?V = "insert fp (w_visited s)"
  note i = inv [unfolded walk_inv_def]
  have pass: "edges_pass spec G (popped s)"
    using walk_inv_edges_pass [OF inv] by (simp add: edges_pass_def)
  have edges: "w_edges (popped s) = rows_of G (w_visited (popped s)) (edge_passes spec G)"
    using i by simp
  have "reach spec G fp" using i q new(2) by (auto intro: led_to_reach)
  with i have 1: "finite ?V \<and> ?V \<subseteq> Collect (reach spec G)" by auto
  have 2: "led_to spec G ?V x" if "x \<in> set (w_queue ?t)" for x
    using visiting_queue(2) [OF that] i q by (auto simp: led_to_def)
  have 3: "covered ?t x" if "led_to spec G ?V x" for x
  proof (cases "led_to spec G (w_visited s) x")
    case True
    with i have "covered s x" by blast
    then show ?thesis
      using q visiting_queue(1) [of "popped s" G spec fp] by (auto simp: covered_def visiting_missing [OF pass])
  next
    case False
    with that have "linked spec G fp x" by (auto simp: led_to_def)
    with visiting_complete [OF jn edges] new(1) show ?thesis by (auto simp: covered_def)
  qed
  have 4: "w_edges ?t = rows_of G ?V (edge_passes spec G)"
    using edges by (simp add: visiting_edges [OF pass] rows_of_insert)
  have 5: "counts_ok spec G ?V (w_diag ?t)"
    using visiting_counts [OF pass] i new(1) by simp
  have 6: "\<not> g_exists G x \<and> led_to spec G ?V x" if "x \<in> set (missing_seeds (w_diag ?t))" for x
    using that i by (auto simp: visiting_missing [OF pass] intro: led_to_mono)
  from 1 2 3 4 5 6 show ?thesis by (simp add: walk_inv_def)
qed

lemma counts_ok_missing [simp]: "counts_ok spec G V (d\<lparr>missing_seeds := ms\<rparr>) = counts_ok spec G V d"
  by (simp add: counts_ok_def)

lemma walk_inv_skip:
  assumes "walk_inv spec G s" "w_queue s = fp # rest" "fp \<in> w_visited s"
  shows "walk_inv spec G (popped s)"
  using assms by (auto simp: walk_inv_def covered_def)

lemma walk_inv_miss:
  assumes "walk_inv spec G s" "w_queue s = fp # rest" "\<not> g_exists G fp"
  shows "walk_inv spec G ((popped s)\<lparr>w_diag := (w_diag s)\<lparr>missing_seeds := push_new fp (missing_seeds (w_diag s))\<rparr>\<rparr>)"
  using assms by (auto simp: walk_inv_def covered_def)

section \<open>The walk returns\<close>

definition walk_measure :: "fp_graph \<Rightarrow> walk_state \<Rightarrow> nat" where
  "walk_measure G s = length (w_queue s) + card ((\<Union>fp. set (g_edges G fp)) - w_edges s)"

lemma visiting_measure:
  assumes "finite_graph G" "edges_pass spec G s"
  shows "walk_measure G (visiting G spec fp s) \<le> walk_measure G s"
  using fold_queue_measure [of "\<Union>fp. set (g_edges G fp)" "g_edges G fp" spec G
      "s\<lparr>w_visited := insert fp (w_visited s)\<rparr>" fp] assms
  by (auto simp: walk_measure_def visiting_def finite_graph_def edges_pass_def)

lemma popped_measure: "w_queue s = fp # rest \<Longrightarrow> walk_measure G (popped s) < walk_measure G s"
  by (simp add: walk_measure_def)

lemma walk_step_keeps:
  assumes env: "env_graph env G" "junction_ok G" "finite_graph G"
    and inv: "walk_inv spec G s" and q: "w_queue s \<noteq> []" and step: "walk_step env spec s = Inr s'"
  shows "walk_inv spec G s' \<and> walk_measure G s' < walk_measure G s"
proof -
  from q obtain fp rest where q: "w_queue s = fp # rest" by (cases "w_queue s") auto
  note dec = popped_measure [OF q, of G]
  have pass: "edges_pass spec G (popped s)"
    using walk_inv_edges_pass [OF inv] by (simp add: edges_pass_def)
  note s' = step [unfolded walk_step_effect [OF env(1) q] sum.inject]
  show ?thesis
  proof (cases "fp \<in> w_visited s")
    case True
    with s' walk_inv_skip [OF inv q] dec show ?thesis by auto
  next
    case new: False
    show ?thesis
    proof (cases "g_exists G fp")
      case True
      with s' new walk_inv_visit [OF inv q new True env(2)] visiting_measure [OF env(3) pass, of fp] dec
      show ?thesis by auto
    next
      case False
      with s' new walk_inv_miss [OF inv q False] dec show ?thesis by (auto simp: walk_measure_def)
    qed
  qed
qed

lemma walk_step_ok:
  assumes "env_graph env G" "w_queue s \<noteq> []"
  shows "walk_step env spec s \<noteq> Inl e"
proof -
  from assms(2) obtain fp rest where "w_queue s = fp # rest" by (cases "w_queue s") auto
  from walk_step_effect [OF assms(1) this] show ?thesis by simp
qed

lemma walk_returns:
  assumes env: "env_graph env G" "junction_ok G" "finite_graph G"
  shows "\<exists>s. walk env spec = Some (Inr s) \<and> walk_inv spec G s \<and> w_queue s = []"
proof -
  have "(\<exists>t. loop_until (\<lambda>s. w_queue s = []) (walk_step env spec) (walk_init spec) = Some (Inr t) \<and>
            walk_inv spec G t \<and> w_queue t = []) \<or>
        (\<exists>e t. loop_until (\<lambda>s. w_queue s = []) (walk_step env spec) (walk_init spec) = Some (Inl e) \<and>
            walk_inv spec G t \<and> w_queue t \<noteq> [] \<and> walk_step env spec t = Inl e)"
    by (rule loop_until_total [where m = "walk_measure G"]) (auto intro: walk_inv_init dest: walk_step_keeps [OF env])
  with walk_step_ok [OF env(1)] show ?thesis by (auto simp: walk_def)
qed

section \<open>What the walk has found\<close>

definition missing_ends :: "persona_spec \<Rightarrow> fp_graph \<Rightarrow> string set" where
  "missing_ends spec G = {x. \<not> g_exists G x \<and> led_to spec G (Collect (reach spec G)) x}"

lemma walk_done_visited:
  assumes "walk_inv spec G s" "w_queue s = []"
  shows "w_visited s = Collect (reach spec G)"
proof -
  have in_visited: "x \<in> w_visited s" if "led_to spec G (w_visited s) x" "g_exists G x" for x
    using that assms by (auto simp: walk_inv_def covered_def)
  have "x \<in> w_visited s" if "reach spec G x" for x
    using that by induction (auto intro!: in_visited simp: led_to_def)
  with assms(1) show ?thesis by (auto simp: walk_inv_def)
qed

lemma walk_done_missing:
  assumes "walk_inv spec G s" "w_queue s = []"
  shows "set (missing_seeds (w_diag s)) = missing_ends spec G"
proof -
  have "x \<in> set (missing_seeds (w_diag s))" if "\<not> g_exists G x" "led_to spec G (w_visited s) x" for x
  proof -
    have "x \<notin> w_visited s" using that(1) assms(1) by (auto simp: walk_inv_def elim: reach.cases)
    with that assms show ?thesis by (auto simp: walk_inv_def covered_def)
  qed
  with assms(1) show ?thesis
    unfolding missing_ends_def walk_done_visited [OF assms, symmetric] by (auto simp: walk_inv_def)
qed

lemma walk_done_edges:
  assumes "walk_inv spec G s" "w_queue s = []"
  shows "w_edges s = rows_of G (Collect (reach spec G)) (edge_passes spec G)"
  using assms walk_done_visited [OF assms] by (simp add: walk_inv_def)

lemma walk_done_counts:
  assumes "walk_inv spec G s" "w_queue s = []"
  shows "counts_ok spec G (Collect (reach spec G)) (w_diag s)"
  using assms walk_done_visited [OF assms] by (simp add: walk_inv_def)

section \<open>Mentions and the result\<close>

definition mentions_of :: "fp_graph \<Rightarrow> string set \<Rightarrow> string set" where
  "mentions_of G V = (\<Union>fp\<in>V. set (g_mentions G fp))"

definition mentions_skipped :: "persona_spec \<Rightarrow> fp_graph \<Rightarrow> string \<Rightarrow> nat" where
  "mentions_skipped spec G fp = length (filter (\<lambda>m. m \<in> excluded_mention_ids spec) (g_mentions G fp))"

lemma add_mentions_eq:
  "add_mentions excl ms (found, n) =
     (found \<union> (set ms - excl), n + length (filter (\<lambda>m. m \<in> excl) ms))"
  by (induction ms arbitrary: found n) auto

lemma collect_mentions_eq:
  assumes "env_graph env G"
  shows "collect_mentions env spec fps (found, n) =
     Inr (found \<union> (mentions_of G (set fps) - excluded_mention_ids spec),
          n + sum_list (map (mentions_skipped spec G) fps))"
  using assms
  by (induction fps arbitrary: found n)
    (auto simp: env_graph_def add_mentions_eq mentions_of_def mentions_skipped_def)

text \<open>The outcome of \<open>resolve\<close>, stated without the walk.\<close>

definition resolved_body :: "persona_spec \<Rightarrow> fp_graph \<Rightarrow> resolve_body" where
  "resolved_body spec G =
     \<lparr>r_persona_id = persona_id spec,
      r_fingerprint_ids = Collect (reach spec G),
      r_edge_ids = rows_of G (Collect (reach spec G)) (edge_passes spec G),
      r_mention_ids = (mentions_of G (Collect (reach spec G)) - excluded_mention_ids spec) \<union> included_mention_ids spec,
      r_identity_id = identity_id spec\<rparr>"

definition diagnoses :: "persona_spec \<Rightarrow> fp_graph \<Rightarrow> diagnostics \<Rightarrow> bool" where
  "diagnoses spec G d \<longleftrightarrow>
     set (missing_seeds d) = missing_ends spec G \<and>
     excluded_edge_count d = (\<Sum>fp\<in>Collect (reach spec G). rows_where (row_excluded spec) G fp) \<and>
     forbidden_edge_count d = (\<Sum>fp\<in>Collect (reach spec G). rows_where (row_forbidden spec G) G fp) \<and>
     below_threshold_count d = (\<Sum>fp\<in>Collect (reach spec G). rows_where (row_below spec G) G fp) \<and>
     excluded_mention_count d = (\<Sum>fp\<in>Collect (reach spec G). mentions_skipped spec G fp) \<and>
     set (dangling_edge_ids d) = rows_of G (Collect (reach spec G)) (row_dangling spec G)"

lemma resolve_spec:
  assumes env: "env_graph env G" "junction_ok G" "finite_graph G" and it: "iteration_order it"
  shows "\<exists>d. diagnoses spec G d \<and> finite (Collect (reach spec G)) \<and>
     resolve it env spec = Some (Inr (if diag_is_clean d then Resolved (resolved_body spec G)
                                      else ResolvedWithDiagnostics (resolved_body spec G) d))"
proof -
  obtain s where s: "walk env spec = Some (Inr s)" "walk_inv spec G s" "w_queue s = []"
    using walk_returns [OF env] by blast
  let ?R = "Collect (reach spec G)"
  let ?d = "(w_diag s)\<lparr>excluded_mention_count := \<Sum>fp\<in>?R. mentions_skipped spec G fp\<rparr>"
  have fin: "finite ?R" using s(2) walk_done_visited [OF s(2,3)] by (auto simp: walk_inv_def)
  note order = iteration_orderD [OF it fin]
  have sum: "sum_list (map (mentions_skipped spec G) (it ?R)) = (\<Sum>fp\<in>?R. mentions_skipped spec G fp)"
    using order by (simp add: sum_list_distinct_conv_sum_set)
  have zero: "excluded_mention_count (w_diag s) = 0"
    using walk_done_counts [OF s(2,3)] by (simp add: counts_ok_def)
  have "resolve it env spec = Some (Inr (if diag_is_clean ?d then Resolved (resolved_body spec G)
      else ResolvedWithDiagnostics (resolved_body spec G) ?d))"
    by (simp add: resolve_def s(1) finish_resolve_def collect_mentions_eq [OF env(1)] sum zero order
        walk_done_visited [OF s(2,3)] walk_done_edges [OF s(2,3)] resolved_body_def Let_def)
  moreover have "diagnoses spec G ?d"
    using walk_done_counts [OF s(2,3)] walk_done_missing [OF s(2,3)]
    by (simp add: diagnoses_def counts_ok_def)
  ultimately show ?thesis using fin by blast
qed

text \<open>Nothing on the way was left out.\<close>

definition nothing_filtered :: "persona_spec \<Rightarrow> fp_graph \<Rightarrow> bool" where
  "nothing_filtered spec G \<longleftrightarrow>
     missing_ends spec G = {} \<and>
     (\<forall>fp. reach spec G fp \<longrightarrow>
        (\<forall>e \<in> set (g_edges G fp). edge_passes spec G e) \<and>
        (\<forall>m \<in> set (g_mentions G fp). m \<notin> excluded_mention_ids spec))"

lemma row_fates:
  "edge_passes spec G e \<longleftrightarrow>
     \<not> row_excluded spec e \<and> \<not> row_dangling spec G e \<and> \<not> row_forbidden spec G e \<and> \<not> row_below spec G e"
  by (cases "g_edge G e") (auto simp: row_defs)

lemma rows_where_zero: "rows_where P G fp = 0 \<longleftrightarrow> (\<forall>e \<in> set (g_edges G fp). \<not> P e)"
  by (simp add: rows_where_def filter_empty_conv)

lemma diagnoses_clean:
  assumes "diagnoses spec G d" "finite (Collect (reach spec G))"
  shows "diag_is_clean d \<longleftrightarrow> nothing_filtered spec G"
proof -
  have lists: "missing_seeds d = [] \<longleftrightarrow> missing_ends spec G = {}"
      "dangling_edge_ids d = [] \<longleftrightarrow> rows_of G (Collect (reach spec G)) (row_dangling spec G) = {}"
    using assms(1) by (auto simp: diagnoses_def simp flip: set_empty)
  show ?thesis
    using assms lists
    by (auto simp: diag_is_clean_def diagnoses_def nothing_filtered_def row_fates rows_where_zero
        rows_of_def mentions_skipped_def filter_empty_conv)
qed

section \<open>Moving the threshold\<close>

lemma edge_passes_lower:
  assumes "fl_le t' (threshold spec)" "edge_passes spec G e"
  shows "edge_passes (spec\<lparr>threshold := t'\<rparr>) G e"
  using assms fl_lt_le_trans by (fastforce simp: edge_passes_def split: option.splits)

lemma reach_lower:
  assumes "fl_le t' (threshold spec)" "reach spec G x"
  shows "reach (spec\<lparr>threshold := t'\<rparr>) G x"
  using assms(2)
proof induction
  case (seed x)
  then show ?case by (auto intro: reach.seed)
next
  case (step fp x)
  then have "linked (spec\<lparr>threshold := t'\<rparr>) G fp x"
    using edge_passes_lower [OF assms(1)] unfolding linked_def by blast
  with step show ?case by (blast intro: reach.step)
qed

section \<open>Failing lookups\<close>

lemma resolve_uninitialized:
  assumes "registry env = None" "seed_fingerprint_ids spec \<noteq> []"
  shows "\<exists>msg. resolve it env spec = Some (Inl (Config msg))"
proof -
  obtain fp rest where q: "w_queue (walk_init spec) = fp # rest"
    using assms(2) by (cases "rev (seed_fingerprint_ids spec)") (auto simp: walk_init_def)
  obtain msg where "fingerprint_exists env fp = Inl (Config msg)"
    using assms(1) by (simp add: fingerprint_exists_def env_lookup_def lookup_name_def)
  with q have "walk_step env spec (walk_init spec) = Inl (Config msg)"
    by (simp add: walk_step.simps) (simp add: walk_init_def)
  with q have "walk env spec = Some (Inl (Config msg))"
    unfolding walk_def by (intro loop_until_error) auto
  then show ?thesis by (simp add: resolve_def)
qed

section \<open>Exclusions hold whatever the engine answers\<close>

lemma walk_edge_excluded:
  assumes "walk_edge env spec fp e s = Inr s'" "w_edges s \<inter> excluded_edge_ids spec = {}"
  shows "w_edges s' \<inter> excluded_edge_ids spec = {}"
proof (cases "e \<in> w_edges s \<or> e \<in> excluded_edge_ids spec")
  case True
  with assms show ?thesis by (auto simp: walk_edge_def split: if_splits)
next
  case False
  with assms(1) obtain found where "fetch_edge env e = Inr found"
    by (auto simp: walk_edge_def res_bind_eq_Inr)
  with False assms show ?thesis by (cases found) (auto simp: walk_edge_def split: if_splits)
qed

lemma walk_edges_excluded:
  "walk_edges env spec fp es s = Inr s' \<Longrightarrow> w_edges s \<inter> excluded_edge_ids spec = {} \<Longrightarrow>
     w_edges s' \<inter> excluded_edge_ids spec = {}"
  by (induction es arbitrary: s) (auto simp: res_bind_eq_Inr dest: walk_edge_excluded)

lemma walk_step_excluded:
  assumes "walk_step env spec s = Inr s'" "w_edges s \<inter> excluded_edge_ids spec = {}"
  shows "w_edges s' \<inter> excluded_edge_ids spec = {}"
proof (cases "w_queue s")
  case Nil
  with assms show ?thesis by (simp add: walk_step.simps)
next
  case (Cons fp rest)
  with assms show ?thesis
    by (simp add: walk_step.simps Let_def res_bind_eq_Inr split: if_splits)
      (force dest: walk_edges_excluded)+
qed

lemma walk_excluded:
  assumes "walk env spec = Some (Inr s)"
  shows "w_edges s \<inter> excluded_edge_ids spec = {}"
  using assms unfolding walk_def
  by (rule loop_until_inv) (auto simp: walk_init_def dest: walk_step_excluded)

lemma add_mentions_excluded:
  "fst acc \<inter> excl = {} \<Longrightarrow> fst (add_mentions excl ms acc) \<inter> excl = {}"
  by (cases acc) (auto simp: add_mentions_eq)

lemma collect_mentions_excluded:
  "collect_mentions env spec fps acc = Inr acc' \<Longrightarrow> fst acc \<inter> excluded_mention_ids spec = {} \<Longrightarrow>
     fst acc' \<inter> excluded_mention_ids spec = {}"
proof (induction fps arbitrary: acc)
  case (Cons fp fps)
  then obtain ms where "collect_mentions env spec fps (add_mentions (excluded_mention_ids spec) ms acc) = Inr acc'"
    by (auto simp: res_bind_eq_Inr)
  from Cons.IH [OF this add_mentions_excluded [OF Cons.prems(2)]] show ?case .
qed simp

lemma resolve_excludes:
  assumes "resolve it env spec = Some (Inr r)"
  shows "r_edge_ids (result_body r) \<inter> excluded_edge_ids spec = {}"
    and "r_mention_ids (result_body r) \<inter> excluded_mention_ids spec \<subseteq> included_mention_ids spec"
proof -
  from assms obtain s found n where s: "walk env spec = Some (Inr s)"
    and m: "collect_mentions env spec (it (w_visited s)) ({}, excluded_mention_count (w_diag s)) = Inr (found, n)"
    and r: "r_edge_ids (result_body r) = w_edges s" "r_mention_ids (result_body r) = found \<union> included_mention_ids spec"
    by (auto simp: resolve_def finish_resolve_def res_bind_eq_Inr Let_def split: if_splits)
  show "r_edge_ids (result_body r) \<inter> excluded_edge_ids spec = {}"
    using walk_excluded [OF s] by (simp add: r)
  show "r_mention_ids (result_body r) \<inter> excluded_mention_ids spec \<subseteq> included_mention_ids spec"
    using collect_mentions_excluded [OF m] by (auto simp: r)
qed

lemma walk_edge_finite:
  assumes "walk_edge env spec fp e s = Inr s'" "finite (w_edges s)"
  shows "finite (w_edges s') \<and> w_visited s' = w_visited s"
proof (cases "e \<in> w_edges s \<or> e \<in> excluded_edge_ids spec")
  case True
  with assms show ?thesis by (auto simp: walk_edge_def split: if_splits)
next
  case False
  with assms(1) obtain found where "fetch_edge env e = Inr found"
    by (auto simp: walk_edge_def res_bind_eq_Inr)
  with False assms show ?thesis by (cases found) (auto simp: walk_edge_def split: if_splits)
qed

lemma walk_edges_finite:
  "walk_edges env spec fp es s = Inr s' \<Longrightarrow> finite (w_edges s) \<Longrightarrow>
     finite (w_edges s') \<and> w_visited s' = w_visited s"
  by (induction es arbitrary: s) (auto simp: res_bind_eq_Inr dest: walk_edge_finite)

lemma walk_step_finite:
  assumes "walk_step env spec s = Inr s'" "finite (w_edges s) \<and> finite (w_visited s)"
  shows "finite (w_edges s') \<and> finite (w_visited s')"
proof (cases "w_queue s")
  case Nil
  with assms show ?thesis by (simp add: walk_step.simps)
next
  case (Cons fp rest)
  with assms show ?thesis
    by (simp add: walk_step.simps Let_def res_bind_eq_Inr split: if_splits)
      (force dest: walk_edges_finite)+
qed

lemma resolve_finite:
  assumes "resolve it env spec = Some (Inr r)"
  shows "finite (r_edge_ids (result_body r))" "finite (r_fingerprint_ids (result_body r))"
proof -
  from assms obtain s where s: "walk env spec = Some (Inr s)"
    and r: "r_edge_ids (result_body r) = w_edges s" "r_fingerprint_ids (result_body r) = w_visited s"
    by (auto simp: resolve_def finish_resolve_def res_bind_eq_Inr Let_def split: if_splits)
  have "finite (w_edges s) \<and> finite (w_visited s)"
    using s unfolding walk_def
    by (rule loop_until_inv) (auto simp: walk_init_def dest: walk_step_finite)
  then show "finite (r_edge_ids (result_body r))" "finite (r_fingerprint_ids (result_body r))"
    by (simp_all add: r)
qed

end
