(* ===== verification/Persona_Store.thy ===== *)
theory Persona_Store
  imports Persona_Edit Resolver_Correct
begin

text \<open>
  The contract of the database the persona handlers rely on, as the locale \<open>persona_store\<close>:
  a query for a persona key returns the stored record restricted to the fields asked for,
  an update merges the payload into the record, a delete removes it, and a persona
  mutation changes no other schema. Inside the locale the handlers are proved to do what
  they document; \<open>mem_node\<close> is an in-memory node that meets the contract.
\<close>

text \<open>A row of a result: the requested fields of a stored record, in a \<^verbatim>\<open>fields\<close> envelope.\<close>

definition row_of :: "string list \<Rightarrow> payload \<Rightarrow> json \<Rightarrow> bool" where
  "row_of fs m r \<longleftrightarrow> (\<exists>kvs. r = JObj [(''fields'', JObj kvs)] \<and> map_of kvs = m |` set fs)"

locale persona_store =
  fixes nd :: "'d fp_node"
    and ps :: string
    and view :: "'d \<Rightarrow> string \<Rightarrow> payload option"
  assumes canonical_ok: "canonical_lookup nd (PERSONA nd) = Inr ps"
    and key_query_ok: "query_db nd d (key_query ps fs k) = Inr rs \<Longrightarrow>
        (case view d k of None \<Rightarrow> rs = [] | Some m \<Rightarrow> (\<exists>r. rs = [r] \<and> row_of fs m r))"
    and scan_query_ok: "query_db nd d (simple_query ps fs None) = Inr rs \<Longrightarrow>
        (\<exists>ks. distinct ks \<and> set ks = dom (view d) \<and> list_all2 (\<lambda>k r. row_of fs (the (view d k)) r) ks rs)"
    and update_ok: "mutate_db nd d ps m (Some k, None) Update = (Inr i, d') \<Longrightarrow> view d k = Some old \<Longrightarrow>
        view d' = (view d)(k \<mapsto> old ++ m)"
    and create_ok: "mutate_db nd d ps m (Some k, None) Create = (Inr i, d') \<Longrightarrow> view d k = None \<Longrightarrow>
        view d' = (view d)(k \<mapsto> m)"
    and delete_mut_ok: "mutate_db nd d ps m (Some k, None) Delete = (Inr i, d') \<Longrightarrow> view d' = (view d)(k := None)"
    and other_schemas: "mutate_db nd d ps m kv t = (r, d') \<Longrightarrow> schema_name q \<noteq> ps \<Longrightarrow> query_db nd d' q = query_db nd d q"
begin

lemma fetch_fields_ok:
  assumes "fetch_persona_fields nd d ps k = Inr fs"
  obtains m kvs where "view d k = Some m" "fs = JObj kvs" "map_of kvs = m |` set persona_fields"
proof -
  from assms obtain rs where rs: "query_db nd d (key_query ps persona_fields k) = Inr rs"
    "(case rs of [] \<Rightarrow> Inl (NotFound (''persona '' @ CHR 0x27 # k @ CHR 0x27 # '' not found''))
      | r # _ \<Rightarrow> ok_or (Internal ''persona record missing 'fields' envelope'') (json_get ''fields'' r)) = Inr fs"
    by (auto simp: fetch_persona_fields_def res_bind_eq_Inr)
  show thesis
  proof (cases "view d k")
    case None
    with key_query_ok [OF rs(1)] rs(2) show ?thesis by simp
  next
    case (Some m)
    with key_query_ok [OF rs(1)] rs(2) show ?thesis by (auto simp: row_of_def intro: that)
  qed
qed

lemma fetch_fields_found:
  "view d k = Some m \<Longrightarrow> fetch_persona_fields nd d ps k = Inl e \<Longrightarrow> status_code e = 500"
proof -
  assume m: "view d k = Some m" and e: "fetch_persona_fields nd d ps k = Inl e"
  show ?thesis
  proof (cases "query_db nd d (key_query ps persona_fields k)")
    case (Inl x)
    with e show ?thesis by (auto simp: fetch_persona_fields_def)
  next
    case (Inr rs)
    with key_query_ok [OF Inr] m e show ?thesis by (auto simp: fetch_persona_fields_def row_of_def)
  qed
qed

section \<open>Patching\<close>

lemma patch_ok_cases:
  assumes "apply_persona_patch it nd d pid p = (Some (Inr det), d')"
  obtains old m' i where "view d pid = Some old" "patch_payload p (old |` set persona_fields) = Inr m'"
    "validate_patch (show_f32 nd) p = Inr ()" "mutate_db nd d ps m' (Some pid, None) Update = (Inr i, d')"
    "get_persona it nd d' pid = Some (Inr det)"
proof -
  from assms obtain fs m m' i where fs: "fetch_persona_fields nd d ps pid = Inr fs"
    and v: "validate_patch (show_f32 nd) p = Inr ()"
    and m: "object_payload (Internal ''persona record 'fields' envelope is not a JSON object'') fs = Inr m"
      "patch_payload p m = Inr m'"
    and u: "mutate_db nd d ps m' (Some pid, None) Update = (Inr i, d')" "get_persona it nd d' pid = Some (Inr det)"
    by (auto simp: apply_persona_patch_def canonical_ok res_bind_def split: sum.splits prod.splits)
  from fs obtain old kvs where "view d pid = Some old" "fs = JObj kvs" "map_of kvs = old |` set persona_fields"
    by (rule fetch_fields_ok)
  with m v u show thesis by (auto simp: object_payload_def intro: that)
qed

lemma patch_view:
  assumes "apply_persona_patch it nd d pid p = (Some (Inr det), d')"
  shows "\<exists>old m'. view d pid = Some old \<and> patch_payload p (old |` set persona_fields) = Inr m' \<and>
    view d' = (view d)(pid \<mapsto> old ++ m')"
  using assms by (rule patch_ok_cases) (use update_ok in blast)

lemma get_persona_fields:
  assumes "get_persona it nd d pid = Some (Inr det)"
  obtains m kvs spec r where "view d pid = Some m" "map_of kvs = m |` set persona_fields"
    "persona_spec_from_fields (JObj kvs) = Inr spec" "resolve it (env_at nd d) spec = Some (Inr r)"
    "pd_edge_ids det = sort (it (r_edge_ids (result_body r)))"
    "pd_mention_ids det = sort (it (r_mention_ids (result_body r)))"
    "pd_fingerprint_ids det = sort (it (r_fingerprint_ids (result_body r)))"
    "pd_excluded_edge_ids det = string_array_field (JObj kvs) ''excluded_edge_ids''"
    "pd_seed_fingerprint_ids det = seed_fingerprint_ids spec" "pd_threshold det = threshold spec"
    "pd_diagnostics det = result_diagnostics r"
proof -
  from assms obtain fs spec r where fs: "fetch_persona_fields nd d ps pid = Inr fs"
    and spec: "persona_spec_from_fields fs = Inr spec"
    and r: "resolve it (env_at nd d) spec = Some (Inr r)"
    and det: "pd_edge_ids det = sort (it (r_edge_ids (result_body r)))"
      "pd_mention_ids det = sort (it (r_mention_ids (result_body r)))"
      "pd_fingerprint_ids det = sort (it (r_fingerprint_ids (result_body r)))"
      "pd_excluded_edge_ids det = string_array_field fs ''excluded_edge_ids''"
      "pd_seed_fingerprint_ids det = seed_fingerprint_ids spec" "pd_threshold det = threshold spec"
      "pd_diagnostics det = result_diagnostics r"
    by (auto simp: get_persona_def canonical_ok obind_eq_Inr resolve_persona_def Let_def)
  from fs obtain m kvs where "view d pid = Some m" "fs = JObj kvs" "map_of kvs = m |` set persona_fields"
    by (rule fetch_fields_ok)
  with spec r det show thesis by (auto intro: that)
qed

lemma patch_excludes_edge:
  assumes patch: "apply_persona_patch it nd d pid p = (Some (Inr det), d')" and it: "iteration_order it"
    and p: "pp_add_excluded_edge_id p = Some e" "pp_remove_excluded_edge_id p = None"
  shows "e \<in> set (pd_excluded_edge_ids det) \<and> e \<notin> set (pd_edge_ids det)"
proof -
  from patch obtain old m' i where old: "view d pid = Some old" "patch_payload p (old |` set persona_fields) = Inr m'"
      "mutate_db nd d ps m' (Some pid, None) Update = (Inr i, d')" and get: "get_persona it nd d' pid = Some (Inr det)"
    by (rule patch_ok_cases)
  from get obtain m kvs spec r where m: "view d' pid = Some m" "map_of kvs = m |` set persona_fields"
    and spec: "persona_spec_from_fields (JObj kvs) = Inr spec" and r: "resolve it (env_at nd d') spec = Some (Inr r)"
    and det: "pd_edge_ids det = sort (it (r_edge_ids (result_body r)))"
      "pd_excluded_edge_ids det = string_array_field (JObj kvs) ''excluded_edge_ids''"
    by (rule get_persona_fields)
  have late: "m' ''excluded_edge_ids'' = patch_arrays p (old |` set persona_fields) ''excluded_edge_ids''"
    by (rule patch_payload_late_frame [OF old(2)]) (simp add: late_stage_fields_def)
  also have "\<dots> = on_some (apply_array_add ''excluded_edge_ids'') (pp_add_excluded_edge_id p)
        (on_some (\<lambda>t m. m(''threshold'' \<mapsto> (if is_finite_fl t then JNum t else JNull))) (pp_threshold p)
          (old |` set persona_fields)) ''excluded_edge_ids''"
    by (simp add: patch_arrays_def p(2) on_some_frame array_frames)
  finally obtain m0 where m0: "m' ''excluded_edge_ids'' = apply_array_add ''excluded_edge_ids'' e m0 ''excluded_edge_ids''"
    by (simp add: p(1))
  then have "m' ''excluded_edge_ids'' \<noteq> None" by (simp add: apply_array_add_def Let_def)
  moreover have "m = old ++ m'" using update_ok [OF old(3,1)] m(1) by simp
  ultimately have "map_of kvs ''excluded_edge_ids'' = m' ''excluded_edge_ids''"
    using m(2) by (auto simp: persona_fields_def map_add_def)
  with m0 have "payload_strings (map_of kvs) ''excluded_edge_ids'' =
      payload_strings (apply_array_add ''excluded_edge_ids'' e m0) ''excluded_edge_ids''"
    by (simp add: payload_strings_def payload_array_def)
  then have e: "e \<in> set (string_array_field (JObj kvs) ''excluded_edge_ids'')"
    by (simp add: string_array_field_payload strings_after_add)
  then have "e \<in> excluded_edge_ids spec" using spec by (auto simp: persona_spec_from_fields_def res_bind_eq_Inr)
  then have "e \<notin> r_edge_ids (result_body r)" using resolve_excludes(1) [OF r] by auto
  with e det iteration_orderD(2) [OF it resolve_finite(1) [OF r]] show ?thesis by simp
qed

lemma patch_state_cases:
  assumes "apply_persona_patch it nd d pid p = (res, d')" "d' \<noteq> d"
  shows "\<exists>old m' r. view d pid = Some old \<and> validate_patch (show_f32 nd) p = Inr () \<and>
    patch_payload p (old |` set persona_fields) = Inr m' \<and>
    mutate_db nd d ps m' (Some pid, None) Update = (r, d')"
proof -
  from assms obtain fs m m' r where fs: "fetch_persona_fields nd d ps pid = Inr fs"
    and v: "validate_patch (show_f32 nd) p = Inr ()"
    and m: "object_payload (Internal ''persona record 'fields' envelope is not a JSON object'') fs = Inr m"
      "patch_payload p m = Inr m'"
    and u: "mutate_db nd d ps m' (Some pid, None) Update = (r, d')"
    by (auto simp: apply_persona_patch_def canonical_ok res_bind_def split: sum.splits prod.splits)
  from fs obtain old kvs where "view d pid = Some old" "fs = JObj kvs" "map_of kvs = old |` set persona_fields"
    by (rule fetch_fields_ok)
  with m v u show ?thesis by (auto simp: object_payload_def)
qed

section \<open>Merging\<close>

lemma merge_ok_cases:
  assumes "merge_personas it nd d sid aid = (Some (Inr det), d')"
  obtains s a skvs akvs m where "sid \<noteq> aid" "view d sid = Some s" "view d aid = Some a"
    "map_of skvs = s |` set persona_fields" "map_of akvs = a |` set persona_fields"
    "merge_payload (JObj skvs) (JObj akvs) = Inr m"
    "view d' = (view d)(sid \<mapsto> s ++ m, aid := None)" "get_persona it nd d' sid = Some (Inr det)"
proof -
  from assms obtain sfs afs m i d1 j where ne: "sid \<noteq> aid" and s: "fetch_persona_fields nd d ps sid = Inr sfs"
    and a: "fetch_persona_fields nd d ps aid = Inr afs" and m: "merge_payload sfs afs = Inr m"
    and u: "mutate_db nd d ps m (Some sid, None) Update = (Inr i, d1)"
    and del: "mutate_db nd d1 ps Map.empty (Some aid, None) Delete = (Inr j, d')"
    and get: "get_persona it nd d' sid = Some (Inr det)"
    by (auto simp: merge_personas_def canonical_ok res_bind_def split: if_splits sum.splits prod.splits)
  from s obtain so skvs where so: "view d sid = Some so" "sfs = JObj skvs" "map_of skvs = so |` set persona_fields"
    by (rule fetch_fields_ok)
  from a obtain ao akvs where ao: "view d aid = Some ao" "afs = JObj akvs" "map_of akvs = ao |` set persona_fields"
    by (rule fetch_fields_ok)
  have "view d1 = (view d)(sid \<mapsto> so ++ m)" by (rule update_ok [OF u so(1)])
  with delete_mut_ok [OF del] have "view d' = (view d)(sid \<mapsto> so ++ m, aid := None)" by simp
  with ne so ao m get show thesis by (auto intro: that)
qed

lemma merge_state_cases:
  assumes "merge_personas it nd d sid aid = (res, d')" "d' \<noteq> d"
  shows "sid \<noteq> aid \<and> (\<exists>s a skvs akvs m. view d sid = Some s \<and> view d aid = Some a \<and>
    map_of skvs = s |` set persona_fields \<and> map_of akvs = a |` set persona_fields \<and>
    merge_payload (JObj skvs) (JObj akvs) = Inr m)"
proof -
  from assms obtain sfs afs m where ne: "sid \<noteq> aid" and s: "fetch_persona_fields nd d ps sid = Inr sfs"
    and a: "fetch_persona_fields nd d ps aid = Inr afs" and m: "merge_payload sfs afs = Inr m"
    by (auto simp: merge_personas_def canonical_ok res_bind_def split: if_splits sum.splits)
  from s obtain so skvs where so: "view d sid = Some so" "sfs = JObj skvs" "map_of skvs = so |` set persona_fields"
    by (rule fetch_fields_ok)
  from a obtain ao akvs where ao: "view d aid = Some ao" "afs = JObj akvs" "map_of akvs = ao |` set persona_fields"
    by (rule fetch_fields_ok)
  from ne so ao m show ?thesis by blast
qed

section \<open>Deleting\<close>

lemma delete_ok_view:
  assumes "delete_persona nd d pid = (Inr j, d')"
  shows "\<exists>m. view d pid = Some m \<and> \<not> payload_bool m ''built_in'' \<and> view d' = (view d)(pid := None)"
proof -
  from assms obtain rec rest fs i where q: "query_db nd d (key_query ps [''id'', ''built_in''] pid) = Inr (rec # rest)"
    and fs: "json_get ''fields'' rec = Some fs" "\<not> or_default False (bool_field fs ''built_in'')"
    and del: "mutate_db nd d ps Map.empty (Some pid, None) Delete = (Inr i, d')"
    by (auto simp: delete_persona_def canonical_ok res_bind_eq_Inr split: sum.splits prod.splits list.splits
        option.splits if_splits)
  from key_query_ok [OF q] obtain m where m: "view d pid = Some m" "row_of [''id'', ''built_in''] m rec"
    by (cases "view d pid") auto
  with fs have "\<not> payload_bool m ''built_in''"
    by (auto simp: row_of_def bool_field_def payload_bool_def)
  with m(1) delete_mut_ok [OF del] show ?thesis by blast
qed

end

text \<open>What a merge writes.\<close>

lemma merge_payload_seeds:
  assumes "merge_payload (JObj skvs) (JObj akvs) = Inr m"
  shows "payload_strings m ''seed_fingerprint_ids'' =
      union_string_arrays (payload_strings (map_of skvs) ''seed_fingerprint_ids'')
        (payload_strings (map_of akvs) ''seed_fingerprint_ids'')"
proof -
  have strs: "List.map_filter as_str (map JStr xs) = xs" for xs
    by (induction xs) auto
  from assms have "m ''seed_fingerprint_ids'' = Some (union_field ''seed_fingerprint_ids'' (JObj skvs) (JObj akvs))"
    by (auto simp: merge_payload_def object_payload_def Let_def on_some_def split: if_splits option.splits)
  then show ?thesis
    by (simp add: payload_strings_def payload_array_def or_default_def union_field_def json_string_array_def strs)
      (simp add: string_array_field_payload payload_strings_def payload_array_def or_default_def)
qed

lemma set_union_string_arrays: "set (union_string_arrays a b) = set a \<union> set b" "distinct (union_string_arrays a b)"
proof -
  show "set (union_string_arrays a b) = set a \<union> set b"
    using dedup_by_keys [of "\<lambda>s. s" "{}" "a @ b"] by (simp add: union_string_arrays_def)
  show "distinct (union_string_arrays a b)"
    using dedup_by_distinct [of "\<lambda>s. s" "{}" "a @ b"] by (simp add: union_string_arrays_def)
qed

lemma merge_payload_guards:
  assumes "merge_payload (JObj skvs) (JObj akvs) = Inr m"
  shows "\<not> payload_bool (map_of skvs) ''built_in''" "\<not> payload_bool (map_of akvs) ''built_in''"
    and "extract_identity_key (JObj skvs) = None \<or> extract_identity_key (JObj akvs) = None \<or>
         extract_identity_key (JObj skvs) = extract_identity_key (JObj akvs)"
  using assms by (auto simp: merge_payload_def bool_field_def payload_bool_def split: if_splits)

definition payload_identity :: "payload \<Rightarrow> string option" where
  "payload_identity m = opt_bind (m ''identity_id'') (\<lambda>v. if is_object v then opt_bind (json_get ''key'' v) as_str else None)"

lemma extract_identity_payload: "extract_identity_key (JObj kvs) = payload_identity (map_of kvs)"
  by (simp add: extract_identity_key_def payload_identity_def)

lemma merge_payload_identity:
  assumes "merge_payload (JObj skvs) (JObj akvs) = Inr m"
  shows "payload_identity m =
    (case payload_identity (map_of skvs) of Some k \<Rightarrow> Some k | None \<Rightarrow> payload_identity (map_of akvs))"
proof (cases "payload_identity (map_of skvs)")
  case None
  show ?thesis
  proof (cases "payload_identity (map_of akvs)")
    case a: None
    with None assms have "m ''identity_id'' = map_of skvs ''identity_id''"
      by (auto simp: merge_payload_def object_payload_def Let_def extract_identity_payload split: if_splits)
    with None a show ?thesis by (simp add: payload_identity_def)
  next
    case (Some k)
    with None assms have "m ''identity_id'' = Some (identity_ref k)"
      by (auto simp: merge_payload_def object_payload_def Let_def extract_identity_payload split: if_splits)
    with None Some show ?thesis by (simp add: payload_identity_def identity_ref_def)
  qed
next
  case (Some k)
  with assms have "m ''identity_id'' = map_of skvs ''identity_id''"
    by (auto simp: merge_payload_def object_payload_def Let_def extract_identity_payload split: if_splits)
  with Some show ?thesis by (simp add: payload_identity_def)
qed

end
