(* ===== verification/Suggestions.thy ===== *)
theory Suggestions
  imports Personas Fingerprint_Keys
begin

text \<open>
  \<^verbatim>\<open>src/handlers/fingerprints/suggestions.rs\<close> and \<^verbatim>\<open>src/fingerprints/auto_propose.rs\<close>: the sweep
  that proposes personas from dense components of the fingerprint graph, the endpoint that
  accepts a proposal, and the debounced background sweep that creates tentative personas.
  The hash, the fresh identifiers and the time are arguments; \<^const>\<open>None\<close> is a walk that
  never ends.
\<close>

section \<open>Data\<close>

definition MIN_FINGERPRINTS :: nat where "MIN_FINGERPRINTS = 3"
definition MIN_MENTIONS :: nat where "MIN_MENTIONS = 5"
definition MIN_EDGE_WEIGHT :: fl where "MIN_EDGE_WEIGHT = f32_085"

record suggested_persona_view =
  sg_id :: string
  sg_name :: string
  sg_fingerprint_ids :: "string list"
  sg_fingerprint_count :: nat
  sg_edge_count :: nat
  sg_mention_count :: nat
  sg_sample_fingerprints :: "fingerprint_view list"

record component =
  comp_fingerprint_ids :: "string list"
  comp_edge_ids :: "string set"

section \<open>Lookups\<close>

definition load_all_fingerprint_ids :: "'d fp_node \<Rightarrow> 'd \<Rightarrow> handler_error + string list" where
  "load_all_fingerprint_ids nd d =
     res_bind (canonical_lookup nd (FINGERPRINT nd)) (\<lambda>canonical.
     res_bind (handler_err (show_error nd) ''scan fingerprints'' (query_db nd d (simple_query canonical [''id''] None))) (\<lambda>records.
     Inr (List.map_filter (\<lambda>r. extract_string_field r ''id'') records)))"

definition seed_set_of :: "json \<Rightarrow> string set option" where
  "seed_set_of rec =
     (case json_get ''fields'' rec of
        None \<Rightarrow> None
      | Some fs \<Rightarrow>
          (let S = set (string_array_field fs ''seed_fingerprint_ids'') in if S = {} then None else Some S))"

definition load_persona_seed_sets :: "'d fp_node \<Rightarrow> 'd \<Rightarrow> handler_error + string set list" where
  "load_persona_seed_sets nd d =
     res_bind (canonical_lookup nd (PERSONA nd)) (\<lambda>canonical.
     res_bind (handler_err (show_error nd) ''scan personas''
       (query_db nd d (simple_query canonical [''seed_fingerprint_ids''] None))) (\<lambda>records.
     Inr (List.map_filter seed_set_of records)))"

definition sg_edge_ids_touching :: "'d fp_node \<Rightarrow> 'd \<Rightarrow> string \<Rightarrow> handler_error + string list" where
  "sg_edge_ids_touching nd d fp =
     res_bind (canonical_lookup nd (EDGE_BY_FINGERPRINT nd)) (\<lambda>canonical.
     res_bind (handler_err (show_error nd) ''query edges by fingerprint'' (query_db nd d (key_query canonical [''edge_id''] fp))) (\<lambda>results.
     Inr (List.map_filter (\<lambda>r. extract_string_field r ''edge_id'') results)))"

definition fetch_edge_endpoints ::
    "'d fp_node \<Rightarrow> 'd \<Rightarrow> string \<Rightarrow> handler_error + (string \<times> string \<times> string \<times> fl) option" where
  "fetch_edge_endpoints nd d eid =
     res_bind (canonical_lookup nd (EDGE nd)) (\<lambda>canonical.
     res_bind (handler_err (show_error nd) ''fetch edge endpoints''
       (query_db nd d (key_query canonical [''a'', ''b'', ''kind'', ''weight''] eid))) (\<lambda>records.
     Inr (map_option (\<lambda>fs.
        (or_default [] (string_field fs ''a''), or_default [] (string_field fs ''b''),
         or_default [] (string_field fs ''kind''), or_default (Fin 0) (f32_field fs ''weight'')))
       (first_fields records))))"

section \<open>Components\<close>

text \<open>\<open>cw_queue\<close> holds the vector in reverse, as in the resolver.\<close>

record comp_walk =
  cw_queue :: "string list"
  cw_visited :: "string set"
  cw_comp :: component

definition comp_edge :: "'d fp_node \<Rightarrow> 'd \<Rightarrow> string \<Rightarrow> string \<Rightarrow> comp_walk \<Rightarrow> handler_error + comp_walk" where
  "comp_edge nd d fp eid s =
     (if eid \<in> comp_edge_ids (cw_comp s) then Inr s
      else res_bind (fetch_edge_endpoints nd d eid) (\<lambda>found. case found of
          None \<Rightarrow> Inr s
        | Some (a, b, kind, weight) \<Rightarrow>
            if kind = USER_FORBIDDEN then Inr s
            else if fl_lt weight MIN_EDGE_WEIGHT then Inr s
            else (let other = (if a = fp then b else a) in
              Inr (s\<lparr>cw_comp := (cw_comp s)\<lparr>comp_edge_ids := insert eid (comp_edge_ids (cw_comp s))\<rparr>,
                     cw_queue := (if other \<notin> cw_visited s then other # cw_queue s else cw_queue s)\<rparr>))))"

fun comp_edges :: "'d fp_node \<Rightarrow> 'd \<Rightarrow> string \<Rightarrow> string list \<Rightarrow> comp_walk \<Rightarrow> handler_error + comp_walk" where
  "comp_edges nd d fp [] s = Inr s"
| "comp_edges nd d fp (eid # es) s = res_bind (comp_edge nd d fp eid s) (comp_edges nd d fp es)"

definition comp_step :: "'d fp_node \<Rightarrow> 'd \<Rightarrow> comp_walk \<Rightarrow> handler_error + comp_walk" where
  "comp_step nd d s =
     (case cw_queue s of
        [] \<Rightarrow> Inr s
      | fp # rest \<Rightarrow>
          (let s = s\<lparr>cw_queue := rest\<rparr> in
           if fp \<in> cw_visited s then Inr s
           else
             (let s = s\<lparr>cw_visited := insert fp (cw_visited s),
                        cw_comp := (cw_comp s)\<lparr>comp_fingerprint_ids := comp_fingerprint_ids (cw_comp s) @ [fp]\<rparr>\<rparr> in
              res_bind (sg_edge_ids_touching nd d fp) (\<lambda>es. comp_edges nd d fp es s))))"

definition walk_component ::
    "'d fp_node \<Rightarrow> 'd \<Rightarrow> string \<Rightarrow> string set \<Rightarrow> (handler_error + component \<times> string set) option" where
  "walk_component nd d start_fp global_visited =
     map_option (\<lambda>r. res_bind r (\<lambda>s. Inr (cw_comp s, cw_visited s)))
       (loop_until (\<lambda>s. cw_queue s = []) (comp_step nd d)
         \<lparr>cw_queue = [start_fp], cw_visited = global_visited,
          cw_comp = \<lparr>comp_fingerprint_ids = [], comp_edge_ids = {}\<rparr>\<rparr>)"

text \<open>Step 3 of the handler: every fingerprint once, components below the size gate dropped.\<close>

fun find_components ::
    "'d fp_node \<Rightarrow> 'd \<Rightarrow> string list \<Rightarrow> string set \<Rightarrow> (handler_error + component list) option" where
  "find_components nd d [] visited = Some (Inr [])"
| "find_components nd d (fp # fps) visited =
     (if fp \<in> visited then find_components nd d fps visited
      else obind (walk_component nd d fp visited) (\<lambda>(cluster, visited').
             obind (find_components nd d fps visited') (\<lambda>comps.
               Some (Inr (if MIN_FINGERPRINTS \<le> length (comp_fingerprint_ids cluster) then cluster # comps else comps)))))"

section \<open>Suggestions\<close>

definition component_covered :: "component \<Rightarrow> string set list \<Rightarrow> bool" where
  "component_covered cluster seed_sets =
     list_ex (\<lambda>S. S \<noteq> {} \<and> S \<subseteq> set (comp_fingerprint_ids cluster)) seed_sets"

fun seen_mentions :: "'d fp_node \<Rightarrow> 'd \<Rightarrow> string \<Rightarrow> string list \<Rightarrow> string set \<Rightarrow> handler_error + string set" where
  "seen_mentions nd d canonical [] seen = Inr seen"
| "seen_mentions nd d canonical (fp # fps) seen =
     res_bind (handler_err (show_error nd) ''query mentions by fingerprint''
       (query_db nd d (key_query canonical [''mention_id''] fp))) (\<lambda>results.
       seen_mentions nd d canonical fps
         (seen \<union> set (List.map_filter (\<lambda>r. extract_string_field r ''mention_id'') results)))"

definition count_component_mentions :: "'d fp_node \<Rightarrow> 'd \<Rightarrow> component \<Rightarrow> handler_error + nat" where
  "count_component_mentions nd d cluster =
     res_bind (canonical_lookup nd (MENTION_BY_FINGERPRINT nd)) (\<lambda>canonical.
     res_bind (seen_mentions nd d canonical (comp_fingerprint_ids cluster) {}) (\<lambda>seen. Inr (card seen)))"

definition hash_fingerprint_set :: "(bytes \<Rightarrow> string) \<Rightarrow> string list \<Rightarrow> string" where
  "hash_fingerprint_set sha sorted_ids =
     ''sg_'' @ sha (concat (map (\<lambda>i. as_bytes i @ as_bytes ''|'') sorted_ids))"

text \<open>\<^verbatim>\<open>Iterator::max_by_key\<close>: the last of the largest elements.\<close>

fun max_by_key :: "('a \<Rightarrow> nat) \<Rightarrow> 'a option \<Rightarrow> 'a list \<Rightarrow> 'a option" where
  "max_by_key k best [] = best"
| "max_by_key k best (x # xs) =
     max_by_key k (case best of None \<Rightarrow> Some x | Some b \<Rightarrow> if k b \<le> k x then Some x else Some b) xs"

definition full_names :: "fingerprint_view list \<Rightarrow> string list" where
  "full_names fps = map fv_display_value
     (filter (\<lambda>fp. eq_ignore_ascii_case (fv_kind fp) ''full_name'' \<and> fv_display_value fp \<noteq> []) fps)"

definition most_common_full_name ::
    "(string set \<Rightarrow> string list) \<Rightarrow> fingerprint_view list \<Rightarrow> string option" where
  "most_common_full_name it fps =
     (let names = full_names fps in max_by_key (count_list names) None (it (set names)))"

definition suggestion_for ::
    "(string set \<Rightarrow> string list) \<Rightarrow> (bytes \<Rightarrow> string) \<Rightarrow> 'd fp_node \<Rightarrow> 'd \<Rightarrow> string set list \<Rightarrow> component
     \<Rightarrow> handler_error + suggested_persona_view option" where
  "suggestion_for it sha nd d seed_sets cluster =
     (if component_covered cluster seed_sets then Inr None
      else res_bind (count_component_mentions nd d cluster) (\<lambda>mention_count.
        if mention_count < MIN_MENTIONS then Inr None
        else res_bind (fetch_fingerprint_views nd d (take 5 (comp_fingerprint_ids cluster))) (\<lambda>sample.
          (let sorted_fps = sort (comp_fingerprint_ids cluster) in
           Inr (Some \<lparr>sg_id = hash_fingerprint_set sha sorted_fps,
             sg_name = or_default ''Unnamed cluster'' (most_common_full_name it sample),
             sg_fingerprint_ids = sorted_fps,
             sg_fingerprint_count = length (comp_fingerprint_ids cluster),
             sg_edge_count = card (comp_edge_ids cluster),
             sg_mention_count = mention_count,
             sg_sample_fingerprints = sample\<rparr>)))))"

definition list_suggested_personas ::
    "(string set \<Rightarrow> string list) \<Rightarrow> (bytes \<Rightarrow> string) \<Rightarrow> 'd fp_node \<Rightarrow> 'd
     \<Rightarrow> (handler_error + suggested_persona_view list) option" where
  "list_suggested_personas it sha nd d =
     obind (Some (load_all_fingerprint_ids nd d)) (\<lambda>ids.
     obind (Some (load_persona_seed_sets nd d)) (\<lambda>seed_sets.
     obind (find_components nd d ids {}) (\<lambda>comps.
     obind (Some (fetch_each (suggestion_for it sha nd d seed_sets) comps)) (\<lambda>suggestions.
     Some (Inr (sort_key (\<lambda>s. (- int (sg_fingerprint_count s), sg_name s)) suggestions))))))"

section \<open>Accepting\<close>

definition json_strings :: "string list \<Rightarrow> json" where
  "json_strings xs = JArr (map JStr xs)"

definition persona_record_fields ::
    "string \<Rightarrow> string \<Rightarrow> string list \<Rightarrow> string list \<Rightarrow> string \<Rightarrow> bool \<Rightarrow> string \<Rightarrow> payload" where
  "persona_record_fields pid name seeds als relationship confirmed now =
     [''id'' \<mapsto> JStr pid, ''name'' \<mapsto> JStr name, ''seed_fingerprint_ids'' \<mapsto> json_strings seeds,
      ''threshold'' \<mapsto> JNum f32_085, ''excluded_mention_ids'' \<mapsto> json_strings [],
      ''excluded_edge_ids'' \<mapsto> json_strings [], ''included_mention_ids'' \<mapsto> json_strings [],
      ''aliases'' \<mapsto> json_strings als, ''relationship'' \<mapsto> JStr relationship, ''trust_tier'' \<mapsto> JInt 0,
      ''identity_id'' \<mapsto> JNull, ''user_confirmed'' \<mapsto> JBool confirmed, ''built_in'' \<mapsto> JBool False,
      ''created_at'' \<mapsto> JStr now]"

text \<open>\<open>uuid\<close> is the fresh identifier and \<open>now\<close> the current time.\<close>

definition accept_suggested_persona ::
    "(string set \<Rightarrow> string list) \<Rightarrow> 'd fp_node \<Rightarrow> string \<Rightarrow> string \<Rightarrow> 'd \<Rightarrow> string list \<Rightarrow> string \<Rightarrow> string option
     \<Rightarrow> (handler_error + persona_detail) option \<times> 'd" where
  "accept_suggested_persona it nd uuid now d fps name relationship =
     (if fps = [] then (Some (Inl (BadRequest ''fingerprint_ids must not be empty'')), d)
      else if trim name = [] then (Some (Inl (BadRequest ''name must not be empty'')), d)
      else case canonical_lookup nd (PERSONA nd) of
          Inl e \<Rightarrow> (Some (Inl e), d)
        | Inr canonical \<Rightarrow>
            (let pid = ''ps_'' @ uuid;
                 rel = (case relationship of Some r \<Rightarrow> (if trim r \<noteq> [] then r else ''unknown'') | None \<Rightarrow> ''unknown'')
             in case mutate_db nd d canonical (persona_record_fields pid (trim name) fps [] rel True now)
                       (Some pid, None) Create of
                  (Inl e, d') \<Rightarrow>
                    (Some (Inl (Internal (''failed to create accepted persona '' @ CHR 0x27 # pid @ CHR 0x27 # '': '' @ show_error nd e))), d')
                | (Inr _, d') \<Rightarrow> (get_persona it nd d' pid, d')))"

section \<open>The background sweep\<close>

definition DEBOUNCE_MS :: nat where "DEBOUNCE_MS = 30000"

record sweep_outcome =
  candidates :: nat
  created :: nat
  skipped_debounced :: bool

definition no_outcome :: sweep_outcome where
  "no_outcome = \<lparr>candidates = 0, created = 0, skipped_debounced = False\<rparr>"

definition build_tentative_persona_fields :: "string \<Rightarrow> string \<Rightarrow> string list \<Rightarrow> string \<Rightarrow> payload" where
  "build_tentative_persona_fields pid name fps now =
     persona_record_fields pid name fps [''__auto__''] ''unknown'' False now"

fun create_each ::
    "'d fp_node \<Rightarrow> string \<Rightarrow> string \<Rightarrow> (suggested_persona_view \<times> string) list \<Rightarrow> 'd \<Rightarrow> nat \<Rightarrow> nat \<times> 'd" where
  "create_each nd canonical now [] d n = (n, d)"
| "create_each nd canonical now ((sug, uuid) # rest) d n =
     (let pid = ''ps_auto_'' @ uuid in
      case mutate_db nd d canonical (build_tentative_persona_fields pid (sg_name sug) (sg_fingerprint_ids sug) now)
             (Some pid, None) Create of
        (Inl _, d') \<Rightarrow> create_each nd canonical now rest d' n
      | (Inr _, d') \<Rightarrow> create_each nd canonical now rest d' (Suc n))"

text \<open>
  \<open>last\<close> is the process-wide time of the last sweep in milliseconds; \<open>uuids i\<close> is the
  \<open>i\<close>-th fresh identifier. Natural subtraction is \<^verbatim>\<open>saturating_sub\<close>.
\<close>

definition run_sweep_and_create_personas ::
    "(string set \<Rightarrow> string list) \<Rightarrow> (bytes \<Rightarrow> string) \<Rightarrow> 'd fp_node \<Rightarrow> (nat \<Rightarrow> string) \<Rightarrow> nat \<Rightarrow> string
     \<Rightarrow> nat \<Rightarrow> 'd \<Rightarrow> (sweep_outcome \<times> nat \<times> 'd) option" where
  "run_sweep_and_create_personas it sha nd uuids now_ms now last_ms d =
     (if now_ms - last_ms < DEBOUNCE_MS then Some (no_outcome\<lparr>skipped_debounced := True\<rparr>, last_ms, d)
      else case list_suggested_personas it sha nd d of
          None \<Rightarrow> None
        | Some (Inl _) \<Rightarrow> Some (no_outcome, now_ms, d)
        | Some (Inr suggestions) \<Rightarrow>
            (case lookup_name (registry nd) (PERSONA nd) of
               Inl _ \<Rightarrow> Some (no_outcome\<lparr>candidates := length suggestions\<rparr>, now_ms, d)
             | Inr canonical \<Rightarrow>
                 (case create_each nd canonical now (zip suggestions (map uuids [0..<length suggestions])) d 0 of
                    (n, d') \<Rightarrow>
                      Some (\<lparr>candidates = length suggestions, created = n, skipped_debounced = False\<rparr>, now_ms, d'))))"

end
