(* ===== verification/Suggestions_Correct.thy ===== *)
theory Suggestions_Correct
  imports Suggestions Persona_Store
begin

text \<open>
  The sweep: what it proposes meets the gates, a component found is exactly a connected
  component of the strong edges, and sweeping again after a sweep that created its
  personas proposes nothing. The last result rests on the frame property of the database:
  persona mutations leave the other schemas as they were.
\<close>

section \<open>Queries that do not touch personas\<close>

definition same_graph :: "'d fp_node \<Rightarrow> string \<Rightarrow> 'd \<Rightarrow> 'd \<Rightarrow> bool" where
  "same_graph nd ps d d' \<longleftrightarrow> (\<forall>q. schema_name q \<noteq> ps \<longrightarrow> query_db nd d' q = query_db nd d q)"

definition graph_names_apart :: "'d fp_node \<Rightarrow> string \<Rightarrow> bool" where
  "graph_names_apart nd ps \<longleftrightarrow>
     canonical_lookup nd (FINGERPRINT nd) \<noteq> Inr ps \<and> canonical_lookup nd (EDGE nd) \<noteq> Inr ps \<and>
     canonical_lookup nd (MENTION nd) \<noteq> Inr ps \<and> canonical_lookup nd (EDGE_BY_FINGERPRINT nd) \<noteq> Inr ps \<and>
     canonical_lookup nd (MENTION_BY_FINGERPRINT nd) \<noteq> Inr ps"

lemma same_graph_query:
  assumes "same_graph nd ps d d'" "s \<noteq> ps"
  shows "query_db nd d' (key_query s fs k) = query_db nd d (key_query s fs k)"
    and "query_db nd d' (simple_query s fs flt) = query_db nd d (simple_query s fs flt)"
  using assms by (simp_all add: same_graph_def key_query_def simple_query_def)

lemma same_graph_trans: "same_graph nd ps d d1 \<Longrightarrow> same_graph nd ps d1 d2 \<Longrightarrow> same_graph nd ps d d2"
  by (simp add: same_graph_def)

lemma same_graph_bind:
  assumes "same_graph nd ps d d'" "canonical_lookup nd n \<noteq> Inr ps"
    and "\<And>s. s \<noteq> ps \<Longrightarrow> f d' s = f d s"
  shows "res_bind (canonical_lookup nd n) (f d') = res_bind (canonical_lookup nd n) (f d)"
  using assms by (cases "canonical_lookup nd n") auto

lemma frame_load_ids:
  assumes "same_graph nd ps d d'" "graph_names_apart nd ps"
  shows "load_all_fingerprint_ids nd d' = load_all_fingerprint_ids nd d"
  unfolding load_all_fingerprint_ids_def
  using assms(2) by (intro same_graph_bind [OF assms(1)]) (auto simp: graph_names_apart_def same_graph_query [OF assms(1)])

lemma frame_edge_ids:
  assumes "same_graph nd ps d d'" "graph_names_apart nd ps"
  shows "sg_edge_ids_touching nd d' fp = sg_edge_ids_touching nd d fp"
  unfolding sg_edge_ids_touching_def
  using assms(2) by (intro same_graph_bind [OF assms(1)]) (auto simp: graph_names_apart_def same_graph_query [OF assms(1)])

lemma frame_endpoints:
  assumes "same_graph nd ps d d'" "graph_names_apart nd ps"
  shows "fetch_edge_endpoints nd d' e = fetch_edge_endpoints nd d e"
  unfolding fetch_edge_endpoints_def
  using assms(2) by (intro same_graph_bind [OF assms(1)]) (auto simp: graph_names_apart_def same_graph_query [OF assms(1)])

lemma frame_comp_edges:
  assumes "same_graph nd ps d d'" "graph_names_apart nd ps"
  shows "comp_edges nd d' fp es s = comp_edges nd d fp es s"
proof -
  have one: "comp_edge nd d' fp e s = comp_edge nd d fp e s" for e s
    by (simp add: comp_edge_def frame_endpoints [OF assms])
  have "comp_edges nd d' fp es = comp_edges nd d fp es"
  proof (induction es)
    case (Cons e es)
    show ?case by (rule ext) (simp add: one Cons.IH)
  qed (rule ext, simp)
  then show ?thesis by simp
qed

lemma frame_components:
  assumes "same_graph nd ps d d'" "graph_names_apart nd ps"
  shows "find_components nd d' fps V = find_components nd d fps V"
proof -
  have eqs: "sg_edge_ids_touching nd d' = sg_edge_ids_touching nd d" "comp_edges nd d' = comp_edges nd d"
    by (intro ext, simp add: frame_edge_ids [OF assms] frame_comp_edges [OF assms])+
  have "comp_step nd d' = comp_step nd d"
    unfolding comp_step_def eqs by (rule refl)
  then have "walk_component nd d' fp V = walk_component nd d fp V" for fp V
    by (simp add: walk_component_def)
  then show ?thesis by (induction fps arbitrary: V) simp_all
qed

lemma frame_mention_count:
  assumes "same_graph nd ps d d'" "graph_names_apart nd ps"
  shows "count_component_mentions nd d' c = count_component_mentions nd d c"
proof -
  have seen: "s \<noteq> ps \<Longrightarrow> seen_mentions nd d' s fps S = seen_mentions nd d s fps S" for s fps S
  proof (induction fps arbitrary: S)
    case (Cons fp fps)
    then show ?case
      by (cases "query_db nd d (key_query s [''mention_id''] fp)") (simp_all add: same_graph_query [OF assms(1)])
  qed simp
  show ?thesis
    unfolding count_component_mentions_def
    using assms(2) by (intro same_graph_bind [OF assms(1)]) (auto simp: graph_names_apart_def seen)
qed

section \<open>Sweeping again\<close>

text \<open>A component that yields no suggestion is covered or has too few mentions.\<close>

lemma suggestion_for_None:
  assumes "suggestion_for it sha nd d sets c = Inr None"
  shows "component_covered c sets \<or> (\<exists>n < MIN_MENTIONS. count_component_mentions nd d c = Inr n)"
  using assms by (auto simp: suggestion_for_def res_bind_eq_Inr Let_def split: if_splits)

lemma suggestion_for_Some:
  assumes "suggestion_for it sha nd d sets c = Inr (Some s)"
  shows "\<not> component_covered c sets \<and> sg_fingerprint_ids s = sort (comp_fingerprint_ids c) \<and>
    sg_fingerprint_count s = length (comp_fingerprint_ids c) \<and> sg_edge_count s = card (comp_edge_ids c) \<and>
    count_component_mentions nd d c = Inr (sg_mention_count s) \<and> MIN_MENTIONS \<le> sg_mention_count s"
  using assms by (auto simp: suggestion_for_def res_bind_eq_Inr Let_def split: if_splits)

lemma fetch_each_ok:
  "fetch_each f xs = Inr ys \<Longrightarrow> (\<forall>x \<in> set xs. \<exists>r. f x = Inr r \<and> (\<forall>y. r = Some y \<longrightarrow> y \<in> set ys)) \<and>
     (\<forall>y \<in> set ys. \<exists>x \<in> set xs. f x = Inr (Some y))"
proof (induction xs arbitrary: ys)
  case (Cons x xs)
  then obtain r zs where r: "f x = Inr r" "fetch_each f xs = Inr zs" "ys = (case r of None \<Rightarrow> zs | Some y \<Rightarrow> y # zs)"
    by (auto simp: res_bind_eq_Inr)
  from Cons.IH [OF r(2)] r(1,3) show ?case by (cases r) auto
qed simp

lemma fetch_each_none: "(\<And>x. x \<in> set xs \<Longrightarrow> f x = Inr None) \<Longrightarrow> fetch_each f xs = Inr []"
  by (induction xs) auto

lemma component_covered_mono:
  "component_covered c sets \<Longrightarrow> set sets \<subseteq> set sets' \<Longrightarrow> component_covered c sets'"
  by (auto simp: component_covered_def list_ex_iff)

lemma list_suggested_cases:
  assumes "list_suggested_personas it sha nd d = Some (Inr sugs)"
  obtains ids sets comps raw where "load_all_fingerprint_ids nd d = Inr ids" "load_persona_seed_sets nd d = Inr sets"
    "find_components nd d ids {} = Some (Inr comps)" "fetch_each (suggestion_for it sha nd d sets) comps = Inr raw"
    "set sugs = set raw" "length sugs = length raw"
  using assms by (auto simp: list_suggested_personas_def obind_eq_Inr)

lemma find_components_size:
  "find_components nd d fps V = Some (Inr comps) \<Longrightarrow> c \<in> set comps \<Longrightarrow> MIN_FINGERPRINTS \<le> length (comp_fingerprint_ids c)"
  by (induction fps arbitrary: V comps) (auto simp: obind_eq_Inr split: if_splits prod.splits)

lemma suggestions_gated:
  assumes "list_suggested_personas it sha nd d = Some (Inr sugs)" "s \<in> set sugs"
  shows "MIN_FINGERPRINTS \<le> length (sg_fingerprint_ids s) \<and> MIN_MENTIONS \<le> sg_mention_count s \<and>
    sorted (sg_fingerprint_ids s) \<and>
    (\<forall>sets. load_persona_seed_sets nd d = Inr sets \<longrightarrow> (\<forall>S \<in> set sets. S \<noteq> {} \<longrightarrow> \<not> S \<subseteq> set (sg_fingerprint_ids s)))"
  using assms(1)
proof (rule list_suggested_cases)
  fix ids sets comps raw
  assume l: "load_persona_seed_sets nd d = Inr sets" "find_components nd d ids {} = Some (Inr comps)"
    "fetch_each (suggestion_for it sha nd d sets) comps = Inr raw" "set sugs = set raw"
  with assms(2) fetch_each_ok [OF l(3)] obtain c where c: "c \<in> set comps" "suggestion_for it sha nd d sets c = Inr (Some s)"
    by auto
  with suggestion_for_Some [OF c(2)] find_components_size [OF l(2) c(1)] l(1) show ?thesis
    by (auto simp: component_covered_def list_ex_iff)
qed

lemma record_seeds: "payload_strings (persona_record_fields pid n seeds als rel c now) ''seed_fingerprint_ids'' = seeds"
proof -
  have "List.map_filter as_str (map JStr xs) = xs" for xs by (induction xs) auto
  moreover have "persona_record_fields pid n seeds als rel c now ''seed_fingerprint_ids'' = Some (json_strings seeds)"
    by (simp add: persona_record_fields_def)
  ultimately show ?thesis by (simp add: payload_strings_def payload_array_def or_default_def json_strings_def)
qed

context persona_store
begin

lemma seed_set_row:
  assumes "row_of [''seed_fingerprint_ids''] m r"
  shows "seed_set_of r =
    (let S = set (payload_strings m ''seed_fingerprint_ids'') in if S = {} then None else Some S)"
proof -
  from assms obtain kvs where kvs: "r = JObj [(''fields'', JObj kvs)]" "map_of kvs = m |` {''seed_fingerprint_ids''}"
    by (auto simp: row_of_def)
  have "payload_strings (map_of kvs) ''seed_fingerprint_ids'' = payload_strings m ''seed_fingerprint_ids''"
    by (simp add: payload_strings_def payload_array_def kvs(2))
  then show ?thesis by (simp add: seed_set_of_def kvs(1) string_array_field_payload)
qed

lemma seed_sets_view:
  assumes "load_persona_seed_sets nd d = Inr sets"
  shows "set sets = {S. S \<noteq> {} \<and> (\<exists>k m. view d k = Some m \<and> S = set (payload_strings m ''seed_fingerprint_ids''))}"
proof -
  from assms obtain rs where rs: "query_db nd d (simple_query ps [''seed_fingerprint_ids''] None) = Inr rs"
    and sets: "sets = List.map_filter seed_set_of rs"
    by (auto simp: load_persona_seed_sets_def canonical_ok res_bind_eq_Inr)
  from scan_query_ok [OF rs] obtain ks where ks: "set ks = dom (view d)"
      "list_all2 (\<lambda>k r. row_of [''seed_fingerprint_ids''] (the (view d k)) r) ks rs"
    by blast
  have "set (List.map_filter seed_set_of rs) =
      {S. S \<noteq> {} \<and> (\<exists>k \<in> set ks. S = set (payload_strings (the (view d k)) ''seed_fingerprint_ids''))}"
    using ks(2)
  proof (induction rule: list_all2_induct)
    case (Cons k ks r rs)
    show ?case using Cons.IH by (auto simp: seed_set_row [OF Cons.hyps(1)] Let_def)
  qed simp
  also have "\<dots> = {S. S \<noteq> {} \<and> (\<exists>k m. view d k = Some m \<and> S = set (payload_strings m ''seed_fingerprint_ids''))}"
  proof -
    have dom_ex: "(\<exists>k \<in> dom f. P (the (f k))) \<longleftrightarrow> (\<exists>k m. f k = Some m \<and> P m)" for f :: "string \<Rightarrow> payload option" and P
      by (auto simp: dom_def) force
    show ?thesis unfolding ks(1)
      using dom_ex [of "view d" "\<lambda>m. S = set (payload_strings m ''seed_fingerprint_ids'')" for S] by (intro Collect_cong) blast
  qed
  finally show ?thesis unfolding sets .
qed

lemma create_each_count: "fst (create_each nd c now pairs d n) \<le> n + length pairs"
proof (induction pairs arbitrary: d n)
  case (Cons su pairs)
  obtain sug u where su: "su = (sug, u)" by (cases su)
  obtain r d1 where mut: "mutate_db nd d c (build_tentative_persona_fields (''ps_auto_'' @ u) (sg_name sug) (sg_fingerprint_ids sug) now)
      (Some (''ps_auto_'' @ u), None) Create = (r, d1)"
    by (metis surj_pair)
  show ?case
    using Cons.IH [of d1 n] Cons.IH [of d1 "Suc n"] mut by (cases r) (simp_all add: su)
qed simp

text \<open>When every creation succeeded, every persona is there and the graph is as it was.\<close>

lemma create_each_all:
  assumes "create_each nd ps now pairs d n = (n + length pairs, d')"
    and "distinct (map snd pairs)" "\<And>u. u \<in> set (map snd pairs) \<Longrightarrow> view d (''ps_auto_'' @ u) = None"
  shows "same_graph nd ps d d' \<and> (\<forall>k m. view d k = Some m \<longrightarrow> view d' k = Some m) \<and>
    (\<forall>(sug, u) \<in> set pairs. view d' (''ps_auto_'' @ u) =
       Some (build_tentative_persona_fields (''ps_auto_'' @ u) (sg_name sug) (sg_fingerprint_ids sug) now))"
  using assms
proof (induction pairs arbitrary: d n)
  case Nil
  then show ?case by (simp add: same_graph_def)
next
  case (Cons su pairs)
  obtain sug u where su: "su = (sug, u)" by (cases su)
  let ?pid = "''ps_auto_'' @ u"
  let ?m = "build_tentative_persona_fields ?pid (sg_name sug) (sg_fingerprint_ids sug) now"
  obtain r d1 where mut: "mutate_db nd d ps ?m (Some ?pid, None) Create = (r, d1)" by (cases "mutate_db nd d ps ?m (Some ?pid, None) Create")
  have ok: "\<exists>i. r = Inr i"
  proof (cases r)
    case (Inl e)
    with Cons.prems(1) su mut have "create_each nd ps now pairs d1 n = (Suc (n + length pairs), d')" by simp
    with create_each_count [of ps now pairs d1 n] show ?thesis by simp
  qed auto
  with mut obtain i where mut': "mutate_db nd d ps ?m (Some ?pid, None) Create = (Inr i, d1)" by blast
  have v1: "view d1 = (view d)(?pid \<mapsto> ?m)" by (rule create_ok [OF mut']) (use Cons.prems(3) su in simp)
  have sg: "same_graph nd ps d d1" using other_schemas [OF mut'] by (simp add: same_graph_def)
  have rest: "create_each nd ps now pairs d1 (Suc n) = (Suc n + length pairs, d')"
    using Cons.prems(1) su mut' by simp
  have "view d1 (''ps_auto_'' @ v) = None" if "v \<in> set (map snd pairs)" for v
    using that Cons.prems(2,3) su v1 by auto
  with Cons.IH [OF rest] Cons.prems(2) have IH: "same_graph nd ps d1 d'" "\<And>k m. view d1 k = Some m \<Longrightarrow> view d' k = Some m"
      "\<forall>(sug, u) \<in> set pairs. view d' (''ps_auto_'' @ u) =
       Some (build_tentative_persona_fields (''ps_auto_'' @ u) (sg_name sug) (sg_fingerprint_ids sug) now)"
    by auto
  have "view d' k = Some m" if "view d k = Some m" for k m
  proof -
    have "view d ?pid = None" using Cons.prems(3) su by simp
    with that have "view d1 k = Some m" by (auto simp: v1)
    then show ?thesis by (rule IH(2))
  qed
  moreover have "view d' ?pid = Some ?m" using IH(2) v1 by simp
  ultimately show ?case using same_graph_trans [OF sg IH(1)] IH(3) su by auto
qed

lemma sweep_again:
  assumes first: "list_suggested_personas it sha nd d = Some (Inr sugs)" and apart: "graph_names_apart nd ps"
    and made: "create_each nd ps now (zip sugs us) d 0 = (length sugs, d')" and len: "length us = length sugs"
    and fresh: "distinct us" "\<And>u. u \<in> set us \<Longrightarrow> view d (''ps_auto_'' @ u) = None"
    and scan: "load_persona_seed_sets nd d' = Inr sets'"
  shows "list_suggested_personas it sha nd d' = Some (Inr [])"
  using first
proof (rule list_suggested_cases)
  fix ids sets comps raw
  assume l: "load_all_fingerprint_ids nd d = Inr ids" "load_persona_seed_sets nd d = Inr sets"
    "find_components nd d ids {} = Some (Inr comps)" "fetch_each (suggestion_for it sha nd d sets) comps = Inr raw"
    "set sugs = set raw"
  have made': "same_graph nd ps d d'" "\<And>k m. view d k = Some m \<Longrightarrow> view d' k = Some m"
      "\<And>sug u. (sug, u) \<in> set (zip sugs us) \<Longrightarrow> view d' (''ps_auto_'' @ u) =
       Some (build_tentative_persona_fields (''ps_auto_'' @ u) (sg_name sug) (sg_fingerprint_ids sug) now)"
    using create_each_all [of now "zip sugs us" d 0 d'] made len fresh by auto
  note frame = frame_load_ids [OF made'(1) apart] frame_components [OF made'(1) apart] frame_mention_count [OF made'(1) apart]
  have mono: "set sets \<subseteq> set sets'"
  proof
    fix S assume "S \<in> set sets"
    then obtain k m where "S \<noteq> {}" "view d k = Some m" "S = set (payload_strings m ''seed_fingerprint_ids'')"
      unfolding seed_sets_view [OF l(2)] by auto
    with made'(2) show "S \<in> set sets'" unfolding seed_sets_view [OF scan] by auto
  qed
  have none: "suggestion_for it sha nd d' sets' c = Inr None" if c: "c \<in> set comps" for c
  proof -
    from fetch_each_ok [OF l(4)] c obtain r where r: "suggestion_for it sha nd d sets c = Inr r"
        "\<And>y. r = Some y \<Longrightarrow> y \<in> set raw" by blast
    show ?thesis
    proof (cases r)
      case None
      with r suggestion_for_None [of it sha nd d sets c] component_covered_mono [OF _ mono, of c] show ?thesis
        by (auto simp: suggestion_for_def frame(3))
    next
      case (Some s)
      with r l(5) obtain u where u: "(s, u) \<in> set (zip sugs us)"
        using len by (metis in_set_impl_in_set_zip1)
      have fps: "sg_fingerprint_ids s = sort (comp_fingerprint_ids c)"
        using suggestion_for_Some [of it sha nd d sets c s] r Some by simp
      have "comp_fingerprint_ids c \<noteq> []" using find_components_size [OF l(3) c] by (auto simp: MIN_FINGERPRINTS_def)
      moreover have "set (payload_strings (build_tentative_persona_fields (''ps_auto_'' @ u) (sg_name s) (sg_fingerprint_ids s) now)
          ''seed_fingerprint_ids'') = set (comp_fingerprint_ids c)"
        by (simp add: build_tentative_persona_fields_def record_seeds fps)
      ultimately have "set (comp_fingerprint_ids c) \<in> set sets'"
        unfolding seed_sets_view [OF scan] using made'(3) [OF u] by fastforce
      then have "component_covered c sets'"
        using \<open>comp_fingerprint_ids c \<noteq> []\<close> by (auto simp: component_covered_def list_ex_iff)
      then show ?thesis by (simp add: suggestion_for_def)
    qed
  qed
  have "fetch_each (suggestion_for it sha nd d' sets') comps = Inr []" by (rule fetch_each_none [OF none])
  then show ?thesis
    by (simp add: list_suggested_personas_def frame l scan)
qed

end

end
