(* ===== verification/Components.thy ===== *)
theory Components
  imports Suggestions Resolver_Correct
begin

text \<open>
  The component walk of the sweep, on a graph whose lookups do not fail: it returns on
  every finite graph, and starting from a closed set of visited fingerprints it collects
  exactly the connected component of its start over strong edges and leaves the visited
  set closed again.
\<close>

section \<open>Strong links\<close>

definition sg_graph :: "'d fp_node \<Rightarrow> 'd \<Rightarrow> fp_graph \<Rightarrow> bool" where
  "sg_graph nd d G \<longleftrightarrow>
     (\<forall>fp. sg_edge_ids_touching nd d fp = Inr (g_edges G fp)) \<and>
     (\<forall>e. fetch_edge_endpoints nd d e =
        Inr (map_option (\<lambda>ed. (edge_a ed, edge_b ed, edge_kind ed, edge_weight ed)) (g_edge G e)))"

definition strong :: "fp_graph \<Rightarrow> string \<Rightarrow> bool" where
  "strong G e \<longleftrightarrow> (\<exists>ed. g_edge G e = Some ed \<and> edge_kind ed \<noteq> USER_FORBIDDEN \<and>
     \<not> fl_lt (edge_weight ed) MIN_EDGE_WEIGHT)"

definition far_end :: "fp_graph \<Rightarrow> string \<Rightarrow> string \<Rightarrow> string" where
  "far_end G fp e = (let ed = the (g_edge G e) in if edge_a ed = fp then edge_b ed else edge_a ed)"

definition slinked :: "fp_graph \<Rightarrow> string \<Rightarrow> string \<Rightarrow> bool" where
  "slinked G fp x \<longleftrightarrow> (\<exists>e \<in> set (g_edges G fp). strong G e \<and> x = far_end G fp e)"

text \<open>The junction lists every edge it knows under both of its endpoints.\<close>

definition junction_complete :: "fp_graph \<Rightarrow> bool" where
  "junction_complete G \<longleftrightarrow> (\<forall>fp e ed. e \<in> set (g_edges G fp) \<longrightarrow> g_edge G e = Some ed \<longrightarrow>
     e \<in> set (g_edges G (edge_a ed)) \<and> e \<in> set (g_edges G (edge_b ed)))"

lemma slinked_sym:
  assumes "junction_ok G" "junction_complete G" "slinked G a b"
  shows "slinked G b a"
proof -
  from assms(3) obtain e where e: "e \<in> set (g_edges G a)" "strong G e" "b = far_end G a e" by (auto simp: slinked_def)
  then obtain ed where ed: "g_edge G e = Some ed" by (auto simp: strong_def)
  have ends: "edge_a ed = a \<or> edge_b ed = a" using assms(1) e(1) ed unfolding junction_ok_def by blast
  have "e \<in> set (g_edges G b)"
    using assms(2) e ed unfolding junction_complete_def far_end_def by (auto simp: Let_def split: if_splits)
  moreover have "a = far_end G b e" using ends e(3) ed by (auto simp: far_end_def Let_def split: if_splits)
  ultimately show ?thesis using e(2) by (auto simp: slinked_def)
qed

definition link_closed :: "fp_graph \<Rightarrow> string set \<Rightarrow> bool" where
  "link_closed G V \<longleftrightarrow> (\<forall>x \<in> V. \<forall>y. slinked G x y \<longrightarrow> y \<in> V)"

section \<open>The rows of one fingerprint\<close>

definition cedge :: "fp_graph \<Rightarrow> string \<Rightarrow> string \<Rightarrow> comp_walk \<Rightarrow> comp_walk" where
  "cedge G fp e s =
     (if e \<in> comp_edge_ids (cw_comp s) \<or> \<not> strong G e then s
      else s\<lparr>cw_comp := (cw_comp s)\<lparr>comp_edge_ids := insert e (comp_edge_ids (cw_comp s))\<rparr>,
             cw_queue := (if far_end G fp e \<notin> cw_visited s then far_end G fp e # cw_queue s else cw_queue s)\<rparr>)"

lemma comp_edges_fold:
  assumes "sg_graph nd d G"
  shows "comp_edges nd d fp es s = Inr (fold (cedge G fp) es s)"
proof (induction es arbitrary: s)
  case (Cons e es)
  have "comp_edge nd d fp e s = Inr (cedge G fp e s)"
    using assms by (cases "g_edge G e") (auto simp: comp_edge_def cedge_def sg_graph_def strong_def far_end_def Let_def)
  with Cons.IH show ?case by simp
qed simp

lemma cedge_simps [simp]:
  "cw_visited (cedge G fp e s) = cw_visited s"
  "comp_fingerprint_ids (cw_comp (cedge G fp e s)) = comp_fingerprint_ids (cw_comp s)"
  "comp_edge_ids (cw_comp (cedge G fp e s)) = comp_edge_ids (cw_comp s) \<union> {x. x = e \<and> strong G e}"
  by (auto simp: cedge_def)

lemma cedge_queue:
  "set (cw_queue (cedge G fp e s)) = set (cw_queue s) \<union>
     {x. e \<notin> comp_edge_ids (cw_comp s) \<and> strong G e \<and> x = far_end G fp e \<and> x \<notin> cw_visited s}"
  by (auto simp: cedge_def)

lemma fold_cedge:
  "cw_visited (fold (cedge G fp) es s) = cw_visited s \<and>
   comp_fingerprint_ids (cw_comp (fold (cedge G fp) es s)) = comp_fingerprint_ids (cw_comp s) \<and>
   comp_edge_ids (cw_comp (fold (cedge G fp) es s)) = comp_edge_ids (cw_comp s) \<union> {e \<in> set es. strong G e}"
  by (induction es arbitrary: s) auto

lemmas fold_cedge_simps [simp] = fold_cedge [THEN conjunct1] fold_cedge [THEN conjunct2, THEN conjunct1]
  fold_cedge [THEN conjunct2, THEN conjunct2]

lemma fold_cedge_queue:
  "set (cw_queue (fold (cedge G fp) es s)) = set (cw_queue s) \<union>
     {x. \<exists>e \<in> set es. e \<notin> comp_edge_ids (cw_comp s) \<and> strong G e \<and> x = far_end G fp e \<and> x \<notin> cw_visited s}"
proof (induction es arbitrary: s)
  case (Cons e es)
  show ?case unfolding fold_Cons comp_apply Cons.IH cedge_queue by auto
qed simp

lemma fold_cedge_measure:
  assumes "finite E" "set es \<subseteq> E"
  shows "length (cw_queue (fold (cedge G fp) es s)) + card (E - comp_edge_ids (cw_comp (fold (cedge G fp) es s)))
     \<le> length (cw_queue s) + card (E - comp_edge_ids (cw_comp s))"
  using assms(2)
proof (induction es arbitrary: s)
  case (Cons e es)
  let ?s = "cedge G fp e s"
  have "length (cw_queue (fold (cedge G fp) es ?s)) + card (E - comp_edge_ids (cw_comp (fold (cedge G fp) es ?s)))
      \<le> length (cw_queue ?s) + card (E - comp_edge_ids (cw_comp ?s))"
    using Cons.prems by (intro Cons.IH) auto
  also have "\<dots> \<le> length (cw_queue s) + card (E - comp_edge_ids (cw_comp s))"
  proof (cases "e \<in> comp_edge_ids (cw_comp s) \<or> \<not> strong G e")
    case True
    then show ?thesis by (simp add: cedge_def)
  next
    case False
    have "card (E - insert e (comp_edge_ids (cw_comp s))) < card (E - comp_edge_ids (cw_comp s))"
      using False Cons.prems assms(1) by (intro psubset_card_mono) auto
    with False show ?thesis by (simp add: cedge_def)
  qed
  finally show ?case by simp
qed simp

section \<open>The walk\<close>

definition cw_covers :: "comp_walk \<Rightarrow> string set" where
  "cw_covers s = cw_visited s \<union> set (cw_queue s)"

definition comp_inv :: "fp_graph \<Rightarrow> string \<Rightarrow> string set \<Rightarrow> comp_walk \<Rightarrow> bool" where
  "comp_inv G start V0 s \<longleftrightarrow>
     (let F = comp_fingerprint_ids (cw_comp s) in
      cw_visited s = V0 \<union> set F \<and> distinct F \<and> set F \<inter> V0 = {} \<and>
      (\<forall>x \<in> set F \<union> set (cw_queue s). (slinked G)\<^sup>*\<^sup>* start x) \<and>
      comp_edge_ids (cw_comp s) = {e. \<exists>fp \<in> set F. e \<in> set (g_edges G fp) \<and> strong G e} \<and>
      (\<forall>fp \<in> set F. \<forall>x. slinked G fp x \<longrightarrow> x \<in> cw_covers s) \<and> start \<in> cw_covers s)"

definition visit_comp :: "fp_graph \<Rightarrow> string \<Rightarrow> comp_walk \<Rightarrow> comp_walk" where
  "visit_comp G fp s = fold (cedge G fp) (g_edges G fp)
     (s\<lparr>cw_queue := tl (cw_queue s), cw_visited := insert fp (cw_visited s),
        cw_comp := (cw_comp s)\<lparr>comp_fingerprint_ids := comp_fingerprint_ids (cw_comp s) @ [fp]\<rparr>\<rparr>)"

lemma comp_step_effect:
  assumes "sg_graph nd d G" "cw_queue s = fp # rest"
  shows "comp_step nd d s = Inr (if fp \<in> cw_visited s then s\<lparr>cw_queue := rest\<rparr> else visit_comp G fp s)"
  using assms comp_edges_fold [OF assms(1)]
  by (simp add: comp_step_def visit_comp_def sg_graph_def Let_def)

lemma used_far_end:
  assumes "junction_ok G" "e \<in> set (g_edges G fp)" "e \<in> set (g_edges G fp')" "fp \<noteq> fp'" "strong G e"
  shows "far_end G fp e = fp'"
proof -
  from assms(5) obtain ed where ed: "g_edge G e = Some ed" by (auto simp: strong_def)
  have "edge_a ed = fp \<or> edge_b ed = fp" "edge_a ed = fp' \<or> edge_b ed = fp'"
    using assms(1-3) ed unfolding junction_ok_def by blast+
  with assms(4) ed show ?thesis by (auto simp: far_end_def)
qed

lemma comp_inv_visit:
  assumes inv: "comp_inv G start V0 s" and q: "cw_queue s = fp # rest" and new: "fp \<notin> cw_visited s" and jn: "junction_ok G"
  shows "comp_inv G start V0 (visit_comp G fp s)"
proof -
  let ?F = "comp_fingerprint_ids (cw_comp s)" and ?t = "visit_comp G fp s"
  note i = inv [unfolded comp_inv_def Let_def]
  have F: "comp_fingerprint_ids (cw_comp ?t) = ?F @ [fp]" "cw_visited ?t = insert fp (cw_visited s)"
      "comp_edge_ids (cw_comp ?t) = comp_edge_ids (cw_comp s) \<union> {e \<in> set (g_edges G fp). strong G e}"
    by (simp_all add: visit_comp_def)
  have queue: "set (cw_queue ?t) = set rest \<union> {x. \<exists>e \<in> set (g_edges G fp). e \<notin> comp_edge_ids (cw_comp s) \<and>
      strong G e \<and> x = far_end G fp e \<and> x \<notin> insert fp (cw_visited s)}"
    by (simp add: visit_comp_def fold_cedge_queue q)
  have fp: "(slinked G)\<^sup>*\<^sup>* start fp" using i q by simp
  have reach: "(slinked G)\<^sup>*\<^sup>* start x" if "x \<in> set (cw_queue ?t)" for x
  proof (cases "x \<in> set rest")
    case False
    with that queue have "slinked G fp x" by (auto simp: slinked_def)
    with fp show ?thesis by simp
  qed (use i q in simp)
  have covers: "cw_covers s \<subseteq> cw_covers ?t" using q queue F(2) by (auto simp: cw_covers_def)
  have pushed: "x \<in> cw_covers ?t" if "slinked G fp x" for x
  proof -
    from that obtain e where e: "e \<in> set (g_edges G fp)" "strong G e" "x = far_end G fp e" by (auto simp: slinked_def)
    show ?thesis
    proof (cases "e \<in> comp_edge_ids (cw_comp s)")
      case True
      with i obtain fp' where "fp' \<in> set ?F" "e \<in> set (g_edges G fp')" by auto
      moreover from this(1) i new have "fp \<noteq> fp'" by auto
      ultimately have "x = fp'" "fp' \<in> cw_visited s" using used_far_end [OF jn e(1) _ _ e(2)] e(3) i by auto
      then show ?thesis by (simp add: cw_covers_def F)
    next
      case False
      then show ?thesis
        using e queue F(2) unfolding cw_covers_def by blast
    qed
  qed
  have "cw_visited ?t = V0 \<union> set (?F @ [fp])" "distinct (?F @ [fp])" "set (?F @ [fp]) \<inter> V0 = {}"
    using i new F(2) by auto
  moreover have "\<forall>x \<in> set (?F @ [fp]) \<union> set (cw_queue ?t). (slinked G)\<^sup>*\<^sup>* start x" using i reach fp by auto
  moreover have "comp_edge_ids (cw_comp ?t) = {e. \<exists>fp \<in> set (?F @ [fp]). e \<in> set (g_edges G fp) \<and> strong G e}"
    unfolding F(3) using i by auto
  moreover have "\<forall>fp' \<in> set (?F @ [fp]). \<forall>x. slinked G fp' x \<longrightarrow> x \<in> cw_covers ?t" using i pushed covers by auto
  moreover have "start \<in> cw_covers ?t" using i covers by auto
  ultimately show ?thesis unfolding comp_inv_def Let_def F(1) by blast
qed

lemma comp_inv_skip:
  assumes inv: "comp_inv G start V0 s" and q: "cw_queue s = fp # rest" "fp \<in> cw_visited s"
  shows "comp_inv G start V0 (s\<lparr>cw_queue := rest\<rparr>)"
proof -
  have "cw_covers (s\<lparr>cw_queue := rest\<rparr>) = cw_covers s" using q by (auto simp: cw_covers_def)
  then show ?thesis using inv q(1) unfolding comp_inv_def Let_def by simp
qed

definition comp_measure :: "fp_graph \<Rightarrow> comp_walk \<Rightarrow> nat" where
  "comp_measure G s = length (cw_queue s) + card ((\<Union>fp. set (g_edges G fp)) - comp_edge_ids (cw_comp s))"

lemma comp_step_keeps:
  assumes G: "sg_graph nd d G" "junction_ok G" "finite_graph G" and inv: "comp_inv G start V0 s"
    and q: "cw_queue s \<noteq> []" and step: "comp_step nd d s = Inr s'"
  shows "comp_inv G start V0 s' \<and> comp_measure G s' < comp_measure G s"
proof -
  from q obtain fp rest where q: "cw_queue s = fp # rest" by (cases "cw_queue s") auto
  note s' = step [unfolded comp_step_effect [OF G(1) q] sum.inject]
  show ?thesis
  proof (cases "fp \<in> cw_visited s")
    case True
    with s' comp_inv_skip [OF inv q] q show ?thesis by (auto simp: comp_measure_def)
  next
    case False
    let ?p = "s\<lparr>cw_queue := tl (cw_queue s), cw_visited := insert fp (cw_visited s),
       cw_comp := (cw_comp s)\<lparr>comp_fingerprint_ids := comp_fingerprint_ids (cw_comp s) @ [fp]\<rparr>\<rparr>"
    have "comp_measure G (visit_comp G fp s) \<le> comp_measure G ?p"
      unfolding comp_measure_def visit_comp_def
      by (rule fold_cedge_measure) (use G(3) in \<open>auto simp: finite_graph_def\<close>)
    also have "\<dots> < comp_measure G s" using q by (simp add: comp_measure_def)
    finally have "comp_measure G (visit_comp G fp s) < comp_measure G s" .
    with False s' comp_inv_visit [OF inv q False G(2)] show ?thesis by auto
  qed
qed

lemma walk_component_ok:
  assumes G: "sg_graph nd d G" "junction_ok G" "finite_graph G" and start: "start \<notin> V0"
  shows "\<exists>c V. walk_component nd d start V0 = Some (Inr (c, V)) \<and>
    (\<exists>s. comp_inv G start V0 s \<and> cw_queue s = [] \<and> c = cw_comp s \<and> V = cw_visited s)"
proof -
  let ?s = "\<lparr>cw_queue = [start], cw_visited = V0, cw_comp = \<lparr>comp_fingerprint_ids = [], comp_edge_ids = {}\<rparr>\<rparr>"
  have init: "comp_inv G start V0 ?s" by (simp add: comp_inv_def cw_covers_def)
  have noerr: "comp_step nd d t \<noteq> Inl e" if "cw_queue t \<noteq> []" for t e
    using that comp_step_effect [OF G(1)] by (cases "cw_queue t") auto
  have "(\<exists>t. loop_until (\<lambda>s. cw_queue s = []) (comp_step nd d) ?s = Some (Inr t) \<and> comp_inv G start V0 t \<and> cw_queue t = []) \<or>
        (\<exists>e t. loop_until (\<lambda>s. cw_queue s = []) (comp_step nd d) ?s = Some (Inl e) \<and> comp_inv G start V0 t \<and>
           cw_queue t \<noteq> [] \<and> comp_step nd d t = Inl e)"
    by (rule loop_until_total [where m = "comp_measure G"]) (use init comp_step_keeps [OF G] in auto)
  with noerr show ?thesis by (auto simp: walk_component_def)
qed

lemma comp_done:
  assumes inv: "comp_inv G start V0 s" "cw_queue s = []" and G: "junction_ok G" "junction_complete G"
    and V0: "link_closed G V0" "start \<notin> V0"
  shows "set (comp_fingerprint_ids (cw_comp s)) = {x. (slinked G)\<^sup>*\<^sup>* start x}" "link_closed G (cw_visited s)"
proof -
  let ?F = "comp_fingerprint_ids (cw_comp s)"
  note i = inv(1) [unfolded comp_inv_def Let_def cw_covers_def]
  have out: "y \<notin> V0" if "slinked G x y" "x \<notin> V0" for x y
    using slinked_sym [OF G that(1)] that(2) V0(1) unfolding link_closed_def by blast
  have "x \<in> set ?F" if "(slinked G)\<^sup>*\<^sup>* start x" for x
    using that
  proof induction
    case base
    show ?case using i inv(2) V0(2) by auto
  next
    case (step y z)
    then have "y \<notin> V0" "z \<in> cw_visited s" using i inv(2) by auto
    with out [OF step.hyps(2)] i show ?case by auto
  qed
  with i show "set ?F = {x. (slinked G)\<^sup>*\<^sup>* start x}" by auto
  show "link_closed G (cw_visited s)"
    using i inv(2) V0(1) unfolding link_closed_def by auto
qed

lemma walk_component_spec:
  assumes G: "sg_graph nd d G" "junction_ok G" "junction_complete G" "finite_graph G"
    and V0: "link_closed G V0" "start \<notin> V0"
  shows "\<exists>c. walk_component nd d start V0 = Some (Inr (c, V0 \<union> {x. (slinked G)\<^sup>*\<^sup>* start x})) \<and>
    set (comp_fingerprint_ids c) = {x. (slinked G)\<^sup>*\<^sup>* start x} \<and> distinct (comp_fingerprint_ids c) \<and>
    link_closed G (V0 \<union> {x. (slinked G)\<^sup>*\<^sup>* start x})"
proof -
  obtain s where s: "walk_component nd d start V0 = Some (Inr (cw_comp s, cw_visited s))"
      "comp_inv G start V0 s" "cw_queue s = []"
    using walk_component_ok [OF G(1,2,4) V0(2)] by blast
  note final = comp_done [OF s(2,3) G(2,3) V0]
  have "cw_visited s = V0 \<union> set (comp_fingerprint_ids (cw_comp s))" "distinct (comp_fingerprint_ids (cw_comp s))"
    using s(2) by (auto simp: comp_inv_def Let_def)
  with s(1) final show ?thesis by auto
qed

text \<open>The sweep finds each large component once, from its first fingerprint in scan order.\<close>

lemma find_components_spec:
  assumes G: "sg_graph nd d G" "junction_ok G" "junction_complete G" "finite_graph G" and V: "link_closed G V"
  shows "\<exists>comps. find_components nd d fps V = Some (Inr comps) \<and>
    (\<forall>c \<in> set comps. distinct (comp_fingerprint_ids c) \<and> MIN_FINGERPRINTS \<le> length (comp_fingerprint_ids c) \<and>
       (\<exists>start \<in> set fps. set (comp_fingerprint_ids c) = {x. (slinked G)\<^sup>*\<^sup>* start x})) \<and>
    (\<forall>fp \<in> set fps - V. MIN_FINGERPRINTS \<le> card {x. (slinked G)\<^sup>*\<^sup>* fp x} \<longrightarrow>
       (\<exists>c \<in> set comps. fp \<in> set (comp_fingerprint_ids c)))"
  using V
proof (induction fps arbitrary: V)
  case (Cons fp fps)
  show ?case
  proof (cases "fp \<in> V")
    case True
    with Cons.IH [OF Cons.prems] show ?thesis by auto
  next
    case False
    let ?C = "{x. (slinked G)\<^sup>*\<^sup>* fp x}"
    obtain c where c: "walk_component nd d fp V = Some (Inr (c, V \<union> ?C))" "set (comp_fingerprint_ids c) = ?C"
        "distinct (comp_fingerprint_ids c)" "link_closed G (V \<union> ?C)"
      using walk_component_spec [OF G Cons.prems False] by blast
    obtain comps where comps: "find_components nd d fps (V \<union> ?C) = Some (Inr comps)"
      "\<forall>c \<in> set comps. distinct (comp_fingerprint_ids c) \<and> MIN_FINGERPRINTS \<le> length (comp_fingerprint_ids c) \<and>
       (\<exists>start \<in> set fps. set (comp_fingerprint_ids c) = {x. (slinked G)\<^sup>*\<^sup>* start x})"
      "\<forall>x \<in> set fps - (V \<union> ?C). MIN_FINGERPRINTS \<le> card {y. (slinked G)\<^sup>*\<^sup>* x y} \<longrightarrow>
       (\<exists>c \<in> set comps. x \<in> set (comp_fingerprint_ids c))"
      using Cons.IH [OF c(4)] by blast
    let ?all = "if MIN_FINGERPRINTS \<le> length (comp_fingerprint_ids c) then c # comps else comps"
    have size: "length (comp_fingerprint_ids c) = card ?C" using c(2,3) distinct_card by fastforce
    have same: "{y. (slinked G)\<^sup>*\<^sup>* x y} = ?C" if "x \<in> ?C" for x
    proof -
      have "symp (slinked G)" using slinked_sym [OF G(2,3)] by (auto intro: sympI)
      then have "(slinked G)\<^sup>*\<^sup>* x fp" using that by (metis mem_Collect_eq symp_rtranclp sympD)
      with that show ?thesis by auto
    qed
    have "find_components nd d (fp # fps) V = Some (Inr ?all)" using False c(1) comps(1) by simp
    moreover have "\<exists>c \<in> set ?all. x \<in> set (comp_fingerprint_ids c)"
      if "x \<in> set (fp # fps) - V" "MIN_FINGERPRINTS \<le> card {y. (slinked G)\<^sup>*\<^sup>* x y}" for x
    proof (cases "x \<in> ?C")
      case True
      have "MIN_FINGERPRINTS \<le> length (comp_fingerprint_ids c)"
        using that(2) unfolding same [OF True] size .
      moreover have "x \<in> set (comp_fingerprint_ids c)" unfolding c(2) by (rule True)
      ultimately show ?thesis by simp
    next
      case False
      then have "x \<noteq> fp" by auto
      with that False comps(3) show ?thesis by auto
    qed
    moreover have "\<forall>c' \<in> set ?all. distinct (comp_fingerprint_ids c') \<and> MIN_FINGERPRINTS \<le> length (comp_fingerprint_ids c') \<and>
       (\<exists>start \<in> set (fp # fps). set (comp_fingerprint_ids c') = {x. (slinked G)\<^sup>*\<^sup>* start x})"
    proof
      fix c'
      assume "c' \<in> set ?all"
      then consider "c' \<in> set comps" | "c' = c" "MIN_FINGERPRINTS \<le> length (comp_fingerprint_ids c)"
        by (auto split: if_splits)
      then show "distinct (comp_fingerprint_ids c') \<and> MIN_FINGERPRINTS \<le> length (comp_fingerprint_ids c') \<and>
          (\<exists>start \<in> set (fp # fps). set (comp_fingerprint_ids c') = {x. (slinked G)\<^sup>*\<^sup>* start x})"
      proof cases
        case 1
        then show ?thesis using comps(2) by simp
      next
        case 2
        then show ?thesis using c(2,3) by simp
      qed
    qed
    ultimately show ?thesis by blast
  qed
qed simp

end
