(* ===== verification/Served_Graph.thy ===== *)
theory Served_Graph
  imports Resolver_Correct
begin

text \<open>
  An engine that serves a given fingerprint graph: the records it returns have the
  \<^verbatim>\<open>fields\<close> envelope the lookups unpack. It shows that \<open>env_graph\<close> can hold, for every
  graph whose weights are \<^verbatim>\<open>f32\<close> values, and gives the concrete persona graphs below.
\<close>

definition fields_record :: "(string \<times> json) list \<Rightarrow> json" where
  "fields_record kvs = JObj [(''fields'', JObj kvs)]"

definition edge_record :: "resolved_edge \<Rightarrow> json" where
  "edge_record e = fields_record [(''id'', JStr (edge_rid e)), (''a'', JStr (edge_a e)),
     (''b'', JStr (edge_b e)), (''kind'', JStr (edge_kind e)), (''weight'', JNum (edge_weight e))]"

definition serve_graph :: "fp_graph \<Rightarrow> query_engine" where
  "serve_graph G q =
     (case key_filter q of
        Some (HashKey k) \<Rightarrow>
          Inr (if schema_name q = ''fp'' then
                 (if g_exists G k then [fields_record [(''id'', JStr k)]] else [])
               else if schema_name q = ''edge_by_fp'' then
                 map (\<lambda>e. fields_record [(''edge_id'', JStr e)]) (g_edges G k)
               else if schema_name q = ''mention_by_fp'' then
                 map (\<lambda>m. fields_record [(''mention_id'', JStr m)]) (g_mentions G k)
               else if schema_name q = ''edge'' then
                 (case g_edge G k of None \<Rightarrow> [] | Some e \<Rightarrow> [edge_record e])
               else [])
      | None \<Rightarrow> Inr (if schema_name q = ''fp'' then map (\<lambda>i. fields_record [(''id'', JStr i)]) (g_ids G) else []))"

definition served_env :: "fp_graph \<Rightarrow> fp_env" where
  "served_env G = \<lparr>
     FINGERPRINT = ''Fingerprint'', EDGE = ''Edge'', MENTION = ''Mention'', EDGE_BY_FINGERPRINT = ''EdgeByFingerprint'',
     MENTION_BY_FINGERPRINT = ''MentionByFingerprint'', PERSONA = ''Persona'',
     registry = Some [''Fingerprint'' \<mapsto> ''fp'', ''Edge'' \<mapsto> ''edge'', ''EdgeByFingerprint'' \<mapsto> ''edge_by_fp'',
       ''MentionByFingerprint'' \<mapsto> ''mention_by_fp'', ''Mention'' \<mapsto> ''mention'', ''Persona'' \<mapsto> ''persona''],
     engine = serve_graph G\<rparr>"

definition f32_weights :: "fp_graph \<Rightarrow> bool" where
  "f32_weights G \<longleftrightarrow> (\<forall>e edge. g_edge G e = Some edge \<longrightarrow> as_f32 (edge_weight edge) = edge_weight edge)"

lemmas served_defs = served_env_def serve_graph_def env_lookup_def lookup_name_def cn_get_def
  key_query_def simple_query_def fields_record_def edge_record_def

lemma map_filter_fields:
  "List.map_filter (\<lambda>r. extract_string_field r f) (map (\<lambda>x. JObj [(''fields'', JObj [(f, JStr x)])]) xs) = xs"
  by (induction xs) (auto simp: List.map_filter_def extract_string_field_def)

lemma served_env_graph:
  assumes "f32_weights G"
  shows "env_graph (served_env G) G"
proof -
  have "fetch_edge (served_env G) e = Inr (g_edge G e)" for e
    using assms
    by (cases "g_edge G e")
      (auto simp: fetch_edge_def served_defs extract_field_as_string_def extract_field_as_f32_def f32_weights_def)
  then show ?thesis
    by (simp add: env_graph_def fingerprint_exists_def edge_ids_touching_def mention_ids_touching_def
        served_defs map_filter_fields)
qed

section \<open>A small graph\<close>

text \<open>
  \<open>fp_a\<close> and \<open>fp_b\<close> are joined by a strong edge, \<open>fp_b\<close> and \<open>fp_c\<close> by one of weight 1/2,
  \<open>fp_a\<close> and \<open>fp_d\<close> by a forbidden one; each of the first three has a mention.
\<close>

definition mk_edge :: "string \<Rightarrow> string \<Rightarrow> string \<Rightarrow> string \<Rightarrow> rat \<Rightarrow> resolved_edge" where
  "mk_edge i a b k w = \<lparr>edge_rid = i, edge_a = a, edge_b = b, edge_kind = k, edge_weight = Fin w\<rparr>"

definition sample_graph :: fp_graph where
  "sample_graph = \<lparr>
     g_ids = [''fp_a'', ''fp_b'', ''fp_c'', ''fp_d''],
     g_exists = (\<lambda>x. x \<in> {''fp_a'', ''fp_b'', ''fp_c'', ''fp_d''}),
     g_edges = (\<lambda>x. if x = ''fp_a'' then [''e_ab'', ''e_ad''] else if x = ''fp_b'' then [''e_ab'', ''e_bc'']
                    else if x = ''fp_c'' then [''e_bc''] else if x = ''fp_d'' then [''e_ad''] else []),
     g_edge = [''e_ab'' \<mapsto> mk_edge ''e_ab'' ''fp_a'' ''fp_b'' ''StrongMatch'' 1,
               ''e_bc'' \<mapsto> mk_edge ''e_bc'' ''fp_b'' ''fp_c'' ''MediumMatch'' (1/2),
               ''e_ad'' \<mapsto> mk_edge ''e_ad'' ''fp_a'' ''fp_d'' USER_FORBIDDEN 1],
     g_mentions = (\<lambda>x. if x = ''fp_a'' then [''m_a''] else if x = ''fp_b'' then [''m_b'']
                    else if x = ''fp_c'' then [''m_c''] else [])\<rparr>"

definition sample_spec :: "rat \<Rightarrow> persona_spec" where
  "sample_spec t = \<lparr>persona_id = ''ps_1'', seed_fingerprint_ids = [''fp_a''], threshold = Fin t,
     excluded_edge_ids = {}, excluded_mention_ids = {}, included_mention_ids = {}, identity_id = None\<rparr>"

lemma sample_junction_ok: "junction_ok sample_graph"
  by (auto simp: junction_ok_def sample_graph_def mk_edge_def split: if_splits)

lemma sample_finite: "finite_graph sample_graph"
proof -
  have "(\<Union>fp. set (g_edges sample_graph fp)) \<subseteq> {''e_ab'', ''e_bc'', ''e_ad''}"
    by (auto simp: sample_graph_def split: if_splits)
  then show ?thesis unfolding finite_graph_def by (rule finite_subset) simp
qed

lemma f32_round_one_half: "f32_round 1 = Fin 1" "f32_round (1/2) = Fin (1/2)"
  by code_simp+

lemma sample_f32_weights: "f32_weights sample_graph"
  by (auto simp: f32_weights_def sample_graph_def mk_edge_def as_f32_def f32_round_one_half split: if_splits)

lemma sample_env_graph: "env_graph (served_env sample_graph) sample_graph"
  by (rule served_env_graph [OF sample_f32_weights])

end
