(* ===== verification/Mem_Node.thy ===== *)
theory Mem_Node
  imports Persona_Store Suggestions_Correct Components Served_Graph "HOL-Library.AList"
begin

text \<open>
  An in-memory node: personas in an association list, every other schema served from a
  fingerprint graph. It meets the contract of \<open>persona_store\<close>, so the results of that
  locale are not vacuous, and it is the node of the concrete runs.
\<close>

definition mem_row :: "string list \<Rightarrow> payload \<Rightarrow> json" where
  "mem_row fs m = fields_record (List.map_filter (\<lambda>f. map_option (Pair f) (m f)) fs)"

definition mem_query :: "fp_graph \<Rightarrow> (string \<times> payload) list \<Rightarrow> query_engine" where
  "mem_query G d q =
     (if schema_name q = ''persona'' then
        Inr (case key_filter q of
               Some (HashKey k) \<Rightarrow> (case map_of d k of None \<Rightarrow> [] | Some m \<Rightarrow> [mem_row (q_fields q) m])
             | None \<Rightarrow> map (\<lambda>(k, m). mem_row (q_fields q) m) (AList.clearjunk d))
      else serve_graph G q)"

definition mem_mutate ::
    "(string \<times> payload) list \<Rightarrow> string \<Rightarrow> payload \<Rightarrow> key_value \<Rightarrow> mutation_type
     \<Rightarrow> (fold_db_error + string) \<times> (string \<times> payload) list" where
  "mem_mutate d s m kv t =
     (case kv of
        (Some k, None) \<Rightarrow>
          if s = ''persona'' then
            (Inr k, (case t of
               Create \<Rightarrow> AList.update k m d
             | Update \<Rightarrow> AList.update k (case map_of d k of None \<Rightarrow> m | Some old \<Rightarrow> old ++ m) d
             | Delete \<Rightarrow> AList.delete k d))
          else (Inl (EngineError ''read only''), d)
      | _ \<Rightarrow> (Inl (EngineError ''bad key''), d))"

fun show_fold_db_error :: "fold_db_error \<Rightarrow> string" where
  "show_fold_db_error (Config m) = m"
| "show_fold_db_error (EngineError m) = m"

definition mem_node :: "fp_graph \<Rightarrow> (string \<times> payload) list fp_node" where
  "mem_node G = \<lparr>
     FINGERPRINT = FINGERPRINT (served_env G), EDGE = EDGE (served_env G), MENTION = MENTION (served_env G),
     EDGE_BY_FINGERPRINT = EDGE_BY_FINGERPRINT (served_env G),
     MENTION_BY_FINGERPRINT = MENTION_BY_FINGERPRINT (served_env G),
     PERSONA = PERSONA (served_env G), registry = registry (served_env G),
     query_db = mem_query G, mutate_db = mem_mutate, show_error = show_fold_db_error,
     show_json = (\<lambda>_. []), show_f32 = (\<lambda>_. [])\<rparr>"

lemma map_of_requested: "map_of (List.map_filter (\<lambda>f. map_option (Pair f) (m f)) fs) = m |` set fs"
proof
  fix k
  show "map_of (List.map_filter (\<lambda>f. map_option (Pair f) (m f)) fs) k = (m |` set fs) k"
  proof (induction fs)
    case (Cons f fs)
    then show ?case by (cases "m f") (auto simp: restrict_map_def)
  qed simp
qed

lemma row_of_mem_row: "row_of fs m (mem_row fs m)"
  by (auto simp: row_of_def mem_row_def fields_record_def map_of_requested)

lemma mem_node_simps [simp]:
  "query_db (mem_node G) = mem_query G" "mutate_db (mem_node G) = mem_mutate"
  by (simp_all add: mem_node_def)

lemma mem_scan_rows:
  "list_all2 (\<lambda>k r. row_of fs (the (map_of d k)) r) (map fst (AList.clearjunk d))
     (map (\<lambda>(k, m). mem_row fs m) (AList.clearjunk d))"
proof -
  have "row_of fs (the (map_of d k)) (mem_row fs m)" if "(k, m) \<in> set (AList.clearjunk d)" for k m
    using that map_of_eq_Some_iff [OF distinct_clearjunk, of d k m] row_of_mem_row
    by (simp add: map_of_clearjunk)
  then have "row_of fs (the (map_of d (fst x))) (case x of (k, m) \<Rightarrow> mem_row fs m)" if "x \<in> set (AList.clearjunk d)" for x
    using that by (cases x) auto
  then show ?thesis by (simp add: list_all2_conv_all_nth)
qed

lemma mem_persona_store: "persona_store (mem_node G) ''persona'' map_of"
proof unfold_locales
  show "canonical_lookup (mem_node G) (PERSONA (mem_node G)) = Inr ''persona''"
    by (simp add: canonical_lookup_def mem_node_def served_env_def lookup_name_def cn_get_def)
next
  fix d fs k rs
  assume "query_db (mem_node G) d (key_query ''persona'' fs k) = Inr rs"
  then show "case map_of d k of None \<Rightarrow> rs = [] | Some m \<Rightarrow> \<exists>r. rs = [r] \<and> row_of fs m r"
    by (auto simp: mem_query_def key_query_def simple_query_def row_of_mem_row split: option.split)
next
  fix d fs rs
  assume "query_db (mem_node G) d (simple_query ''persona'' fs None) = Inr rs"
  then have "rs = map (\<lambda>(k, m). mem_row fs m) (AList.clearjunk d)"
    by (simp add: mem_query_def simple_query_def)
  then show "\<exists>ks. distinct ks \<and> set ks = dom (map_of d) \<and>
      list_all2 (\<lambda>k r. row_of fs (the (map_of d k)) r) ks rs"
    using mem_scan_rows [of fs d]
    by (intro exI [of _ "map fst (AList.clearjunk d)"]) (simp add: dom_map_of_conv_image_fst dom_clearjunk distinct_clearjunk)
qed (auto simp: mem_mutate_def mem_query_def update_conv' delete_conv' split: option.splits prod.splits if_splits mutation_type.splits)

interpretation mem_personas: persona_store "mem_node G" "''persona''" map_of for G
  by (rule mem_persona_store)

section \<open>A concrete persona\<close>

definition sample_persona :: payload where
  "sample_persona = [''id'' \<mapsto> JStr ''ps_1'', ''name'' \<mapsto> JStr ''Tom'',
     ''seed_fingerprint_ids'' \<mapsto> JArr [JStr ''fp_a''], ''threshold'' \<mapsto> JNum (Fin (1 / 2)),
     ''user_confirmed'' \<mapsto> JBool True]"

definition second_persona :: payload where
  "second_persona = [''id'' \<mapsto> JStr ''ps_2'', ''name'' \<mapsto> JStr ''Thomas'',
     ''seed_fingerprint_ids'' \<mapsto> JArr [JStr ''fp_c''], ''identity_id'' \<mapsto> identity_ref ''id_k'']"

definition sample_db :: "(string \<times> payload) list" where
  "sample_db = [(''ps_1'', sample_persona), (''ps_2'', second_persona)]"

section \<open>The graph seen through the node\<close>

lemma mem_sg_graph:
  assumes "f32_weights G"
  shows "sg_graph (mem_node G) d G"
proof -
  have "fetch_edge_endpoints (mem_node G) d e =
      Inr (map_option (\<lambda>ed. (edge_a ed, edge_b ed, edge_kind ed, edge_weight ed)) (g_edge G e))" for e
    using assms
    by (cases "g_edge G e")
      (auto simp: fetch_edge_endpoints_def canonical_lookup_def mem_node_def mem_query_def served_defs first_fields_def
        string_field_def f32_field_def or_default_def f32_weights_def)
  then show ?thesis
    by (simp add: sg_graph_def sg_edge_ids_touching_def canonical_lookup_def mem_node_def mem_query_def served_defs
        map_filter_fields)
qed

lemma mem_env_graph:
  assumes "f32_weights G"
  shows "env_graph (env_at (mem_node G) d) G"
proof -
  have "query_db (mem_node G) d (key_query s fs k) = serve_graph G (key_query s fs k)" if "s \<noteq> ''persona''" for s fs k
    using that by (simp add: mem_query_def key_query_def simple_query_def)
  then have "fingerprint_exists (env_at (mem_node G) d) fp = fingerprint_exists (served_env G) fp"
    "edge_ids_touching (env_at (mem_node G) d) fp = edge_ids_touching (served_env G) fp"
    "mention_ids_touching (env_at (mem_node G) d) fp = mention_ids_touching (served_env G) fp"
    "fetch_edge (env_at (mem_node G) d) e = fetch_edge (served_env G) e" for fp e
    by (simp_all add: fingerprint_exists_def edge_ids_touching_def mention_ids_touching_def fetch_edge_def env_at_def
        env_lookup_def mem_node_def served_env_def lookup_name_def cn_get_def)
  with served_env_graph [OF assms] show ?thesis by (simp add: env_graph_def)
qed

lemma mem_names_apart: "graph_names_apart (mem_node G) ''persona''"
  by (simp add: graph_names_apart_def canonical_lookup_def mem_node_def served_env_def lookup_name_def cn_get_def)

section \<open>A graph with a dense component\<close>

definition dense_graph :: fp_graph where
  "dense_graph = \<lparr>
     g_ids = [''fp_a'', ''fp_b'', ''fp_c''],
     g_exists = (\<lambda>x. x \<in> {''fp_a'', ''fp_b'', ''fp_c''}),
     g_edges = (\<lambda>x. if x = ''fp_a'' then [''e_ab''] else if x = ''fp_b'' then [''e_ab'', ''e_bc'']
                    else if x = ''fp_c'' then [''e_bc''] else []),
     g_edge = [''e_ab'' \<mapsto> mk_edge ''e_ab'' ''fp_a'' ''fp_b'' ''StrongMatch'' 1,
               ''e_bc'' \<mapsto> mk_edge ''e_bc'' ''fp_b'' ''fp_c'' ''StrongMatch'' 1],
     g_mentions = (\<lambda>x. if x = ''fp_a'' then [''m_1'', ''m_2'', ''m_3'', ''m_4'', ''m_5''] else [])\<rparr>"

lemma dense_junction: "junction_ok dense_graph" "junction_complete dense_graph"
  by (auto simp: junction_ok_def junction_complete_def dense_graph_def mk_edge_def split: if_splits)

lemma dense_finite: "finite_graph dense_graph"
proof -
  have "(\<Union>fp. set (g_edges dense_graph fp)) \<subseteq> {''e_ab'', ''e_bc''}"
    by (auto simp: dense_graph_def split: if_splits)
  then show ?thesis unfolding finite_graph_def by (rule finite_subset) simp
qed

lemma dense_f32: "f32_weights dense_graph"
  by (auto simp: f32_weights_def dense_graph_def mk_edge_def as_f32_def f32_round_one_half split: if_splits)

lemma dense_suggestion:
  "\<exists>s. list_suggested_personas sorted_list_of_set (\<lambda>_. []) (mem_node dense_graph) [] = Some (Inr [s])"
proof -
  have "(case list_suggested_personas sorted_list_of_set (\<lambda>_. []) (mem_node dense_graph) [] of
      Some (Inr sugs) \<Rightarrow> length sugs = 1 | _ \<Rightarrow> False)"
    by code_simp
  then show ?thesis
    by (auto split: option.splits sum.splits) (metis One_nat_def length_0_conv length_Suc_conv)
qed

lemma mem_create_each: "fst (create_each (mem_node G) ''persona'' now pairs d n) = n + length pairs"
  by (induction pairs arbitrary: d n) (auto simp: mem_mutate_def Let_def)

lemma mem_persona_name: "lookup_name (registry (mem_node G)) (PERSONA (mem_node G)) = Inr ''persona''"
  by (simp add: mem_node_def served_env_def lookup_name_def cn_get_def)

lemma mem_seed_sets: "\<exists>sets. load_persona_seed_sets (mem_node G) d = Inr sets"
  by (simp add: load_persona_seed_sets_def canonical_lookup_def mem_persona_name)
    (simp add: mem_query_def simple_query_def)

lemma mem_patch_runs:
  "\<exists>det d'. apply_persona_patch sorted_list_of_set (mem_node sample_graph) sample_db ''ps_1''
     (empty_patch\<lparr>pp_add_excluded_edge_id := Some ''e_bc''\<rparr>) = (Some (Inr det), d')"
proof -
  have "(case fst (apply_persona_patch sorted_list_of_set (mem_node sample_graph) sample_db ''ps_1''
      (empty_patch\<lparr>pp_add_excluded_edge_id := Some ''e_bc''\<rparr>)) of Some (Inr det) \<Rightarrow> True | _ \<Rightarrow> False)"
    by code_simp
  then show ?thesis by (auto split: option.splits sum.splits) (metis prod.collapse)
qed

lemma mem_patch_changes:
  assumes "apply_persona_patch it (mem_node sample_graph) sample_db ''ps_1''
      (empty_patch\<lparr>pp_add_excluded_edge_id := Some ''e_bc''\<rparr>) = (Some (Inr det), d')"
  shows "d' \<noteq> sample_db"
proof -
  obtain old m' where m': "map_of sample_db ''ps_1'' = Some old"
      "patch_payload (empty_patch\<lparr>pp_add_excluded_edge_id := Some ''e_bc''\<rparr>) (old |` set persona_fields) = Inr m'"
      "map_of d' = (map_of sample_db)(''ps_1'' \<mapsto> old ++ m')"
    using mem_personas.patch_view [OF assms] by blast
  have "old ''excluded_edge_ids'' = None" using m'(1) by (auto simp: sample_db_def sample_persona_def)
  moreover have "m' ''excluded_edge_ids'' \<noteq> None"
  proof -
    have "m' ''excluded_edge_ids'' = patch_arrays (empty_patch\<lparr>pp_add_excluded_edge_id := Some ''e_bc''\<rparr>)
        (old |` set persona_fields) ''excluded_edge_ids''"
      by (rule patch_payload_late_frame [OF m'(2)]) (simp add: late_stage_fields_def)
    then show ?thesis by (simp add: patch_arrays_def empty_patch_def apply_array_add_def Let_def)
  qed
  ultimately have "old ++ m' \<noteq> old" by (auto simp: map_add_def fun_eq_iff split: option.splits)
  then have "map_of d' ''ps_1'' \<noteq> map_of sample_db ''ps_1''" using m' by simp
  then show ?thesis by auto
qed

lemma mem_merge_runs:
  "\<exists>det d'. merge_personas sorted_list_of_set (mem_node sample_graph) sample_db ''ps_1'' ''ps_2'' = (Some (Inr det), d')"
proof -
  have "(case fst (merge_personas sorted_list_of_set (mem_node sample_graph) sample_db ''ps_1'' ''ps_2'') of
      Some (Inr det) \<Rightarrow> True | _ \<Rightarrow> False)"
    by code_simp
  then show ?thesis by (auto split: option.splits sum.splits) (metis prod.collapse)
qed

lemma mem_delete_runs: "\<exists>j d'. delete_persona (mem_node sample_graph) sample_db ''ps_2'' = (Inr j, d')"
proof -
  have "(case fst (delete_persona (mem_node sample_graph) sample_db ''ps_2'') of Inr j \<Rightarrow> True | _ \<Rightarrow> False)"
    by code_simp
  then show ?thesis by (auto split: sum.splits) (metis prod.collapse)
qed

end
