(* ===== verification/Batch.thy ===== *)
theory Batch
  imports Floats Rust_Strings
begin

text \<open>
  \<^verbatim>\<open>src/ingestion/batch_controller.rs\<close>, \<^verbatim>\<open>src/ingestion/smart_folder/batch.rs\<close> and the resume and
  cancel routes of \<^verbatim>\<open>src/server/routes/ingestion.rs\<close>. The controller is a record with one
  definition per method; the coordinator task, its workers and the two routes are the
  step relation \<open>bstep\<close>, whose interleavings are those of the mutex-protected sections. A
  worker ends with success, an error or a panic. The controller stays in the shared map
  while its coordinator runs (it is removed five minutes after), so the map is left out;
  calls to \<^verbatim>\<open>fail_progress\<close> are kept as a log.
\<close>

section \<open>The controller\<close>

datatype batch_status = Running | Paused | Completed | Cancelled | Failed

fun show_status :: "batch_status \<Rightarrow> string" where
  "show_status Running = ''Running''"
| "show_status Paused = ''Paused''"
| "show_status Completed = ''Completed''"
| "show_status Cancelled = ''Cancelled''"
| "show_status Failed = ''Failed''"

record pending_file =
  pf_path :: string
  pf_progress_id :: string
  pf_estimated_cost :: fl

record in_flight_file =
  if_name :: string
  if_progress_id :: string

record failed_file =
  ff_name :: string
  ff_error :: string

record batch_controller =
  batch_id :: string
  status :: batch_status
  spend_limit :: "fl option"
  accumulated_cost :: fl
  files_total :: nat
  files_completed :: nat
  files_failed :: nat
  failed_files :: "failed_file list"
  pending_files :: "pending_file list"
  in_flight_files :: "in_flight_file list"
  is_local_provider :: bool
  notified :: bool

text \<open>\<open>notified\<close> is the stored permit of the \<^verbatim>\<open>Notify\<close>.\<close>

definition new_controller :: "string \<Rightarrow> fl option \<Rightarrow> pending_file list \<Rightarrow> bool \<Rightarrow> batch_controller" where
  "new_controller bid limit files is_local = \<lparr>
     batch_id = bid, status = Running, spend_limit = limit, accumulated_cost = Fin 0,
     files_total = length files, files_completed = 0, files_failed = 0, failed_files = [],
     pending_files = files, in_flight_files = [], is_local_provider = is_local, notified = False\<rparr>"

definition can_proceed :: "batch_controller \<Rightarrow> fl \<Rightarrow> bool" where
  "can_proceed c next_cost =
     (case spend_limit c of None \<Rightarrow> True | Some limit \<Rightarrow> fl_le (f64_add (accumulated_cost c) next_cost) limit)"

definition pause :: "batch_controller \<Rightarrow> batch_controller" where
  "pause c = c\<lparr>status := Paused\<rparr>"

definition resume :: "fl option \<Rightarrow> batch_controller \<Rightarrow> batch_controller" where
  "resume new_limit c =
     (let c1 = (case new_limit of Some limit \<Rightarrow> c\<lparr>spend_limit := Some limit\<rparr> | None \<Rightarrow> c)
      in c1\<lparr>status := Running, notified := True\<rparr>)"

definition cancel :: "batch_controller \<Rightarrow> batch_controller" where
  "cancel c = c\<lparr>status := Cancelled, notified := True\<rparr>"

definition add_in_flight :: "string \<Rightarrow> string \<Rightarrow> batch_controller \<Rightarrow> batch_controller" where
  "add_in_flight name pid c =
     c\<lparr>in_flight_files := in_flight_files c @ [\<lparr>if_name = name, if_progress_id = pid\<rparr>]\<rparr>"

definition remove_in_flight :: "string \<Rightarrow> batch_controller \<Rightarrow> batch_controller" where
  "remove_in_flight pid c = c\<lparr>in_flight_files := filter (\<lambda>f. if_progress_id f \<noteq> pid) (in_flight_files c)\<rparr>"

definition in_flight_count :: "batch_controller \<Rightarrow> nat" where
  "in_flight_count c = length (in_flight_files c)"

definition record_completed :: "string \<Rightarrow> fl \<Rightarrow> batch_controller \<Rightarrow> batch_controller" where
  "record_completed pid cost c =
     (let c1 = (if \<not> is_local_provider c then c\<lparr>accumulated_cost := f64_add (accumulated_cost c) cost\<rparr> else c)
      in remove_in_flight pid (c1\<lparr>files_completed := Suc (files_completed c1)\<rparr>))"

definition record_failed :: "string \<Rightarrow> string \<Rightarrow> string \<Rightarrow> batch_controller \<Rightarrow> batch_controller" where
  "record_failed pid name err c =
     remove_in_flight pid (c\<lparr>files_failed := Suc (files_failed c),
       failed_files := failed_files c @ [\<lparr>ff_name = name, ff_error = err\<rparr>]\<rparr>)"

definition pop_next_file :: "batch_controller \<Rightarrow> pending_file option \<times> batch_controller" where
  "pop_next_file c =
     (case pending_files c of [] \<Rightarrow> (None, c) | f # fs \<Rightarrow> (Some f, c\<lparr>pending_files := fs\<rparr>))"

definition estimated_remaining_cost :: "batch_controller \<Rightarrow> fl" where
  "estimated_remaining_cost c =
     (if is_local_provider c then Fin 0
      else foldl (\<lambda>acc f. f64_add acc (pf_estimated_cost f)) (Fin 0) (pending_files c))"

definition files_remaining :: "batch_controller \<Rightarrow> nat" where
  "files_remaining c = length (pending_files c)"

record batch_status_response =
  bs_batch_id :: string
  bs_status :: batch_status
  bs_spend_limit :: "fl option"
  bs_accumulated_cost :: fl
  bs_files_total :: nat
  bs_files_completed :: nat
  bs_files_failed :: nat
  bs_failed_files :: "failed_file list"
  bs_files_remaining :: nat
  bs_estimated_remaining_cost :: fl
  bs_in_flight_count :: nat
  bs_current_file_name :: "string option"
  bs_current_file_step :: "string option"
  bs_current_file_progress :: "nat option"
  bs_is_local_provider :: bool

definition from_controller :: "batch_controller \<Rightarrow> batch_status_response" where
  "from_controller c = \<lparr>
     bs_batch_id = batch_id c, bs_status = status c, bs_spend_limit = spend_limit c,
     bs_accumulated_cost = accumulated_cost c, bs_files_total = files_total c,
     bs_files_completed = files_completed c, bs_files_failed = files_failed c,
     bs_failed_files = failed_files c, bs_files_remaining = files_remaining c,
     bs_estimated_remaining_cost = estimated_remaining_cost c, bs_in_flight_count = in_flight_count c,
     bs_current_file_name = (case in_flight_files c of [] \<Rightarrow> None | f # _ \<Rightarrow> Some (if_name f)),
     bs_current_file_step = None, bs_current_file_progress = None,
     bs_is_local_provider = is_local_provider c\<rparr>"

section \<open>The sections of the coordinator\<close>

text \<open>\<^verbatim>\<open>Path::file_name\<close> on a path with forward slashes.\<close>

definition file_name :: "string \<Rightarrow> string option" where
  "file_name p =
     (let parts = filter (\<lambda>c. c \<noteq> [] \<and> c \<noteq> ''.'') (split_on (\<lambda>c. c = CHR ''/'') p)
      in if parts = [] \<or> last parts = ''..'' then None else Some (last parts))"

datatype pop_result = PopFile pending_file | SpendLimitHit | PopDone | PopCancelled

definition try_pop_file :: "batch_controller \<Rightarrow> pop_result \<times> batch_controller" where
  "try_pop_file c =
     (if status c = Cancelled then (PopCancelled, c)
      else case pending_files c of
          [] \<Rightarrow> (PopDone, c)
        | next_file # _ \<Rightarrow>
            if \<not> can_proceed c (pf_estimated_cost next_file) then (SpendLimitHit, pause c)
            else (case pop_next_file c of
                (Some file, c') \<Rightarrow>
                  (PopFile file,
                   add_in_flight (case file_name (pf_path file) of Some n \<Rightarrow> n | None \<Rightarrow> ''unknown'')
                     (pf_progress_id file) c')
              | (None, c') \<Rightarrow> (PopDone, c')))"

text \<open>The second component is the call to \<^verbatim>\<open>fail_progress\<close>, if one is made.\<close>

definition record_file_result ::
    "pending_file \<Rightarrow> string + unit \<Rightarrow> batch_controller \<Rightarrow> batch_controller \<times> (string \<times> string) list" where
  "record_file_result file result c =
     (case result of
        Inr _ \<Rightarrow> (record_completed (pf_progress_id file) (pf_estimated_cost file) c, [])
      | Inl e \<Rightarrow> (record_failed (pf_progress_id file) (pf_path file) e c,
                  [(pf_progress_id file, ''Processing failed: '' @ e)]))"

definition resume_batch :: "fl \<Rightarrow> batch_controller \<Rightarrow> (string + batch_status_response) \<times> batch_controller" where
  "resume_batch new_limit c =
     (if status c \<noteq> Paused then (Inl (''Batch is not paused (status: '' @ show_status (status c) @ '')''), c)
      else (let c' = resume (Some new_limit) c in (Inr (from_controller c'), c')))"

definition cancel_batch :: "batch_controller \<Rightarrow> batch_status_response \<times> batch_controller" where
  "cancel_batch c = (let c' = cancel c in (from_controller c', c'))"

section \<open>The coordinator as a step relation\<close>

text \<open>
  \<open>Filling\<close> is the inner loop, \<open>Waiting\<close> the wait for the notification, \<open>Joining\<close> what
  follows the inner loop, \<open>Exited\<close> the end. \<open>workers\<close> is the join set.
\<close>

datatype phase = Filling | Waiting | Joining | Exited

record batch_run =
  ctrl :: batch_controller
  workers :: "pending_file list"
  all_popped :: bool
  phase :: phase
  lost :: "pending_file list"
  fail_log :: "(string \<times> string) list"

definition start_run :: "batch_controller \<Rightarrow> batch_run" where
  "start_run c = \<lparr>ctrl = c, workers = [], all_popped = False, phase = Filling, lost = [], fail_log = []\<rparr>"

definition finish_status :: "batch_controller \<Rightarrow> batch_controller" where
  "finish_status c = (if status c = Running then c\<lparr>status := Completed\<rparr> else c)"

text \<open>Steps of the coordinator and its workers; \<open>lost\<close> collects the files of panicked workers.\<close>

inductive cstep :: "nat \<Rightarrow> batch_run \<Rightarrow> batch_run \<Rightarrow> bool" for maxc where
  fill_pop: "phase s = Filling \<Longrightarrow> \<not> all_popped s \<Longrightarrow> length (workers s) < maxc \<Longrightarrow>
    try_pop_file (ctrl s) = (PopFile f, c) \<Longrightarrow> cstep maxc s (s\<lparr>ctrl := c, workers := workers s @ [f]\<rparr>)"
| fill_limit_idle: "phase s = Filling \<Longrightarrow> \<not> all_popped s \<Longrightarrow> length (workers s) < maxc \<Longrightarrow>
    try_pop_file (ctrl s) = (SpendLimitHit, c) \<Longrightarrow> workers s = [] \<Longrightarrow> cstep maxc s (s\<lparr>ctrl := c, phase := Waiting\<rparr>)"
| fill_limit_busy: "phase s = Filling \<Longrightarrow> \<not> all_popped s \<Longrightarrow> length (workers s) < maxc \<Longrightarrow>
    try_pop_file (ctrl s) = (SpendLimitHit, c) \<Longrightarrow> workers s \<noteq> [] \<Longrightarrow> cstep maxc s (s\<lparr>ctrl := c, phase := Joining\<rparr>)"
| fill_end: "phase s = Filling \<Longrightarrow> \<not> all_popped s \<Longrightarrow> length (workers s) < maxc \<Longrightarrow>
    try_pop_file (ctrl s) = (r, c) \<Longrightarrow> r \<in> {PopDone, PopCancelled} \<Longrightarrow>
    cstep maxc s (s\<lparr>ctrl := c, all_popped := True, phase := Joining\<rparr>)"
| fill_leave: "phase s = Filling \<Longrightarrow> all_popped s \<or> \<not> length (workers s) < maxc \<Longrightarrow>
    cstep maxc s (s\<lparr>phase := Joining\<rparr>)"
| wake: "phase s = Waiting \<Longrightarrow> notified (ctrl s) \<Longrightarrow>
    cstep maxc s (s\<lparr>ctrl := (ctrl s)\<lparr>notified := False\<rparr>,
       all_popped := all_popped s \<or> status (ctrl s) = Cancelled, phase := Joining\<rparr>)"
| join_exit: "phase s = Joining \<Longrightarrow> workers s = [] \<Longrightarrow> all_popped s \<Longrightarrow>
    cstep maxc s (s\<lparr>ctrl := finish_status (ctrl s), phase := Exited\<rparr>)"
| join_continue: "phase s = Joining \<Longrightarrow> workers s = [] \<Longrightarrow> \<not> all_popped s \<Longrightarrow> cstep maxc s (s\<lparr>phase := Filling\<rparr>)"
| join_result: "phase s = Joining \<Longrightarrow> workers s = xs @ f # ys \<Longrightarrow> record_file_result f r (ctrl s) = (c, calls) \<Longrightarrow>
    cstep maxc s (s\<lparr>ctrl := c, workers := xs @ ys, phase := Filling, fail_log := fail_log s @ calls\<rparr>)"
| join_panic: "phase s = Joining \<Longrightarrow> workers s = xs @ f # ys \<Longrightarrow>
    cstep maxc s (s\<lparr>workers := xs @ ys, phase := Filling, lost := f # lost s\<rparr>)"

text \<open>Requests from outside. \<open>allowed old new\<close> restricts the limits a resume may set.\<close>

inductive estep :: "(fl option \<Rightarrow> fl \<Rightarrow> bool) \<Rightarrow> batch_run \<Rightarrow> batch_run \<Rightarrow> bool" for allowed where
  resume: "resume_batch l (ctrl s) = (r, c) \<Longrightarrow> allowed (spend_limit (ctrl s)) l \<Longrightarrow> estep allowed s (s\<lparr>ctrl := c\<rparr>)"
| cancel: "cancel_batch (ctrl s) = (r, c) \<Longrightarrow> estep allowed s (s\<lparr>ctrl := c\<rparr>)"

inductive breach :: "nat \<Rightarrow> (fl option \<Rightarrow> fl \<Rightarrow> bool) \<Rightarrow> batch_controller \<Rightarrow> batch_run \<Rightarrow> bool" for maxc allowed c0 where
  start: "breach maxc allowed c0 (start_run c0)"
| inner: "breach maxc allowed c0 s \<Longrightarrow> cstep maxc s s' \<Longrightarrow> breach maxc allowed c0 s'"
| outer: "breach maxc allowed c0 s \<Longrightarrow> estep allowed s s' \<Longrightarrow> breach maxc allowed c0 s'"

end
