(* ===== verification/Batch_Correct.thy ===== *)
theory Batch_Correct
  imports Batch
begin

text \<open>
  The batch coordinator under every interleaving of its steps, its workers and the routes:
  no file is counted twice or dropped (\<open>batch_acct\<close>), a completed batch has dealt with
  every file, the coordinator's own steps always come to an end and it is never stuck
  (\<open>bmeasure\<close>), and with one worker the spend limit is never exceeded.
\<close>

section \<open>The sections\<close>

lemma try_pop_file_cases:
  assumes "try_pop_file c = (r, c')"
  shows "(\<exists>f fs n. r = PopFile f \<and> pending_files c = f # fs \<and> status c \<noteq> Cancelled \<and> can_proceed c (pf_estimated_cost f) \<and>
      c' = c\<lparr>pending_files := fs, in_flight_files := in_flight_files c @ [\<lparr>if_name = n, if_progress_id = pf_progress_id f\<rparr>]\<rparr>) \<or>
    (\<exists>f fs. r = SpendLimitHit \<and> pending_files c = f # fs \<and> status c \<noteq> Cancelled \<and>
      \<not> can_proceed c (pf_estimated_cost f) \<and> c' = c\<lparr>status := Paused\<rparr>) \<or>
    (r = PopDone \<and> pending_files c = [] \<and> c' = c) \<or> (r = PopCancelled \<and> status c = Cancelled \<and> c' = c)"
  using assms
  by (auto simp: try_pop_file_def pop_next_file_def add_in_flight_def pause_def split: if_splits list.splits)

text \<open>The result of a section determines what it did.\<close>

lemma try_pop_PopFile:
  assumes "try_pop_file c = (PopFile f, c')"
  obtains fs n where "pending_files c = f # fs" "status c \<noteq> Cancelled" "can_proceed c (pf_estimated_cost f)"
    "c' = c\<lparr>pending_files := fs, in_flight_files := in_flight_files c @ [\<lparr>if_name = n, if_progress_id = pf_progress_id f\<rparr>]\<rparr>"
  using try_pop_file_cases [OF assms] by auto

lemma try_pop_limit:
  assumes "try_pop_file c = (SpendLimitHit, c')"
  obtains f fs where "pending_files c = f # fs" "status c \<noteq> Cancelled" "\<not> can_proceed c (pf_estimated_cost f)"
    "c' = c\<lparr>status := Paused\<rparr>"
  using try_pop_file_cases [OF assms] by auto

lemma try_pop_end:
  assumes "try_pop_file c = (r, c')" "r \<in> {PopDone, PopCancelled}"
  shows "c' = c \<and> (pending_files c = [] \<or> status c = Cancelled)"
  using try_pop_file_cases [OF assms(1)] assms(2) by auto

lemma record_file_result_simps:
  assumes "record_file_result f r c = (c', calls)"
  shows "pending_files c' = pending_files c" "status c' = status c" "files_total c' = files_total c"
    "spend_limit c' = spend_limit c" "notified c' = notified c"
    "in_flight_files c' = filter (\<lambda>x. if_progress_id x \<noteq> pf_progress_id f) (in_flight_files c)"
    "files_completed c' + files_failed c' = Suc (files_completed c + files_failed c)"
    "accumulated_cost c' = accumulated_cost c \<or>
     accumulated_cost c' = f64_add (accumulated_cost c) (pf_estimated_cost f)"
  using assms
  by (cases r; cases "is_local_provider c";
      auto simp: record_file_result_def record_completed_def record_failed_def remove_in_flight_def Let_def)+

lemma resume_batch_cases:
  assumes "resume_batch l c = (r, c')"
  shows "c' = c \<or> (status c = Paused \<and> c' = c\<lparr>spend_limit := Some l, status := Running, notified := True\<rparr>)"
  using assms by (auto simp: resume_batch_def resume_def Let_def split: if_splits)

lemma cancel_batch_simps: "cancel_batch c = (r, c') \<Longrightarrow> c' = c\<lparr>status := Cancelled, notified := True\<rparr>"
  by (auto simp: cancel_batch_def cancel_def Let_def)

section \<open>Accounting\<close>

definition in_flight_ids :: "batch_controller \<Rightarrow> string list" where
  "in_flight_ids c = map if_progress_id (in_flight_files c)"

definition pending_ids :: "batch_controller \<Rightarrow> string list" where
  "pending_ids c = map pf_progress_id (pending_files c)"

definition batch_acct :: "batch_run \<Rightarrow> bool" where
  "batch_acct s \<longleftrightarrow> (let c = ctrl s in
     files_total c = files_completed c + files_failed c + length (in_flight_files c) + length (pending_files c) \<and>
     distinct (in_flight_ids c @ pending_ids c) \<and>
     mset (in_flight_ids c) = mset (map pf_progress_id (workers s)) + mset (map pf_progress_id (lost s)))"

lemma filter_one_id:
  assumes "distinct (map g xs)" "i \<in> g ` set xs"
  shows "Suc (length (filter (\<lambda>x. g x \<noteq> i) xs)) = length xs"
    and "mset (map g (filter (\<lambda>x. g x \<noteq> i) xs)) = mset (map g xs) - {#i#}"
proof -
  from assms have both: "Suc (length (filter (\<lambda>x. g x \<noteq> i) xs)) = length xs \<and>
      mset (map g (filter (\<lambda>x. g x \<noteq> i) xs)) = mset (map g xs) - {#i#}"
  proof (induction xs)
    case (Cons x xs)
    show ?case
    proof (cases "g x = i")
      case True
      with Cons.prems(1) have "\<forall>y \<in> set xs. g y \<noteq> i" by (metis distinct.simps(2) image_eqI list.set_map list.simps(9))
      then have "filter (\<lambda>x. g x \<noteq> i) xs = xs" by (simp add: filter_id_conv)
      with True show ?thesis by simp
    next
      case False
      with Cons have IH: "Suc (length (filter (\<lambda>x. g x \<noteq> i) xs)) = length xs"
        "mset (map g (filter (\<lambda>x. g x \<noteq> i) xs)) = mset (map g xs) - {#i#}" by auto
      from False IH show ?thesis by simp
    qed
  qed simp
  then show "Suc (length (filter (\<lambda>x. g x \<noteq> i) xs)) = length xs"
    "mset (map g (filter (\<lambda>x. g x \<noteq> i) xs)) = mset (map g xs) - {#i#}" by auto
qed

lemma acct_result:
  assumes acct: "batch_acct s" and w: "workers s = xs @ f # ys" and rec: "record_file_result f r (ctrl s) = (c, calls)"
  shows "batch_acct (s\<lparr>ctrl := c, workers := xs @ ys, phase := p, fail_log := l\<rparr>)"
proof -
  note a = acct [unfolded batch_acct_def Let_def] and c = record_file_result_simps [OF rec]
  have "pf_progress_id f \<in># mset (in_flight_ids (ctrl s))" using a w by simp
  then have mem: "pf_progress_id f \<in> if_progress_id ` set (in_flight_files (ctrl s))" by (simp add: in_flight_ids_def)
  have dist: "distinct (map if_progress_id (in_flight_files (ctrl s)))" using a by (simp add: in_flight_ids_def)
  note one = filter_one_id [OF dist mem]
  have "distinct (in_flight_ids c @ pending_ids c)"
    using a by (auto simp: in_flight_ids_def pending_ids_def c(1,6) distinct_map_filter)
  moreover have "mset (in_flight_ids c) = mset (map pf_progress_id (xs @ ys)) + mset (map pf_progress_id (lost s))"
    using a one(2) w by (simp add: in_flight_ids_def c(6))
  ultimately show ?thesis
    using a one(1) c(7) by (simp add: batch_acct_def Let_def c(1,3,6))
qed

lemma acct_pop:
  assumes acct: "batch_acct s" and pop: "try_pop_file (ctrl s) = (PopFile f, c)"
  shows "batch_acct (s\<lparr>ctrl := c, workers := workers s @ [f]\<rparr>)"
  using pop
proof (rule try_pop_PopFile)
  fix fs n
  assume "pending_files (ctrl s) = f # fs" "c = ctrl s\<lparr>pending_files := fs,
    in_flight_files := in_flight_files (ctrl s) @ [\<lparr>if_name = n, if_progress_id = pf_progress_id f\<rparr>]\<rparr>"
  with acct show ?thesis
    by (auto simp: batch_acct_def Let_def in_flight_ids_def pending_ids_def)
qed

lemma acct_frame:
  assumes "batch_acct s" "workers s' = workers s" "lost s' = lost s"
    and "files_total (ctrl s') = files_total (ctrl s)" "files_completed (ctrl s') = files_completed (ctrl s)"
    "files_failed (ctrl s') = files_failed (ctrl s)" "in_flight_files (ctrl s') = in_flight_files (ctrl s)"
    "pending_files (ctrl s') = pending_files (ctrl s)"
  shows "batch_acct s'"
  using assms by (simp add: batch_acct_def Let_def in_flight_ids_def pending_ids_def)

lemma acct_panic:
  "batch_acct s \<Longrightarrow> workers s = xs @ f # ys \<Longrightarrow> batch_acct (s\<lparr>workers := xs @ ys, phase := p, lost := f # lost s\<rparr>)"
  by (simp add: batch_acct_def Let_def)

lemma acct_cstep:
  assumes "cstep maxc s s'" "batch_acct s"
  shows "batch_acct s'"
  using assms
proof cases
  case (fill_pop f c)
  then show ?thesis using acct_pop [OF assms(2)] by simp
next
  case (fill_limit_idle c)
  from fill_limit_idle(5) obtain "c = ctrl s\<lparr>status := Paused\<rparr>" by (rule try_pop_limit)
  with fill_limit_idle show ?thesis by (intro acct_frame [OF assms(2)]) simp_all
next
  case (fill_limit_busy c)
  from fill_limit_busy(5) obtain "c = ctrl s\<lparr>status := Paused\<rparr>" by (rule try_pop_limit)
  with fill_limit_busy show ?thesis by (intro acct_frame [OF assms(2)]) simp_all
next
  case (fill_end r c)
  then show ?thesis using try_pop_end [of "ctrl s" r c] by (intro acct_frame [OF assms(2)]) simp_all
next
  case (join_result xs f ys r c calls)
  then show ?thesis using acct_result [OF assms(2)] by simp
next
  case (join_panic xs f ys)
  then show ?thesis using acct_panic [OF assms(2)] by simp
qed (auto intro!: acct_frame [OF assms(2)] simp: finish_status_def)

lemma acct_estep:
  assumes "estep allowed s s'" "batch_acct s"
  shows "batch_acct s'"
  using assms(1)
proof cases
  case (resume l r c)
  then show ?thesis using resume_batch_cases [of l "ctrl s" r c] by (intro acct_frame [OF assms(2)]) auto
next
  case (cancel r c)
  then show ?thesis using cancel_batch_simps [of "ctrl s" r c] by (intro acct_frame [OF assms(2)]) auto
qed

lemma batch_accounting:
  assumes "breach maxc allowed (new_controller bid limit files loc) s" "distinct (map pf_progress_id files)"
  shows "batch_acct s"
  using assms(1)
proof induction
  case start
  show ?case using assms(2)
    by (simp add: batch_acct_def Let_def start_run_def new_controller_def in_flight_ids_def pending_ids_def)
qed (auto intro: acct_cstep acct_estep)

section \<open>Completion\<close>

definition popped_inv :: "batch_run \<Rightarrow> bool" where
  "popped_inv s \<longleftrightarrow>
     (all_popped s \<longrightarrow> pending_files (ctrl s) = [] \<or> status (ctrl s) = Cancelled) \<and>
     (phase s = Exited \<longrightarrow> all_popped s \<and> workers s = []) \<and>
     (status (ctrl s) = Completed \<longrightarrow> phase s = Exited \<and> pending_files (ctrl s) = [])"

lemma popped_cstep:
  assumes "cstep maxc s s'" "popped_inv s"
  shows "popped_inv s'"
  using assms
proof cases
  case (fill_pop f c)
  from fill_pop(5) obtain fs n where "c = ctrl s\<lparr>pending_files := fs,
      in_flight_files := in_flight_files (ctrl s) @ [\<lparr>if_name = n, if_progress_id = pf_progress_id f\<rparr>]\<rparr>"
    by (rule try_pop_PopFile)
  with fill_pop assms(2) show ?thesis by (auto simp: popped_inv_def)
next
  case (fill_limit_idle c)
  from fill_limit_idle(5) obtain "c = ctrl s\<lparr>status := Paused\<rparr>" by (rule try_pop_limit)
  with fill_limit_idle assms(2) show ?thesis by (auto simp: popped_inv_def)
next
  case (fill_limit_busy c)
  from fill_limit_busy(5) obtain "c = ctrl s\<lparr>status := Paused\<rparr>" by (rule try_pop_limit)
  with fill_limit_busy assms(2) show ?thesis by (auto simp: popped_inv_def)
next
  case (fill_end r c)
  then show ?thesis using try_pop_end [of "ctrl s" r c] assms(2) by (auto simp: popped_inv_def)
next
  case (join_result xs f ys r c calls)
  then show ?thesis using record_file_result_simps(1,2) [of f r "ctrl s" c calls] assms(2) by (auto simp: popped_inv_def)
qed (auto simp: popped_inv_def finish_status_def split: if_splits)

lemma popped_estep:
  assumes "estep allowed s s'" "popped_inv s"
  shows "popped_inv s'"
  using assms(1)
proof cases
  case (resume l r c)
  then show ?thesis using resume_batch_cases [of l "ctrl s" r c] assms(2) by (auto simp: popped_inv_def)
next
  case (cancel r c)
  then show ?thesis using cancel_batch_simps [of "ctrl s" r c] assms(2) by (auto simp: popped_inv_def)
qed

lemma popped_reach: "breach maxc allowed (new_controller bid limit files loc) s \<Longrightarrow> popped_inv s"
proof (induction rule: breach.induct)
  case start
  show ?case by (simp add: popped_inv_def start_run_def new_controller_def)
qed (auto intro: popped_cstep popped_estep)

section \<open>Progress\<close>

fun phase_rank :: "phase \<Rightarrow> bool \<Rightarrow> nat" where
  "phase_rank Exited _ = 0"
| "phase_rank Waiting _ = 1"
| "phase_rank Filling _ = 2"
| "phase_rank Joining idle = (if idle then 3 else 1)"

definition bmeasure :: "batch_run \<Rightarrow> nat" where
  "bmeasure s = 8 * (2 * length (pending_files (ctrl s)) + length (workers s)) +
     4 * (if notified (ctrl s) then 1 else 0) + phase_rank (phase s) (workers s = [] \<and> \<not> all_popped s)"

lemma cstep_decreases:
  assumes "cstep maxc s s'" "0 < maxc"
  shows "bmeasure s' < bmeasure s"
  using assms
proof cases
  case (fill_pop f c)
  from fill_pop(5) obtain fs n where "pending_files (ctrl s) = f # fs" "c = ctrl s\<lparr>pending_files := fs,
      in_flight_files := in_flight_files (ctrl s) @ [\<lparr>if_name = n, if_progress_id = pf_progress_id f\<rparr>]\<rparr>"
    by (rule try_pop_PopFile)
  with fill_pop show ?thesis by (simp add: bmeasure_def)
next
  case (fill_limit_idle c)
  from fill_limit_idle(5) obtain "c = ctrl s\<lparr>status := Paused\<rparr>" by (rule try_pop_limit)
  with fill_limit_idle show ?thesis by (simp add: bmeasure_def)
next
  case (fill_limit_busy c)
  from fill_limit_busy(5) obtain "c = ctrl s\<lparr>status := Paused\<rparr>" by (rule try_pop_limit)
  with fill_limit_busy show ?thesis by (simp add: bmeasure_def)
next
  case (fill_end r c)
  then show ?thesis using try_pop_end [of "ctrl s" r c] by (simp add: bmeasure_def)
next
  case (join_result xs f ys r c calls)
  then show ?thesis using record_file_result_simps(1,5) [of f r "ctrl s" c calls] by (simp add: bmeasure_def)
qed (auto simp: bmeasure_def finish_status_def)

lemma coordinator_not_stuck:
  assumes "phase s \<noteq> Exited" "phase s = Waiting \<longrightarrow> notified (ctrl s)"
  shows "\<exists>s'. cstep maxc s s'"
proof (cases "phase s")
  case Filling
  show ?thesis
  proof (cases "all_popped s \<or> \<not> length (workers s) < maxc")
    case True
    with Filling show ?thesis by (blast intro: cstep.fill_leave)
  next
    case False
    obtain r c where rc: "try_pop_file (ctrl s) = (r, c)" by (cases "try_pop_file (ctrl s)")
    show ?thesis
    proof (cases r)
      case (PopFile f)
      with Filling False rc show ?thesis by (blast intro: cstep.fill_pop)
    next
      case SpendLimitHit
      with Filling False rc show ?thesis
        by (cases "workers s = []") (blast intro: cstep.fill_limit_idle cstep.fill_limit_busy)+
    qed (use Filling False rc in \<open>blast intro: cstep.fill_end\<close>)+
  qed
next
  case Waiting
  with assms(2) show ?thesis by (blast intro: cstep.wake)
next
  case Joining
  show ?thesis
  proof (cases "workers s")
    case Nil
    with Joining show ?thesis by (cases "all_popped s") (blast intro: cstep.join_exit cstep.join_continue)+
  next
    case (Cons f ys)
    then have "workers s = [] @ f # ys" by simp
    with Joining show ?thesis by (blast intro: cstep.join_panic)
  qed
qed (use assms(1) in simp)

section \<open>The spend limit with one worker\<close>

definition raises :: "fl option \<Rightarrow> fl \<Rightarrow> bool" where
  "raises old new = (case old of None \<Rightarrow> True | Some l \<Rightarrow> fl_le l new)"

definition spend_inv :: "batch_run \<Rightarrow> bool" where
  "spend_inv s \<longleftrightarrow> (\<exists>l. spend_limit (ctrl s) = Some l \<and> fl_le (accumulated_cost (ctrl s)) l \<and>
     (workers s = [] \<or> (\<exists>f. workers s = [f] \<and> fl_le (f64_add (accumulated_cost (ctrl s)) (pf_estimated_cost f)) l)))"

lemma spend_cstep:
  assumes "cstep 1 s s'" "spend_inv s"
  shows "spend_inv s'"
  using assms
proof cases
  case (fill_pop f c)
  from fill_pop(5) obtain fs n where "can_proceed (ctrl s) (pf_estimated_cost f)" "c = ctrl s\<lparr>pending_files := fs,
      in_flight_files := in_flight_files (ctrl s) @ [\<lparr>if_name = n, if_progress_id = pf_progress_id f\<rparr>]\<rparr>"
    by (rule try_pop_PopFile)
  with fill_pop assms(2) show ?thesis by (auto simp: spend_inv_def can_proceed_def)
next
  case (fill_limit_idle c)
  from fill_limit_idle(5) obtain "c = ctrl s\<lparr>status := Paused\<rparr>" by (rule try_pop_limit)
  with fill_limit_idle assms(2) show ?thesis by (auto simp: spend_inv_def)
next
  case (fill_limit_busy c)
  from fill_limit_busy(5) obtain "c = ctrl s\<lparr>status := Paused\<rparr>" by (rule try_pop_limit)
  with fill_limit_busy assms(2) show ?thesis by (auto simp: spend_inv_def)
next
  case (fill_end r c)
  then show ?thesis using try_pop_end [of "ctrl s" r c] assms(2) by (auto simp: spend_inv_def)
next
  case (join_result xs f ys r c calls)
  then show ?thesis using record_file_result_simps(4,8) [of f r "ctrl s" c calls] assms(2)
    by (auto simp: spend_inv_def append_eq_Cons_conv Cons_eq_append_conv)
next
  case (join_panic xs f ys)
  then show ?thesis using assms(2) by (auto simp: spend_inv_def append_eq_Cons_conv Cons_eq_append_conv)
qed (auto simp: spend_inv_def finish_status_def)

lemma spend_estep:
  assumes "estep raises s s'" "spend_inv s"
  shows "spend_inv s'"
  using assms(1)
proof cases
  case (resume l r c)
  then show ?thesis using resume_batch_cases [of l "ctrl s" r c] assms(2) fl_le_trans
    by (auto simp: spend_inv_def raises_def)
next
  case (cancel r c)
  then show ?thesis using cancel_batch_simps [of "ctrl s" r c] assms(2) by (auto simp: spend_inv_def)
qed

lemma spend_reach:
  assumes "breach 1 raises (new_controller bid (Some l) files loc) s" "fl_le (Fin 0) l"
  shows "spend_inv s"
  using assms(1)
proof induction
  case start
  show ?case using assms(2) by (simp add: spend_inv_def start_run_def new_controller_def)
qed (auto intro: spend_cstep spend_estep)

section \<open>Concrete runs\<close>

text \<open>
  \<open>drive\<close> follows the coordinator deterministically, taking from a script how the first
  worker of the join set ends; \<open>None\<close> is a panic.
\<close>

definition fill_step :: "nat \<Rightarrow> batch_run \<Rightarrow> batch_run" where
  "fill_step maxc s =
     (if all_popped s \<or> \<not> length (workers s) < maxc then s\<lparr>phase := Joining\<rparr>
      else case try_pop_file (ctrl s) of
          (PopFile f, c) \<Rightarrow> s\<lparr>ctrl := c, workers := workers s @ [f]\<rparr>
        | (SpendLimitHit, c) \<Rightarrow> s\<lparr>ctrl := c, phase := (if workers s = [] then Waiting else Joining)\<rparr>
        | (_, c) \<Rightarrow> s\<lparr>ctrl := c, all_popped := True, phase := Joining\<rparr>)"

definition join_step :: "(string + unit) option \<Rightarrow> batch_run \<Rightarrow> batch_run" where
  "join_step r s =
     (case workers s of
        [] \<Rightarrow> (if all_popped s then s\<lparr>ctrl := finish_status (ctrl s), phase := Exited\<rparr> else s\<lparr>phase := Filling\<rparr>)
      | f # fs \<Rightarrow>
          (case r of
             None \<Rightarrow> s\<lparr>workers := fs, phase := Filling, lost := f # lost s\<rparr>
           | Some res \<Rightarrow> (case record_file_result f res (ctrl s) of (c, calls) \<Rightarrow>
               s\<lparr>ctrl := c, workers := fs, phase := Filling, fail_log := fail_log s @ calls\<rparr>)))"

lemma fill_step_sound: "phase s = Filling \<Longrightarrow> cstep maxc s (fill_step maxc s)"
proof -
  assume ph: "phase s = Filling"
  show ?thesis
  proof (cases "all_popped s \<or> \<not> length (workers s) < maxc")
    case True
    with ph show ?thesis by (auto simp: fill_step_def intro: cstep.fill_leave)
  next
    case False
    obtain r c where rc: "try_pop_file (ctrl s) = (r, c)" by (cases "try_pop_file (ctrl s)")
    with False ph show ?thesis
      by (cases r) (auto simp: fill_step_def intro: cstep.intros)
  qed
qed

lemma join_step_sound: "phase s = Joining \<Longrightarrow> cstep maxc s (join_step r s)"
proof -
  assume ph: "phase s = Joining"
  show ?thesis
  proof (cases "workers s")
    case Nil
    with ph show ?thesis by (auto simp: join_step_def intro: cstep.join_exit cstep.join_continue)
  next
    case (Cons f fs)
    then have w: "workers s = [] @ f # fs" by simp
    show ?thesis
    proof (cases r)
      case None
      with cstep.join_panic [OF ph w] Cons show ?thesis by (simp add: join_step_def)
    next
      case (Some res)
      obtain c calls where rec: "record_file_result f res (ctrl s) = (c, calls)" by (cases "record_file_result f res (ctrl s)")
      with cstep.join_result [OF ph w rec] Cons Some show ?thesis by (simp add: join_step_def)
    qed
  qed
qed

fun drive :: "nat \<Rightarrow> (string + unit) option option list \<Rightarrow> batch_run \<Rightarrow> batch_run" where
  "drive maxc [] s = s"
| "drive maxc (x # xs) s =
     drive maxc xs (case (x, phase s) of
         (None, Filling) \<Rightarrow> fill_step maxc s
       | (Some r, Joining) \<Rightarrow> join_step r s
       | _ \<Rightarrow> s)"

lemma drive_reach: "breach maxc allowed c0 s \<Longrightarrow> breach maxc allowed c0 (drive maxc xs s)"
proof (induction xs arbitrary: s)
  case (Cons x xs)
  let ?s = "case (x, phase s) of (None, Filling) \<Rightarrow> fill_step maxc s | (Some r, Joining) \<Rightarrow> join_step r s | _ \<Rightarrow> s"
  have "breach maxc allowed c0 ?s"
    using Cons.prems breach.inner [OF Cons.prems fill_step_sound] breach.inner [OF Cons.prems join_step_sound]
    by (cases x; cases "phase s") auto
  with Cons.IH show ?case by simp
qed simp

definition two_files :: batch_controller where
  "two_files = new_controller ''b'' (Some (Fin 10))
     [\<lparr>pf_path = ''/d/a.txt'', pf_progress_id = ''p1'', pf_estimated_cost = Fin 6\<rparr>,
      \<lparr>pf_path = ''/d/b.txt'', pf_progress_id = ''p2'', pf_estimated_cost = Fin 6\<rparr>] False"

lemma f64_add_6: "f64_add (Fin 0) (Fin 6) = Fin 6" "f64_add (Fin 6) (Fin 6) = Fin 12"
  using f64_add_int [of 0 6] f64_add_int [of 6 6] by simp_all

lemmas run_defs = two_files_def new_controller_def start_run_def fill_step_def join_step_def try_pop_file_def
  can_proceed_def pop_next_file_def add_in_flight_def record_file_result_def record_completed_def
  record_failed_def remove_in_flight_def finish_status_def f64_add_6 Let_def

lemma two_workers_overspend:
  "accumulated_cost (ctrl (drive 2 [None, None, None, Some (Some (Inr ())), None, Some (Some (Inr ())), None, Some None]
     (start_run two_files))) = Fin 12 \<and>
   status (ctrl (drive 2 [None, None, None, Some (Some (Inr ())), None, Some (Some (Inr ())), None, Some None]
     (start_run two_files))) = Completed"
  by (simp add: run_defs del: f64_add.simps)

lemma panicked_worker_completes:
  "status (ctrl (drive 1 [None, None, Some None, None, Some None, Some None] (start_run (new_controller ''b'' None
     [\<lparr>pf_path = ''/d/a.txt'', pf_progress_id = ''p1'', pf_estimated_cost = Fin 6\<rparr>] False)))) = Completed \<and>
   length (in_flight_files (ctrl (drive 1 [None, None, Some None, None, Some None, Some None] (start_run (new_controller ''b'' None
     [\<lparr>pf_path = ''/d/a.txt'', pf_progress_id = ''p1'', pf_estimated_cost = Fin 6\<rparr>] False))))) = 1"
  by (simp add: run_defs del: f64_add.simps)

end
