(* ===== verification/Batch_Spend.thy ===== *)
theory Batch_Spend
  imports Batch_Correct
begin

text \<open>
  What a batch with several workers can spend: sums of costs as the coordinator computes them,
  with rounding, and the bound that the check before each file leaves.
\<close>

section \<open>Rounding twice\<close>

lemma round_at_exact:
  assumes "0 < m" "max emin (rat_log2 (of_int m * 2 powi e) - (p - 1)) \<le> e"
  shows "round_at p emin (of_int m * 2 powi e) = of_int m * 2 powi e"
proof -
  let ?y = "of_int m * 2 powi e :: rat"
  let ?e = "max emin (rat_log2 ?y - (p - 1))"
  have y: "0 < ?y" using assms(1) by simp
  have "?y / 2 powi ?e = of_int m * 2 powi (e - ?e)" by (simp add: power_int_diff)
  also have "\<dots> = of_int (m * 2 ^ nat (e - ?e))" using assms(2) by (simp add: power_int_def)
  finally have q: "?y / 2 powi ?e = of_int (m * 2 ^ nat (e - ?e))" .
  have "of_int (round_even (?y / 2 powi ?e)) * 2 powi ?e = ?y / 2 powi ?e * 2 powi ?e"
    unfolding q round_even_int ..
  also have "\<dots> = ?y" by simp
  finally show ?thesis using y by (simp add: round_at_def Let_def)
qed

lemma round_even_small: "0 \<le> r \<Longrightarrow> r < 1 / 2 \<Longrightarrow> round_even r = 0"
proof -
  assume r: "0 \<le> r" "r < 1 / 2"
  then have "\<lfloor>r\<rfloor> = 0" by (simp add: floor_eq_iff)
  with r show ?thesis by (simp add: round_even_def)
qed

text \<open>A rounded value is a fixed point of rounding.\<close>

lemma round_at_idem:
  assumes "0 < r" "1 \<le> p" "0 < round_at p emin r"
  shows "round_at p emin (round_at p emin r) = round_at p emin r"
proof -
  let ?L = "rat_log2 r" and ?e = "max emin (rat_log2 r - (p - 1))"
  let ?m = "round_even (r / 2 powi ?e)"
  have y: "round_at p emin r = of_int ?m * 2 powi ?e" using assms(1) by (simp add: round_at_def Let_def)
  have "0 < of_int ?m * (2 powi ?e :: rat)" using assms(3) by (simp only: y)
  then have "0 < (of_int ?m :: rat)" by (rule zero_less_mult_pos2) simp
  then have m: "0 < ?m" by simp
  have lt: "r < 2 powi (?L + 1)" by (rule rat_log2_bounds(2) [OF assms(1)])
  have le: "?e \<le> ?L + 1"
  proof (rule ccontr)
    assume "\<not> ?e \<le> ?L + 1"
    then have "(2::rat) powi (?L + 1) \<le> 2 powi (?e - 1)" by (intro power_int_increasing) auto
    with lt have "r < 2 powi (?e - 1)" by linarith
    then have "r < 2 powi ?e * (1 / 2)" by (simp add: power_int_diff)
    then have "r / 2 powi ?e < 1 / 2" by (simp add: pos_divide_less_eq mult.commute)
    with round_even_small [of "r / 2 powi ?e"] assms(1) m show False by simp
  qed
  have up: "round_at p emin r \<le> 2 powi (?L + 1)"
    unfolding y by (rule round_below_power) (use lt le in auto)
  show ?thesis
  proof (cases "round_at p emin r = 2 powi (?L + 1)")
    case True
    let ?k = "?L + 1"
    have "rat_log2 (2 powi ?k) = ?k"
    proof (rule antisym)
      show "rat_log2 (2 powi ?k) \<le> ?k"
      proof (rule ccontr)
        assume "\<not> rat_log2 (2 powi ?k) \<le> ?k"
        then have "(2::rat) powi (?k + 1) \<le> 2 powi (rat_log2 (2 powi ?k))" by (intro power_int_increasing) auto
        with rat_log2_bounds(1) [of "2 powi ?k"] have "(2::rat) powi (?k + 1) \<le> 2 powi ?k" by simp
        then show False by (simp add: power_int_add)
      qed
      show "?k \<le> rat_log2 (2 powi ?k)"
      proof (rule ccontr)
        assume "\<not> ?k \<le> rat_log2 (2 powi ?k)"
        then have "(2::rat) powi (rat_log2 (2 powi ?k) + 1) \<le> 2 powi ?k" by (intro power_int_increasing) auto
        with rat_log2_bounds(2) [of "2 powi ?k"] show False by simp
      qed
    qed
    with round_at_exact [of 1 emin ?k p] assms(2) le True show ?thesis by simp
  next
    case False
    with up have "round_at p emin r < 2 powi (?L + 1)" by simp
    moreover have "2 powi (rat_log2 (round_at p emin r)) \<le> round_at p emin r" by (rule rat_log2_bounds(1) [OF assms(3)])
    ultimately have "(2::rat) powi (rat_log2 (round_at p emin r)) < 2 powi (?L + 1)" by linarith
    have "rat_log2 (round_at p emin r) \<le> ?L"
    proof (rule ccontr)
      assume "\<not> rat_log2 (round_at p emin r) \<le> ?L"
      then have "(2::rat) powi (?L + 1) \<le> 2 powi (rat_log2 (round_at p emin r))" by (intro power_int_increasing) auto
      with \<open>2 powi (rat_log2 (round_at p emin r)) < 2 powi (?L + 1)\<close> show False by simp
    qed
    then have "max emin (rat_log2 (round_at p emin r) - (p - 1)) \<le> ?e" by auto
    from round_at_exact [OF m, of emin ?e p] this show ?thesis unfolding y by simp
  qed
qed

lemma round_stays_nonneg: "0 \<le> r \<Longrightarrow> f64_round r = PInf \<or> (\<exists>y. f64_round r = Fin y \<and> 0 \<le> y \<and> f64_round y = Fin y)"
proof (cases "r = 0")
  case False
  assume r: "0 \<le> r"
  let ?y = "round_at 53 (-1074) r"
  have y: "0 \<le> ?y" by (rule round_at_nonneg [OF r])
  show ?thesis
  proof (cases "2 powi 1024 \<le> \<bar>?y\<bar>")
    case small: False
    have "f64_round ?y = Fin ?y"
    proof (cases "?y = 0")
      case False
      with y have "0 < ?y" by simp
      then show ?thesis using round_at_idem [of r 53 "-1074"] r \<open>r \<noteq> 0\<close> small by (simp add: f64_round_def fl_round_eq)
    qed (simp add: f64_round_def fl_round_def)
    with y small \<open>r \<noteq> 0\<close> show ?thesis by (auto simp: f64_round_def fl_round_eq)
  qed (use r \<open>r \<noteq> 0\<close> in \<open>auto simp: f64_round_def fl_round_eq\<close>)
qed (simp add: f64_round_def fl_round_def)

section \<open>Sums of costs\<close>

text \<open>A sum the coordinator may hold: not negative, and a value of the format.\<close>

definition cost_sum :: "fl \<Rightarrow> bool" where
  "cost_sum x \<longleftrightarrow> x = PInf \<or> (\<exists>y. x = Fin y \<and> 0 \<le> y \<and> f64_round y = Fin y)"

lemma cost_sum_0 [simp]: "cost_sum (Fin 0)"
  by (simp add: cost_sum_def f64_round_def fl_round_def)

lemma cost_sum_nonneg: "cost_sum x \<Longrightarrow> fl_le (Fin 0) x"
  by (auto simp: cost_sum_def)

lemma cost_sum_add: "fl_le (Fin 0) a \<Longrightarrow> fl_le (Fin 0) c \<Longrightarrow> cost_sum (f64_add a c)"
  by (cases a; cases c) (simp_all add: cost_sum_def round_stays_nonneg)

lemma f64_add_mono:
  assumes "fl_le (Fin 0) a" "fl_le a b" "fl_le (Fin 0) c" "fl_le c d"
  shows "fl_le (f64_add a c) (f64_add b d)"
proof -
  have round: "fl_le (f64_round x) (f64_round y)" if "0 \<le> x" "x \<le> y" for x y
    using round_stays_nonneg [of x] round_stays_nonneg [of y] f64_round_mono [OF that] that by auto
  have ne: "fl_le (f64_round x) PInf" if "0 \<le> x" for x using round_stays_nonneg [OF that] by auto
  show ?thesis using assms by (cases a; cases b; cases c; cases d) (simp_all add: round ne)
qed

lemma f64_add_grows:
  assumes "cost_sum a" "fl_le (Fin 0) c"
  shows "fl_le a (f64_add a c)"
proof -
  have "f64_add a (Fin 0) = a" using assms(1) by (auto simp: cost_sum_def)
  moreover have "fl_le (f64_add a (Fin 0)) (f64_add a c)"
    by (rule f64_add_mono) (use assms cost_sum_nonneg in \<open>auto intro: fl_le_refl simp: cost_sum_def\<close>)
  ultimately show ?thesis by simp
qed

text \<open>The limit with the largest cost added \<open>k\<close> times.\<close>

fun overshoot :: "fl \<Rightarrow> fl \<Rightarrow> nat \<Rightarrow> fl" where
  "overshoot l c 0 = l"
| "overshoot l c (Suc k) = f64_add (overshoot l c k) c"

lemma overshoot_nonneg:
  assumes "fl_le (Fin 0) c" "fl_le (Fin 0) l"
  shows "fl_le (Fin 0) (overshoot l c k)"
  by (induction k) (simp_all add: assms cost_sum_nonneg cost_sum_add)

lemma overshoot_mono:
  assumes "fl_le (Fin 0) c" "fl_le (Fin 0) l" "fl_le l l'"
  shows "fl_le (overshoot l c k) (overshoot l' c k)"
proof (induction k)
  case (Suc k)
  have "fl_le c c" using assms(1) by (cases c) auto
  with f64_add_mono [OF overshoot_nonneg [OF assms(1,2)] Suc assms(1)] show ?case by simp
qed (use assms(3) in simp)

section \<open>The bound\<close>

text \<open>
  Since the last file was started, at most as many files completed as have left the join set;
  when it was started the sum, with its own cost, was within the limit.
\<close>

definition costs_within :: "fl \<Rightarrow> pending_file list \<Rightarrow> bool" where
  "costs_within c fs \<longleftrightarrow> list_all (\<lambda>f. fl_le (Fin 0) (pf_estimated_cost f) \<and> fl_le (pf_estimated_cost f) c) fs"

definition overspend_inv :: "nat \<Rightarrow> fl \<Rightarrow> batch_run \<Rightarrow> bool" where
  "overspend_inv maxc c s \<longleftrightarrow>
     costs_within c (pending_files (ctrl s)) \<and> costs_within c (workers s) \<and> cost_sum (accumulated_cost (ctrl s)) \<and>
     (\<exists>l j. spend_limit (ctrl s) = Some l \<and> fl_le (Fin 0) l \<and> j + length (workers s) \<le> maxc \<and>
        fl_le (accumulated_cost (ctrl s)) (overshoot l c j))"

lemma overspend_frame:
  assumes "overspend_inv maxc c s" "pending_files (ctrl s') = pending_files (ctrl s)" "workers s' = workers s"
    "spend_limit (ctrl s') = spend_limit (ctrl s)" "accumulated_cost (ctrl s') = accumulated_cost (ctrl s)"
  shows "overspend_inv maxc c s'"
  using assms by (simp add: overspend_inv_def)

lemma overspend_pop:
  assumes inv: "overspend_inv maxc c s" and room: "length (workers s) < maxc"
    and pop: "try_pop_file (ctrl s) = (PopFile f, k)"
  shows "overspend_inv maxc c (s\<lparr>ctrl := k, workers := workers s @ [f]\<rparr>)"
  using pop
proof (rule try_pop_PopFile)
  fix fs n
  assume p: "pending_files (ctrl s) = f # fs" "can_proceed (ctrl s) (pf_estimated_cost f)" "k = ctrl s\<lparr>pending_files := fs,
    in_flight_files := in_flight_files (ctrl s) @ [\<lparr>if_name = n, if_progress_id = pf_progress_id f\<rparr>]\<rparr>"
  from inv obtain l where l: "spend_limit (ctrl s) = Some l" "fl_le (Fin 0) l" by (auto simp: overspend_inv_def)
  have f: "fl_le (Fin 0) (pf_estimated_cost f)" using inv p(1) by (simp add: overspend_inv_def costs_within_def)
  have "fl_le (accumulated_cost (ctrl s)) (f64_add (accumulated_cost (ctrl s)) (pf_estimated_cost f))"
    by (rule f64_add_grows) (use inv f in \<open>simp_all add: overspend_inv_def\<close>)
  moreover have "fl_le (f64_add (accumulated_cost (ctrl s)) (pf_estimated_cost f)) l" using p(2) l(1) by (simp add: can_proceed_def)
  ultimately have "fl_le (accumulated_cost (ctrl s)) (overshoot l c 0)" using fl_le_trans by simp
  with inv l p room show ?thesis
    by (auto simp: overspend_inv_def costs_within_def intro!: exI [of _ 0])
qed

lemma overspend_result:
  assumes inv: "overspend_inv maxc c s" and w: "workers s = xs @ f # ys" and rec: "record_file_result f r (ctrl s) = (k, calls)"
  shows "overspend_inv maxc c (s\<lparr>ctrl := k, workers := xs @ ys, phase := p, fail_log := g\<rparr>)"
proof -
  note k = record_file_result_simps [OF rec]
  let ?a = "accumulated_cost (ctrl s)" and ?f = "pf_estimated_cost f"
  from inv obtain l j where l: "spend_limit (ctrl s) = Some l" "fl_le (Fin 0) l" "j + length (workers s) \<le> maxc"
    "fl_le ?a (overshoot l c j)" by (auto simp: overspend_inv_def)
  have f: "fl_le (Fin 0) ?f" "fl_le ?f c" and a: "cost_sum ?a" using inv w by (auto simp: overspend_inv_def costs_within_def)
  have sum: "cost_sum (accumulated_cost k)" using k(8) a cost_sum_add [OF cost_sum_nonneg [OF a] f(1)] by auto
  have "fl_le (accumulated_cost k) (overshoot l c (Suc j))"
    using k(8)
  proof
    assume "accumulated_cost k = ?a"
    moreover have "fl_le (f64_add ?a ?f) (overshoot l c (Suc j))"
      using f64_add_mono [OF cost_sum_nonneg [OF a] l(4) f] by simp
    ultimately show ?thesis using fl_le_trans [OF f64_add_grows [OF a f(1)]] by simp
  qed (use f64_add_mono [OF cost_sum_nonneg [OF a] l(4) f] in simp)
  moreover have "Suc j + length (xs @ ys) \<le> maxc" using l(3) w by simp
  moreover have "costs_within c (pending_files k)" "costs_within c (xs @ ys)"
    using inv w by (auto simp: overspend_inv_def costs_within_def k(1))
  ultimately show ?thesis
    unfolding overspend_inv_def using l(1,2) sum k(4) by (intro conjI exI [of _ l] exI [of _ "Suc j"]) simp_all
qed

lemma overspend_cstep:
  assumes "cstep maxc s s'" "overspend_inv maxc c s"
  shows "overspend_inv maxc c s'"
  using assms
proof cases
  case (fill_pop f k)
  then show ?thesis using overspend_pop [OF assms(2)] by simp
next
  case (fill_limit_idle k)
  from fill_limit_idle(5) obtain "k = ctrl s\<lparr>status := Paused\<rparr>" by (rule try_pop_limit)
  with fill_limit_idle show ?thesis by (intro overspend_frame [OF assms(2)]) simp_all
next
  case (fill_limit_busy k)
  from fill_limit_busy(5) obtain "k = ctrl s\<lparr>status := Paused\<rparr>" by (rule try_pop_limit)
  with fill_limit_busy show ?thesis by (intro overspend_frame [OF assms(2)]) simp_all
next
  case (fill_end r k)
  then show ?thesis using try_pop_end [of "ctrl s" r k] by (intro overspend_frame [OF assms(2)]) simp_all
next
  case (join_result xs f ys r k calls)
  then show ?thesis using overspend_result [OF assms(2)] by simp
next
  case (join_panic xs f ys)
  from assms(2) obtain l j where l: "spend_limit (ctrl s) = Some l" "fl_le (Fin 0) l" "j + length (workers s) \<le> maxc"
    "fl_le (accumulated_cost (ctrl s)) (overshoot l c j)" by (auto simp: overspend_inv_def)
  have "costs_within c (pending_files (ctrl s))" "costs_within c (xs @ ys)" "cost_sum (accumulated_cost (ctrl s))"
    using assms(2) join_panic by (auto simp: overspend_inv_def costs_within_def)
  with l join_panic show ?thesis
    unfolding overspend_inv_def by (intro conjI exI [of _ l] exI [of _ j]) simp_all
qed (auto intro!: overspend_frame [OF assms(2)] simp: finish_status_def)

lemma overspend_estep:
  assumes "estep raises s s'" "overspend_inv maxc c s" "fl_le (Fin 0) c"
  shows "overspend_inv maxc c s'"
  using assms(1)
proof cases
  case (resume l r k)
  from assms(2) obtain l0 j where l0: "spend_limit (ctrl s) = Some l0" "fl_le (Fin 0) l0" "j + length (workers s) \<le> maxc"
    "fl_le (accumulated_cost (ctrl s)) (overshoot l0 c j)" by (auto simp: overspend_inv_def)
  with resume have l: "fl_le l0 l" by (simp add: raises_def)
  from fl_le_trans [OF l0(4) overshoot_mono [OF assms(3) l0(2) l]] fl_le_trans [OF l0(2) l] l0(3)
  show ?thesis using resume resume_batch_cases [of l "ctrl s" r k] assms(2)
    by (auto simp: overspend_inv_def)
next
  case (cancel r k)
  then show ?thesis using cancel_batch_simps [of "ctrl s" r k] by (intro overspend_frame [OF assms(2)]) simp_all
qed

lemma overspend_reach:
  assumes "breach maxc raises (new_controller bid (Some l) files loc) s"
    and "fl_le (Fin 0) l" "fl_le (Fin 0) c" "costs_within c files"
  shows "overspend_inv maxc c s"
  using assms(1)
proof induction
  case start
  have "fl_le (Fin 0) (overshoot l c 0)" using assms(2) by simp
  then show ?case using assms(2,4)
    by (auto simp: overspend_inv_def start_run_def new_controller_def costs_within_def intro!: exI [of _ 0])
qed (auto intro: overspend_cstep overspend_estep [OF _ _ assms(3)])

end
