(* ===== verification/Json_Rows.thy ===== *)
theory Json_Rows
  imports Kv_Store
begin

text \<open>
  Rows of JSON in a raw \<^verbatim>\<open>KvStore\<close>. The discovery modules keep each kind of record under a
  key prefix of its own, one serialized row per identifier, and all write the same four
  loops and calls around it: serialize and put, get and deserialize, scan and deserialize
  every row (failing on the first corrupt one, or skipping it), sort by a time stamp.
  Serialization is serde's and a parameter, the codec. The locale \<open>row_family\<close> is what the
  modules rely on of one family of rows; \<open>json_rows\<close> gives it for a prefix over any
  store that meets the storage contract, and families under incomparable prefixes do
  not disturb each other.
\<close>

record ('a, 'b) codec =
  to_vec :: "'a \<Rightarrow> string + 'b"
  from_slice :: "'b \<Rightarrow> string + 'a"

definition sound_codec :: "('a, 'b) codec \<Rightarrow> bool" where
  "sound_codec c = codec_ok (to_vec c) (from_slice c)"

text \<open>The messages are the texts the source puts before the error it reports.\<close>

definition put_json ::
    "string \<Rightarrow> string \<Rightarrow> ('s, string, 'b) kv_ops \<Rightarrow> ('a, 'b) codec \<Rightarrow> 's \<Rightarrow> string \<Rightarrow> 'a
     \<Rightarrow> (string + unit) \<times> 's" where
  "put_json ser_err put_err ops c s key x =
     (case to_vec c x of
        Inl e \<Rightarrow> (Inl (ser_err @ e), s)
      | Inr b \<Rightarrow> (case kv_put ops s key b of (r, s') \<Rightarrow> (map_err (\<lambda>e. put_err @ e) r, s')))"

definition get_json ::
    "string \<Rightarrow> string \<Rightarrow> ('s, string, 'b) kv_ops \<Rightarrow> ('a, 'b) codec \<Rightarrow> 's \<Rightarrow> string
     \<Rightarrow> string + 'a option" where
  "get_json get_err de_err ops c s key =
     res_bind (map_err (\<lambda>e. get_err @ e) (kv_get ops s key)) (\<lambda>value. case value of
        None \<Rightarrow> Inr None
      | Some b \<Rightarrow> res_bind (map_err (\<lambda>e. de_err @ e) (from_slice c b)) (\<lambda>x. Inr (Some x)))"

text \<open>Every row of a prefix; a row that does not deserialize is an error.\<close>

definition scan_json ::
    "string \<Rightarrow> string \<Rightarrow> ('s, string, 'b) kv_ops \<Rightarrow> ('a, 'b) codec \<Rightarrow> 's \<Rightarrow> string
     \<Rightarrow> string + 'a list" where
  "scan_json scan_err de_err ops c s pre =
     res_bind (map_err (\<lambda>e. scan_err @ e) (kv_scan_prefix ops s pre)) (\<lambda>entries.
       collect_res (\<lambda>(_, b). map_err (\<lambda>e. de_err @ e) (from_slice c b)) entries)"

text \<open>Every row of a prefix that deserializes; the others are logged and skipped.\<close>

fun ok_rows :: "('b \<Rightarrow> 'e + 'a) \<Rightarrow> (string \<times> 'b) list \<Rightarrow> 'a list" where
  "ok_rows f [] = []"
| "ok_rows f ((k, b) # rows) = (case f b of Inl _ \<Rightarrow> ok_rows f rows | Inr x \<Rightarrow> x # ok_rows f rows)"

definition scan_json_lenient ::
    "string \<Rightarrow> ('s, string, 'b) kv_ops \<Rightarrow> ('a, 'b) codec \<Rightarrow> 's \<Rightarrow> string \<Rightarrow> string + 'a list" where
  "scan_json_lenient scan_err ops c s pre =
     res_bind (map_err (\<lambda>e. scan_err @ e) (kv_scan_prefix ops s pre)) (\<lambda>entries. Inr (ok_rows (from_slice c) entries))"

lemma put_json_Inr:
  "put_json ser_err put_err ops c s key x = (Inr u, s') \<longleftrightarrow>
     (\<exists>b. to_vec c x = Inr b \<and> kv_put ops s key b = (Inr u, s'))"
  by (cases "to_vec c x"; cases "\<exists>b. to_vec c x = Inr b") (auto simp: put_json_def split: prod.splits)

lemma ok_rows_set: "set (ok_rows f rows) = {x. \<exists>k b. (k, b) \<in> set rows \<and> f b = Inr x}"
  by (induction f rows rule: ok_rows.induct) (auto split: sum.splits)

lemma put_json_fails:
  assumes "kv_reliable ops view" "put_json ser_err put_err ops c s key x = (Inl e, s')"
  shows "s' = s"
proof (cases "to_vec c x")
  case (Inr b)
  obtain t where "kv_put ops s key b = (Inr (), t)" using kv_reliable.put_total [OF assms(1)] by blast
  with assms(2) Inr show ?thesis by (simp add: put_json_def)
qed (use assms(2) in \<open>simp add: put_json_def\<close>)

section \<open>What a family of rows promises\<close>

locale row_family =
  fixes rows :: "'s \<Rightarrow> string \<Rightarrow> 'a option"
    and id_of :: "'a \<Rightarrow> string"
    and save :: "'s \<Rightarrow> 'a \<Rightarrow> (string + unit) \<times> 's"
    and listing :: "'s \<Rightarrow> string + 'a list"
  assumes save_rows: "save s x = (Inr u, s') \<Longrightarrow> rows s' = (rows s)(id_of x \<mapsto> x)"
    and listing_rows: "listing s = Inr xs \<Longrightarrow> set xs = ran (rows s)"
begin

lemma saved_listed: "save s x = (Inr u, s') \<Longrightarrow> listing s' = Inr xs \<Longrightarrow> x \<in> set xs"
  using save_rows listing_rows by (force simp: ran_def)

text \<open>Saving a row changes the listing by that row: it replaces the one of the same identifier.\<close>

lemma save_listing:
  assumes "save s x = (Inr u, s')" "listing s = Inr xs" "listing s' = Inr ys"
    and "\<And>i y. rows s i = Some y \<Longrightarrow> id_of y = i"
  shows "set ys = insert x {y \<in> set xs. id_of y \<noteq> id_of x}"
  using save_rows [OF assms(1)] listing_rows [OF assms(2)] listing_rows [OF assms(3)] assms(4)
  by (auto simp: ran_def split: if_splits)

end

section \<open>Rows under a prefix\<close>

definition rows_at ::
    "('s \<Rightarrow> string \<Rightarrow> 'b option) \<Rightarrow> ('a, 'b) codec \<Rightarrow> string \<Rightarrow> 's \<Rightarrow> string \<Rightarrow> 'a option" where
  "rows_at view c pre s i =
     (case view s (pre @ i) of
        None \<Rightarrow> None
      | Some b \<Rightarrow> (case from_slice c b of Inl _ \<Rightarrow> None | Inr x \<Rightarrow> Some x))"

lemma rows_at_Some:
  "rows_at view c pre s i = Some x \<longleftrightarrow> (\<exists>b. view s (pre @ i) = Some b \<and> from_slice c b = Inr x)"
  by (auto simp: rows_at_def split: option.splits sum.splits)

lemma ran_rows_at:
  "x \<in> ran (rows_at view c pre s) \<longleftrightarrow> (\<exists>i b. view s (pre @ i) = Some b \<and> from_slice c b = Inr x)"
  by (simp add: ran_def rows_at_Some)

text \<open>Neither prefix extends the other, so no key belongs to both families.\<close>

definition prefixes_apart :: "string \<Rightarrow> string \<Rightarrow> bool" where
  "prefixes_apart p q \<longleftrightarrow> \<not> prefix p q \<and> \<not> prefix q p"

lemma prefixes_apartD: "prefixes_apart p q \<Longrightarrow> p @ a \<noteq> q @ b"
  unfolding prefixes_apart_def by (metis prefixI prefix_same_cases)

locale json_rows = kv_store ops view
  for ops :: "('s, string, 'b) kv_ops" and view +
  fixes c :: "('a, 'b) codec"
  assumes codec_sound: "sound_codec c"
begin

lemma put_json_view:
  assumes "put_json ser_err put_err ops c s key x = (Inr u, s')"
  shows "\<exists>b. from_slice c b = Inr x \<and> view s' = (view s)(key \<mapsto> b)"
  using assms put_ok codec_sound
  by (fastforce simp: put_json_Inr sound_codec_def dest: codec_okD)

lemma put_json_rows:
  assumes "put_json ser_err put_err ops c s (pre @ i) x = (Inr u, s')"
  shows "rows_at view c pre s' = (rows_at view c pre s)(i \<mapsto> x)"
proof -
  obtain b where "from_slice c b = Inr x" "view s' = (view s)(pre @ i \<mapsto> b)"
    using put_json_view [OF assms] by blast
  then show ?thesis by (auto simp: rows_at_def fun_eq_iff)
qed

lemma put_json_frame:
  assumes "put_json ser_err put_err ops c s (pre @ i) x = (Inr u, s')" "prefixes_apart pre q"
  shows "view s' (q @ j) = view s (q @ j)"
  using put_json_view [OF assms(1)] prefixes_apartD [OF assms(2), of i j] by auto

lemma get_row:
  "kv_get ops s (pre @ i) = Inr (Some b) \<Longrightarrow> from_slice c b = Inr x \<Longrightarrow> rows_at view c pre s i = Some x"
  using get_ok [of s "pre @ i" "Some b"] by (auto simp: rows_at_Some intro: sym)

lemma get_json_rows:
  assumes "get_json get_err de_err ops c s (pre @ i) = Inr r"
  shows "r = rows_at view c pre s i"
proof -
  from assms obtain v where v: "kv_get ops s (pre @ i) = Inr v"
    by (auto simp: get_json_def res_bind_eq_Inr)
  from get_ok [OF v] assms v show ?thesis
    by (auto simp: get_json_def rows_at_def res_bind_eq_Inr split: option.splits)
qed

lemma scan_json_rows:
  assumes "scan_json scan_err de_err ops c s pre = Inr xs"
  shows "set xs = ran (rows_at view c pre s)"
proof -
  from assms obtain entries where e: "kv_scan_prefix ops s pre = Inr entries"
    "list_all2 (\<lambda>e y. from_slice c (snd e) = Inr y) entries xs"
    by (auto simp: scan_json_def res_bind_eq_Inr collect_res_Inr case_prod_beta)
  have law: "(k, b) \<in> set entries \<longleftrightarrow> prefix pre k \<and> view s k = Some b" for k b
    using scan_ok [OF e(1)] by blast
  have "x \<in> set xs \<longleftrightarrow> (\<exists>e \<in> set entries. from_slice c (snd e) = Inr x)" for x
    using e(2) by (induction rule: list_all2_induct) auto
  then have "x \<in> set xs \<longleftrightarrow> (\<exists>k b. (k, b) \<in> set entries \<and> from_slice c b = Inr x)" for x
    by force
  then have "x \<in> set xs \<longleftrightarrow> (\<exists>i b. view s (pre @ i) = Some b \<and> from_slice c b = Inr x)" for x
    unfolding law by (auto simp: prefix_def)
  then show ?thesis by (simp add: set_eq_iff ran_rows_at)
qed

lemma scan_json_lenient_rows:
  assumes "scan_json_lenient scan_err ops c s pre = Inr xs"
  shows "set xs = ran (rows_at view c pre s)"
proof -
  from assms obtain entries where e: "kv_scan_prefix ops s pre = Inr entries" "xs = ok_rows (from_slice c) entries"
    by (auto simp: scan_json_lenient_def res_bind_eq_Inr)
  have law: "(k, b) \<in> set entries \<longleftrightarrow> prefix pre k \<and> view s k = Some b" for k b
    using scan_ok [OF e(1)] by blast
  have "x \<in> set xs \<longleftrightarrow> (\<exists>i b. view s (pre @ i) = Some b \<and> from_slice c b = Inr x)" for x
    unfolding e(2) ok_rows_set mem_Collect_eq law by (auto simp: prefix_def)
  then show ?thesis by (simp add: set_eq_iff ran_rows_at)
qed

lemma row_family_strict:
  "row_family (rows_at view c pre) id_of (\<lambda>s x. put_json ser_err put_err ops c s (pre @ id_of x) x)
     (\<lambda>s. scan_json scan_err de_err ops c s pre)"
  by unfold_locales (auto dest: put_json_rows scan_json_rows)

lemma row_family_lenient:
  "row_family (rows_at view c pre) id_of (\<lambda>s x. put_json ser_err put_err ops c s (pre @ id_of x) x)
     (\<lambda>s. scan_json_lenient scan_err ops c s pre)"
  by unfold_locales (auto dest: put_json_rows scan_json_lenient_rows)

end

section \<open>The identity codec\<close>

definition plain_codec :: "('a, 'a) codec" where
  "plain_codec = \<lparr>to_vec = Inr, from_slice = Inr\<rparr>"

lemma plain_codec_sound [simp]: "sound_codec plain_codec"
  by (simp add: sound_codec_def codec_ok_def plain_codec_def)

interpretation plain_rows: json_rows mem_ops map_of plain_codec
  by (intro json_rows.intro mem.kv_store_axioms json_rows_axioms.intro plain_codec_sound)

end
