(* ===== verification/Connections.thy ===== *)
theory Connections
  imports Json_Rows Fingerprint_Keys
begin

text \<open>
  \<^verbatim>\<open>src/discovery/connection.rs\<close>: the sealed box connection messages travel in, and the two
  local tables of connection requests. X25519, HKDF and AES-256-GCM (the crates
  \<^verbatim>\<open>x25519_dalek\<close>, \<^verbatim>\<open>hkdf\<close> and \<^verbatim>\<open>aes_gcm\<close>) are the parameter \<open>box_crypto\<close>; the ephemeral
  secret and the nonce, drawn at random by the source, and the current time are arguments.
  The results: what was sealed to a key is what its owner opens; answering a request
  changes one row, and an answered sent request is never changed again.
\<close>

section \<open>Messages\<close>

record identity_card_payload =
  icp_display_name :: string
  icp_contact_hint :: "string option"
  icp_node_public_key :: string

record connection_payload =
  cp_message_type :: string
  cp_message :: string
  cp_sender_public_key :: string
  cp_sender_pseudonym :: string
  cp_reply_public_key :: string
  cp_identity_card :: "identity_card_payload option"
  cp_preferred_role :: "string option"
  cp_network_keys :: "string list option"
  cp_request_id :: "string option"
  cp_identity_pseudonym :: "string option"

record referral_query_payload =
  rq_message_type :: string
  rq_query_id :: string
  rq_subject_pseudonym :: string
  rq_subject_public_key :: string
  rq_sender_pseudonym :: string
  rq_reply_public_key :: string
  rq_subject_identity_pseudonym :: "string option"

record referral_response_payload =
  rr_message_type :: string
  rr_query_id :: string
  rr_known_as :: string
  rr_sender_pseudonym :: string
  rr_reply_public_key :: string
  rr_voucher_identity_pseudonym :: "string option"

record vouch =
  v_voucher_display_name :: string
  v_known_as :: string
  v_received_at :: string

record mutual_contact =
  mc_display_name :: string
  mc_public_key :: string

section \<open>The sealed box\<close>

record 'sk box_crypto =
  hkdf :: "bytes option \<Rightarrow> bytes \<Rightarrow> bytes \<Rightarrow> string + bytes"
  secret_from :: "bytes \<Rightarrow> 'sk"
  public_from :: "'sk \<Rightarrow> bytes"
  diffie_hellman :: "'sk \<Rightarrow> bytes \<Rightarrow> bytes"
  aes_key_check :: "bytes \<Rightarrow> string + unit"
  aes_encrypt :: "bytes \<Rightarrow> bytes \<Rightarrow> bytes \<Rightarrow> string + bytes"
  aes_decrypt :: "bytes \<Rightarrow> bytes \<Rightarrow> bytes \<Rightarrow> string + bytes"

definition aes_info :: bytes where
  "aes_info = as_bytes ''connection-request-aes''"

definition serialize_to_vec :: "('a, 'b) codec \<Rightarrow> string \<Rightarrow> 'a \<Rightarrow> string + 'b" where
  "serialize_to_vec c what x = map_err (\<lambda>e. ''Failed to serialize '' @ what @ '': '' @ e) (to_vec c x)"

definition deserialize_from_slice :: "('a, 'b) codec \<Rightarrow> string \<Rightarrow> 'b \<Rightarrow> string + 'a" where
  "deserialize_from_slice c what b = map_err (\<lambda>e. ''Failed to deserialize '' @ what @ '': '' @ e) (from_slice c b)"

text \<open>\<open>pseudonym\<close> is given by its sixteen bytes. The expansion cannot fail for 32 bytes: the source unwraps it.\<close>

definition derive_pseudonym_keypair :: "'sk box_crypto \<Rightarrow> bytes \<Rightarrow> bytes \<Rightarrow> ('sk \<times> bytes) option" where
  "derive_pseudonym_keypair cr master_key pseudonym =
     (case hkdf cr (Some pseudonym) master_key (as_bytes ''discovery-x25519-keypair'') of
        Inl _ \<Rightarrow> None
      | Inr seed \<Rightarrow> (let secret = secret_from cr seed in Some (secret, public_from cr secret)))"

definition encrypt_connection_message ::
    "'sk box_crypto \<Rightarrow> (connection_payload, bytes) codec \<Rightarrow> 'sk \<Rightarrow> bytes \<Rightarrow> bytes \<Rightarrow> connection_payload
     \<Rightarrow> string + bytes" where
  "encrypt_connection_message cr c ephemeral_secret nonce_bytes target_public_key payload =
     (let ephemeral_public = public_from cr ephemeral_secret;
          shared_secret = diffie_hellman cr ephemeral_secret target_public_key
      in res_bind (map_err (\<lambda>e. ''HKDF expand failed: '' @ e)
           (hkdf cr None shared_secret aes_info)) (\<lambda>aes_key.
         res_bind (serialize_to_vec c ''payload'' payload) (\<lambda>plaintext.
         res_bind (map_err (\<lambda>e. ''Invalid AES key: '' @ e) (aes_key_check cr aes_key)) (\<lambda>_.
         res_bind (map_err (\<lambda>e. ''Encryption failed: '' @ e) (aes_encrypt cr aes_key nonce_bytes plaintext)) (\<lambda>ciphertext.
         Inr (ephemeral_public @ nonce_bytes @ ciphertext))))))"

definition decrypt_connection_message ::
    "'sk box_crypto \<Rightarrow> (connection_payload, bytes) codec \<Rightarrow> 'sk \<Rightarrow> bytes \<Rightarrow> string + connection_payload" where
  "decrypt_connection_message cr c our_secret encrypted =
     (if length encrypted < 32 + 12 + 16 then Inl ''Encrypted message too short''
      else (let ephemeral_public = take 32 encrypted;
                shared_secret = diffie_hellman cr our_secret ephemeral_public
            in res_bind (map_err (\<lambda>e. ''HKDF expand failed: '' @ e)
                 (hkdf cr None shared_secret aes_info)) (\<lambda>aes_key.
               let nonce_bytes = take 12 (drop 32 encrypted); ciphertext = drop 44 encrypted in
               res_bind (map_err (\<lambda>e. ''Invalid AES key: '' @ e) (aes_key_check cr aes_key)) (\<lambda>_.
               res_bind (map_err (\<lambda>_. ''Decryption failed (wrong key or tampered message)'')
                 (aes_decrypt cr aes_key nonce_bytes ciphertext)) (\<lambda>plaintext.
               deserialize_from_slice c ''payload'' plaintext)))))"

definition encrypt_message ::
    "'sk box_crypto \<Rightarrow> ('p, bytes) codec \<Rightarrow> 'sk \<Rightarrow> bytes \<Rightarrow> bytes \<Rightarrow> 'p \<Rightarrow> string + bytes" where
  "encrypt_message cr c ephemeral_secret nonce_bytes target_public_key payload =
     (let ephemeral_public = public_from cr ephemeral_secret;
          shared_secret = diffie_hellman cr ephemeral_secret target_public_key
      in res_bind (map_err (\<lambda>e. ''HKDF expand failed: '' @ e)
           (hkdf cr None shared_secret aes_info)) (\<lambda>aes_key.
         res_bind (serialize_to_vec c ''payload'' payload) (\<lambda>plaintext.
         res_bind (map_err (\<lambda>e. ''Invalid AES key: '' @ e) (aes_key_check cr aes_key)) (\<lambda>_.
         res_bind (map_err (\<lambda>e. ''Encryption failed: '' @ e) (aes_encrypt cr aes_key nonce_bytes plaintext)) (\<lambda>ciphertext.
         Inr (ephemeral_public @ nonce_bytes @ ciphertext))))))"

text \<open>The codec is the one of \<^verbatim>\<open>serde_json::Value\<close> in the source.\<close>

definition decrypt_message_raw ::
    "'sk box_crypto \<Rightarrow> ('v, bytes) codec \<Rightarrow> 'sk \<Rightarrow> bytes \<Rightarrow> string + 'v" where
  "decrypt_message_raw cr c our_secret encrypted =
     (if length encrypted < 32 + 12 + 16 then Inl ''Encrypted message too short''
      else (let ephemeral_public = take 32 encrypted;
                shared_secret = diffie_hellman cr our_secret ephemeral_public
            in res_bind (map_err (\<lambda>e. ''HKDF expand failed: '' @ e)
                 (hkdf cr None shared_secret aes_info)) (\<lambda>aes_key.
               let nonce_bytes = take 12 (drop 32 encrypted); ciphertext = drop 44 encrypted in
               res_bind (map_err (\<lambda>e. ''Invalid AES key: '' @ e) (aes_key_check cr aes_key)) (\<lambda>_.
               res_bind (map_err (\<lambda>_. ''Decryption failed (wrong key or tampered message)'')
                 (aes_decrypt cr aes_key nonce_bytes ciphertext)) (\<lambda>plaintext.
               deserialize_from_slice c ''payload'' plaintext)))))"

section \<open>Local tables\<close>

record local_connection_request =
  lr_request_id :: string
  lr_message_id :: string
  lr_target_pseudonym :: string
  lr_sender_pseudonym :: string
  lr_sender_public_key :: string
  lr_reply_public_key :: string
  lr_message :: string
  lr_status :: string
  lr_created_at :: string
  lr_responded_at :: "string option"
  lr_vouches :: "vouch list"
  lr_referral_query_id :: "string option"
  lr_referral_contacts_queried :: nat
  lr_mutual_contacts :: "mutual_contact list"
  lr_sender_request_id :: "string option"
  lr_sender_identity_pseudonym :: "string option"

record local_sent_request =
  ls_request_id :: string
  ls_target_pseudonym :: string
  ls_sender_pseudonym :: string
  ls_message :: string
  ls_status :: string
  ls_created_at :: string
  ls_preferred_role :: "string option"

definition CONN_REQ_PREFIX :: string where
  "CONN_REQ_PREFIX = ''discovery:conn_req:''"

definition CONN_SENT_PREFIX :: string where
  "CONN_SENT_PREFIX = ''discovery:conn_sent:''"

definition save_received_request ::
    "('s, string, 'b) kv_ops \<Rightarrow> (local_connection_request, 'b) codec \<Rightarrow> 's \<Rightarrow> local_connection_request
     \<Rightarrow> (string + unit) \<times> 's" where
  "save_received_request ops c s request =
     put_json ''Failed to serialize request: '' ''Failed to save request: ''
       ops c s (CONN_REQ_PREFIX @ lr_request_id request) request"

definition list_received_requests ::
    "('s, string, 'b) kv_ops \<Rightarrow> (local_connection_request, 'b) codec \<Rightarrow> 's
     \<Rightarrow> string + local_connection_request list" where
  "list_received_requests ops c s =
     res_bind (scan_json_lenient ''Failed to scan requests: '' ops c s CONN_REQ_PREFIX) (\<lambda>requests.
       Inr (sort_desc lr_created_at requests))"

text \<open>\<open>now\<close> is the rendered current time.\<close>

definition update_request_status ::
    "('s, string, 'b) kv_ops \<Rightarrow> (local_connection_request, 'b) codec \<Rightarrow> string \<Rightarrow> 's \<Rightarrow> string \<Rightarrow> string
     \<Rightarrow> (string + local_connection_request) \<times> 's" where
  "update_request_status ops c now s request_id status =
     (let key = CONN_REQ_PREFIX @ request_id in
      case res_bind (map_err (\<lambda>e. ''Failed to get request: '' @ e) (kv_get ops s key)) (\<lambda>value.
           res_bind (ok_or (''Request '' @ request_id @ '' not found'') value) (\<lambda>b.
           res_bind (deserialize_from_slice c ''request'' b) (\<lambda>request.
             Inr (request\<lparr>lr_status := status, lr_responded_at := Some now\<rparr>)))) of
        Inl e \<Rightarrow> (Inl e, s)
      | Inr request \<Rightarrow>
          (case put_json ''Failed to serialize request: '' ''Failed to save request: ''
                  ops c s key request of
             (Inl e, s') \<Rightarrow> (Inl e, s')
           | (Inr _, s') \<Rightarrow> (Inr request, s')))"

definition save_sent_request ::
    "('s, string, 'b) kv_ops \<Rightarrow> (local_sent_request, 'b) codec \<Rightarrow> 's \<Rightarrow> local_sent_request
     \<Rightarrow> (string + unit) \<times> 's" where
  "save_sent_request ops c s request =
     put_json ''Failed to serialize sent request: '' ''Failed to save sent request: ''
       ops c s (CONN_SENT_PREFIX @ ls_request_id request) request"

definition list_sent_requests ::
    "('s, string, 'b) kv_ops \<Rightarrow> (local_sent_request, 'b) codec \<Rightarrow> 's \<Rightarrow> string + local_sent_request list" where
  "list_sent_requests ops c s =
     res_bind (scan_json_lenient ''Failed to scan sent requests: '' ops c s CONN_SENT_PREFIX) (\<lambda>requests.
       Inr (sort_desc ls_created_at requests))"

definition sent_matches :: "string \<Rightarrow> string option \<Rightarrow> local_sent_request \<Rightarrow> bool" where
  "sent_matches target_pseudonym request_id req =
     (case request_id of
        Some rid \<Rightarrow> ls_request_id req = rid
      | None \<Rightarrow> ls_target_pseudonym req = target_pseudonym)"

text \<open>The loop over the scanned rows: the first pending row that matches.\<close>

fun find_pending_sent ::
    "(local_sent_request, 'b) codec \<Rightarrow> string \<Rightarrow> string option \<Rightarrow> (string \<times> 'b) list
     \<Rightarrow> (string \<times> local_sent_request) option" where
  "find_pending_sent c target rid [] = None"
| "find_pending_sent c target rid ((key, b) # entries) =
     (case from_slice c b of
        Inl _ \<Rightarrow> find_pending_sent c target rid entries
      | Inr req \<Rightarrow>
          if ls_status req \<noteq> ''pending'' then find_pending_sent c target rid entries
          else if sent_matches target rid req then Some (key, req)
          else find_pending_sent c target rid entries)"

definition update_sent_request_status ::
    "('s, string, 'b) kv_ops \<Rightarrow> (local_sent_request, 'b) codec \<Rightarrow> 's \<Rightarrow> string \<Rightarrow> string option \<Rightarrow> string
     \<Rightarrow> (string + local_sent_request option) \<times> 's" where
  "update_sent_request_status ops c s target_pseudonym request_id status =
     (case map_err (\<lambda>e. ''Failed to scan sent requests: '' @ e) (kv_scan_prefix ops s CONN_SENT_PREFIX) of
        Inl e \<Rightarrow> (Inl e, s)
      | Inr entries \<Rightarrow>
          (case find_pending_sent c target_pseudonym request_id entries of
             None \<Rightarrow> (Inr None, s)
           | Some (key, req) \<Rightarrow>
               (let req' = req\<lparr>ls_status := status\<rparr> in
                case put_json ''Failed to serialize: '' ''Failed to update: '' ops c s key req' of
                  (Inl e, s') \<Rightarrow> (Inl e, s')
                | (Inr _, s') \<Rightarrow> (Inr (Some req'), s'))))"

text \<open>\<open>b64\<close> is the Base64 rendering.\<close>

definition get_pseudonym_public_key_b64 ::
    "'sk box_crypto \<Rightarrow> (bytes \<Rightarrow> string) \<Rightarrow> bytes \<Rightarrow> bytes \<Rightarrow> string option" where
  "get_pseudonym_public_key_b64 cr b64 master_key pseudonym =
     map_option (\<lambda>(_, public). b64 public) (derive_pseudonym_keypair cr master_key pseudonym)"

section \<open>Sealing and opening\<close>

text \<open>
  What is relied on of the cryptography: public keys are 32 bytes, both sides of the key
  exchange compute the same secret, the key derivation and the cipher accept their inputs, and
  an authenticated ciphertext is the plaintext and a 16-byte tag and decrypts to it.
\<close>

definition box_ok :: "'sk box_crypto \<Rightarrow> bool" where
  "box_ok cr \<longleftrightarrow>
     (\<forall>a. length (public_from cr a) = 32) \<and>
     (\<forall>a b. diffie_hellman cr a (public_from cr b) = diffie_hellman cr b (public_from cr a)) \<and>
     (\<forall>salt ikm info. \<exists>k. hkdf cr salt ikm info = Inr k) \<and>
     (\<forall>salt ikm info k. hkdf cr salt ikm info = Inr k \<longrightarrow> aes_key_check cr k = Inr ()) \<and>
     (\<forall>k n p. \<exists>ct. aes_encrypt cr k n p = Inr ct) \<and>
     (\<forall>k n p ct. aes_encrypt cr k n p = Inr ct \<longrightarrow> length ct = length p + 16 \<and> aes_decrypt cr k n ct = Inr p)"

lemma box_okD:
  assumes "box_ok cr"
  shows "length (public_from cr a) = 32"
    and "diffie_hellman cr a (public_from cr b) = diffie_hellman cr b (public_from cr a)"
    and "\<exists>k. hkdf cr salt ikm info = Inr k"
    and "hkdf cr salt ikm info = Inr k \<Longrightarrow> aes_key_check cr k = Inr ()"
    and "\<exists>ct. aes_encrypt cr k n p = Inr ct"
    and "aes_encrypt cr k n p = Inr ct \<Longrightarrow> length ct = length p + 16"
    and "aes_encrypt cr k n p = Inr ct \<Longrightarrow> aes_decrypt cr k n ct = Inr p"
  using assms unfolding box_ok_def by blast+

text \<open>The two sealing routines are one, as are the two opening routines.\<close>

lemma encrypt_connection_message_eq: "encrypt_connection_message = encrypt_message"
  by (intro ext) (simp only: encrypt_connection_message_def encrypt_message_def)

lemma decrypt_connection_message_eq: "decrypt_connection_message = decrypt_message_raw"
  by (intro ext) (simp only: decrypt_connection_message_def decrypt_message_raw_def)

lemma encrypt_message_Inr:
  assumes "box_ok cr" "encrypt_message cr c eph nonce (public_from cr sk) p = Inr out"
  obtains k plain ct where
    "hkdf cr None (diffie_hellman cr sk (public_from cr eph)) aes_info = Inr k"
    "to_vec c p = Inr plain" "aes_encrypt cr k nonce plain = Inr ct" "out = public_from cr eph @ nonce @ ct"
  using assms(2) unfolding encrypt_message_def Let_def box_okD(2) [OF assms(1), of eph sk]
  by (auto simp: res_bind_eq_Inr serialize_to_vec_def)

lemma open_sealed:
  assumes ok: "box_ok cr" and sealed: "encrypt_message cr c eph nonce (public_from cr sk) p = Inr out"
    and nonce: "length nonce = 12"
  shows "decrypt_message_raw cr c' sk out =
     res_bind (to_vec c p) (\<lambda>plain. deserialize_from_slice c' ''payload'' plain)"
proof -
  obtain k plain ct where k: "hkdf cr None (diffie_hellman cr sk (public_from cr eph)) aes_info = Inr k"
    and plain: "to_vec c p = Inr plain" and ct: "aes_encrypt cr k nonce plain = Inr ct"
    and out: "out = public_from cr eph @ nonce @ ct"
    by (rule encrypt_message_Inr [OF ok sealed])
  have len: "length (public_from cr eph) = 32" "length ct = length plain + 16"
    using box_okD [OF ok] ct by auto
  have parts: "take 32 out = public_from cr eph" "take 12 (drop 32 out) = nonce" "drop 44 out = ct"
    "\<not> length out < 60"
    using len nonce by (simp_all add: out)
  show ?thesis
    unfolding decrypt_message_raw_def Let_def parts
    using box_okD(4) [OF ok k] box_okD(7) [OF ok ct] by (simp add: parts(4) k plain)
qed

lemma seal_total:
  assumes "box_ok cr" "to_vec c p = Inr plain"
  shows "\<exists>out. encrypt_message cr c eph nonce target p = Inr out"
proof -
  obtain k where k: "hkdf cr None (diffie_hellman cr eph target) aes_info = Inr k"
    using box_okD(3) [OF assms(1)] by blast
  obtain ct where "aes_encrypt cr k nonce plain = Inr ct" using box_okD(5) [OF assms(1)] by blast
  with k box_okD(4) [OF assms(1) k] assms(2) show ?thesis
    by (simp add: encrypt_message_def serialize_to_vec_def)
qed

section \<open>The tables as families of rows\<close>

lemma received_family:
  assumes "json_rows ops view c"
  shows "row_family (rows_at view c CONN_REQ_PREFIX) lr_request_id (save_received_request ops c) (list_received_requests ops c)"
proof
  fix s x u s'
  assume "save_received_request ops c s x = (Inr u, s')"
  then show "rows_at view c CONN_REQ_PREFIX s' = (rows_at view c CONN_REQ_PREFIX s)(lr_request_id x \<mapsto> x)"
    unfolding save_received_request_def by (rule json_rows.put_json_rows [OF assms])
next
  fix s xs
  assume "list_received_requests ops c s = Inr xs"
  then show "set xs = ran (rows_at view c CONN_REQ_PREFIX s)"
    using json_rows.scan_json_lenient_rows [OF assms] by (auto simp: list_received_requests_def res_bind_eq_Inr)
qed

lemma sent_family:
  assumes "json_rows ops view c"
  shows "row_family (rows_at view c CONN_SENT_PREFIX) ls_request_id (save_sent_request ops c) (list_sent_requests ops c)"
proof
  fix s x u s'
  assume "save_sent_request ops c s x = (Inr u, s')"
  then show "rows_at view c CONN_SENT_PREFIX s' = (rows_at view c CONN_SENT_PREFIX s)(ls_request_id x \<mapsto> x)"
    unfolding save_sent_request_def by (rule json_rows.put_json_rows [OF assms])
next
  fix s xs
  assume "list_sent_requests ops c s = Inr xs"
  then show "set xs = ran (rows_at view c CONN_SENT_PREFIX s)"
    using json_rows.scan_json_lenient_rows [OF assms] by (auto simp: list_sent_requests_def res_bind_eq_Inr)
qed

interpretation mem_received: row_family "rows_at map_of plain_codec CONN_REQ_PREFIX" lr_request_id
    "save_received_request mem_ops plain_codec" "list_received_requests mem_ops plain_codec"
  by (rule received_family [OF plain_rows.json_rows_axioms])

interpretation mem_sent: row_family "rows_at map_of plain_codec CONN_SENT_PREFIX" ls_request_id
    "save_sent_request mem_ops plain_codec" "list_sent_requests mem_ops plain_codec"
  by (rule sent_family [OF plain_rows.json_rows_axioms])

lemma update_request_effect:
  assumes store: "json_rows ops view c" and run: "update_request_status ops c now s rid status = (Inr r, s')"
  shows "\<exists>old. rows_at view c CONN_REQ_PREFIX s rid = Some old \<and> r = old\<lparr>lr_status := status, lr_responded_at := Some now\<rparr> \<and>
     rows_at view c CONN_REQ_PREFIX s' = (rows_at view c CONN_REQ_PREFIX s)(rid \<mapsto> r)"
proof -
  from run obtain b old where old: "kv_get ops s (CONN_REQ_PREFIX @ rid) = Inr (Some b)" "from_slice c b = Inr old"
    "r = old\<lparr>lr_status := status, lr_responded_at := Some now\<rparr>"
    and put: "put_json ''Failed to serialize request: '' ''Failed to save request: '' ops c s
      (CONN_REQ_PREFIX @ rid) r = (Inr (), s')"
    by (auto simp: update_request_status_def deserialize_from_slice_def res_bind_eq_Inr Let_def split: sum.splits prod.splits)
  have "rows_at view c CONN_REQ_PREFIX s rid = Some old"
    by (rule json_rows.get_row [OF store old(1,2)])
  with old(3) json_rows.put_json_rows [OF store put] show ?thesis by blast
qed

section \<open>Answers to sent requests\<close>

lemma find_pending_sent_Some:
  "find_pending_sent c target rid entries = Some (key, req) \<Longrightarrow>
     \<exists>b. (key, b) \<in> set entries \<and> from_slice c b = Inr req \<and> ls_status req = ''pending'' \<and> sent_matches target rid req"
  by (induction c target rid entries rule: find_pending_sent.induct) (auto split: sum.splits if_splits)

lemma find_pending_sent_None:
  "find_pending_sent c target rid entries = None \<Longrightarrow> (key, b) \<in> set entries \<Longrightarrow> from_slice c b = Inr req \<Longrightarrow>
     ls_status req = ''pending'' \<Longrightarrow> \<not> sent_matches target rid req"
  by (induction c target rid entries rule: find_pending_sent.induct) (auto split: sum.splits if_splits)

lemma update_sent_effect:
  assumes store: "json_rows ops view c" and run: "update_sent_request_status ops c s target rid status = (Inr (Some r), s')"
  shows "\<exists>i old. rows_at view c CONN_SENT_PREFIX s i = Some old \<and> ls_status old = ''pending'' \<and> sent_matches target rid old \<and>
     r = old\<lparr>ls_status := status\<rparr> \<and> rows_at view c CONN_SENT_PREFIX s' = (rows_at view c CONN_SENT_PREFIX s)(i \<mapsto> r)"
proof -
  from run obtain entries key old where scan: "kv_scan_prefix ops s CONN_SENT_PREFIX = Inr entries"
    and found: "find_pending_sent c target rid entries = Some (key, old)" and r: "r = old\<lparr>ls_status := status\<rparr>"
    and put: "put_json ''Failed to serialize: '' ''Failed to update: '' ops c s key r = (Inr (), s')"
    by (auto simp: update_sent_request_status_def Let_def map_err_def split: sum.splits option.splits prod.splits)
  obtain b where b: "(key, b) \<in> set entries" "from_slice c b = Inr old" "ls_status old = ''pending''" "sent_matches target rid old"
    using find_pending_sent_Some [OF found] by blast
  have "prefix CONN_SENT_PREFIX key" "view s key = Some b"
    using kv_store.scan_ok [OF json_rows.axioms(1) [OF store] scan] b(1) by auto
  then obtain i where key: "key = CONN_SENT_PREFIX @ i" "rows_at view c CONN_SENT_PREFIX s i = Some old"
    using b(2) by (auto simp: prefix_def rows_at_Some)
  from json_rows.put_json_rows [OF store put [unfolded key(1)]] key(2) b(3,4) r show ?thesis by blast
qed

lemma update_sent_none:
  assumes store: "json_rows ops view c" and run: "update_sent_request_status ops c s target rid status = (Inr None, s')"
    and row: "rows_at view c CONN_SENT_PREFIX s i = Some r" "ls_status r = ''pending''"
  shows "s' = s \<and> \<not> sent_matches target rid r"
proof -
  from run obtain entries where scan: "kv_scan_prefix ops s CONN_SENT_PREFIX = Inr entries"
    and none: "find_pending_sent c target rid entries = None" and s': "s' = s"
    by (auto simp: update_sent_request_status_def Let_def map_err_def split: sum.splits option.splits prod.splits)
  obtain b where b: "view s (CONN_SENT_PREFIX @ i) = Some b" "from_slice c b = Inr r"
    using row(1) by (auto simp: rows_at_Some)
  then have "(CONN_SENT_PREFIX @ i, b) \<in> set entries"
    using kv_store.scan_ok [OF json_rows.axioms(1) [OF store] scan] by simp
  from find_pending_sent_None [OF none this b(2) row(2)] s' show ?thesis by blast
qed

text \<open>A sequence of answers, as the inbound messages bring them.\<close>

fun answer_all ::
    "('s, string, 'b) kv_ops \<Rightarrow> (local_sent_request, 'b) codec \<Rightarrow> 's \<Rightarrow> (string \<times> string option \<times> string) list
     \<Rightarrow> string + 's" where
  "answer_all ops c s [] = Inr s"
| "answer_all ops c s ((target, rid, status) # us) =
     (case update_sent_request_status ops c s target rid status of
        (Inl e, s') \<Rightarrow> Inl e
      | (Inr _, s') \<Rightarrow> answer_all ops c s' us)"

lemma answered_kept:
  assumes "json_rows ops view c" "update_sent_request_status ops c s target rid status = (Inr q, s')"
    and "rows_at view c CONN_SENT_PREFIX s i = Some r" "ls_status r \<noteq> ''pending''"
  shows "rows_at view c CONN_SENT_PREFIX s' i = Some r"
proof (cases q)
  case None
  with assms(2) have "s' = s"
    by (auto simp: update_sent_request_status_def Let_def map_err_def split: sum.splits option.splits prod.splits)
  with assms(3) show ?thesis by simp
next
  case (Some r')
  with update_sent_effect [OF assms(1)] assms(2-4) show ?thesis by fastforce
qed

lemma answers_final:
  assumes "json_rows ops view c" "answer_all ops c s us = Inr s'"
    and "rows_at view c CONN_SENT_PREFIX s i = Some r" "ls_status r \<noteq> ''pending''"
  shows "rows_at view c CONN_SENT_PREFIX s' i = Some r"
  using assms(2,3)
proof (induction us arbitrary: s)
  case (Cons u us)
  obtain target rid status where u: "u = (target, rid, status)" by (cases u)
  with Cons.prems(1) obtain q t where t: "update_sent_request_status ops c s target rid status = (Inr q, t)"
    "answer_all ops c t us = Inr s'"
    by (auto split: prod.splits sum.splits)
  from answered_kept [OF assms(1) t(1) Cons.prems(2) assms(4)] show ?case by (rule Cons.IH [OF t(2)])
qed simp

section \<open>An instance of the cryptography\<close>

text \<open>No secrecy, but the laws: every key exchange gives the same secret, the tag is constant.\<close>

definition plain_box :: "bytes box_crypto" where
  "plain_box = \<lparr>
     hkdf = (\<lambda>_ _ _. Inr []), secret_from = id, public_from = (\<lambda>sk. take 32 (sk @ replicate 32 0)),
     diffie_hellman = (\<lambda>_ _. []), aes_key_check = (\<lambda>_. Inr ()),
     aes_encrypt = (\<lambda>_ _ p. Inr (p @ replicate 16 0)), aes_decrypt = (\<lambda>_ _ c. Inr (take (length c - 16) c))\<rparr>"

lemma plain_box_ok: "box_ok plain_box"
  by (auto simp: box_ok_def plain_box_def)

end
