(* ===== verification/Calendar_Sharing.thy ===== *)
theory Calendar_Sharing
  imports Connections Floats Handlers
begin

text \<open>
  \<^verbatim>\<open>src/discovery/calendar_sharing.rs\<close> and its handlers \<^verbatim>\<open>src/handlers/discovery/calendar.rs\<close>:
  event fingerprints of the user and of connected peers, kept under two key prefixes of
  the metadata store, and the detection of events that overlap. The similarity of two
  events is \<^verbatim>\<open>f64\<close> arithmetic with its rounding. What the module takes from outside is the
  record \<open>calendar_env\<close>: the store operations, the JSON codecs, the bytes of a literal,
  SHA-256 in hexadecimal, and chrono's date-times as a linearly ordered type with a
  parser per format and the whole seconds between two of them.
\<close>

section \<open>Data\<close>

definition CALENDAR_SHARING_OPTED_IN_KEY :: string where
  "CALENDAR_SHARING_OPTED_IN_KEY = ''discovery:calendar_sharing:opted_in''"

definition CALENDAR_EVENTS_PREFIX :: string where
  "CALENDAR_EVENTS_PREFIX = ''discovery:calendar_events:''"

definition PEER_EVENTS_PREFIX :: string where
  "PEER_EVENTS_PREFIX = ''discovery:peer_events:''"

definition OVERLAP_THRESHOLD :: fl where
  "OVERLAP_THRESHOLD = f64_round (1 / 2)"

definition DATE_WEIGHT :: fl where
  "DATE_WEIGHT = f64_round (2 / 5)"

definition TITLE_WEIGHT :: fl where
  "TITLE_WEIGHT = f64_round (7 / 20)"

definition LOCATION_WEIGHT :: fl where
  "LOCATION_WEIGHT = f64_round (1 / 4)"

definition MAX_CALENDAR_BATCH :: nat where
  "MAX_CALENDAR_BATCH = 1000"

record event_fingerprint =
  event_hash :: string
  title_tokens :: "string list"
  location_tokens :: "string list"
  ev_start_time :: string
  ev_end_time :: string
  display_title :: string
  display_location :: string

record peer_event_set =
  pe_peer_pseudonym :: string
  fingerprints :: "event_fingerprint list"
  pe_updated_at :: string

record shared_event =
  se_event_title :: string
  se_start_time :: string
  se_end_time :: string
  se_location :: string
  se_connection_count :: nat
  se_connection_pseudonyms :: "string list"
  se_match_score :: fl

record ('s, 'b, 't) calendar_env =
  cal_ops :: "('s, string, 'b) kv_ops"
  event_codec :: "(event_fingerprint, 'b) codec"
  peer_codec :: "(peer_event_set, 'b) codec"
  received_codec :: "(local_connection_request, 'b) codec"
  sent_codec :: "(local_sent_request, 'b) codec"
  byte_lit :: "string \<Rightarrow> 'b"
  sha_hex :: "string \<Rightarrow> string"
  parse_from_str :: "string \<Rightarrow> string \<Rightarrow> 't option"
  secs_between :: "'t \<Rightarrow> 't \<Rightarrow> int"
  event_order :: "string set \<Rightarrow> string list"

section \<open>Opt-in\<close>

definition cal_is_opted_in :: "('s, 'b, 't) calendar_env \<Rightarrow> 's \<Rightarrow> string + bool" where
  "cal_is_opted_in env s =
     res_bind (map_err (\<lambda>e. ''Failed to read calendar sharing opt-in: '' @ e)
         (kv_get (cal_ops env) s CALENDAR_SHARING_OPTED_IN_KEY))
       (\<lambda>val. Inr (case val of None \<Rightarrow> False | Some v \<Rightarrow> v = byte_lit env ''true''))"

definition cal_set_opt_in :: "('s, 'b, 't) calendar_env \<Rightarrow> 's \<Rightarrow> bool \<Rightarrow> (string + unit) \<times> 's" where
  "cal_set_opt_in env s opted_in =
     (let value = (if opted_in then byte_lit env ''true'' else byte_lit env ''false'') in
      case kv_put (cal_ops env) s CALENDAR_SHARING_OPTED_IN_KEY value of
        (r, s') \<Rightarrow> (map_err (\<lambda>e. ''Failed to save calendar sharing opt-in: '' @ e) r, s'))"

section \<open>Fingerprints\<close>

definition token_separator :: "char \<Rightarrow> bool" where
  "token_separator c \<longleftrightarrow> is_whitespace c \<or> c \<in> set '',-/():''"

definition tokenize :: "string \<Rightarrow> string list" where
  "tokenize s = filter (\<lambda>t. t \<noteq> [] \<and> utf8_len t > 1) (split_on token_separator (to_lowercase s))"

definition fingerprint_event ::
    "(string \<Rightarrow> string) \<Rightarrow> string \<Rightarrow> string \<Rightarrow> string \<Rightarrow> string \<Rightarrow> string \<Rightarrow> event_fingerprint" where
  "fingerprint_event sha summary start_time end_time location calendar =
     \<lparr>event_hash = sha (summary @ ''|'' @ start_time @ ''|'' @ calendar),
      title_tokens = tokenize summary, location_tokens = tokenize location,
      ev_start_time = start_time, ev_end_time = end_time,
      display_title = summary, display_location = location\<rparr>"

section \<open>Storage\<close>

fun save_events_loop ::
    "('s, 'b, 't) calendar_env \<Rightarrow> 's \<Rightarrow> event_fingerprint list \<Rightarrow> (string + unit) \<times> 's" where
  "save_events_loop env s [] = (Inr (), s)"
| "save_events_loop env s (fp # fps) =
     (case put_json ''Failed to serialize fingerprint: '' ''Failed to save fingerprint: ''
             (cal_ops env) (event_codec env) s (CALENDAR_EVENTS_PREFIX @ event_hash fp) fp of
        (Inl e, s') \<Rightarrow> (Inl e, s')
      | (Inr _, s') \<Rightarrow> save_events_loop env s' fps)"

definition save_local_events ::
    "('s, 'b, 't) calendar_env \<Rightarrow> 's \<Rightarrow> event_fingerprint list \<Rightarrow> (string + nat) \<times> 's" where
  "save_local_events env s fps =
     (case save_events_loop env s fps of
        (Inl e, s') \<Rightarrow> (Inl e, s')
      | (Inr _, s') \<Rightarrow> (Inr (length fps), s'))"

definition load_local_events :: "('s, 'b, 't) calendar_env \<Rightarrow> 's \<Rightarrow> string + event_fingerprint list" where
  "load_local_events env s =
     scan_json ''Failed to scan local events: '' ''Failed to deserialize event fingerprint: ''
       (cal_ops env) (event_codec env) s CALENDAR_EVENTS_PREFIX"

definition save_peer_events ::
    "('s, 'b, 't) calendar_env \<Rightarrow> 's \<Rightarrow> peer_event_set \<Rightarrow> (string + unit) \<times> 's" where
  "save_peer_events env s peer_set =
     put_json ''Failed to serialize peer events: '' ''Failed to save peer events: ''
       (cal_ops env) (peer_codec env) s (PEER_EVENTS_PREFIX @ pe_peer_pseudonym peer_set) peer_set"

definition load_all_peer_events :: "('s, 'b, 't) calendar_env \<Rightarrow> 's \<Rightarrow> string + peer_event_set list" where
  "load_all_peer_events env s =
     scan_json ''Failed to scan peer events: '' ''Failed to deserialize peer event set: ''
       (cal_ops env) (peer_codec env) s PEER_EVENTS_PREFIX"

text \<open>One of the two scan-and-delete loops, counting on from \<open>n\<close>.\<close>

definition clear_prefix ::
    "string \<Rightarrow> string \<Rightarrow> ('s, string, 'b) kv_ops \<Rightarrow> 's \<Rightarrow> string \<Rightarrow> nat \<Rightarrow> (string + nat) \<times> 's" where
  "clear_prefix scan_err delete_err ops s pre n =
     (case kv_scan_prefix ops s pre of
        Inl e \<Rightarrow> (Inl (scan_err @ e), s)
      | Inr entries \<Rightarrow>
          (case delete_all ops s (map fst entries) n of
             (r, s') \<Rightarrow> (map_err (\<lambda>e. delete_err @ e) r, s')))"

definition clear_all_calendar_data :: "('s, 'b, 't) calendar_env \<Rightarrow> 's \<Rightarrow> (string + nat) \<times> 's" where
  "clear_all_calendar_data env s =
     (case clear_prefix ''Failed to scan local events for clear: '' ''Failed to delete local event entry: ''
             (cal_ops env) s CALENDAR_EVENTS_PREFIX 0 of
        (Inl e, s') \<Rightarrow> (Inl e, s')
      | (Inr n, s') \<Rightarrow>
          clear_prefix ''Failed to scan peer events for clear: '' ''Failed to delete peer event entry: ''
            (cal_ops env) s' PEER_EVENTS_PREFIX n)"

section \<open>Similarity\<close>

definition parse_datetime :: "('s, 'b, 't) calendar_env \<Rightarrow> string \<Rightarrow> 't option" where
  "parse_datetime env s =
     (case parse_from_str env s ''%Y-%m-%dT%H:%M:%S'' of
        Some dt \<Rightarrow> Some dt
      | None \<Rightarrow> parse_from_str env s ''%Y-%m-%d %H:%M:%S'')"

definition overlap_ratio ::
    "('t::linorder \<Rightarrow> 't \<Rightarrow> int) \<Rightarrow> 't \<Rightarrow> 't \<Rightarrow> 't \<Rightarrow> 't \<Rightarrow> fl" where
  "overlap_ratio secs sa ea sb eb =
     (let overlap_start = max sa sb; overlap_end = min ea eb in
      if overlap_start \<ge> overlap_end then Fin 0
      else let overlap_duration = f64_round (of_int (secs overlap_end overlap_start));
               duration_a = f64_round (of_int (max (secs ea sa) 1));
               duration_b = f64_round (of_int (max (secs eb sb) 1));
               max_duration = fl_max duration_a duration_b
           in fl_min (f64_div overlap_duration max_duration) (Fin 1))"

definition date_overlap_score ::
    "('s, 'b, 't::linorder) calendar_env \<Rightarrow> string \<Rightarrow> string \<Rightarrow> string \<Rightarrow> string \<Rightarrow> fl" where
  "date_overlap_score env start_a end_a start_b end_b =
     (case (parse_datetime env start_a, parse_datetime env end_a, parse_datetime env start_b, parse_datetime env end_b) of
        (Some sa, Some ea, Some sb, Some eb) \<Rightarrow> overlap_ratio (secs_between env) sa ea sb eb
      | _ \<Rightarrow> Fin 0)"

definition jaccard_similarity :: "string list \<Rightarrow> string list \<Rightarrow> fl" where
  "jaccard_similarity a b =
     (if a = [] \<and> b = [] then Fin 0
      else let intersection = nat_as_f64 (card (set a \<inter> set b)); union = nat_as_f64 (card (set a \<union> set b))
           in if union = Fin 0 then Fin 0 else f64_div intersection union)"

definition event_similarity ::
    "('s, 'b, 't::linorder) calendar_env \<Rightarrow> event_fingerprint \<Rightarrow> event_fingerprint \<Rightarrow> fl" where
  "event_similarity env a b =
     (let date_score = date_overlap_score env (ev_start_time a) (ev_end_time a) (ev_start_time b) (ev_end_time b);
          title_score = jaccard_similarity (title_tokens a) (title_tokens b);
          location_score = jaccard_similarity (location_tokens a) (location_tokens b)
      in if date_score = Fin 0 then Fin 0
         else f64_add (f64_add (f64_mul DATE_WEIGHT date_score) (f64_mul TITLE_WEIGHT title_score))
                (f64_mul LOCATION_WEIGHT location_score))"

section \<open>Detection\<close>

definition new_shared_event :: "event_fingerprint \<Rightarrow> shared_event" where
  "new_shared_event local_fp =
     \<lparr>se_event_title = display_title local_fp, se_start_time = ev_start_time local_fp, se_end_time = ev_end_time local_fp,
      se_location = display_location local_fp, se_connection_count = 0, se_connection_pseudonyms = [],
      se_match_score = Fin 0\<rparr>"

definition add_connection :: "string \<Rightarrow> fl \<Rightarrow> shared_event \<Rightarrow> shared_event" where
  "add_connection peer score entry =
     (if peer \<in> set (se_connection_pseudonyms entry) then entry
      else let entry = entry\<lparr>se_connection_count := Suc (se_connection_count entry),
                             se_connection_pseudonyms := se_connection_pseudonyms entry @ [peer]\<rparr>
           in if fl_lt (se_match_score entry) score then entry\<lparr>se_match_score := score\<rparr> else entry)"

text \<open>The body of the innermost loop, on the map \<open>shared\<close> (an association list;
  the order its values are taken in at the end is \<open>event_order\<close>).\<close>

definition detect_step ::
    "('s, 'b, 't::linorder) calendar_env \<Rightarrow> event_fingerprint \<Rightarrow> peer_event_set
     \<Rightarrow> (string \<times> shared_event) list \<Rightarrow> event_fingerprint \<Rightarrow> (string \<times> shared_event) list" where
  "detect_step env local_fp peer_set shared peer_fp =
     (let score = event_similarity env local_fp peer_fp in
      if fl_le OVERLAP_THRESHOLD score then
        let entry = (case map_of shared (event_hash local_fp) of None \<Rightarrow> new_shared_event local_fp | Some e \<Rightarrow> e)
        in AList.update (event_hash local_fp) (add_connection (pe_peer_pseudonym peer_set) score entry) shared
      else shared)"

definition detect_loop ::
    "('s, 'b, 't::linorder) calendar_env \<Rightarrow> event_fingerprint list \<Rightarrow> peer_event_set list \<Rightarrow> (string \<times> shared_event) list" where
  "detect_loop env local_events peer_event_sets =
     fold (\<lambda>local_fp shared.
       fold (\<lambda>peer_set shared.
         fold (\<lambda>peer_fp shared. detect_step env local_fp peer_set shared peer_fp) (fingerprints peer_set) shared)
       peer_event_sets shared) local_events []"

definition detect_shared_events ::
    "('s, 'b, 't::linorder) calendar_env \<Rightarrow> event_fingerprint list \<Rightarrow> peer_event_set list \<Rightarrow> shared_event list" where
  "detect_shared_events env local_events peer_event_sets =
     (let shared = detect_loop env local_events peer_event_sets
      in sort_desc se_connection_count
           (map (\<lambda>h. the (map_of shared h)) (event_order env (set (map fst shared)))))"

definition get_accepted_connections :: "('s, 'b, 't) calendar_env \<Rightarrow> 's \<Rightarrow> string + string list" where
  "get_accepted_connections env s =
     res_bind (list_received_requests (cal_ops env) (received_codec env) s) (\<lambda>received.
     res_bind (list_sent_requests (cal_ops env) (sent_codec env) s) (\<lambda>sent.
       Inr (map lr_sender_pseudonym (filter (\<lambda>r. lr_status r = ''accepted'') received) @
            map ls_target_pseudonym (filter (\<lambda>r. ls_status r = ''accepted'') sent))))"

section \<open>Handlers\<close>

record calendar_status =
  cs_opted_in :: bool
  cs_local_event_count :: nat
  cs_peer_count :: nat

record calendar_event_input =
  ci_summary :: string
  ci_start_time :: string
  ci_end_time :: string
  ci_location :: string
  ci_calendar :: string

definition status_counts ::
    "('s, 'b, 't) calendar_env \<Rightarrow> bool \<Rightarrow> 's \<Rightarrow> handler_error + calendar_status" where
  "status_counts env opted_in s =
     res_bind (handler_err id ''load local events'' (load_local_events env s)) (\<lambda>local_events.
     res_bind (handler_err id ''load peer events'' (load_all_peer_events env s)) (\<lambda>peer_sets.
       Inr \<lparr>cs_opted_in = opted_in, cs_local_event_count = length local_events, cs_peer_count = length peer_sets\<rparr>))"

definition calendar_sharing_status :: "('s, 'b, 't) calendar_env \<Rightarrow> 's \<Rightarrow> handler_error + calendar_status" where
  "calendar_sharing_status env s =
     res_bind (handler_err id ''check calendar sharing opt-in'' (cal_is_opted_in env s)) (\<lambda>opted_in.
       status_counts env opted_in s)"

definition calendar_sharing_opt_in ::
    "('s, 'b, 't) calendar_env \<Rightarrow> 's \<Rightarrow> (handler_error + calendar_status) \<times> 's" where
  "calendar_sharing_opt_in env s =
     (case cal_set_opt_in env s True of
        (r, s') \<Rightarrow> (res_bind (handler_err id ''opt in to calendar sharing'' r) (\<lambda>_. status_counts env True s'), s'))"

definition calendar_sharing_opt_out ::
    "('s, 'b, 't) calendar_env \<Rightarrow> 's \<Rightarrow> (handler_error + calendar_status) \<times> 's" where
  "calendar_sharing_opt_out env s =
     (case cal_set_opt_in env s False of
        (Inl e, s') \<Rightarrow> (handler_err id ''opt out of calendar sharing'' (Inl e), s')
      | (Inr _, s') \<Rightarrow>
          (case clear_all_calendar_data env s' of
             (Inl e, s'') \<Rightarrow> (handler_err id ''purge calendar data on opt-out'' (Inl e), s'')
           | (Inr _, s'') \<Rightarrow> (Inr \<lparr>cs_opted_in = False, cs_local_event_count = 0, cs_peer_count = 0\<rparr>, s'')))"

definition require_opted_in :: "('s, 'b, 't) calendar_env \<Rightarrow> 's \<Rightarrow> handler_error + unit" where
  "require_opted_in env s =
     res_bind (handler_err id ''check calendar sharing opt-in'' (cal_is_opted_in env s)) (\<lambda>opted_in.
       if opted_in then Inr () else Inl (BadRequest ''Calendar sharing is not enabled. Opt in first.''))"

definition sync_calendar_events ::
    "('s, 'b, 't) calendar_env \<Rightarrow> 's \<Rightarrow> calendar_event_input list \<Rightarrow> (handler_error + nat) \<times> 's" where
  "sync_calendar_events env s events =
     (if length events > MAX_CALENDAR_BATCH then
        (Inl (BadRequest (''Too many calendar events in batch: '' @ show_nat (length events) @
                          '' (max '' @ show_nat MAX_CALENDAR_BATCH @ '')'')), s)
      else case require_opted_in env s of
        Inl e \<Rightarrow> (Inl e, s)
      | Inr _ \<Rightarrow>
          (case save_local_events env s
                  (map (\<lambda>e. fingerprint_event (sha_hex env) (ci_summary e) (ci_start_time e) (ci_end_time e)
                              (ci_location e) (ci_calendar e)) events) of
             (r, s') \<Rightarrow> (handler_err id ''save local events'' r, s')))"

text \<open>\<open>now\<close> is the rendered current time.\<close>

definition store_peer_events ::
    "('s, 'b, 't) calendar_env \<Rightarrow> string \<Rightarrow> 's \<Rightarrow> string \<Rightarrow> event_fingerprint list \<Rightarrow> (handler_error + nat) \<times> 's" where
  "store_peer_events env now s peer fps =
     (if length fps > MAX_CALENDAR_BATCH then
        (Inl (BadRequest (''Too many peer event fingerprints in batch: '' @ show_nat (length fps) @
                          '' (max '' @ show_nat MAX_CALENDAR_BATCH @ '')'')), s)
      else case res_bind (require_opted_in env s) (\<lambda>_.
             handler_err id ''load accepted connections'' (get_accepted_connections env s)) of
        Inl e \<Rightarrow> (Inl e, s)
      | Inr connections \<Rightarrow>
          if peer \<notin> set connections then (Inl (BadRequest ''Peer is not an accepted connection.''), s)
          else (case save_peer_events env s \<lparr>pe_peer_pseudonym = peer, fingerprints = fps, pe_updated_at = now\<rparr> of
                  (r, s') \<Rightarrow> (res_bind (handler_err id ''save peer events'' r) (\<lambda>_. Inr (length fps)), s')))"

definition get_shared_events ::
    "('s, 'b, 't::linorder) calendar_env \<Rightarrow> 's \<Rightarrow> handler_error + shared_event list \<times> nat" where
  "get_shared_events env s =
     res_bind (handler_err id ''check calendar sharing opt-in'' (cal_is_opted_in env s)) (\<lambda>opted_in.
       if \<not> opted_in then Inr ([], 0)
       else res_bind (handler_err id ''load local events'' (load_local_events env s)) (\<lambda>local_events.
            res_bind (handler_err id ''load peer events'' (load_all_peer_events env s)) (\<lambda>peer_sets.
              Inr (detect_shared_events env local_events peer_sets, length peer_sets))))"

end
