(* ===== verification/Calendar_Correct.thy ===== *)
theory Calendar_Correct
  imports Calendar_Sharing
begin

text \<open>
  Facts about calendar sharing: the similarity of two events is symmetric and, rounding
  included, a number between zero and one; detection lists each matched event once with
  its distinct peers; opting out removes every calendar row and nothing else; only an
  accepted connection's events are stored. The last section instantiates the parameters.
\<close>

section \<open>Similarity is symmetric\<close>

lemma f64_round_not_NaN [simp]: "f64_round r \<noteq> NaN"
  by (simp add: f64_round_def fl_round_def Let_def)

lemma fl_max_commute: "x \<noteq> NaN \<Longrightarrow> y \<noteq> NaN \<Longrightarrow> fl_max x y = fl_max y x"
  by (cases x; cases y) (auto simp: fl_max_def)

lemma overlap_ratio_sym: "overlap_ratio secs sa ea sb eb = overlap_ratio secs sb eb sa ea"
  unfolding overlap_ratio_def Let_def max.commute [of sa] min.commute [of ea]
  by (subst fl_max_commute) simp_all

lemma date_overlap_sym: "date_overlap_score env sa ea sb eb = date_overlap_score env sb eb sa ea"
  by (auto simp: date_overlap_score_def overlap_ratio_sym split: option.splits)

lemma jaccard_sym: "jaccard_similarity a b = jaccard_similarity b a"
  by (auto simp: jaccard_similarity_def Int_commute Un_commute)

lemma event_similarity_sym: "event_similarity env a b = event_similarity env b a"
  using date_overlap_sym [of env "ev_start_time a" "ev_end_time a"] jaccard_sym
  by (simp add: event_similarity_def)

section \<open>Similarity is a score between zero and one\<close>

definition unit_score :: "fl \<Rightarrow> bool" where
  "unit_score x = (\<exists>r. x = Fin r \<and> 0 \<le> r \<and> r \<le> 1)"

lemma unit_scoreI: "0 \<le> r \<Longrightarrow> r \<le> 1 \<Longrightarrow> unit_score (Fin r)"
  by (simp add: unit_score_def)

lemma f64_round_unit_score: "0 \<le> r \<Longrightarrow> r \<le> 1 \<Longrightarrow> unit_score (f64_round r)"
  using f64_round_unit by (fastforce simp: unit_score_def)

lemma f64_round_zero [simp]: "f64_round 0 = Fin 0"
  by (simp add: f64_round_def fl_round_def)

text \<open>Rounding keeps a value in range, or turns it into the positive infinity.\<close>

lemma f64_round_nonneg: "0 \<le> r \<Longrightarrow> f64_round r = PInf \<or> (\<exists>x. f64_round r = Fin x \<and> 0 \<le> x)"
proof (cases "r = 0")
  case False
  assume "0 \<le> r"
  with False round_at_nonneg [of r 53 "-1074"] show ?thesis
    unfolding f64_round_def fl_round_eq [OF False] by (auto split: if_splits)
qed simp

lemma f64_round_ge_one:
  assumes "1 \<le> r"
  shows "f64_round r = PInf \<or> (\<exists>x. f64_round r = Fin x \<and> 1 \<le> x)"
proof -
  have "f64_round 1 = Fin 1" using f64_round_int [of 1] by simp
  from f64_round_nonneg [of r] assms consider "f64_round r = PInf" | x where "f64_round r = Fin x" by auto
  then show ?thesis
  proof cases
    case 2
    with f64_round_mono [of 1 r] assms \<open>f64_round 1 = Fin 1\<close> show ?thesis by auto
  qed simp
qed

lemma div_nonneg_round:
  assumes "0 \<le> a" "1 \<le> b"
  shows "unit_score (fl_min (f64_div (f64_round a) (f64_round b)) (Fin 1))"
proof -
  have div: "unit_score (fl_min (f64_round (x / y)) (Fin 1))" if "0 \<le> x" "1 \<le> y" for x y
    using f64_round_nonneg [of "x / y"] that by (auto simp: fl_min_def unit_score_def)
  from f64_round_nonneg [OF assms(1)] f64_round_ge_one [OF assms(2)] show ?thesis
    by (auto simp: div) (auto simp: fl_min_def unit_score_def signed_inf_def sgn_fl_def)
qed

lemma fl_max_round: "\<exists>c. (c = a \<or> c = b) \<and> fl_max (f64_round a) (f64_round b) = f64_round c"
  by (auto simp: fl_max_def)

lemma overlap_ratio_unit:
  assumes "\<And>x y. x < y \<Longrightarrow> 0 \<le> secs y x"
  shows "unit_score (overlap_ratio secs sa ea sb eb)"
proof -
  obtain c :: rat where c: "1 \<le> c"
    "fl_max (f64_round (of_int (max (secs ea sa) 1))) (f64_round (of_int (max (secs eb sb) 1))) = f64_round c"
    using fl_max_round [of "of_int (max (secs ea sa) 1)" "of_int (max (secs eb sb) 1)"]
    by (metis max.cobounded2 of_int_1_le_iff)
  show ?thesis
    unfolding overlap_ratio_def Let_def c(2) using assms c(1)
    by (auto simp: not_le intro!: unit_scoreI div_nonneg_round)
qed

lemma date_overlap_unit:
  assumes "\<And>x y. x < y \<Longrightarrow> 0 \<le> secs_between env y x"
  shows "unit_score (date_overlap_score env sa ea sb eb)"
  by (auto simp: date_overlap_score_def intro: unit_scoreI overlap_ratio_unit [OF assms] split: option.splits)

text \<open>Counts below \<open>2\<^sup>6\<^sup>4\<close>, as every Rust collection has, are finite as \<^verbatim>\<open>f64\<close>.\<close>

lemma f64_round_pow64: "f64_round (2 ^ 64) = Fin (2 ^ 64)"
proof (rule f64_round_at [where e = 12])
  have "(2 ^ 64 :: rat) / 2 powi 12 = of_int (2 ^ 52)" by (simp add: power_int_def)
  then show "of_int (round_even (2 ^ 64 / 2 powi 12)) * 2 powi 12 = (2 ^ 64 :: rat)"
    by (simp only: round_even_int) (simp add: power_int_def)
  show "(2 ^ 64 :: rat) < 2 powi 1024"
    unfolding power_int_def by (simp add: power_strict_increasing)
qed (simp_all add: power_int_def)

lemma jaccard_unit:
  assumes "length a + length b < 2 ^ 64"
  shows "unit_score (jaccard_similarity a b)"
proof (cases "a = [] \<and> b = []")
  case False
  let ?i = "card (set a \<inter> set b)" and ?u = "card (set a \<union> set b)"
  have "?u \<le> length a + length b"
    using card_Un_le [of "set a" "set b"] card_length [of a] card_length [of b] by linarith
  with assms have "?u \<le> 2 ^ 64" by linarith
  then have "(of_nat ?u :: rat) \<le> of_nat (2 ^ 64)" by (simp only: of_nat_le_iff)
  then have "(of_nat ?u :: rat) \<le> 2 ^ 64" by simp
  from f64_round_mono [OF _ this f64_round_pow64] obtain y where y: "f64_round (of_nat ?u) = Fin y" by auto
  have le: "(of_nat ?i :: rat) \<le> of_nat ?u" by (simp add: card_mono le_infI1)
  from f64_round_mono [OF _ le y] obtain x where x: "f64_round (of_nat ?i) = Fin x" "0 \<le> x" "x \<le> y" by auto
  have "1 \<le> ?u" using False by (simp add: Suc_le_eq card_gt_0_iff)
  then have "(1::rat) \<le> of_nat ?u" by (metis of_nat_1 of_nat_le_iff)
  from f64_round_ge_one [OF this] y have "1 \<le> y" by simp
  with x y False show ?thesis
    by (auto simp: jaccard_similarity_def nat_as_f64_def Let_def intro!: f64_round_unit_score)
qed (auto simp: jaccard_similarity_def intro: unit_scoreI)

section \<open>The weights\<close>

lemma round_even_near:
  assumes "of_int m - 1 / 2 < r" "r < of_int m + 1 / 2"
  shows "round_even r = m"
proof (cases "of_int m \<le> r")
  case True
  with assms have "\<lfloor>r\<rfloor> = m" by (intro floor_unique) linarith+
  with assms show ?thesis by (simp add: round_even_def Let_def)
next
  case False
  with assms have "\<lfloor>r\<rfloor> = m - 1" by (intro floor_unique) (auto simp: field_simps)
  with assms show ?thesis by (simp add: round_even_def Let_def)
qed

lemma f64_round_small:
  assumes "2 powi (e + 52) \<le> r" "r < 2 powi (e + 53)" "-1074 \<le> e"
    and "of_int m - 1 / 2 < r / 2 powi e" "r / 2 powi e < of_int m + 1 / 2" "y = of_int m * 2 powi e" "y \<le> 1"
  shows "f64_round r = Fin y"
proof (rule f64_round_at [OF assms(1,2,3)])
  have "(0::rat) < 2 powi (e + 52)" by simp
  with assms(1) show "0 < r" by linarith
  have "(1::rat) < 2 powi 1024" unfolding power_int_def by (simp add: one_less_power)
  with assms(7) show "y < 2 powi 1024" by linarith
qed (use assms round_even_near [OF assms(4,5)] in simp_all)

lemma weight_values:
  "f64_round (2 / 5) = Fin (3602879701896397 / 9007199254740992)"
  "f64_round (7 / 20) = Fin (3152519739159347 / 9007199254740992)"
  "f64_round (1 / 4) = Fin (1 / 4)" "f64_round (1 / 2) = Fin (1 / 2)" "f64_round (3 / 4) = Fin (3 / 4)"
  "f64_round (3602879701896397 / 9007199254740992) = Fin (3602879701896397 / 9007199254740992)"
  "f64_round (3152519739159347 / 9007199254740992) = Fin (3152519739159347 / 9007199254740992)"
proof -
  show "f64_round (2 / 5) = Fin (3602879701896397 / 9007199254740992)"
    by (rule f64_round_small [where e = "-54" and m = 7205759403792794]) (simp_all add: power_int_def power_divide)
  show "f64_round (7 / 20) = Fin (3152519739159347 / 9007199254740992)"
    by (rule f64_round_small [where e = "-54" and m = 6305039478318694]) (simp_all add: power_int_def power_divide)
  show "f64_round (1 / 4) = Fin (1 / 4)"
    by (rule f64_round_small [where e = "-54" and m = 4503599627370496]) (simp_all add: power_int_def power_divide)
  show "f64_round (1 / 2) = Fin (1 / 2)"
    by (rule f64_round_small [where e = "-53" and m = 4503599627370496]) (simp_all add: power_int_def power_divide)
  show "f64_round (3 / 4) = Fin (3 / 4)"
    by (rule f64_round_small [where e = "-53" and m = 6755399441055744]) (simp_all add: power_int_def power_divide)
  show "f64_round (3602879701896397 / 9007199254740992) = Fin (3602879701896397 / 9007199254740992)"
    by (rule f64_round_small [where e = "-54" and m = 7205759403792794]) (simp_all add: power_int_def power_divide)
  show "f64_round (3152519739159347 / 9007199254740992) = Fin (3152519739159347 / 9007199254740992)"
    by (rule f64_round_small [where e = "-54" and m = 6305039478318694]) (simp_all add: power_int_def power_divide)
qed

lemma weighted:
  assumes "f64_round w = Fin w" "0 \<le> w" "unit_score x"
  shows "\<exists>y. f64_mul (Fin w) x = Fin y \<and> 0 \<le> y \<and> y \<le> w"
proof -
  from assms(3) obtain r where r: "x = Fin r" "0 \<le> r" "r \<le> 1" by (auto simp: unit_score_def)
  with assms(2) have "0 \<le> w * r" "w * r \<le> w" by (simp_all add: mult_left_le)
  from f64_round_mono [OF this assms(1)] show ?thesis by (simp add: r)
qed

lemma event_similarity_unit:
  assumes "\<And>x y. x < y \<Longrightarrow> 0 \<le> secs_between env y x"
    and "length (title_tokens a) + length (title_tokens b) < 2 ^ 64"
    and "length (location_tokens a) + length (location_tokens b) < 2 ^ 64"
  shows "unit_score (event_similarity env a b)"
proof -
  let ?d = "date_overlap_score env (ev_start_time a) (ev_end_time a) (ev_start_time b) (ev_end_time b)"
  let ?t = "jaccard_similarity (title_tokens a) (title_tokens b)"
  let ?l = "jaccard_similarity (location_tokens a) (location_tokens b)"
  obtain x where x: "f64_mul DATE_WEIGHT ?d = Fin x" "0 \<le> x" "x \<le> 3602879701896397 / 9007199254740992"
    using weighted [OF weight_values(6) _ date_overlap_unit [OF assms(1)],
        of "ev_start_time a" "ev_end_time a" "ev_start_time b" "ev_end_time b"] by (auto simp: DATE_WEIGHT_def weight_values)
  obtain y where y: "f64_mul TITLE_WEIGHT ?t = Fin y" "0 \<le> y" "y \<le> 3152519739159347 / 9007199254740992"
    using weighted [OF weight_values(7) _ jaccard_unit [OF assms(2)]] by (auto simp: TITLE_WEIGHT_def weight_values)
  obtain z where z: "f64_mul LOCATION_WEIGHT ?l = Fin z" "0 \<le> z" "z \<le> 1 / 4"
    using weighted [OF weight_values(3) _ jaccard_unit [OF assms(3)]] by (auto simp: LOCATION_WEIGHT_def weight_values)
  have "0 \<le> x + y" "x + y \<le> 3 / 4" using x y by simp_all
  from f64_round_mono [OF this weight_values(5)] obtain v where v: "f64_round (x + y) = Fin v" "0 \<le> v" "v \<le> 3 / 4"
    by auto
  with z have "unit_score (f64_round (v + z))" by (intro f64_round_unit_score) simp_all
  then show ?thesis by (simp add: event_similarity_def Let_def x y z v unit_scoreI)
qed

section \<open>Detection\<close>

text \<open>The comparisons the three loops make, in their order.\<close>

definition comparisons ::
    "event_fingerprint list \<Rightarrow> peer_event_set list \<Rightarrow> (event_fingerprint \<times> peer_event_set \<times> event_fingerprint) list" where
  "comparisons ls ps = concat (map (\<lambda>l. concat (map (\<lambda>p. map (\<lambda>f. (l, p, f)) (fingerprints p)) ps)) ls)"

lemma detect_loop_flat:
  "detect_loop env ls ps = fold (\<lambda>(l, p, f) m. detect_step env l p m f) (comparisons ls ps) []"
proof -
  let ?F = "\<lambda>(l, p, f) m. detect_step env l p m f"
  have inner: "fold ?F (map (\<lambda>f. (l, p, f)) fs) s = fold (\<lambda>f m. detect_step env l p m f) fs s" for l p fs s
    by (induction fs arbitrary: s) simp_all
  have middle: "fold ?F (concat (map (\<lambda>p. map (\<lambda>f. (l, p, f)) (fingerprints p)) ps)) s =
      fold (\<lambda>p. fold (\<lambda>f m. detect_step env l p m f) (fingerprints p)) ps s" for l s
    by (induction ps arbitrary: s) (simp_all add: inner)
  have "fold ?F (comparisons ls ps) s =
      fold (\<lambda>l. fold (\<lambda>p. fold (\<lambda>f m. detect_step env l p m f) (fingerprints p)) ps) ls s" for s
    unfolding comparisons_def by (induction ls arbitrary: s) (simp_all add: middle)
  then show ?thesis by (simp add: detect_loop_def)
qed

lemma set_comparisons: "(l, p, f) \<in> set (comparisons ls ps) \<longleftrightarrow> l \<in> set ls \<and> p \<in> set ps \<and> f \<in> set (fingerprints p)"
  by (auto simp: comparisons_def)

definition overlaps :: "('s, 'b, 't::linorder) calendar_env \<Rightarrow> event_fingerprint \<Rightarrow> event_fingerprint \<Rightarrow> bool" where
  "overlaps env a b \<longleftrightarrow> fl_le OVERLAP_THRESHOLD (event_similarity env a b)"

text \<open>The peers of the comparisons \<open>cs\<close> that overlap an event with hash \<open>h\<close>.\<close>

definition matching_peers ::
    "('s, 'b, 't::linorder) calendar_env \<Rightarrow> (event_fingerprint \<times> peer_event_set \<times> event_fingerprint) set \<Rightarrow> string
     \<Rightarrow> string set" where
  "matching_peers env cs h = {pe_peer_pseudonym p | l p f. (l, p, f) \<in> cs \<and> event_hash l = h \<and> overlaps env l f}"

definition entry_ok :: "string set \<Rightarrow> shared_event \<Rightarrow> bool" where
  "entry_ok peers e \<longleftrightarrow> distinct (se_connection_pseudonyms e) \<and> set (se_connection_pseudonyms e) = peers \<and>
     se_connection_count e = card peers \<and> (peers = {} \<longrightarrow> se_match_score e = Fin 0) \<and>
     (peers \<noteq> {} \<longrightarrow> fl_le OVERLAP_THRESHOLD (se_match_score e))"

lemma new_entry_ok: "entry_ok {} (new_shared_event l)"
  by (simp add: entry_ok_def new_shared_event_def)

lemma threshold_score: "fl_le OVERLAP_THRESHOLD score \<Longrightarrow> fl_lt (Fin 0) score"
  by (cases score) (auto simp: OVERLAP_THRESHOLD_def weight_values)

lemma add_connection_ok:
  assumes "entry_ok peers e" "fl_le OVERLAP_THRESHOLD score"
  shows "entry_ok (insert peer peers) (add_connection peer score e)"
proof (cases "peer \<in> peers")
  case True
  with assms show ?thesis by (auto simp: entry_ok_def add_connection_def insert_absorb)
next
  case False
  have "finite peers" using assms(1) by (auto simp: entry_ok_def)
  with False assms threshold_score [OF assms(2)] show ?thesis
    by (auto simp: entry_ok_def add_connection_def Let_def)
qed

definition detect_inv ::
    "('s, 'b, 't::linorder) calendar_env \<Rightarrow> (event_fingerprint \<times> peer_event_set \<times> event_fingerprint) set
     \<Rightarrow> (string \<times> shared_event) list \<Rightarrow> bool" where
  "detect_inv env cs m \<longleftrightarrow> (\<forall>h. case map_of m h of
      None \<Rightarrow> matching_peers env cs h = {}
    | Some e \<Rightarrow> matching_peers env cs h \<noteq> {} \<and> entry_ok (matching_peers env cs h) e)"

lemma detect_invD:
  assumes "detect_inv env cs m"
  shows "map_of m h = None \<Longrightarrow> matching_peers env cs h = {}"
    and "map_of m h = Some e \<Longrightarrow> matching_peers env cs h \<noteq> {}"
    and "map_of m h = Some e \<Longrightarrow> entry_ok (matching_peers env cs h) e"
  using assms [unfolded detect_inv_def, rule_format, of h] by simp_all

lemma matching_peers_insert:
  "matching_peers env (insert (l, p, f) cs) h =
     (if event_hash l = h \<and> overlaps env l f then insert (pe_peer_pseudonym p) (matching_peers env cs h)
      else matching_peers env cs h)"
  by (auto simp: matching_peers_def)

lemma detect_step_inv:
  assumes "detect_inv env cs m"
  shows "detect_inv env (insert (l, p, f) cs) (detect_step env l p m f)"
proof (cases "overlaps env l f")
  case False
  then have "matching_peers env (insert (l, p, f) cs) = matching_peers env cs"
    by (auto simp: matching_peers_insert)
  moreover have "detect_step env l p m f = m" using False by (simp add: detect_step_def overlaps_def)
  ultimately show ?thesis using assms unfolding detect_inv_def by (simp only: simp_thms)
next
  case True
  define e where "e = (case map_of m (event_hash l) of None \<Rightarrow> new_shared_event l | Some e \<Rightarrow> e)"
  have "entry_ok (matching_peers env cs (event_hash l)) e"
    using detect_invD [OF assms, of "event_hash l"] new_entry_ok [of l]
    by (cases "map_of m (event_hash l)") (simp_all add: e_def)
  from add_connection_ok [OF this] True
  have "entry_ok (insert (pe_peer_pseudonym p) (matching_peers env cs (event_hash l)))
      (add_connection (pe_peer_pseudonym p) (event_similarity env l f) e)"
    by (simp add: overlaps_def)
  moreover have "map_of (detect_step env l p m f) =
      (map_of m)(event_hash l \<mapsto> add_connection (pe_peer_pseudonym p) (event_similarity env l f) e)"
    using True by (simp add: detect_step_def overlaps_def Let_def update_conv' flip: e_def)
  ultimately show ?thesis
    unfolding detect_inv_def using detect_invD [OF assms] True
    by (intro allI, split option.split) (auto simp: matching_peers_insert)
qed

lemma detect_loop_inv: "detect_inv env (set (comparisons ls ps)) (detect_loop env ls ps)"
proof -
  have "detect_inv env cs m \<Longrightarrow> detect_inv env (set xs \<union> cs) (fold (\<lambda>(l, p, f) m. detect_step env l p m f) xs m)" for xs cs m
  proof (induction xs arbitrary: cs m)
    case (Cons x xs)
    obtain l p f where x: "x = (l, p, f)" by (cases x)
    from Cons.IH [OF detect_step_inv [OF Cons.prems, of l p f]] show ?case by (simp add: x)
  qed simp
  from this [of "{}" "[]" "comparisons ls ps"] show ?thesis
    by (simp add: detect_loop_flat detect_inv_def matching_peers_def)
qed

text \<open>
  The result lists one entry per event hash that some peer matches: its peers without
  repetition, their number, a score that reaches the threshold; the most shared first.
\<close>

lemma detect_shared_events_entries:
  assumes "iteration_order (event_order env)"
  shows "\<exists>hs. distinct hs \<and> set hs = {h. matching_peers env (set (comparisons ls ps)) h \<noteq> {}} \<and>
     mset (detect_shared_events env ls ps) = mset (map (\<lambda>h. the (map_of (detect_loop env ls ps) h)) hs) \<and>
     (\<forall>h \<in> set hs. entry_ok (matching_peers env (set (comparisons ls ps)) h) (the (map_of (detect_loop env ls ps) h)))"
proof -
  let ?m = "detect_loop env ls ps" and ?peers = "matching_peers env (set (comparisons ls ps))"
  let ?hs = "event_order env (set (map fst ?m))"
  have hs: "distinct ?hs" "set ?hs = Map.dom (map_of ?m)"
    using iteration_orderD [OF assms, of "set (map fst ?m)"] by (simp_all add: dom_map_of_conv_image_fst)
  note inv = detect_invD [OF detect_loop_inv [of env ls ps]]
  have "set ?hs = {h. ?peers h \<noteq> {}}" unfolding hs(2) using inv(1,2) by blast
  moreover have "\<forall>h \<in> set ?hs. entry_ok (?peers h) (the (map_of ?m h))" unfolding hs(2) using inv(3) by auto
  ultimately show ?thesis using hs(1) by (intro exI [of _ ?hs]) (simp add: detect_shared_events_def Let_def)
qed

section \<open>The store\<close>

lemma calendar_prefixes_apart: "prefixes_apart CALENDAR_EVENTS_PREFIX PEER_EVENTS_PREFIX"
  "\<not> prefix CALENDAR_EVENTS_PREFIX CALENDAR_SHARING_OPTED_IN_KEY" "\<not> prefix PEER_EVENTS_PREFIX CALENDAR_SHARING_OPTED_IN_KEY"
  by (simp_all add: prefixes_apart_def CALENDAR_EVENTS_PREFIX_def PEER_EVENTS_PREFIX_def CALENDAR_SHARING_OPTED_IN_KEY_def)

lemma clear_prefix_view:
  assumes store: "kv_store ops view" and run: "clear_prefix e1 e2 ops s pre n = (Inr m, s')"
  shows "view s' = (\<lambda>k. if prefix pre k then None else view s k)"
    and "m = n + card {k. prefix pre k \<and> view s k \<noteq> None}"
proof -
  from run obtain entries where e: "kv_scan_prefix ops s pre = Inr entries"
    and d: "delete_all ops s (map fst entries) n = (Inr m, s')"
    by (auto simp: clear_prefix_def split: sum.splits prod.splits)
  have ks: "set (map fst entries) = {k. prefix pre k \<and> view s k \<noteq> None}" "distinct (map fst entries)"
    using kv_store.scan_ok [OF store e] by (force simp: image_iff)+
  show "view s' = (\<lambda>k. if prefix pre k then None else view s k)"
    unfolding kv_store.delete_all_view(1) [OF store d] ks(1) by auto
  show "m = n + card {k. prefix pre k \<and> view s k \<noteq> None}"
    unfolding kv_store.delete_all_view(2) [OF store d] using ks by (metis distinct_card length_map)
qed

definition calendar_key :: "string \<Rightarrow> bool" where
  "calendar_key k \<longleftrightarrow> prefix CALENDAR_EVENTS_PREFIX k \<or> prefix PEER_EVENTS_PREFIX k"

lemma clear_all_view:
  assumes store: "kv_store (cal_ops env) view" and run: "clear_all_calendar_data env s = (Inr n, s')"
  shows "view s' = (\<lambda>k. if calendar_key k then None else view s k)"
proof -
  from run obtain k t where
    t: "clear_prefix ''Failed to scan local events for clear: '' ''Failed to delete local event entry: ''
      (cal_ops env) s CALENDAR_EVENTS_PREFIX 0 = (Inr k, t)"
    and s': "clear_prefix ''Failed to scan peer events for clear: '' ''Failed to delete peer event entry: ''
      (cal_ops env) t PEER_EVENTS_PREFIX k = (Inr n, s')"
    unfolding clear_all_calendar_data_def by (auto split: prod.splits sum.splits)
  from clear_prefix_view(1) [OF store t] clear_prefix_view(1) [OF store s'] show ?thesis
    by (auto simp: calendar_key_def)
qed

lemma calendar_key_opt_in: "\<not> calendar_key CALENDAR_SHARING_OPTED_IN_KEY"
  by (simp add: calendar_key_def calendar_prefixes_apart)

lemma cal_set_opt_in_view:
  assumes "kv_store (cal_ops env) view" "cal_set_opt_in env s b = (Inr u, s')"
  shows "view s' = (view s)(CALENDAR_SHARING_OPTED_IN_KEY \<mapsto> byte_lit env (if b then ''true'' else ''false''))"
  using assms(2) kv_store.put_ok [OF assms(1)]
  by (fastforce simp: cal_set_opt_in_def Let_def split: prod.splits)

text \<open>Opting out leaves no calendar row and touches nothing else.\<close>

lemma opt_out_view:
  assumes store: "kv_store (cal_ops env) view" and run: "calendar_sharing_opt_out env s = (Inr st, s')"
  shows "view s' k = (if calendar_key k then None
     else if k = CALENDAR_SHARING_OPTED_IN_KEY then Some (byte_lit env ''false'') else view s k)"
proof -
  from run obtain t n where t: "cal_set_opt_in env s False = (Inr (), t)" "clear_all_calendar_data env t = (Inr n, s')"
    unfolding calendar_sharing_opt_out_def by (auto simp: handler_err_def split: prod.splits sum.splits)
  from cal_set_opt_in_view [OF store t(1)] clear_all_view [OF store t(2)] show ?thesis
    using calendar_key_opt_in by auto
qed

section \<open>Who may store peer events\<close>

definition accepted_peer ::
    "('s, 'b, 't) calendar_env \<Rightarrow> ('s \<Rightarrow> string \<Rightarrow> 'b option) \<Rightarrow> 's \<Rightarrow> string \<Rightarrow> bool" where
  "accepted_peer env view s peer \<longleftrightarrow>
     (\<exists>r \<in> ran (rows_at view (received_codec env) CONN_REQ_PREFIX s). lr_status r = ''accepted'' \<and> lr_sender_pseudonym r = peer) \<or>
     (\<exists>r \<in> ran (rows_at view (sent_codec env) CONN_SENT_PREFIX s). ls_status r = ''accepted'' \<and> ls_target_pseudonym r = peer)"

lemma accepted_connections:
  assumes "json_rows (cal_ops env) view (received_codec env)" "json_rows (cal_ops env) view (sent_codec env)"
    and "get_accepted_connections env s = Inr cs"
  shows "peer \<in> set cs \<longleftrightarrow> accepted_peer env view s peer"
proof -
  from assms(3) obtain received sent where
    l: "list_received_requests (cal_ops env) (received_codec env) s = Inr received"
       "list_sent_requests (cal_ops env) (sent_codec env) s = Inr sent"
    and cs: "cs = map lr_sender_pseudonym (filter (\<lambda>r. lr_status r = ''accepted'') received) @
            map ls_target_pseudonym (filter (\<lambda>r. ls_status r = ''accepted'') sent)"
    by (auto simp: get_accepted_connections_def res_bind_eq_Inr)
  show ?thesis
    unfolding accepted_peer_def cs
      row_family.listing_rows [OF received_family [OF assms(1)] l(1), symmetric]
      row_family.listing_rows [OF sent_family [OF assms(2)] l(2), symmetric] by auto
qed

lemma require_opted_in_Inr:
  assumes "kv_store (cal_ops env) view" "require_opted_in env s = Inr u"
  shows "view s CALENDAR_SHARING_OPTED_IN_KEY = Some (byte_lit env ''true'')"
proof -
  from assms(2) obtain v where v: "kv_get (cal_ops env) s CALENDAR_SHARING_OPTED_IN_KEY = Inr v"
    "case v of None \<Rightarrow> False | Some v \<Rightarrow> v = byte_lit env ''true''"
    by (auto simp: require_opted_in_def cal_is_opted_in_def handler_err_def res_bind_eq_Inr split: if_splits)
  from v(2) have "v = Some (byte_lit env ''true'')" by (cases v) simp_all
  with kv_store.get_ok [OF assms(1) v(1)] show ?thesis by simp
qed

lemma store_peer_events_guard:
  assumes peer_rows: "json_rows (cal_ops env) view (peer_codec env)"
    and "json_rows (cal_ops env) view (received_codec env)" "json_rows (cal_ops env) view (sent_codec env)"
    and run: "store_peer_events env now s peer fps = (Inr n, s')"
  shows "view s CALENDAR_SHARING_OPTED_IN_KEY = Some (byte_lit env ''true'') \<and> accepted_peer env view s peer \<and>
     length fps \<le> MAX_CALENDAR_BATCH \<and> n = length fps \<and>
     rows_at view (peer_codec env) PEER_EVENTS_PREFIX s' = (rows_at view (peer_codec env) PEER_EVENTS_PREFIX s)
       (peer \<mapsto> \<lparr>pe_peer_pseudonym = peer, fingerprints = fps, pe_updated_at = now\<rparr>)"
proof -
  have len: "length fps \<le> MAX_CALENDAR_BATCH" using run by (auto simp: store_peer_events_def split: if_splits)
  with run obtain u cs where a: "require_opted_in env s = Inr u" "get_accepted_connections env s = Inr cs" "peer \<in> set cs"
    and put: "save_peer_events env s \<lparr>pe_peer_pseudonym = peer, fingerprints = fps, pe_updated_at = now\<rparr> = (Inr (), s')"
      "n = length fps"
    by (auto simp: store_peer_events_def res_bind_eq_Inr handler_err_def split: sum.splits if_splits prod.splits)
  have "kv_store (cal_ops env) view" by (rule json_rows.axioms(1) [OF peer_rows])
  with require_opted_in_Inr a(1) accepted_connections [OF assms(2,3) a(2)] a(3) len
    json_rows.put_json_rows [OF peer_rows put(1) [unfolded save_peer_events_def]] put(2)
  show ?thesis by auto
qed

text \<open>Every refusal leaves the store as it was.\<close>

lemma store_peer_events_refused:
  assumes "kv_reliable (cal_ops env) view" "store_peer_events env now s peer fps = (Inl e, s')"
  shows "s' = s"
proof -
  consider "s' = s"
    | e' where "save_peer_events env s \<lparr>pe_peer_pseudonym = peer, fingerprints = fps, pe_updated_at = now\<rparr> = (Inl e', s')"
    using assms(2)
    by (auto simp: store_peer_events_def res_bind_def handler_err_def map_err_def split: sum.splits if_splits prod.splits)
  then show ?thesis
    using put_json_fails [OF assms(1)] by cases (auto simp: save_peer_events_def)
qed

section \<open>An instance\<close>

text \<open>A store of tagged values over the in-memory operations, and date-times as seconds.\<close>

datatype calendar_bytes =
    Raw string | Event_Bytes event_fingerprint | Peer_Bytes peer_event_set
  | Received_Bytes local_connection_request | Sent_Bytes local_sent_request

definition demo_calendar :: "((string \<times> calendar_bytes) list, calendar_bytes, int) calendar_env" where
  "demo_calendar =
     \<lparr>cal_ops = mem_ops,
      event_codec = \<lparr>to_vec = (\<lambda>x. Inr (Event_Bytes x)), from_slice = (\<lambda>b. case b of Event_Bytes x \<Rightarrow> Inr x | _ \<Rightarrow> Inl ''bad'')\<rparr>,
      peer_codec = \<lparr>to_vec = (\<lambda>x. Inr (Peer_Bytes x)), from_slice = (\<lambda>b. case b of Peer_Bytes x \<Rightarrow> Inr x | _ \<Rightarrow> Inl ''bad'')\<rparr>,
      received_codec = \<lparr>to_vec = (\<lambda>x. Inr (Received_Bytes x)), from_slice = (\<lambda>b. case b of Received_Bytes x \<Rightarrow> Inr x | _ \<Rightarrow> Inl ''bad'')\<rparr>,
      sent_codec = \<lparr>to_vec = (\<lambda>x. Inr (Sent_Bytes x)), from_slice = (\<lambda>b. case b of Sent_Bytes x \<Rightarrow> Inr x | _ \<Rightarrow> Inl ''bad'')\<rparr>,
      byte_lit = Raw, sha_hex = id,
      parse_from_str = (\<lambda>s _. map_option int (digits_value 0 s)), secs_between = (-),
      event_order = sorted_list_of_set\<rparr>"

interpretation demo_events: json_rows mem_ops map_of "event_codec demo_calendar"
  by unfold_locales (auto simp: demo_calendar_def sound_codec_def codec_ok_def)

interpretation demo_peers: json_rows mem_ops map_of "peer_codec demo_calendar"
  by unfold_locales (auto simp: demo_calendar_def sound_codec_def codec_ok_def)

interpretation demo_received: json_rows mem_ops map_of "received_codec demo_calendar"
  by unfold_locales (auto simp: demo_calendar_def sound_codec_def codec_ok_def)

interpretation demo_sent: json_rows mem_ops map_of "sent_codec demo_calendar"
  by unfold_locales (auto simp: demo_calendar_def sound_codec_def codec_ok_def)

lemma demo_calendar_simps [simp]:
  "cal_ops demo_calendar = mem_ops" "byte_lit demo_calendar = Raw" "secs_between demo_calendar = (-)"
  "event_order demo_calendar = sorted_list_of_set"
  by (simp_all add: demo_calendar_def)

text \<open>On a store that does not fail, opting out succeeds.\<close>

lemma clear_prefix_total:
  assumes "kv_reliable ops view"
  shows "\<exists>m s'. clear_prefix se de ops s pre n = (Inr m, s')"
proof -
  obtain rows where rows: "kv_scan_prefix ops s pre = Inr rows" using kv_reliable.scan_total [OF assms] by blast
  obtain m s' where "delete_all ops s (map fst rows) n = (Inr m, s')" using kv_reliable.delete_all_total [OF assms] by blast
  with rows show ?thesis by (simp add: clear_prefix_def)
qed

lemma opt_out_total:
  assumes "kv_reliable (cal_ops env) view"
  shows "\<exists>st s'. calendar_sharing_opt_out env s = (Inr st, s')"
proof -
  obtain s1 where "cal_set_opt_in env s False = (Inr (), s1)"
    using kv_reliable.put_total [OF assms, of s CALENDAR_SHARING_OPTED_IN_KEY "byte_lit env ''false''"]
    by (auto simp: cal_set_opt_in_def)
  moreover obtain n s2 where n: "clear_prefix ''Failed to scan local events for clear: '' ''Failed to delete local event entry: ''
      (cal_ops env) s1 CALENDAR_EVENTS_PREFIX 0 = (Inr n, s2)"
    using clear_prefix_total [OF assms] by blast
  moreover obtain m s3 where m: "clear_prefix ''Failed to scan peer events for clear: '' ''Failed to delete peer event entry: ''
      (cal_ops env) s2 PEER_EVENTS_PREFIX n = (Inr m, s3)"
    using clear_prefix_total [OF assms] by blast
  ultimately show ?thesis by (simp add: calendar_sharing_opt_out_def clear_all_calendar_data_def)
qed

end
