(* ===== verification/Photo_Moments.thy ===== *)
theory Photo_Moments
  imports Json_Rows Contact_Book Floats Handlers
begin

text \<open>
  \<^verbatim>\<open>src/discovery/moments.rs\<close> and \<^verbatim>\<open>src/handlers/discovery/photo_moments.rs\<close>: photos are
  turned into keyed hashes of an hour and a geohash cell, and hashes exchanged with a
  peer reveal shared moments. An instant is a number of nanoseconds since the epoch;
  chrono's calendar fields of an instant, its parser and its rendering, the geohash
  crate, HMAC and HKDF are fields of \<open>moment_env\<close>, with the store operations and the
  JSON codecs. A run that creates moments is given the identifiers it draws.
\<close>

section \<open>Data\<close>

definition MOMENT_OPTIN_PREFIX :: string where
  "MOMENT_OPTIN_PREFIX = ''discovery:moment_optin:''"

definition MOMENT_HASH_PREFIX :: string where
  "MOMENT_HASH_PREFIX = ''discovery:moment_hash:''"

definition SHARED_MOMENT_PREFIX :: string where
  "SHARED_MOMENT_PREFIX = ''discovery:shared_moment:''"

definition PEER_MOMENT_PREFIX :: string where
  "PEER_MOMENT_PREFIX = ''discovery:peer_moment:''"

definition MAX_SAVED_MOMENT_HASHES :: nat where
  "MAX_SAVED_MOMENT_HASHES = 100000"

definition MAX_PHOTO_BATCH :: nat where
  "MAX_PHOTO_BATCH = 1000"

record moment_opt_in_row =
  mo_peer_pseudonym :: string
  mo_peer_display_name :: "string option"
  mo_opted_in_at :: string

record photo_moment_hash =
  mh_hash :: string
  mh_time_bucket :: string
  mh_geohash :: string
  mh_timestamp :: string
  mh_record_id :: string

record shared_moment =
  sm_moment_id :: string
  sm_peer_pseudonym :: string
  sm_peer_display_name :: "string option"
  sm_time_bucket :: string
  sm_geohash :: string
  sm_location_name :: "string option"
  sm_our_record_id :: string
  sm_our_timestamp :: string
  sm_peer_timestamp :: "string option"
  sm_detected_at :: string

record moment_hash_exchange =
  mx_sender_pseudonym :: string
  mx_hashes :: "string list"
  mx_exchanged_at :: string

record photo_metadata =
  ph_record_id :: string
  ph_timestamp :: string
  ph_latitude :: fl
  ph_longitude :: fl

record civil_time =
  civil_year :: int
  civil_month :: nat
  civil_day :: nat
  civil_hour :: nat

record ('s, 'b, 'k) moment_env =
  mom_ops :: "('s, string, 'b) kv_ops"
  optin_codec :: "(moment_opt_in_row, 'b) codec"
  hashes_codec :: "(photo_moment_hash list, 'b) codec"
  exchange_codec :: "(moment_hash_exchange, 'b) codec"
  moment_codec :: "(shared_moment, 'b) codec"
  civil :: "int \<Rightarrow> civil_time"
  to_rfc3339 :: "int \<Rightarrow> string"
  parse_utc :: "string \<Rightarrow> string + int"
  geohash_encode :: "fl \<Rightarrow> fl \<Rightarrow> nat \<Rightarrow> string + string"
  geohash_neighbors :: "string \<Rightarrow> (string + string list)"
  hmac_hex :: "'k \<Rightarrow> string \<Rightarrow> string"
  hkdf_expand :: "string \<Rightarrow> 'k \<Rightarrow> string \<Rightarrow> 'k"
  pseudonym_of :: "'k \<Rightarrow> string \<Rightarrow> string"

section \<open>Hashes\<close>

text \<open>\<^verbatim>\<open>{:0w}\<close> of a signed integer: the sign counts towards the width.\<close>

definition show_int_pad :: "nat \<Rightarrow> int \<Rightarrow> string" where
  "show_int_pad w i = (if i < 0 then ''-'' @ show_pad (w - 1) (nat (- i)) else show_pad w (nat i))"

definition time_bucket :: "('s, 'b, 'k) moment_env \<Rightarrow> int \<Rightarrow> string" where
  "time_bucket env timestamp =
     (let t = civil env timestamp in
      show_int_pad 4 (civil_year t) @ ''-'' @ show_pad 2 (civil_month t) @ ''-'' @ show_pad 2 (civil_day t) @
      ''T'' @ show_pad 2 (civil_hour t))"

text \<open>\<^verbatim>\<open>Duration::hours(1)\<close>, in nanoseconds.\<close>

definition one_hour :: int where
  "one_hour = 3600000000000"

definition adjacent_time_buckets :: "('s, 'b, 'k) moment_env \<Rightarrow> int \<Rightarrow> string list" where
  "adjacent_time_buckets env timestamp =
     [time_bucket env (timestamp - one_hour), time_bucket env timestamp, time_bucket env (timestamp + one_hour)]"

definition encode_location :: "('s, 'b, 'k) moment_env \<Rightarrow> fl \<Rightarrow> fl \<Rightarrow> string option" where
  "encode_location env latitude longitude =
     (if \<not> (fl_le (Fin (-90)) latitude \<and> fl_le latitude (Fin 90)) \<or>
         \<not> (fl_le (Fin (-180)) longitude \<and> fl_le longitude (Fin 180)) then None
      else case geohash_encode env longitude latitude 6 of Inl _ \<Rightarrow> None | Inr gh \<Rightarrow> Some gh)"

definition neighboring_geohashes :: "('s, 'b, 'k) moment_env \<Rightarrow> string \<Rightarrow> string list" where
  "neighboring_geohashes env gh =
     gh # (case geohash_neighbors env gh of Inl _ \<Rightarrow> [] | Inr neighbors \<Rightarrow> neighbors)"

definition compute_moment_hash :: "('s, 'b, 'k) moment_env \<Rightarrow> string \<Rightarrow> string \<Rightarrow> 'k \<Rightarrow> string" where
  "compute_moment_hash env tb geohash shared_secret = hmac_hex env shared_secret (tb @ ''|'' @ geohash)"

definition derive_peer_shared_secret :: "('s, 'b, 'k) moment_env \<Rightarrow> 'k \<Rightarrow> string \<Rightarrow> string \<Rightarrow> 'k" where
  "derive_peer_shared_secret env master_key our_pseudonym peer_pseudonym =
     (let (first, second) = (if our_pseudonym < peer_pseudonym then (our_pseudonym, peer_pseudonym)
                             else (peer_pseudonym, our_pseudonym))
      in hkdf_expand env (''moment-shared-secret:'' @ first @ '':'' @ second) master_key ''photo-moment-hmac'')"

definition generate_moment_hashes ::
    "('s, 'b, 'k) moment_env \<Rightarrow> int \<Rightarrow> fl \<Rightarrow> fl \<Rightarrow> string \<Rightarrow> 'k \<Rightarrow> photo_moment_hash list" where
  "generate_moment_hashes env timestamp latitude longitude record_id shared_secret =
     (case encode_location env latitude longitude of
        None \<Rightarrow> []
      | Some primary_gh \<Rightarrow>
          let time_buckets = adjacent_time_buckets env timestamp;
              geohashes = neighboring_geohashes env primary_gh;
              primary_bucket = time_bucket env timestamp
          in concat (map (\<lambda>tb. map (\<lambda>gh.
               \<lparr>mh_hash = compute_moment_hash env tb gh shared_secret, mh_time_bucket = primary_bucket,
                mh_geohash = primary_gh, mh_timestamp = to_rfc3339 env timestamp, mh_record_id = record_id\<rparr>)
               geohashes) time_buckets))"

definition find_hash_overlaps :: "photo_moment_hash list \<Rightarrow> string list \<Rightarrow> photo_moment_hash list" where
  "find_hash_overlaps our_hashes peer_hashes = filter (\<lambda>h. mh_hash h \<in> set peer_hashes) our_hashes"

section \<open>Storage\<close>

definition save_moment_opt_in ::
    "('s, 'b, 'k) moment_env \<Rightarrow> 's \<Rightarrow> moment_opt_in_row \<Rightarrow> (string + unit) \<times> 's" where
  "save_moment_opt_in env s opt_in =
     put_json ''Failed to serialize opt-in: '' ''Failed to save opt-in: ''
       (mom_ops env) (optin_codec env) s (MOMENT_OPTIN_PREFIX @ mo_peer_pseudonym opt_in) opt_in"

definition remove_moment_opt_in :: "('s, 'b, 'k) moment_env \<Rightarrow> 's \<Rightarrow> string \<Rightarrow> (string + unit) \<times> 's" where
  "remove_moment_opt_in env s peer =
     (case kv_delete (mom_ops env) s (MOMENT_OPTIN_PREFIX @ peer) of
        (Inl e, s') \<Rightarrow> (Inl (''Failed to remove opt-in: '' @ e), s')
      | (Inr _, s') \<Rightarrow> (Inr (), s'))"

definition list_moment_opt_ins :: "('s, 'b, 'k) moment_env \<Rightarrow> 's \<Rightarrow> string + moment_opt_in_row list" where
  "list_moment_opt_ins env s =
     scan_json ''Failed to scan opt-ins: '' ''Failed to deserialize moment opt-in: ''
       (mom_ops env) (optin_codec env) s MOMENT_OPTIN_PREFIX"

definition has_moment_opt_in :: "('s, 'b, 'k) moment_env \<Rightarrow> 's \<Rightarrow> string \<Rightarrow> string + bool" where
  "has_moment_opt_in env s peer =
     res_bind (map_err (\<lambda>e. ''Failed to check opt-in: '' @ e) (kv_get (mom_ops env) s (MOMENT_OPTIN_PREFIX @ peer)))
       (\<lambda>value. Inr (value \<noteq> None))"

definition load_our_moment_hashes ::
    "('s, 'b, 'k) moment_env \<Rightarrow> 's \<Rightarrow> string \<Rightarrow> string + photo_moment_hash list" where
  "load_our_moment_hashes env s peer =
     res_bind (get_json ''Failed to load moment hashes: '' ''Failed to deserialize moment hashes: ''
         (mom_ops env) (hashes_codec env) s (MOMENT_HASH_PREFIX @ peer))
       (\<lambda>value. Inr (case value of None \<Rightarrow> [] | Some hashes \<Rightarrow> hashes))"

text \<open>The merged list: first occurrences in order, the front evicted beyond the cap.\<close>

definition merge_moment_hashes :: "photo_moment_hash list \<Rightarrow> photo_moment_hash list \<Rightarrow> photo_moment_hash list" where
  "merge_moment_hashes existing hashes =
     (let merged = dedup_by mh_hash {} (existing @ hashes)
      in if length merged > MAX_SAVED_MOMENT_HASHES then drop (length merged - MAX_SAVED_MOMENT_HASHES) merged
         else merged)"

definition save_our_moment_hashes ::
    "('s, 'b, 'k) moment_env \<Rightarrow> 's \<Rightarrow> string \<Rightarrow> photo_moment_hash list \<Rightarrow> (string + unit) \<times> 's" where
  "save_our_moment_hashes env s peer hashes =
     (case load_our_moment_hashes env s peer of
        Inl e \<Rightarrow> (Inl e, s)
      | Inr existing \<Rightarrow>
          put_json ''Failed to serialize moment hashes: '' ''Failed to save moment hashes: ''
            (mom_ops env) (hashes_codec env) s (MOMENT_HASH_PREFIX @ peer) (merge_moment_hashes existing hashes))"

definition save_peer_moment_hashes ::
    "('s, 'b, 'k) moment_env \<Rightarrow> 's \<Rightarrow> string \<Rightarrow> moment_hash_exchange \<Rightarrow> (string + unit) \<times> 's" where
  "save_peer_moment_hashes env s peer exchange =
     put_json ''Failed to serialize peer exchange: '' ''Failed to save peer exchange: ''
       (mom_ops env) (exchange_codec env) s (PEER_MOMENT_PREFIX @ peer) exchange"

definition load_peer_moment_hashes ::
    "('s, 'b, 'k) moment_env \<Rightarrow> 's \<Rightarrow> string \<Rightarrow> string + moment_hash_exchange option" where
  "load_peer_moment_hashes env s peer =
     get_json ''Failed to load peer exchange: '' ''Failed to deserialize peer exchange: ''
       (mom_ops env) (exchange_codec env) s (PEER_MOMENT_PREFIX @ peer)"

definition save_shared_moment :: "('s, 'b, 'k) moment_env \<Rightarrow> 's \<Rightarrow> shared_moment \<Rightarrow> (string + unit) \<times> 's" where
  "save_shared_moment env s moment =
     put_json ''Failed to serialize shared moment: '' ''Failed to save shared moment: ''
       (mom_ops env) (moment_codec env) s (SHARED_MOMENT_PREFIX @ sm_moment_id moment) moment"

definition list_shared_moments :: "('s, 'b, 'k) moment_env \<Rightarrow> 's \<Rightarrow> string + shared_moment list" where
  "list_shared_moments env s =
     res_bind (scan_json ''Failed to scan shared moments: '' ''Failed to deserialize shared moment: ''
         (mom_ops env) (moment_codec env) s SHARED_MOMENT_PREFIX)
       (\<lambda>moments. Inr (sort_desc sm_detected_at moments))"

section \<open>Detection\<close>

definition moment_of ::
    "string \<Rightarrow> string option \<Rightarrow> string \<Rightarrow> string \<Rightarrow> photo_moment_hash \<Rightarrow> shared_moment" where
  "moment_of peer name now uuid matched =
     \<lparr>sm_moment_id = uuid, sm_peer_pseudonym = peer, sm_peer_display_name = name,
      sm_time_bucket = mh_time_bucket matched, sm_geohash = mh_geohash matched, sm_location_name = None,
      sm_our_record_id = mh_record_id matched, sm_our_timestamp = mh_timestamp matched,
      sm_peer_timestamp = None, sm_detected_at = now\<rparr>"

definition dedup_key :: "photo_moment_hash \<Rightarrow> string" where
  "dedup_key matched = mh_time_bucket matched @ ''|'' @ mh_geohash matched"

text \<open>
  The loop over the matches: \<open>seen\<close> are the keys already met, \<open>uuid n\<close> is the identifier
  the next moment gets, \<open>acc\<close> are the moments created so far.
\<close>

fun detect_moments_loop ::
    "('s, 'b, 'k) moment_env \<Rightarrow> string \<Rightarrow> string option \<Rightarrow> string \<Rightarrow> (nat \<Rightarrow> string) \<Rightarrow> string set \<Rightarrow> nat
     \<Rightarrow> shared_moment list \<Rightarrow> 's \<Rightarrow> photo_moment_hash list \<Rightarrow> (string + shared_moment list) \<times> 's" where
  "detect_moments_loop env peer name now uuid seen n acc s [] = (Inr acc, s)"
| "detect_moments_loop env peer name now uuid seen n acc s (matched # ms) =
     (if dedup_key matched \<in> seen then detect_moments_loop env peer name now uuid seen n acc s ms
      else let moment = moment_of peer name now (uuid n) matched in
           case save_shared_moment env s moment of
             (Inl e, s') \<Rightarrow> (Inl e, s')
           | (Inr _, s') \<Rightarrow>
               detect_moments_loop env peer name now uuid (insert (dedup_key matched) seen) (Suc n) (acc @ [moment]) s' ms)"

definition detect_shared_moments ::
    "('s, 'b, 'k) moment_env \<Rightarrow> string \<Rightarrow> (nat \<Rightarrow> string) \<Rightarrow> nat \<Rightarrow> 's \<Rightarrow> string \<Rightarrow> string option
     \<Rightarrow> (string + shared_moment list) \<times> 's" where
  "detect_shared_moments env now uuid n s peer name =
     (case load_our_moment_hashes env s peer of
        Inl e \<Rightarrow> (Inl e, s)
      | Inr our_hashes \<Rightarrow>
          (case load_peer_moment_hashes env s peer of
             Inl e \<Rightarrow> (Inl e, s)
           | Inr None \<Rightarrow> (Inr [], s)
           | Inr (Some exchange) \<Rightarrow>
               detect_moments_loop env peer name now uuid {} n [] s (find_hash_overlaps our_hashes (mx_hashes exchange))))"

section \<open>Handlers\<close>

datatype moment_peer_authz = Authorized | UnknownPeer | RevokedPeer

definition has_pseudonym :: "string \<Rightarrow> contact \<Rightarrow> bool" where
  "has_pseudonym p c \<longleftrightarrow> identity_pseudonym c = Some p \<or> messaging_pseudonym c = Some p \<or> pseudonym c = Some p"

text \<open>\<open>it\<close> is the iteration order of the contact map.\<close>

definition find_contact_by_pseudonym ::
    "(string set \<Rightarrow> string list) \<Rightarrow> contact_book \<Rightarrow> string \<Rightarrow> contact option" where
  "find_contact_by_pseudonym it book peer = List.find (has_pseudonym peer) (map (\<lambda>pk. the (book pk)) (it (dom book)))"

definition authorize_moment_peer ::
    "(string set \<Rightarrow> string list) \<Rightarrow> contact_book \<Rightarrow> string \<Rightarrow> moment_peer_authz" where
  "authorize_moment_peer it book peer =
     (case find_contact_by_pseudonym it book peer of
        None \<Rightarrow> UnknownPeer
      | Some c \<Rightarrow> if revoked c then RevokedPeer else Authorized)"

text \<open>The contact book lives in a store of its own, with state \<open>cs\<close>.\<close>

definition moment_opt_in ::
    "('s, 'b, 'k) moment_env \<Rightarrow> (string set \<Rightarrow> string list) \<Rightarrow> (schema_error \<Rightarrow> string)
     \<Rightarrow> ('c, string, contact) kv_ops \<Rightarrow> 'c \<Rightarrow> string \<Rightarrow> 's \<Rightarrow> string \<Rightarrow> string option
     \<Rightarrow> (handler_error + moment_opt_in_row list) \<times> 's" where
  "moment_opt_in env it show_schema cops cs now s peer name =
     (case handler_err show_schema ''load contact book'' (load_contacts cops cs) of
        Inl e \<Rightarrow> (Inl e, s)
      | Inr contact_book \<Rightarrow>
          (case authorize_moment_peer it contact_book peer of
             UnknownPeer \<Rightarrow> (Inl (Unauthorized (''moment_opt_in: peer pseudonym '' @ quoted peer @ '' is not a known contact'')), s)
           | RevokedPeer \<Rightarrow> (Inl (Unauthorized (''moment_opt_in: peer pseudonym '' @ quoted peer @ '' belongs to a revoked contact'')), s)
           | Authorized \<Rightarrow>
               (case save_moment_opt_in env s
                       \<lparr>mo_peer_pseudonym = peer, mo_peer_display_name = name, mo_opted_in_at = now\<rparr> of
                  (Inl e, s') \<Rightarrow> (handler_err id ''save moment opt-in'' (Inl e), s')
                | (Inr _, s') \<Rightarrow> (handler_err id ''list moment opt-ins'' (list_moment_opt_ins env s'), s'))))"

definition moment_opt_out ::
    "('s, 'b, 'k) moment_env \<Rightarrow> 's \<Rightarrow> string \<Rightarrow> (handler_error + moment_opt_in_row list) \<times> 's" where
  "moment_opt_out env s peer =
     (case remove_moment_opt_in env s peer of
        (Inl e, s') \<Rightarrow> (handler_err id ''remove moment opt-in'' (Inl e), s')
      | (Inr _, s') \<Rightarrow> (handler_err id ''list moment opt-ins'' (list_moment_opt_ins env s'), s'))"

definition moment_opt_in_list :: "('s, 'b, 'k) moment_env \<Rightarrow> 's \<Rightarrow> handler_error + moment_opt_in_row list" where
  "moment_opt_in_list env s = handler_err id ''list moment opt-ins'' (list_moment_opt_ins env s)"

definition photo_hashes ::
    "('s, 'b, 'k) moment_env \<Rightarrow> 'k \<Rightarrow> photo_metadata \<Rightarrow> handler_error + photo_moment_hash list" where
  "photo_hashes env shared_secret photo =
     (case parse_utc env (ph_timestamp photo) of
        Inl e \<Rightarrow> Inl (BadRequest (''Invalid timestamp '' @ quoted (ph_timestamp photo) @ '': '' @ e))
      | Inr ts \<Rightarrow> Inr (generate_moment_hashes env ts (ph_latitude photo) (ph_longitude photo) (ph_record_id photo) shared_secret))"

text \<open>One peer after the other: a bad time stamp or a failed write ends the scan, with the earlier peers saved.\<close>

fun scan_peers ::
    "('s, 'b, 'k) moment_env \<Rightarrow> 'k \<Rightarrow> string \<Rightarrow> photo_metadata list \<Rightarrow> nat \<Rightarrow> 's \<Rightarrow> moment_opt_in_row list
     \<Rightarrow> (handler_error + nat) \<times> 's" where
  "scan_peers env master_key us photos total_hashes s [] = (Inr total_hashes, s)"
| "scan_peers env master_key us photos total_hashes s (opt_in # opt_ins) =
     (let shared_secret = derive_peer_shared_secret env master_key us (mo_peer_pseudonym opt_in) in
      case collect_res (photo_hashes env shared_secret) photos of
        Inl e \<Rightarrow> (Inl e, s)
      | Inr hashes \<Rightarrow>
          (case save_our_moment_hashes env s (mo_peer_pseudonym opt_in) (concat hashes) of
             (Inl e, s') \<Rightarrow> (handler_err id ''save moment hashes'' (Inl e), s')
           | (Inr _, s') \<Rightarrow> scan_peers env master_key us photos (total_hashes + length (concat hashes)) s' opt_ins))"

record moment_scan_response =
  photos_scanned :: nat
  hashes_generated :: nat
  peers_processed :: nat

definition moment_scan ::
    "('s, 'b, 'k) moment_env \<Rightarrow> 's \<Rightarrow> 'k \<Rightarrow> photo_metadata list \<Rightarrow> (handler_error + moment_scan_response) \<times> 's" where
  "moment_scan env s master_key photos =
     (if length photos > MAX_PHOTO_BATCH then
        (Inl (BadRequest (''Too many photos in batch: '' @ show_nat (length photos) @
                          '' (max '' @ show_nat MAX_PHOTO_BATCH @ '')'')), s)
      else case handler_err id ''list moment opt-ins'' (list_moment_opt_ins env s) of
        Inl e \<Rightarrow> (Inl e, s)
      | Inr opt_ins \<Rightarrow>
          if opt_ins = [] then (Inr \<lparr>photos_scanned = length photos, hashes_generated = 0, peers_processed = 0\<rparr>, s)
          else (case scan_peers env master_key (pseudonym_of env master_key ''moment-sharing'') photos 0 s opt_ins of
                  (Inl e, s') \<Rightarrow> (Inl e, s')
                | (Inr total_hashes, s') \<Rightarrow>
                    (Inr \<lparr>photos_scanned = length photos, hashes_generated = total_hashes, peers_processed = length opt_ins\<rparr>, s')))"

definition moment_receive_hashes ::
    "('s, 'b, 'k) moment_env \<Rightarrow> string \<Rightarrow> 's \<Rightarrow> string \<Rightarrow> string list \<Rightarrow> (handler_error + unit) \<times> 's" where
  "moment_receive_hashes env now s sender hashes =
     (case handler_err id ''check moment opt-in'' (has_moment_opt_in env s sender) of
        Inl e \<Rightarrow> (Inl e, s)
      | Inr has_opt_in \<Rightarrow>
          if \<not> has_opt_in then
            (Inl (BadRequest (''No moment opt-in for peer '' @ sender @ ''. Both peers must opt-in first.'')), s)
          else (case save_peer_moment_hashes env s sender
                       \<lparr>mx_sender_pseudonym = sender, mx_hashes = hashes, mx_exchanged_at = now\<rparr> of
                  (r, s') \<Rightarrow> (handler_err id ''save peer moment hashes'' r, s')))"

fun detect_peers ::
    "('s, 'b, 'k) moment_env \<Rightarrow> string \<Rightarrow> (nat \<Rightarrow> string) \<Rightarrow> shared_moment list \<Rightarrow> 's \<Rightarrow> moment_opt_in_row list
     \<Rightarrow> (handler_error + shared_moment list) \<times> 's" where
  "detect_peers env now uuid acc s [] = (Inr acc, s)"
| "detect_peers env now uuid acc s (opt_in # opt_ins) =
     (case detect_shared_moments env now uuid (length acc) s (mo_peer_pseudonym opt_in) (mo_peer_display_name opt_in) of
        (Inl e, s') \<Rightarrow> (handler_err id ''detect shared moments'' (Inl e), s')
      | (Inr new_moments, s') \<Rightarrow> detect_peers env now uuid (acc @ new_moments) s' opt_ins)"

text \<open>\<open>uuid\<close> are the identifiers the run draws, in order; \<open>now\<close> is the rendered current time.\<close>

definition moment_detect ::
    "('s, 'b, 'k) moment_env \<Rightarrow> string \<Rightarrow> (nat \<Rightarrow> string) \<Rightarrow> 's \<Rightarrow> (handler_error + nat \<times> shared_moment list) \<times> 's" where
  "moment_detect env now uuid s =
     (case handler_err id ''list moment opt-ins'' (list_moment_opt_ins env s) of
        Inl e \<Rightarrow> (Inl e, s)
      | Inr opt_ins \<Rightarrow>
          (case detect_peers env now uuid [] s opt_ins of
             (Inl e, s') \<Rightarrow> (Inl e, s')
           | (Inr all_new, s') \<Rightarrow> (Inr (length all_new, all_new), s')))"

definition moment_list :: "('s, 'b, 'k) moment_env \<Rightarrow> 's \<Rightarrow> handler_error + shared_moment list" where
  "moment_list env s = handler_err id ''list shared moments'' (list_shared_moments env s)"

end
