(* ===== verification/Moments_Correct.thy ===== *)
theory Moments_Correct
  imports Photo_Moments
begin

text \<open>
  Facts about photo moments: photos at most an hour apart in the same or neighbouring
  cells share a hash; the saved hashes are distinct and bounded, and a batch that fits
  is never evicted by its own arrival; a detection run creates one moment per hour and
  cell, and a second run creates them all again; only a contact in good standing can be
  opted in, and only an opted-in peer's hashes are stored. The last section instantiates
  the parameters.
\<close>

section \<open>Nearby photos share a hash\<close>

text \<open>The calendar fields of an instant are those of the hour it lies in.\<close>

definition civil_hourly :: "('s, 'b, 'k) moment_env \<Rightarrow> bool" where
  "civil_hourly env \<longleftrightarrow> (\<forall>t u. t div one_hour = u div one_hour \<longrightarrow> civil env t = civil env u)"

lemma bucket_of_hour:
  assumes "civil_hourly env" "t div one_hour = u div one_hour"
  shows "time_bucket env t = time_bucket env u"
proof -
  have "civil env t = civil env u" using assms unfolding civil_hourly_def by blast
  then show ?thesis unfolding time_bucket_def by simp
qed

lemma hour_shift: "(t - one_hour) div one_hour = t div one_hour - 1" "(t + one_hour) div one_hour = t div one_hour + 1"
proof -
  have "one_hour \<noteq> 0" by (simp add: one_hour_def)
  then show "(t - one_hour) div one_hour = t div one_hour - 1" "(t + one_hour) div one_hour = t div one_hour + 1"
    using div_mult_self1 [of one_hour t "-1"] div_mult_self1 [of one_hour t 1] by simp_all
qed

lemma hours_within:
  assumes "\<bar>t - u\<bar> \<le> one_hour"
  shows "u div one_hour \<in> {t div one_hour - 1, t div one_hour, t div one_hour + 1}"
proof -
  have "0 < one_hour" by (simp add: one_hour_def)
  then have "(t - one_hour) div one_hour \<le> u div one_hour" "u div one_hour \<le> (t + one_hour) div one_hour"
    using assms by (intro zdiv_mono1; linarith)+
  then show ?thesis unfolding hour_shift by auto
qed

lemma bucket_within:
  assumes "civil_hourly env" "\<bar>t - u\<bar> \<le> one_hour"
  shows "time_bucket env u \<in> set (adjacent_time_buckets env t)"
proof -
  from hours_within [OF assms(2)] consider
    "u div one_hour = (t - one_hour) div one_hour" | "u div one_hour = t div one_hour"
    | "u div one_hour = (t + one_hour) div one_hour"
    unfolding hour_shift by blast
  then show ?thesis
    using bucket_of_hour [OF assms(1), of u] by cases (auto simp only: adjacent_time_buckets_def set_simps insert_iff)
qed

lemma generated_hashes:
  assumes "encode_location env lat lon = Some gh"
  shows "mh_hash ` set (generate_moment_hashes env t lat lon rid k) =
    {compute_moment_hash env tb g k | tb g. tb \<in> set (adjacent_time_buckets env t) \<and> g \<in> set (neighboring_geohashes env gh)}"
  unfolding generate_moment_hashes_def assms by (force simp: Let_def image_iff)

lemma nearby_photos_share:
  assumes hourly: "civil_hourly env" and time: "\<bar>t1 - t2\<bar> \<le> one_hour"
    and cells: "encode_location env lat1 lon1 = Some gh1" "encode_location env lat2 lon2 = Some gh2"
    and near: "gh2 \<in> set (neighboring_geohashes env gh1)"
  shows "find_hash_overlaps (generate_moment_hashes env t1 lat1 lon1 r1 k)
     (map mh_hash (generate_moment_hashes env t2 lat2 lon2 r2 k)) \<noteq> []"
proof -
  let ?h = "compute_moment_hash env (time_bucket env t1) gh2 k"
  have "?h \<in> mh_hash ` set (generate_moment_hashes env t1 lat1 lon1 r1 k)"
    unfolding generated_hashes [OF cells(1)] using near by (auto simp: adjacent_time_buckets_def)
  moreover have "\<bar>t2 - t1\<bar> \<le> one_hour" using time by linarith
  then have "?h \<in> mh_hash ` set (generate_moment_hashes env t2 lat2 lon2 r2 k)"
    unfolding generated_hashes [OF cells(2)] using bucket_within [OF hourly, of t2 t1]
    by (auto simp: neighboring_geohashes_def)
  ultimately obtain h where "h \<in> set (generate_moment_hashes env t1 lat1 lon1 r1 k)"
    "mh_hash h \<in> mh_hash ` set (generate_moment_hashes env t2 lat2 lon2 r2 k)"
    by (metis image_iff)
  then show ?thesis by (auto simp: find_hash_overlaps_def filter_empty_conv)
qed

lemma shared_secret_symmetric:
  "derive_peer_shared_secret env k a b = derive_peer_shared_secret env k b a"
  by (auto simp: derive_peer_shared_secret_def)

text \<open>At most 27 hashes for a photo.\<close>

lemma generate_length:
  assumes "\<And>gh ns. geohash_neighbors env gh = Inr ns \<Longrightarrow> length ns = 8"
  shows "length (generate_moment_hashes env t lat lon rid k) \<le> 27"
proof (cases "encode_location env lat lon")
  case (Some gh)
  have "length (neighboring_geohashes env gh) \<le> 9"
    using assms [of gh] by (auto simp: neighboring_geohashes_def split: sum.split)
  with Some show ?thesis
    by (simp add: generate_moment_hashes_def Let_def adjacent_time_buckets_def)
qed (simp add: generate_moment_hashes_def)

section \<open>Saved hashes\<close>

lemma distinct_drop_map: "distinct (map f xs) \<Longrightarrow> distinct (map f (drop n xs))"
  by (simp add: drop_map [symmetric])

lemma merge_bounded: "length (merge_moment_hashes existing new) \<le> MAX_SAVED_MOMENT_HASHES"
  by (auto simp: merge_moment_hashes_def Let_def)

lemma merge_distinct: "distinct (map mh_hash (merge_moment_hashes existing new))"
  by (simp add: merge_moment_hashes_def Let_def dedup_by_distinct distinct_drop_map)

lemma merge_from: "set (merge_moment_hashes existing new) \<subseteq> set existing \<union> set new"
proof -
  have "set (dedup_by mh_hash {} (existing @ new)) \<subseteq> set existing \<union> set new"
    using dedup_by_subset [of mh_hash "{}" "existing @ new"] by simp
  moreover have "set (merge_moment_hashes existing new) \<subseteq> set (dedup_by mh_hash {} (existing @ new))"
    by (simp add: merge_moment_hashes_def Let_def set_drop_subset)
  ultimately show ?thesis by (rule subset_trans [rotated])
qed

text \<open>Without overflow nothing is lost; with it, every hash not stored before is still kept when the batch fits.\<close>

lemma merge_keeps_all:
  assumes "length existing + length new \<le> MAX_SAVED_MOMENT_HASHES"
  shows "mh_hash ` set (merge_moment_hashes existing new) = mh_hash ` set existing \<union> mh_hash ` set new"
proof -
  have "length (dedup_by k S xs) \<le> length xs" for k :: "photo_moment_hash \<Rightarrow> string" and S xs
    by (induction xs arbitrary: S) (auto simp: le_SucI)
  from this [of mh_hash "{}" "existing @ new"] assms
  have "merge_moment_hashes existing new = dedup_by mh_hash {} (existing @ new)"
    by (simp add: merge_moment_hashes_def Let_def)
  then show ?thesis by (simp add: dedup_by_keys image_Un)
qed

lemma merge_keeps_new:
  assumes "length new \<le> MAX_SAVED_MOMENT_HASHES"
  shows "mh_hash ` set new - mh_hash ` set existing \<subseteq> mh_hash ` set (merge_moment_hashes existing new)"
proof -
  let ?old = "dedup_by mh_hash {} existing" and ?new = "dedup_by mh_hash (mh_hash ` set existing) new"
  have "length (dedup_by k S xs) \<le> length xs" for k :: "photo_moment_hash \<Rightarrow> string" and S xs
    by (induction xs arbitrary: S) (auto simp: le_SucI)
  from this [of mh_hash "mh_hash ` set existing" new] assms have "length ?new \<le> MAX_SAVED_MOMENT_HASHES" by simp
  then have "set ?new \<subseteq> set (merge_moment_hashes existing new)"
    by (auto simp: merge_moment_hashes_def Let_def dedup_by_append)
  then have "mh_hash ` set ?new \<subseteq> mh_hash ` set (merge_moment_hashes existing new)" by blast
  then show ?thesis by (simp add: dedup_by_keys)
qed

text \<open>What is stored is the end of the merged list; something is cut off only when the row is full.\<close>

lemma merge_suffix:
  obtains dropped where "dedup_by mh_hash {} (existing @ new) = dropped @ merge_moment_hashes existing new"
    "dropped \<noteq> [] \<longrightarrow> length (merge_moment_hashes existing new) = MAX_SAVED_MOMENT_HASHES"
proof
  let ?all = "dedup_by mh_hash {} (existing @ new)"
  show "?all = take (length ?all - MAX_SAVED_MOMENT_HASHES) ?all @ merge_moment_hashes existing new"
    by (simp add: merge_moment_hashes_def Let_def)
  show "take (length ?all - MAX_SAVED_MOMENT_HASHES) ?all \<noteq> [] \<longrightarrow>
      length (merge_moment_hashes existing new) = MAX_SAVED_MOMENT_HASHES"
    by (auto simp: merge_moment_hashes_def Let_def)
qed

lemma load_hashes_row:
  assumes "json_rows (mom_ops env) view (hashes_codec env)" "load_our_moment_hashes env s peer = Inr hs"
  shows "hs = (case rows_at view (hashes_codec env) MOMENT_HASH_PREFIX s peer of None \<Rightarrow> [] | Some h \<Rightarrow> h)"
  using assms(2) json_rows.get_json_rows [OF assms(1)]
  by (auto simp: load_our_moment_hashes_def res_bind_eq_Inr)

lemma save_hashes_effect:
  assumes store: "json_rows (mom_ops env) view (hashes_codec env)"
    and run: "save_our_moment_hashes env s peer hashes = (Inr u, s')"
  shows "rows_at view (hashes_codec env) MOMENT_HASH_PREFIX s' =
    (rows_at view (hashes_codec env) MOMENT_HASH_PREFIX s)
      (peer \<mapsto> merge_moment_hashes
         (case rows_at view (hashes_codec env) MOMENT_HASH_PREFIX s peer of None \<Rightarrow> [] | Some h \<Rightarrow> h) hashes)"
proof -
  from run obtain existing where l: "load_our_moment_hashes env s peer = Inr existing"
    and put: "put_json ''Failed to serialize moment hashes: '' ''Failed to save moment hashes: ''
      (mom_ops env) (hashes_codec env) s (MOMENT_HASH_PREFIX @ peer) (merge_moment_hashes existing hashes) = (Inr u, s')"
    by (auto simp: save_our_moment_hashes_def split: sum.splits)
  from json_rows.put_json_rows [OF store put] load_hashes_row [OF store l] show ?thesis by simp
qed

section \<open>Detection\<close>

text \<open>What the loop saves: one moment for the first match of each key not seen before.\<close>

definition detected ::
    "string \<Rightarrow> string option \<Rightarrow> string \<Rightarrow> (nat \<Rightarrow> string) \<Rightarrow> nat \<Rightarrow> photo_moment_hash list \<Rightarrow> shared_moment list" where
  "detected peer name now uuid n ms = map (\<lambda>(i, m). moment_of peer name now (uuid i) m) (enumerate n ms)"

lemma detected_Cons [simp]:
  "detected peer name now uuid n [] = []"
  "detected peer name now uuid n (m # ms) = moment_of peer name now (uuid n) m # detected peer name now uuid (Suc n) ms"
  by (simp_all add: detected_def)

lemma length_detected [simp]: "length (detected peer name now uuid n ms) = length ms"
  by (simp add: detected_def)

lemma detected_ids: "map sm_moment_id (detected peer name now uuid n ms) = map uuid [n ..< n + length ms]"
  by (induction ms arbitrary: n) (simp_all add: moment_of_def upt_rec)

lemma detected_cells:
  "map (\<lambda>m. (sm_time_bucket m, sm_geohash m)) (detected peer name now uuid n ms) =
     map (\<lambda>m. (mh_time_bucket m, mh_geohash m)) ms"
  by (induction ms arbitrary: n) (simp_all add: moment_of_def)

lemma detect_loop_result:
  assumes "detect_moments_loop env peer name now uuid seen n acc s ms = (Inr out, s')"
  shows "out = acc @ detected peer name now uuid n (dedup_by dedup_key seen ms)"
  using assms
proof (induction ms arbitrary: seen n acc s)
  case (Cons m ms)
  show ?case
  proof (cases "dedup_key m \<in> seen")
    case False
    let ?x = "moment_of peer name now (uuid n) m"
    from Cons.prems False obtain t where
      "detect_moments_loop env peer name now uuid (insert (dedup_key m) seen) (Suc n) (acc @ [?x]) t ms = (Inr out, s')"
      by (auto simp: Let_def split: prod.splits sum.splits)
    from Cons.IH [OF this] False show ?thesis by simp
  qed (use Cons in auto)
qed simp

lemma detect_loop_rows:
  assumes store: "json_rows (mom_ops env) view (moment_codec env)"
    and "detect_moments_loop env peer name now uuid seen n acc s ms = (Inr out, s')"
  shows "rows_at view (moment_codec env) SHARED_MOMENT_PREFIX s' =
     rows_at view (moment_codec env) SHARED_MOMENT_PREFIX s ++
     map_of (rev (map (\<lambda>m. (sm_moment_id m, m)) (detected peer name now uuid n (dedup_by dedup_key seen ms))))"
  using assms(2)
proof (induction ms arbitrary: seen n acc s)
  case (Cons m ms)
  show ?case
  proof (cases "dedup_key m \<in> seen")
    case True
    with Cons show ?thesis by auto
  next
    case False
    let ?x = "moment_of peer name now (uuid n) m"
    from Cons.prems False obtain t where t: "save_shared_moment env s ?x = (Inr (), t)"
      "detect_moments_loop env peer name now uuid (insert (dedup_key m) seen) (Suc n) (acc @ [?x]) t ms = (Inr out, s')"
      by (auto simp: Let_def split: prod.splits sum.splits)
    have "rows_at view (moment_codec env) SHARED_MOMENT_PREFIX t =
        rows_at view (moment_codec env) SHARED_MOMENT_PREFIX s ++ [sm_moment_id ?x \<mapsto> ?x]"
      using json_rows.put_json_rows [OF store t(1) [unfolded save_shared_moment_def]] by simp
    with Cons.IH [OF t(2)] False show ?thesis by (simp del: map_add_upd map_add_empty)
  qed
qed simp

lemma detect_shared_moments_result:
  assumes "detect_shared_moments env now uuid n s peer name = (Inr out, s')"
    and "load_our_moment_hashes env s peer = Inr ours" "load_peer_moment_hashes env s peer = Inr (Some x)"
  shows "out = detected peer name now uuid n (dedup_by dedup_key {} (find_hash_overlaps ours (mx_hashes x)))"
  using detect_loop_result [of env peer name now uuid "{}" n "[]" s] assms
  by (simp add: detect_shared_moments_def)

text \<open>One moment per hour and cell, and every match is represented.\<close>

lemma dedup_cells_distinct: "distinct (map (\<lambda>m. (mh_time_bucket m, mh_geohash m)) (dedup_by dedup_key seen ms))"
proof -
  let ?g = "\<lambda>(a, b). a @ ''|'' @ b"
  have "distinct (map ?g (map (\<lambda>m. (mh_time_bucket m, mh_geohash m)) (dedup_by dedup_key seen ms)))"
    using dedup_by_distinct [of dedup_key seen ms] by (simp add: comp_def dedup_key_def [abs_def])
  then show ?thesis unfolding distinct_map by blast
qed

section \<open>Detection is not remembered\<close>

lemma moment_prefixes_apart:
  "prefixes_apart SHARED_MOMENT_PREFIX MOMENT_HASH_PREFIX" "prefixes_apart SHARED_MOMENT_PREFIX PEER_MOMENT_PREFIX"
  "prefixes_apart SHARED_MOMENT_PREFIX MOMENT_OPTIN_PREFIX" "prefixes_apart MOMENT_HASH_PREFIX MOMENT_OPTIN_PREFIX"
  by (simp_all add: prefixes_apart_def SHARED_MOMENT_PREFIX_def MOMENT_HASH_PREFIX_def PEER_MOMENT_PREFIX_def
      MOMENT_OPTIN_PREFIX_def)

lemma detect_loop_frame:
  assumes store: "json_rows (mom_ops env) view (moment_codec env)" and apart: "prefixes_apart SHARED_MOMENT_PREFIX q"
    and "detect_moments_loop env peer name now uuid seen n acc s ms = (Inr out, s')"
  shows "view s' (q @ j) = view s (q @ j)"
  using assms(3)
proof (induction ms arbitrary: seen n acc s)
  case (Cons m ms)
  show ?case
  proof (cases "dedup_key m \<in> seen")
    case False
    let ?x = "moment_of peer name now (uuid n) m"
    from Cons.prems False obtain t where t: "save_shared_moment env s ?x = (Inr (), t)"
      "detect_moments_loop env peer name now uuid (insert (dedup_key m) seen) (Suc n) (acc @ [?x]) t ms = (Inr out, s')"
      by (auto simp: Let_def split: prod.splits sum.splits)
    from Cons.IH [OF t(2)] json_rows.put_json_frame [OF store t(1) [unfolded save_shared_moment_def] apart]
    show ?thesis by simp
  qed (use Cons in auto)
qed simp

lemma detect_frame:
  assumes "json_rows (mom_ops env) view (moment_codec env)" "prefixes_apart SHARED_MOMENT_PREFIX q"
    and "detect_shared_moments env now uuid n s peer name = (Inr out, s')"
  shows "view s' (q @ j) = view s (q @ j)"
  using assms(3) detect_loop_frame [OF assms(1,2)]
  by (auto simp: detect_shared_moments_def split: sum.splits option.splits)

lemma load_hashes_view:
  assumes "kv_store (mom_ops env) view" "load_our_moment_hashes env s peer = Inr hs"
  shows "hs = (case view s (MOMENT_HASH_PREFIX @ peer) of
      None \<Rightarrow> [] | Some b \<Rightarrow> (case from_slice (hashes_codec env) b of Inr h \<Rightarrow> h | Inl _ \<Rightarrow> []))"
proof -
  from assms(2) obtain v where v: "kv_get (mom_ops env) s (MOMENT_HASH_PREFIX @ peer) = Inr v"
    by (auto simp: load_our_moment_hashes_def get_json_def res_bind_eq_Inr)
  then have "view s (MOMENT_HASH_PREFIX @ peer) = v" using kv_store.get_ok [OF assms(1) v] by simp
  with assms(2) v show ?thesis
    by (cases v) (auto simp: load_our_moment_hashes_def get_json_def res_bind_eq_Inr)
qed

lemma load_peer_view:
  assumes "kv_store (mom_ops env) view" "load_peer_moment_hashes env s peer = Inr x"
  shows "x = (case view s (PEER_MOMENT_PREFIX @ peer) of
      None \<Rightarrow> None | Some b \<Rightarrow> (case from_slice (exchange_codec env) b of Inr h \<Rightarrow> Some h | Inl _ \<Rightarrow> None))"
proof -
  from assms(2) obtain v where v: "kv_get (mom_ops env) s (PEER_MOMENT_PREFIX @ peer) = Inr v"
    by (auto simp: load_peer_moment_hashes_def get_json_def res_bind_eq_Inr)
  then have "view s (PEER_MOMENT_PREFIX @ peer) = v" using kv_store.get_ok [OF assms(1) v] by simp
  with assms(2) v show ?thesis
    by (cases v) (auto simp: load_peer_moment_hashes_def get_json_def res_bind_eq_Inr)
qed

text \<open>What a successful run returns, as a function of the stored hashes alone.\<close>

definition stored_matches ::
    "('s, 'b, 'k) moment_env \<Rightarrow> ('s \<Rightarrow> string \<Rightarrow> 'b option) \<Rightarrow> 's \<Rightarrow> string \<Rightarrow> photo_moment_hash list" where
  "stored_matches env view s peer =
     (case view s (PEER_MOMENT_PREFIX @ peer) of
        None \<Rightarrow> []
      | Some b \<Rightarrow> (case from_slice (exchange_codec env) b of
            Inl _ \<Rightarrow> []
          | Inr x \<Rightarrow> find_hash_overlaps (case view s (MOMENT_HASH_PREFIX @ peer) of
              None \<Rightarrow> [] | Some b \<Rightarrow> (case from_slice (hashes_codec env) b of Inr h \<Rightarrow> h | Inl _ \<Rightarrow> [])) (mx_hashes x)))"

lemma detect_returns:
  assumes "kv_store (mom_ops env) view" "detect_shared_moments env now uuid n s peer name = (Inr out, s')"
  shows "out = detected peer name now uuid n (dedup_by dedup_key {} (stored_matches env view s peer))"
proof -
  from assms(2) obtain ours x where l: "load_our_moment_hashes env s peer = Inr ours" "load_peer_moment_hashes env s peer = Inr x"
    by (auto simp: detect_shared_moments_def split: sum.splits)
  note h = load_hashes_view [OF assms(1) l(1)] and p = load_peer_view [OF assms(1) l(2)]
  show ?thesis
  proof (cases x)
    case None
    with assms(2) l have "out = []" by (simp add: detect_shared_moments_def)
    moreover have "stored_matches env view s peer = []"
      using p None by (auto simp: stored_matches_def split: option.splits sum.splits)
    ultimately show ?thesis by simp
  next
    case (Some y)
    have "stored_matches env view s peer = find_hash_overlaps ours (mx_hashes y)"
      using p Some by (auto simp: stored_matches_def h split: option.splits sum.splits)
    with detect_shared_moments_result [OF assms(2) l(1)] l(2) Some show ?thesis by simp
  qed
qed

text \<open>Running the detection again reports, and stores again, the same moments under new identifiers.\<close>

lemma redetected:
  assumes store: "json_rows (mom_ops env) view (moment_codec env)"
    and first: "detect_shared_moments env now uuid n s peer name = (Inr out, s1)"
    and second: "detect_shared_moments env now' uuid' n' s1 peer name' = (Inr out', s2)"
  shows "map (\<lambda>m. (sm_time_bucket m, sm_geohash m, sm_our_record_id m)) out' =
     map (\<lambda>m. (sm_time_bucket m, sm_geohash m, sm_our_record_id m)) out"
proof -
  have kv: "kv_store (mom_ops env) view" by (rule json_rows.axioms(1) [OF store])
  have "stored_matches env view s1 peer = stored_matches env view s peer"
    unfolding stored_matches_def detect_frame [OF store moment_prefixes_apart(1) first]
      detect_frame [OF store moment_prefixes_apart(2) first] ..
  moreover have "map (\<lambda>m. (sm_time_bucket m, sm_geohash m, sm_our_record_id m)) (detected p nm t u k ms) =
      map (\<lambda>m. (mh_time_bucket m, mh_geohash m, mh_record_id m)) ms" for p nm t u k ms
    by (induction ms arbitrary: k) (simp_all add: moment_of_def)
  ultimately show ?thesis
    by (simp add: detect_returns [OF kv first] detect_returns [OF kv second])
qed

section \<open>Who may share moments\<close>

lemma contact_values:
  assumes "iteration_order it" "finite (dom book)"
  shows "set (map (\<lambda>pk. the (book pk)) (it (dom book))) = ran book"
proof -
  have "set (map (\<lambda>pk. the (book pk)) (it (dom book))) = (\<lambda>pk. the (book pk)) ` dom book"
    using iteration_orderD(2) [OF assms] by simp
  also have "\<dots> = ran book" by (force simp: ran_def)
  finally show ?thesis .
qed

lemma find_contact_Some:
  assumes "iteration_order it" "finite (dom book)" "find_contact_by_pseudonym it book peer = Some c"
  shows "c \<in> ran book \<and> has_pseudonym peer c"
  using assms(3) unfolding contact_values [OF assms(1,2), symmetric] find_contact_by_pseudonym_def
  by (auto simp: find_Some_iff simp del: set_map intro: nth_mem)

lemma find_contact_None:
  assumes "iteration_order it" "finite (dom book)"
  shows "find_contact_by_pseudonym it book peer = None \<longleftrightarrow> (\<forall>c \<in> ran book. \<not> has_pseudonym peer c)"
  unfolding contact_values [OF assms, symmetric] find_contact_by_pseudonym_def find_None_iff by blast

lemma authorized_contact:
  assumes "iteration_order it" "finite (dom book)" "authorize_moment_peer it book peer = Authorized"
  shows "\<exists>c \<in> ran book. has_pseudonym peer c \<and> \<not> revoked c"
  using assms(3) find_contact_Some [OF assms(1,2)]
  by (auto simp: authorize_moment_peer_def split: option.splits if_splits)

lemma moment_opt_in_guard:
  assumes "iteration_order it" "json_rows (mom_ops env) view (optin_codec env)"
    and run: "moment_opt_in env it sh cops cs now s peer name = (Inr rows, s')"
    and book: "load_contacts cops cs = Inr book"
  shows "(\<exists>c \<in> ran book. has_pseudonym peer c \<and> \<not> revoked c) \<and>
    rows_at view (optin_codec env) MOMENT_OPTIN_PREFIX s' = (rows_at view (optin_codec env) MOMENT_OPTIN_PREFIX s)
      (peer \<mapsto> \<lparr>mo_peer_pseudonym = peer, mo_peer_display_name = name, mo_opted_in_at = now\<rparr>) \<and>
    set rows = ran (rows_at view (optin_codec env) MOMENT_OPTIN_PREFIX s')"
proof -
  from run book have auth: "authorize_moment_peer it book peer = Authorized"
    and save: "save_moment_opt_in env s \<lparr>mo_peer_pseudonym = peer, mo_peer_display_name = name, mo_opted_in_at = now\<rparr> = (Inr (), s')"
    and rows: "list_moment_opt_ins env s' = Inr rows"
    by (auto simp: moment_opt_in_def handler_err_def split: moment_peer_authz.splits prod.splits sum.splits)
  from book have "finite (dom book)" by (auto simp: load_contacts_def res_bind_eq_Inr)
  from authorized_contact [OF assms(1) this auth] json_rows.put_json_rows [OF assms(2) save [unfolded save_moment_opt_in_def]]
    json_rows.scan_json_rows [OF assms(2) rows [unfolded list_moment_opt_ins_def]]
  show ?thesis by simp
qed

lemma moment_opt_in_refused:
  assumes "load_contacts cops cs = Inr book" "authorize_moment_peer it book peer \<noteq> Authorized"
  shows "\<exists>msg. moment_opt_in env it sh cops cs now s peer name = (Inl (Unauthorized msg), s)"
  using assms by (auto simp: moment_opt_in_def handler_err_def split: moment_peer_authz.splits)

lemma receive_hashes_guard:
  assumes "kv_store (mom_ops env) view" "moment_receive_hashes env now s sender hashes = (Inr u, s')"
  shows "view s (MOMENT_OPTIN_PREFIX @ sender) \<noteq> None"
proof -
  from assms(2) obtain v where v: "kv_get (mom_ops env) s (MOMENT_OPTIN_PREFIX @ sender) = Inr v" "v \<noteq> None"
    by (auto simp: moment_receive_hashes_def has_moment_opt_in_def handler_err_def res_bind_eq_Inr
        split: sum.splits if_splits)
  with kv_store.get_ok [OF assms(1) v(1)] show ?thesis by simp
qed

section \<open>An instance\<close>

datatype moment_bytes =
    Optin_Bytes moment_opt_in_row | Hashes_Bytes "photo_moment_hash list"
  | Exchange_Bytes moment_hash_exchange | Moment_Bytes shared_moment

text \<open>Cells are strings, their neighbours none; the hash is the text it is taken of.\<close>

definition demo_moments :: "((string \<times> moment_bytes) list, moment_bytes, string) moment_env" where
  "demo_moments =
     \<lparr>mom_ops = mem_ops,
      optin_codec = \<lparr>to_vec = (\<lambda>x. Inr (Optin_Bytes x)), from_slice = (\<lambda>b. case b of Optin_Bytes x \<Rightarrow> Inr x | _ \<Rightarrow> Inl ''bad'')\<rparr>,
      hashes_codec = \<lparr>to_vec = (\<lambda>x. Inr (Hashes_Bytes x)), from_slice = (\<lambda>b. case b of Hashes_Bytes x \<Rightarrow> Inr x | _ \<Rightarrow> Inl ''bad'')\<rparr>,
      exchange_codec = \<lparr>to_vec = (\<lambda>x. Inr (Exchange_Bytes x)), from_slice = (\<lambda>b. case b of Exchange_Bytes x \<Rightarrow> Inr x | _ \<Rightarrow> Inl ''bad'')\<rparr>,
      moment_codec = \<lparr>to_vec = (\<lambda>x. Inr (Moment_Bytes x)), from_slice = (\<lambda>b. case b of Moment_Bytes x \<Rightarrow> Inr x | _ \<Rightarrow> Inl ''bad'')\<rparr>,
      civil = (\<lambda>t. \<lparr>civil_year = 1970, civil_month = 1, civil_day = nat (t div one_hour div 24), civil_hour = nat (t div one_hour mod 24)\<rparr>),
      to_rfc3339 = (\<lambda>_. ''now''), parse_utc = (\<lambda>_. Inr 0),
      geohash_encode = (\<lambda>_ _ _. Inr ''9q8yyk''), geohash_neighbors = (\<lambda>_. Inl ''none''),
      hmac_hex = (\<lambda>k t. k @ t), hkdf_expand = (\<lambda>salt k info. salt @ k @ info), pseudonym_of = (\<lambda>k t. t)\<rparr>"

interpretation demo_optins: json_rows mem_ops map_of "optin_codec demo_moments"
  by unfold_locales (auto simp: demo_moments_def sound_codec_def codec_ok_def)

interpretation demo_hashes: json_rows mem_ops map_of "hashes_codec demo_moments"
  by unfold_locales (auto simp: demo_moments_def sound_codec_def codec_ok_def)

interpretation demo_moment_rows: json_rows mem_ops map_of "moment_codec demo_moments"
  by unfold_locales (auto simp: demo_moments_def sound_codec_def codec_ok_def)

lemma demo_moments_simps [simp]: "mom_ops demo_moments = mem_ops" "civil_hourly demo_moments"
  by (simp_all add: demo_moments_def civil_hourly_def)

definition demo_hash :: photo_moment_hash where
  "demo_hash = \<lparr>mh_hash = ''h'', mh_time_bucket = ''2024-06-01T10'', mh_geohash = ''9q8yyk'', mh_timestamp = ''t'', mh_record_id = ''r''\<rparr>"

definition demo_moment_store :: "(string \<times> moment_bytes) list" where
  "demo_moment_store = [(MOMENT_HASH_PREFIX @ ''p'', Hashes_Bytes [demo_hash]),
     (PEER_MOMENT_PREFIX @ ''p'', Exchange_Bytes \<lparr>mx_sender_pseudonym = ''p'', mx_hashes = [''h''], mx_exchanged_at = ''t''\<rparr>)]"

lemma demo_moment_keys:
  "MOMENT_HASH_PREFIX @ x \<noteq> SHARED_MOMENT_PREFIX @ y" "PEER_MOMENT_PREFIX @ x \<noteq> SHARED_MOMENT_PREFIX @ y"
  "PEER_MOMENT_PREFIX @ x \<noteq> MOMENT_HASH_PREFIX @ y"
  by (simp_all add: MOMENT_HASH_PREFIX_def SHARED_MOMENT_PREFIX_def PEER_MOMENT_PREFIX_def)

lemma demo_detect:
  assumes "map_of s (MOMENT_HASH_PREFIX @ ''p'') = Some (Hashes_Bytes [demo_hash])"
    and "map_of s (PEER_MOMENT_PREFIX @ ''p'') = Some (Exchange_Bytes \<lparr>mx_sender_pseudonym = ''p'', mx_hashes = [''h''], mx_exchanged_at = ''t''\<rparr>)"
  shows "detect_shared_moments demo_moments now uuid n s ''p'' None =
     (Inr [moment_of ''p'' None now (uuid n) demo_hash],
      AList.update (SHARED_MOMENT_PREFIX @ uuid n) (Moment_Bytes (moment_of ''p'' None now (uuid n) demo_hash)) s)"
proof -
  have "load_our_moment_hashes demo_moments s ''p'' = Inr [demo_hash]"
    using assms(1) by (simp add: load_our_moment_hashes_def get_json_def demo_moments_def)
  moreover have "load_peer_moment_hashes demo_moments s ''p'' =
      Inr (Some \<lparr>mx_sender_pseudonym = ''p'', mx_hashes = [''h''], mx_exchanged_at = ''t''\<rparr>)"
    using assms(2) by (simp add: load_peer_moment_hashes_def get_json_def demo_moments_def)
  moreover have "mh_hash demo_hash = ''h''" by (simp add: demo_hash_def)
  moreover have "sm_moment_id (moment_of ''p'' None now (uuid n) demo_hash) = uuid n" by (simp add: moment_of_def)
  ultimately show ?thesis
    by (simp add: detect_shared_moments_def find_hash_overlaps_def save_shared_moment_def put_json_def Let_def)
      (simp add: demo_moments_def)
qed

lemma demo_redetect:
  "\<exists>s1 s2 out out'. detect_shared_moments demo_moments ''t1'' (\<lambda>_. ''u1'') 0 demo_moment_store ''p'' None = (Inr out, s1) \<and> out \<noteq> [] \<and>
     detect_shared_moments demo_moments ''t2'' (\<lambda>_. ''u2'') 0 s1 ''p'' None = (Inr out', s2)"
proof -
  have s: "map_of demo_moment_store (MOMENT_HASH_PREFIX @ ''p'') = Some (Hashes_Bytes [demo_hash])"
    "map_of demo_moment_store (PEER_MOMENT_PREFIX @ ''p'') =
       Some (Exchange_Bytes \<lparr>mx_sender_pseudonym = ''p'', mx_hashes = [''h''], mx_exchanged_at = ''t''\<rparr>)"
    by (simp_all add: demo_moment_store_def MOMENT_HASH_PREFIX_def PEER_MOMENT_PREFIX_def)
  show ?thesis
    unfolding demo_detect [OF s, of "''t1''" "\<lambda>_. ''u1''" 0] using s
    by (auto simp: demo_detect update_conv' demo_moment_keys demo_moment_keys [symmetric])
qed

end
