(* ===== verification/Async_Queries.thy ===== *)
theory Async_Queries
  imports Json_Rows Json_Query
begin

text \<open>
  \<^verbatim>\<open>src/discovery/async_query.rs\<close>: queries sent to other nodes, answered later by a message,
  tracked one row per request. The payloads are the records the messages carry; the time
  of an update is an argument.
\<close>

section \<open>Payloads\<close>

record query_request_payload =
  qr_message_type :: string
  qr_request_id :: string
  qr_schema_name :: string
  qr_fields :: "string list"
  qr_sender_public_key :: string
  qr_sender_pseudonym :: string
  qr_reply_public_key :: string

record query_response_payload =
  qs_message_type :: string
  qs_request_id :: string
  qs_success :: bool
  qs_results :: "json list option"
  qs_error :: "string option"
  qs_sender_pseudonym :: string
  qs_reply_public_key :: string

record schema_info =
  si_name :: string
  si_descriptive_name :: "string option"

record schema_list_request_payload =
  sl_message_type :: string
  sl_request_id :: string
  sl_sender_public_key :: string
  sl_sender_pseudonym :: string
  sl_reply_public_key :: string

record schema_list_response_payload =
  sr_message_type :: string
  sr_request_id :: string
  sr_schemas :: "schema_info list"
  sr_sender_pseudonym :: string
  sr_reply_public_key :: string

record identity_card_message_payload =
  im_message_type :: string
  im_message_id :: string
  im_card :: json
  im_sender_public_key :: string
  im_sender_pseudonym :: string

section \<open>Tracked queries\<close>

record local_async_query =
  aq_request_id :: string
  aq_contact_public_key :: string
  aq_contact_display_name :: string
  aq_schema_name :: "string option"
  aq_fields :: "string list"
  aq_query_type :: string
  aq_status :: string
  aq_created_at :: string
  aq_completed_at :: "string option"
  aq_results :: "json option"
  aq_error :: "string option"

definition ASYNC_QUERY_PREFIX :: string where
  "ASYNC_QUERY_PREFIX = ''async_query:''"

definition save_async_query ::
    "('s, string, 'b) kv_ops \<Rightarrow> (local_async_query, 'b) codec \<Rightarrow> 's \<Rightarrow> local_async_query \<Rightarrow> (string + unit) \<times> 's" where
  "save_async_query ops c s query =
     put_json ''Failed to serialize async query: '' ''Failed to save async query: ''
       ops c s (ASYNC_QUERY_PREFIX @ aq_request_id query) query"

definition list_async_queries ::
    "('s, string, 'b) kv_ops \<Rightarrow> (local_async_query, 'b) codec \<Rightarrow> 's \<Rightarrow> string + local_async_query list" where
  "list_async_queries ops c s =
     res_bind (scan_json ''Failed to scan async queries: '' ''Failed to deserialize async query: ''
       ops c s ASYNC_QUERY_PREFIX) (\<lambda>queries. Inr (sort_desc aq_created_at queries))"

definition get_async_query ::
    "('s, string, 'b) kv_ops \<Rightarrow> (local_async_query, 'b) codec \<Rightarrow> 's \<Rightarrow> string \<Rightarrow> string + local_async_query option" where
  "get_async_query ops c s request_id =
     get_json ''Failed to get async query: '' ''Failed to deserialize async query: ''
       ops c s (ASYNC_QUERY_PREFIX @ request_id)"

definition complete_query :: "string \<Rightarrow> json option \<Rightarrow> string option \<Rightarrow> local_async_query \<Rightarrow> local_async_query" where
  "complete_query now results error query =
     (case error of
        Some err \<Rightarrow> query\<lparr>aq_completed_at := Some now, aq_status := ''error'', aq_error := Some err\<rparr>
      | None \<Rightarrow> query\<lparr>aq_completed_at := Some now, aq_status := ''completed'', aq_results := results\<rparr>)"

definition update_async_query_result ::
    "('s, string, 'b) kv_ops \<Rightarrow> (local_async_query, 'b) codec \<Rightarrow> string \<Rightarrow> 's \<Rightarrow> string \<Rightarrow> json option \<Rightarrow> string option
     \<Rightarrow> (string + unit) \<times> 's" where
  "update_async_query_result ops c now s request_id results error =
     (let key = ASYNC_QUERY_PREFIX @ request_id in
      case res_bind (map_err (\<lambda>e. ''Failed to get async query: '' @ e) (kv_get ops s key)) (\<lambda>value.
           res_bind (ok_or (''Async query '' @ request_id @ '' not found'') value) (\<lambda>b.
             map_err (\<lambda>e. ''Failed to deserialize async query: '' @ e) (from_slice c b))) of
        Inl e \<Rightarrow> (Inl e, s)
      | Inr query \<Rightarrow>
          put_json ''Failed to serialize async query: '' ''Failed to save async query: ''
            ops c s key (complete_query now results error query))"

definition delete_async_query :: "('s, string, 'b) kv_ops \<Rightarrow> 's \<Rightarrow> string \<Rightarrow> (string + unit) \<times> 's" where
  "delete_async_query ops s request_id =
     (case kv_delete ops s (ASYNC_QUERY_PREFIX @ request_id) of
        (Inl e, s') \<Rightarrow> (Inl (''Failed to delete async query: '' @ e), s')
      | (Inr _, s') \<Rightarrow> (Inr (), s'))"

section \<open>The table\<close>

lemma async_family:
  assumes "json_rows ops view c"
  shows "row_family (rows_at view c ASYNC_QUERY_PREFIX) aq_request_id (save_async_query ops c) (list_async_queries ops c)"
proof
  fix s x u s'
  assume "save_async_query ops c s x = (Inr u, s')"
  then show "rows_at view c ASYNC_QUERY_PREFIX s' = (rows_at view c ASYNC_QUERY_PREFIX s)(aq_request_id x \<mapsto> x)"
    unfolding save_async_query_def by (rule json_rows.put_json_rows [OF assms])
next
  fix s xs
  assume "list_async_queries ops c s = Inr xs"
  then show "set xs = ran (rows_at view c ASYNC_QUERY_PREFIX s)"
    using json_rows.scan_json_rows [OF assms] by (auto simp: list_async_queries_def res_bind_eq_Inr)
qed

interpretation mem_async: row_family "rows_at map_of plain_codec ASYNC_QUERY_PREFIX" aq_request_id
    "save_async_query mem_ops plain_codec" "list_async_queries mem_ops plain_codec"
  by (rule async_family [OF plain_rows.json_rows_axioms])

lemma get_async_query_row:
  assumes "json_rows ops view c" "get_async_query ops c s rid = Inr r"
  shows "r = rows_at view c ASYNC_QUERY_PREFIX s rid"
  using assms(2) unfolding get_async_query_def by (rule json_rows.get_json_rows [OF assms(1)])

lemma update_async_effect:
  assumes store: "json_rows ops view c" and run: "update_async_query_result ops c now s rid results err = (Inr u, s')"
  shows "\<exists>old. rows_at view c ASYNC_QUERY_PREFIX s rid = Some old \<and>
     rows_at view c ASYNC_QUERY_PREFIX s' = (rows_at view c ASYNC_QUERY_PREFIX s)(rid \<mapsto> complete_query now results err old)"
proof -
  from run obtain b old where old: "kv_get ops s (ASYNC_QUERY_PREFIX @ rid) = Inr (Some b)" "from_slice c b = Inr old"
    and put: "put_json ''Failed to serialize async query: '' ''Failed to save async query: '' ops c s
      (ASYNC_QUERY_PREFIX @ rid) (complete_query now results err old) = (Inr u, s')"
    by (auto simp: update_async_query_result_def res_bind_eq_Inr Let_def split: sum.splits)
  from json_rows.get_row [OF store old] json_rows.put_json_rows [OF store put] show ?thesis by blast
qed

lemma delete_async_effect:
  assumes store: "json_rows ops view c" and run: "delete_async_query ops s rid = (Inr u, s')"
  shows "rows_at view c ASYNC_QUERY_PREFIX s' = (rows_at view c ASYNC_QUERY_PREFIX s)(rid := None)"
proof -
  from run obtain b where "kv_delete ops s (ASYNC_QUERY_PREFIX @ rid) = (Inr b, s')"
    by (auto simp: delete_async_query_def split: prod.splits sum.splits)
  then have "view s' = (view s)(ASYNC_QUERY_PREFIX @ rid := None)"
    using kv_store.delete_ok [OF json_rows.axioms(1) [OF store]] by blast
  then show ?thesis by (auto simp: rows_at_def fun_eq_iff)
qed

text \<open>A completed query says so, with either results or an error.\<close>

lemma complete_query_status:
  "aq_status (complete_query now results err q) = (if err = None then ''completed'' else ''error'')"
  "aq_completed_at (complete_query now results err q) = Some now"
  "aq_request_id (complete_query now results err q) = aq_request_id q"
  by (simp_all add: complete_query_def split: option.split)

end
