(* ===== verification/Received_Cards.thy ===== *)
theory Received_Cards
  imports Json_Rows Handlers
begin

text \<open>
  \<^verbatim>\<open>src/discovery/received_card.rs\<close> and \<^verbatim>\<open>src/handlers/fingerprints/received_cards.rs\<close>: the inbox of
  identity cards received from other nodes, one row per message, and the accept and
  dismiss handlers over it. The importer that verifies a card and writes its identity
  (\<^verbatim>\<open>import_identity_card\<close>) is the parameter \<open>importer\<close>, acting on the database \<open>'d\<close>; it
  is given the card as JSON, with the reading of that JSON as \<open>parse_card\<close>. The store of
  rows is \<open>'s\<close>, and the time of a resolution is an argument.
\<close>

record local_received_card =
  rc_message_id :: string
  rc_card :: json
  rc_sender_public_key :: string
  rc_sender_pseudonym :: string
  rc_status :: string
  rc_received_at :: string
  rc_resolved_at :: "string option"
  rc_accepted_identity_id :: "string option"
  rc_error :: "string option"

definition RECEIVED_CARD_PREFIX :: string where
  "RECEIVED_CARD_PREFIX = ''received_card:''"

definition save_received_card ::
    "('s, string, 'b) kv_ops \<Rightarrow> (local_received_card, 'b) codec \<Rightarrow> 's \<Rightarrow> local_received_card \<Rightarrow> (string + unit) \<times> 's" where
  "save_received_card ops c s row =
     put_json ''Failed to serialize received card: '' ''Failed to save received card: ''
       ops c s (RECEIVED_CARD_PREFIX @ rc_message_id row) row"

definition list_received_rows ::
    "('s, string, 'b) kv_ops \<Rightarrow> (local_received_card, 'b) codec \<Rightarrow> 's \<Rightarrow> string + local_received_card list" where
  "list_received_rows ops c s =
     res_bind (scan_json ''Failed to scan received cards: '' ''Failed to deserialize received card: ''
       ops c s RECEIVED_CARD_PREFIX) (\<lambda>rows. Inr (sort_desc rc_received_at rows))"

definition get_received_card ::
    "('s, string, 'b) kv_ops \<Rightarrow> (local_received_card, 'b) codec \<Rightarrow> 's \<Rightarrow> string \<Rightarrow> string + local_received_card option" where
  "get_received_card ops c s message_id =
     get_json ''Failed to get received card: '' ''Failed to deserialize received card: ''
       ops c s (RECEIVED_CARD_PREFIX @ message_id)"

definition resolved_row ::
    "string \<Rightarrow> string \<Rightarrow> string option \<Rightarrow> string option \<Rightarrow> local_received_card \<Rightarrow> local_received_card" where
  "resolved_row now status identity_id err row =
     row\<lparr>rc_status := status, rc_resolved_at := Some now, rc_accepted_identity_id := identity_id, rc_error := err\<rparr>"

definition resolve_received_card ::
    "('s, string, 'b) kv_ops \<Rightarrow> (local_received_card, 'b) codec \<Rightarrow> string \<Rightarrow> 's \<Rightarrow> string \<Rightarrow> string
     \<Rightarrow> string option \<Rightarrow> string option \<Rightarrow> (string + local_received_card) \<times> 's" where
  "resolve_received_card ops c now s message_id new_status accepted_identity_id error =
     (let key = RECEIVED_CARD_PREFIX @ message_id in
      case res_bind (map_err (\<lambda>e. ''Failed to load received card: '' @ e) (kv_get ops s key)) (\<lambda>value.
           res_bind (ok_or (''Received card '' @ message_id @ '' not found'') value) (\<lambda>existing.
             map_err (\<lambda>e. ''Failed to deserialize received card: '' @ e) (from_slice c existing))) of
        Inl e \<Rightarrow> (Inl e, s)
      | Inr old \<Rightarrow>
          (let row = resolved_row now new_status accepted_identity_id error old in
           case put_json ''Failed to serialize received card: '' ''Failed to save received card: '' ops c s key row of
             (Inl e, s') \<Rightarrow> (Inl e, s')
           | (Inr _, s') \<Rightarrow> (Inr row, s')))"

section \<open>Handlers\<close>

record received_card_view =
  rv_message_id :: string
  rv_sender_public_key :: string
  rv_sender_pseudonym :: string
  rv_status :: string
  rv_received_at :: string
  rv_resolved_at :: "string option"
  rv_accepted_identity_id :: "string option"
  rv_error :: "string option"
  rv_display_name :: "string option"
  rv_issued_at :: "string option"
  rv_card :: json

definition view_of :: "local_received_card \<Rightarrow> received_card_view" where
  "view_of row = \<lparr>
     rv_message_id = rc_message_id row, rv_sender_public_key = rc_sender_public_key row,
     rv_sender_pseudonym = rc_sender_pseudonym row, rv_status = rc_status row,
     rv_received_at = rc_received_at row, rv_resolved_at = rc_resolved_at row,
     rv_accepted_identity_id = rc_accepted_identity_id row, rv_error = rc_error row,
     rv_display_name = opt_bind (json_get ''display_name'' (rc_card row)) as_str,
     rv_issued_at = opt_bind (json_get ''issued_at'' (rc_card row)) as_str,
     rv_card = rc_card row\<rparr>"

text \<open>\<open>debug\<close> renders the error variants that have no message of their own here.\<close>

fun to_user_message :: "(handler_error \<Rightarrow> string) \<Rightarrow> handler_error \<Rightarrow> string" where
  "to_user_message debug (BadRequest m) = m"
| "to_user_message debug (NotFound m) = m"
| "to_user_message debug (Internal m) = m"
| "to_user_message debug e = debug e"

definition list_received_cards ::
    "('s, string, 'b) kv_ops \<Rightarrow> (local_received_card, 'b) codec \<Rightarrow> 's \<Rightarrow> handler_error + received_card_view list" where
  "list_received_cards ops c s =
     res_bind (handler_err id ''list received cards'' (list_received_rows ops c s)) (\<lambda>rows. Inr (map view_of rows))"

text \<open>
  What the accept handler depends on: reading the stored JSON as a card, importing it (with
  the persona to link, if any), rendering errors, and the time.
\<close>

record ('k, 'd) card_env =
  parse_card :: "json \<Rightarrow> string + 'k"
  importer :: "'d \<Rightarrow> 'k \<Rightarrow> string option \<Rightarrow> (handler_error + string) \<times> 'd"
  debug_error :: "handler_error \<Rightarrow> string"
  now_text :: string

definition fetch_card ::
    "('s, string, 'b) kv_ops \<Rightarrow> (local_received_card, 'b) codec \<Rightarrow> 's \<Rightarrow> string \<Rightarrow> handler_error + local_received_card" where
  "fetch_card ops c s message_id =
     res_bind (handler_err id ''get received card'' (get_received_card ops c s message_id)) (\<lambda>found.
       ok_or (NotFound (''received card '' @ CHR 0x27 # message_id @ CHR 0x27 # '' not found'')) found)"

definition accept_received_card ::
    "('k, 'd) card_env \<Rightarrow> ('s, string, 'b) kv_ops \<Rightarrow> (local_received_card, 'b) codec \<Rightarrow> 's \<times> 'd \<Rightarrow> string \<Rightarrow> string option
     \<Rightarrow> (handler_error + received_card_view \<times> string) \<times> 's \<times> 'd" where
  "accept_received_card env ops c sd message_id link =
     (case sd of (s, d) \<Rightarrow>
      case fetch_card ops c s message_id of
        Inl e \<Rightarrow> (Inl e, s, d)
      | Inr row \<Rightarrow>
          if rc_status row = ''accepted'' then
            (Inr (view_of row, case rc_accepted_identity_id row of Some i \<Rightarrow> i | None \<Rightarrow> ''''), s, d)
          else if rc_status row = ''dismissed'' then
            (Inl (BadRequest ''cannot accept a dismissed card; it was rejected earlier''), s, d)
          else case parse_card env (rc_card row) of
              Inl e \<Rightarrow> (Inl (BadRequest (''stored card payload is not a valid IdentityCard shape: '' @ e)), s, d)
            | Inr incoming \<Rightarrow>
                (case importer env d incoming link of
                   (Inr identity_id, d') \<Rightarrow>
                     (case resolve_received_card ops c (now_text env) s message_id ''accepted'' (Some identity_id) None of
                        (r, s') \<Rightarrow> (res_bind (handler_err id ''mark received card accepted'' r)
                                      (\<lambda>updated. Inr (view_of updated, identity_id)), s', d'))
                 | (Inl err, d') \<Rightarrow>
                     (case resolve_received_card ops c (now_text env) s message_id ''pending'' None
                             (Some (to_user_message (debug_error env) err)) of
                        (_, s') \<Rightarrow> (Inl err, s', d'))))"

definition dismiss_received_card ::
    "string \<Rightarrow> ('s, string, 'b) kv_ops \<Rightarrow> (local_received_card, 'b) codec \<Rightarrow> 's \<Rightarrow> string
     \<Rightarrow> (handler_error + received_card_view) \<times> 's" where
  "dismiss_received_card now ops c s message_id =
     (case fetch_card ops c s message_id of
        Inl e \<Rightarrow> (Inl e, s)
      | Inr existing \<Rightarrow>
          if rc_status existing = ''accepted'' then
            (Inl (BadRequest ''cannot dismiss an accepted card; unlink via the persona first''), s)
          else (case resolve_received_card ops c now s message_id ''dismissed'' None None of
                  (r, s') \<Rightarrow> (res_bind (handler_err id ''dismiss received card'' r) (\<lambda>updated. Inr (view_of updated)), s')))"

section \<open>The inbox\<close>

lemma received_card_family:
  assumes "json_rows ops view c"
  shows "row_family (rows_at view c RECEIVED_CARD_PREFIX) rc_message_id (save_received_card ops c) (list_received_rows ops c)"
proof
  fix s x u s'
  assume "save_received_card ops c s x = (Inr u, s')"
  then show "rows_at view c RECEIVED_CARD_PREFIX s' = (rows_at view c RECEIVED_CARD_PREFIX s)(rc_message_id x \<mapsto> x)"
    unfolding save_received_card_def by (rule json_rows.put_json_rows [OF assms])
next
  fix s xs
  assume "list_received_rows ops c s = Inr xs"
  then show "set xs = ran (rows_at view c RECEIVED_CARD_PREFIX s)"
    using json_rows.scan_json_rows [OF assms] by (auto simp: list_received_rows_def res_bind_eq_Inr)
qed

interpretation mem_cards: row_family "rows_at map_of plain_codec RECEIVED_CARD_PREFIX" rc_message_id
    "save_received_card mem_ops plain_codec" "list_received_rows mem_ops plain_codec"
  by (rule received_card_family [OF plain_rows.json_rows_axioms])

abbreviation inbox :: "('s \<Rightarrow> string \<Rightarrow> 'b option) \<Rightarrow> (local_received_card, 'b) codec \<Rightarrow> 's \<Rightarrow> string \<Rightarrow> local_received_card option" where
  "inbox view c \<equiv> rows_at view c RECEIVED_CARD_PREFIX"

lemma resolve_card_effect:
  assumes store: "json_rows ops view c" and run: "resolve_received_card ops c now s mid st idn err = (Inr r, s')"
  shows "\<exists>old. inbox view c s mid = Some old \<and> r = resolved_row now st idn err old \<and>
     inbox view c s' = (inbox view c s)(mid \<mapsto> r)"
proof -
  from run obtain b old where old: "kv_get ops s (RECEIVED_CARD_PREFIX @ mid) = Inr (Some b)" "from_slice c b = Inr old"
    and r: "r = resolved_row now st idn err old"
    and put: "put_json ''Failed to serialize received card: '' ''Failed to save received card: '' ops c s
      (RECEIVED_CARD_PREFIX @ mid) r = (Inr (), s')"
    by (auto simp: resolve_received_card_def res_bind_eq_Inr Let_def split: sum.splits prod.splits)
  from json_rows.get_row [OF store old] r json_rows.put_json_rows [OF store put] show ?thesis by blast
qed

lemma fetch_card_row:
  assumes "json_rows ops view c" "fetch_card ops c s mid = Inr row"
  shows "inbox view c s mid = Some row"
  using assms(2) json_rows.get_json_rows [OF assms(1)]
  by (auto simp: fetch_card_def get_received_card_def res_bind_eq_Inr dest!: sym)

section \<open>Resolutions are final\<close>

text \<open>The user's actions on the inbox, over a store that does not fail.\<close>

datatype inbox_op = Accept string "string option" | Dismiss string

fun inbox_step ::
    "('k, 'd) card_env \<Rightarrow> ('s, string, 'b) kv_ops \<Rightarrow> (local_received_card, 'b) codec \<Rightarrow> inbox_op \<Rightarrow> 's \<times> 'd \<Rightarrow> 's \<times> 'd" where
  "inbox_step env ops c (Accept mid link) sd = snd (accept_received_card env ops c sd mid link)"
| "inbox_step env ops c (Dismiss mid) sd =
     (case sd of (s, d) \<Rightarrow> (snd (dismiss_received_card (now_text env) ops c s mid), d))"

definition run_inbox ::
    "('k, 'd) card_env \<Rightarrow> ('s, string, 'b) kv_ops \<Rightarrow> (local_received_card, 'b) codec \<Rightarrow> inbox_op list \<Rightarrow> 's \<times> 'd \<Rightarrow> 's \<times> 'd" where
  "run_inbox env ops c xs sd = fold (inbox_step env ops c) xs sd"

text \<open>A resolution changes the row it names, or nothing; one that fails changes nothing.\<close>

lemma put_json_fails_view:
  assumes "kv_atomic ops view" "put_json ser_err put_err ops c s key x = (Inl e, s')"
  shows "view s' = view s"
  using assms(2) kv_atomic.put_fail [OF assms(1)]
  by (cases "to_vec c x") (auto simp: put_json_def map_err_def split: sum.splits prod.splits)

lemma resolve_card_row:
  assumes store: "json_rows ops view c" and rel: "kv_atomic ops view"
    and run: "resolve_received_card ops c now s mid st idn err = (r, s')"
  shows "inbox view c s' = inbox view c s \<or>
     (\<exists>old. inbox view c s mid = Some old \<and> inbox view c s' = (inbox view c s)(mid \<mapsto> resolved_row now st idn err old))"
proof (cases r)
  case (Inr row)
  with resolve_card_effect [OF store] run show ?thesis by blast
next
  case (Inl e)
  have "view s' = view s"
    using run put_json_fails_view [OF rel] unfolding Inl
    by (auto simp: resolve_received_card_def Let_def split: sum.splits prod.splits)
  then show ?thesis by (simp add: rows_at_def fun_eq_iff)
qed

definition settled :: "(string \<Rightarrow> local_received_card option) \<Rightarrow> string \<Rightarrow> bool" where
  "settled rows mid = (case rows mid of Some r \<Rightarrow> rc_status r = ''accepted'' \<or> rc_status r = ''dismissed'' | None \<Rightarrow> False)"

lemma accept_step:
  assumes store: "json_rows ops view c" and rel: "kv_atomic ops view"
    and run: "accept_received_card env ops c (s, d) m link = (res, s', d')"
  shows "inbox view c s' = inbox view c s \<or>
     (\<exists>old st idn err. inbox view c s m = Some old \<and> \<not> settled (inbox view c s) m \<and>
        inbox view c s' = (inbox view c s)(m \<mapsto> resolved_row (now_text env) st idn err old))"
proof (cases "fetch_card ops c s m")
  case (Inl e)
  with run show ?thesis by (simp add: accept_received_card_def)
next
  case (Inr row)
  have row: "inbox view c s m = Some row" by (rule fetch_card_row [OF store Inr])
  show ?thesis
  proof (cases "settled (inbox view c s) m \<or> (\<exists>e. parse_card env (rc_card row) = Inl e)")
    case True
    with run Inr row show ?thesis
      by (auto simp: accept_received_card_def settled_def split: if_splits)
  next
    case False
    then obtain k where k: "parse_card env (rc_card row) = Inr k" by (cases "parse_card env (rc_card row)") auto
    from False row have "rc_status row \<noteq> ''accepted''" "rc_status row \<noteq> ''dismissed''" by (auto simp: settled_def)
    with run Inr k obtain q st idn err where "resolve_received_card ops c (now_text env) s m st idn err = (q, s')"
      by (auto simp: accept_received_card_def split: prod.splits sum.splits)
    from resolve_card_row [OF store rel this] False show ?thesis by blast
  qed
qed

lemma dismiss_step:
  assumes store: "json_rows ops view c" and rel: "kv_atomic ops view"
    and run: "dismiss_received_card now ops c s m = (res, s')"
  shows "inbox view c s' = inbox view c s \<or>
     (\<exists>old. inbox view c s m = Some old \<and> rc_status old \<noteq> ''accepted'' \<and>
        inbox view c s' = (inbox view c s)(m \<mapsto> resolved_row now ''dismissed'' None None old))"
proof (cases "fetch_card ops c s m")
  case (Inl e)
  with run show ?thesis by (simp add: dismiss_received_card_def)
next
  case (Inr row)
  have row: "inbox view c s m = Some row" by (rule fetch_card_row [OF store Inr])
  show ?thesis
  proof (cases "rc_status row = ''accepted''")
    case True
    with run Inr show ?thesis by (simp add: dismiss_received_card_def)
  next
    case False
    with run Inr obtain q where "resolve_received_card ops c now s m ''dismissed'' None None = (q, s')"
      by (auto simp: dismiss_received_card_def split: prod.splits)
    from resolve_card_row [OF store rel this] False row show ?thesis by auto
  qed
qed

text \<open>An accepted row never changes; a dismissed row stays dismissed, with its card.\<close>

definition kept_settled :: "local_received_card option \<Rightarrow> local_received_card option \<Rightarrow> bool" where
  "kept_settled before after =
     (case before of
        None \<Rightarrow> True
      | Some r \<Rightarrow>
          (rc_status r = ''accepted'' \<longrightarrow> after = Some r) \<and>
          (rc_status r = ''dismissed'' \<longrightarrow> (\<exists>r'. after = Some r' \<and> rc_status r' = ''dismissed'' \<and> rc_card r' = rc_card r)))"

lemma kept_settled_refl: "kept_settled r r"
  by (simp add: kept_settled_def split: option.split)

lemma kept_settled_trans: "kept_settled a b \<Longrightarrow> kept_settled b r \<Longrightarrow> kept_settled a r"
  by (cases a; cases b) (auto simp: kept_settled_def)

lemma inbox_step_keeps:
  assumes "json_rows ops view c" "kv_atomic ops view"
  shows "kept_settled (inbox view c (fst sd) i) (inbox view c (fst (inbox_step env ops c x sd)) i)"
proof -
  obtain s d where sd: "sd = (s, d)" by (cases sd)
  show ?thesis
  proof (cases x)
    case (Accept m link)
    obtain res s' d' where run: "accept_received_card env ops c (s, d) m link = (res, s', d')"
      by (cases "accept_received_card env ops c (s, d) m link") auto
    with accept_step [OF assms run] show ?thesis
      by (auto simp: sd Accept kept_settled_refl kept_settled_def settled_def split: option.splits)
  next
    case (Dismiss m)
    obtain res s' where run: "dismiss_received_card (now_text env) ops c s m = (res, s')"
      by (cases "dismiss_received_card (now_text env) ops c s m") auto
    with dismiss_step [OF assms run] show ?thesis
      by (auto simp: sd Dismiss kept_settled_refl kept_settled_def resolved_row_def split: option.splits)
  qed
qed

lemma run_inbox_keeps:
  assumes "json_rows ops view c" "kv_atomic ops view"
  shows "kept_settled (inbox view c (fst sd) i) (inbox view c (fst (run_inbox env ops c xs sd)) i)"
proof (induction xs arbitrary: sd)
  case (Cons x xs)
  have "kept_settled (inbox view c (fst (inbox_step env ops c x sd)) i)
      (inbox view c (fst (run_inbox env ops c xs (inbox_step env ops c x sd))) i)"
    by (rule Cons.IH)
  from kept_settled_trans [OF inbox_step_keeps [OF assms] this] show ?case by (simp add: run_inbox_def)
qed (simp add: run_inbox_def kept_settled_refl)

end
