(* ===== verification/Message_Markers.thy ===== *)
theory Message_Markers
  imports Json_Rows Handlers "HOL-Library.Word"
begin

text \<open>
  \<^verbatim>\<open>src/handlers/discovery/util.rs\<close>: the markers that keep a processed message from being
  dispatched again, their pruning, and the per-target sentinel of an outgoing connect.
  A store value is \<open>'b\<close>, with its bytes read and built by the parameters \<open>bytes_of\<close> and
  \<open>of_bytes\<close>; a time stamp is a 64-bit word.
\<close>

section \<open>Little-endian time stamps\<close>

fun le_bytes :: "nat \<Rightarrow> nat \<Rightarrow> 8 word list" where
  "le_bytes 0 n = []"
| "le_bytes (Suc k) n = word_of_nat (n mod 256) # le_bytes k (n div 256)"

fun le_value :: "8 word list \<Rightarrow> nat" where
  "le_value [] = 0"
| "le_value (b # bs) = unat b + 256 * le_value bs"

definition encode_marker_timestamp :: "64 word \<Rightarrow> 8 word list" where
  "encode_marker_timestamp secs = le_bytes 8 (unat secs)"

definition decode_marker_timestamp :: "8 word list \<Rightarrow> 64 word option" where
  "decode_marker_timestamp bs = (if length bs \<noteq> 8 then None else Some (word_of_nat (le_value bs)))"

lemma length_le_bytes [simp]: "length (le_bytes k n) = k"
  by (induction k arbitrary: n) simp_all

lemma le_value_le_bytes: "le_value (le_bytes k n) = n mod 256 ^ k"
proof (induction k arbitrary: n)
  case (Suc k)
  have "unat (word_of_nat (n mod 256) :: 8 word) = n mod 256" by (simp add: unat_of_nat take_bit_eq_mod)
  then show ?case by (simp add: Suc.IH mod_mult2_eq)
qed simp

lemma decode_encode_marker [simp]: "decode_marker_timestamp (encode_marker_timestamp secs) = Some secs"
proof -
  have "unat secs < 256 ^ 8" using unsigned_less [of secs] by simp
  then have "unat secs mod 256 ^ 8 = unat secs" by (rule mod_less)
  then show ?thesis
    by (simp add: decode_marker_timestamp_def encode_marker_timestamp_def le_value_le_bytes)
qed

section \<open>Pruning\<close>

definition MSG_PROCESSED_PREFIX :: string where
  "MSG_PROCESSED_PREFIX = ''msg_processed:''"

definition DEDUP_RETENTION_SECS :: "64 word" where
  "DEDUP_RETENTION_SECS = 604800"

definition PRUNE_EVERY_N_POLLS :: "64 word" where
  "PRUNE_EVERY_N_POLLS = 50"

definition saturating_sub :: "64 word \<Rightarrow> 64 word \<Rightarrow> 64 word" where
  "saturating_sub a b = (if a < b then 0 else a - b)"

definition stale_marker :: "64 word \<Rightarrow> 64 word \<Rightarrow> 8 word list \<Rightarrow> bool" where
  "stale_marker now retention_secs value =
     (case decode_marker_timestamp value of
        Some ts \<Rightarrow> retention_secs < saturating_sub now ts
      | None \<Rightarrow> True)"

definition prune_msg_processed_markers ::
    "('s, string, 'b) kv_ops \<Rightarrow> ('b \<Rightarrow> 8 word list) \<Rightarrow> 's \<Rightarrow> 64 word \<Rightarrow> 64 word \<Rightarrow> (string + nat) \<times> 's" where
  "prune_msg_processed_markers ops bytes_of s now retention_secs =
     (case kv_scan_prefix ops s MSG_PROCESSED_PREFIX of
        Inl e \<Rightarrow> (Inl (''scan_prefix failed: '' @ e), s)
      | Inr entries \<Rightarrow>
          (case delete_all ops s
                  (map fst (filter (\<lambda>(_, value). stale_marker now retention_secs (bytes_of value)) entries)) 0 of
             (r, s') \<Rightarrow> (map_err (\<lambda>e. ''delete failed: '' @ e) r, s')))"

text \<open>A pruning run removes the stale markers, and nothing else.\<close>

lemma prune_view:
  assumes store: "kv_store ops view" and run: "prune_msg_processed_markers ops bytes_of s now ret = (Inr n, s')"
  shows "view s' k = (if prefix MSG_PROCESSED_PREFIX k \<and> (\<exists>v. view s k = Some v \<and> stale_marker now ret (bytes_of v))
     then None else view s k)"
proof -
  from run obtain entries where e: "kv_scan_prefix ops s MSG_PROCESSED_PREFIX = Inr entries"
    and d: "delete_all ops s (map fst (filter (\<lambda>(_, value). stale_marker now ret (bytes_of value)) entries)) 0 = (Inr n, s')"
    by (auto simp: prune_msg_processed_markers_def split: sum.splits prod.splits)
  have "k \<in> set (map fst (filter (\<lambda>(_, value). stale_marker now ret (bytes_of value)) entries)) \<longleftrightarrow>
      prefix MSG_PROCESSED_PREFIX k \<and> (\<exists>v. view s k = Some v \<and> stale_marker now ret (bytes_of v))"
    using kv_store.scan_ok [OF store e] by (force simp: image_iff)
  then show ?thesis unfolding kv_store.delete_all_view(1) [OF store d] by simp
qed

lemma prune_total:
  assumes "kv_reliable ops view"
  shows "\<exists>n s'. prune_msg_processed_markers ops bs s now ret = (Inr n, s')"
proof -
  obtain entries where scan: "kv_scan_prefix ops s MSG_PROCESSED_PREFIX = Inr entries"
    using kv_reliable.scan_total [OF assms] by blast
  obtain n s' where "delete_all ops s (map fst (filter (\<lambda>(_, value). stale_marker now ret (bs value)) entries)) 0 = (Inr n, s')"
    using kv_reliable.delete_all_total [OF assms] by blast
  with scan show ?thesis by (simp add: prune_msg_processed_markers_def)
qed

text \<open>A marker written at time \<open>t\<close> survives until the retention is over.\<close>

lemma fresh_marker_kept:
  assumes "now < t \<or> now - t \<le> ret"
  shows "\<not> stale_marker now ret (encode_marker_timestamp t)"
  using assms by (auto simp: stale_marker_def saturating_sub_def not_less word_le_nat_alt word_less_nat_alt)

section \<open>The connect sentinel\<close>

definition CONNECT_IN_FLIGHT_PREFIX :: string where
  "CONNECT_IN_FLIGHT_PREFIX = ''discovery:connect_in_flight:''"

definition CONNECT_IN_FLIGHT_TTL_SECS :: int where
  "CONNECT_IN_FLIGHT_TTL_SECS = 60"

datatype sentinel_acquire = Acquired | InFlight

text \<open>\<open>read_ts\<close> is the reading of a stored decimal time stamp, \<open>write_ts\<close> its rendering.\<close>

definition try_acquire_connect_sentinel ::
    "('s, string, 'b) kv_ops \<Rightarrow> ('b \<Rightarrow> int option) \<Rightarrow> (int \<Rightarrow> 'b) \<Rightarrow> 's \<Rightarrow> string \<Rightarrow> int \<Rightarrow> int
     \<Rightarrow> (handler_error + sentinel_acquire) \<times> 's" where
  "try_acquire_connect_sentinel ops read_ts write_ts s target now_ts ttl_secs =
     (let key = CONNECT_IN_FLIGHT_PREFIX @ target;
          check = res_bind (handler_err id ''read connect_in_flight sentinel'' (kv_get ops s key)) (\<lambda>existing.
            case existing of
              None \<Rightarrow> Inr False
            | Some value \<Rightarrow>
                res_bind (ok_or (Internal ''corrupt connect_in_flight sentinel value'') (read_ts value)) (\<lambda>existing_ts.
                  Inr (now_ts - existing_ts < ttl_secs)))
      in case check of
           Inl e \<Rightarrow> (Inl e, s)
         | Inr True \<Rightarrow> (Inr InFlight, s)
         | Inr False \<Rightarrow>
             (case kv_put ops s key (write_ts now_ts) of
                (r, s') \<Rightarrow> (res_bind (handler_err id ''write connect_in_flight sentinel'' r) (\<lambda>_. Inr Acquired), s')))"

definition release_connect_sentinel :: "('s, string, 'b) kv_ops \<Rightarrow> 's \<Rightarrow> string \<Rightarrow> 's" where
  "release_connect_sentinel ops s target = snd (kv_delete ops s (CONNECT_IN_FLIGHT_PREFIX @ target))"

text \<open>While a sentinel is fresh nobody else acquires it.\<close>

lemma acquired_excludes:
  assumes "kv_store ops view" "\<And>t. read_ts (write_ts t) = Some t"
    and first: "try_acquire_connect_sentinel ops read_ts write_ts s target now ttl = (Inr Acquired, s1)"
    and same: "view s2 (CONNECT_IN_FLIGHT_PREFIX @ target) = view s1 (CONNECT_IN_FLIGHT_PREFIX @ target)"
    and second: "try_acquire_connect_sentinel ops read_ts write_ts s2 target later ttl = (Inr r, s3)"
  shows "r = (if later - now < ttl then InFlight else Acquired)"
proof -
  let ?k = "CONNECT_IN_FLIGHT_PREFIX @ target"
  from first have "kv_put ops s ?k (write_ts now) = (Inr (), s1)"
    by (auto simp: try_acquire_connect_sentinel_def Let_def handler_err_def res_bind_eq_Inr
        split: sum.splits bool.splits prod.splits)
  then have v: "view s2 ?k = Some (write_ts now)" using kv_store.put_ok [OF assms(1)] same by fastforce
  from second obtain x where x: "kv_get ops s2 ?k = Inr x"
    by (auto simp: try_acquire_connect_sentinel_def Let_def handler_err_def map_err_def res_bind_def split: sum.splits)
  with kv_store.get_ok [OF assms(1) x] v have "kv_get ops s2 ?k = Inr (Some (write_ts now))" by simp
  with second assms(2) show ?thesis
    by (auto simp: try_acquire_connect_sentinel_def Let_def handler_err_def res_bind_eq_Inr
        split: sum.splits bool.splits prod.splits if_splits)
qed

end
