(* ===== verification/Trust_Ops.thy ===== *)
theory Trust_Ops
  imports Contact_Book Sharing_Roles Json_Query
begin

text \<open>
  \<^verbatim>\<open>src/fold_node/operation_processor/trust_ops.rs\<close>, the access context of \<^verbatim>\<open>query_ops.rs\<close> and the
  audit result of \<^verbatim>\<open>src/trust/sharing_audit.rs\<close>: trust tiers per domain, role assignment,
  field access policies and the audit of what a contact can read. The trust maps, the
  audit log and the schema manager are \<^verbatim>\<open>fold_db\<close>'s: fields of \<open>trust_db\<close> over one
  database state \<open>'d\<close>, which also holds the contact and role records. The locale
  \<open>trust_store\<close> is what the operations rely on.
\<close>

section \<open>Tiers\<close>

text \<open>\<^verbatim>\<open>AccessTier\<close> is ordered from public to owner.\<close>

fun tier_rank :: "access_tier \<Rightarrow> nat" where
  "tier_rank Public = 0"
| "tier_rank Outer = 1"
| "tier_rank Trusted = 2"
| "tier_rank Inner = 3"
| "tier_rank Owner = 4"

lemma tier_rank_inject [simp]: "tier_rank a = tier_rank b \<longleftrightarrow> a = b"
  by (cases a; cases b) simp_all

instantiation access_tier :: linorder
begin

definition less_eq_access_tier :: "access_tier \<Rightarrow> access_tier \<Rightarrow> bool" where
  "less_eq_access_tier a b = (tier_rank a \<le> tier_rank b)"

definition less_access_tier :: "access_tier \<Rightarrow> access_tier \<Rightarrow> bool" where
  "less_access_tier a b = (tier_rank a < tier_rank b)"

instance
  by standard (auto simp: less_eq_access_tier_def less_access_tier_def)

end

section \<open>Data\<close>

type_synonym trust_map = "string \<rightharpoonup> access_tier"

datatype audit_action = TrustGrant string access_tier | TrustRevoke string

text \<open>A field policy; its list of capabilities is never read by this code and left out.\<close>

record field_access_policy =
  pol_trust_domain :: string
  min_read_tier :: access_tier
  min_write_tier :: access_tier

text \<open>
  The part of a schema the operations read; \<open>'c\<close> is the data classification. The runtime
  fields are listed in the iteration order of their map.
\<close>

record 'c schema =
  sch_name :: string
  sch_descriptive_name :: "string option"
  sch_trust_domain :: "string option"
  runtime_fields :: "(string \<times> field_access_policy option) list"
  field_access_policies :: "string \<rightharpoonup> field_access_policy"
  field_data_classifications :: "string \<rightharpoonup> 'c"

datatype schema_state = Available | Approved | Blocked

record ('d, 'c) trust_db =
  load_trust_map_db :: "'d \<Rightarrow> schema_error + trust_map"
  store_trust_map_db :: "'d \<Rightarrow> trust_map \<Rightarrow> (schema_error + unit) \<times> 'd"
  load_domain_map :: "'d \<Rightarrow> string \<Rightarrow> schema_error + trust_map"
  store_domain_map :: "'d \<Rightarrow> string \<Rightarrow> trust_map \<Rightarrow> (schema_error + unit) \<times> 'd"
  list_domains :: "'d \<Rightarrow> schema_error + string list"
  append_audit :: "'d \<Rightarrow> string \<Rightarrow> audit_action \<Rightarrow> (schema_error + unit) \<times> 'd"
  contact_ops :: "('d, string, contact) kv_ops"
  role_ops :: "('d, string, sharing_role) kv_ops"
  map_order :: "string set \<Rightarrow> string list"
  schemas_with_states :: "'d \<Rightarrow> string + ('c schema \<times> schema_state) list"
  get_schema_db :: "'d \<Rightarrow> string \<Rightarrow> schema_error + 'c schema option"
  update_schema_db :: "'d \<Rightarrow> 'c schema \<Rightarrow> (schema_error + unit) \<times> 'd"
  default_trust_domain :: "'c \<Rightarrow> string"
  default_trust_tier :: "'c \<Rightarrow> access_tier"
  parse_policy :: "json \<Rightarrow> string + field_access_policy"

section \<open>Trust maps\<close>

text \<open>Load a map, change it, store it, append an audit event: a failing step ends the run with what was written.\<close>

definition with_audit ::
    "('d, 'c) trust_db \<Rightarrow> (schema_error + unit) \<times> 'd \<Rightarrow> string \<Rightarrow> audit_action \<Rightarrow> (schema_error + unit) \<times> 'd" where
  "with_audit db stored user action =
     (case stored of
        (Inl e, d) \<Rightarrow> (Inl e, d)
      | (Inr _, d) \<Rightarrow> append_audit db d user action)"

definition grant_trust :: "('d, 'c) trust_db \<Rightarrow> 'd \<Rightarrow> string \<Rightarrow> access_tier \<Rightarrow> (schema_error + unit) \<times> 'd" where
  "grant_trust db d user tier =
     (case load_trust_map_db db d of
        Inl e \<Rightarrow> (Inl e, d)
      | Inr m \<Rightarrow> with_audit db (store_trust_map_db db d (m(user \<mapsto> tier))) user (TrustGrant user tier))"

definition revoke_trust :: "('d, 'c) trust_db \<Rightarrow> 'd \<Rightarrow> string \<Rightarrow> (schema_error + unit) \<times> 'd" where
  "revoke_trust db d user =
     (case load_trust_map_db db d of
        Inl e \<Rightarrow> (Inl e, d)
      | Inr m \<Rightarrow> with_audit db (store_trust_map_db db d (m(user := None))) user (TrustRevoke user))"

definition resolve_trust_tier :: "('d, 'c) trust_db \<Rightarrow> 'd \<Rightarrow> string \<Rightarrow> schema_error + access_tier option" where
  "resolve_trust_tier db d user = res_bind (load_trust_map_db db d) (\<lambda>m. Inr (m user))"

definition list_trust_grants :: "('d, 'c) trust_db \<Rightarrow> 'd \<Rightarrow> schema_error + (string \<times> access_tier) list" where
  "list_trust_grants db d =
     res_bind (load_trust_map_db db d) (\<lambda>m. Inr (map (\<lambda>k. (k, the (m k))) (map_order db (dom m))))"

definition grant_trust_for_domain ::
    "('d, 'c) trust_db \<Rightarrow> 'd \<Rightarrow> string \<Rightarrow> string \<Rightarrow> access_tier \<Rightarrow> (schema_error + unit) \<times> 'd" where
  "grant_trust_for_domain db d user domain tier =
     (case load_domain_map db d domain of
        Inl e \<Rightarrow> (Inl e, d)
      | Inr m \<Rightarrow> with_audit db (store_domain_map db d domain (m(user \<mapsto> tier))) user (TrustGrant user tier))"

definition revoke_trust_for_domain ::
    "('d, 'c) trust_db \<Rightarrow> 'd \<Rightarrow> string \<Rightarrow> string \<Rightarrow> (schema_error + unit) \<times> 'd" where
  "revoke_trust_for_domain db d user domain =
     (case load_domain_map db d domain of
        Inl e \<Rightarrow> (Inl e, d)
      | Inr m \<Rightarrow> with_audit db (store_domain_map db d domain (m(user := None))) user (TrustRevoke user))"

section \<open>Roles of contacts\<close>

definition edited :: "contact_book \<Rightarrow> string \<Rightarrow> ((string \<rightharpoonup> string) \<Rightarrow> (string \<rightharpoonup> string)) \<Rightarrow> contact_book" where
  "edited book user f = (case book user of None \<Rightarrow> book | Some c \<Rightarrow> book(user \<mapsto> c\<lparr>roles := f (roles c)\<rparr>))"

text \<open>The last two steps of both operations: load the book, edit one contact if it is there, save the book.\<close>

definition edit_contact_roles ::
    "('d, 'c) trust_db \<Rightarrow> 'd \<Rightarrow> string \<Rightarrow> ((string \<rightharpoonup> string) \<Rightarrow> (string \<rightharpoonup> string)) \<Rightarrow> (schema_error + unit) \<times> 'd" where
  "edit_contact_roles db d user f =
     (case load_contacts (contact_ops db) d of
        Inl e \<Rightarrow> (Inl e, d)
      | Inr book \<Rightarrow>
          save_contacts (map_order db) (contact_ops db) d (edited book user f))"

definition assign_role_to_contact ::
    "('d, 'c) trust_db \<Rightarrow> 'd \<Rightarrow> string \<Rightarrow> string \<Rightarrow> (schema_error + unit) \<times> 'd" where
  "assign_role_to_contact db d user role_nm =
     (case load_roles (map_order db) (role_ops db) d of
        (Inl e, d1) \<Rightarrow> (Inl e, d1)
      | (Inr config, d1) \<Rightarrow>
          (case get_role config role_nm of
             None \<Rightarrow> (Inl (InvalidData (''Unknown role: '' @ role_nm)), d1)
           | Some role \<Rightarrow>
               (case grant_trust_for_domain db d1 user (role_domain role) (role_tier role) of
                  (Inl e, d2) \<Rightarrow> (Inl e, d2)
                | (Inr _, d2) \<Rightarrow> edit_contact_roles db d2 user (\<lambda>rs. rs(role_domain role \<mapsto> role_nm)))))"

definition remove_role_from_contact ::
    "('d, 'c) trust_db \<Rightarrow> 'd \<Rightarrow> string \<Rightarrow> string \<Rightarrow> (schema_error + unit) \<times> 'd" where
  "remove_role_from_contact db d user domain =
     (case revoke_trust_for_domain db d user domain of
        (Inl e, d1) \<Rightarrow> (Inl e, d1)
      | (Inr _, d1) \<Rightarrow> edit_contact_roles db d1 user (\<lambda>rs. rs(domain := None)))"

section \<open>Access context and audit\<close>

text \<open>The tiers a user has over all domains: the loop shared by the audit and the access context.\<close>

fun collect_tiers :: "('d, 'c) trust_db \<Rightarrow> 'd \<Rightarrow> string \<Rightarrow> string list \<Rightarrow> trust_map \<Rightarrow> schema_error + trust_map" where
  "collect_tiers db d user [] acc = Inr acc"
| "collect_tiers db d user (domain # domains) acc =
     res_bind (load_domain_map db d domain) (\<lambda>m.
       collect_tiers db d user domains
         (case m user of None \<Rightarrow> acc | Some tier \<Rightarrow> acc(domain \<mapsto> tier)))"

definition domain_tiers_of :: "('d, 'c) trust_db \<Rightarrow> 'd \<Rightarrow> string \<Rightarrow> schema_error + trust_map" where
  "domain_tiers_of db d user = res_bind (list_domains db d) (\<lambda>domains. collect_tiers db d user domains Map.empty)"

datatype access_context = Owner_Context string | Remote_Context string trust_map

definition build_access_context :: "('d, 'c) trust_db \<Rightarrow> string \<Rightarrow> 'd \<Rightarrow> string \<Rightarrow> schema_error + access_context" where
  "build_access_context db owner d caller =
     (if caller = owner then Inr (Owner_Context caller)
      else res_bind (domain_tiers_of db d caller) (\<lambda>tiers. Inr (Remote_Context caller tiers)))"

record accessible_schema =
  acc_schema_name :: string
  acc_descriptive_name :: "string option"
  acc_trust_domain :: string
  readable_fields :: "string list"
  writable_fields :: "string list"
  total_fields :: nat

record sharing_audit_result =
  aud_public_key :: string
  aud_display_name :: string
  aud_domain_tiers :: trust_map
  aud_domain_roles :: "string \<rightharpoonup> string"
  accessible_schemas :: "accessible_schema list"
  total_readable :: nat
  total_writable :: nat

definition field_allows :: "(field_access_policy \<Rightarrow> access_tier) \<Rightarrow> trust_map \<Rightarrow> field_access_policy option \<Rightarrow> bool" where
  "field_allows need tiers policy =
     (case policy of
        None \<Rightarrow> False
      | Some p \<Rightarrow> (case tiers (pol_trust_domain p) of None \<Rightarrow> False | Some tier \<Rightarrow> need p \<le> tier))"

definition fields_allowed ::
    "(field_access_policy \<Rightarrow> access_tier) \<Rightarrow> trust_map \<Rightarrow> 'c schema \<Rightarrow> string list" where
  "fields_allowed need tiers sch = map fst (filter (\<lambda>(_, policy). field_allows need tiers policy) (runtime_fields sch))"

definition unwrap_or :: "'a \<Rightarrow> 'a option \<Rightarrow> 'a" where
  "unwrap_or x v = (case v of None \<Rightarrow> x | Some y \<Rightarrow> y)"

definition audit_schema :: "trust_map \<Rightarrow> 'c schema \<times> schema_state \<Rightarrow> accessible_schema option" where
  "audit_schema tiers sws =
     (case sws of (sch, st) \<Rightarrow>
        if st \<noteq> Approved then None
        else let readable = fields_allowed min_read_tier tiers sch; writable = fields_allowed min_write_tier tiers sch in
             if readable = [] then None
             else Some \<lparr>acc_schema_name = sch_name sch, acc_descriptive_name = sch_descriptive_name sch,
                        acc_trust_domain = unwrap_or ''personal'' (sch_trust_domain sch),
                        readable_fields = readable, writable_fields = writable,
                        total_fields = length (runtime_fields sch)\<rparr>)"

definition audit_contact_access :: "('d, 'c) trust_db \<Rightarrow> 'd \<Rightarrow> string \<Rightarrow> schema_error + sharing_audit_result" where
  "audit_contact_access db d user =
     res_bind (domain_tiers_of db d user) (\<lambda>tiers.
     res_bind (load_contacts (contact_ops db) d) (\<lambda>book.
     let contact = (case get_contact book user of Some c \<Rightarrow> if revoked c then None else Some c | None \<Rightarrow> None) in
     res_bind (map_err (\<lambda>e. InvalidData (''Failed to list schemas: '' @ e)) (schemas_with_states db d)) (\<lambda>schemas.
       let accessible = List.map_filter (audit_schema tiers) schemas in
       Inr \<lparr>aud_public_key = user,
            aud_display_name = (case contact of None \<Rightarrow> [] | Some c \<Rightarrow> display_name c),
            aud_domain_tiers = tiers,
            aud_domain_roles = (case contact of None \<Rightarrow> Map.empty | Some c \<Rightarrow> roles c),
            accessible_schemas = accessible,
            total_readable = sum_list (map (\<lambda>a. length (readable_fields a)) accessible),
            total_writable = sum_list (map (\<lambda>a. length (writable_fields a)) accessible)\<rparr>)))"

section \<open>Field policies\<close>

definition require_schema :: "('d, 'c) trust_db \<Rightarrow> 'd \<Rightarrow> string \<Rightarrow> schema_error + 'c schema" where
  "require_schema db d name =
     res_bind (get_schema_db db d name) (ok_or (InvalidData (''Schema '' @ quoted name @ '' not found'')))"

definition set_runtime_policy :: "string \<Rightarrow> field_access_policy \<Rightarrow> 'c schema \<Rightarrow> 'c schema" where
  "set_runtime_policy field policy sch =
     sch\<lparr>runtime_fields := map (\<lambda>(f, p). (f, if f = field then Some policy else p)) (runtime_fields sch),
         field_access_policies := (field_access_policies sch)(field \<mapsto> policy)\<rparr>"

definition set_field_access_policy ::
    "('d, 'c) trust_db \<Rightarrow> 'd \<Rightarrow> string \<Rightarrow> string \<Rightarrow> json \<Rightarrow> (schema_error + unit) \<times> 'd" where
  "set_field_access_policy db d name field policy =
     (case res_bind (require_schema db d name) (\<lambda>sch.
           if field \<notin> fst ` set (runtime_fields sch)
           then Inl (InvalidData (''Field '' @ quoted field @ '' not found in '' @ quoted name))
           else res_bind (map_err (\<lambda>e. InvalidData (''Invalid access policy: '' @ e)) (parse_policy db policy))
                  (\<lambda>parsed. Inr (set_runtime_policy field parsed sch))) of
        Inl e \<Rightarrow> (Inl e, d)
      | Inr sch \<Rightarrow> update_schema_db db d sch)"

definition default_policy :: "('d, 'c) trust_db \<Rightarrow> 'c schema \<Rightarrow> string \<Rightarrow> field_access_policy" where
  "default_policy db sch field =
     (case field_data_classifications sch field of
        Some cls \<Rightarrow> \<lparr>pol_trust_domain = default_trust_domain db cls, min_read_tier = default_trust_tier db cls,
                     min_write_tier = Owner\<rparr>
      | None \<Rightarrow> \<lparr>pol_trust_domain = unwrap_or ''personal'' (sch_trust_domain sch), min_read_tier = Owner,
                 min_write_tier = Owner\<rparr>)"

text \<open>The fields that keep their policy unless \<open>force\<close> is given.\<close>

definition has_policy :: "'c schema \<Rightarrow> string \<Rightarrow> bool" where
  "has_policy sch field \<longleftrightarrow>
     field \<in> dom (field_access_policies sch) \<or> (\<exists>p. map_of (runtime_fields sch) field = Some (Some p))"

text \<open>One pass of the loop over the field names; \<open>n\<close> counts the policies applied.\<close>

fun apply_defaults_loop ::
    "('d, 'c) trust_db \<Rightarrow> bool \<Rightarrow> string list \<Rightarrow> 'c schema \<Rightarrow> nat \<Rightarrow> 'c schema \<times> nat" where
  "apply_defaults_loop db force [] sch n = (sch, n)"
| "apply_defaults_loop db force (field # names) sch n =
     (if \<not> force \<and> has_policy sch field then apply_defaults_loop db force names sch n
      else apply_defaults_loop db force names (set_runtime_policy field (default_policy db sch field) sch) (Suc n))"

definition apply_classification_defaults_with_force ::
    "('d, 'c) trust_db \<Rightarrow> 'd \<Rightarrow> string \<Rightarrow> bool \<Rightarrow> (schema_error + nat) \<times> 'd" where
  "apply_classification_defaults_with_force db d name force =
     (case require_schema db d name of
        Inl e \<Rightarrow> (Inl e, d)
      | Inr sch \<Rightarrow>
          (case apply_defaults_loop db force (map fst (runtime_fields sch)) sch 0 of
             (sch', applied) \<Rightarrow>
               if applied > 0 then
                 (case update_schema_db db d sch' of
                    (Inl e, d') \<Rightarrow> (Inl e, d')
                  | (Inr _, d') \<Rightarrow> (Inr applied, d'))
               else (Inr applied, d)))"

definition apply_classification_defaults :: "('d, 'c) trust_db \<Rightarrow> 'd \<Rightarrow> string \<Rightarrow> (schema_error + nat) \<times> 'd" where
  "apply_classification_defaults db d name = apply_classification_defaults_with_force db d name False"

end
