(* ===== verification/Inbound.thy ===== *)
theory Inbound
  imports Connections Async_Queries Received_Cards Message_Markers Trust_Ops
begin

text \<open>
  \<^verbatim>\<open>src/handlers/discovery/inbound.rs\<close>: the pipeline that polls the bulletin board, opens the
  messages addressed to this node, dispatches each to the handler of its type and marks
  it processed. A run acts on three states: the metadata store, the database of
  \<open>trust_db\<close>, and the outside (the network and the upload storage). What is not in this
  repository (parsers of payloads, the query executor, the mutation manager, the share
  store, the network) is a field of \<open>inbound_env\<close>; the clock and the random draws of the
  handling of one message are the argument \<open>draws\<close>.
\<close>

section \<open>Payloads and parameters\<close>

record share_invite_payload =
  siv_sender_pubkey :: string
  siv_sender_display_name :: string
  siv_share_prefix :: string
  siv_scope_description :: string
  siv_secret_encrypted :: bytes

record shared_record =
  sr_schema_name :: string
  sr_fields :: payload
  sr_key :: key_value
  sr_file_data_base64 :: "string option"
  sr_file_name :: "string option"

record data_share_payload =
  ds_sender_public_key :: string
  ds_sender_display_name :: string
  ds_records :: "shared_record list"

record share_invite =
  inv_sender_pubkey :: string
  inv_sender_display_name :: string
  inv_share_prefix :: string
  inv_share_e2e_secret :: bytes
  inv_scope_description :: string

record encrypted_message =
  em_message_id :: string
  em_encrypted_blob :: string
  em_target_pseudonym :: string
  em_sender_pseudonym :: "string option"
  em_created_at :: string

record ('s, 'd, 'n) world =
  w_meta :: 's
  w_db :: 'd
  w_out :: 'n

record 'sk draws =
  dr_now :: string
  dr_now_secs :: "64 word"
  dr_now_millis :: int
  dr_time :: int
  dr_ephemeral :: 'sk
  dr_nonce :: bytes
  dr_uuid :: string

record ('s, 'b, 'd, 'c, 'n, 'sk) inbound_env =
  in_ops :: "('s, string, 'b) kv_ops"
  in_db :: "('d, 'c) trust_db"
  show_schema :: "schema_error \<Rightarrow> string"
  req_codec :: "(local_connection_request, 'b) codec"
  sent_req_codec :: "(local_sent_request, 'b) codec"
  async_codec :: "(local_async_query, 'b) codec"
  card_codec :: "(local_received_card, 'b) codec"
  note_codec :: "(json, 'b) codec"
  of_bytes :: "8 word list \<Rightarrow> 'b"
  bytes_of :: "'b \<Rightarrow> 8 word list"
  box :: "'sk box_crypto"
  value_codec :: "(json, bytes) codec"
  query_response_codec :: "(query_response_payload, bytes) codec"
  schema_response_codec :: "(schema_list_response_payload, bytes) codec"
  referral_response_codec :: "(referral_response_payload, bytes) codec"
  parse_uuid :: "string \<Rightarrow> string + bytes"
  show_uuid :: "bytes \<Rightarrow> string"
  b64_dec :: "string \<Rightarrow> string + bytes"
  b64_enc :: "bytes \<Rightarrow> string"
  content_hash :: "string \<Rightarrow> bytes"
  derive_pseudonym :: "bytes \<Rightarrow> bytes \<Rightarrow> bytes"
  parse_connection :: "json \<Rightarrow> string + connection_payload"
  parse_query_request :: "json \<Rightarrow> string + query_request_payload"
  parse_query_response :: "json \<Rightarrow> string + query_response_payload"
  parse_schema_request :: "json \<Rightarrow> string + schema_list_request_payload"
  parse_schema_response :: "json \<Rightarrow> string + schema_list_response_payload"
  parse_data_share :: "json \<Rightarrow> string + data_share_payload"
  parse_share_invite :: "json \<Rightarrow> string + share_invite_payload"
  parse_referral_query :: "json \<Rightarrow> string + referral_query_payload"
  parse_referral_response :: "json \<Rightarrow> string + referral_response_payload"
  parse_card_message :: "json \<Rightarrow> string + identity_card_message_payload"
  parse_byte_array :: "json \<Rightarrow> string + bytes"
  results_to_value :: "json list \<Rightarrow> string + json"
  schemas_to_value :: "schema_info list \<Rightarrow> string + json"
  run_query :: "'d \<Rightarrow> string \<Rightarrow> string list \<Rightarrow> string \<Rightarrow> string + json list"
  schema_infos :: "'d \<Rightarrow> string + schema_info list"
  schema_states :: "'d \<Rightarrow> string + (string \<rightharpoonup> schema_state)"
  write_mutation :: "'d \<Rightarrow> string \<Rightarrow> payload \<Rightarrow> key_value \<Rightarrow> string \<Rightarrow> (string + unit) \<times> 'd"
  index_faces :: "'d \<Rightarrow> string \<Rightarrow> key_value \<Rightarrow> bytes \<Rightarrow> (string + nat) \<times> 'd"
  sled_pool :: "'d \<Rightarrow> string + unit"
  store_pending_invite :: "'d \<Rightarrow> share_invite \<Rightarrow> (string + unit) \<times> 'd"
  save_file :: "'n \<Rightarrow> string \<Rightarrow> bytes \<Rightarrow> (string + unit) \<times> 'n"
  connect :: "'n \<Rightarrow> bytes \<Rightarrow> string \<Rightarrow> bytes option \<Rightarrow> (string + unit) \<times> 'n"

datatype dispatch_outcome = Handled | Skipped string

type_synonym ('s, 'd, 'n) dispatched = "(handler_error + dispatch_outcome) \<times> ('s, 'd, 'n) world"

text \<open>\<^verbatim>\<open>Display\<close> of a handler error.\<close>

fun show_handler_error :: "handler_error \<Rightarrow> string" where
  "show_handler_error (BadRequest m) = ''Bad request: '' @ m"
| "show_handler_error (Unauthorized m) = ''Unauthorized: '' @ m"
| "show_handler_error (NotFound m) = ''Not found: '' @ m"
| "show_handler_error (Internal m) = ''Internal error: '' @ m"
| "show_handler_error (ServiceUnavailable m) = ''Service unavailable: '' @ m"

text \<open>Run an operation on the metadata store and continue, or stop with the error of its context.\<close>

definition on_meta ::
    "string \<Rightarrow> (string + 'a) \<times> 's \<Rightarrow> ('s, 'd, 'n) world \<Rightarrow> ('a \<Rightarrow> ('s, 'd, 'n) world \<Rightarrow> ('s, 'd, 'n) dispatched)
     \<Rightarrow> ('s, 'd, 'n) dispatched" where
  "on_meta context run w k =
     (case run of
        (Inl e, s) \<Rightarrow> (handler_err id context (Inl e), w\<lparr>w_meta := s\<rparr>)
      | (Inr x, s) \<Rightarrow> k x (w\<lparr>w_meta := s\<rparr>))"

definition or_default_book :: "schema_error + contact_book \<Rightarrow> contact_book" where
  "or_default_book r = (case r of Inl _ \<Rightarrow> new_book | Inr book \<Rightarrow> book)"

section \<open>Connection requests and answers\<close>

definition mutual_contacts_of ::
    "(string set \<Rightarrow> string list) \<Rightarrow> contact_book \<Rightarrow> string list \<Rightarrow> mutual_contact list" where
  "mutual_contacts_of it book keys =
     (let our_keys = set (map public_key (active_contacts it book)) in
      List.map_filter (\<lambda>k. map_option (\<lambda>c. \<lparr>mc_display_name = display_name c, mc_public_key = public_key c\<rparr>)
        (get_contact book k)) (filter (\<lambda>k. k \<in> our_keys) keys))"

definition handle_request ::
    "('s, 'b, 'd, 'c, 'n, 'sk) inbound_env \<Rightarrow> encrypted_message \<Rightarrow> connection_payload \<Rightarrow> ('s, 'd, 'n) world
     \<Rightarrow> ('s, 'd, 'n) dispatched" where
  "handle_request env msg p w =
     (let mutual = (case cp_network_keys p of
            None \<Rightarrow> []
          | Some keys \<Rightarrow> mutual_contacts_of (map_order (in_db env))
              (or_default_book (load_contacts (contact_ops (in_db env)) (w_db w))) keys);
          local_req = \<lparr>lr_request_id = ''msg-'' @ em_message_id msg, lr_message_id = em_message_id msg,
            lr_target_pseudonym = em_target_pseudonym msg, lr_sender_pseudonym = cp_sender_pseudonym p,
            lr_sender_public_key = cp_sender_public_key p, lr_reply_public_key = cp_reply_public_key p,
            lr_message = cp_message p, lr_status = ''pending'', lr_created_at = em_created_at msg,
            lr_responded_at = None, lr_vouches = [], lr_referral_query_id = None,
            lr_referral_contacts_queried = 0, lr_mutual_contacts = mutual,
            lr_sender_request_id = cp_request_id p, lr_sender_identity_pseudonym = cp_identity_pseudonym p\<rparr>
      in on_meta ''save received request'' (save_received_request (in_ops env) (req_codec env) (w_meta w) local_req) w
           (\<lambda>_ w. (Inr Handled, w)))"

definition process_accepted_connection ::
    "('s, 'b, 'd, 'c, 'n, 'sk) inbound_env \<Rightarrow> int \<Rightarrow> 'd \<Rightarrow> connection_payload \<Rightarrow> string
     \<Rightarrow> (handler_error + unit) \<times> 'd" where
  "process_accepted_connection env time d acceptance default_role =
     (let db = in_db env in
      case cp_identity_card acceptance of
        None \<Rightarrow> (Inl (Internal ''No identity card in acceptance''), d)
      | Some ident \<Rightarrow>
          (case load_roles (map_order db) (role_ops db) d of
             (Inl e, d1) \<Rightarrow> (handler_err (show_schema env) ''load roles'' (Inl e), d1)
           | (Inr config, d1) \<Rightarrow>
               (case get_role config default_role of
                  None \<Rightarrow> (Inl (Internal (''Unknown role: '' @ default_role)), d1)
                | Some role \<Rightarrow>
                    (case grant_trust_for_domain db d1 (icp_node_public_key ident) (role_domain role) (role_tier role) of
                       (Inl e, d2) \<Rightarrow> (handler_err (show_schema env) ''grant trust'' (Inl e), d2)
                     | (Inr _, d2) \<Rightarrow>
                         (case load_contacts (contact_ops db) d2 of
                            Inl e \<Rightarrow> (handler_err (show_schema env) ''load contacts'' (Inl e), d2)
                          | Inr book \<Rightarrow>
                              (case save_contacts (map_order db) (contact_ops db) d2
                                 (upsert_contact (from_discovery (icp_node_public_key ident) (icp_display_name ident)
                                    (icp_contact_hint ident) Outgoing time (Some (cp_sender_pseudonym acceptance))
                                    (Some (cp_reply_public_key acceptance)) (cp_identity_pseudonym acceptance)
                                    (role_domain role) default_role) book) of
                                 (r, d3) \<Rightarrow> (handler_err (show_schema env) ''save contacts'' r, d3)))))))"

definition handle_accept ::
    "('s, 'b, 'd, 'c, 'n, 'sk) inbound_env \<Rightarrow> 'sk draws \<Rightarrow> connection_payload \<Rightarrow> ('s, 'd, 'n) world
     \<Rightarrow> ('s, 'd, 'n) dispatched" where
  "handle_accept env dr p w =
     on_meta ''update sent request to accepted''
       (update_sent_request_status (in_ops env) (sent_req_codec env) (w_meta w) (cp_sender_pseudonym p)
          (cp_request_id p) ''accepted'') w
       (\<lambda>sent_request w.
          let role = unwrap_or ''acquaintance'' (Option.bind sent_request ls_preferred_role) in
          if cp_identity_card p = None then (Inr Handled, w)
          else (case process_accepted_connection env (dr_time dr) (w_db w) p role of
                  (Inl e, d) \<Rightarrow> (Inl (Internal (''process accepted connection: '' @ show_handler_error e)), w\<lparr>w_db := d\<rparr>)
                | (Inr _, d) \<Rightarrow> (Inr Handled, w\<lparr>w_db := d\<rparr>)))"

definition handle_decline ::
    "('s, 'b, 'd, 'c, 'n, 'sk) inbound_env \<Rightarrow> connection_payload \<Rightarrow> ('s, 'd, 'n) world \<Rightarrow> ('s, 'd, 'n) dispatched" where
  "handle_decline env p w =
     on_meta ''update sent request to declined''
       (update_sent_request_status (in_ops env) (sent_req_codec env) (w_meta w) (cp_sender_pseudonym p)
          (cp_request_id p) ''declined'') w
       (\<lambda>_ w. (Inr Handled, w))"

section \<open>Replies\<close>

text \<open>
  The node's own sender pseudonym and reply key. Deriving the key cannot fail (a 32-byte
  expansion); the source unwraps it, and the model reports it as an error.
\<close>

definition our_sender :: "('s, 'b, 'd, 'c, 'n, 'sk) inbound_env \<Rightarrow> bytes \<Rightarrow> bytes" where
  "our_sender env master_key = derive_pseudonym env master_key (content_hash env ''connection-sender'')"

definition with_reply_key ::
    "('s, 'b, 'd, 'c, 'n, 'sk) inbound_env \<Rightarrow> bytes \<Rightarrow> ('s, 'd, 'n) world \<Rightarrow> (string \<Rightarrow> ('s, 'd, 'n) dispatched)
     \<Rightarrow> ('s, 'd, 'n) dispatched" where
  "with_reply_key env master_key w k =
     (case get_pseudonym_public_key_b64 (box env) (b64_enc env) master_key (our_sender env master_key) of
        None \<Rightarrow> (Inl (Internal ''HKDF expand failed''), w)
      | Some pk \<Rightarrow> k pk)"

text \<open>
  The common end of the three answering handlers: read the reply key, seal the response,
  read the address, send. A malformed key or address is permanent, a failure of the
  cipher or of the network is not.
\<close>

definition send_reply ::
    "('s, 'b, 'd, 'c, 'n, 'sk) inbound_env \<Rightarrow> 'sk draws \<Rightarrow> bytes \<Rightarrow> ('p, bytes) codec \<Rightarrow> 'p
     \<Rightarrow> (string + bytes \<Rightarrow> string) \<Rightarrow> string \<Rightarrow> string \<Rightarrow> string \<Rightarrow> string \<Rightarrow> string
     \<Rightarrow> ('s, 'd, 'n) world \<Rightarrow> ('s, 'd, 'n) dispatched" where
  "send_reply env dr master_key c response bad_key seal_context bad_uuid send_context reply_key sender w =
     (let key = b64_dec env reply_key in
      case key of
        Inr pk \<Rightarrow>
          if length pk \<noteq> 32 then (Inr (Skipped (bad_key key)), w)
          else (case encrypt_message (box env) c (dr_ephemeral dr) (dr_nonce dr) pk response of
                  Inl e \<Rightarrow> (handler_err id seal_context (Inl e), w)
                | Inr encrypted \<Rightarrow>
                    (case parse_uuid env sender of
                       Inl e \<Rightarrow> (Inr (Skipped (bad_uuid @ e)), w)
                     | Inr target \<Rightarrow>
                         (case connect env (w_out w) target (b64_enc env encrypted) (Some (our_sender env master_key)) of
                            (Inl e, n) \<Rightarrow> (handler_err id send_context (Inl e), w\<lparr>w_out := n\<rparr>)
                          | (Inr _, n) \<Rightarrow> (Inr Handled, w\<lparr>w_out := n\<rparr>))))
      | Inl _ \<Rightarrow> (Inr (Skipped (bad_key key)), w))"

section \<open>Queries\<close>

definition handle_incoming_query ::
    "('s, 'b, 'd, 'c, 'n, 'sk) inbound_env \<Rightarrow> 'sk draws \<Rightarrow> bytes \<Rightarrow> query_request_payload \<Rightarrow> ('s, 'd, 'n) world
     \<Rightarrow> ('s, 'd, 'n) dispatched" where
  "handle_incoming_query env dr master_key p w =
     (let (success, results, error) =
            (case run_query env (w_db w) (qr_schema_name p) (qr_fields p) (qr_sender_public_key p) of
               Inr results \<Rightarrow> (True, Some results, None)
             | Inl e \<Rightarrow> (False, None, Some (''Query failed: '' @ e)))
      in with_reply_key env master_key w (\<lambda>our_reply_pk.
           send_reply env dr master_key (query_response_codec env)
             \<lparr>qs_message_type = ''query_response'', qs_request_id = qr_request_id p, qs_success = success,
              qs_results = results, qs_error = error,
              qs_sender_pseudonym = show_uuid env (our_sender env master_key), qs_reply_public_key = our_reply_pk\<rparr>
             (\<lambda>_. ''invalid reply public key in query request '' @ qr_request_id p)
             ''encrypt query response'' ''invalid sender pseudonym UUID: '' ''send query response''
             (qr_reply_public_key p) (qr_sender_pseudonym p) w))"

text \<open>
  Both response handlers first look the request up: an unknown one is skipped for good.
\<close>

definition update_known_query ::
    "('s, 'b, 'd, 'c, 'n, 'sk) inbound_env \<Rightarrow> 'sk draws \<Rightarrow> string \<Rightarrow> string \<Rightarrow> string + json option \<Rightarrow> string
     \<Rightarrow> string option \<Rightarrow> string \<Rightarrow> ('s, 'd, 'n) world \<Rightarrow> ('s, 'd, 'n) dispatched" where
  "update_known_query env dr request_id unknown results serialize_context err update_context w =
     (case handler_err id ''load async query'' (get_async_query (in_ops env) (async_codec env) (w_meta w) request_id) of
        Inl e \<Rightarrow> (Inl e, w)
      | Inr None \<Rightarrow> (Inr (Skipped (unknown @ request_id)), w)
      | Inr (Some _) \<Rightarrow>
          (case handler_err id serialize_context results of
             Inl e \<Rightarrow> (Inl e, w)
           | Inr value \<Rightarrow>
               on_meta update_context
                 (update_async_query_result (in_ops env) (async_codec env) (dr_now dr) (w_meta w) request_id value err) w
                 (\<lambda>_ w. (Inr Handled, w))))"

definition handle_incoming_query_response ::
    "('s, 'b, 'd, 'c, 'n, 'sk) inbound_env \<Rightarrow> 'sk draws \<Rightarrow> query_response_payload \<Rightarrow> ('s, 'd, 'n) world
     \<Rightarrow> ('s, 'd, 'n) dispatched" where
  "handle_incoming_query_response env dr p w =
     update_known_query env dr (qs_request_id p) ''unknown async query request_id ''
       (if qs_success p then
          (case qs_results p of
             None \<Rightarrow> Inr None
           | Some r \<Rightarrow> res_bind (results_to_value env r) (\<lambda>v. Inr (Some v)))
        else Inr None)
       ''serialize query results'' (qs_error p) ''update async query result'' w"

definition handle_incoming_schema_list_request ::
    "('s, 'b, 'd, 'c, 'n, 'sk) inbound_env \<Rightarrow> 'sk draws \<Rightarrow> bytes \<Rightarrow> schema_list_request_payload \<Rightarrow> ('s, 'd, 'n) world
     \<Rightarrow> ('s, 'd, 'n) dispatched" where
  "handle_incoming_schema_list_request env dr master_key p w =
     (case handler_err id ''get schemas'' (schema_infos env (w_db w)) of
        Inl e \<Rightarrow> (Inl e, w)
      | Inr schemas \<Rightarrow>
          with_reply_key env master_key w (\<lambda>our_reply_pk.
            send_reply env dr master_key (schema_response_codec env)
              \<lparr>sr_message_type = ''schema_list_response'', sr_request_id = sl_request_id p, sr_schemas = schemas,
               sr_sender_pseudonym = show_uuid env (our_sender env master_key), sr_reply_public_key = our_reply_pk\<rparr>
              (\<lambda>_. ''invalid reply public key in schema list request'')
              ''encrypt schema list response'' ''invalid sender pseudonym UUID in schema list request: ''
              ''send schema list response'' (sl_reply_public_key p) (sl_sender_pseudonym p) w))"

definition handle_incoming_schema_list_response ::
    "('s, 'b, 'd, 'c, 'n, 'sk) inbound_env \<Rightarrow> 'sk draws \<Rightarrow> schema_list_response_payload \<Rightarrow> ('s, 'd, 'n) world
     \<Rightarrow> ('s, 'd, 'n) dispatched" where
  "handle_incoming_schema_list_response env dr p w =
     update_known_query env dr (sr_request_id p) ''unknown async schema list request_id ''
       (res_bind (schemas_to_value env (sr_schemas p)) (\<lambda>v. Inr (Some v)))
       ''serialize schema list'' None ''update schema list result'' w"

section \<open>Identity cards\<close>

definition handle_incoming_identity_card ::
    "('s, 'b, 'd, 'c, 'n, 'sk) inbound_env \<Rightarrow> 'sk draws \<Rightarrow> identity_card_message_payload \<Rightarrow> ('s, 'd, 'n) world
     \<Rightarrow> ('s, 'd, 'n) dispatched" where
  "handle_incoming_identity_card env dr p w =
     (let card_pub_key = unwrap_or [] (Option.bind (json_get ''pub_key'' (im_card p)) as_str) in
      if card_pub_key \<noteq> im_sender_public_key p then
        (Inr (Skipped ''identity_card_send: card.pub_key != sender_public_key''), w)
      else on_meta ''save received identity card''
             (save_received_card (in_ops env) (card_codec env) (w_meta w)
                \<lparr>rc_message_id = im_message_id p, rc_card = im_card p, rc_sender_public_key = im_sender_public_key p,
                 rc_sender_pseudonym = im_sender_pseudonym p, rc_status = ''pending'', rc_received_at = dr_now dr,
                 rc_resolved_at = None, rc_accepted_identity_id = None, rc_error = None\<rparr>) w
             (\<lambda>_ w. (Inr Handled, w)))"

section \<open>Share invites\<close>

definition handle_incoming_share_invite ::
    "('s, 'b, 'd, 'c, 'n, 'sk) inbound_env \<Rightarrow> bytes \<Rightarrow> encrypted_message \<Rightarrow> share_invite_payload \<Rightarrow> ('s, 'd, 'n) world
     \<Rightarrow> ('s, 'd, 'n) dispatched" where
  "handle_incoming_share_invite env master_key msg p w =
     (case parse_uuid env (em_target_pseudonym msg) of
        Inl _ \<Rightarrow> (Inr (Skipped ''share_invite: target_pseudonym not a UUID''), w)
      | Inr target \<Rightarrow>
          (case derive_pseudonym_keypair (box env) master_key target of
             None \<Rightarrow> (Inl (Internal ''HKDF expand failed''), w)
           | Some (secret, _) \<Rightarrow>
               (case decrypt_message_raw (box env) (value_codec env) secret (siv_secret_encrypted p) of
                  Inl e \<Rightarrow> (Inr (Skipped (''share_invite: inner decrypt failed: '' @ e)), w)
                | Inr secret_value \<Rightarrow>
                    (case parse_byte_array env secret_value of
                       Inl e \<Rightarrow> (Inr (Skipped (''share_invite: inner secret not a byte array: '' @ e)), w)
                     | Inr secret_bytes \<Rightarrow>
                         (case sled_pool env (w_db w) of
                            Inl e \<Rightarrow> (Inl (Internal (''share_invite: sled pool: '' @ e)), w)
                          | Inr _ \<Rightarrow>
                              (case store_pending_invite env (w_db w)
                                 \<lparr>inv_sender_pubkey = siv_sender_pubkey p, inv_sender_display_name = siv_sender_display_name p,
                                  inv_share_prefix = siv_share_prefix p, inv_share_e2e_secret = secret_bytes,
                                  inv_scope_description = siv_scope_description p\<rparr> of
                                 (Inl e, d) \<Rightarrow> (Inl (Internal (''share_invite: persist failed: '' @ e)), w\<lparr>w_db := d\<rparr>)
                               | (Inr _, d) \<Rightarrow> (Inr Handled, w\<lparr>w_db := d\<rparr>)))))))"

section \<open>Referrals\<close>

definition identity_match :: "string option \<Rightarrow> string option \<Rightarrow> bool" where
  "identity_match a b = (case (a, b) of (Some x, Some y) \<Rightarrow> x = y | _ \<Rightarrow> False)"

definition referral_contact_matches :: "contact \<Rightarrow> referral_query_payload \<Rightarrow> bool" where
  "referral_contact_matches c p \<longleftrightarrow>
     identity_match (identity_pseudonym c) (rq_subject_identity_pseudonym p) \<or>
     pseudonym c = Some (rq_subject_pseudonym p) \<or> messaging_pseudonym c = Some (rq_subject_pseudonym p) \<or>
     messaging_public_key c = Some (rq_subject_public_key p)"

definition referral_voucher_matches :: "contact \<Rightarrow> referral_response_payload \<Rightarrow> bool" where
  "referral_voucher_matches c p \<longleftrightarrow>
     identity_match (identity_pseudonym c) (rr_voucher_identity_pseudonym p) \<or>
     messaging_pseudonym c = Some (rr_sender_pseudonym p) \<or> pseudonym c = Some (rr_sender_pseudonym p)"

definition handle_incoming_referral_query ::
    "('s, 'b, 'd, 'c, 'n, 'sk) inbound_env \<Rightarrow> 'sk draws \<Rightarrow> bytes \<Rightarrow> referral_query_payload \<Rightarrow> ('s, 'd, 'n) world
     \<Rightarrow> ('s, 'd, 'n) dispatched" where
  "handle_incoming_referral_query env dr master_key p w =
     (let contact_book = or_default_book (load_contacts (contact_ops (in_db env)) (w_db w)) in
      case List.find (\<lambda>c. referral_contact_matches c p) (active_contacts (map_order (in_db env)) contact_book) of
        None \<Rightarrow> (Inr Handled, w)
      | Some contact \<Rightarrow>
          with_reply_key env master_key w (\<lambda>our_pk_b64.
            send_reply env dr master_key (referral_response_codec env)
              \<lparr>rr_message_type = ''referral_response'', rr_query_id = rq_query_id p, rr_known_as = display_name contact,
               rr_sender_pseudonym = show_uuid env (our_sender env master_key), rr_reply_public_key = our_pk_b64,
               rr_voucher_identity_pseudonym =
                 Some (show_uuid env (derive_pseudonym env master_key (content_hash env ''identity'')))\<rparr>
              (\<lambda>key. case key of Inr _ \<Rightarrow> ''referral query reply key wrong length''
                            | Inl e \<Rightarrow> ''invalid referral query reply key: '' @ e)
              ''encrypt referral response'' ''invalid sender pseudonym UUID in referral query: ''
              ''send referral response'' (rq_reply_public_key p) (rq_sender_pseudonym p) w))"

text \<open>The scan: the first row that deserializes and carries the query identifier.\<close>

fun find_referral ::
    "(local_connection_request, 'b) codec \<Rightarrow> string \<Rightarrow> (string \<times> 'b) list \<Rightarrow> (string \<times> local_connection_request) option" where
  "find_referral c query_id [] = None"
| "find_referral c query_id ((key, b) # entries) =
     (case from_slice c b of
        Inl _ \<Rightarrow> find_referral c query_id entries
      | Inr req \<Rightarrow> if lr_referral_query_id req = Some query_id then Some (key, req) else find_referral c query_id entries)"

definition voucher_name :: "(string set \<Rightarrow> string list) \<Rightarrow> schema_error + contact_book \<Rightarrow> referral_response_payload \<Rightarrow> string" where
  "voucher_name it book p =
     (case book of
        Inl _ \<Rightarrow> ''Unknown contact''
      | Inr b \<Rightarrow> unwrap_or ''Unknown contact''
          (map_option display_name (List.find (\<lambda>c. referral_voucher_matches c p) (active_contacts it b))))"

definition handle_incoming_referral_response ::
    "('s, 'b, 'd, 'c, 'n, 'sk) inbound_env \<Rightarrow> 'sk draws \<Rightarrow> referral_response_payload \<Rightarrow> ('s, 'd, 'n) world
     \<Rightarrow> ('s, 'd, 'n) dispatched" where
  "handle_incoming_referral_response env dr p w =
     (case handler_err id ''scan connection requests'' (kv_scan_prefix (in_ops env) (w_meta w) ''discovery:conn_req:'') of
        Inl e \<Rightarrow> (Inl e, w)
      | Inr entries \<Rightarrow>
          (case find_referral (req_codec env) (rr_query_id p) entries of
             None \<Rightarrow> (Inr (Skipped (''referral response for unknown query '' @ rr_query_id p)), w)
           | Some (key, req) \<Rightarrow>
               (let name = voucher_name (map_order (in_db env)) (load_contacts (contact_ops (in_db env)) (w_db w)) p;
                    req' = req\<lparr>lr_vouches := lr_vouches req @
                      [\<lparr>v_voucher_display_name = name, v_known_as = rr_known_as p, v_received_at = dr_now dr\<rparr>]\<rparr>
                in case to_vec (req_codec env) req' of
                     Inl e \<Rightarrow> (Inl (Internal (''serialize vouched connection request: '' @ e)), w)
                   | Inr updated \<Rightarrow>
                       on_meta ''save vouched connection request'' (kv_put (in_ops env) (w_meta w) key updated) w
                         (\<lambda>_ w. (Inr Handled, w)))))"

section \<open>Shared data\<close>

datatype data_share_authz = SenderAuthorized | UnknownSender | RevokedSender

definition authorize_data_share_sender :: "contact_book \<Rightarrow> data_share_payload \<Rightarrow> data_share_authz" where
  "authorize_data_share_sender book p =
     (case get_contact book (ds_sender_public_key p) of
        None \<Rightarrow> UnknownSender
      | Some c \<Rightarrow> if revoked c then RevokedSender else SenderAuthorized)"

datatype data_share_schema_check = AllApproved | UnknownOrUnapproved string

fun check_schemas :: "(string \<rightharpoonup> schema_state) \<Rightarrow> shared_record list \<Rightarrow> data_share_schema_check" where
  "check_schemas states [] = AllApproved"
| "check_schemas states (r # rs) =
     (if states (sr_schema_name r) = Some Approved then check_schemas states rs
      else UnknownOrUnapproved (sr_schema_name r))"

definition validate_data_share_schemas :: "(string \<rightharpoonup> schema_state) \<Rightarrow> data_share_payload \<Rightarrow> data_share_schema_check" where
  "validate_data_share_schemas states p = check_schemas states (ds_records p)"

text \<open>One record: the mutation under the sender's key, then the file and its faces when it carries one.\<close>

definition share_record ::
    "('s, 'b, 'd, 'c, 'n, 'sk) inbound_env \<Rightarrow> string \<Rightarrow> shared_record \<Rightarrow> ('s, 'd, 'n) world
     \<Rightarrow> (handler_error + unit) \<times> ('s, 'd, 'n) world" where
  "share_record env sender r w =
     (case write_mutation env (w_db w) (sr_schema_name r) (sr_fields r) (sr_key r) sender of
        (Inl e, d) \<Rightarrow> (Inl (Internal (''write shared record for schema '' @ quoted (sr_schema_name r) @ '': '' @ e)), w\<lparr>w_db := d\<rparr>)
      | (Inr _, d) \<Rightarrow>
          (let w = w\<lparr>w_db := d\<rparr> in
           case sr_file_data_base64 r of
             None \<Rightarrow> (Inr (), w)
           | Some file_b64 \<Rightarrow>
               (case b64_dec env file_b64 of
                  Inl e \<Rightarrow> (Inl (Internal (''decode shared file data for schema '' @ quoted (sr_schema_name r) @ '': '' @ e)), w)
                | Inr file_bytes \<Rightarrow>
                    (let file_name = unwrap_or (unwrap_or ''shared_file'' (Option.bind (sr_fields r ''file_hash'') as_str))
                           (sr_file_name r) in
                     case save_file env (w_out w) file_name file_bytes of
                       (Inl e, n) \<Rightarrow> (Inl (Internal (''save shared file '' @ quoted file_name @ '': '' @ e)), w\<lparr>w_out := n\<rparr>)
                     | (Inr _, n) \<Rightarrow>
                         (let w = w\<lparr>w_out := n\<rparr> in
                          case index_faces env (w_db w) (sr_schema_name r) (sr_key r) file_bytes of
                            (Inl e, d) \<Rightarrow> (Inl (Internal (''face indexing failed for shared photo '' @ quoted file_name @ '': '' @ e)), w\<lparr>w_db := d\<rparr>)
                          | (Inr _, d) \<Rightarrow> (Inr (), w\<lparr>w_db := d\<rparr>))))))"

fun share_records ::
    "('s, 'b, 'd, 'c, 'n, 'sk) inbound_env \<Rightarrow> string \<Rightarrow> shared_record list \<Rightarrow> ('s, 'd, 'n) world
     \<Rightarrow> (handler_error + unit) \<times> ('s, 'd, 'n) world" where
  "share_records env sender [] w = (Inr (), w)"
| "share_records env sender (r # rs) w =
     (case share_record env sender r w of
        (Inl e, w') \<Rightarrow> (Inl e, w')
      | (Inr _, w') \<Rightarrow> share_records env sender rs w')"

definition show_millis :: "int \<Rightarrow> string" where
  "show_millis i = (if i < 0 then ''-'' @ show_nat (nat (- i)) else show_nat (nat i))"

definition share_notification :: "string \<Rightarrow> data_share_payload \<Rightarrow> json" where
  "share_notification now p = JObj
     [(''type'', JStr ''data_share_received''), (''sender_display_name'', JStr (ds_sender_display_name p)),
      (''sender_public_key'', JStr (ds_sender_public_key p)), (''records_received'', JInt (int (length (ds_records p)))),
      (''schema_names'', JArr (map (\<lambda>r. JStr (sr_schema_name r)) (ds_records p))), (''received_at'', JStr now)]"

definition process_data_share ::
    "('s, 'b, 'd, 'c, 'n, 'sk) inbound_env \<Rightarrow> 'sk draws \<Rightarrow> data_share_payload \<Rightarrow> ('s, 'd, 'n) world
     \<Rightarrow> (handler_error + unit) \<times> ('s, 'd, 'n) world" where
  "process_data_share env dr p w =
     (case share_records env (ds_sender_public_key p) (ds_records p) w of
        (Inl e, w') \<Rightarrow> (Inl e, w')
      | (Inr _, w') \<Rightarrow>
          (case to_vec (note_codec env) (share_notification (dr_now dr) p) of
             Inl e \<Rightarrow> (Inl (Internal (''serialize data share notification: '' @ e)), w')
           | Inr b \<Rightarrow>
               (case kv_put (in_ops env) (w_meta w') (''notification:'' @ show_millis (dr_now_millis dr) @ '':'' @ dr_uuid dr) b of
                  (r, s) \<Rightarrow> (handler_err id ''store data share notification'' r, w'\<lparr>w_meta := s\<rparr>))))"

definition handle_data_share ::
    "('s, 'b, 'd, 'c, 'n, 'sk) inbound_env \<Rightarrow> 'sk draws \<Rightarrow> data_share_payload \<Rightarrow> ('s, 'd, 'n) world
     \<Rightarrow> ('s, 'd, 'n) dispatched" where
  "handle_data_share env dr p w =
     (let contact_book = or_default_book (load_contacts (contact_ops (in_db env)) (w_db w)) in
      case authorize_data_share_sender contact_book p of
        UnknownSender \<Rightarrow> (Inr (Skipped ''data_share from unknown sender''), w)
      | RevokedSender \<Rightarrow> (Inr (Skipped ''data_share from revoked sender''), w)
      | SenderAuthorized \<Rightarrow>
          (case handler_err id ''get schema states'' (schema_states env (w_db w)) of
             Inl e \<Rightarrow> (Inl e, w)
           | Inr states \<Rightarrow>
               (case validate_data_share_schemas states p of
                  UnknownOrUnapproved name \<Rightarrow>
                    (Inr (Skipped (''data_share references unknown schema '' @ quoted name)), w)
                | AllApproved \<Rightarrow>
                    (case process_data_share env dr p w of
                       (Inl e, w') \<Rightarrow> (Inl e, w')
                     | (Inr _, w') \<Rightarrow> (Inr Handled, w')))))"

section \<open>Dispatch\<close>

definition parsed :: "string \<Rightarrow> string + 'p \<Rightarrow> ('s, 'd, 'n) world \<Rightarrow> ('p \<Rightarrow> ('s, 'd, 'n) dispatched) \<Rightarrow> ('s, 'd, 'n) dispatched" where
  "parsed what r w k =
     (case r of Inl e \<Rightarrow> (Inr (Skipped (''parse '' @ what @ '': '' @ e)), w) | Inr p \<Rightarrow> k p)"

definition dispatch_decrypted_message ::
    "('s, 'b, 'd, 'c, 'n, 'sk) inbound_env \<Rightarrow> 'sk draws \<Rightarrow> bytes \<Rightarrow> encrypted_message \<Rightarrow> json \<Rightarrow> ('s, 'd, 'n) world
     \<Rightarrow> ('s, 'd, 'n) dispatched" where
  "dispatch_decrypted_message env dr master_key msg raw w =
     (let message_type = unwrap_or [] (Option.bind (json_get ''message_type'' raw) as_str) in
      if message_type = ''request'' then
        parsed ''connection request'' (parse_connection env raw) w (\<lambda>p. handle_request env msg p w)
      else if message_type = ''accept'' then
        parsed ''connection accept'' (parse_connection env raw) w (\<lambda>p. handle_accept env dr p w)
      else if message_type = ''decline'' then
        parsed ''connection decline'' (parse_connection env raw) w (\<lambda>p. handle_decline env p w)
      else if message_type = ''query_request'' then
        parsed ''query request'' (parse_query_request env raw) w (\<lambda>p. handle_incoming_query env dr master_key p w)
      else if message_type = ''query_response'' then
        parsed ''query response'' (parse_query_response env raw) w (\<lambda>p. handle_incoming_query_response env dr p w)
      else if message_type = ''schema_list_request'' then
        parsed ''schema list request'' (parse_schema_request env raw) w
          (\<lambda>p. handle_incoming_schema_list_request env dr master_key p w)
      else if message_type = ''schema_list_response'' then
        parsed ''schema list response'' (parse_schema_response env raw) w
          (\<lambda>p. handle_incoming_schema_list_response env dr p w)
      else if message_type = ''data_share'' then
        parsed ''data share'' (parse_data_share env raw) w (\<lambda>p. handle_data_share env dr p w)
      else if message_type = ''share_invite'' then
        parsed ''share_invite'' (parse_share_invite env raw) w (\<lambda>p. handle_incoming_share_invite env master_key msg p w)
      else if message_type = ''referral_query'' then
        parsed ''referral query'' (parse_referral_query env raw) w
          (\<lambda>p. handle_incoming_referral_query env dr master_key p w)
      else if message_type = ''referral_response'' then
        parsed ''referral response'' (parse_referral_response env raw) w
          (\<lambda>p. handle_incoming_referral_response env dr p w)
      else if message_type = ''identity_card_send'' then
        parsed ''identity_card_send'' (parse_card_message env raw) w (\<lambda>p. handle_incoming_identity_card env dr p w)
      else (Inr (Skipped (''unknown message_type '' @ quoted message_type)), w))"

section \<open>The poll\<close>

text \<open>The steps before dispatch; \<^const>\<open>None\<close> is a message that is skipped without a trace.\<close>

definition open_message ::
    "('s, 'b, 'd, 'c, 'n, 'sk) inbound_env \<Rightarrow> bytes \<Rightarrow> encrypted_message \<Rightarrow> json option" where
  "open_message env master_key msg =
     (case parse_uuid env (em_target_pseudonym msg) of
        Inl _ \<Rightarrow> None
      | Inr target \<Rightarrow>
          (case derive_pseudonym_keypair (box env) master_key target of
             None \<Rightarrow> None
           | Some (secret, _) \<Rightarrow>
               (case b64_dec env (em_encrypted_blob msg) of
                  Inl _ \<Rightarrow> None
                | Inr encrypted_bytes \<Rightarrow>
                    (case decrypt_message_raw (box env) (value_codec env) secret encrypted_bytes of
                       Inl _ \<Rightarrow> None
                     | Inr raw \<Rightarrow> Some raw))))"

definition marker_key :: "string \<Rightarrow> string" where
  "marker_key message_id = MSG_PROCESSED_PREFIX @ message_id"

type_synonym dispatch_errors = "(string \<times> handler_error) list"

definition mark_processed ::
    "('s, 'b, 'd, 'c, 'n, 'sk) inbound_env \<Rightarrow> 64 word \<Rightarrow> string \<Rightarrow> dispatch_errors \<times> ('s, 'd, 'n) world
     \<Rightarrow> dispatch_errors \<times> ('s, 'd, 'n) world" where
  "mark_processed env now_secs i st =
     (case st of (errs, w) \<Rightarrow>
        case kv_put (in_ops env) (w_meta w) (marker_key i) (of_bytes env (encode_marker_timestamp now_secs)) of
          (Inl e, s) \<Rightarrow> (errs @ [(i, Internal (''dedup write failed: '' @ e))], w\<lparr>w_meta := s\<rparr>)
        | (Inr _, s) \<Rightarrow> (errs, w\<lparr>w_meta := s\<rparr>))"

text \<open>The body of the loop, on the errors collected so far and the world.\<close>

definition process_message ::
    "('s, 'b, 'd, 'c, 'n, 'sk) inbound_env \<Rightarrow> (string \<Rightarrow> 'sk draws) \<Rightarrow> bytes \<Rightarrow> encrypted_message
     \<Rightarrow> dispatch_errors \<times> ('s, 'd, 'n) world \<Rightarrow> dispatch_errors \<times> ('s, 'd, 'n) world" where
  "process_message env draw master_key msg st =
     (case st of (errs, w) \<Rightarrow>
        case open_message env master_key msg of
          None \<Rightarrow> (errs, w)
        | Some raw \<Rightarrow>
            (let i = em_message_id msg in
             case kv_get (in_ops env) (w_meta w) (marker_key i) of
               Inr (Some _) \<Rightarrow> (errs, w)
             | Inl e \<Rightarrow> (errs @ [(i, Internal (''dedup read failed: '' @ e))], w)
             | Inr None \<Rightarrow>
                 (case dispatch_decrypted_message env (draw i) master_key msg raw w of
                    (Inl e, w') \<Rightarrow> (errs @ [(i, e)], w')
                  | (Inr _, w') \<Rightarrow> mark_processed env (dr_now_secs (draw i)) i (errs, w'))))"

definition process_messages ::
    "('s, 'b, 'd, 'c, 'n, 'sk) inbound_env \<Rightarrow> (string \<Rightarrow> 'sk draws) \<Rightarrow> bytes \<Rightarrow> encrypted_message list
     \<Rightarrow> ('s, 'd, 'n) world \<Rightarrow> dispatch_errors \<times> ('s, 'd, 'n) world" where
  "process_messages env draw master_key msgs w = fold (process_message env draw master_key) msgs ([], w)"

definition POLL_CHUNK_SIZE :: nat where
  "POLL_CHUNK_SIZE = 100"

text \<open>\<^verbatim>\<open>chunks(n)\<close>, for a positive size.\<close>

function chunks :: "nat \<Rightarrow> 'a list \<Rightarrow> 'a list list" where
  "chunks n xs = (if xs = [] \<or> n = 0 then [] else take n xs # chunks n (drop n xs))"
  by pat_completeness auto
termination by (relation "measure (\<lambda>(n, xs). length xs)") auto

declare chunks.simps [simp del]

definition maybe_prune ::
    "('s, 'b, 'd, 'c, 'n, 'sk) inbound_env \<Rightarrow> 64 word \<Rightarrow> 64 word \<Rightarrow> 's \<Rightarrow> 's" where
  "maybe_prune env now prune_count s =
     (if prune_count mod PRUNE_EVERY_N_POLLS = 0
      then snd (prune_msg_processed_markers (in_ops env) (bytes_of env) s now DEDUP_RETENTION_SECS)
      else s)"

text \<open>
  The handler: \<open>pseudonyms\<close> is the result of collecting this node's pseudonyms, \<open>poll\<close> the
  network call for one chunk of them, \<open>polls\<close> the poll counter, \<open>now\<close> the time of the
  pruning.
\<close>

definition poll_and_decrypt_requests ::
    "('s, 'b, 'd, 'c, 'n, 'sk) inbound_env \<Rightarrow> (string \<Rightarrow> 'sk draws) \<Rightarrow> bytes \<Rightarrow> handler_error + bytes list
     \<Rightarrow> (bytes list \<Rightarrow> string + encrypted_message list) \<Rightarrow> 64 word \<Rightarrow> 64 word \<Rightarrow> ('s, 'd, 'n) world
     \<Rightarrow> (handler_error + local_connection_request list) \<times> ('s, 'd, 'n) world" where
  "poll_and_decrypt_requests env draw master_key pseudonyms poll polls now w =
     (case pseudonyms of
        Inl e \<Rightarrow> (Inl e, w)
      | Inr ps \<Rightarrow>
          if ps = [] then (Inr [], w)
          else case handler_err id ''poll messages'' (collect_res poll (chunks POLL_CHUNK_SIZE ps)) of
            Inl e \<Rightarrow> (Inl e, w)
          | Inr batches \<Rightarrow>
              (let w1 = snd (process_messages env draw master_key (concat batches) w);
                   w2 = w1\<lparr>w_meta := maybe_prune env now polls (w_meta w1)\<rparr>
               in (handler_err id ''list received requests''
                     (list_received_requests (in_ops env) (req_codec env) (w_meta w2)), w2)))"

end
