(* ===== verification/Trust_Correct.thy ===== *)
theory Trust_Correct
  imports Trust_Ops
begin

text \<open>
  Facts about trust: a role assignment changes one user's tier in one domain and the
  contact's record of it, a removal undoes it, and access contexts and audits follow the
  stored tiers. The locale \<open>trust_store\<close> states what is relied on of the database; the
  last section interprets it on a database in memory.
\<close>

section \<open>What the database promises\<close>

text \<open>
  \<open>tiers d dm\<close> is the trust map of domain \<open>dm\<close>, \<open>cview\<close> and \<open>rview\<close> are the contact and
  role records. Writes to one of the three leave the others alone.
\<close>

locale trust_store =
  fixes db :: "('d, 'c) trust_db"
    and tiers :: "'d \<Rightarrow> string \<Rightarrow> trust_map"
    and cview :: "'d \<Rightarrow> string \<Rightarrow> contact option"
    and rview :: "'d \<Rightarrow> string \<Rightarrow> sharing_role option"
  assumes order: "iteration_order (map_order db)"
    and contact_store: "kv_store (contact_ops db) cview"
    and role_store: "kv_store (role_ops db) rview"
    and load_domain: "load_domain_map db d dm = Inr m \<Longrightarrow> m = tiers d dm"
    and store_domain: "store_domain_map db d dm m = (Inr u, d') \<Longrightarrow>
        tiers d' = (tiers d)(dm := m) \<and> cview d' = cview d \<and> rview d' = rview d"
    and audit_frame: "append_audit db d user a = (Inr u, d') \<Longrightarrow>
        tiers d' = tiers d \<and> cview d' = cview d \<and> rview d' = rview d"
    and contact_put: "kv_put (contact_ops db) d k c = (Inr u, d') \<Longrightarrow> tiers d' = tiers d \<and> rview d' = rview d"
    and role_put: "kv_put (role_ops db) d k r = (Inr u, d') \<Longrightarrow> tiers d' = tiers d \<and> cview d' = cview d"
    and domains_listed: "list_domains db d = Inr ds \<Longrightarrow> tiers d dm \<noteq> Map.empty \<Longrightarrow> dm \<in> set ds"
begin

lemma profile_put_Inr:
  "kv_put (profile_ops ops) s k v = (Inr u, s') \<Longrightarrow> \<exists>k u'. kv_put ops s k v = (Inr u', s')"
  by (auto simp: profile_ops_def profile_put_def split: prod.splits)

lemma contacts_put_all:
  "put_all (profile_ops (contact_ops db)) d rows = (Inr u, d') \<Longrightarrow> tiers d' = tiers d \<and> rview d' = rview d"
proof (induction rows arbitrary: d)
  case (Cons kv rows)
  obtain k v where kv: "kv = (k, v)" by (cases kv)
  with Cons.prems obtain t where t: "kv_put (profile_ops (contact_ops db)) d k v = (Inr (), t)"
    "put_all (profile_ops (contact_ops db)) t rows = (Inr u, d')"
    by (auto split: prod.splits sum.splits)
  from Cons.IH [OF t(2)] profile_put_Inr [OF t(1)] contact_put show ?case by fastforce
qed simp

lemma roles_put_all:
  "put_all (profile_ops (role_ops db)) d rows = (Inr u, d') \<Longrightarrow> tiers d' = tiers d \<and> cview d' = cview d"
proof (induction rows arbitrary: d)
  case (Cons kv rows)
  obtain k v where kv: "kv = (k, v)" by (cases kv)
  with Cons.prems obtain t where t: "kv_put (profile_ops (role_ops db)) d k v = (Inr (), t)"
    "put_all (profile_ops (role_ops db)) t rows = (Inr u, d')"
    by (auto split: prod.splits sum.splits)
  from Cons.IH [OF t(2)] profile_put_Inr [OF t(1)] role_put show ?case by fastforce
qed simp

lemma load_roles_frame:
  "load_roles (map_order db) (role_ops db) d = (Inr cfg, d') \<Longrightarrow> tiers d' = tiers d \<and> cview d' = cview d"
  using roles_put_all [of d _ "()" d']
  by (auto simp: load_roles_def save_roles_def split: sum.splits prod.splits if_splits)

lemma with_audit_Inr:
  assumes "with_audit db (store_domain_map db d dm m) user a = (Inr u, d')"
  shows "tiers d' = (tiers d)(dm := m)" "cview d' = cview d" "rview d' = rview d"
proof -
  from assms obtain d1 where d1: "store_domain_map db d dm m = (Inr (), d1)" "append_audit db d1 user a = (Inr u, d')"
    by (auto simp: with_audit_def split: prod.splits sum.splits)
  from store_domain [OF d1(1)] audit_frame [OF d1(2)]
  show "tiers d' = (tiers d)(dm := m)" "cview d' = cview d" "rview d' = rview d" by simp_all
qed

lemma grant_effect:
  assumes "grant_trust_for_domain db d user dm tier = (Inr u, d')"
  shows "tiers d' = (tiers d)(dm := (tiers d dm)(user \<mapsto> tier))" "cview d' = cview d" "rview d' = rview d"
  using assms with_audit_Inr [of d dm] load_domain [of d dm]
  by (auto simp: grant_trust_for_domain_def split: sum.splits)

lemma revoke_effect:
  assumes "revoke_trust_for_domain db d user dm = (Inr u, d')"
  shows "tiers d' = (tiers d)(dm := (tiers d dm)(user := None))" "cview d' = cview d" "rview d' = rview d"
  using assms with_audit_Inr [of d dm] load_domain [of d dm]
  by (auto simp: revoke_trust_for_domain_def split: sum.splits)

lemma edit_contact_effect:
  assumes "edit_contact_roles db d user f = (Inr u, d')"
  shows "stored_contacts cview d' = edited (stored_contacts cview d) user f" "tiers d' = tiers d" "rview d' = rview d"
proof -
  from assms obtain book where l: "load_contacts (contact_ops db) d = Inr book"
    and s: "save_contacts (map_order db) (contact_ops db) d (edited book user f) = (Inr u, d')"
    by (auto simp: edit_contact_roles_def split: sum.splits)
  have book: "book = stored_contacts cview d" by (rule load_contacts_eq [OF contact_store l])
  from l have "finite (dom book)" by (auto simp: load_contacts_def res_bind_eq_Inr)
  then have "finite (dom (edited book user f))" by (simp add: edited_def split: option.split)
  from save_contacts_stored [OF contact_store order this s]
  have "stored_contacts cview d' = stored_contacts cview d ++ edited book user f" .
  also have "\<dots> = edited book user f"
    by (auto simp: book edited_def map_add_def fun_eq_iff split: option.splits)
  finally show "stored_contacts cview d' = edited (stored_contacts cview d) user f" by (simp add: book)
  show "tiers d' = tiers d" "rview d' = rview d"
    using contacts_put_all s by (auto simp: save_contacts_def)
qed

lemma stored_contacts_cong: "cview d' = cview d \<Longrightarrow> stored_contacts cview d' = stored_contacts cview d"
  by (simp add: stored_contacts_def [abs_def] profile_view_def)

lemma assign_role_effect:
  assumes "assign_role_to_contact db d user rn = (Inr u, d')"
  shows "\<exists>cfg d1 role. load_roles (map_order db) (role_ops db) d = (Inr cfg, d1) \<and> cfg rn = Some role \<and>
     tiers d' = (tiers d)(role_domain role := (tiers d (role_domain role))(user \<mapsto> role_tier role)) \<and>
     stored_contacts cview d' = edited (stored_contacts cview d) user (\<lambda>rs. rs(role_domain role \<mapsto> rn))"
proof -
  from assms obtain cfg d1 role d2 where
    l: "load_roles (map_order db) (role_ops db) d = (Inr cfg, d1)" "cfg rn = Some role"
    and g: "grant_trust_for_domain db d1 user (role_domain role) (role_tier role) = (Inr (), d2)"
    and e: "edit_contact_roles db d2 user (\<lambda>rs. rs(role_domain role \<mapsto> rn)) = (Inr u, d')"
    by (auto simp: assign_role_to_contact_def get_role_def split: prod.splits sum.splits option.splits)
  have c: "stored_contacts cview d2 = stored_contacts cview d"
    using grant_effect(2) [OF g] load_roles_frame [OF l(1)] by (intro stored_contacts_cong) simp
  show ?thesis
    using l grant_effect(1) [OF g] load_roles_frame [OF l(1)] edit_contact_effect(1,2) [OF e] c by auto
qed

lemma remove_role_effect:
  assumes "remove_role_from_contact db d user dm = (Inr u, d')"
  shows "tiers d' = (tiers d)(dm := (tiers d dm)(user := None))"
    and "stored_contacts cview d' = edited (stored_contacts cview d) user (\<lambda>rs. rs(dm := None))"
proof -
  from assms obtain d1 where r: "revoke_trust_for_domain db d user dm = (Inr (), d1)"
    and e: "edit_contact_roles db d1 user (\<lambda>rs. rs(dm := None)) = (Inr u, d')"
    by (auto simp: remove_role_from_contact_def split: prod.splits sum.splits)
  from edit_contact_effect(1,2) [OF e] revoke_effect(1) [OF r] stored_contacts_cong [OF revoke_effect(2) [OF r]]
  show "tiers d' = (tiers d)(dm := (tiers d dm)(user := None))"
    "stored_contacts cview d' = edited (stored_contacts cview d) user (\<lambda>rs. rs(dm := None))" by simp_all
qed

lemma collect_tiers_eq:
  "collect_tiers db d user ds acc = Inr t \<Longrightarrow>
     t dm = (if dm \<in> set ds then (case tiers d dm user of None \<Rightarrow> acc dm | Some x \<Rightarrow> Some x) else acc dm)"
proof (induction ds arbitrary: acc)
  case (Cons a ds)
  then obtain m where m: "load_domain_map db d a = Inr m"
    "collect_tiers db d user ds (case m user of None \<Rightarrow> acc | Some x \<Rightarrow> acc(a \<mapsto> x)) = Inr t"
    by (auto simp: res_bind_eq_Inr)
  from load_domain [OF m(1)] Cons.IH [OF m(2)] show ?case by (auto split: option.splits)
qed simp

text \<open>The tiers of a user, collected over the listed domains, are the stored ones.\<close>

lemma domain_tiers_eq:
  assumes "domain_tiers_of db d user = Inr t"
  shows "t dm = tiers d dm user"
proof -
  from assms obtain ds where ds: "list_domains db d = Inr ds" "collect_tiers db d user ds Map.empty = Inr t"
    by (auto simp: domain_tiers_of_def res_bind_eq_Inr)
  have "tiers d dm user \<noteq> None \<Longrightarrow> dm \<in> set ds" using domains_listed [OF ds(1), of dm] by fastforce
  with collect_tiers_eq [OF ds(2), of dm] show ?thesis by (auto split: option.splits if_splits)
qed

lemma access_context_eq:
  assumes "build_access_context db owner d caller = Inr cx" "caller \<noteq> owner"
  shows "cx = Remote_Context caller (\<lambda>dm. tiers d dm caller)"
  using assms domain_tiers_eq [of d caller] by (auto simp: build_access_context_def res_bind_eq_Inr)

text \<open>The fields an audit lists are those whose policy the stored tier meets.\<close>

lemma audit_fields:
  assumes "audit_contact_access db d user = Inr r" "schemas_with_states db d = Inr schemas"
    and "a \<in> set (accessible_schemas r)" "f \<in> set (readable_fields a)"
  shows "\<exists>sch p tier. (sch, Approved) \<in> set schemas \<and> acc_schema_name a = sch_name sch \<and>
     (f, Some p) \<in> set (runtime_fields sch) \<and> tiers d (pol_trust_domain p) user = Some tier \<and> min_read_tier p \<le> tier"
proof -
  from assms(1,2) obtain t where t: "domain_tiers_of db d user = Inr t"
    "accessible_schemas r = List.map_filter (audit_schema t) schemas"
    by (auto simp: audit_contact_access_def res_bind_eq_Inr Let_def)
  with assms(3) obtain sch st where sch: "(sch, st) \<in> set schemas" "audit_schema t (sch, st) = Some a"
    by (auto simp: List.map_filter_def)
  then have st: "st = Approved" and a: "readable_fields a = fields_allowed min_read_tier t sch" "acc_schema_name a = sch_name sch"
    by (auto simp: audit_schema_def Let_def split: if_splits)
  from assms(4) a(1) obtain p where p: "(f, p) \<in> set (runtime_fields sch)" "field_allows min_read_tier t p"
    by (auto simp: fields_allowed_def)
  then obtain q tier where "p = Some q" "t (pol_trust_domain q) = Some tier" "min_read_tier q \<le> tier"
    by (auto simp: field_allows_def split: option.splits)
  with p sch st a(2) domain_tiers_eq [OF t(1)] show ?thesis by force
qed

lemma audit_lists:
  assumes "audit_contact_access db d user = Inr r" "schemas_with_states db d = Inr schemas"
    and "(sch, Approved) \<in> set schemas" "(f, Some p) \<in> set (runtime_fields sch)"
    and "tiers d (pol_trust_domain p) user = Some tier" "min_read_tier p \<le> tier"
  shows "\<exists>a \<in> set (accessible_schemas r). acc_schema_name a = sch_name sch \<and> f \<in> set (readable_fields a)"
proof -
  from assms(1,2) obtain t where t: "domain_tiers_of db d user = Inr t"
    "accessible_schemas r = List.map_filter (audit_schema t) schemas"
    by (auto simp: audit_contact_access_def res_bind_eq_Inr Let_def)
  have "field_allows min_read_tier t (Some p)"
    using assms(5,6) domain_tiers_eq [OF t(1)] by (simp add: field_allows_def)
  with assms(4) have f: "f \<in> set (fields_allowed min_read_tier t sch)" by (force simp: fields_allowed_def)
  then have "fields_allowed min_read_tier t sch \<noteq> []" by auto
  then obtain a where a: "audit_schema t (sch, Approved) = Some a" "acc_schema_name a = sch_name sch"
    "readable_fields a = fields_allowed min_read_tier t sch"
    by (simp add: audit_schema_def Let_def)
  with assms(3) t(2) f show ?thesis by (force simp: List.map_filter_def)
qed

lemma remove_role_access:
  assumes "remove_role_from_contact db d user dm = (Inr u, d')" "user \<noteq> owner"
    and "build_access_context db owner d' user = Inr cx"
  shows "cx = Remote_Context user ((\<lambda>x. tiers d x user)(dm := None))"
  using access_context_eq [OF assms(3,2)] remove_role_effect(1) [OF assms(1)] by (auto simp: fun_eq_iff)

lemma assign_role_access:
  assumes "assign_role_to_contact db d user rn = (Inr u, d')" "user \<noteq> owner"
    and "build_access_context db owner d' user = Inr cx"
  shows "\<exists>cfg d1 role. load_roles (map_order db) (role_ops db) d = (Inr cfg, d1) \<and> cfg rn = Some role \<and>
     cx = Remote_Context user ((\<lambda>x. tiers d x user)(role_domain role \<mapsto> role_tier role))"
  using access_context_eq [OF assms(3,2)] assign_role_effect [OF assms(1)] by (fastforce simp: fun_eq_iff)

end

section \<open>Field policies\<close>

lemma set_runtime_policy_fields [simp]: "map fst (runtime_fields (set_runtime_policy f p sch)) = map fst (runtime_fields sch)"
  by (auto simp: set_runtime_policy_def)

lemma map_of_runtime_policy:
  "map_of (runtime_fields (set_runtime_policy f p sch)) g =
     (if g = f \<and> f \<in> fst ` set (runtime_fields sch) then Some (Some p) else map_of (runtime_fields sch) g)"
proof -
  have "map_of (map (\<lambda>(h, q). (h, if h = f then Some p else q)) xs) g =
      (if g = f \<and> f \<in> fst ` set xs then Some (Some p) else map_of xs g)" for xs
  proof (induction xs)
    case (Cons x xs)
    obtain h q where x: "x = (h, q)" by (cases x)
    show ?case using Cons.IH by (cases "g = f"; cases "h = f"; cases "h = g") (simp_all add: x)
  qed simp
  then show ?thesis by (simp add: set_runtime_policy_def)
qed

lemma has_policy_set: "has_policy (set_runtime_policy f p sch) g \<longleftrightarrow> g = f \<or> has_policy sch g"
proof -
  have d: "Map.dom (field_access_policies (set_runtime_policy f p sch)) = insert f (Map.dom (field_access_policies sch))"
    by (simp add: set_runtime_policy_def)
  show ?thesis unfolding has_policy_def map_of_runtime_policy d by (cases "g = f") simp_all
qed

lemma apply_loop_policies:
  "apply_defaults_loop db force names sch n = (sch', m) \<Longrightarrow> has_policy sch' g \<longleftrightarrow> g \<in> set names \<or> has_policy sch g"
proof (induction names arbitrary: sch n)
  case (Cons f names)
  show ?case
  proof (cases "\<not> force \<and> has_policy sch f")
    case True
    with Cons show ?thesis by auto
  next
    case False
    with Cons.prems have "apply_defaults_loop db force names (set_runtime_policy f (default_policy db sch f) sch) (Suc n) = (sch', m)"
      by auto
    from Cons.IH [OF this] show ?thesis by (auto simp: has_policy_set)
  qed
qed simp

lemma apply_loop_fields:
  "apply_defaults_loop db force names sch n = (sch', m) \<Longrightarrow> map fst (runtime_fields sch') = map fst (runtime_fields sch)"
  by (induction names arbitrary: sch n) (fastforce split: if_splits)+

text \<open>Without \<open>force\<close>, a field that has a policy keeps it.\<close>

lemma apply_loop_keeps:
  assumes "apply_defaults_loop db False names sch n = (sch', m)" "has_policy sch g"
  shows "map_of (runtime_fields sch') g = map_of (runtime_fields sch) g \<and>
     field_access_policies sch' g = field_access_policies sch g"
  using assms
proof (induction names arbitrary: sch n)
  case (Cons f names)
  show ?case
  proof (cases "has_policy sch f")
    case True
    with Cons show ?thesis by simp
  next
    case False
    let ?s = "set_runtime_policy f (default_policy db sch f) sch"
    from False Cons.prems have run: "apply_defaults_loop db False names ?s (Suc n) = (sch', m)" and ne: "g \<noteq> f" by auto
    from Cons.IH [OF run] Cons.prems(2) have
      "map_of (runtime_fields sch') g = map_of (runtime_fields ?s) g" "field_access_policies sch' g = field_access_policies ?s g"
      by (simp_all add: has_policy_set)
    with ne show ?thesis unfolding map_of_runtime_policy by (simp add: set_runtime_policy_def)
  qed
qed simp

lemma apply_loop_count: "apply_defaults_loop db force names sch n = (sch', m) \<Longrightarrow> n \<le> m"
  by (induction names arbitrary: sch n) (fastforce split: if_splits)+

lemma apply_loop_idle:
  "(\<And>g. g \<in> set names \<Longrightarrow> has_policy sch g) \<Longrightarrow> apply_defaults_loop db False names sch n = (sch, n)"
  by (induction names arbitrary: n) auto

text \<open>A second application finds nothing to do.\<close>

lemma apply_loop_twice:
  assumes "apply_defaults_loop db force (map fst (runtime_fields sch)) sch 0 = (sch', m)"
  shows "apply_defaults_loop db False (map fst (runtime_fields sch')) sch' 0 = (sch', 0)"
  using apply_loop_policies [OF assms] apply_loop_fields [OF assms] by (intro apply_loop_idle) (auto simp del: set_map)

section \<open>An instance\<close>

text \<open>Store operations on a part of a larger state.\<close>

definition lift_ops :: "('d \<Rightarrow> 's) \<Rightarrow> ('s \<Rightarrow> 'd \<Rightarrow> 'd) \<Rightarrow> ('s, 'e, 'v) kv_ops \<Rightarrow> ('d, 'e, 'v) kv_ops" where
  "lift_ops part upd ops = \<lparr>
     kv_get = (\<lambda>d k. kv_get ops (part d) k),
     kv_put = (\<lambda>d k v. (case kv_put ops (part d) k v of (r, s) \<Rightarrow> (r, upd s d))),
     kv_delete = (\<lambda>d k. (case kv_delete ops (part d) k of (r, s) \<Rightarrow> (r, upd s d))),
     kv_scan_prefix = (\<lambda>d p. kv_scan_prefix ops (part d) p)\<rparr>"

lemma lift_kv_store:
  assumes "kv_store ops view" "\<And>s d. part (upd s d) = s"
  shows "kv_store (lift_ops part upd ops) (\<lambda>d. view (part d))"
  using kv_store.get_ok [OF assms(1)] kv_store.put_ok [OF assms(1)] kv_store.delete_ok [OF assms(1)]
    kv_store.scan_ok [OF assms(1)] assms(2)
  by unfold_locales (auto simp: lift_ops_def split: prod.splits)

record mem_trust =
  mt_maps :: "(string \<times> trust_map) list"
  mt_contacts :: "(string \<times> contact) list"
  mt_roles :: "(string \<times> sharing_role) list"
  mt_schemas :: "(unit schema \<times> schema_state) list"
  mt_log :: "(string \<times> audit_action) list"

definition mt_tiers :: "mem_trust \<Rightarrow> string \<Rightarrow> trust_map" where
  "mt_tiers d dm = (case map_of (mt_maps d) dm of None \<Rightarrow> Map.empty | Some m \<Rightarrow> m)"

definition mem_trust_db :: "(mem_trust, unit) trust_db" where
  "mem_trust_db = \<lparr>
     load_trust_map_db = (\<lambda>d. Inr (mt_tiers d ''personal'')),
     store_trust_map_db = (\<lambda>d m. (Inr (), d\<lparr>mt_maps := AList.update ''personal'' m (mt_maps d)\<rparr>)),
     load_domain_map = (\<lambda>d dm. Inr (mt_tiers d dm)),
     store_domain_map = (\<lambda>d dm m. (Inr (), d\<lparr>mt_maps := AList.update dm m (mt_maps d)\<rparr>)),
     list_domains = (\<lambda>d. Inr (map fst (mt_maps d))),
     append_audit = (\<lambda>d user a. (Inr (), d\<lparr>mt_log := mt_log d @ [(user, a)]\<rparr>)),
     contact_ops = lift_ops mt_contacts (\<lambda>s d. d\<lparr>mt_contacts := s\<rparr>) mem_ops,
     role_ops = lift_ops mt_roles (\<lambda>s d. d\<lparr>mt_roles := s\<rparr>) mem_ops,
     map_order = sorted_list_of_set,
     schemas_with_states = (\<lambda>d. Inr (mt_schemas d)),
     get_schema_db = (\<lambda>d name. Inr (List.find (\<lambda>s. sch_name s = name) (map fst (mt_schemas d)))),
     update_schema_db = (\<lambda>d sch. (Inr (), d\<lparr>mt_schemas := map (\<lambda>(s, st). (if sch_name s = sch_name sch then sch else s, st)) (mt_schemas d)\<rparr>)),
     default_trust_domain = (\<lambda>_. ''personal''), default_trust_tier = (\<lambda>_. Inner),
     parse_policy = (\<lambda>_. Inl ''unsupported'')\<rparr>"

interpretation mem_trust: trust_store mem_trust_db mt_tiers "\<lambda>d. map_of (mt_contacts d)" "\<lambda>d. map_of (mt_roles d)"
proof (rule trust_store.intro)
  show "iteration_order (map_order mem_trust_db)" by (simp add: mem_trust_db_def iteration_order_sorted)
  show "kv_store (contact_ops mem_trust_db) (\<lambda>d. map_of (mt_contacts d))"
    "kv_store (role_ops mem_trust_db) (\<lambda>d. map_of (mt_roles d))"
    unfolding mem_trust_db_def by (auto intro!: lift_kv_store mem.kv_store_axioms)
qed (auto simp: mem_trust_db_def lift_ops_def mt_tiers_def fun_eq_iff update_conv' split: option.splits
      intro: map_of_SomeD [THEN imageI, of _ _ _ fst, simplified])

end
