(* ===== verification/Inbound_Correct.thy ===== *)
theory Inbound_Correct
  imports Inbound Trust_Correct
begin

text \<open>
  Facts about the inbound pipeline: no handler touches the markers, so a message that
  reached a terminal outcome is not dispatched again while its marker stands, and one
  that failed is left unmarked; the authorization of shared data; what an accepted
  connection does to the trust state.
\<close>

section \<open>Handlers leave the markers alone\<close>

definition marks_kept ::
    "('s \<Rightarrow> string \<Rightarrow> 'b option) \<Rightarrow> ('s, 'd, 'n) world \<Rightarrow> ('s, 'd, 'n) world \<Rightarrow> bool" where
  "marks_kept view w w' \<longleftrightarrow> (\<forall>i. view (w_meta w') (marker_key i) = view (w_meta w) (marker_key i))"

lemma marks_kept_same [simp]: "w_meta w' = w_meta w \<Longrightarrow> marks_kept view w w'"
  by (simp add: marks_kept_def)

lemma marks_kept_trans: "marks_kept view a b \<Longrightarrow> marks_kept view b c \<Longrightarrow> marks_kept view a c"
  by (simp add: marks_kept_def)

lemma marker_apart:
  "prefixes_apart CONN_REQ_PREFIX MSG_PROCESSED_PREFIX" "prefixes_apart CONN_SENT_PREFIX MSG_PROCESSED_PREFIX"
  "prefixes_apart ASYNC_QUERY_PREFIX MSG_PROCESSED_PREFIX" "prefixes_apart RECEIVED_CARD_PREFIX MSG_PROCESSED_PREFIX"
  "prefixes_apart ''notification:'' MSG_PROCESSED_PREFIX" "prefixes_apart ''discovery:conn_req:'' MSG_PROCESSED_PREFIX"
  by (simp_all add: prefixes_apart_def CONN_REQ_PREFIX_def CONN_SENT_PREFIX_def ASYNC_QUERY_PREFIX_def
      RECEIVED_CARD_PREFIX_def MSG_PROCESSED_PREFIX_def)

lemma put_keeps_marks:
  assumes "kv_atomic ops view" "kv_put ops s k v = (r, s')" "prefix pre k" "prefixes_apart pre MSG_PROCESSED_PREFIX"
  shows "view s' (marker_key i) = view s (marker_key i)"
proof -
  from assms(3) obtain j where "k = pre @ j" by (auto simp: prefix_def)
  then have "k \<noteq> marker_key i" using prefixes_apartD [OF assms(4)] by (simp add: marker_key_def)
  then show ?thesis by (rule kv_atomic.put_frame [OF assms(1,2)])
qed

lemma put_json_keeps_marks:
  assumes "kv_atomic ops view" "put_json e1 e2 ops c s k x = (r, s')" "prefix pre k" "prefixes_apart pre MSG_PROCESSED_PREFIX"
  shows "view s' (marker_key i) = view s (marker_key i)"
proof (cases "to_vec c x")
  case (Inr b)
  with assms(2) obtain r' where "kv_put ops s k b = (r', s')" by (auto simp: put_json_def split: prod.splits)
  from put_keeps_marks [OF assms(1) this assms(3,4)] show ?thesis .
qed (use assms(2) in \<open>simp add: put_json_def\<close>)

lemma on_meta_marks:
  assumes "on_meta context run w k = (r, w')"
    and "\<And>x s. run = (x, s) \<Longrightarrow> \<forall>i. view s (marker_key i) = view (w_meta w) (marker_key i)"
    and "\<And>x v. k x v = (r, w') \<Longrightarrow> marks_kept view v w'"
  shows "marks_kept view w w'"
proof -
  obtain x s where run: "run = (x, s)" by (cases run)
  have s: "marks_kept view w (w\<lparr>w_meta := s\<rparr>)" using assms(2) [OF run] by (simp add: marks_kept_def)
  show ?thesis
  proof (cases x)
    case (Inl e)
    with assms(1) run have "w' = w\<lparr>w_meta := s\<rparr>" by (simp add: on_meta_def)
    with s show ?thesis by simp
  next
    case (Inr y)
    with assms(1) run have "k y (w\<lparr>w_meta := s\<rparr>) = (r, w')" by (simp add: on_meta_def)
    from marks_kept_trans [OF s assms(3) [OF this]] show ?thesis .
  qed
qed

lemma update_sent_marks:
  assumes at: "kv_atomic ops view" and run: "update_sent_request_status ops c s target rid st = (r, s')"
  shows "view s' (marker_key i) = view s (marker_key i)"
proof (cases "s' = s")
  case False
  with run obtain entries key old r' where scan: "kv_scan_prefix ops s CONN_SENT_PREFIX = Inr entries"
    and found: "find_pending_sent c target rid entries = Some (key, old)"
    and put: "put_json ''Failed to serialize: '' ''Failed to update: '' ops c s key (old\<lparr>ls_status := st\<rparr>) = (r', s')"
    by (auto simp: update_sent_request_status_def Let_def map_err_def split: sum.splits option.splits prod.splits)
  have "prefix CONN_SENT_PREFIX key"
    using find_pending_sent_Some [OF found] kv_store.scan_ok [OF kv_atomic.axioms(1) [OF at] scan] by blast
  from put_json_keeps_marks [OF at put this marker_apart(2)] show ?thesis .
qed simp

lemma update_async_marks:
  assumes at: "kv_atomic ops view" and run: "update_async_query_result ops c now s rid results err = (r, s')"
  shows "view s' (marker_key i) = view s (marker_key i)"
proof (cases "s' = s")
  case False
  with run obtain q where
    "put_json ''Failed to serialize async query: '' ''Failed to save async query: '' ops c s (ASYNC_QUERY_PREFIX @ rid) q = (r, s')"
    by (auto simp: update_async_query_result_def Let_def split: sum.splits)
  from put_json_keeps_marks [OF at this _ marker_apart(3)] show ?thesis by simp
qed simp

lemma handle_request_marks:
  assumes "kv_atomic (in_ops env) view" "handle_request env msg p w = (r, w')"
  shows "marks_kept view w w'"
  using assms(2) unfolding handle_request_def Let_def
  by (rule on_meta_marks)
    (auto simp: save_received_request_def dest: put_json_keeps_marks [OF assms(1) _ _ marker_apart(1)])

lemma handle_decline_marks:
  assumes "kv_atomic (in_ops env) view" "handle_decline env p w = (r, w')"
  shows "marks_kept view w w'"
  using assms(2) unfolding handle_decline_def
  by (rule on_meta_marks) (auto dest: update_sent_marks [OF assms(1)])

lemma handle_accept_marks:
  assumes "kv_atomic (in_ops env) view" "handle_accept env dr p w = (r, w')"
  shows "marks_kept view w w'"
  using assms(2) unfolding handle_accept_def
  by (rule on_meta_marks)
    (auto simp: Let_def dest: update_sent_marks [OF assms(1)] split: if_splits prod.splits sum.splits)

lemma send_reply_meta:
  "send_reply env dr mk c resp f a b e k s w = (r, w') \<Longrightarrow> w_meta w' = w_meta w \<and> w_db w' = w_db w"
  by (auto simp: send_reply_def Let_def split: sum.splits if_splits prod.splits)

lemma with_reply_key_meta:
  assumes "with_reply_key env mk w k = (r, w')" "\<And>pk. k pk = (r, w') \<Longrightarrow> w_meta w' = w_meta w"
  shows "w_meta w' = w_meta w"
  using assms by (auto simp: with_reply_key_def split: option.splits)

lemma update_known_marks:
  assumes "kv_atomic (in_ops env) view" "update_known_query env dr rid u res c1 err c2 w = (r, w')"
  shows "marks_kept view w w'"
proof -
  consider "w' = w"
    | x where "on_meta c2 (update_async_query_result (in_ops env) (async_codec env) (dr_now dr) (w_meta w) rid x err) w
        (\<lambda>_ w. (Inr Handled, w)) = (r, w')"
    using assms(2) by (auto simp: update_known_query_def split: sum.splits option.splits)
  then show ?thesis
  proof cases
    case 2
    then show ?thesis by (rule on_meta_marks) (auto dest: update_async_marks [OF assms(1)])
  qed simp
qed

lemma identity_card_marks:
  assumes "kv_atomic (in_ops env) view" "handle_incoming_identity_card env dr p w = (r, w')"
  shows "marks_kept view w w'"
proof (cases "w' = w")
  case False
  then show ?thesis
    using assms(2) unfolding handle_incoming_identity_card_def Let_def
    by (auto elim!: on_meta_marks simp: save_received_card_def
        dest: put_json_keeps_marks [OF assms(1) _ _ marker_apart(4)] split: if_splits)
qed simp

lemma find_referral_Some:
  "find_referral c q entries = Some (key, req) \<Longrightarrow>
     \<exists>b. (key, b) \<in> set entries \<and> from_slice c b = Inr req \<and> lr_referral_query_id req = Some q"
  by (induction c q entries rule: find_referral.induct) (auto split: sum.splits if_splits)

lemma referral_response_marks:
  assumes at: "kv_atomic (in_ops env) view" and run: "handle_incoming_referral_response env dr p w = (r, w')"
  shows "marks_kept view w w'"
proof (cases "w' = w")
  case False
  with run obtain entries key req b where
    scan: "kv_scan_prefix (in_ops env) (w_meta w) ''discovery:conn_req:'' = Inr entries"
    and found: "find_referral (req_codec env) (rr_query_id p) entries = Some (key, req)"
    and put: "on_meta ''save vouched connection request'' (kv_put (in_ops env) (w_meta w) key b) w (\<lambda>_ w. (Inr Handled, w)) = (r, w')"
    by (auto simp: handle_incoming_referral_response_def Let_def handler_err_def map_err_def split: sum.splits option.splits prod.splits)
  have "prefix ''discovery:conn_req:'' key"
    using find_referral_Some [OF found] kv_store.scan_ok [OF kv_atomic.axioms(1) [OF at] scan] by blast
  with put show ?thesis
    by (elim on_meta_marks) (auto dest: put_keeps_marks [OF at _ _ marker_apart(6)])
qed simp

lemma share_record_meta: "share_record env sender rec w = (r, w') \<Longrightarrow> w_meta w' = w_meta w"
  by (auto simp: share_record_def Let_def split: prod.splits sum.splits option.splits)

lemma share_records_meta: "share_records env sender recs w = (r, w') \<Longrightarrow> w_meta w' = w_meta w"
proof (induction recs arbitrary: w)
  case (Cons x xs)
  obtain q v where v: "share_record env sender x w = (q, v)" by (cases "share_record env sender x w")
  with Cons share_record_meta [OF v] show ?case by (cases q) auto
qed simp

lemma data_share_marks:
  assumes at: "kv_atomic (in_ops env) view" and run: "process_data_share env dr p w = (r, w')"
  shows "marks_kept view w w'"
proof -
  obtain q v where v: "share_records env (ds_sender_public_key p) (ds_records p) w = (q, v)"
    by (cases "share_records env (ds_sender_public_key p) (ds_records p) w")
  have m: "w_meta v = w_meta w" by (rule share_records_meta [OF v])
  show ?thesis
  proof (cases "w' = v")
    case False
    let ?k = "''notification:'' @ show_millis (dr_now_millis dr) @ '':'' @ dr_uuid dr"
    from False run v obtain b where b: "to_vec (note_codec env) (share_notification (dr_now dr) p) = Inr b"
      by (cases q; cases "to_vec (note_codec env) (share_notification (dr_now dr) p)") (simp_all add: process_data_share_def)
    obtain x s where put: "kv_put (in_ops env) (w_meta v) ?k b = (x, s)" by (cases "kv_put (in_ops env) (w_meta v) ?k b")
    from False run v b put have "w' = v\<lparr>w_meta := s\<rparr>" by (cases q) (simp_all add: process_data_share_def)
    with put_keeps_marks [OF at put _ marker_apart(5)] m show ?thesis by (simp add: marks_kept_def)
  qed (simp add: m)
qed

lemma handle_data_share_marks:
  assumes "kv_atomic (in_ops env) view" "handle_data_share env dr p w = (r, w')"
  shows "marks_kept view w w'"
  using assms(2) data_share_marks [OF assms(1)]
  by (auto simp: handle_data_share_def Let_def split: data_share_authz.splits sum.splits data_share_schema_check.splits prod.splits)

lemma share_invite_meta: "handle_incoming_share_invite env mk msg p w = (r, w') \<Longrightarrow> w_meta w' = w_meta w"
  by (auto simp: handle_incoming_share_invite_def split: sum.splits option.splits prod.splits)

lemma incoming_query_meta: "handle_incoming_query env dr mk p w = (r, w') \<Longrightarrow> w_meta w' = w_meta w"
  unfolding handle_incoming_query_def Let_def case_prod_beta
  by (erule with_reply_key_meta) (auto dest: send_reply_meta)

lemma schema_list_request_meta: "handle_incoming_schema_list_request env dr mk p w = (r, w') \<Longrightarrow> w_meta w' = w_meta w"
  by (auto simp: handle_incoming_schema_list_request_def elim!: with_reply_key_meta dest: send_reply_meta split: sum.splits)

lemma referral_query_meta: "handle_incoming_referral_query env dr mk p w = (r, w') \<Longrightarrow> w_meta w' = w_meta w"
  by (auto simp: handle_incoming_referral_query_def Let_def elim!: with_reply_key_meta dest: send_reply_meta split: option.splits)

lemma parsed_marks:
  assumes "parsed what q w k = (r, w')" "\<And>p. k p = (r, w') \<Longrightarrow> marks_kept view w w'"
  shows "marks_kept view w w'"
  using assms by (auto simp: parsed_def split: sum.splits)

lemma dispatch_marks:
  assumes at: "kv_atomic (in_ops env) view" and run: "dispatch_decrypted_message env dr mk msg raw w = (r, w')"
  shows "marks_kept view w w'"
  using run unfolding dispatch_decrypted_message_def Let_def
  by (auto elim!: parsed_marks intro: handle_request_marks [OF at] handle_accept_marks [OF at] handle_decline_marks [OF at]
      marks_kept_same [OF incoming_query_meta] update_known_marks [OF at] marks_kept_same [OF schema_list_request_meta]
      handle_data_share_marks [OF at] marks_kept_same [OF share_invite_meta] marks_kept_same [OF referral_query_meta]
      referral_response_marks [OF at] identity_card_marks [OF at]
      simp: handle_incoming_query_response_def handle_incoming_schema_list_response_def split: if_splits)

section \<open>Once and only once\<close>

definition marked :: "('s \<Rightarrow> string \<Rightarrow> 'b option) \<Rightarrow> ('s, 'd, 'n) world \<Rightarrow> string \<Rightarrow> bool" where
  "marked view w i \<longleftrightarrow> view (w_meta w) (marker_key i) \<noteq> None"

definition opens :: "('s, 'b, 'd, 'c, 'n, 'sk) inbound_env \<Rightarrow> bytes \<Rightarrow> encrypted_message \<Rightarrow> bool" where
  "opens env mk msg \<longleftrightarrow> open_message env mk msg \<noteq> None"

lemma marker_key_inject [simp]: "marker_key i = marker_key j \<longleftrightarrow> i = j"
  by (simp add: marker_key_def)

lemma marked_kept: "marks_kept view w w' \<Longrightarrow> marked view w' i = marked view w i"
  by (simp add: marked_def marks_kept_def)

lemma mark_processed_cases:
  assumes at: "kv_atomic (in_ops env) view" and run: "mark_processed env t i (errs, v) = (errs', w')"
  shows "(errs' = errs \<and> view (w_meta w') = (view (w_meta v))(marker_key i \<mapsto> of_bytes env (encode_marker_timestamp t))) \<or>
    ((\<exists>e. errs' = errs @ [(i, e)]) \<and> marks_kept view v w')"
proof -
  obtain r s where put: "kv_put (in_ops env) (w_meta v) (marker_key i) (of_bytes env (encode_marker_timestamp t)) = (r, s)"
    by (cases "kv_put (in_ops env) (w_meta v) (marker_key i) (of_bytes env (encode_marker_timestamp t))")
  show ?thesis
  proof (cases r)
    case (Inl e)
    with run put kv_atomic.put_fail [OF at put [unfolded Inl]] show ?thesis
      by (auto simp: mark_processed_def marks_kept_def)
  next
    case (Inr u)
    with run put kv_store.put_ok [OF kv_atomic.axioms(1) [OF at] put [unfolded Inr]] show ?thesis
      by (auto simp: mark_processed_def)
  qed
qed

text \<open>The outcomes of one turn of the loop.\<close>

lemma process_message_cases:
  assumes at: "kv_atomic (in_ops env) view" and run: "process_message env draw mk msg (errs, w) = (errs', w')"
  obtains (closed) "\<not> opens env mk msg" "errs' = errs" "w' = w"
    | (seen) "opens env mk msg" "marked view w (em_message_id msg)" "errs' = errs" "w' = w"
    | (unread) e where "opens env mk msg" "errs' = errs @ [(em_message_id msg, e)]" "w' = w"
    | (failed) raw e where "open_message env mk msg = Some raw" "\<not> marked view w (em_message_id msg)"
        "dispatch_decrypted_message env (draw (em_message_id msg)) mk msg raw w = (Inl e, w')"
        "errs' = errs @ [(em_message_id msg, e)]"
    | (settled) raw out v where "open_message env mk msg = Some raw" "\<not> marked view w (em_message_id msg)"
        "dispatch_decrypted_message env (draw (em_message_id msg)) mk msg raw w = (Inr out, v)"
        "mark_processed env (dr_now_secs (draw (em_message_id msg))) (em_message_id msg) (errs, v) = (errs', w')"
proof -
  let ?i = "em_message_id msg"
  show thesis
  proof (cases "open_message env mk msg")
    case None
    with run closed show thesis by (simp add: process_message_def opens_def)
  next
    case (Some raw)
    then have op: "opens env mk msg" by (simp add: opens_def)
    consider e where "kv_get (in_ops env) (w_meta w) (marker_key ?i) = Inl e"
      | b where "kv_get (in_ops env) (w_meta w) (marker_key ?i) = Inr (Some b)"
      | "kv_get (in_ops env) (w_meta w) (marker_key ?i) = Inr None"
      by (metis not_None_eq obj_sumE)
    then show thesis
    proof cases
      case (1 e)
      with run Some have "errs' = errs @ [(?i, Internal (''dedup read failed: '' @ e))]" "w' = w"
        by (simp_all add: process_message_def)
      from unread [OF op this] show thesis .
    next
      case (2 b)
      with run Some have "errs' = errs" "w' = w" by (simp_all add: process_message_def)
      with seen [OF op] kv_store.get_ok [OF kv_atomic.axioms(1) [OF at] 2] show thesis
        by (metis marked_def not_Some_eq)
    next
      case 3
      then have fresh: "\<not> marked view w ?i"
        using kv_store.get_ok [OF kv_atomic.axioms(1) [OF at] 3] by (simp add: marked_def)
      obtain out v where d: "dispatch_decrypted_message env (draw ?i) mk msg raw w = (out, v)"
        by (cases "dispatch_decrypted_message env (draw ?i) mk msg raw w")
      with run Some 3 failed [OF Some fresh] settled [OF Some fresh] show thesis
        by (cases out) (simp_all add: process_message_def Let_def)
    qed
  qed
qed

lemma process_marks:
  assumes at: "kv_atomic (in_ops env) view" and run: "process_message env draw mk msg (errs, w) = (errs', w')"
    and m: "marked view w i"
  shows "marked view w' i"
  using at run
proof (cases rule: process_message_cases)
  case failed
  from marked_kept [OF dispatch_marks [OF at failed(3)]] m show ?thesis by simp
next
  case (settled raw out v)
  have "marked view v i" using marked_kept [OF dispatch_marks [OF at settled(3)]] m by simp
  with mark_processed_cases [OF at settled(4)] show ?thesis by (auto simp: marked_def marks_kept_def)
qed (use m in auto)

text \<open>A message already marked is not dispatched; one that fails is left unmarked, for the next poll.\<close>

lemma process_seen:
  assumes at: "kv_atomic (in_ops env) view" and run: "process_message env draw mk msg (errs, w) = (errs', w')"
    and m: "marked view w (em_message_id msg)"
  shows "w' = w"
  using at run by (cases rule: process_message_cases) (use m in auto)

lemma process_failed:
  assumes at: "kv_atomic (in_ops env) view" and run: "process_message env draw mk msg (errs, w) = (errs', w')"
    and "open_message env mk msg = Some raw" "kv_get (in_ops env) (w_meta w) (marker_key (em_message_id msg)) = Inr None"
    and "dispatch_decrypted_message env (draw (em_message_id msg)) mk msg raw w = (Inl e, w1)"
  shows "\<not> marked view w' (em_message_id msg) \<and> errs' = errs @ [(em_message_id msg, e)]"
proof -
  from run assms(3-5) have "w' = w1" "errs' = errs @ [(em_message_id msg, e)]" by (simp_all add: process_message_def)
  moreover have "\<not> marked view w (em_message_id msg)"
    using kv_store.get_ok [OF kv_atomic.axioms(1) [OF at] assms(4)] by (simp add: marked_def)
  ultimately show ?thesis using marked_kept [OF dispatch_marks [OF at assms(5)]] by simp
qed

lemma process_errs: "\<exists>es. fst (process_message env draw mk msg (errs, w)) = errs @ es"
  by (auto simp: process_message_def mark_processed_def Let_def split: option.splits sum.splits prod.splits)

lemma fold_process_errs: "\<exists>es. fst (fold (process_message env draw mk) msgs st) = fst st @ es"
proof (induction msgs arbitrary: st)
  case (Cons m ms)
  from process_errs [of env draw mk m "fst st" "snd st"] Cons.IH [of "process_message env draw mk m st"]
  show ?case by auto
qed simp

lemma process_clean:
  assumes at: "kv_atomic (in_ops env) view" and run: "process_message env draw mk msg (errs, w) = (errs, w')"
    and "opens env mk msg"
  shows "marked view w' (em_message_id msg)"
  using at run
proof (cases rule: process_message_cases)
  case (settled raw out v)
  with mark_processed_cases [OF at settled(4)] show ?thesis by (auto simp: marked_def)
qed (use assms(3) in auto)

text \<open>
  Repetitions do not matter: a poll without failures leaves the world that processing the
  first copy of each message alone leaves.
\<close>

lemma fold_process_dedup:
  assumes at: "kv_atomic (in_ops env) view"
    and "fst (fold (process_message env draw mk) msgs ([], w)) = []" "\<And>i. i \<in> S \<Longrightarrow> marked view w i"
  shows "fold (process_message env draw mk) msgs ([], w) =
     fold (process_message env draw mk) (dedup_by em_message_id S (filter (opens env mk) msgs)) ([], w)"
  using assms(2,3)
proof (induction msgs arbitrary: w S)
  case (Cons m ms)
  obtain errs w1 where step: "process_message env draw mk m ([], w) = (errs, w1)"
    by (cases "process_message env draw mk m ([], w)")
  have errs: "errs = []"
    using fold_process_errs [of env draw mk ms "(errs, w1)"] Cons.prems(1) step by auto
  note step = step [unfolded errs]
  have clean: "fst (fold (process_message env draw mk) ms ([], w1)) = []" using Cons.prems(1) step by simp
  show ?case
  proof (cases "opens env mk m")
    case False
    then have "w1 = w" using step by (simp add: process_message_def opens_def)
    with Cons.IH [OF clean] Cons.prems(2) step False show ?thesis by simp
  next
    case True
    show ?thesis
    proof (cases "em_message_id m \<in> S")
      case in_S: True
      then have "w1 = w" using process_seen [OF at step] Cons.prems(2) by simp
      with Cons.IH [OF clean] Cons.prems(2) step True in_S show ?thesis by simp
    next
      case out_S: False
      have "\<And>i. i \<in> insert (em_message_id m) S \<Longrightarrow> marked view w1 i"
        using process_clean [OF at step True] process_marks [OF at step] Cons.prems(2) by auto
      with Cons.IH [OF clean, of "insert (em_message_id m) S"] step True out_S show ?thesis by simp
    qed
  qed
qed simp

lemma fold_process_keeps_marks:
  assumes at: "kv_atomic (in_ops env) view"
  shows "marked view w i \<Longrightarrow> marked view (snd (fold (process_message env draw mk) msgs (errs, w))) i"
proof (induction msgs arbitrary: errs w)
  case (Cons x xs)
  obtain es v where s: "process_message env draw mk x (errs, w) = (es, v)" by (cases "process_message env draw mk x (errs, w)")
  from Cons.IH [OF process_marks [OF at s Cons.prems]] s show ?case by simp
qed simp

lemma fold_process_marks:
  assumes at: "kv_atomic (in_ops env) view" and "fst (fold (process_message env draw mk) msgs ([], w)) = []"
    and "m \<in> set msgs" "opens env mk m"
  shows "marked view (snd (fold (process_message env draw mk) msgs ([], w))) (em_message_id m)"
proof -
  show ?thesis using assms(2,3)
  proof (induction msgs arbitrary: w)
    case (Cons x xs)
    obtain errs w1 where step: "process_message env draw mk x ([], w) = (errs, w1)"
      by (cases "process_message env draw mk x ([], w)")
    have errs: "errs = []"
      using fold_process_errs [of env draw mk xs "(errs, w1)"] Cons.prems(1) step by auto
    note step = step [unfolded errs]
    have clean: "fst (fold (process_message env draw mk) xs ([], w1)) = []" using Cons.prems(1) step by simp
    show ?case
    proof (cases "m = x")
      case True
      with fold_process_keeps_marks [OF at process_clean [OF at step]] assms(4) step show ?thesis by simp
    next
      case False
      with Cons.IH [OF clean] Cons.prems(2) step show ?thesis by simp
    qed
  qed simp
qed

text \<open>No message that opens is lost: it ends marked, or among the reported failures.\<close>

lemma process_settles:
  assumes at: "kv_atomic (in_ops env) view" and run: "process_message env draw mk msg (errs, w) = (errs', w')"
    and "opens env mk msg"
  shows "marked view w' (em_message_id msg) \<or> em_message_id msg \<in> fst ` set errs'"
  using at run
proof (cases rule: process_message_cases)
  case (settled raw out v)
  with mark_processed_cases [OF at settled(4)] show ?thesis by (auto simp: marked_def)
qed (use assms(3) in auto)

lemma fold_process_settles:
  assumes at: "kv_atomic (in_ops env) view" and "opens env mk msg"
  shows "msg \<in> set msgs \<Longrightarrow> fold (process_message env draw mk) msgs (errs, w) = (errs', w') \<Longrightarrow>
     marked view w' (em_message_id msg) \<or> em_message_id msg \<in> fst ` set errs'"
proof (induction msgs arbitrary: errs w)
  case (Cons x xs)
  obtain es v where s: "process_message env draw mk x (errs, w) = (es, v)" by (cases "process_message env draw mk x (errs, w)")
  show ?case
  proof (cases "msg \<in> set xs")
    case True
    with Cons.IH [OF True] Cons.prems(2) s show ?thesis by simp
  next
    case False
    with Cons.prems(1) have "marked view v (em_message_id msg) \<or> em_message_id msg \<in> fst ` set es"
      using process_settles [OF at s] assms(2) by simp
    moreover obtain more where "errs' = es @ more"
      using fold_process_errs [of env draw mk xs "(es, v)"] Cons.prems(2) s by auto
    moreover have "marked view v (em_message_id msg) \<Longrightarrow> marked view w' (em_message_id msg)"
      using fold_process_keeps_marks [OF at, of v "em_message_id msg" draw mk xs es] Cons.prems(2) s by simp
    ultimately show ?thesis by auto
  qed
qed simp

text \<open>A later poll that brings the same messages changes nothing.\<close>

lemma fold_process_idle:
  assumes at: "kv_atomic (in_ops env) view"
    and "\<And>m. m \<in> set msgs \<Longrightarrow> opens env mk m \<Longrightarrow> marked view w (em_message_id m)"
  shows "snd (fold (process_message env draw mk) msgs (errs, w)) = w"
  using assms(2)
proof (induction msgs arbitrary: errs)
  case (Cons m ms)
  obtain errs' w1 where step: "process_message env draw mk m (errs, w) = (errs', w1)"
    by (cases "process_message env draw mk m (errs, w)")
  have "w1 = w"
  proof (cases "opens env mk m")
    case True
    with process_seen [OF at step] Cons.prems show ?thesis by simp
  next
    case False
    with step show ?thesis by (simp add: process_message_def opens_def)
  qed
  with Cons.IH [of errs'] Cons.prems step show ?case by simp
qed simp

section \<open>Shared data\<close>

lemma check_schemas_ok: "check_schemas states rs = AllApproved \<longleftrightarrow> (\<forall>r \<in> set rs. states (sr_schema_name r) = Some Approved)"
  by (induction rs) auto

text \<open>Anything but a refusal needs an active contact and approved schemas only.\<close>

lemma data_share_guard:
  assumes run: "handle_data_share env dr p w = (r, w')" and changed: "w' \<noteq> w"
  shows "\<exists>book c states. load_contacts (contact_ops (in_db env)) (w_db w) = Inr book \<and>
     book (ds_sender_public_key p) = Some c \<and> \<not> revoked c \<and> schema_states env (w_db w) = Inr states \<and>
     (\<forall>rec \<in> set (ds_records p). states (sr_schema_name rec) = Some Approved)"
proof -
  let ?book = "or_default_book (load_contacts (contact_ops (in_db env)) (w_db w))"
  have auth: "authorize_data_share_sender ?book p = SenderAuthorized"
    using assms by (auto simp: handle_data_share_def split: data_share_authz.splits)
  with run changed obtain states where s: "schema_states env (w_db w) = Inr states"
    "validate_data_share_schemas states p = AllApproved"
    by (auto simp: handle_data_share_def handler_err_def map_err_def split: sum.splits data_share_schema_check.splits)
  from auth obtain c where c: "?book (ds_sender_public_key p) = Some c" "\<not> revoked c"
    by (auto simp: authorize_data_share_sender_def get_contact_def split: option.splits if_splits)
  then have "load_contacts (contact_ops (in_db env)) (w_db w) = Inr ?book"
    by (auto simp: or_default_book_def new_book_def split: sum.splits)
  with c s show ?thesis by (auto simp: validate_data_share_schemas_def check_schemas_ok)
qed

lemma data_share_refused:
  assumes "load_contacts (contact_ops (in_db env)) (w_db w) = Inr book"
    and "\<And>c. book (ds_sender_public_key p) = Some c \<Longrightarrow> revoked c"
  shows "\<exists>why. handle_data_share env dr p w = (Inr (Skipped why), w)"
  using assms
  by (cases "book (ds_sender_public_key p)")
    (auto simp: handle_data_share_def or_default_book_def authorize_data_share_sender_def get_contact_def)

text \<open>A contact book that cannot be read counts as an empty one: the share is skipped for good.\<close>

lemma data_share_book_unreadable:
  assumes "load_contacts (contact_ops (in_db env)) (w_db w) = Inl e"
  shows "handle_data_share env dr p w = (Inr (Skipped ''data_share from unknown sender''), w)"
  using assms by (simp add: handle_data_share_def or_default_book_def new_book_def authorize_data_share_sender_def get_contact_def)

section \<open>Identity cards\<close>

lemma identity_card_own_key:
  assumes "json_rows (in_ops env) view (card_codec env)"
    and run: "handle_incoming_identity_card env dr p w = (Inr Handled, w')"
  shows "json_get ''pub_key'' (im_card p) = Some (JStr (im_sender_public_key p)) \<or>
      im_sender_public_key p = [] \<and> Option.bind (json_get ''pub_key'' (im_card p)) as_str = None"
    and "\<exists>row. rows_at view (card_codec env) RECEIVED_CARD_PREFIX (w_meta w') =
      (rows_at view (card_codec env) RECEIVED_CARD_PREFIX (w_meta w))(im_message_id p \<mapsto> row) \<and>
      rc_status row = ''pending'' \<and> rc_sender_public_key row = im_sender_public_key p \<and> rc_card row = im_card p"
proof -
  have key: "unwrap_or [] (Option.bind (json_get ''pub_key'' (im_card p)) as_str) = im_sender_public_key p"
    using run by (auto simp: handle_incoming_identity_card_def Let_def split: if_splits)
  have str: "as_str j = Some x \<Longrightarrow> j = JStr x" for j x by (cases j) auto
  from key show "json_get ''pub_key'' (im_card p) = Some (JStr (im_sender_public_key p)) \<or>
      im_sender_public_key p = [] \<and> Option.bind (json_get ''pub_key'' (im_card p)) as_str = None"
    by (cases "json_get ''pub_key'' (im_card p)"; cases "Option.bind (json_get ''pub_key'' (im_card p)) as_str")
      (auto simp: unwrap_or_def dest: str)
  let ?row = "\<lparr>rc_message_id = im_message_id p, rc_card = im_card p, rc_sender_public_key = im_sender_public_key p,
     rc_sender_pseudonym = im_sender_pseudonym p, rc_status = ''pending'', rc_received_at = dr_now dr,
     rc_resolved_at = None, rc_accepted_identity_id = None, rc_error = None\<rparr>"
  from run key have "save_received_card (in_ops env) (card_codec env) (w_meta w) ?row = (Inr (), w_meta w')"
    by (auto simp: handle_incoming_identity_card_def Let_def on_meta_def handler_err_def split: prod.splits sum.splits)
  from json_rows.put_json_rows [OF assms(1) this [unfolded save_received_card_def]]
  show "\<exists>row. rows_at view (card_codec env) RECEIVED_CARD_PREFIX (w_meta w') =
      (rows_at view (card_codec env) RECEIVED_CARD_PREFIX (w_meta w))(im_message_id p \<mapsto> row) \<and>
      rc_status row = ''pending'' \<and> rc_sender_public_key row = im_sender_public_key p \<and> rc_card row = im_card p"
    by (intro exI [of _ ?row]) simp
qed

section \<open>Accepted connections\<close>

text \<open>What an acceptance does: the tier of the role, and an active contact.\<close>

lemma process_accepted_effect:
  assumes ts: "trust_store (in_db env) tiers cview rview"
    and run: "process_accepted_connection env t d p rn = (Inr u, d')"
  shows "\<exists>ident cfg d1 role c. cp_identity_card p = Some ident \<and>
     load_roles (map_order (in_db env)) (role_ops (in_db env)) d = (Inr cfg, d1) \<and> cfg rn = Some role \<and>
     tiers d' = (tiers d)(role_domain role := (tiers d (role_domain role))(icp_node_public_key ident \<mapsto> role_tier role)) \<and>
     stored_contacts cview d' (icp_node_public_key ident) = Some c \<and> \<not> revoked c"
proof -
  let ?db = "in_db env"
  from run obtain ident cfg d1 role d2 book where i: "cp_identity_card p = Some ident"
    and l: "load_roles (map_order ?db) (role_ops ?db) d = (Inr cfg, d1)" "cfg rn = Some role"
    and g: "grant_trust_for_domain ?db d1 (icp_node_public_key ident) (role_domain role) (role_tier role) = (Inr (), d2)"
    and b: "load_contacts (contact_ops ?db) d2 = Inr book"
    and s: "save_contacts (map_order ?db) (contact_ops ?db) d2
        (upsert_contact (from_discovery (icp_node_public_key ident) (icp_display_name ident)
           (icp_contact_hint ident) Outgoing t (Some (cp_sender_pseudonym p)) (Some (cp_reply_public_key p))
           (cp_identity_pseudonym p) (role_domain role) rn) book) = (Inr u, d')"
    by (auto simp: process_accepted_connection_def get_role_def handler_err_def Let_def
        split: option.splits sum.splits prod.splits)
  let ?new = "upsert_contact (from_discovery (icp_node_public_key ident) (icp_display_name ident)
     (icp_contact_hint ident) Outgoing t (Some (cp_sender_pseudonym p)) (Some (cp_reply_public_key p))
     (cp_identity_pseudonym p) (role_domain role) rn) book"
  from b have "finite (dom book)" by (auto simp: load_contacts_def res_bind_eq_Inr)
  then have "finite (dom ?new)" by (simp add: upsert_contact_def split: option.split)
  from save_contacts_stored [OF trust_store.contact_store [OF ts] trust_store.order [OF ts] this s]
  have "stored_contacts cview d' = stored_contacts cview d2 ++ ?new" .
  moreover obtain c where "?new (icp_node_public_key ident) = Some c" "\<not> revoked c"
    by (cases "book (icp_node_public_key ident)") (auto simp: upsert_contact_def from_discovery_def)
  ultimately have "stored_contacts cview d' (icp_node_public_key ident) = Some c \<and> \<not> revoked c" by simp
  moreover have "tiers d' = tiers d2" using trust_store.contacts_put_all [OF ts] s by (auto simp: save_contacts_def)
  ultimately show ?thesis
    using i l trust_store.grant_effect(1) [OF ts g] trust_store.load_roles_frame [OF ts l(1)] by auto
qed

lemma handle_accept_Handled:
  assumes "handle_accept env dr p w = (Inr Handled, w')" "cp_identity_card p = Some ident"
  obtains sent s where
    "update_sent_request_status (in_ops env) (sent_req_codec env) (w_meta w) (cp_sender_pseudonym p) (cp_request_id p)
       ''accepted'' = (Inr sent, s)"
    "process_accepted_connection env (dr_time dr) (w_db w) p (unwrap_or ''acquaintance'' (Option.bind sent ls_preferred_role))
       = (Inr (), w_db w')"
  using assms
  by (auto simp: handle_accept_def on_meta_def Let_def handler_err_def split: prod.splits sum.splits)

text \<open>
  The answer to a request is consumed by its first delivery: asked again for the same
  request, the table has no pending row left.
\<close>

lemma answer_consumed:
  assumes store: "json_rows ops view c" and rel: "kv_reliable ops view"
    and filed: "\<And>i r. rows_at view c CONN_SENT_PREFIX s i = Some r \<Longrightarrow> ls_request_id r = i"
    and first: "update_sent_request_status ops c s target (Some rid) st = (Inr (Some r), s1)" and st: "st \<noteq> ''pending''"
  shows "update_sent_request_status ops c s1 target' (Some rid) st' = (Inr None, s1)"
proof -
  obtain i old where old: "rows_at view c CONN_SENT_PREFIX s i = Some old" "sent_matches target (Some rid) old"
    "r = old\<lparr>ls_status := st\<rparr>" "rows_at view c CONN_SENT_PREFIX s1 = (rows_at view c CONN_SENT_PREFIX s)(i \<mapsto> r)"
    using update_sent_effect [OF store first] by blast
  have i: "i = rid" using filed [OF old(1)] old(2) by (simp add: sent_matches_def)
  obtain entries where scan: "kv_scan_prefix ops s1 CONN_SENT_PREFIX = Inr entries"
    using kv_reliable.scan_total [OF rel] by blast
  have "find_pending_sent c target' (Some rid) entries = None"
  proof (rule ccontr)
    assume "find_pending_sent c target' (Some rid) entries \<noteq> None"
    then obtain key req b where req: "(key, b) \<in> set entries" "from_slice c b = Inr req" "ls_status req = ''pending''"
      "ls_request_id req = rid"
      using find_pending_sent_Some [of c target' "Some rid" entries] by (auto simp: sent_matches_def)
    then obtain j where j: "rows_at view c CONN_SENT_PREFIX s1 j = Some req"
      using kv_store.scan_ok [OF json_rows.axioms(1) [OF store] scan] by (auto simp: prefix_def rows_at_Some)
    show False
    proof (cases "j = rid")
      case True
      with j old(3,4) i req(3) st show False by auto
    next
      case False
      with j old(4) i have "rows_at view c CONN_SENT_PREFIX s j = Some req" by simp
      from filed [OF this] req(4) False show False by simp
    qed
  qed
  with scan show ?thesis by (simp add: update_sent_request_status_def)
qed

section \<open>Answered requests\<close>

text \<open>
  What an answer does to the table of sent requests: \<open>sent\<close> is the pending request it answers,
  whose row takes the new status, or there is none and the table stays.
\<close>

definition request_answered ::
    "string \<Rightarrow> string option \<Rightarrow> string \<Rightarrow> local_sent_request option \<Rightarrow> (string \<Rightarrow> local_sent_request option)
     \<Rightarrow> (string \<Rightarrow> local_sent_request option) \<Rightarrow> bool" where
  "request_answered target rid st sent tab tab' \<longleftrightarrow>
     (case sent of
        None \<Rightarrow> tab' = tab \<and> (\<forall>i r. tab i = Some r \<longrightarrow> ls_status r = ''pending'' \<longrightarrow> \<not> sent_matches target rid r)
      | Some req \<Rightarrow> (\<exists>i. tab i = Some req \<and> ls_status req = ''pending'' \<and> sent_matches target rid req \<and>
          tab' = tab(i \<mapsto> req\<lparr>ls_status := st\<rparr>)))"

lemma update_sent_answers:
  assumes store: "json_rows ops view c" and run: "update_sent_request_status ops c s target rid st = (Inr q, s')"
  shows "\<exists>sent. request_answered target rid st sent (rows_at view c CONN_SENT_PREFIX s) (rows_at view c CONN_SENT_PREFIX s') \<and>
     Option.bind q ls_preferred_role = Option.bind sent ls_preferred_role"
proof (cases q)
  case None
  have "s' = s"
    using run unfolding None
    by (auto simp: update_sent_request_status_def Let_def map_err_def split: sum.splits option.splits prod.splits)
  with update_sent_none [OF store run [unfolded None]] None show ?thesis
    by (intro exI [of _ None]) (simp add: request_answered_def)
next
  case (Some r)
  with update_sent_effect [OF store run [unfolded Some]] obtain i old where
    "rows_at view c CONN_SENT_PREFIX s i = Some old" "ls_status old = ''pending''" "sent_matches target rid old"
    "r = old\<lparr>ls_status := st\<rparr>" "rows_at view c CONN_SENT_PREFIX s' = (rows_at view c CONN_SENT_PREFIX s)(i \<mapsto> r)" by blast
  with Some show ?thesis by (intro exI [of _ "Some old"]) (auto simp: request_answered_def)
qed

end
