(* ===== verification/Mem_Inbound.thy ===== *)
theory Mem_Inbound
  imports Inbound_Correct
begin

text \<open>
  An instance of the parameters of the inbound pipeline: the in-memory stores, plain
  cryptography, a network that records what is sent, and parsers that return given
  payloads. It shows that the hypotheses of the theorems about the pipeline can be met.
\<close>

datatype inbound_bytes =
    Req_Bytes local_connection_request | Sent_Bytes local_sent_request | Async_Bytes local_async_query
  | Card_Bytes local_received_card | Note_Bytes json | Marker_Bytes "8 word list"

definition mem_inbound ::
    "json \<Rightarrow> connection_payload \<Rightarrow> data_share_payload
     \<Rightarrow> ((string \<times> inbound_bytes) list, inbound_bytes, mem_trust, unit, (bytes \<times> string) list, bytes) inbound_env" where
  "mem_inbound raw conn share = \<lparr>
     in_ops = mem_ops, in_db = mem_trust_db, show_schema = (\<lambda>_. ''schema error''),
     req_codec = \<lparr>to_vec = (\<lambda>x. Inr (Req_Bytes x)), from_slice = (\<lambda>b. case b of Req_Bytes x \<Rightarrow> Inr x | _ \<Rightarrow> Inl ''bad'')\<rparr>,
     sent_req_codec = \<lparr>to_vec = (\<lambda>x. Inr (Sent_Bytes x)), from_slice = (\<lambda>b. case b of Sent_Bytes x \<Rightarrow> Inr x | _ \<Rightarrow> Inl ''bad'')\<rparr>,
     async_codec = \<lparr>to_vec = (\<lambda>x. Inr (Async_Bytes x)), from_slice = (\<lambda>b. case b of Async_Bytes x \<Rightarrow> Inr x | _ \<Rightarrow> Inl ''bad'')\<rparr>,
     card_codec = \<lparr>to_vec = (\<lambda>x. Inr (Card_Bytes x)), from_slice = (\<lambda>b. case b of Card_Bytes x \<Rightarrow> Inr x | _ \<Rightarrow> Inl ''bad'')\<rparr>,
     note_codec = \<lparr>to_vec = (\<lambda>x. Inr (Note_Bytes x)), from_slice = (\<lambda>b. case b of Note_Bytes x \<Rightarrow> Inr x | _ \<Rightarrow> Inl ''bad'')\<rparr>,
     of_bytes = Marker_Bytes, bytes_of = (\<lambda>b. case b of Marker_Bytes x \<Rightarrow> x | _ \<Rightarrow> []),
     box = plain_box,
     value_codec = \<lparr>to_vec = (\<lambda>_. Inl ''unsupported''), from_slice = (\<lambda>_. Inr raw)\<rparr>,
     query_response_codec = \<lparr>to_vec = (\<lambda>_. Inr []), from_slice = (\<lambda>_. Inl ''unsupported'')\<rparr>,
     schema_response_codec = \<lparr>to_vec = (\<lambda>_. Inr []), from_slice = (\<lambda>_. Inl ''unsupported'')\<rparr>,
     referral_response_codec = \<lparr>to_vec = (\<lambda>_. Inr []), from_slice = (\<lambda>_. Inl ''unsupported'')\<rparr>,
     parse_uuid = (\<lambda>s. Inr (as_bytes s)), show_uuid = (\<lambda>_. ''us''),
     b64_dec = (\<lambda>s. Inr (as_bytes s @ replicate 60 0)), b64_enc = (\<lambda>_. ''blob''),
     content_hash = as_bytes, derive_pseudonym = (\<lambda>k h. k @ h),
     parse_connection = (\<lambda>_. Inr conn),
     parse_query_request = (\<lambda>_. Inl ''bad''), parse_query_response = (\<lambda>_. Inl ''bad''),
     parse_schema_request = (\<lambda>_. Inl ''bad''), parse_schema_response = (\<lambda>_. Inl ''bad''),
     parse_data_share = (\<lambda>_. Inr share), parse_share_invite = (\<lambda>_. Inl ''bad''),
     parse_referral_query = (\<lambda>_. Inl ''bad''), parse_referral_response = (\<lambda>_. Inl ''bad''),
     parse_card_message = (\<lambda>_. Inl ''bad''), parse_byte_array = (\<lambda>_. Inl ''bad''),
     results_to_value = (\<lambda>rs. Inr (JArr rs)), schemas_to_value = (\<lambda>_. Inr JNull),
     run_query = (\<lambda>_ _ _ _. Inr []), schema_infos = (\<lambda>_. Inr []),
     schema_states = (\<lambda>d. Inr (map_of (map (\<lambda>(s, st). (sch_name s, st)) (mt_schemas d)))),
     write_mutation = (\<lambda>d _ _ _ user. (Inr (), d\<lparr>mt_log := mt_log d @ [(user, TrustRevoke ''write'')]\<rparr>)),
     index_faces = (\<lambda>d _ _ _. (Inr 0, d)), sled_pool = (\<lambda>_. Inr ()), store_pending_invite = (\<lambda>d _. (Inr (), d)),
     save_file = (\<lambda>n _ _. (Inr (), n)), connect = (\<lambda>n target blob _. (Inr (), n @ [(target, blob)]))\<rparr>"

lemma mem_inbound_simps [simp]:
  "in_ops (mem_inbound raw conn share) = mem_ops" "in_db (mem_inbound raw conn share) = mem_trust_db"
  "of_bytes (mem_inbound raw conn share) = Marker_Bytes"
  "contact_ops mem_trust_db = lift_ops mt_contacts (\<lambda>s d. d\<lparr>mt_contacts := s\<rparr>) mem_ops"
  "role_ops mem_trust_db = lift_ops mt_roles (\<lambda>s d. d\<lparr>mt_roles := s\<rparr>) mem_ops"
  by (simp_all add: mem_inbound_def mem_trust_db_def)

lemma mem_sent_rows: "json_rows mem_ops map_of (sent_req_codec (mem_inbound raw conn share))"
  by unfold_locales (auto simp: mem_inbound_def sound_codec_def codec_ok_def)

lemma mem_card_rows: "json_rows mem_ops map_of (card_codec (mem_inbound raw conn share))"
  by unfold_locales (auto simp: mem_inbound_def sound_codec_def codec_ok_def)

section \<open>Operations in memory do not fail\<close>

lemma lift_kv_reliable:
  assumes "kv_reliable ops view" "\<And>s d. part (upd s d) = s"
  shows "kv_reliable (lift_ops part upd ops) (\<lambda>d. view (part d))"
proof (rule kv_reliable.intro)
  show "kv_store (lift_ops part upd ops) (\<lambda>d. view (part d))"
    using assms by (intro lift_kv_store) (simp_all add: kv_reliable_def)
  show "kv_reliable_axioms (lift_ops part upd ops)"
  proof (rule kv_reliable_axioms.intro)
    fix d k v p
    show "\<exists>r. kv_get (lift_ops part upd ops) d k = Inr r"
      using kv_reliable.get_total [OF assms(1)] by (simp add: lift_ops_def)
    show "\<exists>d'. kv_put (lift_ops part upd ops) d k v = (Inr (), d')"
      using kv_reliable.put_total [OF assms(1), of "part d" k v] by (auto simp: lift_ops_def)
    show "\<exists>b d'. kv_delete (lift_ops part upd ops) d k = (Inr b, d')"
      using kv_reliable.delete_total [OF assms(1), of "part d" k] by (auto simp: lift_ops_def)
    show "\<exists>rows. kv_scan_prefix (lift_ops part upd ops) d p = Inr rows"
      using kv_reliable.scan_total [OF assms(1)] by (simp add: lift_ops_def)
  qed
qed

lemma mem_contacts_reliable: "kv_reliable (contact_ops mem_trust_db) (\<lambda>d. map_of (mt_contacts d))"
  and mem_roles_reliable: "kv_reliable (role_ops mem_trust_db) (\<lambda>d. map_of (mt_roles d))"
  by (auto intro!: lift_kv_reliable mem_kv_reliable)

lemma save_contacts_total:
  assumes "kv_reliable ops view"
  shows "\<exists>s'. save_contacts it ops s book = (Inr (), s')"
  using kv_reliable.put_all_total [OF profile_kv_reliable [OF assms]] by (simp add: save_contacts_def)

lemma load_contacts_total:
  assumes "kv_reliable ops view"
  shows "\<exists>book. load_contacts ops s = Inr book"
proof -
  obtain rows where "kv_scan_prefix (profile_ops ops) s CONTACTS_PREFIX = Inr rows"
    using kv_reliable.scan_total [OF profile_kv_reliable [OF assms]] by blast
  then show ?thesis by (simp add: load_contacts_def profile_ops_def)
qed

lemma load_roles_total:
  assumes "kv_reliable ops view"
  shows "\<exists>cfg s'. load_roles it ops s = (Inr cfg, s')"
proof -
  obtain rows where rows: "profile_scan ops s SHARING_ROLES_PREFIX = Inr rows"
    using kv_reliable.scan_total [OF profile_kv_reliable [OF assms], of s SHARING_ROLES_PREFIX] by (auto simp: profile_ops_def)
  obtain s' where "save_roles it ops s default_roles = (Inr (), s')"
    using kv_reliable.put_all_total [OF profile_kv_reliable [OF assms]] by (auto simp: save_roles_def)
  with rows show ?thesis by (auto simp: load_roles_def)
qed

text \<open>With no roles stored, the built-in ones are seeded, so every acceptance goes through.\<close>

lemma mem_accept_total:
  assumes "mt_roles d = []" "cp_identity_card p = Some ident" "rn \<in> dom default_roles"
  shows "\<exists>d'. process_accepted_connection (mem_inbound raw conn share) t d p rn = (Inr (), d')"
proof -
  obtain cfg d1 where l: "load_roles (map_order mem_trust_db) (role_ops mem_trust_db) d = (Inr cfg, d1)"
    using load_roles_total [OF mem_roles_reliable] by blast
  have "stored_roles (\<lambda>d. map_of (mt_roles d)) d = Map.empty"
    using assms(1) by (simp add: stored_roles_def [abs_def] profile_view_def)
  then have "cfg = default_roles"
    using load_roles_seeds [OF mem_trust.role_store mem_trust.order _ l] by blast
  with assms(3) obtain role where role: "cfg rn = Some role" by auto
  obtain d2 where g: "grant_trust_for_domain mem_trust_db d1 (icp_node_public_key ident) (role_domain role) (role_tier role) = (Inr (), d2)"
    by (simp add: grant_trust_for_domain_def mem_trust_db_def with_audit_def)
  obtain book where b: "load_contacts (contact_ops mem_trust_db) d2 = Inr book"
    using load_contacts_total [OF mem_contacts_reliable] by blast
  let ?new = "upsert_contact (from_discovery (icp_node_public_key ident) (icp_display_name ident)
     (icp_contact_hint ident) Outgoing t (Some (cp_sender_pseudonym p)) (Some (cp_reply_public_key p))
     (cp_identity_pseudonym p) (role_domain role) rn) book"
  obtain d3 where "save_contacts (map_order mem_trust_db) (contact_ops mem_trust_db) d2 ?new = (Inr (), d3)"
    using save_contacts_total [OF mem_contacts_reliable] by blast
  with l role g b assms(2) show ?thesis
    by (simp add: process_accepted_connection_def get_role_def handler_err_def Let_def del: mem_inbound_simps(4,5))
qed

lemma mem_inbound_atomic: "kv_atomic (in_ops (mem_inbound raw conn share)) map_of"
  by (simp add: mem.kv_atomic_axioms)

section \<open>Samples\<close>

definition no_connection :: connection_payload where
  "no_connection = \<lparr>cp_message_type = [], cp_message = [], cp_sender_public_key = [], cp_sender_pseudonym = [],
     cp_reply_public_key = [], cp_identity_card = None, cp_preferred_role = None, cp_network_keys = None,
     cp_request_id = None, cp_identity_pseudonym = None\<rparr>"

definition no_share :: data_share_payload where
  "no_share = \<lparr>ds_sender_public_key = ''pk'', ds_sender_display_name = ''Ann'', ds_records = []\<rparr>"

definition fixed_draws :: "bytes draws" where
  "fixed_draws = \<lparr>dr_now = ''now'', dr_now_secs = 1000, dr_now_millis = 0, dr_time = 0, dr_ephemeral = [], dr_nonce = [], dr_uuid = ''u''\<rparr>"

definition sample_message :: encrypted_message where
  "sample_message = \<lparr>em_message_id = ''m1'', em_encrypted_blob = ''x'', em_target_pseudonym = ''t'', em_sender_pseudonym = None,
     em_created_at = ''now''\<rparr>"

definition empty_trust :: mem_trust where
  "empty_trust = \<lparr>mt_maps = [], mt_contacts = [], mt_roles = [], mt_schemas = [], mt_log = []\<rparr>"

definition empty_world :: "((string \<times> inbound_bytes) list, mem_trust, (bytes \<times> string) list) world" where
  "empty_world = \<lparr>w_meta = [], w_db = empty_trust, w_out = []\<rparr>"

lemma sample_open: "open_message (mem_inbound raw conn share) mk sample_message = Some raw"
  by (simp add: open_message_def mem_inbound_def derive_pseudonym_keypair_def plain_box_def decrypt_message_raw_def
      deserialize_from_slice_def Let_def)

lemma sample_opens: "opens (mem_inbound raw conn share) mk sample_message"
  by (simp add: opens_def sample_open)

text \<open>A message without a type is skipped for good, and marked.\<close>

lemma untyped_skipped:
  "dispatch_decrypted_message env dr mk msg JNull w = (Inr (Skipped (''unknown message_type '' @ quoted [])), w)"
  by (simp add: dispatch_decrypted_message_def unwrap_or_def)

lemma sample_step:
  "process_message (mem_inbound JNull conn share) (\<lambda>_. fixed_draws) mk sample_message (errs, empty_world) =
     (errs, empty_world\<lparr>w_meta := [(marker_key ''m1'', Marker_Bytes (encode_marker_timestamp 1000))]\<rparr>)"
proof -
  have none: "w_meta empty_world = []" by (simp add: empty_world_def)
  have "process_message (mem_inbound JNull conn share) (\<lambda>_. fixed_draws) mk sample_message (errs, empty_world) =
      mark_processed (mem_inbound JNull conn share) (dr_now_secs fixed_draws) (em_message_id sample_message) (errs, empty_world)"
    by (simp add: process_message_def sample_open untyped_skipped none Let_def)
  then show ?thesis
    by (simp add: mark_processed_def none) (simp add: empty_world_def sample_message_def fixed_draws_def)
qed

lemma sample_poll:
  "\<exists>w'. process_messages (mem_inbound JNull conn share) (\<lambda>_. fixed_draws) mk [sample_message, sample_message] empty_world = ([], w') \<and>
     marked map_of w' (em_message_id sample_message)"
proof -
  let ?w = "empty_world\<lparr>w_meta := [(marker_key ''m1'', Marker_Bytes (encode_marker_timestamp 1000))]\<rparr>"
  have "process_message (mem_inbound JNull conn share) (\<lambda>_. fixed_draws) mk sample_message ([], ?w) = ([], ?w)"
    by (simp add: process_message_def sample_open Let_def) (simp add: sample_message_def)
  then show ?thesis by (simp add: process_messages_def sample_step marked_def) (simp add: sample_message_def)
qed

text \<open>A sent request that is answered, with the role it asked for.\<close>

definition accept_json :: json where
  "accept_json = JObj [(''message_type'', JStr ''accept'')]"

definition sample_ident :: identity_card_payload where
  "sample_ident = \<lparr>icp_display_name = ''Ann'', icp_contact_hint = None, icp_node_public_key = ''pk''\<rparr>"

definition sample_accept :: connection_payload where
  "sample_accept = no_connection\<lparr>cp_message_type := ''accept'', cp_sender_pseudonym := ''ann'', cp_request_id := Some ''rq'',
     cp_identity_card := Some sample_ident\<rparr>"

definition sample_sent :: "string \<Rightarrow> local_sent_request" where
  "sample_sent rn = \<lparr>ls_request_id = ''rq'', ls_target_pseudonym = ''ann'', ls_sender_pseudonym = ''us'', ls_message = [],
     ls_status = ''pending'', ls_created_at = ''now'', ls_preferred_role = Some rn\<rparr>"

definition role_world :: "string \<Rightarrow> ((string \<times> inbound_bytes) list, mem_trust, (bytes \<times> string) list) world" where
  "role_world rn = empty_world\<lparr>w_meta := [(CONN_SENT_PREFIX @ ''rq'', Sent_Bytes (sample_sent rn))]\<rparr>"

lemma sample_answered:
  "update_sent_request_status mem_ops (sent_req_codec (mem_inbound raw conn share)) (w_meta (role_world rn)) target (Some ''rq'') st =
     (Inr (Some ((sample_sent rn)\<lparr>ls_status := st\<rparr>)), [(CONN_SENT_PREFIX @ ''rq'', Sent_Bytes ((sample_sent rn)\<lparr>ls_status := st\<rparr>))])"
  by (simp add: update_sent_request_status_def role_world_def mem_inbound_def put_json_def Let_def sent_matches_def)
    (simp add: sample_sent_def)

lemma role_world_unmarked: "kv_get (in_ops (mem_inbound raw conn share)) (w_meta (role_world rn)) (marker_key i) = Inr None"
  by (simp add: role_world_def marker_key_def CONN_SENT_PREFIX_def MSG_PROCESSED_PREFIX_def)

lemma accept_dispatch:
  "dispatch_decrypted_message (mem_inbound raw conn share) dr mk msg accept_json w = handle_accept (mem_inbound raw conn share) dr conn w"
  by (simp add: dispatch_decrypted_message_def accept_json_def unwrap_or_def parsed_def) (simp add: mem_inbound_def)

lemma empty_roles: "\<exists>d'. load_roles (map_order mem_trust_db) (role_ops mem_trust_db) empty_trust = (Inr default_roles, d')"
proof -
  obtain cfg d1 where l: "load_roles (map_order mem_trust_db) (role_ops mem_trust_db) empty_trust = (Inr cfg, d1)"
    using load_roles_total [OF mem_roles_reliable] by blast
  have "stored_roles (\<lambda>d. map_of (mt_roles d)) empty_trust = Map.empty"
    by (simp add: stored_roles_def [abs_def] profile_view_def empty_trust_def)
  with load_roles_seeds [OF mem_trust.role_store mem_trust.order _ l] l show ?thesis by blast
qed

lemma process_accepted_unknown:
  assumes "load_roles (map_order (in_db env)) (role_ops (in_db env)) d = (Inr cfg, d1)" "cfg rn = None"
    and "cp_identity_card p = Some ident"
  shows "process_accepted_connection env t d p rn = (Inl (Internal (''Unknown role: '' @ rn)), d1)"
  using assms by (simp add: process_accepted_connection_def get_role_def)

lemma handle_accept_eq:
  assumes "update_sent_request_status (in_ops env) (sent_req_codec env) (w_meta w) (cp_sender_pseudonym p) (cp_request_id p)
      ''accepted'' = (Inr sent, s)" "cp_identity_card p = Some ident"
  shows "handle_accept env dr p w =
     (case process_accepted_connection env (dr_time dr) (w_db w) p (unwrap_or ''acquaintance'' (Option.bind sent ls_preferred_role)) of
        (Inl e, d) \<Rightarrow> (Inl (Internal (''process accepted connection: '' @ show_handler_error e)), w\<lparr>w_meta := s, w_db := d\<rparr>)
      | (Inr _, d) \<Rightarrow> (Inr Handled, w\<lparr>w_meta := s, w_db := d\<rparr>))"
  using assms by (simp add: handle_accept_def on_meta_def Let_def)

lemma accept_unknown_role:
  "\<exists>w1. dispatch_decrypted_message (mem_inbound accept_json sample_accept share) fixed_draws mk msg accept_json (role_world ''nobody'') =
     (Inl (Internal (''process accepted connection: '' @ show_handler_error (Internal (''Unknown role: '' @ ''nobody'')))), w1)"
proof -
  let ?env = "mem_inbound accept_json sample_accept share" and ?sent = "(sample_sent ''nobody'')\<lparr>ls_status := ''accepted''\<rparr>"
  obtain d' where l: "load_roles (map_order mem_trust_db) (role_ops mem_trust_db) empty_trust = (Inr default_roles, d')"
    using empty_roles by blast
  have none: "default_roles ''nobody'' = None" by (simp add: default_roles_def add_role_def)
  have db: "w_db (role_world ''nobody'') = empty_trust" by (simp add: role_world_def empty_world_def)
  have card: "cp_identity_card sample_accept = Some sample_ident" by (simp add: sample_accept_def)
  have rq: "cp_request_id sample_accept = Some ''rq''" by (simp add: sample_accept_def)
  have role: "unwrap_or ''acquaintance'' (Option.bind (Some ?sent) ls_preferred_role) = ''nobody''"
    by (simp add: unwrap_or_def sample_sent_def)
  have refused: "process_accepted_connection ?env t empty_trust sample_accept ''nobody'' =
      (Inl (Internal (''Unknown role: '' @ ''nobody'')), d')" for t
    using l none card by (intro process_accepted_unknown [of _ _ default_roles]) (simp_all only: mem_inbound_simps(2))
  have upd: "update_sent_request_status (in_ops ?env) (sent_req_codec ?env) (w_meta (role_world ''nobody''))
      (cp_sender_pseudonym sample_accept) (cp_request_id sample_accept) ''accepted'' =
      (Inr (Some ?sent), [(CONN_SENT_PREFIX @ ''rq'', Sent_Bytes ?sent)])"
    unfolding rq mem_inbound_simps(1) by (rule sample_answered)
  show ?thesis
    unfolding accept_dispatch handle_accept_eq [OF upd card] role db refused prod.case sum.case by blast
qed

lemma sample_accept_card: "cp_identity_card sample_accept = Some sample_ident"
  and sample_accept_rq: "cp_request_id sample_accept = Some ''rq''"
  by (simp_all add: sample_accept_def)

lemma role_world_filed:
  "rows_at map_of (sent_req_codec (mem_inbound raw conn share)) CONN_SENT_PREFIX (w_meta (role_world rn)) i = Some r \<Longrightarrow>
     ls_request_id r = i"
  by (auto simp: rows_at_Some role_world_def mem_inbound_def split: if_splits) (simp add: sample_sent_def)

lemma role_world_rows:
  "rows_at map_of (sent_req_codec (mem_inbound raw conn share)) CONN_SENT_PREFIX (w_meta (role_world rn)) = [''rq'' \<mapsto> sample_sent rn]"
proof
  fix i
  show "rows_at map_of (sent_req_codec (mem_inbound raw conn share)) CONN_SENT_PREFIX (w_meta (role_world rn)) i =
      [''rq'' \<mapsto> sample_sent rn] i"
    by (simp add: rows_at_def role_world_def) (simp add: mem_inbound_def)
qed

lemma sample_request_answered:
  assumes "request_answered target (Some ''rq'') st sent
      (rows_at map_of (sent_req_codec (mem_inbound raw conn share)) CONN_SENT_PREFIX (w_meta (role_world rn))) tab'"
  shows "sent = Some (sample_sent rn)" "tab' ''rq'' = Some ((sample_sent rn)\<lparr>ls_status := st\<rparr>)"
proof -
  have m: "ls_status (sample_sent rn) = ''pending''" "sent_matches target (Some ''rq'') (sample_sent rn)"
    by (simp_all add: sample_sent_def sent_matches_def)
  from assms m show "sent = Some (sample_sent rn)" "tab' ''rq'' = Some ((sample_sent rn)\<lparr>ls_status := st\<rparr>)"
    unfolding role_world_rows request_answered_def by (auto split: option.splits if_splits)
qed

lemma role_world_roles:
  assumes "load_roles (map_order mem_trust_db) (role_ops mem_trust_db) (w_db (role_world rn)) = (Inr cfg, d1)"
  shows "cfg = default_roles"
  using assms empty_roles by (auto simp: role_world_def empty_world_def simp del: mem_inbound_simps(5))

lemma role_accepted:
  assumes "mt_roles (w_db w) = []" "rn \<in> dom default_roles" "unwrap_or ''acquaintance'' (Option.bind sent ls_preferred_role) = rn"
    and "update_sent_request_status mem_ops (sent_req_codec (mem_inbound accept_json sample_accept share)) (w_meta w)
      (cp_sender_pseudonym sample_accept) (cp_request_id sample_accept) ''accepted'' = (Inr sent, s)"
  shows "\<exists>w'. handle_accept (mem_inbound accept_json sample_accept share) dr sample_accept w = (Inr Handled, w')"
proof -
  let ?env = "mem_inbound accept_json sample_accept share"
  obtain d' where d: "process_accepted_connection ?env (dr_time dr) (w_db w) sample_accept rn = (Inr (), d')"
    using mem_accept_total [OF assms(1) sample_accept_card assms(2)] by blast
  have "update_sent_request_status (in_ops ?env) (sent_req_codec ?env) (w_meta w)
      (cp_sender_pseudonym sample_accept) (cp_request_id sample_accept) ''accepted'' = (Inr sent, s)"
    unfolding mem_inbound_simps(1) by (rule assms(4))
  from handle_accept_eq [OF this sample_accept_card, of dr] show ?thesis
    unfolding assms(3) d prod.case sum.case by blast
qed

lemma friend_accepted:
  "\<exists>w'. handle_accept (mem_inbound accept_json sample_accept share) dr sample_accept (role_world ''friend'') = (Inr Handled, w')"
  using sample_answered [of accept_json sample_accept share "''friend''" "cp_sender_pseudonym sample_accept" "''accepted''"]
  by (intro role_accepted [where sent = "Some ((sample_sent ''friend'')\<lparr>ls_status := ''accepted''\<rparr>)"])
    (simp_all add: role_world_def empty_world_def empty_trust_def dom_default_roles sample_accept_rq unwrap_or_def sample_sent_def)

lemma unknown_accepted:
  "\<exists>w'. handle_accept (mem_inbound accept_json sample_accept share) dr sample_accept empty_world = (Inr Handled, w')"
  by (rule role_accepted [where sent = None])
    (simp_all add: empty_world_def empty_trust_def dom_default_roles unwrap_or_def update_sent_request_status_def Let_def)

text \<open>A share from a known contact.\<close>

definition known_contact :: contact where
  "known_contact = \<lparr>public_key = ''pk'', display_name = ''Ann'', contact_hint = None, direction = Outgoing, connected_at = 0,
     pseudonym = None, messaging_pseudonym = None, messaging_public_key = None, identity_pseudonym = None, revoked = False,
     roles = Map.empty\<rparr>"

definition known_world :: "((string \<times> inbound_bytes) list, mem_trust, (bytes \<times> string) list) world" where
  "known_world = empty_world\<lparr>w_db := empty_trust\<lparr>mt_contacts := [(profile_key (contact_key ''pk''), known_contact)]\<rparr>\<rparr>"

lemma no_share_key: "ds_sender_public_key no_share = ''pk''"
  by (simp add: no_share_def)

lemma known_book:
  "\<exists>book. load_contacts (contact_ops mem_trust_db) (w_db known_world) = Inr book \<and> book ''pk'' = Some known_contact"
proof -
  obtain book where b: "load_contacts (contact_ops mem_trust_db) (w_db known_world) = Inr book"
    using load_contacts_total [OF mem_contacts_reliable] by blast
  from load_contacts_eq [OF mem_trust.contact_store this]
  have "book ''pk'' = Some known_contact"
    by (simp add: stored_contacts_def profile_view_def known_world_def)
  with b show ?thesis by blast
qed

lemma known_share_handled:
  "\<exists>w'. handle_data_share (mem_inbound raw conn no_share) dr no_share known_world = (Inr Handled, w') \<and> w' \<noteq> known_world"
proof -
  let ?env = "mem_inbound raw conn no_share"
  obtain book where b: "load_contacts (contact_ops (in_db ?env)) (w_db known_world) = Inr book" "book ''pk'' = Some known_contact"
    using known_book unfolding mem_inbound_simps(2) by blast
  have "authorize_data_share_sender book no_share = SenderAuthorized"
    using b(2) by (simp add: authorize_data_share_sender_def get_contact_def no_share_key) (simp add: known_contact_def)
  moreover have "\<exists>states. schema_states ?env (w_db known_world) = Inr states" by (simp add: mem_inbound_def)
  moreover have "validate_data_share_schemas states no_share = AllApproved" for states
    by (simp add: validate_data_share_schemas_def no_share_def)
  moreover have "\<exists>w'. process_data_share ?env dr no_share known_world = (Inr (), w') \<and> w' \<noteq> known_world"
    by (simp add: process_data_share_def no_share_def handler_err_def) (simp add: mem_inbound_def known_world_def empty_world_def)
  ultimately show ?thesis
    using b(1) by (auto simp: handle_data_share_def or_default_book_def handler_err_def simp del: mem_inbound_simps)
qed

section \<open>Trust operations in memory do not fail\<close>

lemma mem_remove_total: "\<exists>d'. remove_role_from_contact mem_trust_db d user dm = (Inr (), d')"
proof -
  obtain d1 where d1: "revoke_trust_for_domain mem_trust_db d user dm = (Inr (), d1)"
    by (simp add: revoke_trust_for_domain_def with_audit_def mem_trust_db_def)
  obtain book where b: "load_contacts (contact_ops mem_trust_db) d1 = Inr book"
    using load_contacts_total [OF mem_contacts_reliable] by blast
  obtain d' where "save_contacts (map_order mem_trust_db) (contact_ops mem_trust_db) d1 (edited book user (\<lambda>rs. rs(dm := None))) = (Inr (), d')"
    using save_contacts_total [OF mem_contacts_reliable] by blast
  with d1 b show ?thesis
    by (simp add: remove_role_from_contact_def edit_contact_roles_def del: mem_inbound_simps)
qed

lemma mem_collect_total: "\<exists>t. collect_tiers mem_trust_db d user ds acc = Inr t"
  by (induction ds arbitrary: acc) (simp_all add: mem_trust_db_def)

lemma mem_tiers_total: "\<exists>t. domain_tiers_of mem_trust_db d user = Inr t"
  using mem_collect_total by (simp add: domain_tiers_of_def) (simp add: mem_trust_db_def)

lemma mem_context_total: "\<exists>cx. build_access_context mem_trust_db owner d caller = Inr cx"
proof -
  obtain t where "domain_tiers_of mem_trust_db d caller = Inr t" using mem_tiers_total by blast
  then show ?thesis by (simp add: build_access_context_def)
qed

lemma mem_audit_total: "\<exists>r. audit_contact_access mem_trust_db d user = Inr r"
proof -
  obtain t where t: "domain_tiers_of mem_trust_db d user = Inr t" using mem_tiers_total by blast
  obtain book where b: "load_contacts (contact_ops mem_trust_db) d = Inr book"
    using load_contacts_total [OF mem_contacts_reliable] by blast
  have "schemas_with_states mem_trust_db d = Inr (mt_schemas d)" by (simp add: mem_trust_db_def)
  with t b show ?thesis by (simp add: audit_contact_access_def Let_def del: mem_inbound_simps)
qed

definition sample_card :: local_received_card where
  "sample_card = \<lparr>rc_message_id = ''m'', rc_card = JNull, rc_sender_public_key = ''pk'', rc_sender_pseudonym = ''ann'',
     rc_status = ''accepted'', rc_received_at = ''now'', rc_resolved_at = None, rc_accepted_identity_id = None, rc_error = None\<rparr>"

end
