(* ===== verification/Inbound_Polls.thy ===== *)
theory Inbound_Polls
  imports Inbound_Correct
begin

text \<open>
  The turn of one message within a poll, and markers across polls: a message delivered once is
  dispatched and marked, or reported and left unmarked; a marker younger than the retention
  window stands through any number of polls, each with its pruning.
\<close>

section \<open>The turn of a message\<close>

text \<open>
  What the poll has to have done for a message it marks: dispatched it successfully in the world
  \<open>w\<close> its turn began in, and then added its marker, and that only.
\<close>

definition dispatched_and_marked ::
    "('s, 'b, 'd, 'c, 'n, 'sk) inbound_env \<Rightarrow> ('s \<Rightarrow> string \<Rightarrow> 'b option) \<Rightarrow> 'sk draws \<Rightarrow> bytes \<Rightarrow> encrypted_message
     \<Rightarrow> ('s, 'd, 'n) world \<Rightarrow> ('s, 'd, 'n) world \<Rightarrow> bool" where
  "dispatched_and_marked env view dr mk msg w w' \<longleftrightarrow>
     (\<exists>raw out v. open_message env mk msg = Some raw \<and> dispatch_decrypted_message env dr mk msg raw w = (Inr out, v) \<and>
        w_db w' = w_db v \<and> w_out w' = w_out v \<and>
        view (w_meta w') = (view (w_meta v))(marker_key (em_message_id msg) \<mapsto>
          of_bytes env (encode_marker_timestamp (dr_now_secs dr))))"

lemma mark_processed_rest:
  "mark_processed env t i (errs, v) = (errs', w') \<Longrightarrow> w_db w' = w_db v \<and> w_out w' = w_out v"
  by (auto simp: mark_processed_def split: prod.splits sum.splits)

lemma process_turn:
  assumes at: "kv_atomic (in_ops env) view" and run: "process_message env draw mk msg (errs, w) = (errs', w')"
    and op: "opens env mk msg" and fresh: "\<not> marked view w (em_message_id msg)"
  shows "marked view w' (em_message_id msg) \<and> errs' = errs \<and>
      dispatched_and_marked env view (draw (em_message_id msg)) mk msg w w' \<or>
    \<not> marked view w' (em_message_id msg) \<and> (\<exists>e. errs' = errs @ [(em_message_id msg, e)])"
  using at run
proof (cases rule: process_message_cases)
  case (failed raw e)
  with marked_kept [OF dispatch_marks [OF at failed(3)]] show ?thesis by simp
next
  case (settled raw out v)
  have v: "\<not> marked view v (em_message_id msg)" using marked_kept [OF dispatch_marks [OF at settled(3)]] fresh by simp
  from mark_processed_cases [OF at settled(4)] show ?thesis
  proof
    assume "errs' = errs \<and> view (w_meta w') = (view (w_meta v))(marker_key (em_message_id msg) \<mapsto>
        of_bytes env (encode_marker_timestamp (dr_now_secs (draw (em_message_id msg)))))"
    with settled mark_processed_rest [OF settled(4)] show ?thesis
      by (intro disjI1) (simp add: marked_def dispatched_and_marked_def)
  next
    assume "(\<exists>e. errs' = errs @ [(em_message_id msg, e)]) \<and> marks_kept view v w'"
    with v marked_kept [of view v w'] show ?thesis by simp
  qed
qed (use op fresh in auto)

text \<open>A turn touches no marker and reports no failure of another message.\<close>

lemma process_other_marker:
  assumes at: "kv_atomic (in_ops env) view" and run: "process_message env draw mk msg (errs, w) = (errs', w')"
    and "em_message_id msg \<noteq> i"
  shows "view (w_meta w') (marker_key i) = view (w_meta w) (marker_key i)"
  using at run
proof (cases rule: process_message_cases)
  case failed
  from dispatch_marks [OF at failed(3)] show ?thesis by (simp add: marks_kept_def)
next
  case (settled raw out v)
  from dispatch_marks [OF at settled(3)] mark_processed_cases [OF at settled(4)] assms(3) show ?thesis
    by (auto simp: marks_kept_def)
qed auto

lemma process_other_errs:
  assumes at: "kv_atomic (in_ops env) view" and run: "process_message env draw mk msg (errs, w) = (errs', w')"
    and "em_message_id msg \<noteq> i"
  shows "i \<in> fst ` set errs' \<longleftrightarrow> i \<in> fst ` set errs"
  using at run
proof (cases rule: process_message_cases)
  case (settled raw out v)
  with mark_processed_cases [OF at settled(4)] assms(3) show ?thesis by auto
qed (use assms(3) in auto)

lemma fold_process_others:
  assumes at: "kv_atomic (in_ops env) view" and "i \<notin> em_message_id ` set msgs"
    and "fold (process_message env draw mk) msgs (errs, w) = (errs', w')"
  shows "view (w_meta w') (marker_key i) = view (w_meta w) (marker_key i) \<and> (i \<in> fst ` set errs' \<longleftrightarrow> i \<in> fst ` set errs)"
  using assms(2,3)
proof (induction msgs arbitrary: errs w)
  case (Cons m ms)
  obtain es v where s: "process_message env draw mk m (errs, w) = (es, v)" by (cases "process_message env draw mk m (errs, w)")
  from Cons.prems(1) have m: "em_message_id m \<noteq> i" "i \<notin> em_message_id ` set ms" by auto
  from process_other_marker [OF at s m(1)] process_other_errs [OF at s m(1)] Cons.IH [OF m(2), of es v] Cons.prems(2) s
  show ?case by simp
qed simp

text \<open>A message delivered once in a poll: the world its turn began in and the one it ended in.\<close>

lemma once_in_poll:
  assumes at: "kv_atomic (in_ops env) view"
    and run: "process_messages env draw mk (before @ msg # after) w = (errs, w')"
    and op: "opens env mk msg" and fresh: "\<not> marked view w (em_message_id msg)"
    and once: "em_message_id msg \<notin> em_message_id ` (set before \<union> set after)"
  shows "marked view w' (em_message_id msg) \<and> em_message_id msg \<notin> fst ` set errs \<and>
      dispatched_and_marked env view (draw (em_message_id msg)) mk msg
        (snd (process_messages env draw mk before w)) (snd (process_messages env draw mk (before @ [msg]) w)) \<or>
    \<not> marked view w' (em_message_id msg) \<and> em_message_id msg \<in> fst ` set errs"
proof -
  let ?i = "em_message_id msg"
  obtain e1 w1 where s1: "fold (process_message env draw mk) before ([], w) = (e1, w1)"
    by (cases "fold (process_message env draw mk) before ([], w)")
  obtain e2 w2 where s2: "process_message env draw mk msg (e1, w1) = (e2, w2)"
    by (cases "process_message env draw mk msg (e1, w1)")
  have s3: "fold (process_message env draw mk) after (e2, w2) = (errs, w')"
    using run s1 s2 by (simp add: process_messages_def)
  have out: "?i \<notin> em_message_id ` set before" "?i \<notin> em_message_id ` set after" using once by auto
  have b: "\<not> marked view w1 ?i" "?i \<notin> fst ` set e1"
    using fold_process_others [OF at out(1) s1] fresh by (simp_all add: marked_def)
  have a: "marked view w' ?i = marked view w2 ?i" "?i \<in> fst ` set errs \<longleftrightarrow> ?i \<in> fst ` set e2"
    using fold_process_others [OF at out(2) s3] by (simp_all add: marked_def)
  have "snd (process_messages env draw mk before w) = w1" "snd (process_messages env draw mk (before @ [msg]) w) = w2"
    using s1 s2 by (simp_all add: process_messages_def)
  with process_turn [OF at s2 op b(1)] a b(2) show ?thesis by auto
qed

section \<open>Markers across polls\<close>

lemma process_keeps_value:
  assumes at: "kv_atomic (in_ops env) view" and run: "process_message env draw mk msg (errs, w) = (errs', w')"
    and v: "view (w_meta w) (marker_key i) = Some v"
  shows "view (w_meta w') (marker_key i) = Some v"
proof (cases "em_message_id msg = i")
  case True
  with v have "marked view w (em_message_id msg)" by (simp add: marked_def)
  from process_seen [OF at run this] v show ?thesis by simp
qed (use process_other_marker [OF at run] v in simp)

lemma fold_process_keeps_value:
  assumes at: "kv_atomic (in_ops env) view"
  shows "view (w_meta w) (marker_key i) = Some v \<Longrightarrow>
     view (w_meta (snd (fold (process_message env draw mk) msgs (errs, w)))) (marker_key i) = Some v"
proof (induction msgs arbitrary: errs w)
  case (Cons m ms)
  obtain es u where s: "process_message env draw mk m (errs, w) = (es, u)" by (cases "process_message env draw mk m (errs, w)")
  from Cons.IH [OF process_keeps_value [OF at s Cons.prems]] s show ?case by simp
qed simp

text \<open>Pruning, completed or failed on the way, keeps what is not stale.\<close>

lemma prune_keeps:
  assumes at: "kv_atomic ops view" and v: "view s k = Some v" "\<not> stale_marker now ret (read v)"
  shows "view (snd (prune_msg_processed_markers ops read s now ret)) k = Some v"
proof (cases "kv_scan_prefix ops s MSG_PROCESSED_PREFIX")
  case (Inr entries)
  let ?ks = "map fst (filter (\<lambda>(_, value). stale_marker now ret (read value)) entries)"
  obtain r s' where d: "delete_all ops s ?ks 0 = (r, s')" by (cases "delete_all ops s ?ks 0")
  have "k \<notin> set ?ks"
    using kv_store.scan_ok [OF kv_atomic.axioms(1) [OF at] Inr] v by (auto simp: image_iff)
  from kv_atomic.delete_all_frame [OF at d this] v(1) Inr d show ?thesis by (simp add: prune_msg_processed_markers_def)
qed (use v in \<open>simp add: prune_msg_processed_markers_def\<close>)

lemma poll_keeps_marker:
  assumes at: "kv_atomic (in_ops env) view" and v: "view (w_meta w) (marker_key i) = Some v"
    and t: "bytes_of env v = encode_marker_timestamp t" "now < t \<or> now - t \<le> DEDUP_RETENTION_SECS"
  shows "view (w_meta (snd (poll_and_decrypt_requests env draw mk ps poll polls now w))) (marker_key i) = Some v"
proof -
  have "view (maybe_prune env now polls (w_meta (snd (process_messages env draw mk msgs w)))) (marker_key i) = Some v" for msgs
    using prune_keeps [OF at fold_process_keeps_value [OF at v], of now DEDUP_RETENTION_SECS "bytes_of env"]
      fold_process_keeps_value [OF at v] fresh_marker_kept [OF t(2)] t(1)
    by (simp add: maybe_prune_def process_messages_def)
  with v show ?thesis
    by (auto simp: poll_and_decrypt_requests_def Let_def split: sum.split)
qed

text \<open>A node's polls, one after the other: each with its draws, pseudonyms, network, counter and time.\<close>

record 'sk poll_input =
  pi_draw :: "string \<Rightarrow> 'sk draws"
  pi_pseudonyms :: "handler_error + bytes list"
  pi_poll :: "bytes list \<Rightarrow> string + encrypted_message list"
  pi_polls :: "64 word"
  pi_now :: "64 word"

definition run_poll ::
    "('s, 'b, 'd, 'c, 'n, 'sk) inbound_env \<Rightarrow> bytes \<Rightarrow> 'sk poll_input \<Rightarrow> ('s, 'd, 'n) world \<Rightarrow> ('s, 'd, 'n) world" where
  "run_poll env mk x w =
     snd (poll_and_decrypt_requests env (pi_draw x) mk (pi_pseudonyms x) (pi_poll x) (pi_polls x) (pi_now x) w)"

abbreviation run_polls ::
    "('s, 'b, 'd, 'c, 'n, 'sk) inbound_env \<Rightarrow> bytes \<Rightarrow> 'sk poll_input list \<Rightarrow> ('s, 'd, 'n) world \<Rightarrow> ('s, 'd, 'n) world" where
  "run_polls env mk \<equiv> fold (run_poll env mk)"

lemma run_polls_keep_marker:
  assumes at: "kv_atomic (in_ops env) view"
    and t: "bytes_of env v = encode_marker_timestamp t"
    and fresh: "\<forall>x \<in> set xs. pi_now x < t \<or> pi_now x - t \<le> DEDUP_RETENTION_SECS"
    and v: "view (w_meta w) (marker_key i) = Some v"
  shows "view (w_meta (run_polls env mk xs w)) (marker_key i) = Some v"
  using fresh v
proof (induction xs arbitrary: w)
  case (Cons x xs)
  have "view (w_meta (run_poll env mk x w)) (marker_key i) = Some v"
    unfolding run_poll_def by (rule poll_keeps_marker [OF at Cons.prems(2) t]) (use Cons.prems(1) in simp)
  with Cons.IH Cons.prems(1) show ?case by simp
qed simp

text \<open>What a poll delivers again of a marked message has no effect.\<close>

lemma redelivery_ignored:
  assumes at: "kv_atomic (in_ops env) view" and m: "marked view w (em_message_id msg)"
  shows "snd (process_messages env draw mk (before @ [msg]) w) = snd (process_messages env draw mk before w)"
proof -
  obtain errs w1 where run: "process_messages env draw mk before w = (errs, w1)"
    by (cases "process_messages env draw mk before w")
  have "marked view w1 (em_message_id msg)"
    using fold_process_keeps_marks [OF at m, of draw mk before "[]"] run by (simp add: process_messages_def)
  moreover obtain errs' w2 where step: "process_message env draw mk msg (errs, w1) = (errs', w2)"
    by (cases "process_message env draw mk msg (errs, w1)")
  ultimately show ?thesis using process_seen [OF at step] run step by (simp add: process_messages_def)
qed

end
