(* ===== verification/Single_Floats.thy ===== *)
theory Single_Floats
  imports Fingerprint_Keys Json_Query
begin

text \<open>
  Single-precision arithmetic, as the face extractor and its nearest-neighbour cache use it.
  An \<^verbatim>\<open>f32\<close> of the input is kept as its 32 bits, since the fingerprint key of a face hashes
  them; \<open>f32_val\<close> reads the IEEE 754 value (both zeros are \<^term>\<open>Fin 0\<close>). The operations
  round to nearest, ties to even.
\<close>

type_synonym f32 = "32 word"

definition f32_val :: "f32 \<Rightarrow> fl" where
  "f32_val w =
     (let n = unat w; neg = 2 ^ 31 \<le> n; e = (n div 2 ^ 23) mod 256; m = n mod 2 ^ 23 in
      if e = 255 then (if m \<noteq> 0 then NaN else if neg then NInf else PInf)
      else (let v = (if e = 0 then of_nat m / 2 ^ 149
                     else of_nat (2 ^ 23 + m) * (if 150 \<le> e then 2 ^ (e - 150) else 1 / 2 ^ (150 - e)))
            in Fin (if neg then - v else v)))"

text \<open>The bytes of a value in memory; the node's targets (x86-64 and ARM64) are little-endian.\<close>

definition f32_bytes :: "f32 \<Rightarrow> bytes" where
  "f32_bytes w = (let n = unat w in
     [word_of_nat (n mod 256), word_of_nat (n div 256 mod 256), word_of_nat (n div 65536 mod 256),
      word_of_nat (n div 16777216)])"

fun is_finite :: "fl \<Rightarrow> bool" where
  "is_finite (Fin _) = True"
| "is_finite _ = False"

fun fl_neg :: "fl \<Rightarrow> fl" where
  "fl_neg (Fin a) = Fin (- a)"
| "fl_neg NaN = NaN"
| "fl_neg PInf = NInf"
| "fl_neg NInf = PInf"

fun f32_add :: "fl \<Rightarrow> fl \<Rightarrow> fl" where
  "f32_add (Fin a) (Fin b) = f32_round (a + b)"
| "f32_add NaN _ = NaN"
| "f32_add _ NaN = NaN"
| "f32_add PInf NInf = NaN"
| "f32_add NInf PInf = NaN"
| "f32_add PInf _ = PInf"
| "f32_add _ PInf = PInf"
| "f32_add NInf _ = NInf"
| "f32_add _ NInf = NInf"

definition f32_sub :: "fl \<Rightarrow> fl \<Rightarrow> fl" where
  "f32_sub a b = f32_add a (fl_neg b)"

fun f32_mul :: "fl \<Rightarrow> fl \<Rightarrow> fl" where
  "f32_mul (Fin a) (Fin b) = f32_round (a * b)"
| "f32_mul x y = (if x = NaN \<or> y = NaN then NaN else signed_inf (sgn_fl x * sgn_fl y))"

text \<open>As for \<^verbatim>\<open>f64\<close>: the zero a value is divided by is the positive one.\<close>

fun f32_div :: "fl \<Rightarrow> fl \<Rightarrow> fl" where
  "f32_div (Fin a) (Fin b) = (if b = 0 then signed_inf (sgn a) else f32_round (a / b))"
| "f32_div (Fin a) y = (if y = NaN then NaN else Fin 0)"
| "f32_div x (Fin b) = (if x = NaN then NaN else signed_inf (sgn_fl x * (if b < 0 then -1 else 1)))"
| "f32_div x y = NaN"

text \<open>\<^verbatim>\<open>Iterator::sum\<close> of \<^verbatim>\<open>f32\<close> values: from zero, left to right.\<close>

definition f32_sum :: "fl list \<Rightarrow> fl" where
  "f32_sum xs = fold (\<lambda>x acc. f32_add acc x) xs (Fin 0)"

section \<open>Square root\<close>

text \<open>The integer square root, two bits at a time.\<close>

function isqrt :: "int \<Rightarrow> int" where
  "isqrt n = (if n \<le> 0 then 0 else
     (let r = 2 * isqrt (n div 4) in if (r + 1) * (r + 1) \<le> n then r + 1 else r))"
  by pat_completeness auto
termination by (relation "measure nat") auto

declare isqrt.simps [simp del]

lemma isqrt_bounds: "0 \<le> n \<Longrightarrow> 0 \<le> isqrt n \<and> isqrt n * isqrt n \<le> n \<and> n < (isqrt n + 1) * (isqrt n + 1)"
proof (induction n rule: isqrt.induct)
  case (1 n)
  show ?case
  proof (cases "n = 0")
    case False
    let ?q = "isqrt (n div 4)"
    have q: "0 \<le> ?q" "?q * ?q \<le> n div 4" "n div 4 < (?q + 1) * (?q + 1)" using 1 False by auto
    then have "4 * (?q * ?q) \<le> n" "n < 4 * ((?q + 1) * (?q + 1))" by linarith+
    with q(1) False 1(2) show ?thesis
      by (subst (1 2 3 4 5) isqrt.simps) (auto simp: Let_def algebra_simps)
  qed (simp add: isqrt.simps)
qed

text \<open>
  The correctly rounded \<^verbatim>\<open>f32::sqrt\<close>: the root is scaled to 24 integer bits; no root of a
  24-bit number lies midway between two neighbours.
\<close>

definition f32_sqrt :: "fl \<Rightarrow> fl" where
  "f32_sqrt x = (case x of
       Fin r \<Rightarrow>
         (if r < 0 then NaN else if r = 0 then Fin 0
          else (let k = rat_log2 r div 2 - 23; q = r / 2 powi (2 * k); s = isqrt \<lfloor>q\<rfloor> in
                Fin (of_int (if (of_int s + 1 / 2) * (of_int s + 1 / 2) < q then s + 1 else s) * 2 powi k)))
     | PInf \<Rightarrow> PInf | _ \<Rightarrow> NaN)"

text \<open>\<^verbatim>\<open>serde_json::json!\<close> of a float: a value that is not finite becomes \<^verbatim>\<open>null\<close>.\<close>

fun json_float :: "fl \<Rightarrow> json" where
  "json_float (Fin r) = JNum (Fin r)"
| "json_float _ = JNull"

lemma f32_val_samples:
  "f32_val 0x3F800000 = Fin 1" "f32_val 0xBF000000 = Fin (- (1 / 2))" "f32_val 0x7F800000 = PInf" "f32_val 0x7FC00000 = NaN"
  by (simp_all add: f32_val_def)

lemma f32_sqrt_samples: "f32_sqrt (Fin 4) = Fin 2" "f32_sqrt (Fin 2) = Fin (11863283 / 8388608)"
  by code_simp+

text \<open>Every single-precision value rounds to itself, so it survives the way through an \<^verbatim>\<open>f64\<close>.\<close>

lemma fl_round_exact:
  assumes r: "r = of_int m * 2 powi k" and m: "\<bar>m\<bar> < 2 ^ nat p" "0 \<le> p" and k: "emin \<le> k" and top: "\<bar>r\<bar> < 2 powi emax"
  shows "fl_round p emin emax r = Fin r"
proof (cases "r = 0")
  case False
  let ?e = "max emin (rat_log2 \<bar>r\<bar> - (p - 1))"
  have "(of_int \<bar>m\<bar> :: rat) < of_int (2 ^ nat p)" using m(1) by (simp only: of_int_less_iff)
  then have "\<bar>r\<bar> < 2 ^ nat p * 2 powi k" unfolding r by (simp add: abs_mult)
  also have "2 ^ nat p * 2 powi k = (2 :: rat) powi (p + k)" using m(2) proof -
    have "(2 :: rat) ^ nat p = 2 powi p" using m(2) by (simp add: power_int_def)
    then show ?thesis by (simp add: power_int_add)
  qed
  finally have "\<bar>r\<bar> < 2 powi (p + k)" .
  moreover have "2 powi (rat_log2 \<bar>r\<bar>) \<le> \<bar>r\<bar>" using False rat_log2_bounds [of "\<bar>r\<bar>"] by simp
  ultimately have "(2 :: rat) powi (rat_log2 \<bar>r\<bar>) < 2 powi (p + k)" by simp
  then have "rat_log2 \<bar>r\<bar> < p + k" by (meson not_less power_int_increasing one_le_numeral leD)
  then have e: "?e \<le> k" using k by simp
  then have "r / 2 powi ?e = of_int (m * 2 ^ nat (k - ?e))"
  proof -
    have "(2 :: rat) powi k / 2 powi ?e = 2 powi (k - ?e)" by (simp add: power_int_diff)
    also have "\<dots> = 2 ^ nat (k - ?e)" using e by (simp add: power_int_def)
    finally show ?thesis unfolding r by (simp add: mult.assoc [symmetric] times_divide_eq_right [symmetric] del: times_divide_eq_right)
  qed
  then have "of_int (round_even (r / 2 powi ?e)) = r / 2 powi ?e" by (simp only: round_even_int)
  then have "of_int (round_even (r / 2 powi ?e)) * 2 powi ?e = r" by simp
  with False top show ?thesis unfolding fl_round_def Let_def by simp
qed (simp add: fl_round_def)

lemma f32_val_exact: "f32_val w = Fin r \<Longrightarrow> f32_round r = Fin r"
proof -
  assume w: "f32_val w = Fin r"
  define n where "n = unat w"
  define e where "e = (n div 2 ^ 23) mod 256"
  define m where "m = n mod 2 ^ 23"
  have "e < 256" by (simp add: e_def)
  moreover have "e \<noteq> 255"
    using w unfolding f32_val_def Let_def n_def [symmetric] e_def [symmetric] by (auto split: if_splits)
  ultimately have e: "e \<noteq> 255" "e < 256" by auto
  let ?M = "if e = 0 then int m else int (2 ^ 23 + m)" and ?k = "if e = 0 then -149 else int e - 150"
  let ?s = "if 2 ^ 31 \<le> n then -1 else 1 :: int"
  have m: "m < 2 ^ 23" by (simp add: m_def)
  have pw: "(if 150 \<le> e then 2 ^ (e - 150) else 1 / 2 ^ (150 - e)) = (2 :: rat) powi (int e - 150)"
    by (auto simp: power_int_def nat_diff_distrib power_one_over)
  have r: "r = of_int (?s * ?M) * 2 powi ?k"
  proof -
    have "f32_val w = Fin (if 2 ^ 31 \<le> n then - (if e = 0 then of_nat m / 2 ^ 149 else of_nat (2 ^ 23 + m) * 2 powi (int e - 150))
        else (if e = 0 then of_nat m / 2 ^ 149 else of_nat (2 ^ 23 + m) * 2 powi (int e - 150)))"
      unfolding f32_val_def Let_def n_def [symmetric] e_def [symmetric] m_def [symmetric] pw using e(1) by (simp only: if_False)
    with w have "r = (if 2 ^ 31 \<le> n then - (if e = 0 then of_nat m / 2 ^ 149 else of_nat (2 ^ 23 + m) * 2 powi (int e - 150))
        else (if e = 0 then of_nat m / 2 ^ 149 else of_nat (2 ^ 23 + m) * 2 powi (int e - 150)))" by (simp only: fl.inject)
    moreover have "(2 :: rat) powi (-149) = 1 / 2 ^ 149" by (simp add: power_int_def power_one_over)
    ultimately show ?thesis by (simp split del: if_split cong: if_cong) (auto split: if_splits)
  qed
  show ?thesis
    unfolding f32_round_def
  proof (rule fl_round_exact [OF r])
    show "\<bar>?s * ?M\<bar> < 2 ^ nat 24" using m by auto
    have "\<bar>r\<bar> = of_int ?M * 2 powi ?k" unfolding r by (simp add: abs_mult)
    also have "\<dots> < 2 ^ 24 * 2 powi ?k" using m by (intro mult_strict_right_mono) auto
    also have "\<dots> \<le> 2 ^ 24 * 2 powi 104" using e by (intro mult_left_mono power_int_increasing) auto
    also have "\<dots> = 2 powi 128" by simp
    finally show "\<bar>r\<bar> < 2 powi 128" .
  qed (use e in auto)
qed

lemma as_f32_exact: "as_f32 (f32_val w) = f32_val w"
  by (cases "f32_val w") (auto simp: as_f32_def f32_val_exact)

end
