(* ===== verification/Planned_Records.thy ===== *)
theory Planned_Records
  imports Handlers Single_Floats
begin

text \<open>
  \<^verbatim>\<open>src/fingerprints/planned_record.rs\<close> and \<^verbatim>\<open>src/fingerprints/writer.rs\<close>: the records an
  extractor plans, and the writer that resolves each record's descriptive schema and issues
  a create mutation, in order, stopping at the first error. The second half states what the
  writer relies on of the record store (locale \<open>record_store\<close>) and proves what a batch
  leaves behind, on success and on failure.
\<close>

section \<open>Planned records\<close>

record planned_record =
  pr_schema :: string
  pr_fields :: payload
  pr_hash_key :: string
  pr_range_key :: "string option"

definition planned_hash :: "string \<Rightarrow> string \<Rightarrow> payload \<Rightarrow> planned_record" where
  "planned_hash descriptive_schema hash_key fs =
     \<lparr>pr_schema = descriptive_schema, pr_fields = fs, pr_hash_key = hash_key, pr_range_key = None\<rparr>"

definition planned_hash_range :: "string \<Rightarrow> string \<Rightarrow> string \<Rightarrow> payload \<Rightarrow> planned_record" where
  "planned_hash_range descriptive_schema hash_key range_key fs =
     \<lparr>pr_schema = descriptive_schema, pr_fields = fs, pr_hash_key = hash_key, pr_range_key = Some range_key\<rparr>"

text \<open>
  The node as ingestion sees it: the database and registry (\<open>host\<close>), the schema names of
  \<^verbatim>\<open>schema_service_core\<close> that the graph handlers do not use, and the hash (the crate \<^verbatim>\<open>sha2\<close>,
  rendered as lower-case hexadecimal).
\<close>

record 'd ingest_node =
  host :: "'d fp_node"
  MENTION_BY_SOURCE :: string
  EXTRACTION_STATUS :: string
  INGESTION_ERROR :: string
  IDENTITY :: string
  IDENTITY_RECEIPT :: string
  hash_hex :: "bytes \<Rightarrow> string"

section \<open>Edge kinds\<close>

definition edge_STRONG_MATCH :: string where "edge_STRONG_MATCH = ''StrongMatch''"
definition edge_MEDIUM_MATCH :: string where "edge_MEDIUM_MATCH = ''MediumMatch''"
definition edge_CO_OCCURRENCE :: string where "edge_CO_OCCURRENCE = ''CoOccurrence''"
definition edge_IDENTITY_FACE :: string where "edge_IDENTITY_FACE = ''identity_face''"

lemmas edge_kind_defs = edge_STRONG_MATCH_def edge_MEDIUM_MATCH_def edge_CO_OCCURRENCE_def edge_IDENTITY_FACE_def

section \<open>The rows of the junction schemas\<close>

text \<open>The extractors share these; \<^verbatim>\<open>face.rs\<close>, \<^verbatim>\<open>text.rs\<close> and \<^verbatim>\<open>ingest_photo.rs\<close> each have their copy.\<close>

definition edge_by_fingerprint_fields :: "string \<Rightarrow> string \<Rightarrow> payload" where
  "edge_by_fingerprint_fields fp_id eg_id = [''fingerprint_id'' \<mapsto> JStr fp_id, ''edge_id'' \<mapsto> JStr eg_id]"

definition mention_by_source_fields :: "string \<Rightarrow> string \<Rightarrow> payload" where
  "mention_by_source_fields source_composite mention_id =
     [''source_composite'' \<mapsto> JStr source_composite, ''mention_id'' \<mapsto> JStr mention_id]"

definition mention_by_fingerprint_fields :: "string \<Rightarrow> string \<Rightarrow> payload" where
  "mention_by_fingerprint_fields fp_id mention_id =
     [''fingerprint_id'' \<mapsto> JStr fp_id, ''mention_id'' \<mapsto> JStr mention_id]"

text \<open>The unordered pairs of a list, in the order of the two nested loops.\<close>

fun unordered_pairs :: "'a list \<Rightarrow> ('a \<times> 'a) list" where
  "unordered_pairs [] = []"
| "unordered_pairs (x # xs) = map (Pair x) xs @ unordered_pairs xs"

text \<open>An edge and its two junction rows.\<close>

definition edge_with_rows :: "'d ingest_node \<Rightarrow> string \<Rightarrow> string \<Rightarrow> string \<Rightarrow> payload \<Rightarrow> planned_record list" where
  "edge_with_rows N a b eg_id fs =
     [planned_hash (EDGE (host N)) eg_id fs,
      planned_hash_range (EDGE_BY_FINGERPRINT (host N)) a eg_id (edge_by_fingerprint_fields a eg_id),
      planned_hash_range (EDGE_BY_FINGERPRINT (host N)) b eg_id (edge_by_fingerprint_fields b eg_id)]"

text \<open>The rows that tie a mention to its source and to its fingerprints.\<close>

definition mention_rows :: "'d ingest_node \<Rightarrow> string \<Rightarrow> string \<Rightarrow> string \<Rightarrow> string list \<Rightarrow> planned_record list" where
  "mention_rows N mention_id source_schema source_key fp_ids =
     (let source_composite = mention_source_composite source_schema source_key in
      planned_hash_range (MENTION_BY_SOURCE N) source_composite mention_id
        (mention_by_source_fields source_composite mention_id) #
      map (\<lambda>fp. planned_hash_range (MENTION_BY_FINGERPRINT (host N)) fp mention_id
             (mention_by_fingerprint_fields fp mention_id)) fp_ids)"

record extraction_plan =
  plan_records :: "planned_record list"
  plan_count :: nat
  plan_ran_empty :: bool

lemma unordered_pairs_set: "set (unordered_pairs xs) \<subseteq> set xs \<times> set xs"
  by (induction xs) auto

lemma unordered_pairs_all:
  "x \<in> set xs \<Longrightarrow> y \<in> set xs \<Longrightarrow> x \<noteq> y \<Longrightarrow> (x, y) \<in> set (unordered_pairs xs) \<or> (y, x) \<in> set (unordered_pairs xs)"
  by (induction xs) auto

lemma unordered_pairs_distinct:
  "distinct (map f xs) \<Longrightarrow> (x, y) \<in> set (unordered_pairs xs) \<Longrightarrow> f x \<noteq> f y"
  by (induction xs) (auto simp: image_iff)

section \<open>The writer\<close>

record written_record =
  wr_descriptive :: string
  wr_canonical :: string
  wr_hash_key :: string

type_synonym write_outcome = "written_record list"

definition count_for_descriptive :: "string \<Rightarrow> write_outcome \<Rightarrow> nat" where
  "count_for_descriptive descriptive out = length (filter (\<lambda>w. wr_descriptive w = descriptive) out)"

definition write_record ::
    "'d fp_node \<Rightarrow> planned_record \<Rightarrow> 'd \<Rightarrow> (fold_db_error + written_record) \<times> 'd" where
  "write_record nd r d =
     (case lookup_name (registry nd) (pr_schema r) of
        Inl e \<Rightarrow> (Inl (Config (''writer: cannot resolve descriptive_schema '' @ quoted (pr_schema r) @ '' -- '' @
             show_error nd e @ ''. Did register_phase_1_schemas() run at subsystem startup?'')), d)
      | Inr canonical \<Rightarrow>
          (case mutate_db nd d canonical (pr_fields r) (Some (pr_hash_key r), pr_range_key r) Create of
             (Inl e, d') \<Rightarrow> (Inl (Config (''writer: failed to persist record on '' @ quoted (pr_schema r) @
                 '' (canonical '' @ quoted canonical @ ''), hash_key='' @ quoted (pr_hash_key r) @ '': '' @
                 show_error nd e)), d')
           | (Inr _, d') \<Rightarrow>
               (Inr \<lparr>wr_descriptive = pr_schema r, wr_canonical = canonical, wr_hash_key = pr_hash_key r\<rparr>, d')))"

fun write_records ::
    "'d fp_node \<Rightarrow> planned_record list \<Rightarrow> 'd \<Rightarrow> (fold_db_error + write_outcome) \<times> 'd" where
  "write_records nd [] d = (Inr [], d)"
| "write_records nd (r # rs) d =
     (case write_record nd r d of
        (Inl e, d') \<Rightarrow> (Inl e, d')
      | (Inr w, d') \<Rightarrow>
          (case write_records nd rs d' of
             (Inl e, d'') \<Rightarrow> (Inl e, d'')
           | (Inr out, d'') \<Rightarrow> (Inr (w # out), d'')))"

section \<open>The record store\<close>

text \<open>
  What the writer relies on: \<open>held d s k r\<close> is the record of runtime schema \<open>s\<close> under hash
  key \<open>k\<close> and range key \<open>r\<close>. A create that succeeds leaves a record that has every field
  written (what becomes of other fields of an older record under that key is left open),
  and touches no other record; a mutation that fails changes nothing.
\<close>

type_synonym 'd holds = "'d \<Rightarrow> string \<Rightarrow> string \<Rightarrow> string option \<Rightarrow> payload option"

definition same_but :: "'d holds \<Rightarrow> string \<Rightarrow> string \<Rightarrow> string option \<Rightarrow> 'd \<Rightarrow> 'd \<Rightarrow> bool" where
  "same_but held s k r d d' \<longleftrightarrow> (\<forall>s' k' r'. (s', k', r') \<noteq> (s, k, r) \<longrightarrow> held d' s' k' r' = held d s' k' r')"

locale record_store =
  fixes nd :: "'d fp_node"
    and held :: "'d holds"
  assumes create_holds: "mutate_db nd d s m (Some k, r) Create = (Inr i, d') \<Longrightarrow>
        \<exists>m'. held d' s k r = Some m' \<and> m \<subseteq>\<^sub>m m'"
    and create_frame: "mutate_db nd d s m (Some k, r) Create = (Inr i, d') \<Longrightarrow> same_but held s k r d d'"
    and failed_frame: "mutate_db nd d s m kv t = (Inl e, d') \<Longrightarrow> held d' = held d"
begin

text \<open>\<open>stored d p\<close>: the planned record \<open>p\<close> is in the store, with all its fields.\<close>

definition stored :: "'d \<Rightarrow> planned_record \<Rightarrow> bool" where
  "stored d p \<longleftrightarrow> (\<exists>s m. lookup_name (registry nd) (pr_schema p) = Inr s \<and>
     held d s (pr_hash_key p) (pr_range_key p) = Some m \<and> pr_fields p \<subseteq>\<^sub>m m)"

lemma write_record_ok:
  assumes "write_record nd p d = (Inr w, d')"
  obtains s where "lookup_name (registry nd) (pr_schema p) = Inr s" "stored d' p"
    "same_but held s (pr_hash_key p) (pr_range_key p) d d'"
proof -
  from assms obtain s i where s: "lookup_name (registry nd) (pr_schema p) = Inr s"
      "mutate_db nd d s (pr_fields p) (Some (pr_hash_key p), pr_range_key p) Create = (Inr i, d')"
    by (auto simp: write_record_def split: sum.splits prod.splits)
  with create_holds [OF s(2)] create_frame [OF s(2)] show thesis
    by (auto simp: stored_def intro: that)
qed

lemma write_record_failed: "write_record nd p d = (Inl e, d') \<Longrightarrow> held d' = held d"
  by (auto simp: write_record_def split: sum.splits prod.splits dest: failed_frame)

text \<open>An invariant of the records that each single write keeps is kept by a batch, however far it gets.\<close>

lemma write_records_inv:
  assumes "write_records nd ps d = (res, d')" and "I (held d)"
    and step: "\<And>p d w d'. p \<in> set ps \<Longrightarrow> I (held d) \<Longrightarrow> write_record nd p d = (Inr w, d') \<Longrightarrow> I (held d')"
  shows "I (held d')"
  using assms
proof (induction ps arbitrary: d res d')
  case (Cons p ps)
  show ?case
  proof (cases "write_record nd p d")
    case (Pair r1 d1)
    show ?thesis
    proof (cases r1)
      case (Inl e)
      with Cons.prems Pair show ?thesis using write_record_failed [of p d e d1] by auto
    next
      case (Inr w)
      with Cons.prems Pair have "I (held d1)" by auto
      moreover obtain r2 where "write_records nd ps d1 = (r2, d')"
        using Cons.prems(1) Pair Inr by (auto split: prod.splits sum.splits)
      ultimately show ?thesis using Cons.IH [of d1 r2 d'] Cons.prems(3) by auto
    qed
  qed
qed simp

end

end
