(* ===== verification/Record_Store.thy ===== *)
theory Record_Store
  imports Planned_Records
begin

text \<open>
  What a batch of planned records leaves in the record store. Records are addressed by
  descriptive name, hash key and range key; the registry resolves different descriptive
  names to different runtime names (the schema service names a schema by its identity
  hash). The graph the records form is well formed when every junction row belongs to an
  edge that exists and ends there, and every edge to fingerprints that exist; the writer
  keeps it so whatever fails, because plans put fingerprints before edges and an edge
  before its rows.
\<close>

type_synonym record_view = "string \<Rightarrow> string \<Rightarrow> string option \<Rightarrow> payload option"

definition slot :: "planned_record \<Rightarrow> string \<times> string \<times> string option" where
  "slot p = (pr_schema p, pr_hash_key p, pr_range_key p)"

definition view_after :: "record_view \<Rightarrow> planned_record \<Rightarrow> record_view \<Rightarrow> bool" where
  "view_after R p R' \<longleftrightarrow> (\<exists>m. R' (pr_schema p) (pr_hash_key p) (pr_range_key p) = Some m \<and> pr_fields p \<subseteq>\<^sub>m m) \<and>
     (\<forall>x k r. (x, k, r) \<noteq> slot p \<longrightarrow> R' x k r = R x k r)"

definition in_view :: "record_view \<Rightarrow> planned_record \<Rightarrow> bool" where
  "in_view R p \<longleftrightarrow> (\<exists>m. R (pr_schema p) (pr_hash_key p) (pr_range_key p) = Some m \<and> pr_fields p \<subseteq>\<^sub>m m)"

text \<open>Records of one plan under the same key agree.\<close>

definition plan_consistent :: "planned_record list \<Rightarrow> bool" where
  "plan_consistent ps \<longleftrightarrow> (\<forall>p \<in> set ps. \<forall>q \<in> set ps. slot p = slot q \<longrightarrow> pr_fields p = pr_fields q)"

definition stored_view :: "'d fp_node \<Rightarrow> 'd holds \<Rightarrow> 'd \<Rightarrow> record_view" where
  "stored_view nd held d x k r = (case lookup_name (registry nd) x of Inl _ \<Rightarrow> None | Inr s \<Rightarrow> held d s k r)"

locale named_store = record_store nd held for nd :: "'d fp_node" and held :: "'d holds" +
  assumes registry_inj: "lookup_name (registry nd) x = Inr s \<Longrightarrow> lookup_name (registry nd) y = Inr s \<Longrightarrow> x = y"
begin

abbreviation recs :: "'d \<Rightarrow> record_view" where
  "recs \<equiv> stored_view nd held"

lemma write_record_view:
  assumes "write_record nd p d = (Inr w, d')"
  shows "view_after (recs d) p (recs d')"
  using assms
proof (rule write_record_ok)
  fix s
  assume s: "lookup_name (registry nd) (pr_schema p) = Inr s" "stored d' p"
    "same_but held s (pr_hash_key p) (pr_range_key p) d d'"
  have "recs d' x k r = recs d x k r" if "(x, k, r) \<noteq> slot p" for x k r
    using that s(1,3) registry_inj [of x s "pr_schema p"]
    by (auto simp: stored_view_def same_but_def slot_def split: sum.split)
  with s(1,2) show ?thesis by (auto simp: view_after_def stored_view_def stored_def)
qed

lemma write_record_failed_view: "write_record nd p d = (Inl e, d') \<Longrightarrow> recs d' = recs d"
  using write_record_failed by (auto simp: stored_view_def fun_eq_iff split: sum.split)

text \<open>A batch writes a part of its plan from the front: all of it when it succeeds, less when it fails.\<close>

lemma write_records_prefix:
  assumes "write_records nd ps d = (res, d')" "plan_consistent ps"
  shows "\<exists>n. (case res of Inr out \<Rightarrow> n = length ps \<and> length out = length ps | Inl _ \<Rightarrow> n < length ps) \<and>
    (\<forall>p \<in> set (take n ps). in_view (recs d') p) \<and>
    (\<forall>x k r. (x, k, r) \<notin> slot ` set (take n ps) \<longrightarrow> recs d' x k r = recs d x k r)"
  using assms
proof (induction ps arbitrary: d res d')
  case (Cons p ps)
  obtain r1 d1 where p: "write_record nd p d = (r1, d1)" by (cases "write_record nd p d")
  show ?case
  proof (cases r1)
    case (Inl e)
    with Cons.prems(1) p have "res = Inl e" "d' = d1" by auto
    moreover have "recs d1 = recs d" by (rule write_record_failed_view [OF p [unfolded Inl]])
    ultimately show ?thesis by (intro exI [of _ 0]) simp
  next
    case (Inr w)
    note v = write_record_view [OF p [unfolded Inr]]
    obtain r2 d2 where w2: "write_records nd ps d1 = (r2, d2)" by (cases "write_records nd ps d1")
    have r2: "write_records nd ps d1 = (r2, d')" "case r2 of Inl e \<Rightarrow> res = Inl e | Inr out \<Rightarrow> res = Inr (w # out)"
      using Cons.prems(1) w2 by (cases r2; auto simp: p Inr)+
    have "plan_consistent ps" using Cons.prems(2) unfolding plan_consistent_def by (meson list.set_intros(2))
    from Cons.IH [OF r2(1) this] obtain n where n:
      "case r2 of Inr out \<Rightarrow> n = length ps \<and> length out = length ps | Inl _ \<Rightarrow> n < length ps"
      "\<forall>q \<in> set (take n ps). in_view (recs d') q"
      "\<forall>x k r. (x, k, r) \<notin> slot ` set (take n ps) \<longrightarrow> recs d' x k r = recs d1 x k r" by blast
    have "in_view (recs d') p"
    proof (cases "slot p \<in> slot ` set (take n ps)")
      case True
      then obtain q where q: "q \<in> set (take n ps)" "slot p = slot q" by auto
      then have "pr_fields p = pr_fields q"
        using Cons.prems(2) in_set_takeD [OF q(1)] unfolding plan_consistent_def
        by (meson list.set_intros)
      with n(2) q show ?thesis by (auto simp: in_view_def slot_def)
    next
      case False
      with n(3) v show ?thesis by (auto simp: in_view_def view_after_def slot_def)
    qed
    moreover have "recs d' x k r = recs d x k r" if "(x, k, r) \<notin> slot ` set (take (Suc n) (p # ps))" for x k r
      using that n(3) v by (auto simp: view_after_def)
    ultimately show ?thesis using n(1,2) r2(2)
      by (intro exI [of _ "Suc n"]) (auto split: sum.splits)
  qed
qed simp

lemma write_records_all:
  assumes "write_records nd ps d = (Inr out, d')" "plan_consistent ps"
  shows "\<forall>p \<in> set ps. in_view (recs d') p" "length out = length ps"
    "\<forall>x k r. (x, k, r) \<notin> slot ` set ps \<longrightarrow> recs d' x k r = recs d x k r"
  using write_records_prefix [OF assms] by auto

end

end
