(* ===== verification/Text_Extractor.thy ===== *)
theory Text_Extractor
  imports Planned_Records Suggestions
begin

text \<open>
  \<^verbatim>\<open>src/fingerprints/extractors/text.rs\<close> and \<^verbatim>\<open>src/fingerprints/schema_policy.rs\<close>: identity
  signals found in a text (emails, phone numbers, names) and the records planned for them.
  The three regular expressions run in the crate \<^verbatim>\<open>regex\<close>: what \<^verbatim>\<open>find_iter\<close> returns for each
  is the parameter \<open>signal_patterns\<close>. Everything done with the matches is modelled.
\<close>

section \<open>Weights and strengths\<close>

definition CO_OCCURRENCE_WEIGHT :: fl where "CO_OCCURRENCE_WEIGHT = f32_round (3 / 10)"
definition STRONG_MATCH_WEIGHT :: fl where "STRONG_MATCH_WEIGHT = f32_round (95 / 100)"
definition SHARED_INBOX_STRENGTH :: fl where "SHARED_INBOX_STRENGTH = f32_round (1 / 2)"

datatype signal_binding = CoOccurrence | Strong

fun edge_params :: "signal_binding \<Rightarrow> string \<times> fl" where
  "edge_params CoOccurrence = (edge_CO_OCCURRENCE, CO_OCCURRENCE_WEIGHT)"
| "edge_params Strong = (edge_STRONG_MATCH, STRONG_MATCH_WEIGHT)"

definition SHARED_INBOX_LOCAL_PARTS :: "string list" where
  "SHARED_INBOX_LOCAL_PARTS =
     [''info'', ''sales'', ''support'', ''help'', ''helpdesk'', ''contact'', ''admin'', ''administrator'',
      ''noreply'', ''no-reply'', ''do-not-reply'', ''donotreply'', ''team'', ''office'', ''hr'', ''jobs'',
      ''careers'', ''press'', ''media'', ''marketing'', ''billing'', ''accounts'', ''accounting'',
      ''finance'', ''legal'', ''privacy'', ''security'', ''abuse'', ''postmaster'', ''webmaster'',
      ''mailer-daemon'']"

text \<open>\<^verbatim>\<open>str::split_once\<close> on a character.\<close>

definition split_once :: "char \<Rightarrow> string \<Rightarrow> (string \<times> string) option" where
  "split_once c s =
     (case dropWhile (\<lambda>x. x \<noteq> c) s of [] \<Rightarrow> None | _ # rest \<Rightarrow> Some (takeWhile (\<lambda>x. x \<noteq> c) s, rest))"

definition classify_email_strength :: "string \<Rightarrow> fl" where
  "classify_email_strength email =
     (case split_once CHR ''@'' email of
        None \<Rightarrow> Fin 1
      | Some (local_part, _) \<Rightarrow>
          if to_lowercase local_part \<in> set SHARED_INBOX_LOCAL_PARTS then SHARED_INBOX_STRENGTH else Fin 1)"

definition STRONG_BINDING_SCHEMAS :: "string list" where
  "STRONG_BINDING_SCHEMAS =
     [''Contacts'', ''AddressBook'', ''AppleContacts'', ''CalendarEvent'', ''AppleCalendarEvent'', ''EmailHeader'']"

definition binding_for_schema :: "string \<Rightarrow> signal_binding" where
  "binding_for_schema descriptive_schema_name =
     (if list_ex (\<lambda>s. eq_ignore_ascii_case s descriptive_schema_name) STRONG_BINDING_SCHEMAS then Strong
      else CoOccurrence)"

section \<open>Signals\<close>

definition TEXT_EXTRACTOR_NAME :: string where "TEXT_EXTRACTOR_NAME = ''text_regex''"

record extracted_signal =
  es_kind :: string
  es_value :: string
  es_fingerprint_id :: string
  es_strength :: fl

record signal_patterns =
  email_matches :: "string \<Rightarrow> string list"
  phone_matches :: "string \<Rightarrow> string list"
  name_matches :: "string \<Rightarrow> string list"

definition email_signal :: "(bytes \<Rightarrow> string) \<Rightarrow> string \<Rightarrow> extracted_signal" where
  "email_signal sha raw =
     (let value = to_lowercase raw in
      \<lparr>es_kind = kind_EMAIL, es_value = value, es_fingerprint_id = fingerprint_id_for_string sha kind_EMAIL raw,
       es_strength = classify_email_strength value\<rparr>)"

definition is_ascii_digit :: "char \<Rightarrow> bool" where
  "is_ascii_digit c \<longleftrightarrow> 48 \<le> char_code c \<and> char_code c \<le> 57"

definition phone_canonical :: "string \<Rightarrow> string" where
  "phone_canonical raw = filter (\<lambda>c. is_ascii_digit c \<or> c = CHR ''+'') raw"

definition phone_signal :: "(bytes \<Rightarrow> string) \<Rightarrow> string \<Rightarrow> extracted_signal option" where
  "phone_signal sha raw =
     (let canonical = phone_canonical raw in
      if utf8_len canonical < 7 then None
      else Some \<lparr>es_kind = kind_PHONE, es_value = canonical,
        es_fingerprint_id = fingerprint_id_for_string sha kind_PHONE canonical, es_strength = Fin 1\<rparr>)"

definition NAME_EXCLUSIONS :: "string list" where
  "NAME_EXCLUSIONS =
     [''January'', ''February'', ''March'', ''April'', ''May'', ''June'', ''July'', ''August'', ''September'',
      ''October'', ''November'', ''December'',
      ''Monday'', ''Tuesday'', ''Wednesday'', ''Thursday'', ''Friday'', ''Saturday'', ''Sunday'',
      ''New York'', ''San Francisco'', ''Los Angeles'', ''Las Vegas'', ''United States'', ''North America'',
      ''South America'', ''Good Morning'', ''Happy Birthday'', ''Thank You'', ''Dear Sir'', ''Dear Madam'',
      ''Best Regards'']"

definition name_signal :: "(bytes \<Rightarrow> string) \<Rightarrow> string \<Rightarrow> extracted_signal option" where
  "name_signal sha raw =
     (if raw \<in> set NAME_EXCLUSIONS then None
      else if length (split_whitespace raw) < 2 then None
      else Some \<lparr>es_kind = kind_FULL_NAME, es_value = raw,
        es_fingerprint_id = fingerprint_id_for_string sha kind_FULL_NAME raw, es_strength = Fin 1\<rparr>)"

definition extract_signals ::
    "(bytes \<Rightarrow> string) \<Rightarrow> signal_patterns \<Rightarrow> string \<Rightarrow> extracted_signal list" where
  "extract_signals sha pats text =
     map (email_signal sha) (email_matches pats text) @
     List.map_filter (phone_signal sha) (phone_matches pats text) @
     List.map_filter (name_signal sha) (name_matches pats text)"

section \<open>Records\<close>

definition text_fingerprint_fields :: "string \<Rightarrow> string \<Rightarrow> string \<Rightarrow> string \<Rightarrow> payload" where
  "text_fingerprint_fields fp_id fp_kind value now =
     [''id'' \<mapsto> JStr fp_id, ''kind'' \<mapsto> JStr fp_kind, ''value'' \<mapsto> JStr value, ''first_seen'' \<mapsto> JStr now,
      ''last_seen'' \<mapsto> JStr now]"

definition text_mention_fields :: "string \<Rightarrow> string \<Rightarrow> string \<Rightarrow> string list \<Rightarrow> string \<Rightarrow> payload" where
  "text_mention_fields mention_id source_schema source_key fp_ids now =
     [''id'' \<mapsto> JStr mention_id, ''source_schema'' \<mapsto> JStr source_schema, ''source_key'' \<mapsto> JStr source_key,
      ''source_field'' \<mapsto> JStr ''body'', ''fingerprint_ids'' \<mapsto> JArr (map JStr fp_ids),
      ''extractor'' \<mapsto> JStr TEXT_EXTRACTOR_NAME, ''confidence'' \<mapsto> json_float (f32_round (95 / 100)),
      ''created_at'' \<mapsto> JStr now]"

definition text_status_fields :: "string \<Rightarrow> string \<Rightarrow> string \<Rightarrow> nat \<Rightarrow> string \<Rightarrow> payload" where
  "text_status_fields status_id source_schema source_key n now =
     [''id'' \<mapsto> JStr status_id, ''source_schema'' \<mapsto> JStr source_schema, ''source_key'' \<mapsto> JStr source_key,
      ''extractor'' \<mapsto> JStr TEXT_EXTRACTOR_NAME,
      ''status'' \<mapsto> JStr (if n > 0 then ''RanWithResults'' else ''RanEmpty''),
      ''fingerprint_count'' \<mapsto> JInt (int n), ''ran_at'' \<mapsto> JStr now, ''model_version'' \<mapsto> JNull]"

definition text_edge_fields ::
    "string \<Rightarrow> string \<Rightarrow> string \<Rightarrow> string \<Rightarrow> fl \<Rightarrow> string \<Rightarrow> string \<Rightarrow> payload" where
  "text_edge_fields eg_id a b edge_kind_name weight mention_id now =
     [''id'' \<mapsto> JStr eg_id, ''a'' \<mapsto> JStr a, ''b'' \<mapsto> JStr b, ''kind'' \<mapsto> JStr edge_kind_name,
      ''weight'' \<mapsto> json_float weight, ''evidence_mention_ids'' \<mapsto> JArr [JStr mention_id], ''created_at'' \<mapsto> JStr now]"

definition text_edge_records ::
    "'d ingest_node \<Rightarrow> signal_binding \<Rightarrow> string \<Rightarrow> string \<Rightarrow> extracted_signal \<times> extracted_signal \<Rightarrow> planned_record list" where
  "text_edge_records N binding mention_id now = (\<lambda>(x, y).
     (let (edge_kind_name, base_weight) = edge_params binding;
          a = es_fingerprint_id x; b = es_fingerprint_id y;
          eg_id = edge_id (hash_hex N) a b edge_kind_name;
          weight = f32_mul base_weight (fl_min (es_strength x) (es_strength y)) in
      edge_with_rows N a b eg_id (text_edge_fields eg_id a b edge_kind_name weight mention_id now)))"

definition plan_text_extraction ::
    "'d ingest_node \<Rightarrow> signal_patterns \<Rightarrow> string \<Rightarrow> string \<Rightarrow> string \<Rightarrow> string \<Rightarrow> string \<Rightarrow> string \<Rightarrow> signal_binding
     \<Rightarrow> extraction_plan" where
  "plan_text_extraction N pats source_schema source_key text mention_id extraction_status_id now binding =
     (let signals = extract_signals (hash_hex N) pats text;
          status = planned_hash (EXTRACTION_STATUS N) extraction_status_id
            (text_status_fields extraction_status_id source_schema source_key (length signals) now);
          unique = dedup_by es_fingerprint_id {} signals;
          fp_ids = map es_fingerprint_id unique in
      \<lparr>plan_records =
         (if signals = [] then [status]
          else status #
            map (\<lambda>x. planned_hash (FINGERPRINT (host N)) (es_fingerprint_id x)
                   (text_fingerprint_fields (es_fingerprint_id x) (es_kind x) (es_value x) now)) unique @
            [planned_hash (MENTION (host N)) mention_id
               (text_mention_fields mention_id source_schema source_key fp_ids now)] @
            mention_rows N mention_id source_schema source_key fp_ids @
            concat (map (text_edge_records N binding mention_id now) (unordered_pairs unique))),
       plan_count = length signals, plan_ran_empty = (signals = [])\<rparr>)"

section \<open>What the weights amount to\<close>

text \<open>A shared inbox halves the edge: no edge that touches one reaches the clustering floor.\<close>

lemma edge_weight_values:
  "f32_mul CO_OCCURRENCE_WEIGHT (Fin 1) = CO_OCCURRENCE_WEIGHT"
  "f32_mul STRONG_MATCH_WEIGHT (Fin 1) = STRONG_MATCH_WEIGHT"
  "fl_lt (f32_mul STRONG_MATCH_WEIGHT SHARED_INBOX_STRENGTH) MIN_EDGE_WEIGHT"
  "fl_lt CO_OCCURRENCE_WEIGHT MIN_EDGE_WEIGHT"
  "fl_lt (f32_mul CO_OCCURRENCE_WEIGHT SHARED_INBOX_STRENGTH) MIN_EDGE_WEIGHT"
  "fl_le MIN_EDGE_WEIGHT STRONG_MATCH_WEIGHT"
  "fl_lt SHARED_INBOX_STRENGTH (Fin 1)"
  by code_simp+

lemma strength_cases: "classify_email_strength e = SHARED_INBOX_STRENGTH \<or> classify_email_strength e = Fin 1"
  by (auto simp: classify_email_strength_def split: option.splits)

lemma fl_min_strengths [simp]:
  "fl_min (Fin 1) (Fin 1) = Fin 1"
  "fl_min SHARED_INBOX_STRENGTH (Fin 1) = SHARED_INBOX_STRENGTH"
  "fl_min (Fin 1) SHARED_INBOX_STRENGTH = SHARED_INBOX_STRENGTH"
  "fl_min SHARED_INBOX_STRENGTH SHARED_INBOX_STRENGTH = SHARED_INBOX_STRENGTH"
  by code_simp+

lemma extracted_signal_cases:
  assumes "x \<in> set (extract_signals sha pats text)"
  shows "(es_strength x = SHARED_INBOX_STRENGTH \<or> es_strength x = Fin 1) \<and>
    (\<exists>kind value. es_kind x = kind \<and> kind \<in> {kind_EMAIL, kind_PHONE, kind_FULL_NAME} \<and>
       es_fingerprint_id x = fingerprint_id_for_string sha kind value)"
  using assms strength_cases [of "es_value x"]
  by (auto simp: extract_signals_def email_signal_def phone_signal_def name_signal_def map_filter_def Let_def
      split: if_splits)

end
