(* ===== verification/Face_Extractor.thy ===== *)
theory Face_Extractor
  imports Planned_Records
begin

text \<open>
  \<^verbatim>\<open>src/fingerprints/extractors/face.rs\<close> and \<^verbatim>\<open>src/fingerprints/face_ann_cache.rs\<close>: the records
  planned for the faces of one photo, and the cache of face embeddings that finds a new
  face's nearest neighbours. The search in the graph index (the crate \<^verbatim>\<open>instant-distance\<close>)
  is a parameter; the embeddings, their similarity and the cache's state are modelled.
\<close>

section \<open>The plan for one photo\<close>

record detected_face =
  df_embedding :: "f32 list"
  df_bbox :: "f32 list"
  df_confidence :: f32

definition face_id :: "(bytes \<Rightarrow> string) \<Rightarrow> detected_face \<Rightarrow> string" where
  "face_id sha face = fingerprint_id_for_face_embedding sha (map f32_bytes (df_embedding face))"

definition face_fingerprint_fields :: "string \<Rightarrow> f32 list \<Rightarrow> string \<Rightarrow> payload" where
  "face_fingerprint_fields fp_id embedding now =
     [''id'' \<mapsto> JStr fp_id, ''kind'' \<mapsto> JStr kind_FACE_EMBEDDING,
      ''value'' \<mapsto> JArr (map (\<lambda>w. json_float (f32_val w)) embedding),
      ''first_seen'' \<mapsto> JStr now, ''last_seen'' \<mapsto> JStr now]"

definition face_mention_fields :: "string \<Rightarrow> string \<Rightarrow> string \<Rightarrow> string list \<Rightarrow> string \<Rightarrow> payload" where
  "face_mention_fields mention_id source_schema source_key fp_ids now =
     [''id'' \<mapsto> JStr mention_id, ''source_schema'' \<mapsto> JStr source_schema, ''source_key'' \<mapsto> JStr source_key,
      ''source_field'' \<mapsto> JStr ''face'', ''fingerprint_ids'' \<mapsto> JArr (map JStr fp_ids),
      ''extractor'' \<mapsto> JStr ''face_detect'', ''confidence'' \<mapsto> json_float (Fin 1), ''created_at'' \<mapsto> JStr now]"

definition face_edge_fields ::
    "string \<Rightarrow> string \<Rightarrow> string \<Rightarrow> string \<Rightarrow> fl \<Rightarrow> string \<Rightarrow> string \<Rightarrow> payload" where
  "face_edge_fields eg_id a b kind weight evidence_mention_id now =
     (let (first, second) = (if a \<le> b then (a, b) else (b, a)) in
      [''id'' \<mapsto> JStr eg_id, ''a'' \<mapsto> JStr first, ''b'' \<mapsto> JStr second, ''kind'' \<mapsto> JStr kind,
       ''weight'' \<mapsto> json_float weight, ''evidence_mention_ids'' \<mapsto> JArr [JStr evidence_mention_id],
       ''created_at'' \<mapsto> JStr now])"

definition face_status_fields :: "string \<Rightarrow> string \<Rightarrow> string \<Rightarrow> nat \<Rightarrow> string \<Rightarrow> payload" where
  "face_status_fields status_id source_schema source_key n now =
     [''id'' \<mapsto> JStr status_id, ''source_schema'' \<mapsto> JStr source_schema, ''source_key'' \<mapsto> JStr source_key,
      ''extractor'' \<mapsto> JStr ''face_detect'',
      ''status'' \<mapsto> JStr (if n > 0 then ''RanWithResults'' else ''RanEmpty''),
      ''fingerprint_count'' \<mapsto> JInt (int n), ''ran_at'' \<mapsto> JStr now, ''model_version'' \<mapsto> JNull]"

definition FACE_EDGE_WEIGHT :: fl where "FACE_EDGE_WEIGHT = f32_round (2 / 10)"

definition face_edge_records ::
    "'d ingest_node \<Rightarrow> string \<Rightarrow> string \<Rightarrow> string \<times> string \<Rightarrow> planned_record list" where
  "face_edge_records N mention_id now = (\<lambda>(a, b).
     (let eg_id = edge_id (hash_hex N) a b edge_CO_OCCURRENCE in
      edge_with_rows N a b eg_id
        (face_edge_fields eg_id a b edge_CO_OCCURRENCE FACE_EDGE_WEIGHT mention_id now)))"

definition plan_face_extraction ::
    "'d ingest_node \<Rightarrow> string \<Rightarrow> string \<Rightarrow> detected_face list \<Rightarrow> string \<Rightarrow> string \<Rightarrow> string \<Rightarrow> extraction_plan" where
  "plan_face_extraction N source_schema source_key faces mention_id extraction_status_id now =
     (let status = planned_hash (EXTRACTION_STATUS N) extraction_status_id
            (face_status_fields extraction_status_id source_schema source_key (length faces) now);
          unique_fp_ids = dedup_by id {} (map (face_id (hash_hex N)) faces) in
      \<lparr>plan_records =
         (if faces = [] then [status]
          else status #
            map (\<lambda>face. planned_hash (FINGERPRINT (host N)) (face_id (hash_hex N) face)
                   (face_fingerprint_fields (face_id (hash_hex N) face) (df_embedding face) now)) faces @
            [planned_hash (MENTION (host N)) mention_id
               (face_mention_fields mention_id source_schema source_key unique_fp_ids now)] @
            mention_rows N mention_id source_schema source_key unique_fp_ids @
            concat (map (face_edge_records N mention_id now) (unordered_pairs unique_fp_ids))),
       plan_count = length faces, plan_ran_empty = (faces = [])\<rparr>)"

section \<open>Embeddings\<close>

text \<open>\<^verbatim>\<open>FaceEmbedding\<close>: a vector of \<^verbatim>\<open>f32\<close> values of Euclidean norm one, up to rounding.\<close>

type_synonym face_embedding = "fl list"

definition embedding_norm :: "fl list \<Rightarrow> fl" where
  "embedding_norm raw = f32_sqrt (f32_sum (map (\<lambda>v. f32_mul v v) raw))"

definition new_embedding :: "(fl \<Rightarrow> string) \<Rightarrow> fl list \<Rightarrow> fold_db_error + face_embedding" where
  "new_embedding show_float raw =
     (if raw = [] then Inl (Config ''face_ann_cache: cannot index an empty embedding'')
      else (let norm = embedding_norm raw in
        if \<not> is_finite norm \<or> norm = Fin 0 then
          Inl (Config (''face_ann_cache: cannot normalize embedding with norm='' @ show_float norm))
        else Inr (map (\<lambda>v. f32_div v norm) raw)))"

definition cosine :: "face_embedding \<Rightarrow> face_embedding \<Rightarrow> fl" where
  "cosine u v = f32_sum (map2 f32_mul u v)"

definition distance :: "face_embedding \<Rightarrow> face_embedding \<Rightarrow> fl" where
  "distance u v = f32_sub (Fin 1) (cosine u v)"

section \<open>The cache\<close>

text \<open>
  The index is built over the entries of one moment: it is kept as that list. A search
  returns the positions of indexed entries, nearest first, each with its distance to the
  query; which positions it finds is the parameter \<open>search\<close>.
\<close>

type_synonym ann_entry = "string \<times> face_embedding"

type_synonym ann_search = "ann_entry list \<Rightarrow> face_embedding \<Rightarrow> nat list"

record ann_cache =
  ann_entries :: "ann_entry list"
  ann_index :: "ann_entry list option"
  ann_indexed_len :: nat

record cache_hit =
  hit_fingerprint_id :: string
  hit_similarity :: fl

definition empty_cache :: ann_cache where
  "empty_cache = \<lparr>ann_entries = [], ann_index = None, ann_indexed_len = 0\<rparr>"

definition ann_len :: "ann_cache \<Rightarrow> nat" where
  "ann_len c = length (ann_entries c)"

definition ann_add :: "string \<Rightarrow> face_embedding \<Rightarrow> ann_cache \<Rightarrow> ann_cache" where
  "ann_add fp_id e c = c\<lparr>ann_entries := ann_entries c @ [(fp_id, e)]\<rparr>"

definition ann_flush :: "ann_cache \<Rightarrow> ann_cache" where
  "ann_flush c =
     (if length (ann_entries c) = ann_indexed_len c \<and> ann_index c \<noteq> None then c
      else if ann_entries c = [] then c\<lparr>ann_index := None, ann_indexed_len := 0\<rparr>
      else c\<lparr>ann_indexed_len := length (ann_entries c), ann_index := Some (ann_entries c)\<rparr>)"

definition ann_nearest ::
    "ann_search \<Rightarrow> face_embedding \<Rightarrow> nat \<Rightarrow> ann_cache \<Rightarrow> cache_hit list \<times> ann_cache" where
  "ann_nearest search query k c =
     (let c = ann_flush c in
      (case ann_index c of
         None \<Rightarrow> []
       | Some index \<Rightarrow> map (\<lambda>i. \<lparr>hit_fingerprint_id = fst (index ! i),
             hit_similarity = f32_sub (Fin 1) (distance query (snd (index ! i)))\<rparr>)
           (take k (search index query)), c))"

definition ann_replace_all :: "ann_entry list \<Rightarrow> ann_cache \<Rightarrow> ann_cache" where
  "ann_replace_all entries c = ann_flush (c\<lparr>ann_entries := entries, ann_index := None, ann_indexed_len := 0\<rparr>)"

section \<open>Rebuilding the cache from the store\<close>

text \<open>One record of the registry: an entry, or nothing (another kind, or malformed).\<close>

definition rebuild_entry :: "(fl \<Rightarrow> string) \<Rightarrow> json \<Rightarrow> ann_entry option" where
  "rebuild_entry show_float rec =
     (case json_get ''fields'' rec of
        None \<Rightarrow> None
      | Some fs \<Rightarrow>
          if opt_bind (json_get ''kind'' fs) as_str \<noteq> Some ''face_embedding'' then None
          else (case (opt_bind (json_get ''id'' fs) as_str, opt_bind (json_get ''value'' fs) as_array) of
             (Some fp_id, Some vs) \<Rightarrow>
               if list_all (\<lambda>v. as_f64 v \<noteq> None) vs then
                 (case new_embedding show_float (map (\<lambda>v. as_f32 (the (as_f64 v))) vs) of
                    Inr e \<Rightarrow> Some (fp_id, e) | Inl _ \<Rightarrow> None)
               else None
           | _ \<Rightarrow> None))"

definition rebuild_from_store ::
    "'d fp_node \<Rightarrow> 'd \<Rightarrow> ann_cache \<Rightarrow> (fold_db_error + nat) \<times> ann_cache" where
  "rebuild_from_store nd d c =
     (case lookup_name (registry nd) (FINGERPRINT nd) of
        Inl e \<Rightarrow> (Inl (Config (''face_ann_cache: canonical_names not initialized for '' @ CHR 0x27 #
            FINGERPRINT nd @ CHR 0x27 # '': '' @ show_error nd e)), c)
      | Inr canonical \<Rightarrow>
          (case query_db nd d (simple_query canonical [''id'', ''kind'', ''value''] None) of
             Inl e \<Rightarrow> (Inl (Config (''face_ann_cache: failed to query Fingerprint registry: '' @ show_error nd e)), c)
           | Inr records \<Rightarrow>
               (let entries = List.map_filter (rebuild_entry (show_f32 nd)) records in
                (Inr (length entries), ann_replace_all entries c))))"

text \<open>
  The process-wide cache with its flag. The mutex around the rebuild makes concurrent first
  calls run one after the other, so a call is one step.
\<close>

record ann_global =
  ag_cache :: ann_cache
  ag_initialized :: bool

definition ensure_cache_ready ::
    "'d fp_node \<Rightarrow> 'd \<Rightarrow> ann_global \<Rightarrow> (fold_db_error + unit) \<times> ann_global" where
  "ensure_cache_ready nd d g =
     (if ag_initialized g then (Inr (), g)
      else (case rebuild_from_store nd d (ag_cache g) of
          (Inl e, c) \<Rightarrow> (Inl e, g\<lparr>ag_cache := c\<rparr>)
        | (Inr _, c) \<Rightarrow> (Inr (), \<lparr>ag_cache = c, ag_initialized = True\<rparr>)))"

section \<open>The index follows the entries\<close>

text \<open>
  The staleness test compares lengths only. That is enough: between two flushes entries are
  only appended, so an index as long as the entries is an index of these entries.
\<close>

definition ann_ok :: "ann_cache \<Rightarrow> bool" where
  "ann_ok c \<longleftrightarrow> (case ann_index c of
     None \<Rightarrow> ann_indexed_len c = 0
   | Some index \<Rightarrow> ann_indexed_len c = length index \<and> index \<noteq> [] \<and> prefix index (ann_entries c))"

lemma ann_ok_empty: "ann_ok empty_cache"
  by (simp add: ann_ok_def empty_cache_def)

lemma ann_ok_add: "ann_ok c \<Longrightarrow> ann_ok (ann_add i e c)"
  by (auto simp: ann_ok_def ann_add_def split: option.splits)

lemma ann_ok_flush: "ann_ok c \<Longrightarrow> ann_ok (ann_flush c)"
  by (auto simp: ann_ok_def ann_flush_def split: option.splits)

lemma ann_entries_flush [simp]: "ann_entries (ann_flush c) = ann_entries c"
  by (simp add: ann_flush_def)

lemma ann_flush_index:
  "ann_ok c \<Longrightarrow> ann_index (ann_flush c) = (if ann_entries c = [] then None else Some (ann_entries c))"
  by (auto simp: ann_ok_def ann_flush_def prefix_def split: option.splits)

lemma ann_ok_replace: "ann_ok (ann_replace_all es c)"
  by (auto simp: ann_ok_def ann_replace_all_def ann_flush_def)

lemma ann_entries_replace [simp]: "ann_entries (ann_replace_all es c) = es"
  by (simp add: ann_replace_all_def)

lemma ann_entries_add [simp]: "ann_entries (ann_add i e c) = ann_entries c @ [(i, e)]"
  by (simp add: ann_add_def)

text \<open>A search sees every entry added before it, pending ones included.\<close>

lemma ann_nearest_spec:
  "ann_ok c \<Longrightarrow> ann_nearest search q k c =
     (if ann_entries c = [] then []
      else map (\<lambda>i. \<lparr>hit_fingerprint_id = fst (ann_entries c ! i),
             hit_similarity = f32_sub (Fin 1) (distance q (snd (ann_entries c ! i)))\<rparr>)
           (take k (search (ann_entries c) q)), ann_flush c)"
  by (simp add: ann_nearest_def Let_def ann_flush_index)

end
