(* ===== verification/Fingerprint_Ingest.thy ===== *)
theory Fingerprint_Ingest
  imports Text_Extractor Face_Extractor
begin

text \<open>
  The ingestion of photos and texts into the fingerprint graph: \<^verbatim>\<open>src/fingerprints/ingest_photo.rs\<close>,
  \<^verbatim>\<open>ingest_text.rs\<close> and \<^verbatim>\<open>ingestion_error_writer.rs\<close>, the batch handlers
  \<^verbatim>\<open>src/handlers/fingerprints/ingest.rs\<close> and \<^verbatim>\<open>ingest_text.rs\<close>, the hook
  \<^verbatim>\<open>src/ingestion/fingerprint_hook.rs\<close> that generic ingestion runs after each batch, and the
  panel of failed records (\<^verbatim>\<open>ingestion_errors.rs\<close>). Times are arguments. A handler that starts
  the persona sweep in the background returns that it does; the sweep is in \<open>Suggestions\<close>.
\<close>

section \<open>Deterministic keys\<close>

definition deterministic_mention_id :: "(bytes \<Rightarrow> string) \<Rightarrow> string \<Rightarrow> string \<Rightarrow> string \<Rightarrow> string" where
  "deterministic_mention_id sha source_schema source_key extractor_name =
     ''mn_'' @ take 32 (sha (as_bytes ''Mention'' @ as_bytes source_schema @ as_bytes '':'' @ as_bytes source_key @
       as_bytes '':'' @ as_bytes extractor_name))"

definition extraction_status_id :: "string \<Rightarrow> string \<Rightarrow> string \<Rightarrow> string" where
  "extraction_status_id source_schema source_key extractor_name =
     ''es_'' @ source_schema @ '':'' @ source_key @ '':'' @ extractor_name"

section \<open>Similarity edges between photos\<close>

definition MIN_SIMILARITY_EDGE :: fl where "MIN_SIMILARITY_EDGE = f32_round (85 / 100)"
definition STRONG_MATCH_CUTOFF :: fl where "STRONG_MATCH_CUTOFF = f32_round (95 / 100)"
definition NEIGHBOR_QUERY_K :: nat where "NEIGHBOR_QUERY_K = 5"

definition similarity_edge_fields ::
    "string \<Rightarrow> string \<Rightarrow> string \<Rightarrow> string \<Rightarrow> fl \<Rightarrow> string \<Rightarrow> string \<Rightarrow> payload" where
  "similarity_edge_fields eg_id a b kind weight mention_id now =
     [''id'' \<mapsto> JStr eg_id, ''a'' \<mapsto> JStr a, ''b'' \<mapsto> JStr b, ''kind'' \<mapsto> JStr kind, ''weight'' \<mapsto> json_float weight,
      ''evidence_mention_ids'' \<mapsto> JArr [JStr mention_id], ''created_at'' \<mapsto> JStr now]"

definition hit_records ::
    "'d ingest_node \<Rightarrow> string \<Rightarrow> string \<Rightarrow> string \<Rightarrow> cache_hit \<Rightarrow> planned_record list" where
  "hit_records N fp_id mention_id now hit =
     (if hit_fingerprint_id hit = fp_id then []
      else if fl_lt (hit_similarity hit) MIN_SIMILARITY_EDGE then []
      else (let kind = (if fl_le STRONG_MATCH_CUTOFF (hit_similarity hit) then edge_STRONG_MATCH else edge_MEDIUM_MATCH);
                eg_id = edge_id (hash_hex N) fp_id (hit_fingerprint_id hit) kind in
        edge_with_rows N fp_id (hit_fingerprint_id hit) eg_id
          (similarity_edge_fields eg_id fp_id (hit_fingerprint_id hit) kind (hit_similarity hit) mention_id now)))"

fun similarity_records ::
    "'d ingest_node \<Rightarrow> ann_search \<Rightarrow> string \<Rightarrow> string \<Rightarrow> detected_face list \<Rightarrow> ann_cache
     \<Rightarrow> planned_record list \<times> ann_cache" where
  "similarity_records N search mention_id now [] c = ([], c)"
| "similarity_records N search mention_id now (face # faces) c =
     (let fp_id = face_id (hash_hex N) face in
      case new_embedding (show_f32 (host N)) (map f32_val (df_embedding face)) of
        Inl _ \<Rightarrow> similarity_records N search mention_id now faces c
      | Inr embedding \<Rightarrow>
          (let (hits, c) = ann_nearest search embedding NEIGHBOR_QUERY_K c;
               (rest, c) = similarity_records N search mention_id now faces (ann_add fp_id embedding c) in
           (concat (map (hit_records N fp_id mention_id now) hits) @ rest, c)))"

definition emit_similarity_edges_for_faces ::
    "'d ingest_node \<Rightarrow> ann_search \<Rightarrow> detected_face list \<Rightarrow> string \<Rightarrow> string \<Rightarrow> 'd \<Rightarrow> ann_global
     \<Rightarrow> (fold_db_error + nat) \<times> 'd \<times> ann_global" where
  "emit_similarity_edges_for_faces N search faces mention_id now d g =
     (if faces = [] then (Inr 0, d, g)
      else (case ensure_cache_ready (host N) d g of
          (Inl e, g) \<Rightarrow> (Inl e, d, g)
        | (Inr _, g) \<Rightarrow>
            (let (new_records, c) = similarity_records N search mention_id now faces (ag_cache g);
                 g = g\<lparr>ag_cache := c\<rparr> in
             if new_records = [] then (Inr 0, d, g)
             else (case write_records (host N) new_records d of
                 (Inl e, d) \<Rightarrow> (Inl e, d, g)
               | (Inr out, d) \<Rightarrow> (Inr (length out), d, g)))))"

section \<open>One photo, one text\<close>

record ingestion_outcome =
  io_records_written :: nat
  io_count :: nat
  io_ran_empty :: bool

definition FACE_EXTRACTOR_NAME :: string where "FACE_EXTRACTOR_NAME = ''face_detect''"

text \<open>A failure of the similarity pass is logged and counts as no records.\<close>

definition ingest_photo_faces ::
    "'d ingest_node \<Rightarrow> ann_search \<Rightarrow> string \<Rightarrow> string \<Rightarrow> detected_face list \<Rightarrow> string \<Rightarrow> 'd \<Rightarrow> ann_global
     \<Rightarrow> (fold_db_error + ingestion_outcome) \<times> 'd \<times> ann_global" where
  "ingest_photo_faces N search source_schema source_key faces now d g =
     (let mention_id = deterministic_mention_id (hash_hex N) source_schema source_key FACE_EXTRACTOR_NAME;
          es_id = extraction_status_id source_schema source_key FACE_EXTRACTOR_NAME;
          plan = plan_face_extraction N source_schema source_key faces mention_id es_id now in
      case write_records (host N) (plan_records plan) d of
        (Inl e, d) \<Rightarrow> (Inl e, d, g)
      | (Inr out, d) \<Rightarrow>
          (case emit_similarity_edges_for_faces N search faces mention_id now d g of
             (sim, d, g) \<Rightarrow>
               (Inr \<lparr>io_records_written = length out + (case sim of Inr n \<Rightarrow> n | Inl _ \<Rightarrow> 0),
                     io_count = plan_count plan, io_ran_empty = plan_ran_empty plan\<rparr>, d, g)))"

definition text_plan ::
    "'d ingest_node \<Rightarrow> signal_patterns \<Rightarrow> string \<Rightarrow> string \<Rightarrow> string \<Rightarrow> string \<Rightarrow> signal_binding \<Rightarrow> extraction_plan" where
  "text_plan N pats source_schema source_key body now binding =
     plan_text_extraction N pats source_schema source_key body
       (deterministic_mention_id (hash_hex N) source_schema source_key TEXT_EXTRACTOR_NAME)
       (extraction_status_id source_schema source_key TEXT_EXTRACTOR_NAME) now binding"

definition ingest_text_signals ::
    "'d ingest_node \<Rightarrow> signal_patterns \<Rightarrow> string \<Rightarrow> string \<Rightarrow> string \<Rightarrow> string \<Rightarrow> signal_binding \<Rightarrow> 'd
     \<Rightarrow> (fold_db_error + ingestion_outcome) \<times> 'd" where
  "ingest_text_signals N pats source_schema source_key body now binding d =
     (let plan = text_plan N pats source_schema source_key body now binding in
      case write_records (host N) (plan_records plan) d of
        (Inl e, d) \<Rightarrow> (Inl e, d)
      | (Inr out, d) \<Rightarrow>
          (Inr \<lparr>io_records_written = length out, io_count = plan_count plan, io_ran_empty = plan_ran_empty plan\<rparr>, d))"

section \<open>Ingestion errors\<close>

record ingestion_error_record =
  ie_source_schema :: string
  ie_source_key :: string
  ie_extractor :: string
  ie_error_class :: string
  ie_error_msg :: string

definition deterministic_error_id :: "(bytes \<Rightarrow> string) \<Rightarrow> ingestion_error_record \<Rightarrow> string" where
  "deterministic_error_id sha row =
     take 35 (''ie_'' @ sha (as_bytes ''IngestionError'' @ as_bytes (ie_source_schema row) @ as_bytes '':'' @
       as_bytes (ie_source_key row) @ as_bytes '':'' @ as_bytes (ie_extractor row)))"

definition build_ingestion_error_record ::
    "'d ingest_node \<Rightarrow> string \<Rightarrow> ingestion_error_record \<Rightarrow> planned_record" where
  "build_ingestion_error_record N now row =
     (let eid = deterministic_error_id (hash_hex N) row in
      planned_hash (INGESTION_ERROR N) eid
        [''id'' \<mapsto> JStr eid, ''source_schema'' \<mapsto> JStr (ie_source_schema row), ''source_key'' \<mapsto> JStr (ie_source_key row),
         ''extractor'' \<mapsto> JStr (ie_extractor row), ''error_class'' \<mapsto> JStr (ie_error_class row),
         ''error_msg'' \<mapsto> JStr (ie_error_msg row), ''retry_count'' \<mapsto> JInt 0, ''resolved'' \<mapsto> JBool False,
         ''created_at'' \<mapsto> JStr now, ''last_retry_at'' \<mapsto> JNull])"

text \<open>Best effort: the outcome of the write is only logged.\<close>

definition write_ingestion_error :: "'d ingest_node \<Rightarrow> string \<Rightarrow> ingestion_error_record \<Rightarrow> 'd \<Rightarrow> 'd" where
  "write_ingestion_error N now row d = snd (write_records (host N) [build_ingestion_error_record N now row] d)"

definition META_EXTRACTOR_ZERO_YIELD :: string where "META_EXTRACTOR_ZERO_YIELD = ''meta_zero_yield''"
definition ERROR_CLASS_ZERO_EXTRACTOR_YIELD :: string where
  "ERROR_CLASS_ZERO_EXTRACTOR_YIELD = ''ZeroExtractorYield''"

definition emit_zero_yield_meta_error ::
    "'d ingest_node \<Rightarrow> string \<Rightarrow> string \<Rightarrow> string \<Rightarrow> string \<Rightarrow> 'd \<Rightarrow> 'd" where
  "emit_zero_yield_meta_error N now source_schema source_key error_msg d =
     write_ingestion_error N now
       \<lparr>ie_source_schema = source_schema, ie_source_key = source_key, ie_extractor = META_EXTRACTOR_ZERO_YIELD,
        ie_error_class = ERROR_CLASS_ZERO_EXTRACTOR_YIELD, ie_error_msg = error_msg\<rparr> d"

definition canonical_names_ready_for_ingestion_error :: "'d ingest_node \<Rightarrow> fold_db_error + unit" where
  "canonical_names_ready_for_ingestion_error N =
     map_err (\<lambda>e. Config (''ingestion_error_writer: canonical_names registry missing '' @ quoted (INGESTION_ERROR N) @
        '' -- register_phase_1_schemas() must run first. Error: '' @ show_error (host N) e))
       (res_bind (lookup_name (registry (host N)) (INGESTION_ERROR N)) (\<lambda>_. Inr ()))"

section \<open>The batch handlers\<close>

record photo_faces =
  pf_source_key :: string
  pf_faces :: "detected_face list"
  pf_expected_to_yield :: bool

record ingest_result =
  ir_source_key :: string
  ir_ok :: bool
  ir_count :: nat
  ir_records_written :: nat
  ir_ran_empty :: bool
  ir_error :: "string option"

record ingest_response =
  rs_total :: nat
  rs_successful :: nat
  rs_total_count :: nat
  rs_total_written :: nat
  rs_per_record :: "ingest_result list"

definition first_bad_float :: "fl list \<Rightarrow> (nat \<times> fl) option" where
  "first_bad_float xs = find (\<lambda>(_, v). \<not> is_finite v) (enumerate 0 xs)"

fun validate_faces_from :: "(fl \<Rightarrow> string) \<Rightarrow> nat \<Rightarrow> detected_face list \<Rightarrow> string \<times> string + unit" where
  "validate_faces_from show_float i [] = Inr ()"
| "validate_faces_from show_float i (face # faces) =
     (if df_embedding face = [] then
        Inl (''EmptyFaceEmbedding'', ''face['' @ show_nat i @ ''] has an empty embedding vector'')
      else (case first_bad_float (map f32_val (df_embedding face)) of
          Some (j, v) \<Rightarrow> Inl (''MalformedFaceEmbedding'', ''face['' @ show_nat i @ ''].embedding['' @ show_nat j @ ''] = '' @
            show_float v @ '' is not a finite number'')
        | None \<Rightarrow> validate_faces_from show_float (Suc i) faces))"

definition validate_face_inputs :: "(fl \<Rightarrow> string) \<Rightarrow> detected_face list \<Rightarrow> string \<times> string + unit" where
  "validate_face_inputs show_float faces = validate_faces_from show_float 0 faces"

definition record_photo_failure ::
    "'d ingest_node \<Rightarrow> string \<Rightarrow> string \<Rightarrow> string \<Rightarrow> string \<Rightarrow> string \<Rightarrow> 'd \<Rightarrow> ingest_result \<times> 'd" where
  "record_photo_failure N now source_schema source_key error_class error_msg d =
     (\<lparr>ir_source_key = source_key, ir_ok = False, ir_count = 0, ir_records_written = 0, ir_ran_empty = False,
       ir_error = Some (error_class @ '': '' @ error_msg)\<rparr>,
      write_ingestion_error N now \<lparr>ie_source_schema = source_schema, ie_source_key = source_key,
        ie_extractor = FACE_EXTRACTOR_NAME, ie_error_class = error_class, ie_error_msg = error_msg\<rparr> d)"

definition ok_result :: "string \<Rightarrow> ingestion_outcome \<Rightarrow> ingest_result" where
  "ok_result source_key out = \<lparr>ir_source_key = source_key, ir_ok = True, ir_count = io_count out,
     ir_records_written = io_records_written out, ir_ran_empty = io_ran_empty out, ir_error = None\<rparr>"

text \<open>\<open>now\<close> is read once for the batch; an error row reads the clock again (\<open>err_now\<close>).\<close>

definition ingest_one_photo ::
    "'d ingest_node \<Rightarrow> ann_search \<Rightarrow> string \<Rightarrow> string \<Rightarrow> string \<Rightarrow> photo_faces \<Rightarrow> 'd \<Rightarrow> ann_global
     \<Rightarrow> ingest_result \<times> 'd \<times> ann_global" where
  "ingest_one_photo N search source_schema now err_now photo d g =
     (case validate_face_inputs (show_f32 (host N)) (pf_faces photo) of
        Inl (error_class, error_msg) \<Rightarrow>
          (case record_photo_failure N err_now source_schema (pf_source_key photo) error_class error_msg d of
             (r, d) \<Rightarrow> (r, d, g))
      | Inr _ \<Rightarrow>
          (case ingest_photo_faces N search source_schema (pf_source_key photo) (pf_faces photo) now d g of
             (Inr out, d, g) \<Rightarrow>
               (ok_result (pf_source_key photo) out,
                if pf_expected_to_yield photo \<and> io_ran_empty out then
                  emit_zero_yield_meta_error N err_now source_schema (pf_source_key photo)
                    ''face_detect ran with zero fingerprints despite expected_to_yield=true'' d
                else d, g)
           | (Inl e, d, g) \<Rightarrow>
               (case record_photo_failure N err_now source_schema (pf_source_key photo) ''WriterError''
                       (show_error (host N) e) d of
                  (r, d) \<Rightarrow> (r, d, g))))"

fun ingest_photos ::
    "'d ingest_node \<Rightarrow> ann_search \<Rightarrow> string \<Rightarrow> string \<Rightarrow> (nat \<Rightarrow> string) \<Rightarrow> nat \<Rightarrow> photo_faces list \<Rightarrow> 'd \<Rightarrow> ann_global
     \<Rightarrow> ingest_result list \<times> 'd \<times> ann_global" where
  "ingest_photos N search source_schema now clock i [] d g = ([], d, g)"
| "ingest_photos N search source_schema now clock i (photo # photos) d g =
     (let (r, d, g) = ingest_one_photo N search source_schema now (clock i) photo d g;
          (rs, d, g) = ingest_photos N search source_schema now clock (Suc i) photos d g in (r # rs, d, g))"

definition ingest_response_of :: "ingest_result list \<Rightarrow> ingest_response" where
  "ingest_response_of rs = \<lparr>rs_total = length rs, rs_successful = length (filter ir_ok rs),
     rs_total_count = sum_list (map ir_count rs), rs_total_written = sum_list (map ir_records_written rs),
     rs_per_record = rs\<rparr>"

text \<open>The boolean says whether the persona sweep is started in the background.\<close>

definition ingest_photo_faces_batch ::
    "'d ingest_node \<Rightarrow> ann_search \<Rightarrow> string \<Rightarrow> (nat \<Rightarrow> string) \<Rightarrow> string \<Rightarrow> photo_faces list \<Rightarrow> 'd \<Rightarrow> ann_global
     \<Rightarrow> (handler_error + ingest_response \<times> bool) \<times> 'd \<times> ann_global" where
  "ingest_photo_faces_batch N search now clock source_schema photos d g =
     (case require_non_empty source_schema ''source_schema must be a non-empty string'' of
        Inl e \<Rightarrow> (Inl e, d, g)
      | Inr _ \<Rightarrow>
          (let (rs, d, g) = ingest_photos N search source_schema now clock 0 photos d g;
               resp = ingest_response_of rs in
           (Inr (resp, 0 < rs_total_written resp), d, g)))"

record text_record =
  tr_source_key :: string
  tr_text :: string
  tr_expected_to_yield :: bool

definition ingest_one_text ::
    "'d ingest_node \<Rightarrow> signal_patterns \<Rightarrow> string \<Rightarrow> string \<Rightarrow> string \<Rightarrow> text_record \<Rightarrow> 'd \<Rightarrow> ingest_result \<times> 'd" where
  "ingest_one_text N pats source_schema now err_now rec d =
     (case ingest_text_signals N pats source_schema (tr_source_key rec) (tr_text rec) now CoOccurrence d of
        (Inr out, d) \<Rightarrow>
          (ok_result (tr_source_key rec) out,
           if tr_expected_to_yield rec \<and> io_ran_empty out then
             emit_zero_yield_meta_error N err_now source_schema (tr_source_key rec)
               ''text_regex ran with zero fingerprints despite expected_to_yield=true'' d
           else d)
      | (Inl e, d) \<Rightarrow>
          (\<lparr>ir_source_key = tr_source_key rec, ir_ok = False, ir_count = 0, ir_records_written = 0,
            ir_ran_empty = False, ir_error = Some (show_error (host N) e)\<rparr>, d))"

fun ingest_texts ::
    "'d ingest_node \<Rightarrow> signal_patterns \<Rightarrow> string \<Rightarrow> string \<Rightarrow> (nat \<Rightarrow> string) \<Rightarrow> nat \<Rightarrow> text_record list \<Rightarrow> 'd
     \<Rightarrow> ingest_result list \<times> 'd" where
  "ingest_texts N pats source_schema now clock i [] d = ([], d)"
| "ingest_texts N pats source_schema now clock i (rec # recs) d =
     (let (r, d) = ingest_one_text N pats source_schema now (clock i) rec d;
          (rs, d) = ingest_texts N pats source_schema now clock (Suc i) recs d in (r # rs, d))"

definition ingest_text_signals_batch ::
    "'d ingest_node \<Rightarrow> signal_patterns \<Rightarrow> string \<Rightarrow> (nat \<Rightarrow> string) \<Rightarrow> string \<Rightarrow> text_record list \<Rightarrow> 'd
     \<Rightarrow> (handler_error + ingest_response \<times> bool) \<times> 'd" where
  "ingest_text_signals_batch N pats now clock source_schema recs d =
     (case require_non_empty source_schema ''source_schema must be a non-empty string'' of
        Inl e \<Rightarrow> (Inl e, d)
      | Inr _ \<Rightarrow>
          (let (rs, d) = ingest_texts N pats source_schema now clock 0 recs d;
               resp = ingest_response_of rs in
           (Inr (resp, 0 < rs_total_written resp), d)))"

section \<open>The hook of generic ingestion\<close>

definition NON_IDENTITY_DATA_DOMAINS :: "string list" where
  "NON_IDENTITY_DATA_DOMAINS = [''location'', ''temporal'']"

text \<open>
  \<^verbatim>\<open>fold_db\<close>'s schema metadata: the descriptive name and the data domain of each classified
  field; \<^const>\<open>None\<close> is a failed or empty lookup. A mutation is reduced to what the hook
  reads; the rows of \<open>hm_fields\<close> are in the hash map's iteration order.
\<close>

record schema_metadata =
  md_descriptive_name :: "string option"
  md_data_domains :: "(string \<times> string) list"

record hook_mutation =
  hm_schema_name :: string
  hm_fields :: "(string \<times> json) list"
  hm_key :: key_value
  hm_uuid :: string

definition resolve_descriptive :: "(string \<Rightarrow> schema_metadata option) \<Rightarrow> string \<Rightarrow> string" where
  "resolve_descriptive metadata runtime_name =
     or_default runtime_name (opt_bind (metadata runtime_name) md_descriptive_name)"

definition non_identity_field_names :: "(string \<Rightarrow> schema_metadata option) \<Rightarrow> string \<Rightarrow> string set" where
  "non_identity_field_names metadata runtime_name =
     (case metadata runtime_name of
        None \<Rightarrow> {}
      | Some md \<Rightarrow> fst ` set (filter (\<lambda>(_, domain).
          list_ex (eq_ignore_ascii_case domain) NON_IDENTITY_DATA_DOMAINS) (md_data_domains md)))"

definition push_string :: "string \<Rightarrow> string \<Rightarrow> string" where
  "push_string s buf = (if buf = [] then s else buf @ CHR 0x0A # s)"

fun push_strings :: "json \<Rightarrow> string \<Rightarrow> string" where
  "push_strings (JStr s) buf = push_string s buf"
| "push_strings (JArr xs) buf = fold push_strings xs buf"
| "push_strings (JObj kvs) buf = fold (\<lambda>(_, v). push_strings v) kvs buf"
| "push_strings _ buf = buf"

definition collect_string_fields :: "(string \<times> json) list \<Rightarrow> string set \<Rightarrow> string" where
  "collect_string_fields fs skip = fold (\<lambda>(name, v) buf. if name \<in> skip then buf else push_strings v buf) fs []"

text \<open>
  What the hook takes from \<^verbatim>\<open>fold_db\<close> and \<^verbatim>\<open>schema_service_core\<close>: the descriptive names of the
  system schemas, the metadata of a runtime name and the rendering of a key.
\<close>

record hook_env =
  system_names :: "string list"
  metadata :: "string \<Rightarrow> schema_metadata option"
  show_key :: "key_value \<Rightarrow> string"

definition is_system_descriptive_schema :: "hook_env \<Rightarrow> string \<Rightarrow> bool" where
  "is_system_descriptive_schema he descriptive_name \<longleftrightarrow> descriptive_name \<in> set (system_names he)"

definition source_key_for :: "hook_env \<Rightarrow> hook_mutation \<Rightarrow> string" where
  "source_key_for he m = (let kv = show_key he (hm_key m) in if kv \<noteq> [] then kv else hm_uuid m)"

definition hook_one ::
    "'d ingest_node \<Rightarrow> signal_patterns \<Rightarrow> hook_env \<Rightarrow> string \<Rightarrow> hook_mutation \<Rightarrow> 'd \<Rightarrow> bool \<times> 'd" where
  "hook_one N pats he now m d =
     (let descriptive = resolve_descriptive (metadata he) (hm_schema_name m) in
      if is_system_descriptive_schema he descriptive then (False, d)
      else (let body = collect_string_fields (hm_fields m) (non_identity_field_names (metadata he) (hm_schema_name m)) in
        if trim body = [] then (False, d)
        else (case ingest_text_signals N pats descriptive (source_key_for he m) body now (binding_for_schema descriptive) d of
            (Inr out, d) \<Rightarrow> (\<not> io_ran_empty out, d)
          | (Inl _, d) \<Rightarrow> (False, d))))"

fun hook_each ::
    "'d ingest_node \<Rightarrow> signal_patterns \<Rightarrow> hook_env \<Rightarrow> string \<Rightarrow> hook_mutation list \<Rightarrow> nat \<Rightarrow> 'd \<Rightarrow> nat \<times> 'd" where
  "hook_each N pats he now [] n d = (n, d)"
| "hook_each N pats he now (m # ms) n d =
     (case hook_one N pats he now m d of
        (yields, d) \<Rightarrow> hook_each N pats he now ms (if yields then Suc n else n) d)"

text \<open>The number of records with signals, and whether the sweep is started.\<close>

definition run_after_batch ::
    "'d ingest_node \<Rightarrow> signal_patterns \<Rightarrow> hook_env \<Rightarrow> string \<Rightarrow> hook_mutation list \<Rightarrow> 'd \<Rightarrow> (nat \<times> bool) \<times> 'd" where
  "run_after_batch N pats he now ms d =
     (if ms = [] then ((0, False), d)
      else (case hook_each N pats he now ms 0 d of (n, d) \<Rightarrow> ((n, 0 < n), d)))"

section \<open>The panel of failed records\<close>

record ingestion_error_view =
  iv_err_id :: string
  iv_source_schema :: string
  iv_source_key :: string
  iv_extractor :: string
  iv_error_class :: string
  iv_error_msg :: string
  iv_retry_count :: int
  iv_resolved :: bool
  iv_created_at :: string
  iv_last_retry_at :: "string option"

definition ingestion_error_fields :: "string list" where
  "ingestion_error_fields =
     [''id'', ''source_schema'', ''source_key'', ''extractor'', ''error_class'', ''error_msg'', ''retry_count'',
      ''resolved'', ''created_at'', ''last_retry_at'']"

definition ingestion_error_view_from_fields :: "json \<Rightarrow> handler_error + ingestion_error_view" where
  "ingestion_error_view_from_fields fs =
     res_bind (ok_or (Internal (''ingestion-error record missing '' @ quoted ''id'' @ '' field'')) (string_field fs ''id'')) (\<lambda>eid.
     Inr \<lparr>iv_err_id = eid,
       iv_source_schema = or_default [] (string_field fs ''source_schema''),
       iv_source_key = or_default [] (string_field fs ''source_key''),
       iv_extractor = or_default [] (string_field fs ''extractor''),
       iv_error_class = or_default [] (string_field fs ''error_class''),
       iv_error_msg = or_default [] (string_field fs ''error_msg''),
       iv_retry_count = or_default 0 (opt_bind (json_get ''retry_count'' fs) as_i64),
       iv_resolved = or_default False (opt_bind (json_get ''resolved'' fs) as_bool),
       iv_created_at = or_default [] (string_field fs ''created_at''),
       iv_last_retry_at = string_field fs ''last_retry_at''\<rparr>)"

fun error_views :: "bool \<Rightarrow> json list \<Rightarrow> handler_error + ingestion_error_view list" where
  "error_views include_resolved [] = Inr []"
| "error_views include_resolved (r # rs) =
     (case json_get ''fields'' r of
        None \<Rightarrow> error_views include_resolved rs
      | Some fs \<Rightarrow>
          res_bind (ingestion_error_view_from_fields fs) (\<lambda>v.
          res_bind (error_views include_resolved rs) (\<lambda>vs.
          Inr (if \<not> include_resolved \<and> iv_resolved v then vs else v # vs))))"

definition list_ingestion_errors ::
    "'d ingest_node \<Rightarrow> 'd \<Rightarrow> bool \<Rightarrow> handler_error + ingestion_error_view list" where
  "list_ingestion_errors N d include_resolved =
     res_bind (canonical_lookup (host N) (INGESTION_ERROR N)) (\<lambda>canonical.
     res_bind (handler_err (show_error (host N)) ''query ingestion errors''
       (query_db (host N) d (simple_query canonical ingestion_error_fields None))) (\<lambda>records.
     res_bind (error_views include_resolved records) (\<lambda>vs.
     Inr (sort_desc iv_created_at vs))))"

definition resolve_ingestion_error ::
    "'d ingest_node \<Rightarrow> string \<Rightarrow> bool \<Rightarrow> 'd \<Rightarrow> (handler_error + ingestion_error_view) \<times> 'd" where
  "resolve_ingestion_error N error_id resolved d =
     (case res_bind (canonical_lookup (host N) (INGESTION_ERROR N)) (\<lambda>canonical.
           res_bind (handler_err (show_error (host N)) ''query ingestion errors''
             (query_db (host N) d (key_query canonical ingestion_error_fields error_id))) (\<lambda>records.
           res_bind (ok_or (NotFound (''ingestion error '' @ quoted error_id @ '' not found''))
             (case records of [] \<Rightarrow> None | r # _ \<Rightarrow> Some r)) (\<lambda>r.
           res_bind (ok_or (Internal (''ingestion-error record missing '' @ quoted ''fields'' @ '' envelope'')) (json_get ''fields'' r)) (\<lambda>fs.
           res_bind (case fs of JObj kvs \<Rightarrow> Inr (map_of kvs)
             | _ \<Rightarrow> Inl (Internal (''ingestion-error '' @ quoted ''fields'' @ '' envelope is not a JSON object''))) (\<lambda>m.
           Inr (canonical, fs, m)))))) of
        Inl e \<Rightarrow> (Inl e, d)
      | Inr (canonical, fs, m) \<Rightarrow>
          (case mutate_db (host N) d canonical (m(''resolved'' \<mapsto> JBool resolved)) (Some error_id, None) Update of
             (Inl e, d) \<Rightarrow>
               (Inl (Internal (''failed to update ingestion error '' @ quoted error_id @ '': '' @ show_error (host N) e)), d)
           | (Inr _, d) \<Rightarrow>
               (res_bind (ingestion_error_view_from_fields fs) (\<lambda>v. Inr (v\<lparr>iv_resolved := resolved\<rparr>)), d)))"

end
