(* ===== verification/Graph_Plans.thy ===== *)
theory Graph_Plans
  imports Record_Store Fingerprint_Ingest
begin

text \<open>
  The shape of the plans of all extractors (\<open>graph_plan\<close>), the well-formedness of the stored
  graph, and the invariant of the writer: running any part of such a plan on a well-formed
  graph leaves it well formed, and a plan that runs to its end leaves every edge it wrote
  listed under both endpoints.
\<close>

section \<open>Hashes of edges\<close>

definition edge_kinds :: "string list" where
  "edge_kinds = [edge_STRONG_MATCH, edge_MEDIUM_MATCH, edge_CO_OCCURRENCE, edge_IDENTITY_FACE]"

text \<open>No two edges between the fingerprints \<open>A\<close> have the same key, unless they have the same ends.\<close>

definition edge_keys_distinct :: "(bytes \<Rightarrow> string) \<Rightarrow> string set \<Rightarrow> bool" where
  "edge_keys_distinct sha A \<longleftrightarrow> (\<forall>a \<in> A. \<forall>b \<in> A. \<forall>a' \<in> A. \<forall>b' \<in> A. \<forall>k \<in> set edge_kinds. \<forall>k' \<in> set edge_kinds.
     edge_id sha a b k = edge_id sha a' b' k' \<longrightarrow> {a, b} = {a', b'})"

section \<open>Well-formed graphs\<close>

definition ends_of :: "payload \<Rightarrow> (string \<times> string) option" where
  "ends_of m = (case (m ''a'', m ''b'') of (Some (JStr a), Some (JStr b)) \<Rightarrow> Some (a, b) | _ \<Rightarrow> None)"

definition edge_record_ok :: "(bytes \<Rightarrow> string) \<Rightarrow> string set \<Rightarrow> string \<Rightarrow> payload \<Rightarrow> bool" where
  "edge_record_ok sha A e m \<longleftrightarrow> m ''id'' = Some (JStr e) \<and>
     (\<exists>a b k. ends_of m = Some (a, b) \<and> m ''kind'' = Some (JStr k) \<and> e = edge_id sha a b k \<and>
        a \<in> A \<and> b \<in> A \<and> k \<in> set edge_kinds)"

text \<open>
  Fingerprints are keyed by their identifier; an edge ends at fingerprints that exist; a row of
  \<^verbatim>\<open>EdgeByFingerprint\<close> names the edge it is keyed by, which exists and ends at the row's fingerprint.
\<close>

definition fingerprints_ok :: "'d ingest_node \<Rightarrow> string set \<Rightarrow> record_view \<Rightarrow> bool" where
  "fingerprints_ok N A R \<longleftrightarrow> (\<forall>k r m. R (FINGERPRINT (host N)) k r = Some m \<longrightarrow>
     r = None \<and> m ''id'' = Some (JStr k) \<and> k \<in> A)"

text \<open>
  A mention is keyed by an identifier made from the source it records. A row of \<^verbatim>\<open>MentionBySource\<close>
  names, under the source it is keyed by, a mention that exists and whose identifier is made from
  that source; a row of \<^verbatim>\<open>MentionByFingerprint\<close> names a mention that exists, under a fingerprint
  that exists. (It need not be listed by that mention any more: a source ingested again with other
  text overwrites its mention and leaves the rows of the old fingerprints.)
\<close>

definition mention_of :: "'d ingest_node \<Rightarrow> string \<Rightarrow> string \<Rightarrow> string \<Rightarrow> bool" where
  "mention_of N mn source_schema source_key \<longleftrightarrow>
     (\<exists>extractor. mn = deterministic_mention_id (hash_hex N) source_schema source_key extractor)"

definition mention_record_ok :: "'d ingest_node \<Rightarrow> string \<Rightarrow> payload \<Rightarrow> bool" where
  "mention_record_ok N mn m \<longleftrightarrow> m ''id'' = Some (JStr mn) \<and>
     (\<exists>s k. m ''source_schema'' = Some (JStr s) \<and> m ''source_key'' = Some (JStr k) \<and> mention_of N mn s k)"

text \<open>What is asked of the record \<open>m\<close> under \<open>k\<close> and \<open>r\<close>, where \<open>E\<close> are the records that exist.\<close>

definition mention_ok_at ::
    "'d ingest_node \<Rightarrow> (string \<times> string) set \<Rightarrow> string \<Rightarrow> string \<Rightarrow> string option \<Rightarrow> payload \<Rightarrow> bool" where
  "mention_ok_at N E x k r m \<longleftrightarrow>
     (x = MENTION (host N) \<longrightarrow> r = None \<and> mention_record_ok N k m) \<and>
     (x = MENTION_BY_SOURCE N \<longrightarrow> (\<exists>mn s sk. r = Some mn \<and> m ''mention_id'' = Some (JStr mn) \<and> m ''source_composite'' = Some (JStr k) \<and>
        k = mention_source_composite s sk \<and> mention_of N mn s sk \<and> (MENTION (host N), mn) \<in> E)) \<and>
     (x = MENTION_BY_FINGERPRINT (host N) \<longrightarrow> (\<exists>mn. r = Some mn \<and> m ''mention_id'' = Some (JStr mn) \<and>
        m ''fingerprint_id'' = Some (JStr k) \<and> (MENTION (host N), mn) \<in> E \<and> (FINGERPRINT (host N), k) \<in> E))"

definition records_present :: "record_view \<Rightarrow> (string \<times> string) set" where
  "records_present R = {(x, k). R x k None \<noteq> None}"

definition mention_rows_ok :: "'d ingest_node \<Rightarrow> record_view \<Rightarrow> bool" where
  "mention_rows_ok N R \<longleftrightarrow> (\<forall>x k r m. R x k r = Some m \<longrightarrow> mention_ok_at N (records_present R) x k r m)"

definition edges_ok :: "'d ingest_node \<Rightarrow> string set \<Rightarrow> record_view \<Rightarrow> bool" where
  "edges_ok N A R \<longleftrightarrow>
     (\<forall>e m. R (EDGE (host N)) e None = Some m \<longrightarrow> edge_record_ok (hash_hex N) A e m \<and>
        (\<forall>a b. ends_of m = Some (a, b) \<longrightarrow>
           R (FINGERPRINT (host N)) a None \<noteq> None \<and> R (FINGERPRINT (host N)) b None \<noteq> None)) \<and>
     (\<forall>fp e m. R (EDGE_BY_FINGERPRINT (host N)) fp (Some e) = Some m \<longrightarrow> m ''edge_id'' = Some (JStr e) \<and>
        (\<exists>em a b. R (EDGE (host N)) e None = Some em \<and> ends_of em = Some (a, b) \<and> fp \<in> {a, b})) \<and>
     (\<forall>e r. R (EDGE (host N)) e (Some r) = None) \<and> (\<forall>fp. R (EDGE_BY_FINGERPRINT (host N)) fp None = None)"

definition graph_wf :: "'d ingest_node \<Rightarrow> string set \<Rightarrow> record_view \<Rightarrow> bool" where
  "graph_wf N A R \<longleftrightarrow> fingerprints_ok N A R \<and> mention_rows_ok N R \<and> edges_ok N A R"

text \<open>Every edge, but for those of \<open>S\<close>, is listed under both endpoints.\<close>

definition listed_but :: "'d ingest_node \<Rightarrow> string set \<Rightarrow> record_view \<Rightarrow> bool" where
  "listed_but N S R \<longleftrightarrow> (\<forall>e m a b. e \<notin> S \<longrightarrow> R (EDGE (host N)) e None = Some m \<longrightarrow> ends_of m = Some (a, b) \<longrightarrow>
     R (EDGE_BY_FINGERPRINT (host N)) a (Some e) \<noteq> None \<and> R (EDGE_BY_FINGERPRINT (host N)) b (Some e) \<noteq> None)"

definition graph_names_distinct :: "'d ingest_node \<Rightarrow> bool" where
  "graph_names_distinct N \<longleftrightarrow> distinct [FINGERPRINT (host N), EDGE (host N), MENTION (host N),
     EDGE_BY_FINGERPRINT (host N), MENTION_BY_FINGERPRINT (host N), MENTION_BY_SOURCE N]"

section \<open>Single writes\<close>

lemma view_after_keep: "view_after R p R' \<Longrightarrow> (x, k, r) \<noteq> slot p \<Longrightarrow> R' x k r = R x k r"
  by (simp add: view_after_def)

lemma view_after_grow: "view_after R p R' \<Longrightarrow> R x k r \<noteq> None \<Longrightarrow> R' x k r \<noteq> None"
  by (cases "(x, k, r) = slot p") (auto simp: view_after_def slot_def)

text \<open>What a record of another schema has to be; \<open>K\<close> are the records known to exist.\<close>

definition other_record_ok :: "'d ingest_node \<Rightarrow> string set \<Rightarrow> (string \<times> string) set \<Rightarrow> planned_record \<Rightarrow> bool" where
  "other_record_ok N A K p \<longleftrightarrow> pr_schema p \<noteq> EDGE (host N) \<and> pr_schema p \<noteq> EDGE_BY_FINGERPRINT (host N) \<and>
     (pr_schema p = FINGERPRINT (host N) \<longrightarrow> pr_range_key p = None \<and> pr_hash_key p \<in> A \<and>
        pr_fields p ''id'' = Some (JStr (pr_hash_key p))) \<and>
     mention_ok_at N K (pr_schema p) (pr_hash_key p) (pr_range_key p) (pr_fields p)"

definition known_present :: "(string \<times> string) set \<Rightarrow> record_view \<Rightarrow> bool" where
  "known_present K R \<longleftrightarrow> (\<forall>(x, k) \<in> K. R x k None \<noteq> None)"

lemma field_le: "fs x = Some v \<Longrightarrow> fs \<subseteq>\<^sub>m m \<Longrightarrow> m x = Some v"
  by (auto simp: map_le_def dom_def)

lemma mention_ok_mono:
  assumes "mention_ok_at N E x k r fs" "E \<subseteq> E'" "fs \<subseteq>\<^sub>m m"
  shows "mention_ok_at N E' x k r m"
  unfolding mention_ok_at_def
proof (intro conjI impI)
  assume "x = MENTION (host N)"
  with assms(1) show "r = None" "mention_record_ok N k m"
    unfolding mention_ok_at_def mention_record_ok_def using field_le [OF _ assms(3)] by blast+
next
  assume "x = MENTION_BY_SOURCE N"
  with assms(1) obtain mn s sk where "r = Some mn" "fs ''mention_id'' = Some (JStr mn)" "fs ''source_composite'' = Some (JStr k)"
    "k = mention_source_composite s sk" "mention_of N mn s sk" "(MENTION (host N), mn) \<in> E"
    unfolding mention_ok_at_def by blast
  with field_le [OF _ assms(3)] assms(2) show "\<exists>mn s sk. r = Some mn \<and> m ''mention_id'' = Some (JStr mn) \<and>
      m ''source_composite'' = Some (JStr k) \<and> k = mention_source_composite s sk \<and> mention_of N mn s sk \<and> (MENTION (host N), mn) \<in> E'"
    by blast
next
  assume "x = MENTION_BY_FINGERPRINT (host N)"
  with assms(1) obtain mn where "r = Some mn" "fs ''mention_id'' = Some (JStr mn)" "fs ''fingerprint_id'' = Some (JStr k)"
    "(MENTION (host N), mn) \<in> E" "(FINGERPRINT (host N), k) \<in> E"
    unfolding mention_ok_at_def by blast
  with field_le [OF _ assms(3)] assms(2) show "\<exists>mn. r = Some mn \<and> m ''mention_id'' = Some (JStr mn) \<and>
      m ''fingerprint_id'' = Some (JStr k) \<and> (MENTION (host N), mn) \<in> E' \<and> (FINGERPRINT (host N), k) \<in> E'"
    by blast
qed

lemma present_grows: "view_after R p R' \<Longrightarrow> records_present R \<subseteq> records_present R'"
  using view_after_grow by (fastforce simp: records_present_def)

lemma known_present_iff: "known_present K R \<longleftrightarrow> K \<subseteq> records_present R"
  by (auto simp: known_present_def records_present_def)

lemma wf_other:
  assumes wf: "graph_wf N A R" and after: "view_after R p R'" and p: "other_record_ok N A K p" "known_present K R"
  shows "graph_wf N A R'"
proof -
  obtain m where m: "R' (pr_schema p) (pr_hash_key p) (pr_range_key p) = Some m" "pr_fields p \<subseteq>\<^sub>m m"
    using after by (auto simp: view_after_def)
  have keep: "R' x k r = R x k r" if "x \<noteq> pr_schema p" for x k r
    using after that by (auto simp: view_after_def slot_def)
  note grow = view_after_grow [OF after]
  have "fingerprints_ok N A R'"
    unfolding fingerprints_ok_def
  proof (intro allI impI)
    fix k r m'
    assume k: "R' (FINGERPRINT (host N)) k r = Some m'"
    show "r = None \<and> m' ''id'' = Some (JStr k) \<and> k \<in> A"
    proof (cases "(FINGERPRINT (host N), k, r) = slot p")
      case True
      then have "k = pr_hash_key p" "r = pr_range_key p" "m' = m" "pr_schema p = FINGERPRINT (host N)"
        using k m(1) by (auto simp: slot_def)
      with p(1) field_le [OF _ m(2)] show ?thesis by (simp add: other_record_ok_def)
    next
      case False
      with k after have "R (FINGERPRINT (host N)) k r = Some m'" by (simp add: view_after_def)
      with wf show ?thesis by (simp add: graph_wf_def fingerprints_ok_def)
    qed
  qed
  moreover have "mention_rows_ok N R'"
    unfolding mention_rows_ok_def
  proof (intro allI impI)
    fix x k r m'
    assume k: "R' x k r = Some m'"
    show "mention_ok_at N (records_present R') x k r m'"
    proof (cases "(x, k, r) = slot p")
      case True
      then have s: "x = pr_schema p" "k = pr_hash_key p" "r = pr_range_key p" "m' = m" using k m(1) by (auto simp: slot_def)
      have "mention_ok_at N K x k r (pr_fields p)" using p(1) by (simp add: other_record_ok_def s)
      moreover have "K \<subseteq> records_present R'" using p(2) present_grows [OF after] unfolding known_present_iff by blast
      ultimately show ?thesis using m(2) s(4) by (auto intro: mention_ok_mono)
    next
      case False
      with k after have "R x k r = Some m'" by (simp add: view_after_def)
      with wf have "mention_ok_at N (records_present R) x k r m'" by (simp add: graph_wf_def mention_rows_ok_def)
      then show ?thesis by (rule mention_ok_mono) (use present_grows [OF after] in auto)
    qed
  qed
  moreover have "edges_ok N A R'"
  proof -
    have "R' (EDGE (host N)) k r = R (EDGE (host N)) k r"
      "R' (EDGE_BY_FINGERPRINT (host N)) k r = R (EDGE_BY_FINGERPRINT (host N)) k r" for k r
      using keep p(1) by (auto simp: other_record_ok_def)
    with wf grow show ?thesis unfolding graph_wf_def edges_ok_def by simp
  qed
  ultimately show ?thesis by (simp add: graph_wf_def)
qed

lemma wf_frame:
  assumes wf: "graph_wf N A R" and edges: "edges_ok N A R'" and after: "view_after R p R'" and names: "graph_names_distinct N"
    and p: "pr_schema p \<in> {EDGE (host N), EDGE_BY_FINGERPRINT (host N)}"
  shows "graph_wf N A R'"
proof -
  have keep: "R' x k r = R x k r" if "x \<noteq> pr_schema p" for x k r
    using after that by (auto simp: view_after_def slot_def)
  have "R' (FINGERPRINT (host N)) k r = R (FINGERPRINT (host N)) k r" for k r
    using keep names p by (auto simp: graph_names_distinct_def)
  with wf have "fingerprints_ok N A R'" by (simp add: graph_wf_def fingerprints_ok_def)
  moreover have "mention_rows_ok N R'"
    unfolding mention_rows_ok_def
  proof (intro allI impI)
    fix x k r m
    assume x: "R' x k r = Some m"
    show "mention_ok_at N (records_present R') x k r m"
    proof (cases "x = pr_schema p")
      case True
      with p names show ?thesis by (auto simp: mention_ok_at_def graph_names_distinct_def)
    next
      case False
      with x keep have "R x k r = Some m" by simp
      with wf have "mention_ok_at N (records_present R) x k r m" by (simp add: graph_wf_def mention_rows_ok_def)
      then show ?thesis by (rule mention_ok_mono) (use present_grows [OF after] in auto)
    qed
  qed
  ultimately show ?thesis using edges by (simp add: graph_wf_def)
qed

lemma listed_other:
  assumes "listed_but N S R" "view_after R p R'" "pr_schema p \<noteq> EDGE (host N)"
    "pr_schema p \<noteq> EDGE_BY_FINGERPRINT (host N)"
  shows "listed_but N S R'"
proof -
  have keep: "R' x k r = R x k r" if "x \<noteq> pr_schema p" for x k r
    using assms(2) that by (auto simp: view_after_def slot_def)
  show ?thesis
    using assms(1) keep [OF assms(3) [symmetric]] keep [OF assms(4) [symmetric]] unfolding listed_but_def by simp
qed

text \<open>The three writes of an edge. Its fields are given up to the order of the ends.\<close>

definition edge_fields_ok :: "payload \<Rightarrow> string \<Rightarrow> string \<Rightarrow> string \<Rightarrow> string \<Rightarrow> bool" where
  "edge_fields_ok fs a b k e \<longleftrightarrow> fs ''id'' = Some (JStr e) \<and> fs ''kind'' = Some (JStr k) \<and>
     (ends_of fs = Some (a, b) \<or> ends_of fs = Some (b, a))"

lemma ends_of_le: "ends_of fs = Some (a, b) \<Longrightarrow> fs \<subseteq>\<^sub>m m \<Longrightarrow> ends_of m = Some (a, b)"
proof -
  assume e: "ends_of fs = Some (a, b)" and le: "fs \<subseteq>\<^sub>m m"
  from e have "fs ''a'' = Some (JStr a)" "fs ''b'' = Some (JStr b)"
    by (auto simp: ends_of_def split: option.splits json.splits)
  with le have "m ''a'' = Some (JStr a)" "m ''b'' = Some (JStr b)" by (auto simp: map_le_def dom_def)
  then show ?thesis by (simp add: ends_of_def)
qed

lemma wf_edge:
  assumes wf: "graph_wf N A R" and after: "view_after R (planned_hash (EDGE (host N)) e fs) R'"
    and names: "graph_names_distinct N" and keys: "edge_keys_distinct (hash_hex N) A"
    and fs: "edge_fields_ok fs a b k e" and e: "e = edge_id (hash_hex N) a b k" "k \<in> set edge_kinds"
    and ab: "a \<in> A" "b \<in> A" "R (FINGERPRINT (host N)) a None \<noteq> None" "R (FINGERPRINT (host N)) b None \<noteq> None"
  shows "graph_wf N A R' \<and> (\<exists>m x y. R' (EDGE (host N)) e None = Some m \<and> ends_of m = Some (x, y) \<and> {x, y} = {a, b})"
proof -
  from after obtain m where m: "R' (EDGE (host N)) e None = Some m" "fs \<subseteq>\<^sub>m m"
    by (auto simp: view_after_def planned_hash_def)
  have keep: "R' x k r = R x k r" if "(x, k, r) \<noteq> (EDGE (host N), e, None)" for x k r
    using after that by (auto simp: view_after_def planned_hash_def slot_def)
  obtain x y where xy: "ends_of m = Some (x, y)" "(x, y) = (a, b) \<or> (x, y) = (b, a)"
    using fs ends_of_le [OF _ m(2)] unfolding edge_fields_ok_def by blast
  have "edge_id (hash_hex N) x y k = e" using xy(2) e edge_preimage_sym by (auto simp: edge_id_def)
  then have ok: "edge_record_ok (hash_hex N) A e m"
    using xy ab(1,2) e(2) fs field_le [OF _ m(2)] unfolding edge_record_ok_def edge_fields_ok_def by fastforce
  have old: "ends_of om = Some (u, v) \<Longrightarrow> {u, v} = {a, b}" if "R (EDGE (host N)) e None = Some om" for om u v
  proof -
    assume uv: "ends_of om = Some (u, v)"
    from wf that have "edge_record_ok (hash_hex N) A e om" by (simp add: graph_wf_def edges_ok_def)
    with uv obtain k' where "e = edge_id (hash_hex N) u v k'" "u \<in> A" "v \<in> A" "k' \<in> set edge_kinds"
      by (auto simp: edge_record_ok_def)
    with keys e ab(1,2) show "{u, v} = {a, b}" unfolding edge_keys_distinct_def by metis
  qed
  have fp: "R' (FINGERPRINT (host N)) z None = R (FINGERPRINT (host N)) z None" for z
    using keep names by (auto simp: graph_names_distinct_def)
  have rows: "R' (EDGE_BY_FINGERPRINT (host N)) z r = R (EDGE_BY_FINGERPRINT (host N)) z r" for z r
    using keep names by (auto simp: graph_names_distinct_def)
  have edges: "edge_record_ok (hash_hex N) A e' m' \<and> (\<forall>u v. ends_of m' = Some (u, v) \<longrightarrow>
      R' (FINGERPRINT (host N)) u None \<noteq> None \<and> R' (FINGERPRINT (host N)) v None \<noteq> None)"
    if "R' (EDGE (host N)) e' None = Some m'" for e' m'
  proof (cases "e' = e")
    case True
    with that m(1) ok xy ab fp show ?thesis by auto
  next
    case False
    with that keep wf fp show ?thesis by (simp add: graph_wf_def edges_ok_def)
  qed
  have "m' ''edge_id'' = Some (JStr e') \<and>
      (\<exists>em u v. R' (EDGE (host N)) e' None = Some em \<and> ends_of em = Some (u, v) \<and> z \<in> {u, v})"
    if r: "R' (EDGE_BY_FINGERPRINT (host N)) z (Some e') = Some m'" for z e' m'
  proof -
    from r rows wf obtain em u v where em: "m' ''edge_id'' = Some (JStr e')" "R (EDGE (host N)) e' None = Some em"
      "ends_of em = Some (u, v)" "z \<in> {u, v}" unfolding graph_wf_def edges_ok_def by metis
    show ?thesis
    proof (cases "e' = e")
      case True
      with em old have "z \<in> {a, b}" by blast
      with True em(1) m(1) xy show ?thesis by auto
    next
      case False
      with em keep show ?thesis by auto
    qed
  qed
  moreover have "R' (EDGE (host N)) e' (Some r) = None" "R' (EDGE_BY_FINGERPRINT (host N)) z None = None" for e' r z
    using wf keep rows by (auto simp: graph_wf_def edges_ok_def)
  ultimately have "edges_ok N A R'" using edges unfolding edges_ok_def by blast
  with wf have "graph_wf N A R'" by (rule wf_frame [OF _ _ after names]) (simp add: planned_hash_def)
  with m(1) xy show ?thesis by auto
qed

lemma wf_row:
  assumes wf: "graph_wf N A R" and names: "graph_names_distinct N"
    and after: "view_after R (planned_hash_range (EDGE_BY_FINGERPRINT (host N)) fp e (edge_by_fingerprint_fields fp e)) R'"
    and edge: "R (EDGE (host N)) e None = Some m" "ends_of m = Some (x, y)" "fp \<in> {x, y}"
  shows "graph_wf N A R' \<and> R' (EDGE (host N)) e None = Some m \<and> R' (EDGE_BY_FINGERPRINT (host N)) fp (Some e) \<noteq> None"
proof -
  have keep: "R' x k r = R x k r" if "(x, k, r) \<noteq> (EDGE_BY_FINGERPRINT (host N), fp, Some e)" for x k r
    using after that by (auto simp: view_after_def planned_hash_range_def slot_def)
  obtain rm where rm: "R' (EDGE_BY_FINGERPRINT (host N)) fp (Some e) = Some rm" "edge_by_fingerprint_fields fp e \<subseteq>\<^sub>m rm"
    using after by (auto simp: view_after_def planned_hash_range_def)
  from rm(2) have "rm ''edge_id'' = Some (JStr e)" by (rule field_le [rotated]) (simp add: edge_by_fingerprint_fields_def)
  moreover have eg: "R' (EDGE (host N)) k None = R (EDGE (host N)) k None" for k
    using keep names by (auto simp: graph_names_distinct_def)
  moreover have fp: "R' (FINGERPRINT (host N)) k None = R (FINGERPRINT (host N)) k None" for k
    using keep names by (auto simp: graph_names_distinct_def)
  moreover have "m' ''edge_id'' = Some (JStr e') \<and>
      (\<exists>em u v. R' (EDGE (host N)) e' None = Some em \<and> ends_of em = Some (u, v) \<and> z \<in> {u, v})"
    if r: "R' (EDGE_BY_FINGERPRINT (host N)) z (Some e') = Some m'" for z e' m'
  proof (cases "(z, e') = (fp, e)")
    case True
    with r rm \<open>rm ''edge_id'' = _\<close> eg edge show ?thesis by auto
  next
    case False
    with keep r have "R (EDGE_BY_FINGERPRINT (host N)) z (Some e') = Some m'" by auto
    with wf eg show ?thesis by (auto simp: graph_wf_def edges_ok_def)
  qed
  moreover have "R' (EDGE (host N)) e' (Some r) = None" "R' (EDGE_BY_FINGERPRINT (host N)) z None = None" for e' r z
    using wf keep names by (auto simp: graph_wf_def edges_ok_def graph_names_distinct_def)
  ultimately have "edges_ok N A R'" using wf unfolding graph_wf_def edges_ok_def by auto
  with wf have "graph_wf N A R'" by (rule wf_frame [OF _ _ after names]) (simp add: planned_hash_range_def)
  with edge(1) rm(1) eg show ?thesis by auto
qed

section \<open>What is listed\<close>

lemma listed_edge:
  assumes "listed_but N S R" "view_after R (planned_hash (EDGE (host N)) e fs) R'" "graph_names_distinct N"
  shows "listed_but N (insert e S) R'"
proof -
  have keep: "R' x k r = R x k r" if "(x, k, r) \<noteq> (EDGE (host N), e, None)" for x k r
    using assms(2) that by (auto simp: view_after_def planned_hash_def slot_def)
  then show ?thesis using assms(1,3) unfolding listed_but_def graph_names_distinct_def by auto
qed

lemma listed_row:
  assumes "listed_but N S R" "view_after R (planned_hash_range (EDGE_BY_FINGERPRINT (host N)) fp e fs) R'"
    "graph_names_distinct N"
  shows "listed_but N S R'"
proof -
  have keep: "R' x k r = R x k r" if "(x, k, r) \<noteq> (EDGE_BY_FINGERPRINT (host N), fp, Some e)" for x k r
    using assms(2) that by (auto simp: view_after_def planned_hash_range_def slot_def)
  have grow: "R' x k r \<noteq> None" if "R x k r \<noteq> None" for x k r
    using assms(2) that keep [of x k r] by (cases "(x, k, r) = (EDGE_BY_FINGERPRINT (host N), fp, Some e)")
      (auto simp: view_after_def planned_hash_range_def)
  have "EDGE (host N) \<noteq> EDGE_BY_FINGERPRINT (host N)" using assms(3) by (auto simp: graph_names_distinct_def)
  then have "R' (EDGE (host N)) k None = R (EDGE (host N)) k None" for k using keep by simp
  with assms(1) grow show ?thesis unfolding listed_but_def by simp
qed

lemma listed_done:
  assumes "listed_but N (insert e S) R" "R (EDGE (host N)) e None = Some m" "ends_of m = Some (x, y)" "{x, y} = {a, b}"
    "R (EDGE_BY_FINGERPRINT (host N)) a (Some e) \<noteq> None" "R (EDGE_BY_FINGERPRINT (host N)) b (Some e) \<noteq> None"
  shows "listed_but N (S - {e}) R"
  unfolding listed_but_def
proof (intro allI impI)
  fix e' m' u v
  assume e': "e' \<notin> S - {e}" "R (EDGE (host N)) e' None = Some m'" "ends_of m' = Some (u, v)"
  show "R (EDGE_BY_FINGERPRINT (host N)) u (Some e') \<noteq> None \<and> R (EDGE_BY_FINGERPRINT (host N)) v (Some e') \<noteq> None"
  proof (cases "e' = e")
    case True
    with e' assms(2-4) have "{u, v} = {a, b}" by auto
    with True assms(5,6) show ?thesis by (auto simp: doubleton_eq_iff)
  next
    case False
    with e' assms(1) show ?thesis unfolding listed_but_def by blast
  qed
qed

lemma listed_mono: "listed_but N S R \<Longrightarrow> S \<subseteq> T \<Longrightarrow> listed_but N T R"
  unfolding listed_but_def by blast

section \<open>Plans\<close>

definition learn :: "planned_record \<Rightarrow> (string \<times> string) set \<Rightarrow> (string \<times> string) set" where
  "learn p K = (if pr_range_key p = None then insert (pr_schema p, pr_hash_key p) K else K)"

definition known_fps :: "'d ingest_node \<Rightarrow> (string \<times> string) set \<Rightarrow> string set" where
  "known_fps N K = {a. (FINGERPRINT (host N), a) \<in> K}"

inductive graph_plan :: "'d ingest_node \<Rightarrow> string set \<Rightarrow> (string \<times> string) set \<Rightarrow> planned_record list \<Rightarrow> bool" for N A where
  nothing: "graph_plan N A K []"
| other: "other_record_ok N A K p \<Longrightarrow> graph_plan N A (learn p K) ps \<Longrightarrow> graph_plan N A K (p # ps)"
| edge: "a \<in> known_fps N K \<inter> A \<Longrightarrow> b \<in> known_fps N K \<inter> A \<Longrightarrow> k \<in> set edge_kinds \<Longrightarrow> edge_fields_ok fs a b k (edge_id (hash_hex N) a b k) \<Longrightarrow>
    graph_plan N A K ps \<Longrightarrow> graph_plan N A K (edge_with_rows N a b (edge_id (hash_hex N) a b k) fs @ ps)"

definition planned_edges :: "'d ingest_node \<Rightarrow> planned_record list \<Rightarrow> string set" where
  "planned_edges N ps = pr_hash_key ` {p \<in> set ps. pr_schema p = EDGE (host N)}"

lemma planned_edges_simps [simp]:
  "planned_edges N [] = {}"
  "planned_edges N (p # ps) = (if pr_schema p = EDGE (host N) then {pr_hash_key p} else {}) \<union> planned_edges N ps"
  by (auto simp: planned_edges_def)

lemma known_after:
  assumes "known_present K R" "view_after R p R'"
  shows "known_present (learn p K) R'"
proof -
  have "R' x k None \<noteq> None" if k: "(x, k) \<in> learn p K" for x k
  proof
    assume no: "R' x k None = None"
    then have "R x k None = None" using view_after_grow [OF assms(2)] by blast
    with assms(1) have "(x, k) \<notin> K" by (auto simp: known_present_def)
    with k have "pr_range_key p = None" "x = pr_schema p" "k = pr_hash_key p" by (auto simp: learn_def split: if_splits)
    with assms(2) no show False by (auto simp: view_after_def)
  qed
  then show ?thesis by (auto simp: known_present_def)
qed

section \<open>The writer keeps the graph well formed\<close>

lemma write_records_ConsE:
  assumes "write_records nd (p # ps) d = (res, d')"
  obtains (failed) e where "write_record nd p d = (Inl e, d')" "res = Inl e"
    | (written) w d1 r2 where "write_record nd p d = (Inr w, d1)" "write_records nd ps d1 = (r2, d')" "is_ok res = is_ok r2"
proof (cases "write_record nd p d")
  case (Pair r1 d1)
  show thesis
  proof (cases r1)
    case (Inl e)
    with assms Pair show ?thesis by (auto intro: failed)
  next
    case (Inr w)
    obtain r2 d2 where w2: "write_records nd ps d1 = (r2, d2)" by (cases "write_records nd ps d1")
    with assms Pair Inr have "d2 = d'" "is_ok res = is_ok r2" by (cases r2; auto)+
    with w2 Pair Inr show ?thesis using written by blast
  qed
qed

definition ingest_names :: "'d ingest_node \<Rightarrow> string list" where
  "ingest_names N = [FINGERPRINT (host N), EDGE (host N), MENTION (host N), EDGE_BY_FINGERPRINT (host N),
     MENTION_BY_FINGERPRINT (host N), MENTION_BY_SOURCE N, EXTRACTION_STATUS N, INGESTION_ERROR N]"

lemma ingest_names_graph: "distinct (ingest_names N) \<Longrightarrow> graph_names_distinct N"
  by (simp add: ingest_names_def graph_names_distinct_def)

locale ingest_store = named_store "host N" held for N :: "'d ingest_node" and held :: "'d holds" +
  fixes A :: "string set"
  assumes all_names: "distinct (ingest_names N)"
    and keys: "edge_keys_distinct (hash_hex N) A"
begin

lemmas names = ingest_names_graph [OF all_names]

text \<open>What is left of an edge's three writes when the second or the third fails.\<close>

lemma row_step:
  assumes "write_record (host N) (planned_hash_range (EDGE_BY_FINGERPRINT (host N)) z e (edge_by_fingerprint_fields z e)) d = (r, d')"
    and "graph_wf N A (recs d)" "listed_but N S (recs d)" "recs d (EDGE (host N)) e None = Some m"
    "ends_of m = Some (x, y)" "z \<in> {x, y}"
  shows "graph_wf N A (recs d') \<and> listed_but N S (recs d') \<and> recs d' (EDGE (host N)) e None = Some m \<and>
    (\<forall>w. r = Inr w \<longrightarrow> recs d' (EDGE_BY_FINGERPRINT (host N)) z (Some e) \<noteq> None)"
proof (cases r)
  case (Inl err)
  with assms write_record_failed_view show ?thesis by auto
next
  case (Inr w)
  note v = write_record_view [OF assms(1) [unfolded Inr]]
  show ?thesis using wf_row [OF assms(2) names v assms(4-6)] listed_row [OF assms(3) v names] by simp
qed

lemma row_grows:
  assumes "write_record (host N) p d = (r, d')" "recs d x k q \<noteq> None"
  shows "recs d' x k q \<noteq> None"
proof (cases r)
  case (Inl err)
  with assms write_record_failed_view show ?thesis by auto
next
  case (Inr w)
  note v = write_record_view [OF assms(1) [unfolded Inr]]
  with assms(2) show ?thesis by (cases "(x, k, q) = slot p") (auto simp: view_after_def slot_def)
qed

lemma edge_step:
  assumes "write_record (host N) (planned_hash (EDGE (host N)) e fs) d = (Inr w, d')"
    and wf: "graph_wf N A (recs d)" "listed_but N S (recs d)" "known_present K (recs d)"
    and fs: "edge_fields_ok fs a b k e" and e: "e = edge_id (hash_hex N) a b k" "k \<in> set edge_kinds"
    and ab: "a \<in> known_fps N K \<inter> A" "b \<in> known_fps N K \<inter> A"
  shows "graph_wf N A (recs d') \<and> listed_but N (insert e S) (recs d') \<and>
    (\<exists>m x y. recs d' (EDGE (host N)) e None = Some m \<and> ends_of m = Some (x, y) \<and> {x, y} = {a, b})"
proof -
  note v = write_record_view [OF assms(1)]
  from ab wf(3) have "a \<in> A" "b \<in> A" "recs d (FINGERPRINT (host N)) a None \<noteq> None"
    "recs d (FINGERPRINT (host N)) b None \<noteq> None" by (auto simp: known_present_def known_fps_def)
  from wf_edge [OF wf(1) v names keys fs e this] listed_edge [OF wf(2) v names] show ?thesis by blast
qed

lemma plan_keeps:
  assumes "graph_plan N A K ps" "write_records (host N) ps d = (res, d')"
    and "graph_wf N A (recs d)" "listed_but N S (recs d)" "known_present K (recs d)"
  shows "graph_wf N A (recs d') \<and>
    listed_but N (if is_ok res then S - planned_edges N ps else S \<union> planned_edges N ps) (recs d')"
  using assms
proof (induction arbitrary: d d' res S rule: graph_plan.induct)
  case (nothing K)
  then show ?case by auto
next
  case (other K p ps)
  show ?case
  proof (rule write_records_ConsE [OF other.prems(1)])
    fix e
    assume p: "write_record (host N) p d = (Inl e, d')" "res = Inl e"
    from other.prems(2,3) write_record_failed_view [OF p(1)] p(2) show ?thesis
      by (auto intro: listed_mono)
  next
    fix w d1 r2
    assume p: "write_record (host N) p d = (Inr w, d1)" "write_records (host N) ps d1 = (r2, d')" "is_ok res = is_ok r2"
    note v = write_record_view [OF p(1)]
    have "graph_wf N A (recs d1)" "listed_but N S (recs d1)"
      using wf_other [OF other.prems(2) v other.hyps(1) other.prems(4)] listed_other [OF other.prems(3) v] other.hyps(1)
      by (auto simp: other_record_ok_def)
    from other.IH [OF p(2) this known_after [OF other.prems(4) v]] p(3) other.hyps(1) [unfolded other_record_ok_def] show ?thesis by (auto split: if_splits)
  qed
next
  case (edge a K b k fs ps)
  let ?e = "edge_id (hash_hex N) a b k"
  let ?row = "\<lambda>z. planned_hash_range (EDGE_BY_FINGERPRINT (host N)) z ?e (edge_by_fingerprint_fields z ?e)"
  let ?S = "if is_ok res then S - insert ?e (planned_edges N ps) else S \<union> insert ?e (planned_edges N ps)"
  have pe: "planned_edges N (edge_with_rows N a b ?e fs @ ps) = insert ?e (planned_edges N ps)"
    using names by (auto simp: edge_with_rows_def planned_hash_def planned_hash_range_def graph_names_distinct_def)
  have bad: "listed_but N ?S (recs d')" if "listed_but N (insert ?e S) (recs d')" "\<not> is_ok res"
    using that by (auto intro: listed_mono)
  have wr: "write_records (host N) (planned_hash (EDGE (host N)) ?e fs # ?row a # ?row b # ps) d = (res, d')"
    using edge.prems(1) by (simp only: edge_with_rows_def append.simps)
  have "graph_wf N A (recs d') \<and> listed_but N ?S (recs d')"
  proof (rule write_records_ConsE [OF wr])
    fix err
    assume p: "write_record (host N) (planned_hash (EDGE (host N)) ?e fs) d = (Inl err, d')" "res = Inl err"
    then have "recs d' = recs d" "\<not> is_ok res" using write_record_failed_view by auto
    moreover have "listed_but N (insert ?e S) (recs d)" using edge.prems(3) by (rule listed_mono) auto
    ultimately show ?thesis using edge.prems(2) bad by simp
  next
    fix w d1 r1
    assume p: "write_record (host N) (planned_hash (EDGE (host N)) ?e fs) d = (Inr w, d1)"
      "write_records (host N) (?row a # ?row b # ps) d1 = (r1, d')" "is_ok res = is_ok r1"
    from edge_step [OF p(1) edge.prems(2-4) edge.hyps(4) refl edge.hyps(3,1,2)]
    obtain m x y where s1: "graph_wf N A (recs d1)" "listed_but N (insert ?e S) (recs d1)"
      "recs d1 (EDGE (host N)) ?e None = Some m" "ends_of m = Some (x, y)" "{x, y} = {a, b}" by blast
    have za: "a \<in> {x, y}" and zb: "b \<in> {x, y}" using s1(5) by auto
    have F1: "known_present K (recs d1)"
      using edge.prems(4) row_grows [OF p(1)] by (auto simp: known_present_def)
    show ?thesis
      using p(2)
    proof (rule write_records_ConsE)
      fix err
      assume q: "write_record (host N) (?row a) d1 = (Inl err, d')" "r1 = Inl err"
      with row_step [OF q(1) s1(1-4) za] p(3) bad show ?thesis by simp
    next
      fix w2 d2 r2
      assume q: "write_record (host N) (?row a) d1 = (Inr w2, d2)" "write_records (host N) (?row b # ps) d2 = (r2, d')"
        "is_ok r1 = is_ok r2"
      from row_step [OF q(1) s1(1-4) za] have s2: "graph_wf N A (recs d2)" "listed_but N (insert ?e S) (recs d2)"
        "recs d2 (EDGE (host N)) ?e None = Some m" "recs d2 (EDGE_BY_FINGERPRINT (host N)) a (Some ?e) \<noteq> None" by auto
      show ?thesis
        using q(2)
      proof (rule write_records_ConsE)
        fix err
        assume r: "write_record (host N) (?row b) d2 = (Inl err, d')" "r2 = Inl err"
        with row_step [OF r(1) s2(1-3) s1(4) zb] p(3) q(3) bad show ?thesis by simp
      next
        fix w3 d3 r3
        assume r: "write_record (host N) (?row b) d2 = (Inr w3, d3)" "write_records (host N) ps d3 = (r3, d')"
          "is_ok r2 = is_ok r3"
        from row_step [OF r(1) s2(1-3) s1(4) zb] have s3: "graph_wf N A (recs d3)" "listed_but N (insert ?e S) (recs d3)"
          "recs d3 (EDGE (host N)) ?e None = Some m" "recs d3 (EDGE_BY_FINGERPRINT (host N)) b (Some ?e) \<noteq> None" by auto
        have F3: "known_present K (recs d3)"
          using F1 row_grows [OF q(1)] row_grows [OF r(1)] by (auto simp: known_present_def)
        have "listed_but N (S - {?e}) (recs d3)"
          by (rule listed_done [OF s3(2,3) s1(4,5) row_grows [OF r(1) s2(4)] s3(4)])
        from edge.IH [OF r(2) s3(1) this F3] p(3) q(3) r(3) show ?thesis
          by (cases "is_ok r3") (auto intro: listed_mono)
      qed
    qed
  qed
  then show ?case unfolding pe .
qed

end

end
