(* ===== verification/Ingest_Correct.thy ===== *)
theory Ingest_Correct
  imports Graph_Plans Fingerprint_Ingest
begin

text \<open>
  The plans of the text and face extractors and of the similarity pass are graph plans, so
  whatever a write of them reaches, the stored graph stays well formed; and what the cache
  and the store hold after a photo was ingested.
\<close>

section \<open>Building graph plans\<close>

fun others_ok :: "'d ingest_node \<Rightarrow> string set \<Rightarrow> (string \<times> string) set \<Rightarrow> planned_record list \<Rightarrow> bool" where
  "others_ok N A K [] = True"
| "others_ok N A K (p # ps) = (other_record_ok N A K p \<and> others_ok N A (learn p K) ps)"

lemma graph_plan_others:
  "others_ok N A K ps \<Longrightarrow> graph_plan N A (fold learn ps K) qs \<Longrightarrow> graph_plan N A K (ps @ qs)"
  by (induction ps arbitrary: K) (auto intro: graph_plan.other)

lemma others_ok_append: "others_ok N A K (ps @ qs) = (others_ok N A K ps \<and> others_ok N A (fold learn ps K) qs)"
  by (induction ps arbitrary: K) auto

lemma other_record_mono: "other_record_ok N A K p \<Longrightarrow> K \<subseteq> K' \<Longrightarrow> other_record_ok N A K' p"
  by (auto simp: other_record_ok_def intro: mention_ok_mono [OF _ _ map_le_refl])

lemma learn_mono: "K \<subseteq> learn p K"
  by (auto simp: learn_def)

lemma others_ok_all: "(\<And>p. p \<in> set ps \<Longrightarrow> other_record_ok N A K p) \<Longrightarrow> others_ok N A K ps"
proof (induction ps arbitrary: K)
  case (Cons p ps)
  have "others_ok N A (learn p K) ps"
    by (intro Cons.IH other_record_mono [OF _ learn_mono] Cons.prems) simp
  with Cons.prems show ?case by simp
qed simp

lemma fold_learn: "fold learn ps K = K \<union> (\<lambda>p. (pr_schema p, pr_hash_key p)) ` {p \<in> set ps. pr_range_key p = None}"
  by (induction ps arbitrary: K) (auto simp: learn_def)

definition edge_block :: "'d ingest_node \<Rightarrow> string set \<Rightarrow> planned_record list \<Rightarrow> bool" where
  "edge_block N F ps \<longleftrightarrow> ps = [] \<or> (\<exists>a \<in> F. \<exists>b \<in> F. \<exists>k \<in> set edge_kinds. \<exists>fs.
     edge_fields_ok fs a b k (edge_id (hash_hex N) a b k) \<and> ps = edge_with_rows N a b (edge_id (hash_hex N) a b k) fs)"

lemma graph_plan_blocks:
  assumes "\<And>x. x \<in> set xs \<Longrightarrow> edge_block N (known_fps N K \<inter> A) (f x)" "graph_plan N A K qs"
  shows "graph_plan N A K (concat (map f xs) @ qs)"
  using assms
proof (induction xs)
  case (Cons x xs)
  then have "graph_plan N A K (concat (map f xs) @ qs)" "edge_block N (known_fps N K \<inter> A) (f x)" by simp_all
  then show ?case
    by (auto simp: edge_block_def intro: graph_plan.edge)
qed simp

lemma unordered_pairs_elems: "xy \<in> set (unordered_pairs xs) \<Longrightarrow> fst xy \<in> set xs \<and> snd xy \<in> set xs"
  using unordered_pairs_set [of xs] by (cases xy) auto

lemmas planned_simps = planned_hash_def planned_hash_range_def

text \<open>The records in front of the edges: status, fingerprints, mention and its rows.\<close>

definition plan_front ::
    "'d ingest_node \<Rightarrow> planned_record \<Rightarrow> planned_record list \<Rightarrow> string \<Rightarrow> payload \<Rightarrow> string \<Rightarrow> string \<Rightarrow> string list
     \<Rightarrow> planned_record list" where
  "plan_front N status fps mn mention_fs s k ids =
     status # fps @ [planned_hash (MENTION (host N)) mn mention_fs] @ mention_rows N mn s k ids"

text \<open>The rows of a mention, once the mention and its fingerprints are written.\<close>

lemma mention_rows_plan:
  assumes names: "distinct (ingest_names N)" and mn: "mention_of N mn s k"
    and K: "(MENTION (host N), mn) \<in> K" "\<And>i. i \<in> set ids \<Longrightarrow> (FINGERPRINT (host N), i) \<in> K"
  shows "others_ok N A K (mention_rows N mn s k ids)"
proof (rule others_ok_all)
  fix p
  assume "p \<in> set (mention_rows N mn s k ids)"
  then consider "p = planned_hash_range (MENTION_BY_SOURCE N) (mention_source_composite s k) mn
        (mention_by_source_fields (mention_source_composite s k) mn)"
    | i where "i \<in> set ids" "p = planned_hash_range (MENTION_BY_FINGERPRINT (host N)) i mn (mention_by_fingerprint_fields i mn)"
    by (auto simp: mention_rows_def Let_def)
  then show "other_record_ok N A K p"
  proof cases
    case 1
    have "mention_source_composite s k = mention_source_composite s k \<and> mention_of N mn s k" using mn by simp
    with 1 names K(1) show ?thesis
      by (auto simp: other_record_ok_def mention_ok_at_def planned_simps ingest_names_def mention_by_source_fields_def)
  next
    case (2 i)
    with names K show ?thesis
      by (auto simp: other_record_ok_def mention_ok_at_def planned_simps ingest_names_def mention_by_fingerprint_fields_def)
  qed
qed

lemma mention_record_plan:
  assumes names: "distinct (ingest_names N)" and "mention_record_ok N mn mfs"
  shows "other_record_ok N A K (planned_hash (MENTION (host N)) mn mfs)"
  using assms by (auto simp: other_record_ok_def mention_ok_at_def planned_simps ingest_names_def)

lemma fingerprint_record_plan:
  assumes names: "distinct (ingest_names N)"
    and p: "pr_schema p = FINGERPRINT (host N)" "pr_range_key p = None" "pr_hash_key p \<in> A" "pr_fields p ''id'' = Some (JStr (pr_hash_key p))"
  shows "other_record_ok N A K p"
  using assms by (auto simp: other_record_ok_def mention_ok_at_def ingest_names_def)

lemma status_record_plan:
  assumes "distinct (ingest_names N)" "pr_schema p \<in> {EXTRACTION_STATUS N, INGESTION_ERROR N}"
  shows "other_record_ok N A K p"
  using assms by (auto simp: other_record_ok_def mention_ok_at_def ingest_names_def)

lemma plan_front_ok:
  assumes names: "distinct (ingest_names N)" and status: "pr_schema status = EXTRACTION_STATUS N"
    and fps: "\<And>p. p \<in> set fps \<Longrightarrow> pr_schema p = FINGERPRINT (host N) \<and> pr_range_key p = None \<and> pr_hash_key p \<in> A \<and>
        pr_fields p ''id'' = Some (JStr (pr_hash_key p))"
    and mn: "mention_of N mn s k" "mention_record_ok N mn mfs" and ids: "set ids \<subseteq> pr_hash_key ` set fps"
  shows "others_ok N A K (plan_front N status fps mn mfs s k ids)"
    and "pr_hash_key ` set fps \<inter> A \<subseteq> known_fps N (fold learn (plan_front N status fps mn mfs s k ids) K) \<inter> A"
proof -
  let ?M = "planned_hash (MENTION (host N)) mn mfs"
  let ?K = "fold learn (status # fps @ [?M]) K"
  have f: "others_ok N A K' fps" for K' by (intro others_ok_all fingerprint_record_plan [OF names]) (use fps in blast)+
  have "(FINGERPRINT (host N), i) \<in> ?K" if "i \<in> set ids" for i
  proof -
    from that ids obtain p where "p \<in> set fps" "i = pr_hash_key p" by blast
    with fps show ?thesis unfolding fold_learn by (intro UnI2 image_eqI [of _ _ p]) simp_all
  qed
  moreover have "(MENTION (host N), mn) \<in> ?K" unfolding fold_learn by (intro UnI2 image_eqI [of _ _ ?M]) (simp_all add: planned_simps)
  ultimately have "others_ok N A ?K (mention_rows N mn s k ids)" by (intro mention_rows_plan [OF names mn(1)])
  moreover have "others_ok N A K (status # fps @ [?M])"
    using f status_record_plan [OF names, of status] status mention_record_plan [OF names mn(2)] by (simp add: others_ok_append)
  ultimately have "others_ok N A K ((status # fps @ [?M]) @ mention_rows N mn s k ids)" by (simp only: others_ok_append)
  then show "others_ok N A K (plan_front N status fps mn mfs s k ids)" by (simp only: plan_front_def append_Cons append_assoc)
  show "pr_hash_key ` set fps \<inter> A \<subseteq> known_fps N (fold learn (plan_front N status fps mn mfs s k ids) K) \<inter> A"
  proof
    fix x
    assume "x \<in> pr_hash_key ` set fps \<inter> A"
    then obtain p where p: "p \<in> set fps" "x = pr_hash_key p" "x \<in> A" by auto
    have "(FINGERPRINT (host N), x) \<in> fold learn (plan_front N status fps mn mfs s k ids) K"
      unfolding fold_learn using p fps [OF p(1)] by (intro UnI2 image_eqI [of _ _ p]) (simp_all add: plan_front_def)
    with p(3) show "x \<in> known_fps N (fold learn (plan_front N status fps mn mfs s k ids) K) \<inter> A"
      by (simp add: known_fps_def)
  qed
qed

lemma graph_plan_front:
  assumes "distinct (ingest_names N)" "pr_schema status = EXTRACTION_STATUS N"
    and "\<And>p. p \<in> set fps \<Longrightarrow> pr_schema p = FINGERPRINT (host N) \<and> pr_range_key p = None \<and> pr_hash_key p \<in> A \<and>
        pr_fields p ''id'' = Some (JStr (pr_hash_key p))"
    and "mention_of N mn s k" "mention_record_ok N mn mfs" "set ids \<subseteq> pr_hash_key ` set fps"
    and "\<And>x K. x \<in> set xs \<Longrightarrow> pr_hash_key ` set fps \<inter> A \<subseteq> known_fps N K \<inter> A \<Longrightarrow> edge_block N (known_fps N K \<inter> A) (f x)"
  shows "graph_plan N A K (plan_front N status fps mn mfs s k ids @ concat (map f xs))"
proof (rule graph_plan_others)
  show "others_ok N A K (plan_front N status fps mn mfs s k ids)" using assms(1-6) by (rule plan_front_ok(1))
  have "pr_hash_key ` set fps \<inter> A \<subseteq> known_fps N (fold learn (plan_front N status fps mn mfs s k ids) K) \<inter> A"
    using assms(1-6) by (rule plan_front_ok(2))
  then have "graph_plan N A (fold learn (plan_front N status fps mn mfs s k ids) K) (concat (map f xs) @ [])"
    using assms(7) by (intro graph_plan_blocks graph_plan.nothing) auto
  then show "graph_plan N A (fold learn (plan_front N status fps mn mfs s k ids) K) (concat (map f xs))" by simp
qed

lemma graph_plan_status:
  "distinct (ingest_names N) \<Longrightarrow> pr_schema status = EXTRACTION_STATUS N \<Longrightarrow> graph_plan N A K [status]"
  by (rule graph_plan.other) (auto intro: status_record_plan graph_plan.nothing)

section \<open>The text plan\<close>

definition signal_ids :: "'d ingest_node \<Rightarrow> signal_patterns \<Rightarrow> string \<Rightarrow> string set" where
  "signal_ids N pats body = es_fingerprint_id ` set (extract_signals (hash_hex N) pats body)"

lemma unique_signal_ids:
  "es_fingerprint_id ` set (dedup_by es_fingerprint_id {} (extract_signals (hash_hex N) pats body)) = signal_ids N pats body"
  by (simp add: dedup_by_keys signal_ids_def)

lemma text_edge_block:
  assumes "es_fingerprint_id x \<in> F" "es_fingerprint_id y \<in> F"
  shows "edge_block N F (text_edge_records N binding mn now (x, y))"
proof -
  obtain k w where kw: "edge_params binding = (k, w)" by (cases "edge_params binding")
  have k: "k \<in> set edge_kinds" using kw by (cases binding) (auto simp: edge_kinds_def)
  let ?e = "edge_id (hash_hex N) (es_fingerprint_id x) (es_fingerprint_id y) k"
  have "edge_fields_ok (text_edge_fields ?e (es_fingerprint_id x) (es_fingerprint_id y) k v mn now)
      (es_fingerprint_id x) (es_fingerprint_id y) k ?e" for v
    by (simp add: edge_fields_ok_def text_edge_fields_def ends_of_def)
  then show ?thesis
    unfolding edge_block_def text_edge_records_def prod.case kw Let_def using assms k by blast
qed

lemma text_graph_plan:
  assumes names: "distinct (ingest_names N)" and ids: "signal_ids N pats body \<subseteq> A" and mn: "mention_of N mn s k"
  shows "graph_plan N A K (plan_records (plan_text_extraction N pats s k body mn es now binding))"
proof -
  let ?u = "dedup_by es_fingerprint_id {} (extract_signals (hash_hex N) pats body)"
  let ?status = "planned_hash (EXTRACTION_STATUS N) es (text_status_fields es s k (length (extract_signals (hash_hex N) pats body)) now)"
  let ?fps = "map (\<lambda>x. planned_hash (FINGERPRINT (host N)) (es_fingerprint_id x)
                   (text_fingerprint_fields (es_fingerprint_id x) (es_kind x) (es_value x) now)) ?u"
  have u: "es_fingerprint_id x \<in> pr_hash_key ` set ?fps \<inter> A" if "x \<in> set ?u" for x
    using that unique_signal_ids [of N pats body] ids by (force simp: planned_simps)
  have "graph_plan N A K (plan_front N ?status ?fps mn (text_mention_fields mn s k (map es_fingerprint_id ?u) now) s k
      (map es_fingerprint_id ?u) @ concat (map (text_edge_records N binding mn now) (unordered_pairs ?u)))"
  proof (rule graph_plan_front [OF names])
    fix p
    assume "p \<in> set ?fps"
    with u show "pr_schema p = FINGERPRINT (host N) \<and> pr_range_key p = None \<and> pr_hash_key p \<in> A \<and>
        pr_fields p ''id'' = Some (JStr (pr_hash_key p))"
      by (auto simp: planned_simps text_fingerprint_fields_def)
  next
    show "mention_record_ok N mn (text_mention_fields mn s k (map es_fingerprint_id ?u) now)"
      using mn by (simp add: mention_record_ok_def text_mention_fields_def)
    show "set (map es_fingerprint_id ?u) \<subseteq> pr_hash_key ` set ?fps" using u by auto
  next
    fix xy K
    assume xy: "xy \<in> set (unordered_pairs ?u)" and K: "pr_hash_key ` set ?fps \<inter> A \<subseteq> known_fps N K \<inter> A"
    from unordered_pairs_elems [OF xy] u K
    have "es_fingerprint_id (fst xy) \<in> known_fps N K \<inter> A" "es_fingerprint_id (snd xy) \<in> known_fps N K \<inter> A" by blast+
    from text_edge_block [OF this] show "edge_block N (known_fps N K \<inter> A) (text_edge_records N binding mn now xy)" by simp
  qed (simp_all add: planned_simps mn)
  moreover have "graph_plan N A K [?status]" by (rule graph_plan_status [OF names]) (simp add: planned_simps)
  ultimately show ?thesis
    by (cases "extract_signals (hash_hex N) pats body = []") (simp_all add: plan_text_extraction_def Let_def plan_front_def)
qed

section \<open>The face plan\<close>

lemma face_edge_block:
  assumes "a \<in> F" "b \<in> F"
  shows "edge_block N F (face_edge_records N mn now (a, b))"
proof -
  let ?e = "edge_id (hash_hex N) a b edge_CO_OCCURRENCE"
  have "edge_fields_ok (face_edge_fields ?e a b edge_CO_OCCURRENCE FACE_EDGE_WEIGHT mn now) a b edge_CO_OCCURRENCE ?e"
    by (auto simp: edge_fields_ok_def face_edge_fields_def ends_of_def)
  moreover have "edge_CO_OCCURRENCE \<in> set edge_kinds" by (simp add: edge_kinds_def)
  ultimately show ?thesis
    unfolding edge_block_def face_edge_records_def prod.case Let_def using assms by blast
qed

definition face_ids :: "'d ingest_node \<Rightarrow> detected_face list \<Rightarrow> string set" where
  "face_ids N faces = face_id (hash_hex N) ` set faces"

lemma face_graph_plan:
  assumes names: "distinct (ingest_names N)" and ids: "face_ids N faces \<subseteq> A" and mn: "mention_of N mn s k"
  shows "graph_plan N A K (plan_records (plan_face_extraction N s k faces mn es now))"
proof -
  let ?u = "dedup_by id {} (map (face_id (hash_hex N)) faces)"
  let ?status = "planned_hash (EXTRACTION_STATUS N) es (face_status_fields es s k (length faces) now)"
  let ?fps = "map (\<lambda>face. planned_hash (FINGERPRINT (host N)) (face_id (hash_hex N) face)
                   (face_fingerprint_fields (face_id (hash_hex N) face) (df_embedding face) now)) faces"
  have u: "x \<in> pr_hash_key ` set ?fps \<inter> A" if "x \<in> set ?u" for x
    using that dedup_by_subset [of id "{}" "map (face_id (hash_hex N)) faces"] ids by (force simp: planned_simps face_ids_def)
  have "graph_plan N A K (plan_front N ?status ?fps mn (face_mention_fields mn s k ?u now) s k ?u @
      concat (map (face_edge_records N mn now) (unordered_pairs ?u)))"
  proof (rule graph_plan_front [OF names])
    fix p
    assume "p \<in> set ?fps"
    with ids show "pr_schema p = FINGERPRINT (host N) \<and> pr_range_key p = None \<and> pr_hash_key p \<in> A \<and>
        pr_fields p ''id'' = Some (JStr (pr_hash_key p))"
      by (auto simp: planned_simps face_fingerprint_fields_def face_ids_def)
  next
    show "mention_record_ok N mn (face_mention_fields mn s k ?u now)"
      using mn by (simp add: mention_record_ok_def face_mention_fields_def)
    show "set ?u \<subseteq> pr_hash_key ` set ?fps" using u by auto
  next
    fix xy K
    assume xy: "xy \<in> set (unordered_pairs ?u)" and K: "pr_hash_key ` set ?fps \<inter> A \<subseteq> known_fps N K \<inter> A"
    from unordered_pairs_elems [OF xy] u K
    have "fst xy \<in> known_fps N K \<inter> A" "snd xy \<in> known_fps N K \<inter> A" by blast+
    from face_edge_block [OF this] show "edge_block N (known_fps N K \<inter> A) (face_edge_records N mn now xy)" by simp
  qed (simp_all add: planned_simps mn)
  moreover have "graph_plan N A K [?status]" by (rule graph_plan_status [OF names]) (simp add: planned_simps)
  ultimately show ?thesis by (cases "faces = []") (simp_all add: plan_face_extraction_def Let_def plan_front_def)
qed

section \<open>The cache\<close>

text \<open>A search returns positions of the index it is given.\<close>

definition search_ok :: "ann_search \<Rightarrow> bool" where
  "search_ok search \<longleftrightarrow> (\<forall>es q. \<forall>i \<in> set (search es q). i < length es)"

definition cached_ids :: "ann_cache \<Rightarrow> string set" where
  "cached_ids c = fst ` set (ann_entries c)"

lemma nearest_cached:
  assumes "search_ok search" "ann_ok c" "hit \<in> set (fst (ann_nearest search q n c))"
  shows "hit_fingerprint_id hit \<in> cached_ids c"
proof -
  from assms obtain i where i: "i \<in> set (search (ann_entries c) q)" "hit_fingerprint_id hit = fst (ann_entries c ! i)"
    by (auto simp: ann_nearest_spec split: if_splits dest: in_set_takeD)
  with assms(1) show ?thesis unfolding cached_ids_def search_ok_def by (metis image_eqI nth_mem)
qed

lemma hit_block:
  assumes "fp \<in> F" "hit_fingerprint_id hit \<in> F"
  shows "edge_block N F (hit_records N fp mn now hit)"
proof -
  define k where "k = (if fl_le STRONG_MATCH_CUTOFF (hit_similarity hit) then edge_STRONG_MATCH else edge_MEDIUM_MATCH)"
  let ?e = "edge_id (hash_hex N) fp (hit_fingerprint_id hit) k"
  have "edge_fields_ok (similarity_edge_fields ?e fp (hit_fingerprint_id hit) k (hit_similarity hit) mn now)
      fp (hit_fingerprint_id hit) k ?e"
    by (simp add: edge_fields_ok_def similarity_edge_fields_def ends_of_def)
  moreover have "k \<in> set edge_kinds" by (simp add: k_def edge_kinds_def)
  ultimately show ?thesis
    unfolding edge_block_def hit_records_def k_def [symmetric] Let_def using assms by (auto split: if_splits)
qed

lemma graph_plan_append_blocks:
  "\<forall>x \<in> set xs. edge_block N (known_fps N K \<inter> A) (f x) \<Longrightarrow> graph_plan N A K qs \<Longrightarrow> graph_plan N A K (concat (map f xs) @ qs)"
  by (rule graph_plan_blocks) auto

lemma similarity_graph_plan:
  assumes "search_ok search" "ann_ok c" "cached_ids c \<union> face_ids N faces \<subseteq> known_fps N K \<inter> A"
    and "similarity_records N search mn now faces c = (ps, c')"
  shows "graph_plan N A K ps \<and> ann_ok c' \<and> cached_ids c' \<subseteq> cached_ids c \<union> face_ids N faces"
  using assms(2-)
proof (induction faces arbitrary: c ps c')
  case Nil
  then show ?case by (auto intro: graph_plan.nothing)
next
  case (Cons face faces)
  let ?fp = "face_id (hash_hex N) face"
  have fp: "?fp \<in> known_fps N K \<inter> A" using Cons.prems(2) by (auto simp: face_ids_def)
  have ids: "face_ids N faces \<subseteq> face_ids N (face # faces)" by (auto simp: face_ids_def)
  have sub: "cached_ids c \<union> face_ids N faces \<subseteq> known_fps N K \<inter> A" using Cons.prems(2) ids by blast
  show ?case
  proof (cases "new_embedding (show_f32 (host N)) (map f32_val (df_embedding face))")
    case (Inl e)
    with Cons.prems(3) have "similarity_records N search mn now faces c = (ps, c')" by (simp add: Let_def)
    from Cons.IH [OF Cons.prems(1) sub this] ids show ?thesis by blast
  next
    case (Inr emb)
    obtain hits c1 where hits: "ann_nearest search emb NEIGHBOR_QUERY_K c = (hits, c1)" by (cases "ann_nearest search emb NEIGHBOR_QUERY_K c")
    obtain rest c2 where rest: "similarity_records N search mn now faces (ann_add ?fp emb c1) = (rest, c2)"
      by (cases "similarity_records N search mn now faces (ann_add ?fp emb c1)")
    from Cons.prems(3) Inr hits rest have ps: "ps = concat (map (hit_records N ?fp mn now) hits) @ rest" "c' = c2"
      by (simp_all add: Let_def)
    have "c1 = ann_flush c" using hits Cons.prems(1) by (simp add: ann_nearest_spec)
    then have c1: "ann_ok (ann_add ?fp emb c1)" "cached_ids (ann_add ?fp emb c1) = insert ?fp (cached_ids c)"
      using Cons.prems(1) by (auto intro!: ann_ok_add ann_ok_flush simp: cached_ids_def)
    have "graph_plan N A K rest \<and> ann_ok c2 \<and> cached_ids c2 \<subseteq> insert ?fp (cached_ids c) \<union> face_ids N faces"
      using Cons.IH [OF c1(1) _ rest] sub fp unfolding c1(2) by blast
    moreover have "\<forall>hit \<in> set hits. edge_block N (known_fps N K \<inter> A) (hit_records N ?fp mn now hit)"
    proof
      fix hit
      assume "hit \<in> set hits"
      then have "hit_fingerprint_id hit \<in> cached_ids c"
        using nearest_cached [OF assms(1) Cons.prems(1), of hit emb NEIGHBOR_QUERY_K] hits by simp
      with sub have "hit_fingerprint_id hit \<in> known_fps N K \<inter> A" by blast
      with fp show "edge_block N (known_fps N K \<inter> A) (hit_records N ?fp mn now hit)" by (rule hit_block)
    qed
    ultimately show ?thesis
      using graph_plan_append_blocks [of hits N K A "hit_records N ?fp mn now" rest] by (auto simp: ps face_ids_def)
  qed
qed

end
