(* ===== verification/Ingest_Store.thy ===== *)
theory Ingest_Store
  imports Ingest_Correct Persona_Store
begin

text \<open>
  The contract of the record store for readers (locale \<open>graph_reads\<close>), and the invariant of
  ingestion over it: a text, a photo and the rebuild of the face cache keep the stored graph
  well formed and the cache on fingerprints that exist, whether the writes succeed or not.
\<close>

definition cache_wf :: "'d ingest_node \<Rightarrow> string set \<Rightarrow> ann_cache \<Rightarrow> record_view \<Rightarrow> bool" where
  "cache_wf N A c R \<longleftrightarrow> ann_ok c \<and> (\<forall>a \<in> cached_ids c. a \<in> A \<and> R (FINGERPRINT (host N)) a None \<noteq> None)"

locale graph_reads = ingest_store N held A
  for N :: "'d ingest_node" and held :: "'d holds" and A :: "string set" +
  assumes key_rows: "query_db (host N) d (key_query s fs k) = Inr rs \<Longrightarrow>
        \<exists>rks. distinct rks \<and> set rks = {r. held d s k r \<noteq> None} \<and>
          list_all2 (\<lambda>r row. row_of fs (the (held d s k r)) row) rks rs"
    and scan_rows: "query_db (host N) d (simple_query s fs None) = Inr rs \<Longrightarrow> row \<in> set rs \<Longrightarrow>
        \<exists>k r m. held d s k r = Some m \<and> row_of fs m row"
begin

lemma text_keeps:
  assumes "ingest_text_signals N pats s k body now binding d = (res, d')" "signal_ids N pats body \<subseteq> A"
    and "graph_wf N A (recs d)" "listed_but N S (recs d)"
  shows "graph_wf N A (recs d') \<and> listed_but N (if is_ok res then S - planned_edges N (plan_records (text_plan N pats s k body now binding))
     else S \<union> planned_edges N (plan_records (text_plan N pats s k body now binding))) (recs d')"
proof -
  let ?ps = "plan_records (text_plan N pats s k body now binding)"
  obtain r where r: "write_records (host N) ?ps d = (r, d')" "is_ok res = is_ok r"
    using assms(1) by (auto simp: ingest_text_signals_def Let_def split: prod.splits sum.splits)
  have "graph_plan N A {} ?ps" unfolding text_plan_def by (rule text_graph_plan [OF all_names assms(2)]) (auto simp: mention_of_def)
  from plan_keeps [OF this r(1) assms(3,4)] r(2) show ?thesis by (simp add: known_present_def)
qed

lemma rebuild_keeps:
  assumes "ensure_cache_ready (host N) d g = (r, g')" "graph_wf N A (recs d)" "cache_wf N A (ag_cache g) (recs d)"
  shows "cache_wf N A (ag_cache g') (recs d)"
proof (cases "ag_initialized g")
  case True
  with assms show ?thesis by (simp add: ensure_cache_ready_def)
next
  case False
  note g = assms(1) [unfolded ensure_cache_ready_def rebuild_from_store_def]
  show ?thesis
  proof (cases "lookup_name (registry (host N)) (FINGERPRINT (host N))")
    case (Inl e)
    with False g assms(3) show ?thesis by auto
  next
    case (Inr s)
    show ?thesis
    proof (cases "query_db (host N) d (simple_query s [''id'', ''kind'', ''value''] None)")
      case (Inl e)
      with False Inr g assms(3) show ?thesis by auto
    next
      case rs: (Inr rs)
      have "a \<in> A \<and> recs d (FINGERPRINT (host N)) a None \<noteq> None"
        if a: "a \<in> fst ` set (List.map_filter (rebuild_entry (show_f32 (host N))) rs)" for a
      proof -
        from a obtain row e where row: "row \<in> set rs" "rebuild_entry (show_f32 (host N)) row = Some (a, e)"
          by (auto simp: map_filter_def)
        from scan_rows [OF rs row(1)] obtain k r m where m: "held d s k r = Some m" "row_of [''id'', ''kind'', ''value''] m row"
          by blast
        from m(2) obtain kvs where kvs: "row = JObj [(''fields'', JObj kvs)]" "map_of kvs = m |` {''id'', ''kind'', ''value''}"
          by (auto simp: row_of_def)
        have "opt_bind (json_get ''id'' (JObj kvs)) as_str = Some a"
          using row(2) by (auto simp: rebuild_entry_def kvs(1) split: if_splits option.splits sum.splits)
        moreover have R: "recs d (FINGERPRINT (host N)) k r = Some m" using m(1) Inr by (simp add: stored_view_def)
        then have "r = None" "m ''id'' = Some (JStr k)" "k \<in> A"
          using assms(2) unfolding graph_wf_def fingerprints_ok_def by blast+
        ultimately show ?thesis using kvs(2) R by simp
      qed
      moreover have "ag_cache g' = ann_replace_all (List.map_filter (rebuild_entry (show_f32 (host N))) rs) (ag_cache g)"
        using False Inr rs g by (auto simp: Let_def)
      ultimately show ?thesis unfolding cache_wf_def cached_ids_def by (simp only: ann_ok_replace ann_entries_replace) blast
    qed
  qed
qed

lemma cache_wf_grow: "cache_wf N A c (recs d) \<Longrightarrow> write_records (host N) ps d = (r, d') \<Longrightarrow> cache_wf N A c (recs d')"
proof (induction ps arbitrary: d r)
  case (Cons p ps)
  show ?case
  proof (rule write_records_ConsE [OF Cons.prems(2)])
    fix e
    assume "write_record (host N) p d = (Inl e, d')"
    with Cons.prems(1) row_grows show ?thesis unfolding cache_wf_def by metis
  next
    fix w d1 r2
    assume w: "write_record (host N) p d = (Inr w, d1)" "write_records (host N) ps d1 = (r2, d')"
    with Cons.prems(1) row_grows have "cache_wf N A c (recs d1)" unfolding cache_wf_def by metis
    with w(2) Cons.IH show ?thesis by blast
  qed
qed simp

lemma known_written:
  "write_records (host N) ps d = (Inr out, d') \<Longrightarrow> known_present K (recs d) \<Longrightarrow> known_present (fold learn ps K) (recs d')"
proof (induction ps arbitrary: d K out)
  case (Cons p ps)
  show ?case
  proof (rule write_records_ConsE [OF Cons.prems(1)])
    fix w d1 r2
    assume w: "write_record (host N) p d = (Inr w, d1)" "write_records (host N) ps d1 = (r2, d')"
      "is_ok (Inr out :: fold_db_error + write_outcome) = is_ok r2"
    from w(3) obtain out2 where "r2 = Inr out2" by (cases r2) auto
    moreover have "known_present (learn p K) (recs d1)"
      by (rule known_after [OF Cons.prems(2) write_record_view [OF w(1)]])
    ultimately show ?thesis using Cons.IH w(2) by simp
  qed simp
qed simp

lemma emit_keeps:
  assumes search: "search_ok search"
    and faces: "\<forall>a \<in> face_ids N faces. a \<in> A \<and> recs d (FINGERPRINT (host N)) a None \<noteq> None"
    and emit: "emit_similarity_edges_for_faces N search faces mn now d g = (sim, d', g')"
    and wf: "graph_wf N A (recs d)" "cache_wf N A (ag_cache g) (recs d)"
  shows "graph_wf N A (recs d') \<and> cache_wf N A (ag_cache g') (recs d')"
proof (cases "faces = []")
  case True
  with emit wf show ?thesis by (simp add: emit_similarity_edges_for_faces_def)
next
  case False
  obtain r g1 where g1: "ensure_cache_ready (host N) d g = (r, g1)" by (cases "ensure_cache_ready (host N) d g")
  note c1 = rebuild_keeps [OF g1 wf]
  show ?thesis
  proof (cases r)
    case (Inl e)
    with emit False g1 wf(1) c1 show ?thesis by (simp add: emit_similarity_edges_for_faces_def)
  next
    case (Inr u)
    obtain ps c where sim: "similarity_records N search mn now faces (ag_cache g1) = (ps, c)"
      by (cases "similarity_records N search mn now faces (ag_cache g1)")
    let ?K = "{FINGERPRINT (host N)} \<times> {a \<in> A. recs d (FINGERPRINT (host N)) a None \<noteq> None}"
    have K: "known_fps N ?K = {a \<in> A. recs d (FINGERPRINT (host N)) a None \<noteq> None}" by (auto simp: known_fps_def)
    have sub: "cached_ids (ag_cache g1) \<union> face_ids N faces \<subseteq> known_fps N ?K \<inter> A"
      using c1 faces unfolding K cache_wf_def by blast
    from similarity_graph_plan [OF search _ sub sim] c1
    have ps: "graph_plan N A ?K ps" "ann_ok c" "cached_ids c \<subseteq> cached_ids (ag_cache g1) \<union> face_ids N faces"
      by (auto simp: cache_wf_def)
    have c: "cache_wf N A c (recs d)" using ps(2,3) sub unfolding K cache_wf_def by blast
    obtain r2 d2 where w: "write_records (host N) ps d = (r2, d2)" by (cases "write_records (host N) ps d")
    have fin: "d' = (if ps = [] then d else d2) \<and> ag_cache g' = c"
      using emit False g1 Inr sim w by (cases r2) (auto simp: emit_similarity_edges_for_faces_def Let_def split: if_splits)
    have "known_present ?K (recs d)" by (auto simp: known_present_def)
    from plan_keeps [OF ps(1) w wf(1) _ this, of UNIV] have "graph_wf N A (recs d2)" by (simp add: listed_but_def)
    with cache_wf_grow [OF c w] fin wf(1) c show ?thesis by (cases "ps = []") auto
  qed
qed

lemma photo_keeps:
  assumes "search_ok search" "face_ids N faces \<subseteq> A"
    and "ingest_photo_faces N search s k faces now d g = (res, d', g')"
    and "graph_wf N A (recs d)" "cache_wf N A (ag_cache g) (recs d)"
  shows "graph_wf N A (recs d') \<and> cache_wf N A (ag_cache g') (recs d')"
proof -
  let ?mn = "deterministic_mention_id (hash_hex N) s k FACE_EXTRACTOR_NAME"
  let ?ps = "plan_records (plan_face_extraction N s k faces ?mn (extraction_status_id s k FACE_EXTRACTOR_NAME) now)"
  obtain r d1 where w: "write_records (host N) ?ps d = (r, d1)" by (cases "write_records (host N) ?ps d")
  have plan: "graph_plan N A {} ?ps" by (rule face_graph_plan [OF all_names assms(2)]) (auto simp: mention_of_def)
  have wf1: "graph_wf N A (recs d1)"
    using plan_keeps [OF plan w assms(4), of "planned_edges N ?ps \<union> UNIV"] by (simp add: known_present_def listed_but_def)
  have c1: "cache_wf N A (ag_cache g) (recs d1)" by (rule cache_wf_grow [OF assms(5) w])
  show ?thesis
  proof (cases r)
    case (Inl e)
    with assms(3) w wf1 c1 show ?thesis by (simp add: ingest_photo_faces_def Let_def)
  next
    case (Inr out)
    obtain sim where sim: "emit_similarity_edges_for_faces N search faces ?mn now d1 g = (sim, d', g')"
      using assms(3) w Inr by (auto simp: ingest_photo_faces_def Let_def split: prod.splits)
    have "\<forall>a \<in> face_ids N faces. a \<in> A \<and> recs d1 (FINGERPRINT (host N)) a None \<noteq> None"
    proof
      fix a
      assume a: "a \<in> face_ids N faces"
      then obtain face where face: "face \<in> set faces" "a = face_id (hash_hex N) face" by (auto simp: face_ids_def)
      then have "planned_hash (FINGERPRINT (host N)) a (face_fingerprint_fields a (df_embedding face) now) \<in> set ?ps"
        by (auto simp: plan_face_extraction_def Let_def)
      then have "(FINGERPRINT (host N), a) \<in> fold learn ?ps {}"
        unfolding fold_learn by (force simp: planned_simps)
      with known_written [OF w [unfolded Inr], of "{}"] a assms(2)
      show "a \<in> A \<and> recs d1 (FINGERPRINT (host N)) a None \<noteq> None" by (auto simp: known_present_def)
    qed
    from emit_keeps [OF assms(1) this sim wf1 c1] show ?thesis .
  qed
qed

end

section \<open>Whole batches\<close>

definition hook_body :: "hook_env \<Rightarrow> hook_mutation \<Rightarrow> string" where
  "hook_body he m = collect_string_fields (hm_fields m) (non_identity_field_names (metadata he) (hm_schema_name m))"

lemma cache_wf_empty: "cache_wf N A empty_cache R"
  unfolding cache_wf_def using ann_ok_empty by (simp add: cached_ids_def) (simp add: empty_cache_def)

context graph_reads
begin

lemma error_row_keeps:
  assumes "graph_wf N A (recs d)" "cache_wf N A c (recs d)"
  shows "graph_wf N A (recs (write_ingestion_error N now row d)) \<and> cache_wf N A c (recs (write_ingestion_error N now row d))"
proof -
  obtain r d' where w: "write_records (host N) [build_ingestion_error_record N now row] d = (r, d')"
    by (cases "write_records (host N) [build_ingestion_error_record N now row] d")
  have "other_record_ok N A {} (build_ingestion_error_record N now row)"
    by (rule status_record_plan [OF all_names]) (simp add: build_ingestion_error_record_def Let_def planned_simps)
  then have "graph_plan N A {} [build_ingestion_error_record N now row]"
    by (intro graph_plan.other graph_plan.nothing)
  from plan_keeps [OF this w assms(1), of UNIV] cache_wf_grow [OF assms(2) w] w show ?thesis
    by (simp add: write_ingestion_error_def listed_but_def known_present_def)
qed

lemma one_photo_keeps:
  assumes "search_ok search" "face_ids N (pf_faces photo) \<subseteq> A"
    and "ingest_one_photo N search s now err_now photo d g = (r, d', g')"
    and wf: "graph_wf N A (recs d)" "cache_wf N A (ag_cache g) (recs d)"
  shows "graph_wf N A (recs d') \<and> cache_wf N A (ag_cache g') (recs d')"
proof (cases "validate_face_inputs (show_f32 (host N)) (pf_faces photo)")
  case (Inl e)
  with assms(3) error_row_keeps [OF wf] show ?thesis
    by (auto simp: ingest_one_photo_def record_photo_failure_def split: prod.splits)
next
  case (Inr u)
  obtain res d1 g1 where i: "ingest_photo_faces N search s (pf_source_key photo) (pf_faces photo) now d g = (res, d1, g1)"
    by (cases "ingest_photo_faces N search s (pf_source_key photo) (pf_faces photo) now d g")
  note k = photo_keeps [OF assms(1,2) i wf]
  note e = error_row_keeps [OF conjunct1 [OF k] conjunct2 [OF k]]
  from assms(3) Inr i k e show ?thesis
    by (cases res) (auto simp: ingest_one_photo_def record_photo_failure_def emit_zero_yield_meta_error_def split: if_splits)
qed

lemma photos_keep:
  assumes "search_ok search" "\<forall>photo \<in> set photos. face_ids N (pf_faces photo) \<subseteq> A"
    and "ingest_photos N search s now clock i photos d g = (rs, d', g')"
    and "graph_wf N A (recs d)" "cache_wf N A (ag_cache g) (recs d)"
  shows "graph_wf N A (recs d') \<and> cache_wf N A (ag_cache g') (recs d')"
  using assms(2-)
proof (induction photos arbitrary: i d g rs)
  case (Cons photo photos)
  obtain r d1 g1 where p: "ingest_one_photo N search s now (clock i) photo d g = (r, d1, g1)"
    by (cases "ingest_one_photo N search s now (clock i) photo d g")
  obtain rs1 where "ingest_photos N search s now clock (Suc i) photos d1 g1 = (rs1, d', g')"
    using Cons.prems(2) p by (auto split: prod.splits)
  with Cons.IH one_photo_keeps [OF assms(1) _ p Cons.prems(3,4)] Cons.prems(1) show ?case by simp
qed simp

lemma one_text_keeps:
  assumes "ingest_one_text N pats s now err_now rec d = (r, d')" "signal_ids N pats (tr_text rec) \<subseteq> A"
    and wf: "graph_wf N A (recs d)"
  shows "graph_wf N A (recs d')"
proof -
  obtain res d1 where i: "ingest_text_signals N pats s (tr_source_key rec) (tr_text rec) now CoOccurrence d = (res, d1)"
    by (cases "ingest_text_signals N pats s (tr_source_key rec) (tr_text rec) now CoOccurrence d")
  have "graph_wf N A (recs d1)" using text_keeps [OF i assms(2) wf, of UNIV] by (simp add: listed_but_def)
  moreover from this have "graph_wf N A (recs (emit_zero_yield_meta_error N err_now s (tr_source_key rec) m d1))" for m
    unfolding emit_zero_yield_meta_error_def by (rule conjunct1 [OF error_row_keeps [OF _ cache_wf_empty]])
  ultimately show ?thesis using assms(1) i by (cases res) (auto simp: ingest_one_text_def split: if_splits)
qed

lemma texts_keep:
  assumes "\<forall>rec \<in> set recs'. signal_ids N pats (tr_text rec) \<subseteq> A"
    and "ingest_texts N pats s now clock i recs' d = (rs, d')" "graph_wf N A (recs d)"
  shows "graph_wf N A (recs d')"
  using assms
proof (induction recs' arbitrary: i d rs)
  case (Cons rec recs')
  obtain r d1 where p: "ingest_one_text N pats s now (clock i) rec d = (r, d1)"
    by (cases "ingest_one_text N pats s now (clock i) rec d")
  obtain rs1 where "ingest_texts N pats s now clock (Suc i) recs' d1 = (rs1, d')"
    using Cons.prems(2) p by (auto split: prod.splits)
  with Cons.IH one_text_keeps [OF p _ Cons.prems(3)] Cons.prems(1) show ?case by simp
qed simp

lemma hook_keeps:
  assumes "\<forall>m \<in> set ms. signal_ids N pats (hook_body he m) \<subseteq> A"
    and "hook_each N pats he now ms n d = (n', d')" "graph_wf N A (recs d)"
  shows "graph_wf N A (recs d')"
  using assms
proof (induction ms arbitrary: n d)
  case (Cons m ms)
  obtain y d1 where p: "hook_one N pats he now m d = (y, d1)" by (cases "hook_one N pats he now m d")
  let ?desc = "resolve_descriptive (metadata he) (hm_schema_name m)"
  obtain res d2 where i: "ingest_text_signals N pats ?desc (source_key_for he m) (hook_body he m) now (binding_for_schema ?desc) d = (res, d2)"
    by (cases "ingest_text_signals N pats ?desc (source_key_for he m) (hook_body he m) now (binding_for_schema ?desc) d")
  have "graph_wf N A (recs d2)"
    using text_keeps [OF i _ Cons.prems(3), of UNIV] Cons.prems(1) by (simp add: listed_but_def)
  with p i Cons.prems(3) have "graph_wf N A (recs d1)"
    by (cases res) (auto simp: hook_one_def Let_def hook_body_def split: if_splits)
  with Cons.IH [OF _ _ this] Cons.prems(1,2) p show ?case by simp
qed simp

end

end
