(* ===== verification/Identity_Cards.thy ===== *)
theory Identity_Cards
  imports Ingest_Store "HOL-Library.Option_ord"
begin

text \<open>
  Identity cards: the owner's bootstrap (\<^verbatim>\<open>src/fingerprints/self_identity.rs\<close>), and under
  \<^verbatim>\<open>src/handlers/fingerprints/\<close> importing a peer's card (\<^verbatim>\<open>import_identity_card.rs\<close>), serving
  and re-issuing the own card (\<^verbatim>\<open>my_identity_card.rs\<close>, \<^verbatim>\<open>reissue_identity_card.rs\<close>) and the audit
  list (\<^verbatim>\<open>identities.rs\<close>). Base64, Ed25519 and the JSON printer are the parameter \<open>card_crypto\<close>;
  times and UUIDs are arguments.
\<close>

section \<open>Keys and signed bytes\<close>

text \<open>\<open>valid_point\<close> is \<^verbatim>\<open>VerifyingKey::from_bytes\<close>; errors of the crates are their renderings.\<close>

record card_crypto =
  card_b64_encode :: "bytes \<Rightarrow> string"
  card_b64_decode :: "string \<Rightarrow> string + bytes"
  valid_point :: "bytes \<Rightarrow> string + unit"
  ed_verify :: "bytes \<Rightarrow> bytes \<Rightarrow> bytes \<Rightarrow> bool"
  ed_sign :: "bytes \<Rightarrow> bytes \<Rightarrow> bytes"
  json_bytes :: "json \<Rightarrow> bytes"

record node_keys =
  node_public_key :: string
  node_private_key :: string

definition extract_ed25519_seed :: "card_crypto \<Rightarrow> string \<Rightarrow> fold_db_error + bytes" where
  "extract_ed25519_seed cc private_key_b64 =
     res_bind (map_err (\<lambda>e. Config (''Invalid private key base64: '' @ e)) (card_b64_decode cc private_key_b64)) (\<lambda>bs.
     if length bs \<noteq> 32 \<and> length bs \<noteq> 64 then
       Inl (Config (''Ed25519 private key has unexpected length: '' @ show_nat (length bs) @ '' (expected 32 or 64)''))
     else Inr (take 32 bs))"

record card_payload =
  cp_pub_key :: string
  cp_display_name :: string
  cp_birthday :: "string option"
  cp_face_embedding :: "fl list option"
  cp_issued_at :: string

definition json_opt :: "('a \<Rightarrow> json) \<Rightarrow> 'a option \<Rightarrow> json" where
  "json_opt f x = (case x of None \<Rightarrow> JNull | Some v \<Rightarrow> f v)"

definition json_floats :: "fl list \<Rightarrow> json" where
  "json_floats vs = JArr (map json_float vs)"

definition canonical_bytes :: "card_crypto \<Rightarrow> card_payload \<Rightarrow> bytes" where
  "canonical_bytes cc p = json_bytes cc (JObj
     [(''birthday'', json_opt JStr (cp_birthday p)), (''display_name'', JStr (cp_display_name p)),
      (''face_embedding'', json_opt json_floats (cp_face_embedding p)), (''issued_at'', JStr (cp_issued_at p)),
      (''pub_key'', JStr (cp_pub_key p))])"

section \<open>The owner's records\<close>

definition identity_record :: "'d ingest_node \<Rightarrow> string \<Rightarrow> string \<Rightarrow> string \<Rightarrow> string \<Rightarrow> string \<Rightarrow> planned_record" where
  "identity_record N self_id pub_key name card_signature now = planned_hash (IDENTITY N) self_id
     [''id'' \<mapsto> JStr self_id, ''pub_key'' \<mapsto> JStr pub_key, ''display_name'' \<mapsto> JStr name, ''birthday'' \<mapsto> JNull,
      ''face_embedding'' \<mapsto> JNull, ''node_id'' \<mapsto> JStr pub_key, ''card_signature'' \<mapsto> JStr card_signature,
      ''issued_at'' \<mapsto> JStr now]"

definition node_pub_key_fingerprint_record :: "'d ingest_node \<Rightarrow> string \<Rightarrow> string \<Rightarrow> string \<Rightarrow> planned_record" where
  "node_pub_key_fingerprint_record N fp_id pub_key now = planned_hash (FINGERPRINT (host N)) fp_id
     [''id'' \<mapsto> JStr fp_id, ''kind'' \<mapsto> JStr kind_NODE_PUB_KEY, ''value'' \<mapsto> JStr pub_key, ''first_seen'' \<mapsto> JStr now,
      ''last_seen'' \<mapsto> JStr now]"

definition receipt_record ::
    "'d ingest_node \<Rightarrow> string \<Rightarrow> string \<Rightarrow> string \<Rightarrow> string \<Rightarrow> string \<Rightarrow> planned_record" where
  "receipt_record N via level receipt_id self_id now = planned_hash (IDENTITY_RECEIPT N) receipt_id
     [''id'' \<mapsto> JStr receipt_id, ''identity_id'' \<mapsto> JStr self_id, ''received_at'' \<mapsto> JStr now,
      ''received_via'' \<mapsto> JStr via, ''received_from'' \<mapsto> JNull, ''trust_level'' \<mapsto> JStr level]"

definition identity_receipt_record :: "'d ingest_node \<Rightarrow> string \<Rightarrow> string \<Rightarrow> string \<Rightarrow> planned_record" where
  "identity_receipt_record N = receipt_record N ''Self'' ''Self''"

definition me_persona_record ::
    "'d ingest_node \<Rightarrow> string \<Rightarrow> string \<Rightarrow> string \<Rightarrow> string \<Rightarrow> string \<Rightarrow> planned_record" where
  "me_persona_record N pid name seed_fp self_id now = planned_hash (PERSONA (host N)) pid
     [''id'' \<mapsto> JStr pid, ''name'' \<mapsto> JStr name, ''seed_fingerprint_ids'' \<mapsto> JArr [JStr seed_fp],
      ''threshold'' \<mapsto> json_float (f32_round (9 / 10)), ''excluded_mention_ids'' \<mapsto> JArr [],
      ''excluded_edge_ids'' \<mapsto> JArr [], ''included_mention_ids'' \<mapsto> JArr [], ''aliases'' \<mapsto> JArr [],
      ''relationship'' \<mapsto> JStr ''self'', ''trust_tier'' \<mapsto> JInt 4, ''identity_id'' \<mapsto> identity_ref self_id,
      ''user_confirmed'' \<mapsto> JBool True, ''built_in'' \<mapsto> JBool True, ''created_at'' \<mapsto> JStr now]"

record self_identity_outcome =
  so_self_identity_id :: string
  so_node_pub_key_fingerprint_id :: string
  so_me_persona_id :: string
  so_identity_receipt_id :: string

text \<open>The two UUIDs are those of the receipt and of the persona.\<close>

definition bootstrap_records ::
    "card_crypto \<Rightarrow> 'd ingest_node \<Rightarrow> string \<Rightarrow> bytes \<Rightarrow> string \<times> string \<Rightarrow> string \<Rightarrow> string
     \<Rightarrow> planned_record list \<times> self_identity_outcome" where
  "bootstrap_records cc N pub_key seed uuids now name =
     (let crd = \<lparr>cp_pub_key = pub_key, cp_display_name = name, cp_birthday = None, cp_face_embedding = None,
                   cp_issued_at = now\<rparr>;
          card_signature = card_b64_encode cc (ed_sign cc seed (canonical_bytes cc crd));
          self_id = identity_id_of pub_key;
          fp_id = fingerprint_id_from_bytes (hash_hex N) kind_NODE_PUB_KEY (as_bytes pub_key);
          receipt_id = ''ir_'' @ fst uuids; me_id = ''ps_'' @ snd uuids in
      ([identity_record N self_id pub_key name card_signature now, node_pub_key_fingerprint_record N fp_id pub_key now,
        identity_receipt_record N receipt_id self_id now, me_persona_record N me_id name fp_id self_id now],
       \<lparr>so_self_identity_id = self_id, so_node_pub_key_fingerprint_id = fp_id, so_me_persona_id = me_id,
        so_identity_receipt_id = receipt_id\<rparr>))"

fun require_names :: "'d ingest_node \<Rightarrow> string list \<Rightarrow> fold_db_error + unit" where
  "require_names N [] = Inr ()"
| "require_names N (schema # schemas) =
     (case lookup_name (registry (host N)) schema of
        Inl _ \<Rightarrow> Inl (Config (''bootstrap_self_identity: canonical_names registry missing '' @ quoted schema @
          ''. register_phase_1_schemas() must run before bootstrap.''))
      | Inr _ \<Rightarrow> require_names N schemas)"

definition bootstrap_self_identity ::
    "card_crypto \<Rightarrow> node_keys \<Rightarrow> 'd ingest_node \<Rightarrow> string \<times> string \<Rightarrow> string \<Rightarrow> string \<Rightarrow> 'd
     \<Rightarrow> (fold_db_error + self_identity_outcome) \<times> 'd" where
  "bootstrap_self_identity cc keys N uuids now name d =
     (case extract_ed25519_seed cc (node_private_key keys) of
        Inl e \<Rightarrow> (Inl e, d)
      | Inr seed \<Rightarrow>
          (let (records, outcome) = bootstrap_records cc N (node_public_key keys) seed uuids now name in
           case require_names N [IDENTITY N, FINGERPRINT (host N), IDENTITY_RECEIPT N, PERSONA (host N)] of
             Inl e \<Rightarrow> (Inl e, d)
           | Inr _ \<Rightarrow>
               (case write_records (host N) records d of
                  (r, d) \<Rightarrow> (res_bind r (\<lambda>_. Inr outcome), d))))"

definition any_record_built_in :: "json list \<Rightarrow> bool" where
  "any_record_built_in rs =
     list_ex (\<lambda>r. or_default False (opt_bind (opt_bind (json_get ''fields'' r) (json_get ''built_in'')) as_bool)) rs"

definition me_persona_exists :: "'d ingest_node \<Rightarrow> 'd \<Rightarrow> fold_db_error + bool" where
  "me_persona_exists N d =
     res_bind (map_err (\<lambda>e. Config (''me_persona_exists: canonical_names registry missing '' @ quoted (PERSONA (host N)) @
         '' -- register_phase_1_schemas() must run before this check. Error: '' @ show_error (host N) e))
       (lookup_name (registry (host N)) (PERSONA (host N)))) (\<lambda>canonical.
     res_bind (map_err (\<lambda>e. Config (''me_persona_exists query failed: '' @ show_error (host N) e))
       (query_db (host N) d (simple_query canonical [''built_in''] None))) (\<lambda>records.
     Inr (any_record_built_in records)))"

definition ensure_me_persona_if_absent ::
    "card_crypto \<Rightarrow> node_keys \<Rightarrow> 'd ingest_node \<Rightarrow> string \<times> string \<Rightarrow> string \<Rightarrow> string \<Rightarrow> 'd
     \<Rightarrow> (fold_db_error + self_identity_outcome option) \<times> 'd" where
  "ensure_me_persona_if_absent cc keys N uuids now name d =
     (case me_persona_exists N d of
        Inl e \<Rightarrow> (Inl e, d)
      | Inr True \<Rightarrow> (Inr None, d)
      | Inr False \<Rightarrow>
          (case bootstrap_self_identity cc keys N uuids now name d of (r, d) \<Rightarrow> (res_bind r (\<lambda>outcome. Inr (Some outcome)), d)))"

section \<open>Importing a card\<close>

record incoming_card =
  ca_pub_key :: string
  ca_display_name :: string
  ca_birthday :: "string option"
  ca_face_embedding :: "f32 list option"
  ca_node_id :: string
  ca_signature :: string
  ca_issued_at :: string

definition decode_base64 :: "card_crypto \<Rightarrow> string \<Rightarrow> string \<Rightarrow> handler_error + bytes" where
  "decode_base64 cc value field_name =
     map_err (\<lambda>e. BadRequest (field_name @ '' is not valid base64: '' @ e)) (card_b64_decode cc value)"

definition payload_of_card :: "incoming_card \<Rightarrow> card_payload" where
  "payload_of_card crd = \<lparr>cp_pub_key = ca_pub_key crd, cp_display_name = ca_display_name crd,
     cp_birthday = ca_birthday crd, cp_face_embedding = map_option (map f32_val) (ca_face_embedding crd),
     cp_issued_at = ca_issued_at crd\<rparr>"

definition verify_card_signature :: "card_crypto \<Rightarrow> incoming_card \<Rightarrow> handler_error + unit" where
  "verify_card_signature cc crd =
     res_bind (decode_base64 cc (ca_pub_key crd) ''pub_key'') (\<lambda>pk.
     if length pk \<noteq> 32 then
       Inl (BadRequest (''pub_key must decode to exactly 32 bytes (got '' @ show_nat (length pk) @ '')''))
     else
     res_bind (map_err (\<lambda>e. BadRequest (''pub_key is not a valid ed25519 point: '' @ e)) (valid_point cc pk)) (\<lambda>_.
     res_bind (decode_base64 cc (ca_signature crd) ''card_signature'') (\<lambda>sig.
     if length sig \<noteq> 64 then
       Inl (BadRequest (''card_signature must decode to exactly 64 bytes (got '' @ show_nat (length sig) @ '')''))
     else if ed_verify cc pk (canonical_bytes cc (payload_of_card crd)) sig then Inr ()
     else Inl (BadRequest (''card_signature does not verify against pub_key + canonical bytes. The card was either '' @
       ''tampered with, issued for a different pub_key, or encoded with a different canonical shape.'')))))"

definition build_identity_record :: "'d ingest_node \<Rightarrow> string \<Rightarrow> incoming_card \<Rightarrow> planned_record" where
  "build_identity_record N self_id crd = planned_hash (IDENTITY N) self_id
     [''id'' \<mapsto> JStr self_id, ''pub_key'' \<mapsto> JStr (ca_pub_key crd), ''display_name'' \<mapsto> JStr (ca_display_name crd),
      ''birthday'' \<mapsto> json_opt JStr (ca_birthday crd),
      ''face_embedding'' \<mapsto> json_opt json_floats (map_option (map f32_val) (ca_face_embedding crd)),
      ''node_id'' \<mapsto> JStr (ca_node_id crd), ''card_signature'' \<mapsto> JStr (ca_signature crd),
      ''issued_at'' \<mapsto> JStr (ca_issued_at crd)]"

definition build_identity_receipt_record :: "'d ingest_node \<Rightarrow> string \<Rightarrow> string \<Rightarrow> string \<Rightarrow> planned_record" where
  "build_identity_receipt_record N uuid self_id now = receipt_record N ''Paste'' ''Attested'' (''ir_'' @ uuid) self_id now"

definition build_face_records :: "'d ingest_node \<Rightarrow> string \<Rightarrow> f32 list \<Rightarrow> string \<Rightarrow> planned_record list" where
  "build_face_records N pub_key embedding now =
     (let face_fp_id = fingerprint_id_for_face_embedding (hash_hex N) (map f32_bytes embedding);
          node_pub_key_fp_id = fingerprint_id_from_bytes (hash_hex N) kind_NODE_PUB_KEY (as_bytes pub_key);
          eg_id = edge_id (hash_hex N) face_fp_id node_pub_key_fp_id edge_IDENTITY_FACE in
      [planned_hash (FINGERPRINT (host N)) face_fp_id (face_fingerprint_fields face_fp_id embedding now),
       planned_hash (EDGE (host N)) eg_id
         [''id'' \<mapsto> JStr eg_id, ''a'' \<mapsto> JStr face_fp_id, ''b'' \<mapsto> JStr node_pub_key_fp_id,
          ''kind'' \<mapsto> JStr edge_IDENTITY_FACE, ''weight'' \<mapsto> json_float (Fin 1), ''evidence_mention_ids'' \<mapsto> JArr [],
          ''created_at'' \<mapsto> JStr now]])"

definition import_records :: "'d ingest_node \<Rightarrow> string \<Rightarrow> string \<Rightarrow> incoming_card \<Rightarrow> planned_record list" where
  "import_records N uuid now crd =
     (let self_id = identity_id_of (ca_pub_key crd) in
      [build_identity_record N self_id crd, build_identity_receipt_record N uuid self_id now] @
      (case ca_face_embedding crd of None \<Rightarrow> [] | Some e \<Rightarrow> build_face_records N (ca_pub_key crd) e now))"

definition identity_exists :: "'d ingest_node \<Rightarrow> 'd \<Rightarrow> string \<Rightarrow> handler_error + bool" where
  "identity_exists N d self_id =
     res_bind (canonical_lookup (host N) (IDENTITY N)) (\<lambda>canonical.
     res_bind (handler_err (show_error (host N)) ''probe for existing identity''
       (query_db (host N) d (key_query canonical [''id''] self_id))) (\<lambda>records.
     Inr (records \<noteq> [])))"

record import_card_response =
  ii_identity_id :: string
  ii_verified :: bool
  ii_was_already_present :: bool
  ii_linked_persona :: "persona_detail option"

definition store_card ::
    "card_crypto \<Rightarrow> 'd ingest_node \<Rightarrow> string \<Rightarrow> string \<Rightarrow> incoming_card \<Rightarrow> 'd \<Rightarrow> (handler_error + bool) \<times> 'd" where
  "store_card cc N uuid now crd d =
     (case res_bind (verify_card_signature cc crd) (\<lambda>_. identity_exists N d (identity_id_of (ca_pub_key crd))) of
        Inl e \<Rightarrow> (Inl e, d)
      | Inr True \<Rightarrow> (Inr True, d)
      | Inr False \<Rightarrow>
          (case write_records (host N) (import_records N uuid now crd) d of
             (r, d) \<Rightarrow> (res_bind (handler_err_msg (show_error (host N))
                 ''import_identity_card: failed to persist Identity/IdentityReceipt'' r) (\<lambda>_. Inr False), d)))"

text \<open>\<^const>\<open>None\<close> comes from the resolver's fuel, when the linked persona is read back.\<close>

definition import_identity_card ::
    "card_crypto \<Rightarrow> (string set \<Rightarrow> string list) \<Rightarrow> 'd ingest_node \<Rightarrow> string \<Rightarrow> string \<Rightarrow> incoming_card \<Rightarrow> string option \<Rightarrow> 'd
     \<Rightarrow> (handler_error + import_card_response) option \<times> 'd" where
  "import_identity_card cc it N uuid now crd link d =
     (let self_id = identity_id_of (ca_pub_key crd) in
      case store_card cc N uuid now crd d of
        (Inl e, d) \<Rightarrow> (Some (Inl e), d)
      | (Inr present, d) \<Rightarrow>
          (let response = \<lparr>ii_identity_id = self_id, ii_verified = True, ii_was_already_present = present,
                           ii_linked_persona = None\<rparr> in
           case link of
             None \<Rightarrow> (Some (Inr response), d)
           | Some pid \<Rightarrow>
               (case apply_persona_patch it (host N) d pid (empty_patch\<lparr>pp_link_identity_id := Some self_id\<rparr>) of
                  (r, d) \<Rightarrow> (map_option (\<lambda>r. res_bind r (\<lambda>detail.
                      Inr (response\<lparr>ii_linked_persona := Some detail\<rparr>))) r, d))))"

section \<open>The own card\<close>

record my_card =
  my_pub_key :: string
  my_display_name :: string
  my_birthday :: "string option"
  my_face_embedding :: "fl list option"
  my_node_id :: string
  my_signature :: string
  my_issued_at :: string

text \<open>An embedding read back from JSON; entries that are not numbers are skipped.\<close>

definition face_field :: "json \<Rightarrow> fl list option" where
  "face_field fs = map_option (List.map_filter (\<lambda>x. map_option as_f32 (as_f64 x)))
     (opt_bind (json_get ''face_embedding'' fs) as_array)"

definition extract_card :: "json \<Rightarrow> handler_error + my_card" where
  "extract_card fs =
     res_bind (ok_or (Internal (''identity record missing '' @ quoted ''pub_key'')) (string_field fs ''pub_key'')) (\<lambda>pk.
     Inr \<lparr>my_pub_key = pk, my_display_name = or_default [] (string_field fs ''display_name''),
       my_birthday = string_field fs ''birthday'', my_face_embedding = face_field fs,
       my_node_id = or_default [] (string_field fs ''node_id''),
       my_signature = or_default [] (string_field fs ''card_signature''),
       my_issued_at = or_default [] (string_field fs ''issued_at'')\<rparr>)"

definition identity_fields :: "string list" where
  "identity_fields = [''pub_key'', ''display_name'', ''birthday'', ''face_embedding'', ''node_id'', ''card_signature'',
     ''issued_at'']"

definition fetch_identity :: "'d ingest_node \<Rightarrow> 'd \<Rightarrow> string \<Rightarrow> string list \<Rightarrow> string \<Rightarrow> handler_error + json" where
  "fetch_identity N d canonical wanted self_id =
     res_bind (handler_err (show_error (host N)) ''query identity''
       (query_db (host N) d (key_query canonical wanted self_id))) (\<lambda>records.
     res_bind (ok_or (NotFound ''self-Identity not yet issued -- complete the setup wizard first'')
       (case records of [] \<Rightarrow> None | r # _ \<Rightarrow> Some r)) (\<lambda>r.
     ok_or (Internal (''identity record missing '' @ quoted ''fields'' @ '' envelope'')) (json_get ''fields'' r)))"

definition get_my_identity_card :: "node_keys \<Rightarrow> 'd ingest_node \<Rightarrow> 'd \<Rightarrow> handler_error + my_card" where
  "get_my_identity_card keys N d =
     res_bind (canonical_lookup (host N) (IDENTITY N)) (\<lambda>canonical.
     res_bind (fetch_identity N d canonical identity_fields (identity_id_of (node_public_key keys))) extract_card)"

text \<open>
  \<^verbatim>\<open>Option<Option<T>>\<close> in a request: absent leaves a field alone, \<^term>\<open>Some None\<close> clears it.
\<close>

record reissue_request =
  rq_display_name :: "string option"
  rq_birthday :: "string option option"
  rq_face_embedding :: "f32 list option option"

text \<open>The fields of the Me persona are asked for without \<^verbatim>\<open>built_in\<close> being known in advance.\<close>

definition me_persona_fields :: "string list" where
  "me_persona_fields = [''id'', ''built_in'', ''name'', ''seed_fingerprint_ids'', ''threshold'', ''excluded_mention_ids'',
     ''excluded_edge_ids'', ''included_mention_ids'', ''aliases'', ''relationship'', ''trust_tier'', ''identity_id'',
     ''user_confirmed'', ''created_at'']"

definition update_me_persona_name :: "'d ingest_node \<Rightarrow> string \<Rightarrow> string \<Rightarrow> 'd \<Rightarrow> (handler_error + unit) \<times> 'd" where
  "update_me_persona_name N persona_canonical new_name d =
     (case handler_err (show_error (host N)) ''query persona''
         (query_db (host N) d (simple_query persona_canonical me_persona_fields None)) of
        Inl e \<Rightarrow> (Inl e, d)
      | Inr records \<Rightarrow>
          (case find (\<lambda>r. any_record_built_in [r]) records of
             None \<Rightarrow> (Inr (), d)
           | Some me \<Rightarrow>
               (case res_bind (case json_get ''fields'' me of Some (JObj kvs) \<Rightarrow> Inr kvs
                       | _ \<Rightarrow> Inl (Internal (''Me persona record missing '' @ quoted ''fields'' @ '' envelope''))) (\<lambda>kvs.
                     res_bind (ok_or (Internal (''Me persona missing '' @ quoted ''id'' @ '' field''))
                       (string_field (JObj kvs) ''id'')) (\<lambda>me_id. Inr (kvs, me_id))) of
                  Inl e \<Rightarrow> (Inl e, d)
                | Inr (kvs, me_id) \<Rightarrow>
                    (case mutate_db (host N) d persona_canonical ((map_of kvs)(''name'' \<mapsto> JStr new_name))
                            (Some me_id, None) Update of
                       (r, d) \<Rightarrow> (res_bind (handler_err (show_error (host N)) ''update Me persona'' r) (\<lambda>_. Inr ()), d)))))"

text \<open>\<^verbatim>\<open>impl Display for HandlerError\<close>.\<close>

fun display_handler_error :: "handler_error \<Rightarrow> string" where
  "display_handler_error (BadRequest msg) = ''Bad request: '' @ msg"
| "display_handler_error (Unauthorized msg) = ''Unauthorized: '' @ msg"
| "display_handler_error (NotFound msg) = ''Not found: '' @ msg"
| "display_handler_error (Internal msg) = ''Internal error: '' @ msg"
| "display_handler_error (ServiceUnavailable msg) = ''Service unavailable: '' @ msg"

definition reissued_card :: "card_crypto \<Rightarrow> string \<Rightarrow> bytes \<Rightarrow> string \<Rightarrow> reissue_request \<Rightarrow> json \<Rightarrow> my_card" where
  "reissued_card cc pub_key seed now rq fs =
     (let name = (case rq_display_name rq of Some n \<Rightarrow> n | None \<Rightarrow> or_default [] (string_field fs ''display_name''));
          birthday = (case rq_birthday rq of Some b \<Rightarrow> b | None \<Rightarrow> string_field fs ''birthday'');
          face = (case rq_face_embedding rq of Some f \<Rightarrow> map_option (map f32_val) f | None \<Rightarrow> face_field fs);
          payload = \<lparr>cp_pub_key = pub_key, cp_display_name = name, cp_birthday = birthday, cp_face_embedding = face,
                     cp_issued_at = now\<rparr> in
      \<lparr>my_pub_key = pub_key, my_display_name = name, my_birthday = birthday, my_face_embedding = face,
       my_node_id = pub_key, my_signature = card_b64_encode cc (ed_sign cc seed (canonical_bytes cc payload)),
       my_issued_at = now\<rparr>)"

definition card_fields :: "string \<Rightarrow> my_card \<Rightarrow> payload" where
  "card_fields self_id crd =
     [''id'' \<mapsto> JStr self_id, ''pub_key'' \<mapsto> JStr (my_pub_key crd), ''display_name'' \<mapsto> JStr (my_display_name crd),
      ''birthday'' \<mapsto> json_opt JStr (my_birthday crd),
      ''face_embedding'' \<mapsto> json_opt json_floats (my_face_embedding crd),
      ''node_id'' \<mapsto> JStr (my_node_id crd), ''card_signature'' \<mapsto> JStr (my_signature crd),
      ''issued_at'' \<mapsto> JStr (my_issued_at crd)]"

definition reissue_guard :: "reissue_request \<Rightarrow> handler_error + unit" where
  "reissue_guard rq =
     (if rq_display_name rq = None \<and> rq_birthday rq = None \<and> rq_face_embedding rq = None then
        Inl (BadRequest ''reissue requires at least one of display_name, birthday, or face_embedding'')
      else (case rq_display_name rq of None \<Rightarrow> Inr () | Some name \<Rightarrow> require_non_empty name ''display_name must not be empty''))"

text \<open>Everything before the first write: the schemas' names and the new card.\<close>

definition reissue_prepare ::
    "card_crypto \<Rightarrow> node_keys \<Rightarrow> 'd ingest_node \<Rightarrow> string \<Rightarrow> reissue_request \<Rightarrow> 'd
     \<Rightarrow> handler_error + string \<times> string \<times> my_card" where
  "reissue_prepare cc keys N now rq d =
     res_bind (reissue_guard rq) (\<lambda>_.
     res_bind (canonical_lookup (host N) (IDENTITY N)) (\<lambda>identity_canonical.
     res_bind (canonical_lookup (host N) (PERSONA (host N))) (\<lambda>persona_canonical.
     res_bind (fetch_identity N d identity_canonical
       [''pub_key'', ''display_name'', ''birthday'', ''face_embedding'', ''node_id''] (identity_id_of (node_public_key keys))) (\<lambda>fs.
     res_bind (handler_err (show_error (host N)) ''load node signing key''
       (extract_ed25519_seed cc (node_private_key keys))) (\<lambda>seed.
     Inr (identity_canonical, persona_canonical, reissued_card cc (node_public_key keys) seed now rq fs))))))"

definition reissue_identity_card ::
    "card_crypto \<Rightarrow> node_keys \<Rightarrow> 'd ingest_node \<Rightarrow> string \<Rightarrow> reissue_request \<Rightarrow> 'd \<Rightarrow> (handler_error + my_card) \<times> 'd" where
  "reissue_identity_card cc keys N now rq d =
     (case reissue_prepare cc keys N now rq d of
        Inl e \<Rightarrow> (Inl e, d)
      | Inr (identity_canonical, persona_canonical, crd) \<Rightarrow>
          (let self_id = identity_id_of (node_public_key keys) in
           case mutate_db (host N) d identity_canonical (card_fields self_id crd) (Some self_id, None) Update of
             (Inl e, d) \<Rightarrow> (handler_err (show_error (host N)) ''update Identity record'' (Inl e), d)
           | (Inr _, d) \<Rightarrow>
               (if rq_display_name rq = None then (Inr crd, d)
                else (case update_me_persona_name N persona_canonical (my_display_name crd) d of
                    (r, d) \<Rightarrow> (res_bind (handler_err_msg display_handler_error
                        ''Identity card updated but failed to sync Me persona name'' r) (\<lambda>_. Inr crd), d)))))"

section \<open>The audit list\<close>

record receipt_fields =
  rf_received_via :: "string option"
  rf_received_at :: "string option"
  rf_trust_level :: "string option"

definition no_receipt :: receipt_fields where
  "no_receipt = \<lparr>rf_received_via = None, rf_received_at = None, rf_trust_level = None\<rparr>"

definition should_replace :: "string option \<Rightarrow> string option \<Rightarrow> bool" where
  "should_replace old new =
     (case (old, new) of (None, _) \<Rightarrow> True | (Some o', Some n) \<Rightarrow> o' < n | _ \<Rightarrow> False)"

definition receipt_step :: "json \<Rightarrow> (string \<rightharpoonup> receipt_fields) \<Rightarrow> (string \<rightharpoonup> receipt_fields)" where
  "receipt_step r m =
     (case opt_bind (json_get ''fields'' r) (\<lambda>fs. map_option (Pair fs) (string_field fs ''identity_id'')) of
        None \<Rightarrow> m
      | Some (fs, i) \<Rightarrow>
          (let entry = or_default no_receipt (m i) in
           m(i \<mapsto> (if should_replace (rf_received_at entry) (string_field fs ''received_at'') then
               \<lparr>rf_received_via = string_field fs ''received_via'', rf_received_at = string_field fs ''received_at'',
                rf_trust_level = string_field fs ''trust_level''\<rparr> else entry))))"

definition receipts_by_identity :: "json list \<Rightarrow> string \<rightharpoonup> receipt_fields" where
  "receipts_by_identity rs = fold receipt_step rs Map.empty"

record audit_row =
  ar_identity_id :: string
  ar_pub_key :: string
  ar_display_name :: string
  ar_issued_at :: string
  ar_received_via :: "string option"
  ar_received_at :: "string option"
  ar_trust_level :: "string option"
  ar_is_self :: bool

text \<open>A receipt is taken out of the map by the first identity it is joined to.\<close>

fun audit_rows :: "string \<Rightarrow> json list \<Rightarrow> (string \<rightharpoonup> receipt_fields) \<Rightarrow> audit_row list" where
  "audit_rows self_pub_key [] m = []"
| "audit_rows self_pub_key (r # rs) m =
     (case opt_bind (json_get ''fields'' r) (\<lambda>fs. map_option (Pair fs) (string_field fs ''id'')) of
        None \<Rightarrow> audit_rows self_pub_key rs m
      | Some (fs, i) \<Rightarrow>
          (let pub_key = or_default [] (string_field fs ''pub_key''); receipt = or_default no_receipt (m i) in
           \<lparr>ar_identity_id = i, ar_pub_key = pub_key,
            ar_display_name = or_default [] (string_field fs ''display_name''),
            ar_issued_at = or_default [] (string_field fs ''issued_at''),
            ar_received_via = rf_received_via receipt, ar_received_at = rf_received_at receipt,
            ar_trust_level = rf_trust_level receipt, ar_is_self = (pub_key = self_pub_key)\<rparr> #
           audit_rows self_pub_key rs (m(i := None))))"

text \<open>The order on options puts \<^const>\<open>None\<close> below every time, so it comes last.\<close>

definition list_identities :: "node_keys \<Rightarrow> 'd ingest_node \<Rightarrow> 'd \<Rightarrow> handler_error + audit_row list" where
  "list_identities keys N d =
     res_bind (canonical_lookup (host N) (IDENTITY N)) (\<lambda>identity_canonical.
     res_bind (canonical_lookup (host N) (IDENTITY_RECEIPT N)) (\<lambda>receipt_canonical.
     res_bind (handler_err (show_error (host N)) ''scan identities''
       (query_db (host N) d (simple_query identity_canonical [''id'', ''pub_key'', ''display_name'', ''issued_at''] None))) (\<lambda>identities.
     res_bind (handler_err (show_error (host N)) ''scan identity receipts''
       (query_db (host N) d (simple_query receipt_canonical
          [''identity_id'', ''received_via'', ''received_at'', ''trust_level''] None))) (\<lambda>receipts.
     Inr (sort_desc ar_received_at (audit_rows (node_public_key keys) identities (receipts_by_identity receipts)))))))"

end
