(* ===== verification/Identity_Correct.thy ===== *)
theory Identity_Correct
  imports Identity_Cards
begin

text \<open>
  What the identity operations guarantee. The invariant is that every card in the store
  carries a signature that verifies (\<open>identities_signed\<close>): bootstrap, import and re-issue keep
  it, whatever fails on the way. So the card a node serves is one every importer accepts.
\<close>

section \<open>Signed cards\<close>

definition signed_as :: "card_crypto \<Rightarrow> card_payload \<Rightarrow> string \<Rightarrow> bool" where
  "signed_as cc p card_signature \<longleftrightarrow> (\<exists>pk sig. card_b64_decode cc (cp_pub_key p) = Inr pk \<and> length pk = 32 \<and>
     valid_point cc pk = Inr () \<and> card_b64_decode cc card_signature = Inr sig \<and> length sig = 64 \<and>
     ed_verify cc pk (canonical_bytes cc p) sig)"

lemma verify_card_iff: "verify_card_signature cc crd = Inr () \<longleftrightarrow> signed_as cc (payload_of_card crd) (ca_signature crd)"
  by (auto simp: verify_card_signature_def signed_as_def decode_base64_def payload_of_card_def map_err_def res_bind_def
      split: sum.splits if_splits)

definition signed_record :: "card_crypto \<Rightarrow> string \<Rightarrow> payload \<Rightarrow> bool" where
  "signed_record cc k m \<longleftrightarrow> (\<exists>p card_signature ws. k = identity_id_of (cp_pub_key p) \<and>
     m ''pub_key'' = Some (JStr (cp_pub_key p)) \<and> m ''display_name'' = Some (JStr (cp_display_name p)) \<and>
     m ''birthday'' = Some (json_opt JStr (cp_birthday p)) \<and>
     m ''face_embedding'' = Some (json_opt json_floats (cp_face_embedding p)) \<and>
     m ''issued_at'' = Some (JStr (cp_issued_at p)) \<and> m ''card_signature'' = Some (JStr card_signature) \<and>
     signed_as cc p card_signature \<and> cp_face_embedding p = map_option (map f32_val) ws)"

definition identities_signed :: "card_crypto \<Rightarrow> 'd ingest_node \<Rightarrow> record_view \<Rightarrow> bool" where
  "identities_signed cc N R \<longleftrightarrow> (\<forall>k r m. R (IDENTITY N) k r = Some m \<longrightarrow> signed_record cc k m)"

lemma signed_recordE:
  assumes "signed_record cc k m"
  obtains p card_signature ws where "k = identity_id_of (cp_pub_key p)"
     "m ''pub_key'' = Some (JStr (cp_pub_key p))" "m ''display_name'' = Some (JStr (cp_display_name p))"
     "m ''birthday'' = Some (json_opt JStr (cp_birthday p))"
     "m ''face_embedding'' = Some (json_opt json_floats (cp_face_embedding p))"
     "m ''issued_at'' = Some (JStr (cp_issued_at p))" "m ''card_signature'' = Some (JStr card_signature)"
     "signed_as cc p card_signature" "cp_face_embedding p = map_option (map f32_val) ws"
  using assms unfolding signed_record_def by (elim exE conjE) (rule that; assumption)

lemma signed_record_le: "signed_record cc k fs \<Longrightarrow> fs \<subseteq>\<^sub>m m \<Longrightarrow> signed_record cc k m"
proof -
  assume fs: "signed_record cc k fs" and le: "fs \<subseteq>\<^sub>m m"
  have keep: "m x = Some v" if "fs x = Some v" for x v using field_le [OF that le] .
  from fs show ?thesis
    unfolding signed_record_def by (elim exE conjE) (intro exI conjI; (assumption | (rule keep, assumption)))
qed

lemma identities_signed_after:
  assumes "identities_signed cc N R" "view_after R p R'" "pr_schema p = IDENTITY N \<Longrightarrow> signed_record cc (pr_hash_key p) (pr_fields p)"
  shows "identities_signed cc N R'"
  unfolding identities_signed_def
proof (intro allI impI)
  fix k r m
  assume m: "R' (IDENTITY N) k r = Some m"
  show "signed_record cc k m"
  proof (cases "(IDENTITY N, k, r) = slot p")
    case True
    with assms(2) m have "pr_fields p \<subseteq>\<^sub>m m" "k = pr_hash_key p" "pr_schema p = IDENTITY N"
      by (auto simp: view_after_def slot_def)
    with assms(3) signed_record_le show ?thesis by blast
  next
    case False
    with assms(1,2) m show ?thesis unfolding identities_signed_def view_after_def by metis
  qed
qed

text \<open>The laws of the node's keys: its own signatures verify, base64 reads what it wrote.\<close>

definition keys_sign :: "card_crypto \<Rightarrow> node_keys \<Rightarrow> bool" where
  "keys_sign cc keys \<longleftrightarrow> (\<forall>bs. card_b64_decode cc (card_b64_encode cc bs) = Inr bs) \<and>
     (\<exists>priv pk. card_b64_decode cc (node_private_key keys) = Inr priv \<and> length priv \<in> {32, 64} \<and>
        card_b64_decode cc (node_public_key keys) = Inr pk \<and> length pk = 32 \<and> valid_point cc pk = Inr () \<and>
        (\<forall>msg. length (ed_sign cc (take 32 priv) msg) = 64 \<and> ed_verify cc pk msg (ed_sign cc (take 32 priv) msg)))"

lemma own_signature:
  assumes "keys_sign cc keys" "extract_ed25519_seed cc (node_private_key keys) = Inr seed" "cp_pub_key p = node_public_key keys"
  shows "signed_as cc p (card_b64_encode cc (ed_sign cc seed (canonical_bytes cc p)))"
proof -
  from assms(1) obtain priv pk where k: "card_b64_decode cc (node_private_key keys) = Inr priv" "length priv \<in> {32, 64}"
    "card_b64_decode cc (node_public_key keys) = Inr pk" "length pk = 32" "valid_point cc pk = Inr ()"
    "\<And>msg. length (ed_sign cc (take 32 priv) msg) = 64 \<and> ed_verify cc pk msg (ed_sign cc (take 32 priv) msg)"
    "\<And>bs. card_b64_decode cc (card_b64_encode cc bs) = Inr bs"
    unfolding keys_sign_def by blast
  from assms(2) k(1,2) have "seed = take 32 priv" by (auto simp: extract_ed25519_seed_def map_err_def split: if_splits)
  with k(3-7) assms(3) show ?thesis by (simp add: signed_as_def)
qed

lemma import_record_signed:
  assumes "verify_card_signature cc crd = Inr ()" "p \<in> set (import_records N uuid now crd)" "pr_schema p = IDENTITY N"
    and "distinct (IDENTITY N # IDENTITY_RECEIPT N # PERSONA (host N) # ingest_names N)"
  shows "signed_record cc (pr_hash_key p) (pr_fields p)"
proof -
  from assms(2-4) have p: "p = build_identity_record N (identity_id_of (ca_pub_key crd)) crd"
    by (auto simp: import_records_def Let_def build_identity_receipt_record_def receipt_record_def build_face_records_def
        planned_simps ingest_names_def split: option.splits)
  have "signed_as cc (payload_of_card crd) (ca_signature crd)" using assms(1) by (simp add: verify_card_iff)
  then show ?thesis
    unfolding p build_identity_record_def signed_record_def
    by (intro exI [of _ "payload_of_card crd"] exI [of _ "ca_signature crd"] exI [of _ "ca_face_embedding crd"])
      (simp add: planned_simps payload_of_card_def)
qed

lemma bootstrap_record_signed:
  assumes "keys_sign cc keys" "extract_ed25519_seed cc (node_private_key keys) = Inr seed"
    and "p \<in> set (fst (bootstrap_records cc N (node_public_key keys) seed uuids now name))" "pr_schema p = IDENTITY N"
    and "distinct (IDENTITY N # IDENTITY_RECEIPT N # PERSONA (host N) # ingest_names N)"
  shows "signed_record cc (pr_hash_key p) (pr_fields p)"
proof -
  let ?p = "\<lparr>cp_pub_key = node_public_key keys, cp_display_name = name, cp_birthday = None, cp_face_embedding = None, cp_issued_at = now\<rparr>"
  let ?s = "card_b64_encode cc (ed_sign cc seed (canonical_bytes cc ?p))"
  from assms(3-5) have p: "p = identity_record N (identity_id_of (node_public_key keys)) (node_public_key keys) name ?s now"
    by (auto simp: bootstrap_records_def Let_def identity_receipt_record_def receipt_record_def me_persona_record_def
        node_pub_key_fingerprint_record_def planned_simps ingest_names_def)
  have "signed_as cc ?p ?s" by (rule own_signature [OF assms(1,2)]) simp
  then show ?thesis
    unfolding p identity_record_def signed_record_def
    by (intro exI [of _ ?p] exI [of _ ?s] exI [of _ None]) (simp add: planned_simps json_opt_def)
qed

section \<open>Batches\<close>

context named_store
begin

lemma write_records_view_inv:
  assumes "write_records nd ps d = (res, d')" "I (recs d)"
    and "\<And>p R R'. p \<in> set ps \<Longrightarrow> I R \<Longrightarrow> view_after R p R' \<Longrightarrow> I R'"
  shows "I (recs d')"
  using assms
proof (induction ps arbitrary: d res)
  case (Cons p ps)
  show ?case
  proof (rule write_records_ConsE [OF Cons.prems(1)])
    fix e
    assume "write_record nd p d = (Inl e, d')"
    then show ?thesis using write_record_failed_view Cons.prems(2) by simp
  next
    fix w d1 r2
    assume w: "write_record nd p d = (Inr w, d1)" "write_records nd ps d1 = (r2, d')"
    have "I (recs d1)" by (rule Cons.prems(3) [OF _ Cons.prems(2) write_record_view [OF w(1)]]) simp
    moreover have "I R'" if "q \<in> set ps" "I R" "view_after R q R'" for q R R'
      by (rule Cons.prems(3) [OF _ that(2,3)]) (use that(1) in simp)
    ultimately show ?thesis by (rule Cons.IH [OF w(2)])
  qed
qed simp

text \<open>The only record of its schema comes last: it is written exactly when the batch succeeds.\<close>

lemma write_records_last:
  assumes "write_records nd (ps @ [p]) d = (res, d')" "\<And>q. q \<in> set ps \<Longrightarrow> pr_schema q \<noteq> pr_schema p"
  shows "if is_ok res then \<exists>m. recs d' (pr_schema p) (pr_hash_key p) (pr_range_key p) = Some m \<and> pr_fields p \<subseteq>\<^sub>m m \<and>
       (\<forall>k r. (k, r) \<noteq> (pr_hash_key p, pr_range_key p) \<longrightarrow> recs d' (pr_schema p) k r = recs d (pr_schema p) k r)
     else recs d' (pr_schema p) = recs d (pr_schema p)"
  using assms
proof (induction ps arbitrary: d res)
  case Nil
  show ?case
  proof (cases "write_record nd p d")
    case (Pair r d1)
    show ?thesis
    proof (cases r)
      case (Inl e)
      with Pair Nil write_record_failed_view [of p d e d1] show ?thesis by (auto simp: is_ok_def)
    next
      case (Inr w)
      with Pair Nil write_record_view [of p d w d1] show ?thesis by (auto simp: is_ok_def view_after_def slot_def)
    qed
  qed
next
  case (Cons q ps)
  show ?case
  proof (rule write_records_ConsE [OF Cons.prems(1) [unfolded append_Cons]])
    fix e
    assume "write_record nd q d = (Inl e, d')" "res = Inl e"
    then show ?thesis using write_record_failed_view by (simp add: is_ok_def)
  next
    fix w d1 r2
    assume w: "write_record nd q d = (Inr w, d1)" "write_records nd (ps @ [p]) d1 = (r2, d')" "is_ok res = is_ok r2"
    have "pr_schema q \<noteq> pr_schema p" using Cons.prems(2) by simp
    then have "recs d1 (pr_schema p) k r = recs d (pr_schema p) k r" for k r
      using write_record_view [OF w(1)] by (simp add: view_after_def slot_def)
    then have same: "recs d1 (pr_schema p) = recs d (pr_schema p)" by blast
    from Cons.IH [OF w(2)] Cons.prems(2) show ?thesis unfolding same w(3) by (meson list.set_intros(2))
  qed
qed

end

section \<open>The contract for identities\<close>

locale card_store = graph_reads N held A
  for N :: "'d ingest_node" and held :: "'d holds" and A :: "string set" +
  assumes scan_all: "query_db (host N) d (simple_query s fs None) = Inr rs \<Longrightarrow> held d s k r = Some m \<Longrightarrow>
        \<exists>row \<in> set rs. row_of fs m row"
    and update_holds: "mutate_db (host N) d s m (Some k, r) Update = (Inr i, d') \<Longrightarrow>
        \<exists>m'. held d' s k r = Some m' \<and> m \<subseteq>\<^sub>m m'"
    and update_frame: "mutate_db (host N) d s m (Some k, r) Update = (Inr i, d') \<Longrightarrow> same_but held s k r d d'"
    and card_names: "distinct (IDENTITY N # IDENTITY_RECEIPT N # PERSONA (host N) # ingest_names N)"
begin

lemma update_after:
  assumes "mutate_db (host N) d s m (Some k, r) Update = (res, d')" "lookup_name (registry (host N)) x = Inr s"
  shows "recs d' = recs d \<or> view_after (recs d) \<lparr>pr_schema = x, pr_fields = m, pr_hash_key = k, pr_range_key = r\<rparr> (recs d')"
proof (cases res)
  case (Inl e)
  then have "held d' = held d" using failed_frame assms(1) by blast
  then show ?thesis by (auto simp: stored_view_def fun_eq_iff split: sum.splits)
next
  case (Inr i)
  note u = assms(1) [unfolded Inr]
  have "recs d' y k' r' = recs d y k' r'" if "(y, k', r') \<noteq> (x, k, r)" for y k' r'
    using that update_frame [OF u] registry_inj [OF _ assms(2), of y] by (auto simp: stored_view_def same_but_def split: sum.splits)
  with update_holds [OF u] assms(2) have "view_after (recs d) \<lparr>pr_schema = x, pr_fields = m, pr_hash_key = k, pr_range_key = r\<rparr> (recs d')"
    by (auto simp: view_after_def slot_def stored_view_def)
  then show ?thesis ..
qed

section \<open>Every stored card is signed\<close>

lemma store_card_keeps:
  assumes "store_card cc N uuid now crd d = (res, d')" "identities_signed cc N (recs d)"
  shows "identities_signed cc N (recs d')"
proof (cases "d' = d")
  case False
  from assms(1) False obtain r where r: "write_records (host N) (import_records N uuid now crd) d = (r, d')"
    and v: "verify_card_signature cc crd = Inr ()"
    by (auto simp: store_card_def res_bind_def split: sum.splits bool.splits prod.splits)
  show ?thesis
  proof (rule write_records_view_inv [OF r, where I = "identities_signed cc N"])
    show "identities_signed cc N (recs d)" by (rule assms(2))
  next
    fix p R R'
    assume p: "p \<in> set (import_records N uuid now crd)" and R: "identities_signed cc N R" "view_after R p R'"
    show "identities_signed cc N R'"
      by (rule identities_signed_after [OF R]) (rule import_record_signed [OF v p _ card_names])
  qed
qed (use assms in simp)

lemma persona_patch_other:
  assumes "apply_persona_patch it (host N) d pid p = (res, d')" "x \<noteq> PERSONA (host N)"
  shows "recs d' x = recs d x"
proof (cases "d' = d")
  case False
  from assms(1) False obtain s m r where s: "canonical_lookup (host N) (PERSONA (host N)) = Inr s"
    "mutate_db (host N) d s m (Some pid, None) Update = (r, d')"
    by (auto simp: apply_persona_patch_def res_bind_eq_Inr split: sum.splits prod.splits)
  from s(1) have "lookup_name (registry (host N)) (PERSONA (host N)) = Inr s"
    by (auto simp: canonical_lookup_def)
  from update_after [OF s(2) this] assms(2) show ?thesis by (auto simp: view_after_def slot_def fun_eq_iff)
qed simp

lemma import_card_keeps:
  assumes "import_identity_card cc it N uuid now crd link d = (res, d')" "identities_signed cc N (recs d)"
  shows "identities_signed cc N (recs d')"
proof -
  obtain r1 d1 where s: "store_card cc N uuid now crd d = (r1, d1)" by (cases "store_card cc N uuid now crd d")
  note k = store_card_keeps [OF s assms(2)]
  have "d' = d1 \<or> (\<exists>pid p r2. apply_persona_patch it (host N) d1 pid p = (r2, d'))"
    using assms(1) s by (auto simp: import_identity_card_def Let_def split: sum.splits option.splits prod.splits)
  then have "recs d' (IDENTITY N) = recs d1 (IDENTITY N)"
    using persona_patch_other card_names by (elim disjE exE) auto
  with k show ?thesis by (simp add: identities_signed_def)
qed

lemma ensure_me_keeps:
  assumes "ensure_me_persona_if_absent cc keys N uuids now name d = (res, d')" "keys_sign cc keys"
    and "identities_signed cc N (recs d)"
  shows "identities_signed cc N (recs d')"
proof (cases "d' = d")
  case False
  from assms(1) False obtain seed r where seed: "extract_ed25519_seed cc (node_private_key keys) = Inr seed"
    and r: "write_records (host N) (fst (bootstrap_records cc N (node_public_key keys) seed uuids now name)) d = (r, d')"
    by (auto simp: ensure_me_persona_if_absent_def bootstrap_self_identity_def split: sum.splits bool.splits prod.splits)
  show ?thesis
  proof (rule write_records_view_inv [OF r, where I = "identities_signed cc N"])
    show "identities_signed cc N (recs d)" by (rule assms(3))
  next
    fix p R R'
    assume p: "p \<in> set (fst (bootstrap_records cc N (node_public_key keys) seed uuids now name))"
      and R: "identities_signed cc N R" "view_after R p R'"
    show "identities_signed cc N R'"
      by (rule identities_signed_after [OF R]) (rule bootstrap_record_signed [OF assms(2) seed p _ card_names])
  qed
qed (use assms in simp)

section \<open>The own card\<close>

lemma fetch_identity_row:
  assumes "fetch_identity N d s wanted k = Inr fs" "lookup_name (registry (host N)) (IDENTITY N) = Inr s"
  obtains m r kvs where "recs d (IDENTITY N) k r = Some m" "fs = JObj kvs" "map_of kvs = m |` set wanted"
proof -
  from assms(1) obtain row rs where rs: "query_db (host N) d (key_query s wanted k) = Inr (row # rs)"
    "json_get ''fields'' row = Some fs"
  proof -
    from assms(1) obtain rs where q: "query_db (host N) d (key_query s wanted k) = Inr rs"
      and f: "res_bind (ok_or (NotFound ''self-Identity not yet issued -- complete the setup wizard first'')
         (case rs of [] \<Rightarrow> None | r # _ \<Rightarrow> Some r)) (\<lambda>r.
       ok_or (Internal (''identity record missing '' @ quoted ''fields'' @ '' envelope'')) (json_get ''fields'' r)) = Inr fs"
      unfolding fetch_identity_def by (auto simp: res_bind_eq_Inr)
    show thesis
    proof (cases rs)
      case Nil
      with f show ?thesis by (simp add: ok_or_def)
    next
      case (Cons row rs')
      with f have "json_get ''fields'' row = Some fs" by (simp add: ok_or_def split: option.splits)
      with q Cons show ?thesis by (intro that) simp_all
    qed
  qed
  from key_rows [OF rs(1)] obtain r where r: "held d s k r \<noteq> None" "row_of wanted (the (held d s k r)) row"
    by (auto simp: list_all2_Cons2) blast
  then obtain m where m: "held d s k r = Some m" "row_of wanted m row" by auto
  then obtain kvs where "row = JObj [(''fields'', JObj kvs)]" "map_of kvs = m |` set wanted" by (auto simp: row_of_def)
  moreover from m(1) assms(2) have "recs d (IDENTITY N) k r = Some m" by (simp add: stored_view_def)
  ultimately show thesis using rs(2) by (intro that) auto
qed

end

lemma read_floats:
  "List.map_filter (\<lambda>x. map_option as_f32 (as_f64 x)) (map json_float (map f32_val ws)) =
     map f32_val (filter (\<lambda>w. is_finite (f32_val w)) ws)"
proof (induction ws)
  case (Cons w ws)
  then show ?case using as_f32_exact [of w] by (cases "f32_val w") simp_all
qed simp

lemma face_field_of:
  "json_get ''face_embedding'' fs = Some (json_opt json_floats (map_option (map f32_val) ws)) \<Longrightarrow>
     face_field fs = map_option (map f32_val) (map_option (filter (\<lambda>w. is_finite (f32_val w))) ws)"
  by (cases ws) (simp_all add: face_field_def json_opt_def json_floats_def read_floats del: map_map)

context card_store
begin

lemma reissued_signed:
  assumes "reissue_prepare cc keys N now rq d = Inr (si, sp, crd)" "keys_sign cc keys" "identities_signed cc N (recs d)"
  shows "signed_record cc (identity_id_of (node_public_key keys)) (card_fields (identity_id_of (node_public_key keys)) crd)"
    and "lookup_name (registry (host N)) (IDENTITY N) = Inr si" "lookup_name (registry (host N)) (PERSONA (host N)) = Inr sp"
proof -
  let ?k = "identity_id_of (node_public_key keys)"
  let ?w = "[''pub_key'', ''display_name'', ''birthday'', ''face_embedding'', ''node_id'']"
  from assms(1) obtain fs seed where s: "canonical_lookup (host N) (IDENTITY N) = Inr si"
    "canonical_lookup (host N) (PERSONA (host N)) = Inr sp" "fetch_identity N d si ?w ?k = Inr fs"
    "extract_ed25519_seed cc (node_private_key keys) = Inr seed" "crd = reissued_card cc (node_public_key keys) seed now rq fs"
    by (auto simp: reissue_prepare_def res_bind_eq_Inr)
  from s(1,2) show names: "lookup_name (registry (host N)) (IDENTITY N) = Inr si" "lookup_name (registry (host N)) (PERSONA (host N)) = Inr sp"
    by (auto simp: canonical_lookup_def)
  from fetch_identity_row [OF s(3) names(1)] obtain m r kvs where m: "recs d (IDENTITY N) ?k r = Some m" "fs = JObj kvs"
    "map_of kvs = m |` set ?w" .
  from assms(3) m(1) have "signed_record cc ?k m" unfolding identities_signed_def by blast
  then obtain p :: card_payload and ws where "m ''face_embedding'' = Some (json_opt json_floats (cp_face_embedding p))"
    "cp_face_embedding p = map_option (map f32_val) ws" by (rule signed_recordE) blast
  then have "json_get ''face_embedding'' fs = Some (json_opt json_floats (map_option (map f32_val) ws))" using m(2,3) by simp
  note stored = face_field_of [OF this]
  obtain ws' where ws': "my_face_embedding crd = map_option (map f32_val) ws'"
  proof (cases "rq_face_embedding rq")
    case None
    show thesis by (rule that) (simp add: s(5) reissued_card_def Let_def None stored)
  next
    case (Some f)
    show thesis by (rule that) (simp add: s(5) reissued_card_def Let_def Some)
  qed
  let ?p = "\<lparr>cp_pub_key = node_public_key keys, cp_display_name = my_display_name crd, cp_birthday = my_birthday crd,
    cp_face_embedding = my_face_embedding crd, cp_issued_at = now\<rparr>"
  have sig: "my_signature crd = card_b64_encode cc (ed_sign cc seed (canonical_bytes cc ?p))" "my_issued_at crd = now"
    "my_pub_key crd = node_public_key keys"
    by (simp_all add: s(5) reissued_card_def Let_def)
  have "signed_as cc ?p (my_signature crd)" unfolding sig(1) by (rule own_signature [OF assms(2) s(4)]) simp
  with sig ws' show "signed_record cc ?k (card_fields ?k crd)"
    unfolding signed_record_def
    by (intro exI [of _ ?p] exI [of _ "my_signature crd"] exI [of _ ws']) (simp add: card_fields_def)
qed

lemma me_name_other:
  assumes "update_me_persona_name N sp nm d = (res, d')" "lookup_name (registry (host N)) (PERSONA (host N)) = Inr sp"
    "x \<noteq> PERSONA (host N)"
  shows "recs d' x = recs d x"
proof (cases "d' = d")
  case False
  from assms(1) False obtain m k r where "mutate_db (host N) d sp m (Some k, None) Update = (r, d')"
    by (auto simp: update_me_persona_name_def split: sum.splits option.splits prod.splits)
  from update_after [OF this assms(2)] assms(3) show ?thesis by (auto simp: view_after_def slot_def fun_eq_iff)
qed simp

lemma reissue_keeps:
  assumes "reissue_identity_card cc keys N now rq d = (res, d')" "keys_sign cc keys" "identities_signed cc N (recs d)"
  shows "identities_signed cc N (recs d')"
proof (cases "reissue_prepare cc keys N now rq d")
  case (Inl e)
  with assms show ?thesis by (simp add: reissue_identity_card_def)
next
  case (Inr x)
  obtain si sp crd where x: "x = (si, sp, crd)" by (cases x)
  note k = reissued_signed [OF Inr [unfolded x] assms(2,3)]
  let ?k = "identity_id_of (node_public_key keys)"
  obtain r d1 where u: "mutate_db (host N) d si (card_fields ?k crd) (Some ?k, None) Update = (r, d1)"
    by (cases "mutate_db (host N) d si (card_fields ?k crd) (Some ?k, None) Update")
  have "identities_signed cc N (recs d1)"
    using update_after [OF u k(2)]
  proof
    assume v: "view_after (recs d) \<lparr>pr_schema = IDENTITY N, pr_fields = card_fields ?k crd, pr_hash_key = ?k, pr_range_key = None\<rparr> (recs d1)"
    show ?thesis by (rule identities_signed_after [OF assms(3) v]) (use k(1) in simp)
  qed (use assms(3) in simp)
  moreover have "d' = d1 \<or> (\<exists>nm r2. update_me_persona_name N sp nm d1 = (r2, d'))"
    using assms(1) Inr x u by (auto simp: reissue_identity_card_def Let_def split: sum.splits if_splits prod.splits)
  then have "recs d' (IDENTITY N) = recs d1 (IDENTITY N)" using me_name_other [OF _ k(3)] card_names by (elim disjE exE) auto
  ultimately show ?thesis by (simp add: identities_signed_def)
qed

text \<open>The card the node serves is accepted by every importer, unless a float of its face was not finite.\<close>

lemma own_card_verifies:
  assumes "get_my_identity_card keys N d = Inr crd" "identities_signed cc N (recs d)"
    and finite: "\<And>k r m xs. recs d (IDENTITY N) k r = Some m \<Longrightarrow> m ''face_embedding'' = Some (JArr xs) \<Longrightarrow> JNull \<notin> set xs"
  shows "my_pub_key crd = node_public_key keys \<and> (\<forall>inc. ca_pub_key inc = my_pub_key crd \<longrightarrow>
     ca_display_name inc = my_display_name crd \<longrightarrow> ca_birthday inc = my_birthday crd \<longrightarrow>
     map_option (map f32_val) (ca_face_embedding inc) = my_face_embedding crd \<longrightarrow> ca_signature inc = my_signature crd \<longrightarrow>
     ca_issued_at inc = my_issued_at crd \<longrightarrow> verify_card_signature cc inc = Inr ())"
proof -
  let ?k = "identity_id_of (node_public_key keys)"
  from assms(1) obtain s fs where s: "canonical_lookup (host N) (IDENTITY N) = Inr s"
    "fetch_identity N d s identity_fields ?k = Inr fs" "extract_card fs = Inr crd"
    by (auto simp: get_my_identity_card_def res_bind_eq_Inr)
  then have name: "lookup_name (registry (host N)) (IDENTITY N) = Inr s" by (auto simp: canonical_lookup_def)
  from fetch_identity_row [OF s(2) name] obtain m r kvs where m: "recs d (IDENTITY N) ?k r = Some m" "fs = JObj kvs"
    "map_of kvs = m |` set identity_fields" .
  from assms(2) m(1) have "signed_record cc ?k m" unfolding identities_signed_def by blast
  then obtain p card_signature ws where p: "?k = identity_id_of (cp_pub_key p)"
     "m ''pub_key'' = Some (JStr (cp_pub_key p))" "m ''display_name'' = Some (JStr (cp_display_name p))"
     "m ''birthday'' = Some (json_opt JStr (cp_birthday p))"
     "m ''face_embedding'' = Some (json_opt json_floats (cp_face_embedding p))"
     "m ''issued_at'' = Some (JStr (cp_issued_at p))" "m ''card_signature'' = Some (JStr card_signature)"
     "signed_as cc p card_signature" "cp_face_embedding p = map_option (map f32_val) ws"
    by (rule signed_recordE)
  have fin: "\<forall>w \<in> set v. is_finite (f32_val w)" if v: "ws = Some v" for v
  proof (rule ballI, rule ccontr)
    fix w
    assume w: "w \<in> set v" "\<not> is_finite (f32_val w)"
    have "json_float (f32_val w) = JNull" using w(2) by (cases "f32_val w") auto
    with w(1) have "JNull \<in> set (map json_float (map f32_val v))" by force
    moreover have "m ''face_embedding'' = Some (JArr (map json_float (map f32_val v)))"
      using p(5,9) v by (simp add: json_opt_def json_floats_def)
    ultimately show False using finite m(1) by blast
  qed
  have get: "json_get x fs = m x" if "x \<in> set identity_fields" for x using m(2,3) that by simp
  have "json_get ''face_embedding'' fs = Some (json_opt json_floats (map_option (map f32_val) ws))"
    using get p(5,9) by (simp add: identity_fields_def)
  from face_field_of [OF this] have face: "face_field fs = cp_face_embedding p"
    using fin unfolding p(9) by (cases ws) auto
  have str: "string_field fs x = Some v" if "x \<in> set identity_fields" "m x = Some (JStr v)" for x v
    using get [OF that(1)] that(2) by (simp add: string_field_def)
  have "string_field fs ''birthday'' = cp_birthday p"
    using get [of "''birthday''"] p(4) by (cases "cp_birthday p") (simp_all add: string_field_def json_opt_def identity_fields_def)
  moreover have "string_field fs ''pub_key'' = Some (cp_pub_key p)" "string_field fs ''display_name'' = Some (cp_display_name p)"
    "string_field fs ''card_signature'' = Some card_signature" "string_field fs ''issued_at'' = Some (cp_issued_at p)"
    using p(2,3,6,7) by (simp_all add: str identity_fields_def)
  ultimately have c: "my_pub_key crd = cp_pub_key p" "my_display_name crd = cp_display_name p" "my_birthday crd = cp_birthday p"
    "my_face_embedding crd = cp_face_embedding p" "my_signature crd = card_signature" "my_issued_at crd = cp_issued_at p"
    using s(3) face by (auto simp: extract_card_def or_default_def ok_or_def)
  have "payload_of_card inc = p" if "ca_pub_key inc = my_pub_key crd" "ca_display_name inc = my_display_name crd"
    "ca_birthday inc = my_birthday crd" "map_option (map f32_val) (ca_face_embedding inc) = my_face_embedding crd"
    "ca_issued_at inc = my_issued_at crd" for inc
    using that c by (cases p) (simp add: payload_of_card_def)
  with c p(1,8) show ?thesis by (auto simp: verify_card_iff identity_id_of_def)
qed

end

end
