(* ===== verification/Identity_Audit.thy ===== *)
theory Identity_Audit
  imports Identity_Correct
begin

text \<open>
  The Me persona is created at most once, however many attempts fail; what an import writes
  and what a repeated import leaves alone; and the join of identities with their newest
  receipts.
\<close>

section \<open>The Me persona\<close>

text \<open>An attempt at start-up: two UUIDs, the time and the display name.\<close>

type_synonym attempt = "(string \<times> string) \<times> string \<times> string"

fun ensure_attempts ::
    "card_crypto \<Rightarrow> node_keys \<Rightarrow> 'd ingest_node \<Rightarrow> attempt list \<Rightarrow> 'd
     \<Rightarrow> (fold_db_error + self_identity_outcome option) list \<times> 'd" where
  "ensure_attempts cc keys N [] d = ([], d)"
| "ensure_attempts cc keys N ((uuids, now, name) # as) d =
     (let (r, d) = ensure_me_persona_if_absent cc keys N uuids now name d;
          (rs, d) = ensure_attempts cc keys N as d in (r # rs, d))"

definition built_in_personas :: "'d ingest_node \<Rightarrow> record_view \<Rightarrow> (string \<times> string option) set" where
  "built_in_personas N R = {(k, r). \<exists>m. R (PERSONA (host N)) k r = Some m \<and> m ''built_in'' = Some (JBool True)}"

lemma bootstrap_me:
  assumes "distinct (IDENTITY N # IDENTITY_RECEIPT N # PERSONA (host N) # ingest_names N)"
  shows "\<exists>ps me out. bootstrap_records cc N pub_key seed uuids now name = (ps @ [me], out) \<and>
    (\<forall>q \<in> set ps. pr_schema q \<noteq> pr_schema me) \<and> pr_schema me = PERSONA (host N) \<and>
    pr_hash_key me = so_me_persona_id out \<and> pr_range_key me = None \<and> pr_fields me ''built_in'' = Some (JBool True)"
proof -
  obtain s where s: "bootstrap_records cc N pub_key seed uuids now name =
      ([identity_record N (identity_id_of pub_key) pub_key name s now,
        node_pub_key_fingerprint_record N (fingerprint_id_from_bytes (hash_hex N) kind_NODE_PUB_KEY (as_bytes pub_key)) pub_key now,
        identity_receipt_record N (''ir_'' @ fst uuids) (identity_id_of pub_key) now] @
       [me_persona_record N (''ps_'' @ snd uuids) name
          (fingerprint_id_from_bytes (hash_hex N) kind_NODE_PUB_KEY (as_bytes pub_key)) (identity_id_of pub_key) now],
       \<lparr>so_self_identity_id = identity_id_of pub_key,
        so_node_pub_key_fingerprint_id = fingerprint_id_from_bytes (hash_hex N) kind_NODE_PUB_KEY (as_bytes pub_key),
        so_me_persona_id = ''ps_'' @ snd uuids, so_identity_receipt_id = ''ir_'' @ fst uuids\<rparr>)"
    by (simp add: bootstrap_records_def Let_def)
  have ne: "IDENTITY N \<noteq> PERSONA (host N)" "FINGERPRINT (host N) \<noteq> PERSONA (host N)" "IDENTITY_RECEIPT N \<noteq> PERSONA (host N)"
    using assms by (auto simp: ingest_names_def)
  show ?thesis
    unfolding s
    by ((rule exI)+, rule conjI [OF refl]) (simp add: ne identity_record_def node_pub_key_fingerprint_record_def identity_receipt_record_def
        receipt_record_def me_persona_record_def planned_simps)
qed

context card_store
begin

lemma row_built_in:
  "row_of [''built_in''] m row \<Longrightarrow>
     or_default False (opt_bind (opt_bind (json_get ''fields'' row) (json_get ''built_in'')) as_bool) \<longleftrightarrow>
     m ''built_in'' = Some (JBool True)"
proof -
  assume "row_of [''built_in''] m row"
  then obtain kvs where row: "row = JObj [(''fields'', JObj kvs)]" "map_of kvs = m |` {''built_in''}"
    by (auto simp: row_of_def)
  then have "map_of kvs ''built_in'' = m ''built_in''" by simp
  then show ?thesis
    using row(1) by (cases "m ''built_in''") (auto simp: or_default_def split: option.splits json.splits elim!: as_bool.elims)
qed

lemma me_persona_exists_iff:
  assumes "me_persona_exists N d = Inr b"
  shows "b \<longleftrightarrow> built_in_personas N (recs d) \<noteq> {}"
proof -
  from assms obtain s rs where s: "lookup_name (registry (host N)) (PERSONA (host N)) = Inr s"
    "query_db (host N) d (simple_query s [''built_in''] None) = Inr rs" "b = any_record_built_in rs"
    by (auto simp: me_persona_exists_def res_bind_eq_Inr)
  have held: "recs d (PERSONA (host N)) k r = held d s k r" for k r using s(1) by (simp add: stored_view_def)
  show ?thesis
  proof
    assume b
    then obtain row where row: "row \<in> set rs"
      "or_default False (opt_bind (opt_bind (json_get ''fields'' row) (json_get ''built_in'')) as_bool)"
      using s(3) by (auto simp: any_record_built_in_def list_ex_iff)
    from scan_rows [OF s(2) row(1)] obtain k r m where m: "held d s k r = Some m" "row_of [''built_in''] m row" by blast
    with row(2) row_built_in have "(k, r) \<in> built_in_personas N (recs d)" by (simp add: built_in_personas_def held)
    then show "built_in_personas N (recs d) \<noteq> {}" by blast
  next
    assume "built_in_personas N (recs d) \<noteq> {}"
    then obtain k r m where m: "held d s k r = Some m" "m ''built_in'' = Some (JBool True)"
      by (auto simp: built_in_personas_def held)
    from scan_all [OF s(2) m(1)] obtain row where row: "row \<in> set rs" "row_of [''built_in''] m row" by blast
    with row_built_in [OF row(2)] m(2) s(3) show b by (auto simp: any_record_built_in_def list_ex_iff)
  qed
qed

lemma ensure_me_personas:
  assumes "ensure_me_persona_if_absent cc keys N uuids now name d = (res, d')"
  shows "case res of
      Inl _ \<Rightarrow> built_in_personas N (recs d') = built_in_personas N (recs d)
    | Inr None \<Rightarrow> d' = d \<and> built_in_personas N (recs d) \<noteq> {}
    | Inr (Some out) \<Rightarrow> built_in_personas N (recs d) = {} \<and> built_in_personas N (recs d') = {(so_me_persona_id out, None)}"
proof (cases "me_persona_exists N d")
  case (Inl e)
  with assms show ?thesis by (auto simp: ensure_me_persona_if_absent_def)
next
  case (Inr b)
  show ?thesis
  proof (cases b)
    case True
    with Inr assms me_persona_exists_iff [OF Inr] show ?thesis by (auto simp: ensure_me_persona_if_absent_def)
  next
    case False
    with me_persona_exists_iff [OF Inr] have none: "built_in_personas N (recs d) = {}" by simp
    obtain r where r: "bootstrap_self_identity cc keys N uuids now name d = (r, d')" "res = res_bind r (\<lambda>outcome. Inr (Some outcome))"
      using assms Inr False by (auto simp: ensure_me_persona_if_absent_def split: prod.splits)
    show ?thesis
    proof (cases "is_ok (res_bind (extract_ed25519_seed cc (node_private_key keys))
        (\<lambda>_. require_names N [IDENTITY N, FINGERPRINT (host N), IDENTITY_RECEIPT N, PERSONA (host N)]))")
      case False
      with r have "\<not> is_ok res" "d' = d"
        by (auto simp: bootstrap_self_identity_def res_bind_def is_ok_def split: sum.splits prod.splits)
      then show ?thesis by (auto simp: is_ok_def split: sum.splits)
    next
      case True
      then obtain seed where seed: "extract_ed25519_seed cc (node_private_key keys) = Inr seed"
        "require_names N [IDENTITY N, FINGERPRINT (host N), IDENTITY_RECEIPT N, PERSONA (host N)] = Inr ()"
        by (auto simp: res_bind_def is_ok_def split: sum.splits)
      obtain recs3 me out where b: "bootstrap_records cc N (node_public_key keys) seed uuids now name = (recs3 @ [me], out)"
        "\<forall>q \<in> set recs3. pr_schema q \<noteq> pr_schema me" "pr_schema me = PERSONA (host N)"
        "pr_hash_key me = so_me_persona_id out" "pr_range_key me = None" "pr_fields me ''built_in'' = Some (JBool True)"
        using bootstrap_me [OF card_names, of cc "node_public_key keys" seed uuids now name] by blast
      obtain w where w: "write_records (host N) (recs3 @ [me]) d = (w, d')" "r = res_bind w (\<lambda>_. Inr out)"
        using r(1) seed b(1) by (auto simp: bootstrap_self_identity_def split: prod.splits)
      note last = write_records_last [OF w(1) b(2) [rule_format], unfolded b(3-5)]
      show ?thesis
      proof (cases w)
        case (Inl e)
        with last have "recs d' (PERSONA (host N)) = recs d (PERSONA (host N))" by (simp add: is_ok_def)
        with Inl w(2) r(2) show ?thesis by (simp add: built_in_personas_def)
      next
        case (Inr x)
        with last obtain m where m: "recs d' (PERSONA (host N)) (so_me_persona_id out) None = Some m" "pr_fields me \<subseteq>\<^sub>m m"
          "\<forall>k r. (k, r) \<noteq> (so_me_persona_id out, None) \<longrightarrow> recs d' (PERSONA (host N)) k r = recs d (PERSONA (host N)) k r"
          by (auto simp: is_ok_def)
        have "built_in_personas N (recs d') = {(so_me_persona_id out, None)}"
        proof (rule set_eqI, rule iffI)
          fix kr
          assume "kr \<in> built_in_personas N (recs d')"
          then obtain k r' m' where kr: "kr = (k, r')" "recs d' (PERSONA (host N)) k r' = Some m'" "m' ''built_in'' = Some (JBool True)"
            by (auto simp: built_in_personas_def)
          show "kr \<in> {(so_me_persona_id out, None)}"
          proof (rule ccontr)
            assume "kr \<notin> {(so_me_persona_id out, None)}"
            with m(3) kr have "recs d (PERSONA (host N)) k r' = Some m'" by auto
            with kr(3) none show False by (auto simp: built_in_personas_def)
          qed
        next
          fix kr
          assume "kr \<in> {(so_me_persona_id out, None :: string option)}"
          then show "kr \<in> built_in_personas N (recs d')"
            using m(1) field_le [OF b(6) m(2)] by (simp add: built_in_personas_def)
        qed
        with Inr w(2) r(2) none show ?thesis by simp
      qed
    qed
  qed
qed

text \<open>However many attempts run and fail, there is never a second Me.\<close>

lemma attempts_keep_one:
  assumes "ensure_attempts cc keys N as d = (rs, d')" "\<exists>x. built_in_personas N (recs d) \<subseteq> {x}"
  shows "(\<exists>x. built_in_personas N (recs d') \<subseteq> {x}) \<and> built_in_personas N (recs d) \<subseteq> built_in_personas N (recs d') \<and>
    (list_ex is_ok rs \<longrightarrow> built_in_personas N (recs d') \<noteq> {}) \<and>
    length (filter (\<lambda>r. \<exists>out. r = Inr (Some out)) rs) \<le> (if built_in_personas N (recs d) = {} then 1 else 0)"
  using assms
proof (induction as arbitrary: d rs)
  case (Cons a as)
  obtain uuids now name where a: "a = (uuids, now, name)" by (cases a)
  obtain r d1 where r: "ensure_me_persona_if_absent cc keys N uuids now name d = (r, d1)"
    by (cases "ensure_me_persona_if_absent cc keys N uuids now name d")
  obtain rs1 d2 where rs1: "ensure_attempts cc keys N as d1 = (rs1, d2)" by (cases "ensure_attempts cc keys N as d1")
  with Cons.prems(1) a r have rs: "rs = r # rs1" "d2 = d'" by simp_all
  note one = ensure_me_personas [OF r]
  have "\<exists>x. built_in_personas N (recs d1) \<subseteq> {x}"
    using one Cons.prems(2) by (cases r) (auto split: option.splits)
  note IH = Cons.IH [OF rs1 [unfolded rs(2)] this]
  show ?case
  proof (cases r)
    case (Inl e)
    with one have "built_in_personas N (recs d1) = built_in_personas N (recs d)" by simp
    with IH Inl rs(1) show ?thesis by (simp add: is_ok_def)
  next
    case (Inr o1)
    show ?thesis
    proof (cases o1)
      case None
      with one Inr have "d1 = d" "built_in_personas N (recs d) \<noteq> {}" by simp_all
      with IH Inr None rs(1) show ?thesis by (auto simp: is_ok_def)
    next
      case (Some out)
      with one Inr have "built_in_personas N (recs d) = {}" "built_in_personas N (recs d1) \<noteq> {}" by simp_all
      with IH Inr Some rs(1) show ?thesis by (auto simp: is_ok_def)
    qed
  qed
qed simp

section \<open>Importing twice\<close>

lemma identity_exists_iff:
  assumes "identity_exists N d i = Inr b"
  shows "b \<longleftrightarrow> (\<exists>r. recs d (IDENTITY N) i r \<noteq> None)"
proof -
  from assms obtain s rs where s: "lookup_name (registry (host N)) (IDENTITY N) = Inr s"
    "query_db (host N) d (key_query s [''id''] i) = Inr rs" "b \<longleftrightarrow> rs \<noteq> []"
    by (auto simp: identity_exists_def canonical_lookup_def res_bind_eq_Inr)
  have held: "recs d (IDENTITY N) i r = held d s i r" for r using s(1) by (simp add: stored_view_def)
  from key_rows [OF s(2)] obtain rks where rks: "set rks = {r. held d s i r \<noteq> None}"
    "list_all2 (\<lambda>r row. row_of [''id''] (the (held d s i r)) row) rks rs" by blast
  have "rs \<noteq> [] \<longleftrightarrow> rks \<noteq> []" using list_all2_lengthD [OF rks(2)] by auto
  also have "\<dots> \<longleftrightarrow> set rks \<noteq> {}" by simp
  also have "\<dots> \<longleftrightarrow> (\<exists>r. held d s i r \<noteq> None)" unfolding rks(1) by blast
  finally show ?thesis by (simp only: s(3) held)
qed

lemma reimport_unchanged:
  assumes "import_identity_card cc it N uuid now crd None d = (res, d')"
    and "recs d (IDENTITY N) (identity_id_of (ca_pub_key crd)) r \<noteq> None"
  shows "d' = d \<and> (\<forall>resp. res = Some (Inr resp) \<longrightarrow> ii_verified resp \<and> ii_was_already_present resp)"
proof (cases "res_bind (verify_card_signature cc crd) (\<lambda>_. identity_exists N d (identity_id_of (ca_pub_key crd)))")
  case (Inl e)
  with assms(1) show ?thesis by (auto simp: import_identity_card_def store_card_def)
next
  case (Inr b)
  then have "identity_exists N d (identity_id_of (ca_pub_key crd)) = Inr b" by (auto simp: res_bind_eq_Inr)
  from identity_exists_iff [OF this] assms(2) have b by blast
  with assms(1) Inr show ?thesis by (auto simp: import_identity_card_def store_card_def)
qed

text \<open>The edge of a card's face is written without rows, so no walk of the graph reaches it.\<close>

lemma import_face_unlisted:
  assumes "store_card cc N uuid now crd d = (Inr False, d')" "ca_face_embedding crd = Some e"
  shows "recs d' (EDGE (host N)) (edge_id (hash_hex N) (fingerprint_id_for_face_embedding (hash_hex N) (map f32_bytes e))
       (fingerprint_id_from_bytes (hash_hex N) kind_NODE_PUB_KEY (as_bytes (ca_pub_key crd))) edge_IDENTITY_FACE) None \<noteq> None \<and>
    recs d' (EDGE_BY_FINGERPRINT (host N)) = recs d (EDGE_BY_FINGERPRINT (host N))"
proof -
  from assms(1) obtain out where out: "write_records (host N) (import_records N uuid now crd) d = (Inr out, d')"
    by (auto simp: store_card_def res_bind_def handler_err_msg_def map_err_def split: sum.splits bool.splits prod.splits)
  define self where "self = identity_id_of (ca_pub_key crd)"
  define face where "face = build_face_records N (ca_pub_key crd) e now"
  have recs4: "import_records N uuid now crd =
      build_identity_record N self crd # build_identity_receipt_record N uuid self now # face"
    by (simp add: import_records_def assms(2) self_def face_def Let_def)
  have sch: "map pr_schema (import_records N uuid now crd) = [IDENTITY N, IDENTITY_RECEIPT N, FINGERPRINT (host N), EDGE (host N)]"
    unfolding recs4 by (simp add: face_def build_identity_record_def build_identity_receipt_record_def receipt_record_def
        build_face_records_def Let_def planned_simps)
  then have dist: "distinct (map pr_schema (import_records N uuid now crd))"
    using card_names by (auto simp: ingest_names_def)
  have "plan_consistent (import_records N uuid now crd)"
    unfolding plan_consistent_def
  proof (intro ballI impI)
    fix p q
    assume "p \<in> set (import_records N uuid now crd)" "q \<in> set (import_records N uuid now crd)" "slot p = slot q"
    then have "p = q" using dist by (intro inj_onD [of pr_schema]) (simp_all add: distinct_map slot_def)
    then show "pr_fields p = pr_fields q" by simp
  qed
  note all = write_records_all [OF out this]
  let ?f = "fingerprint_id_for_face_embedding (hash_hex N) (map f32_bytes e)"
  let ?k = "fingerprint_id_from_bytes (hash_hex N) kind_NODE_PUB_KEY (as_bytes (ca_pub_key crd))"
  obtain x y where y: "build_face_records N (ca_pub_key crd) e now = [x, y]"
      "slot y = (EDGE (host N), edge_id (hash_hex N) ?f ?k edge_IDENTITY_FACE, None)"
    by (simp add: build_face_records_def Let_def planned_simps slot_def)
  then have "y \<in> set (import_records N uuid now crd)" unfolding recs4 face_def by simp
  with all(1) have "in_view (recs d') y" by blast
  then have "recs d' (EDGE (host N)) (edge_id (hash_hex N) ?f ?k edge_IDENTITY_FACE) None \<noteq> None"
    using y(2) by (auto simp: in_view_def slot_def)
  moreover have "recs d' (EDGE_BY_FINGERPRINT (host N)) k r = recs d (EDGE_BY_FINGERPRINT (host N)) k r" for k r
  proof -
    have "EDGE_BY_FINGERPRINT (host N) \<notin> set (map pr_schema (import_records N uuid now crd))"
      using card_names unfolding sch by (auto simp: ingest_names_def)
    then have "(EDGE_BY_FINGERPRINT (host N), k, r) \<notin> slot ` set (import_records N uuid now crd)" by (auto simp: slot_def)
    with all(3) show ?thesis by blast
  qed
  ultimately show ?thesis by blast
qed

end

section \<open>The audit list\<close>

text \<open>A receipt of \<open>i\<close> received at \<open>t\<close>.\<close>

definition receipt_at :: "string \<Rightarrow> string \<Rightarrow> json \<Rightarrow> bool" where
  "receipt_at i t r \<longleftrightarrow> (\<exists>fs. json_get ''fields'' r = Some fs \<and> string_field fs ''identity_id'' = Some i \<and>
     string_field fs ''received_at'' = Some t)"

definition newer_known :: "string \<Rightarrow> string option \<Rightarrow> bool" where
  "newer_known t at' \<longleftrightarrow> (\<exists>t'. at' = Some t' \<and> t \<le> t')"

lemma receipt_step_newest:
  "receipt_at i t r \<Longrightarrow> newer_known t (rf_received_at (or_default no_receipt (receipt_step r m i)))"
  "newer_known t (rf_received_at (or_default no_receipt (m i))) \<Longrightarrow>
     newer_known t (rf_received_at (or_default no_receipt (receipt_step r m i)))"
  by (auto simp: receipt_step_def receipt_at_def newer_known_def or_default_def should_replace_def no_receipt_def Let_def
      opt_bind_def split: option.splits if_splits)

lemma fold_receipts_newest:
  "newer_known t (rf_received_at (or_default no_receipt (m i))) \<or> (\<exists>r \<in> set rs. receipt_at i t r) \<Longrightarrow>
     newer_known t (rf_received_at (or_default no_receipt (fold receipt_step rs m i)))"
proof (induction rs arbitrary: m)
  case (Cons r rs)
  have "newer_known t (rf_received_at (or_default no_receipt (receipt_step r m i))) \<or> (\<exists>r \<in> set rs. receipt_at i t r)"
    using Cons.prems receipt_step_newest by auto
  then have "newer_known t (rf_received_at (or_default no_receipt (fold receipt_step rs (receipt_step r m) i)))" by (rule Cons.IH)
  then show ?case by simp
qed simp

definition identity_key :: "json \<Rightarrow> string option" where
  "identity_key r = opt_bind (json_get ''fields'' r) (\<lambda>fs. string_field fs ''id'')"

lemma audit_row_ids: "map ar_identity_id (audit_rows self ids m) = List.map_filter identity_key ids"
  by (induction ids arbitrary: m)
    (auto simp: identity_key_def opt_bind_def Let_def split: option.splits)

lemma audit_row_receipt:
  "distinct (List.map_filter identity_key ids) \<Longrightarrow> row \<in> set (audit_rows self ids m) \<Longrightarrow>
     ar_received_at row = rf_received_at (or_default no_receipt (m (ar_identity_id row))) \<and>
     ar_trust_level row = rf_trust_level (or_default no_receipt (m (ar_identity_id row))) \<and>
     (ar_is_self row \<longleftrightarrow> ar_pub_key row = self)"
proof (induction ids arbitrary: m)
  case (Cons r ids)
  show ?case
  proof (cases "identity_key r")
    case None
    with Cons show ?thesis by (auto simp: identity_key_def opt_bind_def split: option.splits)
  next
    case (Some i)
    then obtain fs where fs: "json_get ''fields'' r = Some fs" "string_field fs ''id'' = Some i"
      by (auto simp: identity_key_def opt_bind_def split: option.splits)
    have "i \<notin> set (List.map_filter identity_key ids)" using Cons.prems(1) Some by simp
    then have other: "ar_identity_id row \<noteq> i" if "row \<in> set (audit_rows self ids m')" for m'
      using that audit_row_ids [of self ids m'] by (metis image_eqI set_map)
    from Cons.prems(2) fs have "row \<in> set (audit_rows self ids (m(i := None))) \<or>
        (ar_identity_id row = i \<and> ar_received_at row = rf_received_at (or_default no_receipt (m i)) \<and>
         ar_trust_level row = rf_trust_level (or_default no_receipt (m i)) \<and> (ar_is_self row \<longleftrightarrow> ar_pub_key row = self))"
      by (auto simp: Let_def)
    then show ?thesis
    proof
      assume row: "row \<in> set (audit_rows self ids (m(i := None)))"
      have "distinct (List.map_filter identity_key ids)" using Cons.prems(1) Some by simp
      from Cons.IH [OF this row] other [OF row] show ?thesis by simp
    qed simp
  qed
qed simp

text \<open>
  The list is sorted with the newest receipt first, has a row for every identity, and a row
  shows a receipt that no other receipt of the identity is newer than.
\<close>

lemma audit_list_newest:
  assumes "list_identities keys N d = Inr rows"
    and s: "lookup_name (registry (host N)) (IDENTITY N) = Inr s" "lookup_name (registry (host N)) (IDENTITY_RECEIPT N) = Inr t"
    and q: "query_db (host N) d (simple_query s [''id'', ''pub_key'', ''display_name'', ''issued_at''] None) = Inr identities"
      "query_db (host N) d (simple_query t [''identity_id'', ''received_via'', ''received_at'', ''trust_level''] None) = Inr receipts"
    and ids: "distinct (List.map_filter identity_key identities)"
  shows "sorted_wrt (\<lambda>a b. ar_received_at b \<le> ar_received_at a) rows \<and>
    mset (map ar_identity_id rows) = mset (List.map_filter identity_key identities) \<and>
    (\<forall>row \<in> set rows. \<forall>r \<in> set receipts. \<forall>at'. receipt_at (ar_identity_id row) at' r \<longrightarrow> newer_known at' (ar_received_at row))"
proof -
  have rows: "rows = sort_desc ar_received_at (audit_rows (node_public_key keys) identities (receipts_by_identity receipts))"
    using assms(1) s q by (simp add: list_identities_def canonical_lookup_def)
  have "newer_known at' (ar_received_at row)" if "row \<in> set rows" "r \<in> set receipts" "receipt_at (ar_identity_id row) at' r" for row r at'
  proof -
    have "row \<in> set (audit_rows (node_public_key keys) identities (receipts_by_identity receipts))" using that(1) rows by simp
    from audit_row_receipt [OF ids this]
    have "ar_received_at row = rf_received_at (or_default no_receipt (receipts_by_identity receipts (ar_identity_id row)))" by simp
    moreover have "newer_known at' (rf_received_at (or_default no_receipt (fold receipt_step receipts Map.empty (ar_identity_id row))))"
      by (rule fold_receipts_newest) (use that(2,3) in blast)
    ultimately show ?thesis by (simp add: receipts_by_identity_def)
  qed
  moreover have "mset (map ar_identity_id rows) = mset (List.map_filter identity_key identities)"
    unfolding rows audit_row_ids [of "node_public_key keys" identities "receipts_by_identity receipts", symmetric] by simp
  ultimately show ?thesis unfolding rows using sorted_sort_desc by blast
qed

end
