(* ===== verification/Contact_Import.thy ===== *)
theory Contact_Import
  imports Ingest_Store Contact_Book
begin

text \<open>
  \<^verbatim>\<open>src/handlers/fingerprints/import_contacts.rs\<close>: the active contacts of the book become
  fingerprints (name, node key, classified hint), a mention and co-occurrence edges, written
  in one batch. The anchored regular expression for e-mail addresses is the parameter
  \<open>is_email\<close>.
\<close>

section \<open>The records of one contact\<close>

definition IMPORT_SOURCE_SCHEMA :: string where "IMPORT_SOURCE_SCHEMA = ''Contacts''"
definition IMPORT_EXTRACTOR_NAME :: string where "IMPORT_EXTRACTOR_NAME = ''contact_import''"

definition classify_hint :: "(string \<Rightarrow> bool) \<Rightarrow> string \<Rightarrow> string \<times> string" where
  "classify_hint is_email hint =
     (if is_email hint then (kind_EMAIL, to_lowercase hint)
      else if length (filter is_ascii_digit hint) \<ge> 7 then (kind_PHONE, phone_canonical hint)
      else (kind_HANDLE, to_lowercase hint))"

definition mn_fields :: "string \<Rightarrow> string \<Rightarrow> string \<Rightarrow> string list \<Rightarrow> string \<Rightarrow> payload" where
  "mn_fields mention_id source_schema source_key fp_ids now =
     [''id'' \<mapsto> JStr mention_id, ''source_schema'' \<mapsto> JStr source_schema, ''source_key'' \<mapsto> JStr source_key,
      ''source_field'' \<mapsto> JStr ''contact'', ''fingerprint_ids'' \<mapsto> JArr (map JStr fp_ids),
      ''extractor'' \<mapsto> JStr IMPORT_EXTRACTOR_NAME, ''confidence'' \<mapsto> json_float (Fin 1), ''created_at'' \<mapsto> JStr now]"

definition es_fields :: "string \<Rightarrow> string \<Rightarrow> string \<Rightarrow> nat \<Rightarrow> string \<Rightarrow> payload" where
  "es_fields status_id source_schema source_key n now =
     [''id'' \<mapsto> JStr status_id, ''source_schema'' \<mapsto> JStr source_schema, ''source_key'' \<mapsto> JStr source_key,
      ''extractor'' \<mapsto> JStr IMPORT_EXTRACTOR_NAME,
      ''status'' \<mapsto> JStr (if n > 0 then ''RanWithResults'' else ''RanEmpty''),
      ''fingerprint_count'' \<mapsto> JInt (int n), ''ran_at'' \<mapsto> JStr now, ''model_version'' \<mapsto> JNull]"

definition eg_fields :: "string \<Rightarrow> string \<Rightarrow> string \<Rightarrow> fl \<Rightarrow> string \<Rightarrow> string \<Rightarrow> payload" where
  "eg_fields eg_id a b weight mention_id now =
     [''id'' \<mapsto> JStr eg_id, ''a'' \<mapsto> JStr a, ''b'' \<mapsto> JStr b, ''kind'' \<mapsto> JStr edge_CO_OCCURRENCE,
      ''weight'' \<mapsto> json_float weight, ''evidence_mention_ids'' \<mapsto> JArr [JStr mention_id], ''created_at'' \<mapsto> JStr now]"

text \<open>A fingerprint to be written: its key, kind and value.\<close>

type_synonym found = "string \<times> string \<times> string"

definition found_as :: "(bytes \<Rightarrow> string) \<Rightarrow> string \<Rightarrow> string \<Rightarrow> found" where
  "found_as sha kind value = (fingerprint_id_for_string sha kind value, kind, value)"

definition hint_found :: "(bytes \<Rightarrow> string) \<Rightarrow> (string \<Rightarrow> bool) \<Rightarrow> string option \<Rightarrow> found list" where
  "hint_found sha is_email hint =
     (case hint of
        None \<Rightarrow> []
      | Some h \<Rightarrow> if trim h = [] then []
          else (let (hint_kind, hint_value) = classify_hint is_email (trim h) in [found_as sha hint_kind hint_value]))"

definition contact_found :: "(bytes \<Rightarrow> string) \<Rightarrow> (string \<Rightarrow> bool) \<Rightarrow> contact \<Rightarrow> found list" where
  "contact_found sha is_email c =
     (let own = (if trim (display_name c) = [] then [] else [found_as sha kind_FULL_NAME (display_name c)]) @
                [found_as sha kind_NODE_PUB_KEY (public_key c)] in
      own @ filter (\<lambda>(fp, _). fp \<notin> fst ` set own) (hint_found sha is_email (contact_hint c)))"

definition contact_edge_records ::
    "'d ingest_node \<Rightarrow> string \<Rightarrow> string \<Rightarrow> string \<times> string \<Rightarrow> planned_record list" where
  "contact_edge_records N mention_id now = (\<lambda>(a, b).
     (let eg_id = edge_id (hash_hex N) a b edge_CO_OCCURRENCE in
      edge_with_rows N a b eg_id (eg_fields eg_id a b (f32_round (1 / 2)) mention_id now)))"

definition contact_records ::
    "'d ingest_node \<Rightarrow> (string \<Rightarrow> bool) \<Rightarrow> string \<Rightarrow> contact \<Rightarrow> planned_record list" where
  "contact_records N is_email now c =
     (let source_key = public_key c;
          mention_id = deterministic_mention_id (hash_hex N) IMPORT_SOURCE_SCHEMA source_key IMPORT_EXTRACTOR_NAME;
          es_id = extraction_status_id IMPORT_SOURCE_SCHEMA source_key IMPORT_EXTRACTOR_NAME;
          found = contact_found (hash_hex N) is_email c;
          fp_ids = map fst found in
      map (\<lambda>(fp_id, fp_kind, value). planned_hash (FINGERPRINT (host N)) fp_id
             (text_fingerprint_fields fp_id fp_kind value now)) found @
      [planned_hash (EXTRACTION_STATUS N) es_id (es_fields es_id IMPORT_SOURCE_SCHEMA source_key (length fp_ids) now),
       planned_hash (MENTION (host N)) mention_id (mn_fields mention_id IMPORT_SOURCE_SCHEMA source_key fp_ids now)] @
      mention_rows N mention_id IMPORT_SOURCE_SCHEMA source_key fp_ids @
      concat (map (contact_edge_records N mention_id now) (unordered_pairs fp_ids)))"

section \<open>The import\<close>

record import_contacts_response =
  ic_contacts_processed :: nat
  ic_fingerprints_created :: nat
  ic_edges_created :: nat
  ic_total_records_written :: nat

text \<open>
  The contacts come from the metadata store \<open>s\<close>; \<open>it\<close> is the iteration order of the book. The
  boolean says whether the persona sweep is started.
\<close>

definition import_contacts ::
    "('s, string, contact) kv_ops \<Rightarrow> (schema_error \<Rightarrow> string) \<Rightarrow> (string set \<Rightarrow> string list) \<Rightarrow> 's
     \<Rightarrow> 'd ingest_node \<Rightarrow> (string \<Rightarrow> bool) \<Rightarrow> string \<Rightarrow> 'd
     \<Rightarrow> (handler_error + import_contacts_response \<times> bool) \<times> 'd" where
  "import_contacts ops show_store it s N is_email now d =
     (case handler_err show_store ''load contact book'' (load_contacts ops s) of
        Inl e \<Rightarrow> (Inl e, d)
      | Inr book \<Rightarrow>
          (let contacts = active_contacts it book;
               all_records = concat (map (contact_records N is_email now) contacts);
               fp_count = sum_list (map (\<lambda>c. length (contact_found (hash_hex N) is_email c)) contacts);
               edge_count = sum_list (map (\<lambda>c. length (unordered_pairs (contact_found (hash_hex N) is_email c))) contacts) in
           if all_records = [] then
             (Inr (\<lparr>ic_contacts_processed = 0, ic_fingerprints_created = 0, ic_edges_created = 0,
                    ic_total_records_written = 0\<rparr>, False), d)
           else
             (case write_records (host N) all_records d of
                (r, d) \<Rightarrow>
                  (res_bind (handler_err (show_error (host N)) ''write contact import records'' r) (\<lambda>out.
                   Inr (\<lparr>ic_contacts_processed = length contacts, ic_fingerprints_created = fp_count,
                          ic_edges_created = edge_count, ic_total_records_written = length out\<rparr>, 0 < length out)), d))))"

section \<open>The plan\<close>

lemma graph_plan_append: "graph_plan N A K ps \<Longrightarrow> (\<And>K'. graph_plan N A K' qs) \<Longrightarrow> graph_plan N A K (ps @ qs)"
  by (induction rule: graph_plan.induct) (auto intro: graph_plan.intros)

definition contact_ids :: "'d ingest_node \<Rightarrow> (string \<Rightarrow> bool) \<Rightarrow> contact \<Rightarrow> string set" where
  "contact_ids N is_email c = fst ` set (contact_found (hash_hex N) is_email c)"

lemma contact_edge_block: "a \<in> F \<Longrightarrow> b \<in> F \<Longrightarrow> edge_block N F (contact_edge_records N mn now (a, b))"
proof -
  assume ab: "a \<in> F" "b \<in> F"
  let ?e = "edge_id (hash_hex N) a b edge_CO_OCCURRENCE"
  have "edge_fields_ok (eg_fields ?e a b (f32_round (1 / 2)) mn now) a b edge_CO_OCCURRENCE ?e"
    by (simp add: edge_fields_ok_def eg_fields_def ends_of_def)
  moreover have "edge_CO_OCCURRENCE \<in> set edge_kinds" by (simp add: edge_kinds_def)
  ultimately show ?thesis
    unfolding edge_block_def contact_edge_records_def prod.case Let_def using ab by blast
qed

lemma contact_graph_plan:
  assumes names: "distinct (ingest_names N)" and ids: "contact_ids N is_email c \<subseteq> A"
  shows "graph_plan N A K (contact_records N is_email now c)"
proof -
  let ?f = "contact_found (hash_hex N) is_email c"
  let ?mn = "deterministic_mention_id (hash_hex N) IMPORT_SOURCE_SCHEMA (public_key c) IMPORT_EXTRACTOR_NAME"
  let ?es = "extraction_status_id IMPORT_SOURCE_SCHEMA (public_key c) IMPORT_EXTRACTOR_NAME"
  let ?fps = "map (\<lambda>(fp_id, fp_kind, value). planned_hash (FINGERPRINT (host N)) fp_id
             (text_fingerprint_fields fp_id fp_kind value now)) ?f"
  let ?mid = "[planned_hash (EXTRACTION_STATUS N) ?es (es_fields ?es IMPORT_SOURCE_SCHEMA (public_key c) (length ?f) now),
       planned_hash (MENTION (host N)) ?mn (mn_fields ?mn IMPORT_SOURCE_SCHEMA (public_key c) (map fst ?f) now)] @
      mention_rows N ?mn IMPORT_SOURCE_SCHEMA (public_key c) (map fst ?f)"
  let ?K = "fold learn (?fps @ ?mid) K"
  let ?status = "planned_hash (EXTRACTION_STATUS N) ?es (es_fields ?es IMPORT_SOURCE_SCHEMA (public_key c) (length ?f) now)"
  let ?M = "planned_hash (MENTION (host N)) ?mn (mn_fields ?mn IMPORT_SOURCE_SCHEMA (public_key c) (map fst ?f) now)"
  let ?rows = "mention_rows N ?mn IMPORT_SOURCE_SCHEMA (public_key c) (map fst ?f)"
  have mn: "mention_of N ?mn IMPORT_SOURCE_SCHEMA (public_key c)" by (auto simp: mention_of_def)
  have "mention_record_ok N ?mn (mn_fields ?mn IMPORT_SOURCE_SCHEMA (public_key c) (map fst ?f) now)"
    using mn by (simp add: mention_record_ok_def mn_fields_def)
  note M = mention_record_plan [OF names this]
  have "other_record_ok N A K' p" if "p \<in> set ?fps" for p K'
    using that ids by (intro fingerprint_record_plan [OF names]) (auto simp: planned_simps text_fingerprint_fields_def contact_ids_def)
  then have "others_ok N A K ?fps" by (rule others_ok_all)
  moreover have "others_ok N A (fold learn ?fps K) [?status, ?M]"
    using status_record_plan [OF names, of ?status] M by (simp add: planned_simps)
  moreover have "others_ok N A (fold learn (?fps @ [?status, ?M]) K) ?rows"
  proof (rule mention_rows_plan [OF names mn])
    show "(MENTION (host N), ?mn) \<in> fold learn (?fps @ [?status, ?M]) K" by (simp add: learn_def planned_simps)
    fix i
    assume "i \<in> set (map fst ?f)"
    then obtain p where "p \<in> set ?fps" "pr_schema p = FINGERPRINT (host N)" "pr_hash_key p = i" "pr_range_key p = None"
      by (force simp: planned_simps)
    then show "(FINGERPRINT (host N), i) \<in> fold learn (?fps @ [?status, ?M]) K"
      unfolding fold_learn by (intro UnI2 image_eqI [of _ _ p]) simp_all
  qed
  ultimately have others: "others_ok N A K (?fps @ ?mid)" by (simp only: others_ok_append fold_append comp_apply)
  have K: "fst ` set ?f \<subseteq> known_fps N ?K \<inter> A"
  proof
    fix a
    assume a: "a \<in> fst ` set ?f"
    then obtain p where "p \<in> set ?fps" "pr_schema p = FINGERPRINT (host N)" "pr_hash_key p = a" "pr_range_key p = None"
      by (force simp: planned_simps)
    then have "(FINGERPRINT (host N), a) \<in> ?K" unfolding fold_learn by (intro UnI2 image_eqI [of _ _ p]) simp_all
    with a ids show "a \<in> known_fps N ?K \<inter> A" by (auto simp: known_fps_def contact_ids_def)
  qed
  have "edge_block N (known_fps N ?K \<inter> A) (contact_edge_records N ?mn now xy)"
    if "xy \<in> set (unordered_pairs (map fst ?f))" for xy
    using contact_edge_block [of "fst xy" "known_fps N ?K \<inter> A" "snd xy" N ?mn now] unordered_pairs_elems [OF that] K
    by (auto simp: subset_iff)
  then have "graph_plan N A ?K (concat (map (contact_edge_records N ?mn now) (unordered_pairs (map fst ?f))) @ [])"
    by (rule graph_plan_blocks [OF _ graph_plan.nothing])
  then have "graph_plan N A K ((?fps @ ?mid) @ concat (map (contact_edge_records N ?mn now) (unordered_pairs (map fst ?f))))"
    by (intro graph_plan_others [OF others]) simp
  then show ?thesis by (simp add: contact_records_def Let_def)
qed

lemma contacts_graph_plan:
  assumes "distinct (ingest_names N)" "\<And>c. c \<in> set cs \<Longrightarrow> contact_ids N is_email c \<subseteq> A"
  shows "graph_plan N A K (concat (map (contact_records N is_email now) cs))"
  using assms(2)
proof (induction cs arbitrary: K)
  case Nil
  show ?case by (simp add: graph_plan.nothing)
next
  case (Cons c cs)
  then show ?case using graph_plan_append [OF contact_graph_plan [OF assms(1)]] by simp
qed

context graph_reads
begin

lemma import_keeps:
  assumes "import_contacts ops show_store it s N is_email now d = (res, d')"
    and "\<And>book c. load_contacts ops s = Inr book \<Longrightarrow> c \<in> set (active_contacts it book) \<Longrightarrow> contact_ids N is_email c \<subseteq> A"
    and "graph_wf N A (recs d)"
  shows "graph_wf N A (recs d')"
proof (cases "load_contacts ops s")
  case (Inl e)
  with assms show ?thesis by (simp add: import_contacts_def)
next
  case (Inr book)
  let ?ps = "concat (map (contact_records N is_email now) (active_contacts it book))"
  show ?thesis
  proof (cases "?ps = []")
    case True
    with assms Inr show ?thesis unfolding import_contacts_def by (simp add: Let_def)
  next
    case False
    obtain r d1 where w: "write_records (host N) ?ps d = (r, d1)" by (cases "write_records (host N) ?ps d")
    with assms(1) Inr False have r: "write_records (host N) ?ps d = (r, d')"
      unfolding import_contacts_def Let_def Inr handler_err_simps sum.case w prod.case if_not_P [OF False] by simp
    have "graph_plan N A {} ?ps" by (rule contacts_graph_plan [OF all_names assms(2) [OF Inr]])
    moreover have "listed_but N UNIV (recs d)" by (simp add: listed_but_def)
    ultimately show ?thesis using plan_keeps [OF _ r assms(3)] by (simp add: known_present_def)
  qed
qed

end

end
