(* ===== verification/Ingest_Runs.thy ===== *)
theory Ingest_Runs
  imports Identity_Audit Contact_Import
begin

text \<open>
  Runs of a node: any sequence of ingestion calls keeps the stored graph well formed and the
  face cache on stored fingerprints; any sequence of card operations keeps every stored
  card signed. Each call may fail at any write.
\<close>

section \<open>Ingestion\<close>

text \<open>
  One call of ingestion: a batch of photos, a batch of texts, the hook of generic ingestion
  or the import of contacts. \<open>A\<close> are the fingerprints that may occur.
\<close>

inductive ingest_step ::
    "('s, string, contact) kv_ops \<Rightarrow> 'd ingest_node \<Rightarrow> ann_search \<Rightarrow> signal_patterns \<Rightarrow> string set
     \<Rightarrow> 'd \<times> ann_global \<Rightarrow> 'd \<times> ann_global \<Rightarrow> bool" for ops N search pats A where
  photos: "ingest_photo_faces_batch N search now clock s photos d g = (r, d', g') \<Longrightarrow>
     \<forall>photo \<in> set photos. face_ids N (pf_faces photo) \<subseteq> A \<Longrightarrow> ingest_step ops N search pats A (d, g) (d', g')"
| texts: "ingest_text_signals_batch N pats now clock s bodies d = (rt, d') \<Longrightarrow>
     \<forall>b \<in> set bodies. signal_ids N pats (tr_text b) \<subseteq> A \<Longrightarrow> ingest_step ops N search pats A (d, g) (d', g)"
| hook: "run_after_batch N pats he now ms d = (rh, d') \<Longrightarrow>
     \<forall>m \<in> set ms. signal_ids N pats (hook_body he m) \<subseteq> A \<Longrightarrow> ingest_step ops N search pats A (d, g) (d', g)"
| contacts: "import_contacts ops show_store it st N is_email now d = (rc, d') \<Longrightarrow>
     \<forall>book. load_contacts ops st = Inr book \<longrightarrow> (\<forall>c \<in> set (active_contacts it book). contact_ids N is_email c \<subseteq> A) \<Longrightarrow>
     ingest_step ops N search pats A (d, g) (d', g)"

inductive_cases ingest_stepE: "ingest_step ops N search pats A x y"

context graph_reads
begin

text \<open>No ingestion takes a record away.\<close>

definition grown :: "'d \<Rightarrow> 'd \<Rightarrow> bool" where
  "grown d d' \<longleftrightarrow> (\<forall>x k r. recs d x k r \<noteq> None \<longrightarrow> recs d' x k r \<noteq> None)"

lemma grown_refl [simp]: "grown d d"
  by (simp add: grown_def)

lemma grown_trans: "grown d d1 \<Longrightarrow> grown d1 d' \<Longrightarrow> grown d d'"
  by (simp add: grown_def)

lemma cache_wf_grown: "grown d d' \<Longrightarrow> cache_wf N A c (recs d) \<Longrightarrow> cache_wf N A c (recs d')"
  unfolding grown_def cache_wf_def by blast

lemma write_records_grown: "write_records (host N) ps d = (r, d') \<Longrightarrow> grown d d'"
proof -
  assume w: "write_records (host N) ps d = (r, d')"
  show ?thesis
    unfolding grown_def
  proof (rule write_records_view_inv [OF w, where I = "\<lambda>R. \<forall>x k r. recs d x k r \<noteq> None \<longrightarrow> R x k r \<noteq> None"])
    fix p R R'
    assume "\<forall>x k r. recs d x k r \<noteq> None \<longrightarrow> R x k r \<noteq> None" "view_after R p R'"
    then show "\<forall>x k r. recs d x k r \<noteq> None \<longrightarrow> R' x k r \<noteq> None" using view_after_grow by blast
  qed simp
qed

lemma text_grown: "ingest_text_signals N pats s k body now binding d = (r, d') \<Longrightarrow> grown d d'"
  by (auto simp: ingest_text_signals_def Let_def split: prod.splits sum.splits dest: write_records_grown)

lemma error_row_grown: "grown d (write_ingestion_error N now row d)"
  unfolding write_ingestion_error_def by (rule write_records_grown) (rule surjective_pairing)

lemma one_text_grown: "ingest_one_text N pats s now err_now b d = (r, d') \<Longrightarrow> grown d d'"
  by (auto simp: ingest_one_text_def emit_zero_yield_meta_error_def split: prod.splits sum.splits if_splits
      dest!: text_grown intro: grown_trans [OF _ error_row_grown])

lemma texts_grown: "ingest_texts N pats s now clock i bs d = (rs, d') \<Longrightarrow> grown d d'"
proof (induction bs arbitrary: i d rs)
  case (Cons b bs)
  from Cons.prems show ?case
    by (auto split: prod.splits dest!: Cons.IH one_text_grown elim: grown_trans)
qed simp

lemma hook_one_grown: "hook_one N pats he now m d = (y, d') \<Longrightarrow> grown d d'"
  by (auto simp: hook_one_def Let_def split: if_splits prod.splits sum.splits dest: text_grown)

lemma hook_grown: "hook_each N pats he now ms n d = (n', d') \<Longrightarrow> grown d d'"
proof (induction ms arbitrary: n d)
  case (Cons m ms)
  from Cons.prems show ?case
    by (auto split: prod.splits dest!: Cons.IH hook_one_grown elim: grown_trans)
qed simp

lemma import_contacts_grown: "import_contacts ops show_store it st N is_email now d = (rc, d') \<Longrightarrow> grown d d'"
proof (cases "d' = d")
  case False
  assume i: "import_contacts ops show_store it st N is_email now d = (rc, d')"
  obtain ps r where "write_records (host N) ps d = (r, d')"
    using i False by (auto simp: import_contacts_def Let_def split: sum.splits if_splits prod.splits)
  then show ?thesis by (rule write_records_grown)
qed simp

lemma ingest_step_keeps:
  assumes "ingest_step ops N search pats A x y" "search_ok search"
    and "graph_wf N A (recs (fst x)) \<and> cache_wf N A (ag_cache (snd x)) (recs (fst x))"
  shows "graph_wf N A (recs (fst y)) \<and> cache_wf N A (ag_cache (snd y)) (recs (fst y))"
  using assms(1)
proof (rule ingest_stepE)
  fix now clock s photos d g r d' g'
  assume x: "x = (d, g)" "y = (d', g')" and b: "ingest_photo_faces_batch N search now clock s photos d g = (r, d', g')"
    and A: "\<forall>photo \<in> set photos. face_ids N (pf_faces photo) \<subseteq> A"
  obtain rs d1 g1 where p: "ingest_photos N search s now clock 0 photos d g = (rs, d1, g1)"
    by (cases "ingest_photos N search s now clock 0 photos d g")
  from photos_keep [OF assms(2) A p] assms(3) x(1) have "graph_wf N A (recs d1) \<and> cache_wf N A (ag_cache g1) (recs d1)" by simp
  with b p assms(3) x show ?thesis by (auto simp: ingest_photo_faces_batch_def Let_def split: sum.splits)
next
  fix now clock s bodies d rt d' g
  assume x: "x = (d, g)" "y = (d', g)" and b: "ingest_text_signals_batch N pats now clock s bodies d = (rt, d')"
    and A: "\<forall>b \<in> set bodies. signal_ids N pats (tr_text b) \<subseteq> A"
  obtain rs d1 where p: "ingest_texts N pats s now clock 0 bodies d = (rs, d1)" by (cases "ingest_texts N pats s now clock 0 bodies d")
  from texts_keep [OF A p] cache_wf_grown [OF texts_grown [OF p]] assms(3) x(1) have "graph_wf N A (recs d1) \<and> cache_wf N A (ag_cache g) (recs d1)" by simp
  with b p assms(3) x show ?thesis by (auto simp: ingest_text_signals_batch_def Let_def split: sum.splits)
next
  fix he now ms d rh d' g
  assume x: "x = (d, g)" "y = (d', g)" and b: "run_after_batch N pats he now ms d = (rh, d')"
    and A: "\<forall>m \<in> set ms. signal_ids N pats (hook_body he m) \<subseteq> A"
  obtain n d1 where p: "hook_each N pats he now ms 0 d = (n, d1)" by (cases "hook_each N pats he now ms 0 d")
  from hook_keeps [OF A p] cache_wf_grown [OF hook_grown [OF p]] assms(3) x(1) have "graph_wf N A (recs d1) \<and> cache_wf N A (ag_cache g) (recs d1)" by simp
  with b p assms(3) x show ?thesis by (auto simp: run_after_batch_def split: if_splits)
next
  fix show_store it st is_email now d rc d' g
  assume x: "x = (d, g)" "y = (d', g)" and b: "import_contacts ops show_store it st N is_email now d = (rc, d')"
    and A: "\<forall>book. load_contacts ops st = Inr book \<longrightarrow> (\<forall>c \<in> set (active_contacts it book). contact_ids N is_email c \<subseteq> A)"
  from import_keeps [OF b] A cache_wf_grown [OF import_contacts_grown [OF b]] assms(3) x show ?thesis by simp
qed

lemma ingest_run_keeps:
  assumes "(ingest_step ops N search pats A)\<^sup>*\<^sup>* x y" "search_ok search"
    and "graph_wf N A (recs (fst x)) \<and> cache_wf N A (ag_cache (snd x)) (recs (fst x))"
  shows "graph_wf N A (recs (fst y)) \<and> cache_wf N A (ag_cache (snd y)) (recs (fst y))"
  using assms(1,3)
proof (induction rule: rtranclp_induct)
  case (step y z)
  then show ?case using ingest_step_keeps [OF step.hyps(2) assms(2)] by blast
qed

end

text \<open>Every record of a batch gets its result, in order, whatever became of the others.\<close>

lemma photo_result_key: "ingest_one_photo N search s now err_now photo d g = (r, d', g') \<Longrightarrow> ir_source_key r = pf_source_key photo"
  by (auto simp: ingest_one_photo_def record_photo_failure_def ok_result_def split: sum.splits prod.splits)

text \<open>A photo with a malformed embedding is refused before anything of it is planned.\<close>

lemma validate_from_ok: "validate_faces_from sh i faces = Inr () \<longleftrightarrow>
    (\<forall>f \<in> set faces. df_embedding f \<noteq> [] \<and> (\<forall>w \<in> set (df_embedding f). is_finite (f32_val w)))"
proof (induction faces arbitrary: i)
  case (Cons f faces)
  have "first_bad_float (map f32_val (df_embedding f)) = None \<longleftrightarrow> (\<forall>w \<in> set (df_embedding f). is_finite (f32_val w))"
  proof -
    have "snd ` set (enumerate 0 (map f32_val (df_embedding f))) = f32_val ` set (df_embedding f)"
      by (simp only: set_map [symmetric] map_snd_enumerate)
    then have "(\<forall>x \<in> set (enumerate 0 (map f32_val (df_embedding f))). is_finite (snd x)) \<longleftrightarrow>
        (\<forall>w \<in> set (df_embedding f). is_finite (f32_val w))" by (metis (no_types, lifting) image_iff)
    then show ?thesis unfolding first_bad_float_def find_None_iff by (auto simp: case_prod_beta)
  qed
  with Cons show ?case by (auto split: option.splits)
qed simp

lemma photo_result_ok: "ingest_one_photo N search s now err_now photo d g = (r, d', g') \<Longrightarrow> ir_ok r \<Longrightarrow>
    (\<forall>f \<in> set (pf_faces photo). df_embedding f \<noteq> [] \<and> (\<forall>w \<in> set (df_embedding f). is_finite (f32_val w))) \<and>
    ir_count r = length (pf_faces photo)"
  using validate_from_ok [of "show_f32 (host N)" 0 "pf_faces photo"]
  by (auto simp: ingest_one_photo_def validate_face_inputs_def record_photo_failure_def ok_result_def ingest_photo_faces_def
      plan_face_extraction_def Let_def split: sum.splits prod.splits)

lemma photo_result_shape: "ingest_one_photo N search s now err_now photo d g = (r, d', g') \<Longrightarrow>
    (ir_ok r \<longleftrightarrow> ir_error r = None) \<and> (\<not> ir_ok r \<longrightarrow> ir_count r = 0 \<and> ir_records_written r = 0)"
  by (auto simp: ingest_one_photo_def record_photo_failure_def ok_result_def split: sum.splits prod.splits)

lemma photo_results_each: "ingest_photos N search s now clock i photos d g = (rs, d', g') \<Longrightarrow>
    list_all2 (\<lambda>photo r. ir_source_key r = pf_source_key photo \<and> (ir_ok r \<longleftrightarrow> ir_error r = None) \<and>
       (\<not> ir_ok r \<longrightarrow> ir_count r = 0 \<and> ir_records_written r = 0) \<and>
       (ir_ok r \<longrightarrow> ir_count r = length (pf_faces photo) \<and>
          (\<forall>f \<in> set (pf_faces photo). df_embedding f \<noteq> [] \<and> (\<forall>w \<in> set (df_embedding f). is_finite (f32_val w)))))
     photos rs"
proof (induction photos arbitrary: i d g rs)
  case (Cons photo photos)
  obtain r d1 g1 where 1: "ingest_one_photo N search s now (clock i) photo d g = (r, d1, g1)"
    by (rule prod_cases3)
  obtain rest d2 g2 where 2: "ingest_photos N search s now clock (Suc i) photos d1 g1 = (rest, d2, g2)"
    by (rule prod_cases3)
  from Cons.prems 1 2 have "rs = r # rest" "d2 = d'" "g2 = g'" by simp_all
  with photo_result_key [OF 1] photo_result_shape [OF 1] photo_result_ok [OF 1] Cons.IH [of "Suc i" d1 g1 rest] 2
  show ?case by simp
qed simp

section \<open>Cards\<close>

text \<open>One card operation of a node with keys \<open>keys\<close>: an import, the bootstrap, a re-issue.\<close>

inductive card_step ::
    "card_crypto \<Rightarrow> node_keys \<Rightarrow> (string set \<Rightarrow> string list) \<Rightarrow> 'd ingest_node \<Rightarrow> 'd \<Rightarrow> 'd \<Rightarrow> bool" for cc keys it N where
  import_card: "import_identity_card cc it N uuid now crd link d = (ri, d') \<Longrightarrow> card_step cc keys it N d d'"
| ensure_me: "ensure_me_persona_if_absent cc keys N uuids now name d = (re, d') \<Longrightarrow> card_step cc keys it N d d'"
| reissue: "reissue_identity_card cc keys N now rq d = (rr, d') \<Longrightarrow> card_step cc keys it N d d'"

context card_store
begin

lemma card_run_signed:
  assumes "(card_step cc keys it N)\<^sup>*\<^sup>* d d'" "keys_sign cc keys" "identities_signed cc N (recs d)"
  shows "identities_signed cc N (recs d')"
  using assms(1,3)
proof (induction rule: rtranclp_induct)
  case (step d1 d2)
  from step.hyps(2) step.IH [OF step.prems] show ?case
    by cases (blast intro: import_card_keeps ensure_me_keeps [OF _ assms(2)] reissue_keeps [OF _ assms(2)])+
qed

end

end
