(* ===== verification/Face_Cache.thy ===== *)
theory Face_Cache
  imports Face_Extractor
begin

text \<open>
  The nearest-neighbour cache of faces (\<^verbatim>\<open>src/fingerprints/face_ann_cache.rs\<close>) against its
  specification: a list of entries that every search goes over, without an index.
\<close>

section \<open>Operations\<close>

datatype cache_op = Add string face_embedding | Flush | Replace "ann_entry list" | Search face_embedding nat

fun run_cache_op :: "ann_search \<Rightarrow> cache_op \<Rightarrow> ann_cache \<Rightarrow> cache_hit list \<times> ann_cache" where
  "run_cache_op search (Add i e) c = ([], ann_add i e c)"
| "run_cache_op search Flush c = ([], ann_flush c)"
| "run_cache_op search (Replace es) c = ([], ann_replace_all es c)"
| "run_cache_op search (Search q k) c = ann_nearest search q k c"

fun run_cache_ops :: "ann_search \<Rightarrow> cache_op list \<Rightarrow> ann_cache \<Rightarrow> cache_hit list list \<times> ann_cache" where
  "run_cache_ops search [] c = ([], c)"
| "run_cache_ops search (x # xs) c =
     (let (hits, c) = run_cache_op search x c; (rest, c) = run_cache_ops search xs c in (hits # rest, c))"

section \<open>Specification\<close>

definition list_nearest :: "ann_search \<Rightarrow> face_embedding \<Rightarrow> nat \<Rightarrow> ann_entry list \<Rightarrow> cache_hit list" where
  "list_nearest search q k es =
     (if es = [] then []
      else map (\<lambda>i. \<lparr>hit_fingerprint_id = fst (es ! i), hit_similarity = f32_sub (Fin 1) (distance q (snd (es ! i)))\<rparr>)
        (take k (search es q)))"

fun list_cache_op :: "ann_search \<Rightarrow> cache_op \<Rightarrow> ann_entry list \<Rightarrow> cache_hit list \<times> ann_entry list" where
  "list_cache_op search (Add i e) es = ([], es @ [(i, e)])"
| "list_cache_op search Flush es = ([], es)"
| "list_cache_op search (Replace es') es = ([], es')"
| "list_cache_op search (Search q k) es = (list_nearest search q k es, es)"

fun list_cache_ops :: "ann_search \<Rightarrow> cache_op list \<Rightarrow> ann_entry list \<Rightarrow> cache_hit list list \<times> ann_entry list" where
  "list_cache_ops search [] es = ([], es)"
| "list_cache_ops search (x # xs) es =
     (let (hits, es) = list_cache_op search x es; (rest, es) = list_cache_ops search xs es in (hits # rest, es))"

section \<open>Refinement\<close>

lemma cache_op_refines:
  assumes "ann_ok c" "run_cache_op search x c = (hits, c')"
  shows "list_cache_op search x (ann_entries c) = (hits, ann_entries c') \<and> ann_ok c'"
  using assms
  by (cases x) (auto simp: list_nearest_def ann_nearest_spec ann_ok_add ann_ok_flush ann_ok_replace)

lemma cache_ops_refine:
  "ann_ok c \<Longrightarrow> run_cache_ops search xs c = (hs, c') \<Longrightarrow>
     list_cache_ops search xs (ann_entries c) = (hs, ann_entries c') \<and> ann_ok c'"
proof (induction xs arbitrary: c hs)
  case (Cons x xs)
  obtain hits c1 where 1: "run_cache_op search x c = (hits, c1)" by (cases "run_cache_op search x c")
  obtain rest c2 where 2: "run_cache_ops search xs c1 = (rest, c2)" by (cases "run_cache_ops search xs c1")
  from Cons.prems(2) 1 2 have eq: "hs = hits # rest" "c2 = c'" by simp_all
  note one = cache_op_refines [OF Cons.prems(1) 1]
  from Cons.IH [of c1 rest] one 2 eq show ?case by simp
qed simp

end
