(* ===== verification/Decomposer.thy ===== *)
theory Decomposer
  imports Json_Query Fingerprint_Keys
begin

text \<open>
  \<^verbatim>\<open>src/ingestion/decomposer.rs\<close> and \<^verbatim>\<open>src/ingestion/structure_analyzer.rs\<close>: before a JSON document
  is stored, its arrays of objects are split off into child groups; what a language model is
  shown of a document is the skeleton of its paths. A JSON object is the list of its entries
  in iteration order, with distinct keys; SHA-256 in hexadecimal is a parameter.
\<close>

section \<open>Decomposition\<close>

record child_group =
  cg_field_name :: string
  cg_structure_hash :: string
  cg_items :: "json list"

record decomposition_result =
  dr_parent :: json
  dr_children :: "child_group list"

fun as_object :: "json \<Rightarrow> (string \<times> json) list option" where
  "as_object (JObj kvs) = Some kvs"
| "as_object _ = None"

definition compute_structure_hash :: "(bytes \<Rightarrow> string) \<Rightarrow> json \<Rightarrow> string" where
  "compute_structure_hash sha v =
     sha (as_bytes (join '','' (sort (case as_object v of Some kvs \<Rightarrow> map fst kvs | None \<Rightarrow> []))))"

text \<open>An array whose first element is an object.\<close>

definition object_array :: "json \<Rightarrow> bool" where
  "object_array v = (case as_array v of Some (x # xs) \<Rightarrow> is_object x | _ \<Rightarrow> False)"

definition fields_to_extract :: "(string \<times> json) list \<Rightarrow> string list" where
  "fields_to_extract kvs = List.map_filter (\<lambda>(k, v). if object_array v then Some k else None) kvs"

fun extract_fields ::
    "(bytes \<Rightarrow> string) \<Rightarrow> string list \<Rightarrow> (string \<times> json) list \<Rightarrow> (string \<times> json) list \<times> child_group list" where
  "extract_fields sha [] parent = (parent, [])"
| "extract_fields sha (f # fs) parent =
     (case map_of parent f of
        None \<Rightarrow> extract_fields sha fs parent
      | Some v \<Rightarrow>
          (let rest = filter (\<lambda>(k, _). k \<noteq> f) parent in
           case as_array v of
             Some (representative # xs) \<Rightarrow>
               (let (p, cs) = extract_fields sha fs rest in
                (p, \<lparr>cg_field_name = f, cg_structure_hash = compute_structure_hash sha representative,
                      cg_items = filter is_object (representative # xs)\<rparr> # cs))
           | _ \<Rightarrow> extract_fields sha fs rest))"

definition decompose :: "(bytes \<Rightarrow> string) \<Rightarrow> json \<Rightarrow> decomposition_result" where
  "decompose sha data =
     (case as_object data of
        None \<Rightarrow> \<lparr>dr_parent = data, dr_children = []\<rparr>
      | Some kvs \<Rightarrow> (let (p, cs) = extract_fields sha (fields_to_extract kvs) kvs in \<lparr>dr_parent = JObj p, dr_children = cs\<rparr>))"

section \<open>What a decomposition is\<close>

definition child_of :: "(bytes \<Rightarrow> string) \<Rightarrow> string \<times> json \<Rightarrow> child_group" where
  "child_of sha = (\<lambda>(k, v). let arr = the (as_array v) in
     \<lparr>cg_field_name = k, cg_structure_hash = compute_structure_hash sha (hd arr), cg_items = filter is_object arr\<rparr>)"

lemma extract_fields_spec:
  assumes "distinct fs" "\<forall>f \<in> set fs. \<exists>v. map_of parent f = Some v \<and> object_array v"
  shows "extract_fields sha fs parent =
    (filter (\<lambda>(k, _). k \<notin> set fs) parent, map (\<lambda>f. child_of sha (f, the (map_of parent f))) fs)"
  using assms
proof (induction fs arbitrary: parent)
  case (Cons f fs)
  let ?rest = "filter (\<lambda>(k, _). k \<noteq> f) parent"
  from Cons.prems(2) obtain v where v: "map_of parent f = Some v" "object_array v" by auto
  then obtain x xs where arr: "as_array v = Some (x # xs)"
    by (auto simp: object_array_def split: option.splits list.splits)
  have same: "map_of ?rest g = map_of parent g" if "g \<noteq> f" for g
    using that by (induction parent) auto
  have "distinct fs" "\<forall>g \<in> set fs. \<exists>v. map_of ?rest g = Some v \<and> object_array v"
    using Cons.prems same by (auto; metis)+
  from Cons.IH [OF this] have IH: "extract_fields sha fs ?rest = (filter (\<lambda>(k, _). k \<notin> set fs) ?rest,
      map (\<lambda>f. child_of sha (f, the (map_of ?rest f))) fs)" .
  have "map (\<lambda>g. child_of sha (g, the (map_of ?rest g))) fs = map (\<lambda>g. child_of sha (g, the (map_of parent g))) fs"
    using same Cons.prems(1) by (intro map_cong) (metis distinct.simps(2))+
  moreover have "filter (\<lambda>(k, _). k \<notin> set fs) ?rest = filter (\<lambda>(k, _). k \<notin> set (f # fs)) parent"
    by (auto simp: case_prod_beta intro: filter_cong)
  ultimately show ?case using v arr IH by (simp add: child_of_def)
qed simp

lemma fields_to_extract_eq: "fields_to_extract kvs = map fst (filter (object_array \<circ> snd) kvs)"
  by (induction kvs) (auto simp: fields_to_extract_def map_filter_simps)

lemma decompose_object:
  assumes "distinct (map fst kvs)"
  shows "decompose sha (JObj kvs) = \<lparr>dr_parent = JObj (filter (\<lambda>(_, v). \<not> object_array v) kvs),
     dr_children = map (child_of sha) (filter (object_array \<circ> snd) kvs)\<rparr>"
proof -
  let ?fs = "fields_to_extract kvs"
  have val: "map_of kvs k = Some v" if "(k, v) \<in> set kvs" for k v using assms that by simp
  have d: "distinct ?fs" unfolding fields_to_extract_eq using assms by (simp add: distinct_map_filter)
  have "\<forall>f \<in> set ?fs. \<exists>v. map_of kvs f = Some v \<and> object_array v"
    unfolding fields_to_extract_eq using val by force
  note spec = extract_fields_spec [OF d this, of sha]
  have "(k \<notin> set ?fs) = (\<not> object_array v)" if "(k, v) \<in> set kvs" for k v
  proof -
    have "k \<in> fst ` set (filter (object_array \<circ> snd) kvs)" if "object_array v"
      using that \<open>(k, v) \<in> set kvs\<close> by (intro image_eqI [of _ _ "(k, v)"]) simp_all
    moreover have "object_array v" if "(k, v') \<in> set kvs" "object_array v'" for v'
      using that eq_key_imp_eq_value [OF assms \<open>(k, v) \<in> set kvs\<close>, of v'] by simp
    ultimately show ?thesis unfolding fields_to_extract_eq by auto
  qed
  then have "filter (\<lambda>(k, _). k \<notin> set ?fs) kvs = filter (\<lambda>(_, v). \<not> object_array v) kvs"
    by (intro filter_cong) auto
  moreover have "map (\<lambda>f. child_of sha (f, the (map_of kvs f))) ?fs = map (child_of sha) (filter (object_array \<circ> snd) kvs)"
    unfolding fields_to_extract_eq map_map using val by (intro map_cong) (auto simp: child_of_def)
  ultimately show ?thesis using spec by (simp add: decompose_def)
qed


text \<open>The items of a child group are objects, smaller than the document, and there is at least one.\<close>

lemma object_array_items:
  assumes "object_array v"
  shows "\<exists>x xs. as_array v = Some (x # xs) \<and> is_object x"
  using assms by (auto simp: object_array_def split: option.splits list.splits)

lemma child_items:
  assumes "(k, v) \<in> set kvs" "object_array v" "x \<in> set (cg_items (child_of sha (k, v)))"
  shows "is_object x \<and> size x < size (JObj kvs)"
proof -
  from object_array_items [OF assms(2)] obtain y ys where v: "v = JArr (y # ys)" by (cases v) auto
  with assms(3) have x: "x \<in> set (y # ys)" "is_object x" by (auto simp: child_of_def split: if_splits)
  from x(1) have "size x < size v" unfolding v by (auto dest: size_list_estimation' [where f = size])
  moreover have "size v < size (JObj kvs)"
    using assms(1) by (induction kvs) auto
  ultimately show ?thesis using x(2) by simp
qed

lemma child_first: "object_array v \<Longrightarrow> cg_items (child_of sha (k, v)) \<noteq> []"
  using object_array_items by (fastforce simp: child_of_def)

lemma children_whole:
  assumes "\<forall>(k, v) \<in> set kvs. object_array v \<longrightarrow> list_all is_object (the (as_array v))"
  shows "map ((\<lambda>cg. (cg_field_name cg, JArr (cg_items cg))) \<circ> child_of sha) (filter (object_array \<circ> snd) kvs) =
    filter (object_array \<circ> snd) kvs"
proof (rule map_idI)
  fix kv
  assume kv: "kv \<in> set (filter (object_array \<circ> snd) kvs)"
  obtain k v where v: "kv = (k, v)" by (cases kv)
  from kv v object_array_items [of v] obtain x xs where "v = JArr (x # xs)" by (cases v) auto
  with kv v assms show "((\<lambda>cg. (cg_field_name cg, JArr (cg_items cg))) \<circ> child_of sha) kv = kv"
    by (auto simp: child_of_def list_all_iff)
qed

lemma multiset_partition_snd:
  "mset (filter (\<lambda>(_, v). \<not> P v) kvs) + mset (filter (P \<circ> snd) kvs) = mset kvs"
  by (induction kvs) auto

text \<open>A structure is known by its field names only, whatever their order, and by nothing below them.\<close>

lemma structure_hash_mset:
  "mset (map fst kvs) = mset (map fst kvs') \<Longrightarrow> compute_structure_hash sha (JObj kvs) = compute_structure_hash sha (JObj kvs')"
  unfolding compute_structure_hash_def by (simp only: as_object.simps option.case sorted_list_of_multiset_mset [symmetric])

lemma structure_hash_collision:
  "compute_structure_hash sha (JObj [(''a,b'', JNull)]) = compute_structure_hash sha (JObj [(''a'', JNull), (''b'', JNull)])"
  by (simp add: compute_structure_hash_def)

section \<open>The skeleton of a document\<close>

fun json_type_name :: "json \<Rightarrow> string" where
  "json_type_name (JStr _) = ''string''"
| "json_type_name (JInt _) = ''number''"
| "json_type_name (JNum _) = ''number''"
| "json_type_name (JBool _) = ''boolean''"
| "json_type_name JNull = ''null''"
| "json_type_name (JObj _) = ''object''"
| "json_type_name (JArr _) = ''array''"

type_synonym skeleton = "(string \<rightharpoonup> string) \<times> string set"

definition path_of :: "string \<Rightarrow> string \<Rightarrow> string" where
  "path_of pre key = (if pre = [] then key else pre @ ''.'' @ key)"

function (sequential) skeleton_object :: "(string \<times> json) list \<Rightarrow> string \<Rightarrow> skeleton \<Rightarrow> skeleton" where
  "skeleton_object [] pre st = st"
| "skeleton_object ((key, v) # kvs) pre st =
     (let path = path_of pre key; (fields, seen) = st in
      skeleton_object kvs pre
        (case v of
           JObj nested \<Rightarrow> skeleton_object nested path st
         | JArr arr \<Rightarrow>
             (let arr_path = path @ ''[]'' in
              case arr of
                [] \<Rightarrow> (fields(arr_path \<mapsto> ''[]''), seen)
              | x # _ \<Rightarrow>
                  (case x of
                     JObj inner \<Rightarrow>
                       (if arr_path \<in> seen then st else skeleton_object inner arr_path (fields, insert arr_path seen))
                   | _ \<Rightarrow> (fields(arr_path \<mapsto> ''['' @ json_type_name x @ '']''), seen)))
         | _ \<Rightarrow> (if path \<in> dom fields then st else (fields(path \<mapsto> json_type_name v), seen))))"
  by pat_completeness auto

termination
  by (relation "measure (\<lambda>(kvs, _, _). size (JObj kvs))") auto

definition extract_structure_skeleton :: "json \<Rightarrow> (string \<rightharpoonup> string)" where
  "extract_structure_skeleton data =
     (case data of
        JArr array \<Rightarrow>
          fst (fold (\<lambda>x st. case as_object x of Some kvs \<Rightarrow> skeleton_object kvs [] st | None \<Rightarrow> st) array
            ([''_meta'' \<mapsto> ''array('' @ show_nat (length array) @ '' items)''], {}))
      | JObj kvs \<Rightarrow> fst (skeleton_object kvs [] (Map.empty, {}))
      | other \<Rightarrow> [''value'' \<mapsto> json_type_name other])"

record structure_stats =
  ss_total_elements :: nat
  ss_unique_fields :: nat

definition get_analysis_stats :: "json \<Rightarrow> structure_stats" where
  "get_analysis_stats data =
     (case data of
        JArr array \<Rightarrow> \<lparr>ss_total_elements = length array,
          ss_unique_fields = length (remdups (concat (map (\<lambda>x. case as_object x of Some kvs \<Rightarrow> map fst kvs | None \<Rightarrow> []) array)))\<rparr>
      | JObj kvs \<Rightarrow> \<lparr>ss_total_elements = 1, ss_unique_fields = length kvs\<rparr>
      | _ \<Rightarrow> \<lparr>ss_total_elements = 1, ss_unique_fields = 1\<rparr>)"

text \<open>The skeleton of an object tells the type of every leaf that is not in an array, and no value.\<close>

definition is_leaf :: "json \<Rightarrow> bool" where
  "is_leaf v \<longleftrightarrow> (case v of JObj _ \<Rightarrow> False | JArr _ \<Rightarrow> False | _ \<Rightarrow> True)"

definition type_names :: "string set" where
  "type_names = {''string'', ''number'', ''boolean'', ''null'', ''[]'', ''[string]'', ''[number]'', ''[boolean]'', ''[null]'', ''[array]''}"

lemma json_type_name_leaf: "is_leaf v \<Longrightarrow> json_type_name v \<in> type_names"
  by (cases v) (simp_all add: is_leaf_def type_names_def)

lemma element_type_name: "\<not> is_object x \<Longrightarrow> ''['' @ json_type_name x @ '']'' \<in> type_names"
  by (cases x) (simp_all add: type_names_def)

lemma skeleton_leaf:
  "is_leaf v \<Longrightarrow> skeleton_object ((key, v) # kvs) pre (fm, seen) = skeleton_object kvs pre
     (if path_of pre key \<in> dom fm then (fm, seen) else (fm(path_of pre key \<mapsto> json_type_name v), seen))"
  by (cases v) (simp_all add: is_leaf_def Let_def del: fun_upd_apply)

lemma skeleton_no_values:
  assumes T: "type_names \<subseteq> T"
  shows "ran fm \<subseteq> T \<Longrightarrow> ran (fst (skeleton_object kvs pre (fm, seen))) \<subseteq> T"
proof (induction "size (JObj kvs)" arbitrary: kvs pre fm seen rule: less_induct)
  case less
  note fun_upd_apply [simp del]
  show ?case
  proof (cases kvs)
    case (Cons kv rest)
    obtain key v where kv: "kv = (key, v)" by (cases kv)
    have upd: "ran (fm(k \<mapsto> t)) \<subseteq> T" if "t \<in> type_names" for k t
      using that less.prems T by (auto simp: ran_def fun_upd_apply)
    have IH: "ran (fst (skeleton_object rest pre (f, s))) \<subseteq> T" if "ran f \<subseteq> T" for f s
      using that by (intro less.hyps) (simp_all add: Cons kv)
    have nested: "ran (fst (skeleton_object inner q (f, s))) \<subseteq> T"
      if "size (JObj inner) < size (JObj kvs)" "ran f \<subseteq> T" for inner q f s
      using that by (intro less.hyps)
    have go: "ran (fst (skeleton_object rest pre st)) \<subseteq> T" if "ran (fst st) \<subseteq> T" for st
      using IH that by (cases st) simp
    show ?thesis
    proof (cases v)
      case (JArr arr)
      show ?thesis
      proof (cases arr)
        case Nil
        have "''[]'' \<in> type_names" by (simp add: type_names_def)
        from IH [OF upd [OF this]] show ?thesis by (simp add: Cons kv JArr Nil Let_def)
      next
        case (Cons x xs)
        show ?thesis
        proof (cases "is_object x")
          case True
          then obtain inner where x: "x = JObj inner" by (cases x) auto
          have "size (JObj inner) < size (JObj kvs)" unfolding \<open>kvs = kv # rest\<close> kv JArr Cons x by simp
          from go [OF nested [OF this less.prems]] IH [OF less.prems] show ?thesis
            by (simp add: \<open>kvs = kv # rest\<close> kv JArr Cons x Let_def)
        next
          case False
          from IH [OF upd [OF element_type_name [OF this]]] False show ?thesis
            by (cases x) (simp_all add: \<open>kvs = kv # rest\<close> kv JArr Cons Let_def)
        qed
      qed
    next
      case (JObj inner)
      have "size (JObj inner) < size (JObj kvs)" unfolding Cons kv JObj by simp
      from go [OF nested [OF this less.prems]] show ?thesis by (simp add: Cons kv JObj Let_def)
    qed (use IH [OF upd [OF json_type_name_leaf [of v]]] IH [OF less.prems] in
        \<open>simp_all add: Cons kv Let_def is_leaf_def\<close>)
  qed (use less.prems in simp)
qed

text \<open>What of a document is shown is type names and the length of the outermost array.\<close>

definition array_meta :: "nat \<Rightarrow> string" where
  "array_meta n = ''array('' @ show_nat n @ '' items)''"

lemma skeleton_fold_no_values:
  assumes "type_names \<subseteq> T"
  shows "ran (fst st) \<subseteq> T \<Longrightarrow>
    ran (fst (fold (\<lambda>x st. case as_object x of Some kvs \<Rightarrow> skeleton_object kvs [] st | None \<Rightarrow> st) xs st)) \<subseteq> T"
proof (induction xs arbitrary: st)
  case (Cons x xs)
  have "ran (fst (case as_object x of Some kvs \<Rightarrow> skeleton_object kvs [] st | None \<Rightarrow> st)) \<subseteq> T"
    using Cons.prems skeleton_no_values [OF assms, of "fst st" _ "[]" "snd st"] by (cases "as_object x") simp_all
  from Cons.IH [OF this] show ?case by simp
qed simp

lemma skeleton_shows_types:
  "ran (extract_structure_skeleton data) \<subseteq> type_names \<union> array_meta ` {n. \<exists>xs. data = JArr xs \<and> length xs = n}"
proof (cases data)
  case (JArr xs)
  have "ran [''_meta'' \<mapsto> array_meta (length xs)] \<subseteq> insert (array_meta (length xs)) type_names" by simp
  with skeleton_fold_no_values [OF subset_insertI, of "([''_meta'' \<mapsto> array_meta (length xs)], {})" "array_meta (length xs)" xs] JArr
  show ?thesis by (simp add: extract_structure_skeleton_def array_meta_def)
next
  case (JObj kvs)
  with skeleton_no_values [OF subset_refl, of Map.empty kvs "[]" "{}"] show ?thesis
    by (simp add: extract_structure_skeleton_def)
qed (simp_all add: extract_structure_skeleton_def type_names_def)

end
