(* ===== verification/Ingestion_Errors.thy ===== *)
theory Ingestion_Errors
  imports Json_Query
begin

text \<open>
  \<^verbatim>\<open>src/ingestion/error.rs\<close>: the errors of ingestion, their texts for logs and for users, and the
  classification of what a language model's provider, the network and the schema service
  answer. An error of another crate is represented by its text. A slice of a string at a byte
  that is inside a character panics: \<open>None\<close> of \<open>byte_prefix\<close>.
\<close>

section \<open>Slices of strings\<close>

definition char_width :: "char \<Rightarrow> nat" where
  "char_width c = (if char_code c < 128 then 1 else 2)"

text \<open>\<^verbatim>\<open>&s[..n]\<close>.\<close>

fun byte_prefix :: "nat \<Rightarrow> string \<Rightarrow> string option" where
  "byte_prefix n [] = (if n = 0 then Some [] else None)"
| "byte_prefix n (c # cs) =
     (if n = 0 then Some []
      else if char_width c \<le> n then map_option ((#) c) (byte_prefix (n - char_width c) cs) else None)"

lemma char_width_pos [simp]: "0 < char_width c" "char_width c \<noteq> 0"
  by (simp_all add: char_width_def)

lemma utf8_len_simps [simp]: "utf8_len [] = 0" "utf8_len (c # cs) = char_width c + utf8_len cs"
    "utf8_len (a @ b) = utf8_len a + utf8_len b"
  by (simp_all add: utf8_len_def char_width_def)

lemma byte_prefix_Some: "byte_prefix n s = Some p \<longleftrightarrow> (\<exists>q. s = p @ q) \<and> utf8_len p = n"
proof (induction n s arbitrary: p rule: byte_prefix.induct)
  case (2 n c cs)
  show ?case
  proof (cases p)
    case Nil
    then show ?thesis by auto
  next
    case (Cons d ds)
    show ?thesis
    proof (cases "n \<noteq> 0 \<and> char_width c \<le> n")
      case True
      then have "byte_prefix n (c # cs) = Some p \<longleftrightarrow> d = c \<and> byte_prefix (n - char_width c) cs = Some ds"
        using Cons by auto
      also have "\<dots> \<longleftrightarrow> d = c \<and> (\<exists>q. cs = ds @ q) \<and> utf8_len ds = n - char_width c" using True 2 by simp
      also have "\<dots> \<longleftrightarrow> (\<exists>q. c # cs = p @ q) \<and> utf8_len p = n" using True Cons by auto
      finally show ?thesis .
    next
      case False
      then have "byte_prefix n (c # cs) \<noteq> Some p" using Cons by auto
      moreover have "\<not> ((\<exists>q. c # cs = p @ q) \<and> utf8_len p = n)" using False Cons by auto
      ultimately show ?thesis by blast
    qed
  qed
qed auto

text \<open>A slice of a text of ASCII characters is always at a boundary.\<close>

definition ascii :: "string \<Rightarrow> bool" where
  "ascii s \<longleftrightarrow> (\<forall>c \<in> set s. char_code c < 128)"

lemma ascii_len: "ascii s \<Longrightarrow> utf8_len s = length s"
  by (induction s) (auto simp: ascii_def char_width_def)

lemma ascii_prefix:
  assumes "ascii s" "n \<le> length s"
  shows "byte_prefix n s = Some (take n s)"
proof -
  have "ascii (take n s)" using assms(1) by (auto simp: ascii_def dest: in_set_takeD)
  then have "utf8_len (take n s) = n" using assms(2) by (simp add: ascii_len)
  then show ?thesis unfolding byte_prefix_Some using append_take_drop_id [of n s, symmetric] by blast
qed

text \<open>\<^verbatim>\<open>str::split_once\<close>.\<close>

fun split_once :: "string \<Rightarrow> string \<Rightarrow> (string \<times> string) option" where
  "split_once sep [] = (if sep = [] then Some ([], []) else None)"
| "split_once sep (c # cs) =
     (case strip_prefix sep (c # cs) of
        Some rest \<Rightarrow> Some ([], rest)
      | None \<Rightarrow> map_option (\<lambda>(a, b). (c # a, b)) (split_once sep cs))"

lemma split_once_parts: "split_once sep s = Some (a, b) \<Longrightarrow> s = a @ sep @ b"
proof (induction sep s arbitrary: a rule: split_once.induct)
  case (2 sep c cs)
  then show ?case by (cases "strip_prefix sep (c # cs)") (auto simp: strip_prefix_Some)
qed (auto split: if_splits)

lemma split_once_None: "split_once sep s = None \<longleftrightarrow> \<not> contains s sep"
proof (induction sep s rule: split_once.induct)
  case (2 sep c cs)
  show ?case
  proof (cases "strip_prefix sep (c # cs)")
    case None
    then have "split_once sep (c # cs) = None \<longleftrightarrow> split_once sep cs = None" by simp
    moreover have "\<not> prefix sep (c # cs)" using None by (simp add: strip_prefix_None)
    ultimately show ?thesis using 2 [OF None] by (simp add: contains_def sublist_Cons_right)
  next
    case (Some rest)
    then have "contains (c # cs) sep" by (auto simp: contains_def strip_prefix_Some)
    with Some show ?thesis by simp
  qed
qed (auto simp: contains_def)

section \<open>Errors\<close>

datatype ingestion_error =
    OllamaError string
  | HttpError string
  | JsonError string
  | SchemaCreationError string
  | ConfigurationError string
  | SchemaSystemError string
  | InvalidInput string
  | AIResponseValidationError string
  | FileConversionFailed string
  | Extraction string
  | AuthenticationError string string
  | RateLimitError string string
  | TimeoutError string string
  | ConnectionError string string
  | SchemaDescriptiveNameConflict string string string

fun display_ingestion_error :: "ingestion_error \<Rightarrow> string" where
  "display_ingestion_error (OllamaError e) = ''Ollama API error: '' @ e"
| "display_ingestion_error (HttpError e) = ''HTTP request failed: '' @ e"
| "display_ingestion_error (JsonError e) = ''JSON parsing error: '' @ e"
| "display_ingestion_error (SchemaCreationError e) = ''Schema creation error: '' @ e"
| "display_ingestion_error (ConfigurationError e) = ''Configuration error: '' @ e"
| "display_ingestion_error (SchemaSystemError e) = ''Schema system error: '' @ e"
| "display_ingestion_error (InvalidInput e) = ''Invalid input data: '' @ e"
| "display_ingestion_error (AIResponseValidationError e) = ''AI response validation error: '' @ e"
| "display_ingestion_error (FileConversionFailed e) = ''File conversion failed: '' @ e"
| "display_ingestion_error (Extraction e) = ''Extraction error: '' @ e"
| "display_ingestion_error (AuthenticationError p m) = p @ '' authentication error: '' @ m"
| "display_ingestion_error (RateLimitError p m) = p @ '' rate limited: '' @ m"
| "display_ingestion_error (TimeoutError p m) = p @ '' request timed out: '' @ m"
| "display_ingestion_error (ConnectionError p m) = p @ '' connection error: '' @ m"
| "display_ingestion_error (SchemaDescriptiveNameConflict n c r) =
     ''schema service refused duplicate descriptive_name '' @ quoted n @ '' (existing canonical: '' @ c @ ''): '' @ r"

fun user_message :: "ingestion_error \<Rightarrow> string" where
  "user_message (AuthenticationError p m) = p @ '' API key is invalid or expired. Check your configuration.''"
| "user_message (RateLimitError p m) = p @ '' rate limit reached. Please wait a moment and try again.''"
| "user_message (TimeoutError p m) = p @ '' request timed out. The service may be slow or unavailable.''"
| "user_message (ConnectionError p m) = ''Cannot connect to '' @ p @ ''. '' @ m"
| "user_message (ConfigurationError e) = ''Configuration error: '' @ e"
| "user_message (InvalidInput e) = ''Invalid input: '' @ e"
| "user_message (SchemaDescriptiveNameConflict n c r) =
     ''There'' @ [CHR 0x27] @ ''s already a schema called '' @ quoted n @
     '' on this node. Rename your new schema or reuse the existing one -- two schemas can'' @ [CHR 0x27] @
     ''t share a descriptive name.''"
| "user_message e = display_ingestion_error e"

section \<open>What the schema service refuses\<close>

definition SCHEMA_NAME_CONFLICT_SENTINEL :: string where
  "SCHEMA_NAME_CONFLICT_SENTINEL = ''schema service refused duplicate descriptive_name''"

definition single_quoted_after :: "string \<Rightarrow> string \<Rightarrow> string option" where
  "single_quoted_after haystack marker =
     opt_bind (split_once marker haystack) (\<lambda>(_, after).
     opt_bind (split_once [CHR 0x27] after) (\<lambda>(_, tail).
     map_option fst (split_once [CHR 0x27] tail)))"

definition parse_schema_name_conflict :: "string \<Rightarrow> ingestion_error option" where
  "parse_schema_name_conflict err =
     (if \<not> contains err SCHEMA_NAME_CONFLICT_SENTINEL then None
      else opt_bind (single_quoted_after err SCHEMA_NAME_CONFLICT_SENTINEL) (\<lambda>descriptive_name.
        opt_bind (single_quoted_after err ''identity_hash'') (\<lambda>existing_canonical.
        Some (SchemaDescriptiveNameConflict descriptive_name existing_canonical
          (case split_once ''Reason: '' err of
             None \<Rightarrow> ''(reason missing)''
           | Some (_, tail) \<Rightarrow> (case split_once ''. Rename'' tail of Some (r, _) \<Rightarrow> r | None \<Rightarrow> tail))))))"

text \<open>The message of the schema service, as the code documents it.\<close>

definition conflict_message :: "string \<Rightarrow> string \<Rightarrow> string \<Rightarrow> string" where
  "conflict_message name hash reason =
     SCHEMA_NAME_CONFLICT_SENTINEL @ '' '' @ quoted name @ '': an Approved schema with identity_hash '' @ quoted hash @
     '' is already registered. Reason: '' @ reason @ ''. Rename the new schema or reuse the existing one.''"

section \<open>What a provider answers\<close>

definition truncate_body :: "string \<Rightarrow> string option" where
  "truncate_body body =
     (if utf8_len body > 200 then map_option (\<lambda>p. p @ ''...'') (byte_prefix 200 body) else Some body)"

definition classify_llm_error :: "string \<Rightarrow> nat \<Rightarrow> string \<Rightarrow> ingestion_error option" where
  "classify_llm_error provider status_code body =
     (if status_code = 401 then Some (AuthenticationError provider ''API key invalid or expired'')
      else if status_code = 402 then Some (ConfigurationError (provider @ '': insufficient credits -- add funds to your account''))
      else if status_code = 404 then Some (ConfigurationError (provider @ '': model not found -- check your model setting''))
      else if status_code = 429 then
        map_option (\<lambda>b. RateLimitError provider (''Too many requests. '' @ b)) (truncate_body body)
      else if 500 \<le> status_code \<and> status_code \<le> 599 then
        Some (ConnectionError provider (''Server error (HTTP '' @ show_nat status_code @ ''). Try again later.''))
      else map_option (\<lambda>b. ConfigurationError (provider @ '': API request failed with status '' @ show_nat status_code @ '': '' @ b))
        (truncate_body body))"

record transport_error =
  te_is_timeout :: bool
  te_is_connect :: bool
  te_display :: string

definition classify_transport_error :: "string \<Rightarrow> transport_error \<Rightarrow> ingestion_error" where
  "classify_transport_error provider err =
     (if te_is_timeout err then TimeoutError provider ''Request exceeded the configured timeout''
      else if te_is_connect err then
        ConnectionError provider (''Could not connect. Is the service running? ('' @ te_display err @ '')'')
      else ConnectionError provider (''Network error: '' @ te_display err))"

text \<open>A body is cut at a byte: one of ASCII characters is classified, one with a character across byte 200 panics.\<close>

lemma truncate_ascii: "ascii body \<Longrightarrow> truncate_body body = Some (if length body > 200 then take 200 body @ ''...'' else body)"
  by (simp add: truncate_body_def ascii_len ascii_prefix)

lemma classify_ascii: "ascii body \<Longrightarrow> \<exists>e. classify_llm_error provider status_code body = Some e"
  by (simp add: classify_llm_error_def truncate_ascii)

lemma byte_prefix_inside:
  assumes "utf8_len p < n" "n < utf8_len p + char_width c"
  shows "byte_prefix n (p @ c # q) = None"
proof (rule ccontr)
  assume "byte_prefix n (p @ c # q) \<noteq> None"
  then obtain r where "byte_prefix n (p @ c # q) = Some r" by blast
  then obtain t where t: "p @ c # q = r @ t" "utf8_len r = n" unfolding byte_prefix_Some by blast
  from t(1) consider u where "p = r @ u" | u where "r = p @ u" "u @ t = c # q" "u \<noteq> []"
    by (auto simp: append_eq_append_conv2 Cons_eq_append_conv)
  then show False
  proof cases
    case 1
    with assms(1) t(2) show False by simp
  next
    case 2
    then obtain v where "u = c # v" by (cases u) auto
    with 2 assms(2) t(2) show False by simp
  qed
qed

lemma truncate_panics:
  assumes "utf8_len p = 199" "\<not> ascii [c]"
  shows "truncate_body (p @ c # q) = None"
  using assms byte_prefix_inside [of p 200 c q] by (simp add: truncate_body_def ascii_def char_width_def)

text \<open>An apostrophe in a name ends it.\<close>

lemma conflict_apostrophe:
  "parse_schema_name_conflict (conflict_message (''Tom'' @ [CHR 0x27] @ ''s recipes'') ''h1'' ''taken'') =
     Some (SchemaDescriptiveNameConflict ''Tom'' ''h1'' ''taken'')"
  by code_simp

end
