(* ===== verification/Key_Extraction.thy ===== *)
theory Key_Extraction
  imports Decomposer Ingestion_Errors
begin

text \<open>
  \<^verbatim>\<open>src/ingestion/key_extraction.rs\<close>: the hash and range key of a record, from the key fields its
  schema declares, with dates normalized so that they sort. The parsers and printers of \<^verbatim>\<open>chrono\<close>
  are a parameter, as are the schemas of the node and the printing of JSON numbers.
\<close>

section \<open>Dates\<close>

text \<open>A parser takes the text and a format.\<close>

record ('z, 'n, 'd) chrono =
  parse_from_rfc3339 :: "string \<Rightarrow> 'z option"
  parse_from_rfc2822 :: "string \<Rightarrow> 'z option"
  parse_offset :: "string \<Rightarrow> string \<Rightarrow> 'z option"
  parse_naive :: "string \<Rightarrow> string \<Rightarrow> 'n option"
  parse_date :: "string \<Rightarrow> string \<Rightarrow> 'd option"
  format_offset :: "'z \<Rightarrow> string \<Rightarrow> string"
  format_naive :: "'n \<Rightarrow> string \<Rightarrow> string"
  format_date :: "'d \<Rightarrow> string \<Rightarrow> string"

definition SORTED_FMT :: string where "SORTED_FMT = ''%Y-%m-%d %H:%M:%S''"

fun first_of :: "'a option list \<Rightarrow> 'a option" where
  "first_of [] = None"
| "first_of (Some x # _) = Some x"
| "first_of (None # xs) = first_of xs"

definition try_parse_twitter_date :: "('z, 'n, 'd) chrono \<Rightarrow> string \<Rightarrow> 'n option" where
  "try_parse_twitter_date ch s =
     (let parts = split_whitespace s in
      if length parts \<noteq> 6 then None
      else (let tz_part = parts ! 4 in
        if \<not> (prefix ''+'' tz_part \<or> prefix ''-'' tz_part) \<or> utf8_len tz_part \<noteq> 5 then None
        else parse_naive ch (join '' '' [parts ! 1, parts ! 2, parts ! 3, parts ! 5]) ''%b %d %H:%M:%S %Y''))"

definition try_normalize_date :: "('z, 'n, 'd) chrono \<Rightarrow> string \<Rightarrow> string" where
  "try_normalize_date ch s =
     (let trimmed = trim s;
          from_offset = map_option (\<lambda>z. format_offset ch z SORTED_FMT);
          from_naive = map_option (\<lambda>n. format_naive ch n SORTED_FMT);
          from_date = map_option (\<lambda>d. format_date ch d ''%Y-%m-%d 00:00:00'') in
      if parse_naive ch trimmed SORTED_FMT \<noteq> None then trimmed
      else (case first_of (
          [from_offset (parse_from_rfc3339 ch trimmed),
           from_offset (parse_from_rfc2822 ch trimmed),
           from_offset (opt_bind (split_once '', '' trimmed) (\<lambda>(_, rest). parse_offset ch rest ''%d %b %Y %H:%M:%S %z'')),
           from_naive (try_parse_twitter_date ch trimmed)] @
          map (\<lambda>fmt. from_offset (parse_offset ch trimmed fmt)) [''%Y-%m-%dT%H:%M:%S%z'', ''%Y-%m-%dT%H:%M:%S%.f%z''] @
          map (\<lambda>fmt. from_naive (parse_naive ch trimmed fmt))
            [''%Y-%m-%dT%H:%M:%S'', ''%m/%d/%Y %H:%M:%S'', ''%Y-%m-%d %H:%M''] @
          map (\<lambda>fmt. from_date (parse_date ch trimmed fmt))
            [''%Y-%m-%d'', ''%m/%d/%Y'', ''%B %d, %Y'', ''%b %d, %Y'', ''%d %B %Y'', ''%d %b %Y'']) of
          Some r \<Rightarrow> r | None \<Rightarrow> s))"

text \<open>What is relied on: a date printed in the sortable format is read back in it.\<close>

definition chrono_ok :: "('z, 'n, 'd) chrono \<Rightarrow> bool" where
  "chrono_ok ch \<longleftrightarrow>
     (\<forall>z. parse_naive ch (format_offset ch z SORTED_FMT) SORTED_FMT \<noteq> None \<and> trim (format_offset ch z SORTED_FMT) = format_offset ch z SORTED_FMT) \<and>
     (\<forall>n. parse_naive ch (format_naive ch n SORTED_FMT) SORTED_FMT \<noteq> None \<and> trim (format_naive ch n SORTED_FMT) = format_naive ch n SORTED_FMT) \<and>
     (\<forall>d. parse_naive ch (format_date ch d ''%Y-%m-%d 00:00:00'') SORTED_FMT \<noteq> None \<and>
        trim (format_date ch d ''%Y-%m-%d 00:00:00'') = format_date ch d ''%Y-%m-%d 00:00:00'')"

lemma first_of_in: "first_of xs = Some x \<Longrightarrow> Some x \<in> set xs"
  by (induction xs rule: first_of.induct) auto

lemma normalize_fixed: "trim s = s \<Longrightarrow> parse_naive ch s SORTED_FMT \<noteq> None \<Longrightarrow> try_normalize_date ch s = s"
  by (simp add: try_normalize_date_def Let_def)

definition normal_date :: "('z, 'n, 'd) chrono \<Rightarrow> string \<Rightarrow> bool" where
  "normal_date ch s \<longleftrightarrow> trim s = s \<and> parse_naive ch s SORTED_FMT \<noteq> None"

lemma printed_normal:
  assumes "chrono_ok ch"
  shows "map_option (\<lambda>z. format_offset ch z SORTED_FMT) x = Some s \<Longrightarrow> normal_date ch s"
    and "map_option (\<lambda>n. format_naive ch n SORTED_FMT) y = Some s \<Longrightarrow> normal_date ch s"
    and "map_option (\<lambda>d. format_date ch d ''%Y-%m-%d 00:00:00'') w = Some s \<Longrightarrow> normal_date ch s"
  using assms by (auto simp: chrono_ok_def normal_date_def)

lemma normalize_cases:
  assumes "chrono_ok ch"
  shows "try_normalize_date ch s = s \<or> normal_date ch (try_normalize_date ch s)"
proof (cases "parse_naive ch (trim s) SORTED_FMT")
  case (Some n)
  then show ?thesis by (simp add: try_normalize_date_def normal_date_def Let_def trim_idem)
next
  case None
  show ?thesis
    using None unfolding try_normalize_date_def Let_def
    by (auto simp: image_iff simp del: first_of.simps append.simps split: option.split dest!: first_of_in
        dest: printed_normal [OF assms, OF sym])
qed

lemma normalize_idem: "chrono_ok ch \<Longrightarrow> try_normalize_date ch (try_normalize_date ch s) = try_normalize_date ch s"
  using normalize_cases [of ch s] normalize_fixed [of "try_normalize_date ch s" ch] by (metis normal_date_def)

section \<open>Keys\<close>

record key_definition =
  kd_hash_field :: "string option"
  kd_range_field :: "string option"

record ingest_schema =
  is_key :: "key_definition option"
  is_runtime_fields :: "string set"

type_synonym schema_lookup = "string \<Rightarrow> string + ingest_schema option"

fun type_label :: "json \<Rightarrow> string" where
  "type_label JNull = ''null''"
| "type_label (JBool _) = ''boolean''"
| "type_label (JInt _) = ''number''"
| "type_label (JNum _) = ''number''"
| "type_label (JStr _) = ''string''"
| "type_label (JArr _) = ''array''"
| "type_label (JObj _) = ''object''"

fun is_number :: "json \<Rightarrow> bool" where
  "is_number (JInt _) = True"
| "is_number (JNum _) = True"
| "is_number _ = False"

fun walk_path :: "string list \<Rightarrow> json \<Rightarrow> json option" where
  "walk_path [] v = Some v"
| "walk_path (p # ps) v = opt_bind (opt_bind (as_object v) (\<lambda>kvs. map_of kvs p)) (walk_path ps)"

text \<open>
  The walk returns from the whole function when a part is missing; the search through the
  values goes in the order \<open>it\<close> of the hash map.
\<close>

definition extract_nested_field_value ::
    "(string set \<Rightarrow> string list) \<Rightarrow> (string \<rightharpoonup> json) \<Rightarrow> string \<Rightarrow> json option" where
  "extract_nested_field_value it m field_path =
     (case m field_path of
        Some v \<Rightarrow> Some v
      | None \<Rightarrow>
          (let parts = split_on (\<lambda>c. c = CHR ''.'') field_path;
               shallow = first_of (map (\<lambda>k. opt_bind (as_object (the (m k))) (\<lambda>kvs. map_of kvs field_path)) (it (dom m))) in
           if CHR ''.'' \<in> set field_path then
             (case m (hd parts) of Some current \<Rightarrow> walk_path (tl parts) current | None \<Rightarrow> shallow)
           else shallow))"

definition wrong_schema_hint :: string where
  "wrong_schema_hint = '' -- this usually means the AI routed the file to the wrong schema.''"

definition extract_key ::
    "(string set \<Rightarrow> string list) \<Rightarrow> ('z, 'n, 'd) chrono \<Rightarrow> (json \<Rightarrow> string) \<Rightarrow> string \<Rightarrow> (string \<rightharpoonup> json)
     \<Rightarrow> string \<times> string \<times> bool \<Rightarrow> ingestion_error + string" where
  "extract_key it ch show_num schema m = (\<lambda>(key_name, field, normalize_date).
     case extract_nested_field_value it m field of
       Some (JStr s) \<Rightarrow> Inr (if normalize_date then try_normalize_date ch s else s)
     | Some v \<Rightarrow>
         if is_number v then Inr (show_num v)
         else Inl (InvalidInput (key_name @ '' '' @ quoted field @ '' in schema '' @ quoted schema @
           '' has unsupported type (expected string or number, got: '' @ type_label v @
           ''). The record's data is missing a usable value for the schema's declared key field'' @ wrong_schema_hint))
     | None \<Rightarrow> Inl (InvalidInput (key_name @ '' '' @ quoted field @ '' not found in data for schema '' @ quoted schema @
           ''. The record's data is missing the schema's declared key field'' @ wrong_schema_hint)))"

fun extract_keys ::
    "(string \<times> string \<times> bool \<Rightarrow> ingestion_error + string) \<Rightarrow> (string \<times> string option \<times> bool) list \<Rightarrow> (string \<rightharpoonup> string)
     \<Rightarrow> ingestion_error + (string \<rightharpoonup> string)" where
  "extract_keys f [] keys = Inr keys"
| "extract_keys f ((key_name, None, normalize_date) # ks) keys = extract_keys f ks keys"
| "extract_keys f ((key_name, Some field, normalize_date) # ks) keys =
     res_bind (f (key_name, field, normalize_date)) (\<lambda>s. extract_keys f ks (keys(key_name \<mapsto> s)))"

definition disambiguate :: "(string \<rightharpoonup> json) \<Rightarrow> (string \<rightharpoonup> string) \<Rightarrow> (string \<rightharpoonup> string)" where
  "disambiguate m keys =
     (case (keys ''range_field'', opt_bind (m ''content_hash'') as_str) of
        (Some r, Some h) \<Rightarrow> if h \<noteq> [] \<and> \<not> contains r h then keys(''range_field'' \<mapsto> r @ ''|'' @ h) else keys
      | _ \<Rightarrow> keys)"

definition extract_key_values_from_data ::
    "(string set \<Rightarrow> string list) \<Rightarrow> ('z, 'n, 'd) chrono \<Rightarrow> (json \<Rightarrow> string) \<Rightarrow> schema_lookup \<Rightarrow> (string \<rightharpoonup> json) \<Rightarrow> string
     \<Rightarrow> ingestion_error + (string \<rightharpoonup> string)" where
  "extract_key_values_from_data it ch show_num schemas m schema =
     (case schemas schema of
        Inl e \<Rightarrow> Inl (SchemaCreationError (''Failed to get schema '' @ quoted schema @ '' for key extraction: '' @ e))
      | Inr None \<Rightarrow> Inl (SchemaCreationError (''Schema '' @ quoted schema @
          '' not found -- cannot extract key values. Was the schema created successfully?''))
      | Inr (Some s) \<Rightarrow>
          res_bind (case is_key s of
              None \<Rightarrow> Inr Map.empty
            | Some kd \<Rightarrow> extract_keys (extract_key it ch show_num schema m)
                [(''hash_field'', kd_hash_field kd, False), (''range_field'', kd_range_field kd, True)] Map.empty)
            (\<lambda>keys. Inr (disambiguate m keys)))"

text \<open>Which keys a successful extraction has is decided by the schema alone.\<close>

definition declared :: "ingest_schema \<Rightarrow> string set" where
  "declared s = (case is_key s of None \<Rightarrow> {} | Some kd \<Rightarrow>
     (if kd_hash_field kd \<noteq> None then {''hash_field''} else {}) \<union> (if kd_range_field kd \<noteq> None then {''range_field''} else {}))"

lemma disambiguate_dom [simp]: "dom (disambiguate m keys) = dom keys"
  by (auto simp: disambiguate_def split: option.splits)

fun key_names :: "(string \<times> string option \<times> bool) list \<Rightarrow> string set" where
  "key_names [] = {}"
| "key_names ((k, f, b) # ks) = (if f = None then {} else {k}) \<union> key_names ks"

lemma extract_keys_dom: "extract_keys f ks keys0 = Inr keys \<Longrightarrow> dom keys = dom keys0 \<union> key_names ks"
proof (induction f ks keys0 rule: extract_keys.induct)
  case (3 f key_name field normalize_date ks keys0)
  from 3(2) obtain s where "f (key_name, field, normalize_date) = Inr s" "extract_keys f ks (keys0(key_name \<mapsto> s)) = Inr keys"
    by (auto simp: res_bind_eq_Inr)
  from 3(1) [OF this(2)] have "dom keys = dom (keys0(key_name \<mapsto> s)) \<union> key_names ks" .
  also have "dom (keys0(key_name \<mapsto> s)) = insert key_name (dom keys0)" by (simp only: dom_fun_upd option.distinct if_False)
  finally show ?case by simp
qed simp_all

lemma extracted_keys:
  assumes "extract_key_values_from_data it ch show_num schemas m schema = Inr keys" "schemas schema = Inr (Some s)"
  shows "dom keys = declared s"
proof -
  from assms obtain keys0 where k: "keys = disambiguate m keys0"
    "(case is_key s of None \<Rightarrow> Inr Map.empty
      | Some kd \<Rightarrow> extract_keys (extract_key it ch show_num schema m)
          [(''hash_field'', kd_hash_field kd, False), (''range_field'', kd_range_field kd, True)] Map.empty) = Inr keys0"
    by (auto simp: extract_key_values_from_data_def res_bind_eq_Inr)
  have "dom keys0 = declared s"
    using k(2) by (auto simp: declared_def simp del: extract_keys.simps dom_eq_empty_conv
        dest!: extract_keys_dom split: option.splits if_splits)
  with k(1) show ?thesis by simp
qed

end
