(* ===== verification/Mutation_Generator.thy ===== *)
theory Mutation_Generator
  imports Key_Extraction Handlers
begin

text \<open>
  \<^verbatim>\<open>src/ingestion/mutation_generator.rs\<close> and the helpers of \<^verbatim>\<open>ingestion_service/mod.rs\<close> around it:
  a document is flattened to dotted paths, its fields renamed by the mappers of the schema, and
  a create mutation built whose key is extracted, or made up from the contents and the clock.
\<close>

section \<open>Flattening\<close>

function (sequential) flatten_recursive :: "(string \<times> json) list \<Rightarrow> string \<Rightarrow> (string \<rightharpoonup> json) \<Rightarrow> (string \<rightharpoonup> json)" where
  "flatten_recursive [] pre out = out"
| "flatten_recursive ((key, v) # kvs) pre out =
     (let path = path_of pre key in
      flatten_recursive kvs pre (case v of JObj nested \<Rightarrow> flatten_recursive nested path out | _ \<Rightarrow> out(path \<mapsto> v)))"
  by pat_completeness auto

termination
  by (relation "measure (\<lambda>(kvs, _, _). size (JObj kvs))") auto

definition flatten_json_object :: "(string \<times> json) list \<Rightarrow> (string \<rightharpoonup> json)" where
  "flatten_json_object kvs = flatten_recursive kvs [] Map.empty"

section \<open>Mutations\<close>

record mutation =
  mu_schema_name :: string
  mu_fields :: "string \<rightharpoonup> json"
  mu_key_value :: key_value
  mu_pub_key :: string
  mu_type :: mutation_type
  mu_source_file_name :: "string option"
  mu_metadata :: "(string \<rightharpoonup> string) option"

definition content_hash_from_fields ::
    "(bytes \<Rightarrow> string) \<Rightarrow> (json \<Rightarrow> string) \<Rightarrow> string \<Rightarrow> (string \<rightharpoonup> json) \<Rightarrow> string" where
  "content_hash_from_fields sha show schema m =
     sha (as_bytes schema @ concat (map (\<lambda>k. as_bytes k @ as_bytes (show (the (m k)))) (sorted_list_of_set (dom m))))"

text \<open>\<^verbatim>\<open>rsplit('.').next()\<close>.\<close>

definition last_segment :: "string \<Rightarrow> string" where
  "last_segment s = last (split_on (\<lambda>c. c = CHR ''.'') s)"

definition map_field ::
    "(string \<rightharpoonup> json) \<Rightarrow> (string \<rightharpoonup> string) \<Rightarrow> string \<Rightarrow> (string \<rightharpoonup> json) \<times> (string \<rightharpoonup> string)
     \<Rightarrow> (string \<rightharpoonup> json) \<times> (string \<rightharpoonup> string)" where
  "map_field m mappers json_field = (\<lambda>(result, sources).
     case m json_field of
       None \<Rightarrow> (result, sources)
     | Some v \<Rightarrow>
         (let field_name = last_segment (the (mappers json_field)) in
          if sources field_name = None \<or> json_field = field_name
          then (result(field_name \<mapsto> v), sources(field_name \<mapsto> json_field)) else (result, sources)))"

text \<open>The mappers are iterated in the order \<open>it\<close> of the hash map.\<close>

definition apply_mappers ::
    "(string set \<Rightarrow> string list) \<Rightarrow> (string \<rightharpoonup> json) \<Rightarrow> (string \<rightharpoonup> string) \<Rightarrow> (string \<rightharpoonup> json)" where
  "apply_mappers it m mappers =
     (if mappers = Map.empty then m else fst (fold (map_field m mappers) (it (dom mappers)) (Map.empty, Map.empty)))"

definition complete_key :: "string \<Rightarrow> string \<Rightarrow> key_value \<Rightarrow> key_value" where
  "complete_key content_hash now kv =
     (let kv = (if fst kv = None \<and> snd kv = None then (Some content_hash, Some now) else kv);
          kv = (if fst kv \<noteq> None \<and> snd kv = None then (fst kv, Some now) else kv) in
      if fst kv = None \<and> snd kv \<noteq> None then (Some content_hash, snd kv) else kv)"

definition generate_mutations ::
    "(string set \<Rightarrow> string list) \<Rightarrow> (bytes \<Rightarrow> string) \<Rightarrow> (json \<Rightarrow> string) \<Rightarrow> string \<Rightarrow> string \<Rightarrow> (string \<rightharpoonup> string) \<Rightarrow> (string \<rightharpoonup> json)
     \<Rightarrow> (string \<rightharpoonup> string) \<Rightarrow> string \<Rightarrow> string option \<Rightarrow> (string \<rightharpoonup> string) option \<Rightarrow> mutation list" where
  "generate_mutations it sha show now schema keys m mappers pub_key source_file_name metadata =
     (let mapped = apply_mappers it m mappers in
      if mapped = Map.empty then []
      else [\<lparr>mu_schema_name = schema, mu_fields = mapped,
             mu_key_value = complete_key (content_hash_from_fields sha show schema mapped) now
               (keys ''hash_field'', keys ''range_field''),
             mu_pub_key = pub_key, mu_type = Create, mu_source_file_name = source_file_name, mu_metadata = metadata\<rparr>])"

definition filter_mappers_by_schema :: "schema_lookup \<Rightarrow> string \<Rightarrow> (string \<rightharpoonup> string) \<Rightarrow> (string \<rightharpoonup> string)" where
  "filter_mappers_by_schema schemas schema mappers =
     (case schemas schema of
        Inr (Some s) \<Rightarrow> (\<lambda>k. case mappers k of Some f \<Rightarrow> if last_segment f \<in> is_runtime_fields s then Some f else None | None \<Rightarrow> None)
      | _ \<Rightarrow> mappers)"

definition generate_mutations_for_item ::
    "(string set \<Rightarrow> string list) \<Rightarrow> ('z, 'n, 'd) chrono \<Rightarrow> (bytes \<Rightarrow> string) \<Rightarrow> (json \<Rightarrow> string) \<Rightarrow> schema_lookup \<Rightarrow> string
     \<Rightarrow> (string \<times> json) list \<Rightarrow> string \<Rightarrow> (string \<rightharpoonup> string) \<Rightarrow> string \<Rightarrow> string option \<Rightarrow> (string \<rightharpoonup> string) option
     \<Rightarrow> ingestion_error + mutation list" where
  "generate_mutations_for_item it ch sha show schemas now kvs schema mappers pub_key source_file_name metadata =
     (let m = flatten_json_object kvs in
      res_bind (extract_key_values_from_data it ch show schemas m schema) (\<lambda>keys.
      Inr (generate_mutations it sha show now schema keys (m(''content_hash'' := None)) mappers pub_key source_file_name metadata)))"

section \<open>Content hashes of records\<close>

definition hash_input :: "(json \<Rightarrow> string) \<Rightarrow> (string \<times> json) list \<Rightarrow> string" where
  "hash_input show kvs =
     (case opt_bind (first_of [map_of kvs ''content'', map_of kvs ''body'']) as_str of
        Some body \<Rightarrow> body
      | None \<Rightarrow> concat (map (\<lambda>k. k @ '':'' @ show (the (map_of kvs k)) @ [CHR 0x0A]) (sort (map fst kvs))))"

text \<open>\<^verbatim>\<open>serde_json::Map::insert\<close>: the map is ordered by key.\<close>

fun object_insert :: "string \<Rightarrow> json \<Rightarrow> (string \<times> json) list \<Rightarrow> (string \<times> json) list" where
  "object_insert k v [] = [(k, v)]"
| "object_insert k v ((k', v') # kvs) =
     (if k = k' then (k, v) # kvs else if k < k' then (k, v) # (k', v') # kvs else (k', v') # object_insert k v kvs)"

lemma map_of_object_insert [simp]: "map_of (object_insert k v kvs) = (map_of kvs)(k \<mapsto> v)"
  by (induction k v kvs rule: object_insert.induct) auto

definition inject_content_hash :: "(bytes \<Rightarrow> string) \<Rightarrow> (json \<Rightarrow> string) \<Rightarrow> (string \<times> json) list \<Rightarrow> (string \<times> json) list" where
  "inject_content_hash sha show kvs =
     object_insert ''content_hash'' (JStr (take 16 (sha (as_bytes (hash_input show kvs))))) kvs"

fun inject_content_hashes :: "(bytes \<Rightarrow> string) \<Rightarrow> (json \<Rightarrow> string) \<Rightarrow> json \<Rightarrow> json" where
  "inject_content_hashes sha show (JArr xs) =
     JArr (map (\<lambda>x. case x of JObj kvs \<Rightarrow> JObj (inject_content_hash sha show kvs) | _ \<Rightarrow> x) xs)"
| "inject_content_hashes sha show (JObj kvs) = JObj (inject_content_hash sha show kvs)"
| "inject_content_hashes sha show v = v"

section \<open>Mappers\<close>

definition mapped_to :: "(string \<rightharpoonup> string) \<Rightarrow> string \<Rightarrow> string" where
  "mapped_to mappers f = last_segment (the (mappers f))"

lemma map_field_cases:
  "map_field m mappers f (r, s) = (case m f of None \<Rightarrow> (r, s) | Some v \<Rightarrow>
     (if s (mapped_to mappers f) = None \<or> f = mapped_to mappers f
      then (r(mapped_to mappers f \<mapsto> v), s(mapped_to mappers f \<mapsto> f)) else (r, s)))"
  by (cases "m f") (auto simp: map_field_def mapped_to_def Let_def)

text \<open>Every result comes from the field that is noted as its source; an identity mapping, once seen, stays.\<close>

definition sources_ok ::
    "(string \<rightharpoonup> json) \<Rightarrow> (string \<rightharpoonup> string) \<Rightarrow> string set \<Rightarrow> (string \<rightharpoonup> json) \<Rightarrow> (string \<rightharpoonup> string) \<Rightarrow> bool" where
  "sources_ok m mappers F r s \<longleftrightarrow>
     dom r = dom s \<and> dom s = mapped_to mappers ` {f \<in> F. m f \<noteq> None} \<and>
     (\<forall>x f. s x = Some f \<longrightarrow> f \<in> F \<and> mapped_to mappers f = x \<and> r x = m f) \<and>
     (\<forall>f \<in> F. m f \<noteq> None \<longrightarrow> mapped_to mappers f = f \<longrightarrow> s f = Some f)"

lemma sources_ok_step:
  assumes ok: "sources_ok m mappers F r s" and step: "map_field m mappers f (r, s) = (r', s')"
  shows "sources_ok m mappers (insert f F) r' s'"
proof -
  let ?x = "mapped_to mappers f"
  note ok' = ok [unfolded sources_ok_def]
  have same: "sources_ok m mappers (insert f F) r s" if old: "m f = None \<or> (s ?x \<noteq> None \<and> f \<noteq> ?x)"
    unfolding sources_ok_def
  proof (intro conjI)
    show "dom r = dom s" using ok' by (rule conjunct1)
    show "dom s = mapped_to mappers ` {g \<in> insert f F. m g \<noteq> None}"
    proof (cases "m f = None")
      case True
      then have "{g \<in> insert f F. m g \<noteq> None} = {g \<in> F. m g \<noteq> None}" by auto
      with ok' show ?thesis by simp
    next
      case False
      then have "{g \<in> insert f F. m g \<noteq> None} = insert f {g \<in> F. m g \<noteq> None}" by auto
      then have "mapped_to mappers ` {g \<in> insert f F. m g \<noteq> None} = insert ?x (dom s)" using ok' by simp
      moreover from False old have "?x \<in> dom s" by (auto simp only: domIff)
      ultimately show ?thesis by (simp only: insert_absorb)
    qed
    show "\<forall>x g. s x = Some g \<longrightarrow> g \<in> insert f F \<and> mapped_to mappers g = x \<and> r x = m g" using ok' by blast
    show "\<forall>g \<in> insert f F. m g \<noteq> None \<longrightarrow> mapped_to mappers g = g \<longrightarrow> s g = Some g"
    proof (intro ballI impI)
      fix g
      assume g: "g \<in> insert f F" "m g \<noteq> None" "mapped_to mappers g = g"
      with old have "g \<in> F" by auto
      with g ok' show "s g = Some g" by blast
    qed
  qed
  show ?thesis
  proof (cases "m f")
    case None
    with same step show ?thesis by (simp add: map_field_cases)
  next
    case (Some v)
    show ?thesis
    proof (cases "s ?x = None \<or> f = ?x")
      case False
      with same step Some show ?thesis by (simp add: map_field_cases)
    next
      case True
      with step Some have rs: "r' = r(?x \<mapsto> v)" "s' = s(?x \<mapsto> f)" by (simp_all add: map_field_cases)
      have "mapped_to mappers ` {g \<in> insert f F. m g \<noteq> None} = insert ?x (mapped_to mappers ` {g \<in> F. m g \<noteq> None})"
        using Some by auto
      then have "dom s' = mapped_to mappers ` {g \<in> insert f F. m g \<noteq> None}" using ok' unfolding rs by simp
      moreover have "dom r' = dom s'" using ok' unfolding rs by simp
      moreover have "g \<in> insert f F \<and> mapped_to mappers g = y \<and> r' y = m g" if "s' y = Some g" for y g
        using that ok' Some unfolding rs by (cases "y = ?x") auto
      moreover have "s' g = Some g" if g: "g \<in> insert f F" "m g \<noteq> None" "mapped_to mappers g = g" for g
      proof (cases "g = f")
        case True
        with g show ?thesis unfolding rs by simp
      next
        case False
        with g ok' have "s g = Some g" by blast
        with True False have "g \<noteq> ?x" by auto
        with \<open>s g = Some g\<close> show ?thesis unfolding rs by simp
      qed
      ultimately show ?thesis unfolding sources_ok_def by blast
    qed
  qed
qed

lemma fold_sources_ok: "sources_ok m mappers F r s \<Longrightarrow> fold (map_field m mappers) ks (r, s) = (r', s') \<Longrightarrow>
    sources_ok m mappers (F \<union> set ks) r' s'"
proof (induction ks arbitrary: F r s)
  case (Cons k ks)
  obtain r1 s1 where "map_field m mappers k (r, s) = (r1, s1)" by (cases "map_field m mappers k (r, s)")
  with Cons.IH [OF sources_ok_step [OF Cons.prems(1)]] Cons.prems(2) show ?case by simp
qed simp

lemma mappers_applied:
  assumes "iteration_order it" "finite (dom mappers)" "mappers \<noteq> Map.empty"
  shows "dom (apply_mappers it m mappers) = mapped_to mappers ` {f \<in> dom mappers. m f \<noteq> None} \<and>
    (\<forall>x v. apply_mappers it m mappers x = Some v \<longrightarrow> (\<exists>f \<in> dom mappers. mapped_to mappers f = x \<and> m f = Some v)) \<and>
    (\<forall>f \<in> dom mappers. mapped_to mappers f = f \<longrightarrow> m f \<noteq> None \<longrightarrow> apply_mappers it m mappers f = m f)"
proof -
  obtain r s where rs: "fold (map_field m mappers) (it (dom mappers)) (Map.empty, Map.empty) = (r, s)"
    by (cases "fold (map_field m mappers) (it (dom mappers)) (Map.empty, Map.empty)")
  have "sources_ok m mappers {} Map.empty Map.empty" by (simp add: sources_ok_def)
  from fold_sources_ok [OF this rs] iteration_orderD(2) [OF assms(1,2)]
  have ok: "sources_ok m mappers (dom mappers) r s" by simp
  have r: "apply_mappers it m mappers = r" using assms(3) rs by (simp add: apply_mappers_def)
  have "\<exists>f \<in> dom mappers. mapped_to mappers f = x \<and> m f = Some v" if "r x = Some v" for x v
  proof -
    have "dom r = dom s" using ok unfolding sources_ok_def by (rule conjunct1)
    with domI [of r x v, OF that] have "x \<in> dom s" by (simp only:)
    then obtain f where "s x = Some f" by blast
    with ok that have "f \<in> dom mappers" "mapped_to mappers f = x" "m f = Some v" unfolding sources_ok_def by metis+
    then show ?thesis by blast
  qed
  moreover have "r f = m f" if "f \<in> dom mappers" "mapped_to mappers f = f" "m f \<noteq> None" for f
    using ok that unfolding sources_ok_def by metis
  moreover have "dom r = mapped_to mappers ` {f \<in> dom mappers. m f \<noteq> None}" using ok unfolding sources_ok_def by simp
  ultimately show ?thesis unfolding r by blast
qed

section \<open>Keys\<close>

lemma complete_key_full: "\<exists>h r. complete_key ch now kv = (Some h, Some r)"
  by (cases kv) (auto simp: complete_key_def Let_def)

lemma complete_key_extracted: "complete_key ch now (Some h, Some r) = (Some h, Some r)"
  by (simp add: complete_key_def)

lemma fallback_key_changes: "now \<noteq> now' \<Longrightarrow> complete_key ch now (None, None) \<noteq> complete_key ch now' (None, None)"
  by (simp add: complete_key_def)

lemma item_keys:
  assumes "generate_mutations_for_item it ch sha show schemas now kvs schema mappers pk src md = Inr ms"
  shows "length ms \<le> 1 \<and> (\<forall>mu \<in> set ms. mu_schema_name mu = schema \<and> mu_type mu = Create \<and> mu_fields mu \<noteq> Map.empty \<and>
    (\<exists>h r. mu_key_value mu = (Some h, Some r)))"
  using assms complete_key_full
  by (auto simp: generate_mutations_for_item_def generate_mutations_def Let_def res_bind_eq_Inr split: if_splits)

lemma item_again:
  assumes "schemas schema = Inr (Some s)" "declared s = {''hash_field'', ''range_field''}"
  shows "generate_mutations_for_item it ch sha show schemas now kvs schema mappers pk src md =
    generate_mutations_for_item it ch sha show schemas now' kvs schema mappers pk src md"
proof (cases "extract_key_values_from_data it ch show schemas (flatten_json_object kvs) schema")
  case (Inr keys)
  with extracted_keys [OF Inr assms(1)] assms(2) have "keys ''hash_field'' \<noteq> None" "keys ''range_field'' \<noteq> None" by blast+
  with Inr show ?thesis
    by (auto simp: generate_mutations_for_item_def generate_mutations_def complete_key_extracted Let_def)
qed (simp add: generate_mutations_for_item_def)

end
