(* ===== verification/Document_Paths.thy ===== *)
theory Document_Paths
  imports Mutation_Generator
begin

text \<open>
  What flattening does to a document: the flattened fields are exactly the scalars and arrays
  reached by walking the document along its keys, each under its dotted path; a schema that
  declares such a path finds its key.
\<close>

section \<open>Leaves\<close>

text \<open>The leaves of a document, by path: everything but objects.\<close>

function (sequential) leaves :: "(string \<times> json) list \<Rightarrow> (string list \<times> json) list" where
  "leaves [] = []"
| "leaves ((k, v) # kvs) =
     (case v of JObj nested \<Rightarrow> map (\<lambda>(p, x). (k # p, x)) (leaves nested) | _ \<Rightarrow> [([k], v)]) @ leaves kvs"
  by pat_completeness auto

termination
  by (relation "measure (\<lambda>kvs. size (JObj kvs))") auto

definition full_path :: "string \<Rightarrow> string list \<Rightarrow> string" where
  "full_path pre p = join ''.'' (if pre = [] then p else pre # p)"

text \<open>Keys that can be told apart when they are joined by dots.\<close>

function (sequential) plain_keys :: "(string \<times> json) list \<Rightarrow> bool" where
  "plain_keys [] = True"
| "plain_keys ((k, v) # kvs) \<longleftrightarrow> k \<noteq> [] \<and> CHR ''.'' \<notin> set k \<and> k \<notin> fst ` set kvs \<and>
     (case v of JObj nested \<Rightarrow> plain_keys nested | _ \<Rightarrow> True) \<and> plain_keys kvs"
  by pat_completeness auto

termination
  by (relation "measure (\<lambda>kvs. size (JObj kvs))") auto

lemma full_path_of: "k \<noteq> [] \<Longrightarrow> p \<noteq> [] \<Longrightarrow> full_path (path_of pre k) p = full_path pre (k # p)"
  by (cases p) (simp_all add: full_path_def path_of_def)

lemma full_path_one: "full_path pre [k] = path_of pre k"
  by (simp add: full_path_def path_of_def)

lemma leaves_path_ne: "(p, v) \<in> set (leaves kvs) \<Longrightarrow> p \<noteq> []"
  by (induction kvs rule: leaves.induct) (auto split: json.splits)

lemma leaves_first: "(p, v) \<in> set (leaves kvs) \<Longrightarrow> hd p \<in> fst ` set kvs"
  by (induction kvs arbitrary: p v rule: leaves.induct) (force split: json.splits)+

lemma leaves_parts: "plain_keys kvs \<Longrightarrow> (p, v) \<in> set (leaves kvs) \<Longrightarrow> w \<in> set p \<Longrightarrow> CHR ''.'' \<notin> set w"
  by (induction kvs arbitrary: p v rule: leaves.induct) (force split: json.splits)+

lemma leaves_distinct: "plain_keys kvs \<Longrightarrow> distinct (map fst (leaves kvs))"
proof (induction kvs rule: leaves.induct)
  case (2 k v kvs)
  let ?here = "case v of JObj nested \<Rightarrow> map (\<lambda>(p, x). (k # p, x)) (leaves nested) | _ \<Rightarrow> [([k], v)]"
  have "map fst (map (\<lambda>(p, x). (k # p, x)) ls) = map ((#) k) (map fst ls)" for ls :: "(string list \<times> json) list"
    by (simp add: case_prod_beta)
  with 2(1,3) have "distinct (map fst ?here)" by (cases v) (simp_all add: distinct_map inj_on_def del: map_map)
  moreover have "distinct (map fst (leaves kvs))" using 2(2,3) by simp
  moreover have "hd p = k" if "p \<in> fst ` set ?here" for p using that by (cases v) auto
  moreover have "hd p \<noteq> k" if "p \<in> fst ` set (leaves kvs)" for p
    using that 2(3) leaves_first by fastforce
  ultimately show ?case by (simp only: leaves.simps map_append distinct_append set_map) blast
qed simp

lemma leaves_walk: "plain_keys kvs \<Longrightarrow> (p, v) \<in> set (leaves kvs) \<longleftrightarrow> p \<noteq> [] \<and> walk_path p (JObj kvs) = Some v \<and> \<not> is_object v"
proof (induction kvs arbitrary: p v rule: leaves.induct)
  case (1 p v)
  then show ?case by (cases p) simp_all
next
  case (2 k x kvs)
  show ?case
  proof (cases p)
    case Nil
    then show ?thesis using leaves_path_ne by blast
  next
    case (Cons w ws)
    have later: "(p, v) \<in> set (leaves kvs) \<longleftrightarrow> w \<noteq> k \<and> walk_path p (JObj ((k, x) # kvs)) = Some v \<and> \<not> is_object v"
    proof (cases "w = k")
      case True
      then show ?thesis using leaves_first [of p v kvs] 2(3) Cons by auto
    next
      case False
      then show ?thesis using 2(2) [of p v] 2(3) Cons by simp
    qed
    have here: "(p, v) \<in> set (case x of JObj nested \<Rightarrow> map (\<lambda>(p, x). (k # p, x)) (leaves nested) | _ \<Rightarrow> [([k], x)]) \<longleftrightarrow>
        w = k \<and> walk_path p (JObj ((k, x) # kvs)) = Some v \<and> \<not> is_object v"
    proof (cases x)
      case (JObj nested)
      have "(ws, v) \<in> set (leaves nested) \<longleftrightarrow> ws \<noteq> [] \<and> walk_path ws (JObj nested) = Some v \<and> \<not> is_object v"
        using 2(1) [OF JObj] 2(3) JObj by simp
      moreover have "(p, v) \<in> set (map (\<lambda>(p, x). (k # p, x)) (leaves nested)) \<longleftrightarrow> w = k \<and> (ws, v) \<in> set (leaves nested)"
        using Cons by force
      ultimately show ?thesis using JObj Cons by (cases ws) auto
    qed (use Cons in \<open>cases ws; auto\<close>)+
    from here later show ?thesis using Cons by auto
  qed
qed

section \<open>Flattening\<close>

lemma flatten_fold:
  "plain_keys kvs \<Longrightarrow> flatten_recursive kvs pre out = fold (\<lambda>a out. out(full_path pre (fst a) \<mapsto> snd a)) (leaves kvs) out"
proof (induction kvs pre out rule: flatten_recursive.induct)
  case (2 key v kvs pre out)
  show ?case
  proof (cases v)
    case (JObj nested)
    have "fold (\<lambda>a out. out(full_path (path_of pre key) (fst a) \<mapsto> snd a)) (leaves nested) out =
        fold (\<lambda>a out. out(full_path pre (fst a) \<mapsto> snd a)) (map (\<lambda>(p, x). (key # p, x)) (leaves nested)) out"
      unfolding fold_map using 2(3) leaves_path_ne
      by (intro fold_cong) (force simp: full_path_of fun_eq_iff)+
    with 2(1) [OF refl, of nested] 2(2) [OF refl] 2(3) JObj show ?thesis
      by (simp add: Let_def del: fun_upd_apply cong del: fold_cong)
  qed (use 2 in \<open>simp_all add: Let_def full_path_one del: fun_upd_apply cong del: fold_cong\<close>)
qed simp

lemma fold_upd_iff:
  "distinct (map g xs) \<Longrightarrow> fold (\<lambda>a out. out(g a \<mapsto> h a)) xs m x = Some v \<longleftrightarrow>
    (\<exists>a \<in> set xs. g a = x \<and> h a = v) \<or> x \<notin> g ` set xs \<and> m x = Some v"
  by (induction xs arbitrary: m) auto

lemma join_dots_inj:
  assumes "p \<noteq> []" "q \<noteq> []" "\<And>w. w \<in> set p \<union> set q \<Longrightarrow> CHR ''.'' \<notin> set w" "join ''.'' p = join ''.'' q"
  shows "p = q"
proof -
  have "split_on (\<lambda>c. c = CHR ''.'') (join ''.'' p) = p" using assms(1,3) by (intro split_on_join) auto
  then have "p = split_on (\<lambda>c. c = CHR ''.'') (join ''.'' q)" unfolding assms(4) by (rule sym)
  also have "\<dots> = q" using assms(2,3) by (intro split_on_join) auto
  finally show ?thesis .
qed

lemma flatten_walk:
  assumes "plain_keys kvs"
  shows "flatten_json_object kvs x = Some v \<longleftrightarrow>
    (\<exists>p. p \<noteq> [] \<and> join ''.'' p = x \<and> walk_path p (JObj kvs) = Some v \<and> \<not> is_object v)"
proof -
  have "inj_on (join ''.'') (set (map fst (leaves kvs)))"
  proof (rule inj_onI)
    fix p q
    assume pq: "p \<in> set (map fst (leaves kvs))" "q \<in> set (map fst (leaves kvs))" "join ''.'' p = join ''.'' q"
    then obtain v u where vu: "(p, v) \<in> set (leaves kvs)" "(q, u) \<in> set (leaves kvs)" by auto
    then have "CHR ''.'' \<notin> set w" if "w \<in> set p \<union> set q" for w
      using that leaves_parts [OF assms] by blast
    with vu [THEN leaves_path_ne] pq(3) show "p = q" by (intro join_dots_inj)
  qed
  then have "distinct (map (\<lambda>a. join ''.'' (fst a)) (leaves kvs))"
    using leaves_distinct [OF assms] by (simp add: distinct_map inj_on_def)
  from fold_upd_iff [OF this, of snd Map.empty x v]
  have "flatten_json_object kvs x = Some v \<longleftrightarrow> (\<exists>p. (p, v) \<in> set (leaves kvs) \<and> join ''.'' p = x)"
    unfolding flatten_json_object_def flatten_fold [OF assms] by (simp add: full_path_def Bex_def)
  with leaves_walk [OF assms] show ?thesis by auto
qed

text \<open>A declared key with a dotted name is found in the flattened document where it is in the document.\<close>

lemma declared_path_found:
  assumes "plain_keys kvs" "p \<noteq> []" "walk_path p (JObj kvs) = Some v" "\<not> is_object v"
  shows "extract_nested_field_value it (flatten_json_object kvs) (join ''.'' p) = Some v"
proof -
  have "flatten_json_object kvs (join ''.'' p) = Some v" using assms flatten_walk by blast
  then show ?thesis by (simp add: extract_nested_field_value_def)
qed

end
