(* ===== verification/Ai_Response.thy ===== *)
theory Ai_Response
  imports Key_Extraction Mutation_Generator
begin

text \<open>
  The second half of \<^verbatim>\<open>src/ingestion/ai/helpers.rs\<close>: finding JSON in the reply of a language
  model, and turning it into a schema proposal with mutation mappers. The JSON parser and
  printer are a parameter. A function that may slice a string inside a character returns an
  option, \<open>None\<close> for the panic.
\<close>

section \<open>Finding JSON in a reply\<close>

text \<open>
  \<open>value_stream\<close> are the results of the streaming parser up to its end, \<open>from_text\<close> and
  \<open>to_text\<close> parse and print a whole document.
\<close>

record serde =
  value_stream :: "string \<Rightarrow> (string + json) list"
  from_text :: "string \<Rightarrow> string + json"
  to_text :: "json \<Rightarrow> string + string"
  value_text :: "json \<Rightarrow> string"

definition serde_ok :: "serde \<Rightarrow> bool" where
  "serde_ok J \<longleftrightarrow> (\<forall>v s. to_text J v = Inr s \<longrightarrow> from_text J s = Inr v)"

fun first_ok :: "('e + 'a) list \<Rightarrow> 'a option" where
  "first_ok [] = None"
| "first_ok (Inr x # _) = Some x"
| "first_ok (Inl _ # xs) = first_ok xs"

definition text_to_parse :: "string \<Rightarrow> string" where
  "text_to_parse response =
     (case split_once ''```json'' response of
        Some (_, tail) \<Rightarrow> (case split_once ''```'' tail of Some (body, _) \<Rightarrow> body | None \<Rightarrow> tail)
      | None \<Rightarrow>
          (if CHR ''{'' \<in> set response \<or> CHR ''['' \<in> set response
           then dropWhile (\<lambda>c. c \<noteq> CHR ''{'' \<and> c \<noteq> CHR ''['') response else response))"

text \<open>From the first opening to the last closing bracket, when they come in that order.\<close>

definition bracketed :: "char \<Rightarrow> char \<Rightarrow> string \<Rightarrow> string option" where
  "bracketed op cl s =
     (if op \<in> set s \<and> cl \<in> set s then
        (let start = length (takeWhile (\<lambda>c. c \<noteq> op) s);
             last_at = length s - 1 - length (takeWhile (\<lambda>c. c \<noteq> cl) (rev s)) in
         if start < last_at then Some (take (last_at + 1 - start) (drop start s)) else None)
      else None)"

definition bracket_candidates :: "string \<Rightarrow> string list" where
  "bracket_candidates s =
     List.map_filter (\<lambda>(op, cl). bracketed op cl s) [(CHR ''{'', CHR ''}''), (CHR ''['', CHR '']'')]"

definition reply_preview :: "string \<Rightarrow> string option" where
  "reply_preview s = (if utf8_len s > 200 then map_option (\<lambda>p. p @ ''...'') (byte_prefix 200 s) else Some s)"

definition extract_json_from_response :: "serde \<Rightarrow> string \<Rightarrow> (ingestion_error + string) option" where
  "extract_json_from_response J response =
     (case first_ok (value_stream J (text_to_parse response)) of
        Some v \<Rightarrow> Some (map_err (\<lambda>e. AIResponseValidationError (''Failed to serialize extracted JSON: '' @ e)) (to_text J v))
      | None \<Rightarrow>
          (case find (\<lambda>c. \<not> isl (from_text J c)) (bracket_candidates response) of
             Some c \<Rightarrow> Some (Inr c)
           | None \<Rightarrow> map_option (\<lambda>p. Inl (AIResponseValidationError (''Could not extract valid JSON from AI response: '' @ p)))
               (reply_preview response)))"

section \<open>Validation\<close>

record ai_schema_response =
  new_schemas :: "json option"
  mutation_mappers :: "string \<rightharpoonup> string"

definition descriptive_name_of :: "json \<Rightarrow> string option" where
  "descriptive_name_of v = opt_bind (json_get ''descriptive_name'' v) as_str"

definition validate_schema_has_descriptive_name :: "json \<Rightarrow> ingestion_error + unit" where
  "validate_schema_has_descriptive_name v =
     (if \<not> is_object v then Inl (AIResponseValidationError ''Schema must be a JSON object'')
      else if (case descriptive_name_of v of Some s \<Rightarrow> trim s | None \<Rightarrow> []) = [] then
        Inl (AIResponseValidationError
          (''Schema must have a non-empty '' @ quoted ''descriptive_name'' @
           ''. ALWAYS include \"descriptive_name\": a clear, human-readable description.''))
      else Inr ())"

definition validate_schema_has_classifications :: "json \<Rightarrow> ingestion_error + unit" where
  "validate_schema_has_classifications v =
     (if is_object v then Inr () else Inl (AIResponseValidationError ''Schema must be a JSON object''))"

definition validate_schema :: "json \<Rightarrow> ingestion_error + unit" where
  "validate_schema v = res_bind (validate_schema_has_descriptive_name v) (\<lambda>_. validate_schema_has_classifications v)"

fun validate_schemas :: "json list \<Rightarrow> ingestion_error + unit" where
  "validate_schemas [] = Inr ()"
| "validate_schemas (v # vs) = res_bind (validate_schema v) (\<lambda>_. validate_schemas vs)"

section \<open>Sanitizing\<close>

fun flatten_value_to_string :: "(json \<Rightarrow> string) \<Rightarrow> json \<Rightarrow> string option" where
  "flatten_value_to_string show (JStr s) = Some s"
| "flatten_value_to_string show (JObj kvs) = first_of (map (as_str \<circ> snd) kvs)"
| "flatten_value_to_string show (JArr xs) =
     (let strings = List.map_filter as_str xs in if strings = [] then None else Some (join '', '' strings))"
| "flatten_value_to_string show JNull = None"
| "flatten_value_to_string show (JBool b) = Some (if b then ''true'' else ''false'')"
| "flatten_value_to_string show v = Some (show v)"

text \<open>A value in the place of a string: flattened when it can be, left otherwise.\<close>

definition stringify :: "(json \<Rightarrow> string) \<Rightarrow> json \<Rightarrow> json" where
  "stringify show v = (case flatten_value_to_string show v of Some s \<Rightarrow> JStr s | None \<Rightarrow> v)"

definition update_entry :: "string \<Rightarrow> (json \<Rightarrow> json) \<Rightarrow> (string \<times> json) list \<Rightarrow> (string \<times> json) list" where
  "update_entry k f kvs = map (\<lambda>(k', v). (k', if k' = k then f v else v)) kvs"

definition STRING_MAP_FIELDS :: "string list" where
  "STRING_MAP_FIELDS = [''field_descriptions'', ''field_interest_categories'', ''ref_fields'', ''transform_fields'']"

definition TOP_LEVEL_STRING_FIELDS :: "string list" where
  "TOP_LEVEL_STRING_FIELDS = [''name'', ''descriptive_name'']"

fun sanitize_map :: "(json \<Rightarrow> string) \<Rightarrow> json \<Rightarrow> json" where
  "sanitize_map show (JObj kvs) = JObj (map (\<lambda>(k, v). (k, stringify show v)) kvs)"
| "sanitize_map show v = v"

fun sanitize_key :: "(json \<Rightarrow> string) \<Rightarrow> json \<Rightarrow> json" where
  "sanitize_key show (JObj kvs) =
     JObj (update_entry ''range_field'' (stringify show) (update_entry ''hash_field'' (stringify show) kvs))"
| "sanitize_key show v = v"

definition drop_malformed_key :: "(string \<times> json) list \<Rightarrow> (string \<times> json) list" where
  "drop_malformed_key kvs =
     (case map_of kvs ''key'' of
        Some v \<Rightarrow> if is_object v \<or> v = JNull then kvs else filter (\<lambda>(k, _). k \<noteq> ''key'') kvs
      | None \<Rightarrow> kvs)"

definition sanitize_entries :: "(json \<Rightarrow> string) \<Rightarrow> (string \<times> json) list \<Rightarrow> (string \<times> json) list" where
  "sanitize_entries show kvs =
     (let kvs = fold (\<lambda>f. update_entry f (sanitize_map show)) STRING_MAP_FIELDS kvs;
          kvs = fold (\<lambda>f. update_entry f (stringify show)) TOP_LEVEL_STRING_FIELDS kvs in
      update_entry ''key'' (sanitize_key show) (drop_malformed_key kvs))"

fun sanitize_string_map_fields :: "(json \<Rightarrow> string) \<Rightarrow> json \<Rightarrow> json" where
  "sanitize_string_map_fields show (JObj kvs) = JObj (sanitize_entries show kvs)"
| "sanitize_string_map_fields show v = v"

section \<open>Mappers\<close>

definition backfill_step :: "string set \<Rightarrow> string \<Rightarrow> json \<Rightarrow> (string \<rightharpoonup> string) \<Rightarrow> (string \<rightharpoonup> string)" where
  "backfill_step mapped_targets sname field_val mappers =
     (case as_str field_val of
        Some f \<Rightarrow>
          (if f \<notin> mapped_targets \<and> mappers f = None
           then mappers(f \<mapsto> (if sname = [] then f else sname @ ''.'' @ f)) else mappers)
      | None \<Rightarrow> mappers)"

definition schema_fields :: "json \<Rightarrow> json list option" where
  "schema_fields v = opt_bind (json_get ''fields'' v) as_array"

definition backfill_missing_mappers :: "(string \<rightharpoonup> string) \<Rightarrow> json option \<Rightarrow> (string \<rightharpoonup> string)" where
  "backfill_missing_mappers mappers schema =
     (case opt_bind schema schema_fields of
        None \<Rightarrow> mappers
      | Some fs \<Rightarrow>
          fold (backfill_step (last_segment ` ran mappers)
            (case opt_bind (json_get ''name'' (the schema)) as_str of Some n \<Rightarrow> n | None \<Rightarrow> [])) fs mappers)"

section \<open>The proposal\<close>

text \<open>A model may wrap the schema in a one-element array, or in an object with one key.\<close>

definition unwrap_array :: "json option \<Rightarrow> ingestion_error + json option" where
  "unwrap_array v =
     (case v of
        Some (JArr [x]) \<Rightarrow> Inr (Some x)
      | Some (JArr (x # y # zs)) \<Rightarrow> Inl (AIResponseValidationError
          (''new_schemas array contains '' @ show_nat (length (x # y # zs)) @ '' schemas, expected 1''))
      | _ \<Rightarrow> Inr v)"

definition unwrap_named :: "json option \<Rightarrow> json option" where
  "unwrap_named v =
     (case v of
        Some (JObj [(k, inner)]) \<Rightarrow>
          (if is_object inner \<and> (json_get ''name'' inner \<noteq> None \<or> json_get ''fields'' inner \<noteq> None) then Some inner else v)
      | _ \<Rightarrow> v)"

definition validate_new_schemas :: "(json \<Rightarrow> string) \<Rightarrow> json option \<Rightarrow> ingestion_error + unit" where
  "validate_new_schemas show v =
     (case v of
        None \<Rightarrow> Inr ()
      | Some (JArr schemas) \<Rightarrow> validate_schemas schemas
      | Some (JObj kvs) \<Rightarrow> validate_schema (JObj kvs)
      | Some other \<Rightarrow> Inl (AIResponseValidationError (''new_schemas must be an object or array, got: '' @ show other)))"

definition parse_mutation_mappers :: "(string \<times> json) list \<Rightarrow> ingestion_error + (string \<rightharpoonup> string)" where
  "parse_mutation_mappers kvs =
     (case map_of kvs ''mutation_mappers'' of
        Some (JObj m) \<Rightarrow> Inr (\<lambda>k. opt_bind (map_of m k) as_str)
      | Some JNull \<Rightarrow> Inr Map.empty
      | None \<Rightarrow> Inr Map.empty
      | _ \<Rightarrow> Inl (AIResponseValidationError ''mutation_mappers must be an object with string values''))"

definition validate_and_convert_response :: "(json \<Rightarrow> string) \<Rightarrow> json \<Rightarrow> ingestion_error + ai_schema_response" where
  "validate_and_convert_response show parsed =
     (case as_object parsed of
        None \<Rightarrow> Inl (AIResponseValidationError ''Response must be a JSON object'')
      | Some kvs \<Rightarrow>
          res_bind (unwrap_array (case map_of kvs ''new_schemas'' of Some v \<Rightarrow> if v = JNull then None else Some v | None \<Rightarrow> None))
            (\<lambda>schema. let schema = unwrap_named schema in
          res_bind (validate_new_schemas show schema) (\<lambda>_.
          res_bind (parse_mutation_mappers kvs) (\<lambda>mappers.
          Inr \<lparr>new_schemas = map_option (sanitize_string_map_fields show) schema,
               mutation_mappers = backfill_missing_mappers mappers schema\<rparr>))))"

definition parse_ai_response :: "serde \<Rightarrow> string \<Rightarrow> (ingestion_error + ai_schema_response) option" where
  "parse_ai_response J response =
     map_option (\<lambda>r. res_bind r (\<lambda>s.
       res_bind (map_err (\<lambda>e. AIResponseValidationError
           (''Failed to parse AI response as JSON: '' @ e @ ''. Response: '' @ s)) (from_text J s))
         (validate_and_convert_response (value_text J))))
       (extract_json_from_response J response)"

section \<open>What extraction returns\<close>

lemma find_ok: "find P xs = Some x \<Longrightarrow> P x"
  by (auto simp: find_Some_iff)

lemma extracted_parses:
  assumes "serde_ok J" "extract_json_from_response J response = Some (Inr s)"
  shows "\<exists>v. from_text J s = Inr v"
proof (cases "first_ok (value_stream J (text_to_parse response))")
  case (Some v)
  with assms(2) have "to_text J v = Inr s" by (auto simp: extract_json_from_response_def map_err_def split: sum.splits)
  with assms(1) show ?thesis by (auto simp: serde_ok_def)
next
  case None
  show ?thesis
  proof (cases "find (\<lambda>c. \<not> isl (from_text J c)) (bracket_candidates response)")
    case (Some c)
    from find_ok [OF Some] assms(2) None Some show ?thesis
      by (auto simp: extract_json_from_response_def isl_def split: sum.splits) (metis sum.exhaust)
  qed (use None assms(2) in \<open>auto simp: extract_json_from_response_def\<close>)
qed

lemma extraction_returns:
  "ascii response \<or> utf8_len response \<le> 200 \<Longrightarrow> extract_json_from_response J response \<noteq> None"
  by (auto simp: extract_json_from_response_def reply_preview_def ascii_len ascii_prefix split: option.splits)

lemma extraction_panics:
  assumes "first_ok (value_stream J (text_to_parse response)) = None"
    "\<forall>c \<in> set (bracket_candidates response). isl (from_text J c)"
    "response = p @ c # q" "utf8_len p = 199" "\<not> ascii [c]"
  shows "extract_json_from_response J response = None"
proof -
  have "find (\<lambda>c. \<not> isl (from_text J c)) (bracket_candidates response) = None"
    using assms(2) by (auto simp: find_None_iff)
  moreover have "reply_preview response = None"
    using truncate_panics [OF assms(4,5), of q] assms(3) by (simp add: reply_preview_def truncate_body_def)
  ultimately show ?thesis using assms(1) by (simp add: extract_json_from_response_def)
qed

section \<open>What sanitizing does\<close>

lemma stringify_idem [simp]: "stringify show (stringify show v) = stringify show v"
  by (auto simp: stringify_def split: option.split)

lemma stringify_string [simp]: "stringify show (JStr s) = JStr s"
  by (simp add: stringify_def)

lemma update_entry_alt: "update_entry k f = map (\<lambda>(k', v). (k', (if k' = k then f else id) v))"
  by (auto simp: update_entry_def fun_eq_iff)

lemma map_of_update_entry: "map_of (update_entry k f kvs) k' = map_option (if k' = k then f else id) (map_of kvs k')"
  by (induction kvs) (auto simp: update_entry_def)

definition entry_fix :: "(json \<Rightarrow> string) \<Rightarrow> string \<Rightarrow> json \<Rightarrow> json" where
  "entry_fix show k =
     (if k \<in> set STRING_MAP_FIELDS then sanitize_map show
      else if k \<in> set TOP_LEVEL_STRING_FIELDS then stringify show
      else if k = ''key'' then sanitize_key show else id)"

lemma sanitize_map_idem [simp]: "sanitize_map show (sanitize_map show v) = sanitize_map show v"
  by (cases v) (simp_all add: case_prod_beta)

lemma sanitize_key_idem [simp]: "sanitize_key show (sanitize_key show v) = sanitize_key show v"
  by (cases v) (simp_all add: update_entry_alt case_prod_beta)

lemma entry_fix_idem [simp]: "entry_fix show k (entry_fix show k v) = entry_fix show k v"
  by (simp add: entry_fix_def)

lemma sanitize_entries_alt:
  "sanitize_entries show kvs = map (\<lambda>(k, v). (k, entry_fix show k v)) (drop_malformed_key kvs)"
proof -
  let ?u = "fold (\<lambda>f. update_entry f (stringify show)) TOP_LEVEL_STRING_FIELDS
    (fold (\<lambda>f. update_entry f (sanitize_map show)) STRING_MAP_FIELDS kvs)"
  have u: "?u = map (\<lambda>(k, v). (k, (if k = ''key'' then id else entry_fix show k) v)) kvs"
    by (simp add: update_entry_alt entry_fix_def STRING_MAP_FIELDS_def TOP_LEVEL_STRING_FIELDS_def case_prod_beta)
  have same: "map_of ?u ''key'' = map_of kvs ''key''"
    by (simp add: STRING_MAP_FIELDS_def TOP_LEVEL_STRING_FIELDS_def map_of_update_entry option.map_id)
  have "update_entry ''key'' (sanitize_key show) (map (\<lambda>(k, v). (k, (if k = ''key'' then id else entry_fix show k) v)) xs) =
      map (\<lambda>(k, v). (k, entry_fix show k v)) xs" for xs
    by (auto simp: update_entry_alt entry_fix_def STRING_MAP_FIELDS_def TOP_LEVEL_STRING_FIELDS_def)
  moreover have "filter (\<lambda>(k, _). k \<noteq> ''key'') ?u =
      map (\<lambda>(k, v). (k, (if k = ''key'' then id else entry_fix show k) v)) (filter (\<lambda>(k, _). k \<noteq> ''key'') kvs)"
    unfolding u by (auto simp: filter_map intro!: arg_cong [where f = "map _"] filter_cong)
  ultimately show ?thesis
    unfolding sanitize_entries_def Let_def drop_malformed_key_def same
    using u by (auto split: option.split)
qed

lemma map_of_map_entry: "map_of (map (\<lambda>(k, v). (k, f k v)) kvs) k = map_option (f k) (map_of kvs k)"
  by (induction kvs) auto

lemma drop_malformed_fixed:
  "drop_malformed_key (map (\<lambda>(k, v). (k, entry_fix show k v)) (drop_malformed_key kvs)) =
     map (\<lambda>(k, v). (k, entry_fix show k v)) (drop_malformed_key kvs)"
proof (cases "map_of kvs ''key''")
  case (Some v)
  have fix_key: "entry_fix show ''key'' = sanitize_key show"
    by (simp add: entry_fix_def STRING_MAP_FIELDS_def TOP_LEVEL_STRING_FIELDS_def)
  show ?thesis
  proof (cases "is_object v \<or> v = JNull")
    case True
    then have "is_object (sanitize_key show v) \<or> sanitize_key show v = JNull" by (cases v) auto
    with True Some show ?thesis by (simp add: drop_malformed_key_def map_of_map_entry fix_key)
  next
    case False
    have "map_of (filter (\<lambda>(k, _). k \<noteq> ''key'') kvs) ''key'' = None" by (induction kvs) auto
    with False Some show ?thesis by (simp add: drop_malformed_key_def map_of_map_entry)
  qed
qed (simp add: drop_malformed_key_def map_of_map_entry)

lemma sanitize_idem:
  "sanitize_string_map_fields show (sanitize_string_map_fields show v) = sanitize_string_map_fields show v"
  by (cases v) (simp_all add: sanitize_entries_alt drop_malformed_fixed case_prod_beta)

lemma sanitize_get:
  "k \<noteq> ''key'' \<Longrightarrow> json_get k (sanitize_string_map_fields show v) = map_option (entry_fix show k) (json_get k v)"
proof (cases v)
  case (JObj kvs)
  assume "k \<noteq> ''key''"
  then have "map_of (filter (\<lambda>(k, _). k \<noteq> ''key'') xs) k = map_of xs k" for xs
    by (induction xs) auto
  then have "map_of (drop_malformed_key kvs) k = map_of kvs k"
    by (auto simp: drop_malformed_key_def split: option.splits)
  with JObj show ?thesis by (simp add: sanitize_entries_alt map_of_map_entry)
qed simp_all

section \<open>What is accepted\<close>

lemma accepted_shape:
  assumes "validate_and_convert_response show v = Inr r" "new_schemas r = Some s"
  shows "sanitize_string_map_fields show s = s \<and>
    (is_object s \<and> (\<exists>n. descriptive_name_of s = Some n \<and> trim n \<noteq> []) \<or> (\<exists>xs. s = JArr xs))"
proof -
  from assms obtain s0 where s0: "validate_new_schemas show (Some s0) = Inr ()" "s = sanitize_string_map_fields show s0"
    by (auto simp: validate_and_convert_response_def res_bind_eq_Inr Let_def split: option.splits)
  show ?thesis
  proof (cases s0)
    case (JObj kvs)
    with s0(1) obtain n where n: "descriptive_name_of s0 = Some n" "trim n \<noteq> []"
      by (auto simp: validate_new_schemas_def validate_schema_def validate_schema_has_descriptive_name_def res_bind_eq_Inr
          trim_def split: if_splits option.splits)
    then have "json_get ''descriptive_name'' s0 = Some (JStr n)"
      by (auto simp: descriptive_name_of_def opt_bind_def elim: as_str.elims split: option.splits)
    then have "descriptive_name_of s = Some n"
      by (simp add: s0(2) descriptive_name_of_def sanitize_get entry_fix_def STRING_MAP_FIELDS_def TOP_LEVEL_STRING_FIELDS_def)
    with n(2) JObj show ?thesis by (simp add: s0(2) sanitize_idem del: sanitize_string_map_fields.simps) (simp add: JObj)
  qed (use s0 in \<open>auto simp: validate_new_schemas_def\<close>)
qed

lemma split_on_append_at: "p x \<Longrightarrow> split_on p (a @ x # b) = split_on p a @ split_on p b"
  by (induction a) (auto split: list.split)

lemma split_dotless: "CHR ''.'' \<notin> set f \<Longrightarrow> split_on (\<lambda>c. c = CHR ''.'') f = [f]"
  by (rule split_on_free) auto

lemma last_segment_plain: "CHR ''.'' \<notin> set f \<Longrightarrow> last_segment f = f"
  by (simp add: last_segment_def split_dotless)

lemma last_segment_qualified: "CHR ''.'' \<notin> set f \<Longrightarrow> last_segment (n @ ''.'' @ f) = f"
  by (simp add: last_segment_def split_on_append_at split_dotless)

lemma backfill_fold:
  defines "target \<equiv> \<lambda>n f. if n = [] then f else n @ ''.'' @ f"
  shows "m \<subseteq>\<^sub>m fold (backfill_step T n) fs m \<and>
    (\<forall>f. JStr f \<in> set fs \<longrightarrow> f \<in> T \<or> fold (backfill_step T n) fs m f \<noteq> None) \<and>
    (\<forall>k t. fold (backfill_step T n) fs m k = Some t \<longrightarrow> m k = None \<longrightarrow> t = target n k)"
proof (induction fs arbitrary: m)
  case (Cons x fs)
  let ?m = "backfill_step T n x m"
  have keep: "m \<subseteq>\<^sub>m ?m" by (auto simp: backfill_step_def map_le_def split: option.split)
  have here: "f \<in> T \<or> ?m f \<noteq> None" if "x = JStr f" for f
    using that by (simp add: backfill_step_def)
  have new: "t = target n k" if "?m k = Some t" "m k = None" for k t
    using that by (auto simp: backfill_step_def target_def split: option.splits if_splits)
  note IH = Cons.IH [of ?m]
  let ?r = "fold (backfill_step T n) (x # fs) m"
  have r: "?r = fold (backfill_step T n) fs ?m" by simp
  have "m \<subseteq>\<^sub>m ?r" unfolding r using keep IH map_le_trans by blast
  moreover have "f \<in> T \<or> ?r f \<noteq> None" if "JStr f \<in> set (x # fs)" for f
  proof (cases "JStr f \<in> set fs")
    case True
    then show ?thesis unfolding r using IH by blast
  next
    case False
    with that have "f \<in> T \<or> f \<in> dom ?m" using here by auto
    moreover have "dom ?m \<subseteq> dom ?r" unfolding r using IH map_le_implies_dom_le by blast
    ultimately show ?thesis by blast
  qed
  moreover have "t = target n k" if "?r k = Some t" "m k = None" for k t
  proof (cases "?m k")
    case None
    with that IH show ?thesis unfolding r by blast
  next
    case (Some u)
    with IH have "?r k = Some u" unfolding r map_le_def by (metis domI)
    with Some that new show ?thesis by simp
  qed
  ultimately show ?case by blast
qed simp

lemma backfilled:
  assumes "schema_fields s = Some fs" "JStr f \<in> set fs" "CHR ''.'' \<notin> set f" "mappers f = None"
  shows "\<exists>k t. backfill_missing_mappers mappers (Some s) k = Some t \<and> last_segment t = f"
proof -
  let ?n = "case opt_bind (json_get ''name'' s) as_str of Some n \<Rightarrow> n | None \<Rightarrow> []"
  let ?r = "fold (backfill_step (last_segment ` ran mappers) ?n) fs mappers"
  have r: "backfill_missing_mappers mappers (Some s) = ?r" using assms(1) by (simp add: backfill_missing_mappers_def)
  note spec = backfill_fold [of mappers "last_segment ` ran mappers" ?n fs]
  show ?thesis
  proof (cases "f \<in> last_segment ` ran mappers")
    case True
    then obtain k t where kt: "mappers k = Some t" "last_segment t = f" by (auto simp: ran_def)
    moreover have "?r k = Some t" using spec kt(1) unfolding map_le_def by (metis domI)
    ultimately show ?thesis unfolding r by blast
  next
    case False
    with spec assms(2) obtain t where t: "?r f = Some t" by blast
    then have "t = (if ?n = [] then f else ?n @ ''.'' @ f)" using spec assms(4) by blast
    then have "last_segment t = f" using assms(3) by (simp add: last_segment_plain last_segment_qualified del: append_Cons)
    with t show ?thesis unfolding r by blast
  qed
qed

text \<open>A declared field with a dot in its name gets a mapper that leads elsewhere.\<close>

lemma dotted_field_renamed:
  "backfill_missing_mappers Map.empty (Some (JObj [(''fields'', JArr [JStr ''profile.age'']), (''name'', JStr ''People'')])) =
     [''profile.age'' \<mapsto> ''People.profile.age''] \<and> last_segment ''People.profile.age'' = ''age''"
  by (simp add: backfill_missing_mappers_def schema_fields_def backfill_step_def last_segment_def)

end
