(* ===== verification/Ai_Prompts.thy ===== *)
theory Ai_Prompts
  imports Ai_Response
begin

text \<open>
  The first half of \<^verbatim>\<open>src/ingestion/ai/helpers.rs\<close> and \<^verbatim>\<open>src/ingestion/ai/known_schemas.rs\<close>: the
  prompt a language model is sent for a document, and the retries of a call. The fixed texts
  of the prompt are constants of another crate and a parameter, as is the printer of JSON.
\<close>

section \<open>Known schemas\<close>

record known_schema =
  ks_descriptive_name :: string
  ks_summary :: string
  ks_fields :: "string list"

definition KNOWN_SCHEMAS :: "known_schema list" where
  "KNOWN_SCHEMAS =
     [\<lparr>ks_descriptive_name = ''Contacts'',
       ks_summary = ''A single contact card -- one person or organization with their direct identifiers.'',
       ks_fields = [''name'', ''email'', ''phone'', ''address'', ''birthday'', ''relationship'', ''notes'']\<rparr>,
      \<lparr>ks_descriptive_name = ''CalendarEvent'',
       ks_summary = ''A calendar event or meeting with attendees.'',
       ks_fields = [''title'', ''start_at'', ''end_at'', ''attendees'', ''location'', ''description'']\<rparr>,
      \<lparr>ks_descriptive_name = ''EmailHeader'',
       ks_summary = ''Metadata for a single email -- sender, recipients, subject, timestamps.'',
       ks_fields = [''message_id'', ''from'', ''to'', ''cc'', ''subject'', ''sent_at'', ''body_preview'']\<rparr>]"

definition nl :: string where "nl = [CHR 0x0A]"

definition render_for_prompt :: "known_schema list \<Rightarrow> string" where
  "render_for_prompt schemas =
     (if schemas = [] then []
      else nl @ nl @ ''EXISTING SCHEMAS -- match against these by exact descriptive_name when the data fits:'' @ nl @
        concat (map (\<lambda>s. ''  - '' @ ks_descriptive_name s @ '': '' @ ks_summary s @
          '' (fields: '' @ join '', '' (ks_fields s) @ '')'' @ nl) schemas) @
        nl @ ''If the input data is a reasonable fit for one of the schemas above, you MUST use that EXACT '' @
        ''descriptive_name (case-sensitive). Only propose a NEW descriptive_name when none of the above is a fit.'' @ nl)"

section \<open>The prompt\<close>

definition MAX_PROMPT_FIELD_CHARS :: nat where "MAX_PROMPT_FIELD_CHARS = 300"

definition MAX_CONTENT_HINT_CHARS :: nat where "MAX_CONTENT_HINT_CHARS = 500"

function (sequential) truncate_long_strings :: "json \<Rightarrow> json" where
  "truncate_long_strings (JStr s) =
     JStr (if utf8_len s > MAX_PROMPT_FIELD_CHARS then take MAX_PROMPT_FIELD_CHARS s @ ''...'' else s)"
| "truncate_long_strings (JObj kvs) = JObj (map (\<lambda>(k, v). (k, truncate_long_strings v)) kvs)"
| "truncate_long_strings (JArr xs) = JArr (map truncate_long_strings xs)"
| "truncate_long_strings v = v"
  by pat_completeness auto

termination
proof (relation "measure size")
  show "wf (measure (size :: json \<Rightarrow> nat))" by simp
next
  fix kvs :: "(string \<times> json) list" and x k v
  assume "x \<in> set kvs" "(k, v) = x"
  then show "(v, JObj kvs) \<in> measure size" by (induction kvs) auto
next
  fix xs :: "json list" and x
  assume "x \<in> set xs"
  then show "(x, JArr xs) \<in> measure size" by (induction xs) auto
qed

record prompt_texts =
  PROMPT_HEADER :: string
  PROMPT_ACTIONS :: string
  to_pretty :: "json \<Rightarrow> string + string"

definition pretty_json :: "prompt_texts \<Rightarrow> json \<Rightarrow> string" where
  "pretty_json P v = (case to_pretty P v of Inr s \<Rightarrow> s | Inl _ \<Rightarrow> ''Invalid JSON'')"

definition hint_object :: "json \<Rightarrow> (string \<times> json) list option" where
  "hint_object v =
     (case as_array v of
        Some arr \<Rightarrow> (case arr of x # _ \<Rightarrow> as_object x | [] \<Rightarrow> None)
      | None \<Rightarrow> as_object v)"

definition content_preview :: "string \<Rightarrow> string" where
  "content_preview content = take MAX_CONTENT_HINT_CHARS content @ (if length content > MAX_CONTENT_HINT_CHARS then ''...'' else [])"

definition hint_text :: "(string \<times> json) list \<Rightarrow> string \<Rightarrow> string" where
  "hint_text obj content =
     (let field = (\<lambda>k. opt_bind (map_of obj k) as_str);
          source = opt_bind (first_of [map_of obj ''source_file'', map_of obj ''source'']) as_str in
      nl @ nl @ ''CONTENT PREVIEW (use this to determine the schema name topic):'' @ nl @ ''\"'' @ content_preview content @ ''\"'' @
      (case field ''category'' of Some c \<Rightarrow> nl @ ''Category hint: \"'' @ c @ ''\"'' | None \<Rightarrow> []) @
      (case source of Some s \<Rightarrow> nl @ ''Source file: \"'' @ s @ ''\"'' | None \<Rightarrow> []) @
      nl @ nl @ ''Name the schema based on the CONTENT TOPIC above (e.g., \"recipes\", \"journal_entries\", '' @
      ''\"medical_records\"), NOT based on the data format.'')"

definition hint_content :: "(string \<times> json) list \<Rightarrow> string option" where
  "hint_content obj =
     (if map_of obj ''file_type'' = None then None
      else opt_bind (first_of [map_of obj ''content'', map_of obj ''markdown'']) as_str)"

definition extract_content_hint :: "json \<Rightarrow> string option" where
  "extract_content_hint v =
     opt_bind (hint_object v) (\<lambda>obj. map_option (hint_text obj) (hint_content obj))"

definition array_note :: "bool \<Rightarrow> string" where
  "array_note is_array_input =
     (if is_array_input then nl @ nl @
        ''IMPORTANT: The user provided a JSON ARRAY of multiple objects. You MUST create a Range schema with a '' @
        ''range_key to store multiple entities.''
      else [])"

definition create_prompt :: "prompt_texts \<Rightarrow> json \<Rightarrow> bool \<Rightarrow> json option \<Rightarrow> string" where
  "create_prompt P sample is_array_input original_json =
     (let content_hint = (case opt_bind original_json extract_content_hint of Some h \<Rightarrow> h | None \<Rightarrow> []) in
      PROMPT_HEADER P @ render_for_prompt KNOWN_SCHEMAS @ nl @ nl @ ''Sample JSON Data:'' @ nl @ pretty_json P sample @
      array_note is_array_input @ content_hint @ nl @ nl @ PROMPT_ACTIONS P)"

text \<open>The skeleton as the JSON object it is sent as, ordered by path.\<close>

definition skeleton_json :: "json \<Rightarrow> json" where
  "skeleton_json data =
     (let m = extract_structure_skeleton data in JObj (map (\<lambda>k. (k, JStr (the (m k)))) (sorted_list_of_set (dom m))))"

definition analyze_and_build_prompt :: "prompt_texts \<Rightarrow> json \<Rightarrow> ingestion_error + string" where
  "analyze_and_build_prompt P sample =
     (if sample = JArr [] then Inl (AIResponseValidationError ''Cannot determine schema from empty JSON array'')
      else Inr (create_prompt P (skeleton_json sample) (as_array sample \<noteq> None) (Some (truncate_long_strings sample))))"

section \<open>Retries of a call\<close>

fun retry_from ::
    "(nat \<Rightarrow> 's \<Rightarrow> 's) \<Rightarrow> ('s \<Rightarrow> (ingestion_error + string) \<times> 's) \<Rightarrow> nat \<Rightarrow> nat list \<Rightarrow> ingestion_error \<Rightarrow> 's
     \<Rightarrow> (ingestion_error + string) \<times> 's" where
  "retry_from wait call max_retries [] last_error s = (Inl last_error, s)"
| "retry_from wait call max_retries (attempt # attempts) last_error s =
     (case call s of
        (Inr response, s') \<Rightarrow> (Inr response, s')
      | (Inl e, s') \<Rightarrow>
          retry_from wait call max_retries attempts e (if attempt < max_retries then wait (2 ^ (attempt - 1)) s' else s'))"

definition call_with_retries ::
    "(nat \<Rightarrow> 's \<Rightarrow> 's) \<Rightarrow> nat \<Rightarrow> ingestion_error \<Rightarrow> ('s \<Rightarrow> (ingestion_error + string) \<times> 's) \<Rightarrow> 's \<Rightarrow> (ingestion_error + string) \<times> 's" where
  "call_with_retries wait max_retries fallback call s = retry_from wait call max_retries [1..<max_retries + 1] fallback s"

section \<open>What a prompt shows\<close>

text \<open>
  Without a content hint the prompt is made from the skeleton alone: two documents with the
  same skeleton get the same prompt.
\<close>

lemma prompt_from_skeleton:
  assumes "extract_structure_skeleton d = extract_structure_skeleton d'" "as_array d \<noteq> None \<longleftrightarrow> as_array d' \<noteq> None"
    "d \<noteq> JArr []" "d' \<noteq> JArr []"
    "extract_content_hint (truncate_long_strings d) = None" "extract_content_hint (truncate_long_strings d') = None"
  shows "analyze_and_build_prompt P d = analyze_and_build_prompt P d'"
  using assms by (simp add: analyze_and_build_prompt_def create_prompt_def skeleton_json_def)

lemma hint_needs_file_type:
  assumes "hint_object d = Some kvs" "map_of kvs ''file_type'' = None"
  shows "extract_content_hint (truncate_long_strings d) = None"
proof -
  have trunc: "map_of (map (\<lambda>(k, v). (k, truncate_long_strings v)) xs) k = map_option truncate_long_strings (map_of xs k)"
    for xs :: "(string \<times> json) list" and k by (induction xs) auto
  have "as_object (truncate_long_strings x) = map_option (map (\<lambda>(k, v). (k, truncate_long_strings v))) (as_object x)" for x
    by (cases x) simp_all
  then have "hint_object (truncate_long_strings d) = Some (map (\<lambda>(k, v). (k, truncate_long_strings v)) kvs)"
    using assms(1) by (cases d) (auto simp: hint_object_def split: list.splits)
  then show ?thesis using assms(2) by (simp add: extract_content_hint_def hint_content_def trunc)
qed

text \<open>
  The document is cut before the hint is taken from it, so the preview never reaches its own,
  larger limit.
\<close>

lemma truncated_length: "as_str (truncate_long_strings v) = Some s \<Longrightarrow> length s \<le> MAX_PROMPT_FIELD_CHARS + 3"
proof (cases v)
  case (JStr t)
  assume s: "as_str (truncate_long_strings v) = Some s"
  have "length t \<le> utf8_len t" by (induction t) (simp_all add: char_width_def)
  with s JStr show ?thesis by (auto split: if_splits)
qed simp_all

lemma preview_never_cut:
  assumes "hint_object (truncate_long_strings d) = Some obj" "hint_content obj = Some content"
  shows "length content \<le> MAX_PROMPT_FIELD_CHARS + 3 \<and> content_preview content = content"
proof -
  have trunc: "map_of (map (\<lambda>(k, v). (k, truncate_long_strings v)) xs) k = map_option truncate_long_strings (map_of xs k)"
    for xs :: "(string \<times> json) list" and k by (induction xs) auto
  have obj: "as_object (truncate_long_strings x) = map_option (map (\<lambda>(k, v). (k, truncate_long_strings v))) (as_object x)" for x
    by (cases x) simp_all
  from assms(1) obj obtain kvs where "obj = map (\<lambda>(k, v). (k, truncate_long_strings v)) kvs"
    by (cases d) (auto simp: hint_object_def split: list.splits)
  with assms(2) obtain w where w: "as_str w = Some content"
    "first_of [map_option truncate_long_strings (map_of kvs ''content''),
       map_option truncate_long_strings (map_of kvs ''markdown'')] = Some w"
    by (auto simp: hint_content_def trunc opt_bind_def split: if_splits option.splits)
  from first_of_in [OF w(2)] obtain v where "w = truncate_long_strings v"
    by (auto dest: sym [of "Some w"] simp: map_option_eq_Some)
  with w(1) have "as_str (truncate_long_strings v) = Some content" by simp
  from truncated_length [OF this] show ?thesis
    by (simp add: content_preview_def MAX_PROMPT_FIELD_CHARS_def MAX_CONTENT_HINT_CHARS_def)
qed

text \<open>A text of few characters but many bytes is marked as cut, and nothing is cut.\<close>

lemma short_text_marked:
  assumes "length s \<le> MAX_PROMPT_FIELD_CHARS" "utf8_len s > MAX_PROMPT_FIELD_CHARS"
  shows "truncate_long_strings (JStr s) = JStr (s @ ''...'')"
  using assms by simp

text \<open>A call is made at most as often as it may be retried, and its first success is the answer.\<close>

lemma retry_calls:
  assumes "\<And>s. fst (call s) = reply (snd s)" "\<And>s. snd (snd (call s)) = Suc (snd s)" "\<And>n s. snd (wait n s) = snd s"
  shows "snd s \<le> snd (snd (retry_from wait call m ns e s)) \<and> snd (snd (retry_from wait call m ns e s)) \<le> snd s + length ns \<and>
    (case fst (retry_from wait call m ns e s) of
       Inr r \<Rightarrow> reply (snd (snd (retry_from wait call m ns e s)) - 1) = Inr r
     | Inl _ \<Rightarrow> snd (snd (retry_from wait call m ns e s)) = snd s + length ns)"
proof (induction ns arbitrary: e s)
  case (Cons n ns)
  obtain r s' where c: "call s = (r, s')" by (cases "call s")
  with assms(1,2) [of s] have r: "r = reply (snd s)" and s': "snd s' = Suc (snd s)" by simp_all
  show ?case
  proof (cases r)
    case (Inr x)
    then have step: "retry_from wait call m (n # ns) e s = (Inr x, s')" using c by simp
    have "reply (snd s) = Inr x" using r Inr by simp
    then show ?thesis unfolding step using s' by simp
  next
    case (Inl x)
    let ?s = "if n < m then wait (2 ^ (n - 1)) s' else s'"
    have s1: "snd ?s = Suc (snd s)" using s' assms(3) by simp
    have step: "retry_from wait call m (n # ns) e s = retry_from wait call m ns x ?s" using c Inl by simp
    show ?thesis unfolding step using Cons.IH [of ?s x, unfolded s1] by (auto split: sum.splits)
  qed
qed simp

end
