(* ===== verification/Ai_Calls.thy ===== *)
theory Ai_Calls
  imports Ai_Prompts
begin

text \<open>
  \<^verbatim>\<open>src/ingestion/ingestion_service/ai_methods.rs\<close>: the proposal of a schema by a language model,
  retried with the error of the rejected reply, and the second call for missing field
  descriptions. The backend, the clock and the sleeping task act on a state \<open>'s\<close>; \<open>None\<close> as a
  result is a panic of the task.
\<close>

record 's ai_service =
  ai_backend :: "(string \<Rightarrow> 's \<Rightarrow> (ingestion_error + string) \<times> 's) option"
  ai_init_error :: "string option"
  ai_provider :: string
  ai_max_retries :: nat
  ai_timeout_seconds :: nat
  ai_clock :: "'s \<Rightarrow> nat"
  ai_sleep :: "'s \<Rightarrow> 's"
  ai_serde :: serde
  ai_texts :: prompt_texts
  FIELD_DESCRIPTIONS_PROMPT :: string
  show_names :: "string list \<Rightarrow> string"

definition call_ai_raw :: "'s ai_service \<Rightarrow> string \<Rightarrow> 's \<Rightarrow> (ingestion_error + string) \<times> 's" where
  "call_ai_raw A prompt s =
     (case ai_backend A of
        None \<Rightarrow> (Inl (ConfigurationError (ai_provider A @ '' backend not initialized ('' @
          (case ai_init_error A of Some e \<Rightarrow> e | None \<Rightarrow> ''unknown reason'') @ '')'')), s)
      | Some call \<Rightarrow> call prompt s)"

text \<open>
  The backends of \<^verbatim>\<open>src/ingestion/ai/client.rs\<close>: each call sends its request again after a failure,
  up to \<open>max_retries\<close> times in all. \<open>request\<close> is one request over the network, \<open>wait\<close> the back-off. The
  metrics around a call only count it.
\<close>

definition ollama_call ::
    "(nat \<Rightarrow> 's \<Rightarrow> 's) \<Rightarrow> nat \<Rightarrow> (string \<Rightarrow> 's \<Rightarrow> (ingestion_error + string) \<times> 's) \<Rightarrow> string \<Rightarrow> 's \<Rightarrow> (ingestion_error + string) \<times> 's" where
  "ollama_call wait max_retries request prompt s =
     call_with_retries wait max_retries (OllamaError ''All API attempts failed'') (request prompt) s"

definition anthropic_call ::
    "(nat \<Rightarrow> 's \<Rightarrow> 's) \<Rightarrow> nat \<Rightarrow> (string \<Rightarrow> 's \<Rightarrow> (ingestion_error + string) \<times> 's) \<Rightarrow> string \<Rightarrow> 's \<Rightarrow> (ingestion_error + string) \<times> 's" where
  "anthropic_call wait max_retries request prompt s =
     call_with_retries wait max_retries (ConfigurationError ''All Anthropic API attempts failed'') (request prompt) s"

section \<open>A recommendation\<close>

definition retry_prompt :: "string \<Rightarrow> nat \<Rightarrow> ingestion_error option \<Rightarrow> string" where
  "retry_prompt base attempt last_error =
     (case last_error of
        Some e \<Rightarrow>
          (if attempt > 1 then base @ nl @ nl @ ''Your previous response was rejected: '' @ display_ingestion_error e @ ''. Fix this issue.''
           else base)
      | None \<Rightarrow> base)"

fun recommend ::
    "'s ai_service \<Rightarrow> string \<Rightarrow> nat \<Rightarrow> nat \<Rightarrow> nat list \<Rightarrow> ingestion_error option \<Rightarrow> 's
     \<Rightarrow> (ingestion_error + ai_schema_response) option \<times> 's" where
  "recommend A base deadline attempts [] last_error s =
     (Some (Inl (case last_error of Some e \<Rightarrow> e
        | None \<Rightarrow> AIResponseValidationError ''All AI attempts returned invalid responses'')), s)"
| "recommend A base deadline attempts (attempt # rest) last_error s =
     (if ai_clock A s > deadline then
        (Some (Inl (AIResponseValidationError (''AI recommendation deadline exceeded ('' @ show_nat (ai_timeout_seconds A) @
          ''s) after '' @ show_nat (attempt - 1) @ '' attempts''))), s)
      else
        (case call_ai_raw A (retry_prompt base attempt last_error) s of
           (Inl e, s) \<Rightarrow> (Some (Inl e), s)
         | (Inr raw, s) \<Rightarrow>
             (case parse_ai_response (ai_serde A) raw of
                None \<Rightarrow> (None, s)
              | Some (Inr response) \<Rightarrow> (Some (Inr response), s)
              | Some (Inl e) \<Rightarrow>
                  recommend A base deadline attempts rest (Some e) (if attempt < attempts then ai_sleep A s else s))))"

definition get_ai_recommendation :: "'s ai_service \<Rightarrow> json \<Rightarrow> 's \<Rightarrow> (ingestion_error + ai_schema_response) option \<times> 's" where
  "get_ai_recommendation A data s =
     (case analyze_and_build_prompt (ai_texts A) data of
        Inl e \<Rightarrow> (Some (Inl e), s)
      | Inr base \<Rightarrow>
          (let attempts = min 3 (max 1 (ai_max_retries A)) in
           recommend A base (ai_clock A s + ai_timeout_seconds A) attempts [1..<attempts + 1] None s))"

section \<open>Field descriptions\<close>

text \<open>\<^verbatim>\<open>str::replace\<close>.\<close>

function replace_all :: "string \<Rightarrow> string \<Rightarrow> string \<Rightarrow> string" where
  "replace_all from into s =
     (if from = [] then s
      else case s of
        [] \<Rightarrow> []
      | c # cs \<Rightarrow>
          (case strip_prefix from s of
             Some rest \<Rightarrow> into @ replace_all from into rest
           | None \<Rightarrow> c # replace_all from into cs))"
  by pat_completeness auto

termination
  by (relation "measure (\<lambda>(_, _, s). length s)") (auto simp: strip_prefix_Some)

declare replace_all.simps [simp del]

definition declared_names :: "json \<Rightarrow> string list" where
  "declared_names schema = (case schema_fields schema of Some fs \<Rightarrow> List.map_filter as_str fs | None \<Rightarrow> [])"

definition existing_descriptions :: "json \<Rightarrow> (string \<times> json) list" where
  "existing_descriptions schema =
     (case opt_bind (json_get ''field_descriptions'' schema) as_object of Some kvs \<Rightarrow> kvs | None \<Rightarrow> [])"

definition missing_names :: "json \<Rightarrow> string list" where
  "missing_names schema = filter (\<lambda>f. f \<notin> fst ` set (existing_descriptions schema)) (declared_names schema)"

definition descriptions_prompt :: "'s ai_service \<Rightarrow> json \<Rightarrow> string list \<Rightarrow> string" where
  "descriptions_prompt A data missing =
     (let raw_sample = (case as_array data of Some xs \<Rightarrow> JArr (take 2 xs) | None \<Rightarrow> data);
          sample = (case to_pretty (ai_texts A) (truncate_long_strings raw_sample) of Inr s \<Rightarrow> s | Inl _ \<Rightarrow> []) in
      replace_all ''{fields}'' (show_names A missing) (replace_all ''{sample}'' sample (FIELD_DESCRIPTIONS_PROMPT A)))"

definition or_insert :: "string \<Rightarrow> json \<Rightarrow> (string \<times> json) list \<Rightarrow> (string \<times> json) list" where
  "or_insert k v kvs = (if map_of kvs k = None then object_insert k v kvs else kvs)"

definition add_descriptions :: "(string \<times> json) list \<Rightarrow> json \<Rightarrow> json" where
  "add_descriptions descriptions fd =
     (case fd of
        JObj kvs \<Rightarrow> JObj (fold (\<lambda>(k, v). if as_str v \<noteq> None then or_insert k v else id) descriptions kvs)
      | _ \<Rightarrow> fd)"

definition backfill_descriptions :: "(string \<times> json) list \<Rightarrow> (string \<times> json) list \<Rightarrow> (string \<times> json) list" where
  "backfill_descriptions descriptions schema =
     update_entry ''field_descriptions'' (add_descriptions descriptions) (or_insert ''field_descriptions'' (JObj []) schema)"

definition fill_missing_field_descriptions ::
    "'s ai_service \<Rightarrow> ai_schema_response \<Rightarrow> json \<Rightarrow> 's \<Rightarrow> (ingestion_error + ai_schema_response) option \<times> 's" where
  "fill_missing_field_descriptions A response data s =
     (case new_schemas response of
        None \<Rightarrow> (Some (Inr response), s)
      | Some schema \<Rightarrow>
          (if missing_names schema = [] then (Some (Inr response), s)
           else
             (case call_ai_raw A (descriptions_prompt A data (missing_names schema)) s of
                (Inl e, s) \<Rightarrow> (Some (Inr response), s)
              | (Inr raw, s) \<Rightarrow>
                  (case extract_json_from_response (ai_serde A) raw of
                     None \<Rightarrow> (None, s)
                   | Some (Inl e) \<Rightarrow> (Some (Inr response), s)
                   | Some (Inr text) \<Rightarrow>
                       (case from_text (ai_serde A) text of
                          Inr (JObj descriptions) \<Rightarrow>
                            (case as_object schema of
                               None \<Rightarrow> (Some (Inl (AIResponseValidationError
                                 ''new_schemas must be a JSON object to backfill field_descriptions'')), s)
                             | Some kvs \<Rightarrow>
                                 (Some (Inr (response\<lparr>new_schemas := Some (JObj (backfill_descriptions descriptions kvs))\<rparr>)), s))
                        | _ \<Rightarrow> (Some (Inr response), s))))))"

section \<open>What a recommendation is\<close>

text \<open>
  At most three backend calls are made, each of at most \<open>ai_max_retries\<close> requests: the first of the
  bare prompt and each further one of the prompt with the error of the reply before it. What is
  returned was accepted by the validation.
\<close>

definition asked_with :: "string \<Rightarrow> string \<Rightarrow> bool" where
  "asked_with base prompt \<longleftrightarrow> prefix base prompt"

lemma retry_prompt_prefix: "asked_with base (retry_prompt base attempt e)"
  by (simp add: asked_with_def retry_prompt_def split: option.split)

lemma recommend_result:
  "fst (recommend A base deadline m ns e s) = Some (Inr r) \<Longrightarrow> \<exists>raw. parse_ai_response (ai_serde A) raw = Some (Inr r)"
  by (induction A base deadline m ns e s rule: recommend.induct)
    (auto split: prod.splits sum.splits option.splits if_splits)

lemma accepted_parse:
  assumes "parse_ai_response J raw = Some (Inr r)"
  shows "\<exists>v. validate_and_convert_response (value_text J) v = Inr r"
  using assms by (auto simp: parse_ai_response_def res_bind_eq_Inr)

lemma recommendation_accepted:
  assumes "fst (get_ai_recommendation A data s) = Some (Inr r)"
  shows "\<exists>v. validate_and_convert_response (value_text (ai_serde A)) v = Inr r"
proof -
  from assms obtain raw where "parse_ai_response (ai_serde A) raw = Some (Inr r)"
    unfolding get_ai_recommendation_def Let_def
    by (auto split: sum.splits dest: recommend_result)
  then show ?thesis by (rule accepted_parse)
qed

text \<open>The requests a backend call makes, when each is noted in the state.\<close>

lemma retries_noted:
  assumes "\<And>s. calls (snd (call s)) = calls s @ [p]" "\<And>n s. calls (wait n s) = calls s"
  shows "\<exists>n \<le> length ns. calls (snd (retry_from wait call m ns e s)) = calls s @ replicate n p"
proof (induction ns arbitrary: e s)
  case (Cons a ns)
  obtain r s' where c: "call s = (r, s')" by (cases "call s")
  with assms(1) [of s] have one: "calls s' = calls s @ [p]" by simp
  show ?case
  proof (cases r)
    case (Inr x)
    with c one show ?thesis by (intro exI [of _ 1]) simp
  next
    case (Inl e')
    let ?s = "if a < m then wait (2 ^ (a - 1)) s' else s'"
    have "calls ?s = calls s @ [p]" using assms(2) one by simp
    moreover obtain n where "n \<le> length ns" "calls (snd (retry_from wait call m ns e' ?s)) = calls ?s @ replicate n p"
      using Cons.IH by blast
    ultimately show ?thesis using c Inl by (intro exI [of _ "Suc n"]) simp
  qed
qed simp

definition requests_noted :: "('s \<Rightarrow> string list) \<Rightarrow> 's ai_service \<Rightarrow> bool" where
  "requests_noted calls A \<longleftrightarrow>
     (\<exists>wait request. (\<forall>p s. calls (snd (request p s)) = calls s @ [p]) \<and> (\<forall>n s. calls (wait n s) = calls s) \<and>
        (\<forall>s. calls (ai_sleep A s) = calls s) \<and>
        ai_backend A \<in> {Some (ollama_call wait (ai_max_retries A) request), Some (anthropic_call wait (ai_max_retries A) request)})"

lemma call_noted:
  assumes "requests_noted calls A"
  shows "\<exists>n \<le> ai_max_retries A. calls (snd (call_ai_raw A prompt s)) = calls s @ replicate n prompt"
proof -
  from assms obtain wait request where
    r: "\<And>p s. calls (snd (request p s)) = calls s @ [p]" "\<And>n s. calls (wait n s) = calls s" and
    b: "ai_backend A \<in> {Some (ollama_call wait (ai_max_retries A) request), Some (anthropic_call wait (ai_max_retries A) request)}"
    by (auto simp: requests_noted_def)
  obtain fallback where "call_ai_raw A prompt s =
      retry_from wait (request prompt) (ai_max_retries A) [1..<ai_max_retries A + 1] fallback s"
    using b by (auto simp: call_ai_raw_def ollama_call_def anthropic_call_def call_with_retries_def)
  with retries_noted [of calls "request prompt" prompt wait "[1..<ai_max_retries A + 1]" "ai_max_retries A" fallback s] r
  show ?thesis by (simp del: upt_Suc)
qed

lemma recommend_calls:
  assumes n: "requests_noted calls A"
  shows "\<exists>ps. calls (snd (recommend A base deadline m ns e s)) = calls s @ ps \<and> length ps \<le> length ns * ai_max_retries A \<and>
    (\<forall>p \<in> set ps. asked_with base p)"
proof (induction ns arbitrary: e s)
  case (Cons attempt ns)
  let ?p = "retry_prompt base attempt e"
  obtain r s1 where c: "call_ai_raw A ?p s = (r, s1)" by (cases "call_ai_raw A ?p s")
  with call_noted [OF n, of ?p s] obtain k where k: "k \<le> ai_max_retries A" "calls s1 = calls s @ replicate k ?p" by auto
  define ps where "ps = replicate k ?p"
  have ps: "calls s1 = calls s @ ps" by (simp add: ps_def k(2))
  have fine: "length ps \<le> ai_max_retries A" "\<forall>p \<in> set ps. asked_with base p"
    using k(1) retry_prompt_prefix by (auto simp: ps_def)
  have sleep: "calls (if attempt < m then ai_sleep A s1 else s1) = calls s1" using n by (auto simp: requests_noted_def)
  consider "ai_clock A s > deadline"
    | "snd (recommend A base deadline m (attempt # ns) e s) = s1" "\<not> ai_clock A s > deadline"
    | e' where "recommend A base deadline m (attempt # ns) e s =
        recommend A base deadline m ns (Some e') (if attempt < m then ai_sleep A s1 else s1)"
  proof -
    have step: "recommend A base deadline m (attempt # ns) e s =
        (case r of Inl e \<Rightarrow> (Some (Inl e), s1)
         | Inr raw \<Rightarrow>
             (case parse_ai_response (ai_serde A) raw of
                None \<Rightarrow> (None, s1)
              | Some (Inr response) \<Rightarrow> (Some (Inr response), s1)
              | Some (Inl e) \<Rightarrow> recommend A base deadline m ns (Some e) (if attempt < m then ai_sleep A s1 else s1)))"
      if "\<not> ai_clock A s > deadline" using that c by simp
    show thesis
    proof (cases "ai_clock A s > deadline")
      case False
      note step = step [OF False]
      show thesis
      proof (cases r)
        case (Inl x)
        with step False that(2) show thesis by (simp del: recommend.simps)
      next
        case (Inr raw)
        show thesis
        proof (cases "parse_ai_response (ai_serde A) raw")
          case None
          with step False Inr that(2) show thesis by (simp del: recommend.simps)
        next
          case (Some y)
          with step False Inr that(2,3) show thesis by (cases y) (simp_all del: recommend.simps)
        qed
      qed
    qed (rule that(1))
  qed
  then show ?case
  proof cases
    case 1
    then show ?thesis by simp
  next
    case 2
    with ps fine show ?thesis by (intro exI [of _ ps]) (simp del: recommend.simps)
  next
    case (3 e')
    from Cons.IH [of "Some e'" "if attempt < m then ai_sleep A s1 else s1", unfolded sleep] obtain qs where
      "calls (snd (recommend A base deadline m (attempt # ns) e s)) = calls s @ ps @ qs" "length qs \<le> length ns * ai_max_retries A"
      "\<forall>p \<in> set qs. asked_with base p"
      unfolding 3 ps by auto
    with fine show ?thesis by (intro exI [of _ "ps @ qs"]) auto
  qed
qed simp

lemma recommendation_calls:
  assumes "requests_noted calls A" "analyze_and_build_prompt (ai_texts A) data = Inr base"
  shows "\<exists>ps. calls (snd (get_ai_recommendation A data s)) = calls s @ ps \<and>
    length ps \<le> min 3 (max 1 (ai_max_retries A)) * ai_max_retries A \<and> (\<forall>p \<in> set ps. asked_with base p)"
proof -
  let ?m = "min 3 (max 1 (ai_max_retries A))"
  have "length [1..<?m + 1] = ?m" by simp
  with recommend_calls [OF assms(1), of base "ai_clock A s + ai_timeout_seconds A" ?m "[1..<?m + 1]" None s]
  show ?thesis using assms(2) by (simp add: get_ai_recommendation_def Let_def del: upt_Suc)
qed

section \<open>What the second call changes\<close>

lemma or_insert_get: "map_of (or_insert k v kvs) k' = (if k' = k \<and> map_of kvs k = None then Some v else map_of kvs k')"
  by (simp add: or_insert_def)

lemma added_descriptions:
  "map_of kvs \<subseteq>\<^sub>m map_of (fold (\<lambda>(k, v). if as_str v \<noteq> None then or_insert k v else id) ds kvs) \<and>
   (\<forall>k v. map_of (fold (\<lambda>(k, v). if as_str v \<noteq> None then or_insert k v else id) ds kvs) k = Some v \<longrightarrow>
      map_of kvs k = None \<longrightarrow> (\<exists>t. v = JStr t))"
proof (induction ds arbitrary: kvs)
  case (Cons d ds)
  obtain k v where d: "d = (k, v)" by (cases d)
  let ?kvs = "if as_str v \<noteq> None then or_insert k v kvs else kvs"
  let ?r = "fold (\<lambda>(k, v). if as_str v \<noteq> None then or_insert k v else id) (d # ds) kvs"
  have r: "?r = fold (\<lambda>(k, v). if as_str v \<noteq> None then or_insert k v else id) ds ?kvs" by (simp add: d)
  have keep: "map_of kvs \<subseteq>\<^sub>m map_of ?kvs" by (auto simp: map_le_def or_insert_get)
  have new: "\<exists>t. w = JStr t" if "map_of ?kvs x = Some w" "map_of kvs x = None" for x w
    using that by (cases v) (auto simp: or_insert_get split: if_splits)
  note IH = Cons.IH [of ?kvs]
  have "map_of kvs \<subseteq>\<^sub>m map_of ?r" unfolding r using keep IH map_le_trans by blast
  moreover have "\<exists>t. w = JStr t" if "map_of ?r x = Some w" "map_of kvs x = None" for x w
  proof (cases "map_of ?kvs x")
    case None
    with that IH show ?thesis unfolding r by blast
  next
    case (Some u)
    from Some have "x \<in> dom (map_of ?kvs)" by (rule domI)
    from bspec [OF conjunct1 [OF IH, unfolded map_le_def] this] have "map_of ?kvs x = map_of ?r x" unfolding r .
    with that(1) Some have "u = w" by (simp only: option.inject)
    with new [OF Some that(2)] show ?thesis by blast
  qed
  ultimately show ?case by blast
qed simp

lemma backfilled_schema:
  "k \<noteq> ''field_descriptions'' \<Longrightarrow> map_of (backfill_descriptions ds kvs) k = map_of kvs k"
  by (simp add: backfill_descriptions_def map_of_update_entry or_insert_get option.map_id)

lemma fill_keeps:
  assumes "fst (fill_missing_field_descriptions A response data s) = Some (Inr r)" "new_schemas response = Some (JObj kvs)"
  shows "mutation_mappers r = mutation_mappers response \<and>
    (\<exists>kvs'. new_schemas r = Some (JObj kvs') \<and> (\<forall>k. k \<noteq> ''field_descriptions'' \<longrightarrow> map_of kvs' k = map_of kvs k) \<and>
      map_of (existing_descriptions (JObj kvs)) \<subseteq>\<^sub>m map_of (existing_descriptions (JObj kvs')))"
proof -
  from assms consider "r = response"
    | ds where "r = response\<lparr>new_schemas := Some (JObj (backfill_descriptions ds kvs))\<rparr>"
    by (auto simp: fill_missing_field_descriptions_def split: if_splits prod.splits sum.splits option.splits json.splits)
  then show ?thesis
  proof cases
    case 1
    with assms(2) show ?thesis by simp
  next
    case (2 ds)
    have "map_of (existing_descriptions (JObj kvs)) \<subseteq>\<^sub>m map_of (existing_descriptions (JObj (backfill_descriptions ds kvs)))"
    proof (cases "map_of kvs ''field_descriptions''")
      case None
      then show ?thesis by (simp add: existing_descriptions_def)
    next
      case (Some fd)
      show ?thesis
      proof (cases fd)
        case (JObj fkvs)
        have "existing_descriptions (JObj (backfill_descriptions ds kvs)) =
            fold (\<lambda>(k, v). if as_str v \<noteq> None then or_insert k v else id) ds fkvs"
          by (simp add: existing_descriptions_def backfill_descriptions_def map_of_update_entry or_insert_get
              add_descriptions_def Some JObj)
        moreover have "existing_descriptions (JObj kvs) = fkvs" by (simp add: existing_descriptions_def Some JObj)
        ultimately show ?thesis using added_descriptions by simp
      qed (simp_all add: existing_descriptions_def Some)
    qed
    with 2 backfilled_schema show ?thesis by auto
  qed
qed

section \<open>Examples\<close>

text \<open>A backend that notes its prompts and never answers with JSON, dates taken as they are, a schema with both keys.\<close>

definition empty_serde :: serde where
  "empty_serde = \<lparr>value_stream = \<lambda>_. [], from_text = \<lambda>_. Inl ''no JSON'', to_text = \<lambda>_. Inl ''no JSON'', value_text = \<lambda>_. []\<rparr>"

definition stub_ai :: "string list ai_service" where
  "stub_ai = \<lparr>ai_backend = Some (\<lambda>p s. (Inr ''none'', s @ [p])), ai_init_error = None, ai_provider = ''Ollama'', ai_max_retries = 3,
     ai_timeout_seconds = 60, ai_clock = length, ai_sleep = \<lambda>s. s, ai_serde = empty_serde,
     ai_texts = \<lparr>PROMPT_HEADER = ''h'', PROMPT_ACTIONS = ''a'', to_pretty = \<lambda>_. Inr ''json''\<rparr>,
     FIELD_DESCRIPTIONS_PROMPT = ''{sample} {fields}'', show_names = concat\<rparr>"

text \<open>A model that fails once, then proposes a schema; the state lists the requests.\<close>

definition notes_proposal :: json where
  "notes_proposal = JObj [(''new_schemas'', JObj [(''name'', JStr ''notes''), (''descriptive_name'', JStr ''Notes'')])]"

definition proposing_serde :: serde where
  "proposing_serde = \<lparr>value_stream = \<lambda>_. [Inr notes_proposal], from_text = \<lambda>_. Inr notes_proposal, to_text = \<lambda>_. Inr ''p'',
     value_text = \<lambda>_. []\<rparr>"

definition flaky_request :: "string \<Rightarrow> string list \<Rightarrow> (ingestion_error + string) \<times> string list" where
  "flaky_request p s = (if s = [] then Inl (HttpError ''refused'') else Inr ''{}'', s @ [p])"

definition proposing_ai :: "string list ai_service" where
  "proposing_ai = stub_ai\<lparr>ai_backend := Some (ollama_call (\<lambda>_ s. s) 3 flaky_request), ai_serde := proposing_serde\<rparr>"

lemma proposing_requests: "requests_noted (\<lambda>s. s) proposing_ai"
  by (auto simp: requests_noted_def proposing_ai_def stub_ai_def flaky_request_def intro!: exI [of _ "\<lambda>_ s. s"] exI [of _ flaky_request])

lemma proposing_call: "call_ai_raw proposing_ai p [] = (Inr ''{}'', [p, p])"
  by (simp add: call_ai_raw_def proposing_ai_def ollama_call_def call_with_retries_def flaky_request_def upt_rec)

lemma proposing_parse:
  "parse_ai_response proposing_serde raw = Some (Inr \<lparr>new_schemas = Some (JObj [(''name'', JStr ''notes''), (''descriptive_name'', JStr ''Notes'')]),
     mutation_mappers = Map.empty\<rparr>)"
  by (simp add: parse_ai_response_def extract_json_from_response_def proposing_serde_def notes_proposal_def
      validate_and_convert_response_def unwrap_array_def unwrap_named_def validate_new_schemas_def validate_schema_def
      validate_schema_has_descriptive_name_def validate_schema_has_classifications_def descriptive_name_of_def trim_def
      parse_mutation_mappers_def backfill_missing_mappers_def schema_fields_def sanitize_entries_def update_entry_def
      drop_malformed_key_def STRING_MAP_FIELDS_def TOP_LEVEL_STRING_FIELDS_def map_err_def stringify_def is_whitespace_def Let_def char_code_def)

definition plain_chrono :: "(string, string, string) chrono" where
  "plain_chrono = \<lparr>parse_from_rfc3339 = \<lambda>_. None, parse_from_rfc2822 = \<lambda>_. None, parse_offset = \<lambda>_ _. None,
     parse_naive = \<lambda>s _. Some s, parse_date = \<lambda>_ _. None, format_offset = \<lambda>s _. s, format_naive = \<lambda>s _. s,
     format_date = \<lambda>s _. s\<rparr>"

definition day_schemas :: schema_lookup where
  "day_schemas = (\<lambda>_. Inr (Some \<lparr>is_key = Some \<lparr>kd_hash_field = Some ''who'', kd_range_field = Some ''day''\<rparr>,
     is_runtime_fields = {''who'', ''day''}\<rparr>))"

end
