(* ===== verification/Stored_Graph.thy ===== *)
theory Stored_Graph
  imports Ingest_Store Components
begin

text \<open>
  The graph the sweep reads from the record store: on a well-formed store it has the edges
  and rows of the records, it is consistent at every edge it lists, and where every edge is
  listed it is complete; these are the hypotheses of the results of \<open>Components\<close>.
\<close>

definition stored_graph :: "'d fp_node \<Rightarrow> 'd \<Rightarrow> fp_graph" where
  "stored_graph nd d = \<lparr>
     g_ids = (case load_all_fingerprint_ids nd d of Inr ids \<Rightarrow> ids | Inl _ \<Rightarrow> []),
     g_exists = (\<lambda>fp. fingerprint_exists (env_at nd d) fp = Inr True),
     g_edges = (\<lambda>fp. case sg_edge_ids_touching nd d fp of Inr es \<Rightarrow> es | Inl _ \<Rightarrow> []),
     g_edge = (\<lambda>e. case fetch_edge_endpoints nd d e of
        Inr (Some (a, b, k, w)) \<Rightarrow> Some \<lparr>edge_rid = e, edge_a = a, edge_b = b, edge_kind = k, edge_weight = w\<rparr>
      | _ \<Rightarrow> None),
     g_mentions = (\<lambda>fp. case mention_ids_touching (env_at nd d) fp of Inr ms \<Rightarrow> ms | Inl _ \<Rightarrow> [])\<rparr>"

text \<open>No query fails, and the registry knows the graph's schemas.\<close>

definition reads_succeed :: "'d fp_node \<Rightarrow> 'd \<Rightarrow> bool" where
  "reads_succeed nd d \<longleftrightarrow> (\<forall>q. \<exists>rs. query_db nd d q = Inr rs) \<and>
     (\<exists>s. lookup_name (registry nd) (EDGE nd) = Inr s) \<and>
     (\<exists>s. lookup_name (registry nd) (EDGE_BY_FINGERPRINT nd) = Inr s)"

lemma sg_graph_stored:
  assumes "reads_succeed nd d"
  shows "sg_graph nd d (stored_graph nd d)"
proof -
  obtain se sj where s: "lookup_name (registry nd) (EDGE nd) = Inr se" "lookup_name (registry nd) (EDGE_BY_FINGERPRINT nd) = Inr sj"
    using assms by (auto simp: reads_succeed_def)
  have q: "\<exists>rs. query_db nd d x = Inr rs" for x using assms by (simp add: reads_succeed_def)
  have "\<exists>es. sg_edge_ids_touching nd d fp = Inr es" for fp
    using q [of "key_query sj [''edge_id''] fp"] s(2) by (auto simp: sg_edge_ids_touching_def canonical_lookup_def)
  moreover have "\<exists>ed. fetch_edge_endpoints nd d e = Inr ed" for e
    using q [of "key_query se [''a'', ''b'', ''kind'', ''weight''] e"] s(1)
    by (auto simp: fetch_edge_endpoints_def canonical_lookup_def)
  ultimately have "sg_edge_ids_touching nd d fp = Inr (g_edges (stored_graph nd d) fp)"
    "fetch_edge_endpoints nd d e = Inr (map_option (\<lambda>ed. (edge_a ed, edge_b ed, edge_kind ed, edge_weight ed))
       (g_edge (stored_graph nd d) e))" for fp e
    by (metis (no_types, lifting) stored_graph_def fp_graph.select_convs(3) sum.case(2))
      (use \<open>\<And>e. \<exists>ed. fetch_edge_endpoints nd d e = Inr ed\<close> [of e] in \<open>auto simp: stored_graph_def split: option.splits\<close>)
  then show ?thesis by (simp add: sg_graph_def)
qed

definition stored_weight :: "payload \<Rightarrow> fl" where
  "stored_weight m = or_default (Fin 0) (map_option as_f32 (opt_bind (m ''weight'') as_f64))"

definition finite_edges :: "'d ingest_node \<Rightarrow> record_view \<Rightarrow> bool" where
  "finite_edges N R \<longleftrightarrow> finite {e. R (EDGE (host N)) e None \<noteq> None}"

lemma ends_of_fields: "ends_of m = Some (a, b) \<Longrightarrow> m ''a'' = Some (JStr a) \<and> m ''b'' = Some (JStr b)"
  by (auto simp: ends_of_def split: option.splits json.splits)

context graph_reads
begin

lemma row_field: "row_of fs m row \<Longrightarrow> x \<in> set fs \<Longrightarrow> extract_string_field row x = opt_bind (m x) as_str"
  by (auto simp: row_of_def extract_string_field_def)

lemma stored_rows:
  assumes reads: "reads_succeed (host N) d" and wf: "graph_wf N A (recs d)"
  shows "set (g_edges (stored_graph (host N) d) fp) = {e. recs d (EDGE_BY_FINGERPRINT (host N)) fp (Some e) \<noteq> None}"
proof -
  from reads obtain sj where sj: "lookup_name (registry (host N)) (EDGE_BY_FINGERPRINT (host N)) = Inr sj"
    by (auto simp: reads_succeed_def)
  from reads obtain rs where rs: "query_db (host N) d (key_query sj [''edge_id''] fp) = Inr rs"
    unfolding reads_succeed_def by blast
  have held: "held d sj fp r = recs d (EDGE_BY_FINGERPRINT (host N)) fp r" for r by (simp add: stored_view_def sj)
  have r: "r = Some (the r) \<and> the (held d sj fp r) ''edge_id'' = Some (JStr (the r))" if "held d sj fp r \<noteq> None" for r
    using that wf unfolding held graph_wf_def edges_ok_def by (cases r) auto
  from key_rows [OF rs] obtain rks where rks: "set rks = {r. held d sj fp r \<noteq> None}"
    "list_all2 (\<lambda>r row. row_of [''edge_id''] (the (held d sj fp r)) row) rks rs" by blast
  have "List.map_filter (\<lambda>row. extract_string_field row ''edge_id'') rs = map the rks"
    using rks(2) rks(1) [THEN equalityD1]
  proof (induction rule: list_all2_induct)
    case (Cons k ks row rows)
    then have "extract_string_field row ''edge_id'' = Some (the k)"
      using r [of k] row_field [OF Cons.hyps(1)] by simp
    with Cons show ?case by (simp add: map_filter_simps)
  qed (simp add: map_filter_simps)
  then have "g_edges (stored_graph (host N) d) fp = map the rks"
    using sj rs by (simp add: stored_graph_def sg_edge_ids_touching_def canonical_lookup_def)
  moreover have "the ` {r. held d sj fp r \<noteq> None} = {e. recs d (EDGE_BY_FINGERPRINT (host N)) fp (Some e) \<noteq> None}"
    using r unfolding held by force
  ultimately show ?thesis using rks(1) by simp
qed

lemma stored_edge:
  assumes reads: "reads_succeed (host N) d" and wf: "graph_wf N A (recs d)"
  shows "g_edge (stored_graph (host N) d) e = (case recs d (EDGE (host N)) e None of None \<Rightarrow> None
     | Some m \<Rightarrow> (case ends_of m of None \<Rightarrow> None
         | Some (a, b) \<Rightarrow> Some \<lparr>edge_rid = e, edge_a = a, edge_b = b, edge_kind = or_default [] (opt_bind (m ''kind'') as_str),
             edge_weight = stored_weight m\<rparr>))"
proof -
  let ?fs = "[''a'', ''b'', ''kind'', ''weight'']"
  from reads obtain se where se: "lookup_name (registry (host N)) (EDGE (host N)) = Inr se"
    by (auto simp: reads_succeed_def)
  from reads obtain rs where rs: "query_db (host N) d (key_query se ?fs e) = Inr rs"
    unfolding reads_succeed_def by blast
  have held: "held d se e r = recs d (EDGE (host N)) e r" for r by (simp add: stored_view_def se)
  have none: "held d se e (Some r) = None" for r using wf unfolding held graph_wf_def edges_ok_def by simp
  from key_rows [OF rs] obtain rks where rks: "distinct rks" "set rks = {r. held d se e r \<noteq> None}"
    "list_all2 (\<lambda>r row. row_of ?fs (the (held d se e r)) row) rks rs" by blast
  show ?thesis
  proof (cases "recs d (EDGE (host N)) e None")
    case None
    have "held d se e r = None" for r using None none by (cases r) (auto simp: held)
    with rks have "rs = []" by simp
    with None se rs show ?thesis
      by (simp add: stored_graph_def fetch_edge_endpoints_def canonical_lookup_def first_fields_def)
  next
    case (Some m)
    have "set rks = {None}" using rks(2) none Some held by (auto simp: set_eq_iff) (metis not_None_eq)
    with rks(1) have "rks = [None]" by (cases rks) (auto simp: subset_singleton_iff)
    with rks(3) Some held obtain row where row: "rs = [row]" "row_of ?fs m row" by (auto simp: list_all2_Cons1)
    from row(2) obtain kvs where kvs: "row = JObj [(''fields'', JObj kvs)]" "map_of kvs = m |` set ?fs"
      by (auto simp: row_of_def)
    from wf Some have "edge_record_ok (hash_hex N) A e m" by (simp add: graph_wf_def edges_ok_def)
    then obtain a b where ab: "ends_of m = Some (a, b)" by (auto simp: edge_record_ok_def)
    have "m ''a'' = Some (JStr a)" "m ''b'' = Some (JStr b)" using ends_of_fields [OF ab] by simp_all
    moreover have "map_of kvs x = m x" if "x \<in> set ?fs" for x unfolding kvs(2) using that by simp
    ultimately have "map_of kvs ''a'' = Some (JStr a)" "map_of kvs ''b'' = Some (JStr b)" "map_of kvs ''kind'' = m ''kind''"
      "map_of kvs ''weight'' = m ''weight''" by simp_all
    then have "fetch_edge_endpoints (host N) d e =
        Inr (Some (a, b, or_default [] (opt_bind (m ''kind'') as_str), stored_weight m))"
      unfolding fetch_edge_endpoints_def canonical_lookup_def se map_err_simps res_bind_simps rs handler_err_simps row(1) kvs(1)
      by (simp add: first_fields_def string_field_def f32_field_def stored_weight_def or_default_def)
    with Some ab show ?thesis by (simp add: stored_graph_def)
  qed
qed

lemma stored_graph_laws:
  assumes reads: "reads_succeed (host N) d" and wf: "graph_wf N A (recs d)"
  shows "junction_ok (stored_graph (host N) d)"
    "listed_but N {} (recs d) \<Longrightarrow> junction_complete (stored_graph (host N) d)"
    "finite_edges N (recs d) \<Longrightarrow> finite_graph (stored_graph (host N) d)"
proof -
  note rows = stored_rows [OF reads wf] and edge = stored_edge [OF reads wf]
  show "junction_ok (stored_graph (host N) d)"
    unfolding junction_ok_def rows edge
  proof (intro allI impI)
    fix fp e ed
    assume row: "e \<in> {e. recs d (EDGE_BY_FINGERPRINT (host N)) fp (Some e) \<noteq> None}"
      and ed: "(case recs d (EDGE (host N)) e None of None \<Rightarrow> None
     | Some m \<Rightarrow> (case ends_of m of None \<Rightarrow> None
         | Some (a, b) \<Rightarrow> Some \<lparr>edge_rid = e, edge_a = a, edge_b = b, edge_kind = or_default [] (opt_bind (m ''kind'') as_str),
             edge_weight = stored_weight m\<rparr>)) = Some ed"
    from row wf obtain em a b where "recs d (EDGE (host N)) e None = Some em" "ends_of em = Some (a, b)" "fp \<in> {a, b}"
      unfolding graph_wf_def edges_ok_def by blast
    with ed show "edge_a ed = fp \<or> edge_b ed = fp" by auto
  qed
  show "junction_complete (stored_graph (host N) d)" if "listed_but N {} (recs d)"
    using that unfolding junction_complete_def rows edge listed_but_def
    by (auto split: option.splits)
  have "(\<Union>fp. set (g_edges (stored_graph (host N) d) fp)) \<subseteq> {e. recs d (EDGE (host N)) e None \<noteq> None}"
    unfolding rows using wf unfolding graph_wf_def edges_ok_def by blast
  then show "finite_graph (stored_graph (host N) d)" if "finite_edges N (recs d)"
    using that unfolding finite_graph_def finite_edges_def by (rule finite_subset)
qed

end

end
