(* ===== verification/Text_Links.thy ===== *)
theory Text_Links
  imports Stored_Graph
begin

text \<open>
  What a text leaves in the graph once it was ingested: every edge of the plan is stored and
  listed, it is strong exactly when the record asserts an identity and neither end is a
  shared inbox, and so the personal signals of one contact record fall into one component of
  the sweep.
\<close>

section \<open>Consistent plans\<close>

lemma plan_consistent_append:
  assumes "plan_consistent ps" "plan_consistent qs" "\<And>p q. p \<in> set ps \<Longrightarrow> q \<in> set qs \<Longrightarrow> pr_schema p \<noteq> pr_schema q"
  shows "plan_consistent (ps @ qs)"
  unfolding plan_consistent_def
proof (intro ballI impI)
  fix p q
  assume pq: "p \<in> set (ps @ qs)" "q \<in> set (ps @ qs)" "slot p = slot q"
  from pq(3) have "pr_schema p = pr_schema q" by (simp add: slot_def)
  with pq(1,2) assms(3) have "(p \<in> set ps \<and> q \<in> set ps) \<or> (p \<in> set qs \<and> q \<in> set qs)" by (metis Un_iff set_append)
  with assms(1,2) pq(3) show "pr_fields p = pr_fields q" unfolding plan_consistent_def by blast
qed

lemma plan_consistent_one: "plan_consistent [p]"
  by (simp add: plan_consistent_def)

lemma plan_consistent_map:
  assumes "\<And>x y. x \<in> set xs \<Longrightarrow> y \<in> set xs \<Longrightarrow> slot (f x) = slot (f y) \<Longrightarrow> pr_fields (f x) = pr_fields (f y)"
  shows "plan_consistent (map f xs)"
  unfolding plan_consistent_def using assms by (metis (no_types, lifting) imageE list.set_map)

lemma plan_consistent_edges:
  assumes names: "graph_names_distinct N"
    and f: "\<And>x. x \<in> set xs \<Longrightarrow> f x = edge_with_rows N (a x) (b x) (e x) (fs x)"
    and inj: "inj_on e (set xs)"
  shows "plan_consistent (concat (map f xs))"
  unfolding plan_consistent_def
proof (intro ballI impI)
  fix p q
  assume p: "p \<in> set (concat (map f xs))" and q: "q \<in> set (concat (map f xs))" and s: "slot p = slot q"
  obtain x where x: "x \<in> set xs" "p \<in> set (edge_with_rows N (a x) (b x) (e x) (fs x))" using p f by auto
  obtain y where y: "y \<in> set xs" "q \<in> set (edge_with_rows N (a y) (b y) (e y) (fs y))" using q f by auto
  have ne: "EDGE (host N) \<noteq> EDGE_BY_FINGERPRINT (host N)" using names by (simp add: graph_names_distinct_def)
  show "pr_fields p = pr_fields q"
  proof (cases "pr_schema p = EDGE (host N)")
    case True
    then have "p = planned_hash (EDGE (host N)) (e x) (fs x)" using x(2) ne by (auto simp: edge_with_rows_def planned_simps)
    moreover have "q = planned_hash (EDGE (host N)) (e y) (fs y)"
      using True y(2) s ne by (auto simp: edge_with_rows_def planned_simps slot_def)
    ultimately show ?thesis using s inj x(1) y(1) by (auto simp: slot_def planned_simps dest: inj_onD)
  next
    case False
    with x(2) y(2) s ne show ?thesis by (auto simp: edge_with_rows_def planned_simps slot_def)
  qed
qed

lemma unordered_pairs_ordered:
  "distinct (map f xs) \<Longrightarrow> (x, y) \<in> set (unordered_pairs xs) \<Longrightarrow> (y, x) \<notin> set (unordered_pairs xs)"
proof (induction xs)
  case (Cons z xs)
  have "f x \<noteq> f y" by (rule unordered_pairs_distinct [OF Cons.prems])
  then show ?case using Cons unordered_pairs_set [of xs] by auto
qed simp

lemma unordered_pairs_unique:
  assumes "distinct (map f xs)" "(x, y) \<in> set (unordered_pairs xs)" "(u, v) \<in> set (unordered_pairs xs)"
    and "{f x, f y} = {f u, f v}"
  shows "(x, y) = (u, v)"
proof -
  have m: "x \<in> set xs" "y \<in> set xs" "u \<in> set xs" "v \<in> set xs"
    using assms(2,3) unordered_pairs_set [of xs] by auto
  have inj: "inj_on f (set xs)" using assms(1) by (simp add: distinct_map)
  from assms(4) have "(f x = f u \<and> f y = f v) \<or> (f x = f v \<and> f y = f u)" by (auto simp: doubleton_eq_iff)
  then have "(x = u \<and> y = v) \<or> (x = v \<and> y = u)" using inj m by (auto dest: inj_onD)
  with assms unordered_pairs_ordered [OF assms(1,2)] show ?thesis by auto
qed

definition record_signals :: "'d ingest_node \<Rightarrow> signal_patterns \<Rightarrow> string \<Rightarrow> extracted_signal list" where
  "record_signals N pats body = dedup_by es_fingerprint_id {} (extract_signals (hash_hex N) pats body)"

lemma edge_ids_inj:
  assumes "edge_keys_distinct (hash_hex N) A" "signal_ids N pats body \<subseteq> A" "k \<in> set edge_kinds"
  shows "inj_on (\<lambda>xy. edge_id (hash_hex N) (es_fingerprint_id (fst xy)) (es_fingerprint_id (snd xy)) k)
    (set (unordered_pairs (record_signals N pats body)))"
proof (rule inj_onI)
  fix p q
  let ?u = "record_signals N pats body"
  assume p: "p \<in> set (unordered_pairs ?u)" and q: "q \<in> set (unordered_pairs ?u)"
    and eq: "edge_id (hash_hex N) (es_fingerprint_id (fst p)) (es_fingerprint_id (snd p)) k =
      edge_id (hash_hex N) (es_fingerprint_id (fst q)) (es_fingerprint_id (snd q)) k"
  have A: "es_fingerprint_id x \<in> A" if "x \<in> set ?u" for x
    using that assms(2) unique_signal_ids [of N pats body] by (auto simp: record_signals_def)
  have "{es_fingerprint_id (fst p), es_fingerprint_id (snd p)} = {es_fingerprint_id (fst q), es_fingerprint_id (snd q)}"
    using assms(1) A unordered_pairs_elems [OF p] unordered_pairs_elems [OF q] assms(3) eq
    unfolding edge_keys_distinct_def by blast
  moreover have "distinct (map es_fingerprint_id ?u)" unfolding record_signals_def by (rule dedup_by_distinct)
  ultimately show "p = q"
    using unordered_pairs_unique [of es_fingerprint_id ?u "fst p" "snd p" "fst q" "snd q"] p q
    by (simp add: prod_eq_iff)
qed

lemma text_edge_records_eq:
  assumes "edge_params binding = (kind, w)"
  shows "text_edge_records N binding mn now xy =
    edge_with_rows N (es_fingerprint_id (fst xy)) (es_fingerprint_id (snd xy))
      (edge_id (hash_hex N) (es_fingerprint_id (fst xy)) (es_fingerprint_id (snd xy)) kind)
      (text_edge_fields (edge_id (hash_hex N) (es_fingerprint_id (fst xy)) (es_fingerprint_id (snd xy)) kind)
         (es_fingerprint_id (fst xy)) (es_fingerprint_id (snd xy)) kind
         (f32_mul w (fl_min (es_strength (fst xy)) (es_strength (snd xy)))) mn now)"
  by (simp add: text_edge_records_def assms split_beta Let_def)

lemma text_plan_consistent:
  assumes names: "distinct (ingest_names N)" and keys: "edge_keys_distinct (hash_hex N) A" and ids: "signal_ids N pats body \<subseteq> A"
  shows "plan_consistent (plan_records (text_plan N pats s k body now binding))"
proof -
  let ?u = "record_signals N pats body"
  obtain kind w where kw: "edge_params binding = (kind, w)" by (cases "edge_params binding")
  have kind: "kind \<in> set edge_kinds" using kw by (cases binding) (auto simp: edge_kinds_def)
  let ?mn = "deterministic_mention_id (hash_hex N) s k TEXT_EXTRACTOR_NAME"
  let ?fp = "\<lambda>x. planned_hash (FINGERPRINT (host N)) (es_fingerprint_id x)
                   (text_fingerprint_fields (es_fingerprint_id x) (es_kind x) (es_value x) now)"
  let ?rows = "mention_rows N ?mn s k (map es_fingerprint_id ?u)"
  let ?edges = "concat (map (text_edge_records N binding ?mn now) (unordered_pairs ?u))"
  let ?es = "extraction_status_id s k TEXT_EXTRACTOR_NAME"
  let ?status = "planned_hash (EXTRACTION_STATUS N) ?es
    (text_status_fields ?es s k (length (extract_signals (hash_hex N) pats body)) now)"
  let ?mention = "planned_hash (MENTION (host N)) ?mn (text_mention_fields ?mn s k (map es_fingerprint_id ?u) now)"
  have "plan_consistent (map ?fp ?u)"
  proof (rule plan_consistent_map)
    fix x y
    assume "x \<in> set ?u" "y \<in> set ?u" "slot (?fp x) = slot (?fp y)"
    moreover have "distinct (map es_fingerprint_id ?u)" unfolding record_signals_def by (rule dedup_by_distinct)
    ultimately have "x = y" by (auto simp: slot_def planned_simps distinct_map dest: inj_onD)
    then show "pr_fields (?fp x) = pr_fields (?fp y)" by simp
  qed
  moreover have "plan_consistent ?rows"
    using names by (auto simp: plan_consistent_def mention_rows_def Let_def planned_simps slot_def ingest_names_def)
  moreover have "plan_consistent ?edges"
    by (rule plan_consistent_edges [OF ingest_names_graph [OF names] text_edge_records_eq [OF kw] edge_ids_inj [OF keys ids kind]])
  ultimately have parts: "plan_consistent (map ?fp ?u)" "plan_consistent ?rows" "plan_consistent ?edges" .
  have rows: "pr_schema p \<in> {MENTION_BY_SOURCE N, MENTION_BY_FINGERPRINT (host N)}" if "p \<in> set ?rows" for p
    using that by (auto simp: mention_rows_def planned_simps Let_def)
  have edges: "pr_schema p \<in> {EDGE (host N), EDGE_BY_FINGERPRINT (host N)}" if "p \<in> set ?edges" for p
    using that by (auto simp: text_edge_records_eq [OF kw] edge_with_rows_def planned_simps)
  define R E F where "R = ?rows" and "E = ?edges" and "F = map ?fp ?u"
  have fps: "pr_schema p = FINGERPRINT (host N)" if "p \<in> set F" for p
    using that by (auto simp: F_def planned_simps)
  have parts': "plan_consistent F" "plan_consistent R" "plan_consistent E"
    unfolding F_def R_def E_def by (rule parts)+
  note opaque = rows [folded R_def] edges [folded E_def] fps
  have "plan_consistent (?status # F @ ?mention # R @ E)"
  proof -
    have "plan_consistent ([?status] @ F @ [?mention] @ R @ E)"
      using names by (intro plan_consistent_append plan_consistent_one parts')
        (auto simp: ingest_names_def planned_simps dest!: opaque)
    then show ?thesis by simp
  qed
  then show ?thesis
    using plan_consistent_one [of ?status]
    by (cases "extract_signals (hash_hex N) pats body = []")
      (simp_all add: R_def E_def F_def text_plan_def plan_text_extraction_def Let_def record_signals_def)
qed

section \<open>What a record links\<close>

lemma weight_facts:
  "f32_mul STRONG_MATCH_WEIGHT (Fin 1) = Fin (15938355 / 16777216)" "STRONG_MATCH_WEIGHT = Fin (15938355 / 16777216)"
  "f32_round (15938355 / 16777216) = Fin (15938355 / 16777216)"
  "\<not> fl_lt (Fin (15938355 / 16777216)) MIN_EDGE_WEIGHT"
  "fl_lt (as_f32 (f32_mul STRONG_MATCH_WEIGHT SHARED_INBOX_STRENGTH)) MIN_EDGE_WEIGHT"
  "fl_lt (as_f32 (f32_mul CO_OCCURRENCE_WEIGHT SHARED_INBOX_STRENGTH)) MIN_EDGE_WEIGHT"
  "fl_lt (as_f32 (f32_mul CO_OCCURRENCE_WEIGHT (Fin 1))) MIN_EDGE_WEIGHT"
  by code_simp+

lemma weights_finite:
  "is_finite (f32_mul STRONG_MATCH_WEIGHT SHARED_INBOX_STRENGTH)" "is_finite (f32_mul CO_OCCURRENCE_WEIGHT SHARED_INBOX_STRENGTH)"
  "is_finite (f32_mul CO_OCCURRENCE_WEIGHT (Fin 1))" "is_finite (f32_mul STRONG_MATCH_WEIGHT (Fin 1))"
  by code_simp+

definition signal_edge :: "'d ingest_node \<Rightarrow> signal_binding \<Rightarrow> extracted_signal \<Rightarrow> extracted_signal \<Rightarrow> string" where
  "signal_edge N binding x y = edge_id (hash_hex N) (es_fingerprint_id x) (es_fingerprint_id y) (fst (edge_params binding))"

lemma record_signal_strength:
  "x \<in> set (record_signals N pats body) \<Longrightarrow> es_strength x = SHARED_INBOX_STRENGTH \<or> es_strength x = Fin 1"
  using dedup_by_subset [of es_fingerprint_id "{}" "extract_signals (hash_hex N) pats body"]
    extracted_signal_cases [of x "hash_hex N" pats body]
  by (auto simp: record_signals_def)

lemma stored_weight_field: "m ''weight'' = Some (json_float w) \<Longrightarrow> is_finite w \<Longrightarrow> stored_weight m = as_f32 w"
  by (cases w) (auto simp: stored_weight_def or_default_def)

lemma binding_weight:
  assumes "es_strength x = SHARED_INBOX_STRENGTH \<or> es_strength x = Fin 1"
    "es_strength y = SHARED_INBOX_STRENGTH \<or> es_strength y = Fin 1"
  shows "is_finite (f32_mul (snd (edge_params binding)) (fl_min (es_strength x) (es_strength y))) \<and>
    (fl_lt (as_f32 (f32_mul (snd (edge_params binding)) (fl_min (es_strength x) (es_strength y)))) MIN_EDGE_WEIGHT \<longleftrightarrow>
       \<not> (binding = Strong \<and> es_strength x = Fin 1 \<and> es_strength y = Fin 1))"
proof -
  have ne: "SHARED_INBOX_STRENGTH \<noteq> Fin 1" by code_simp
  have s: "\<not> fl_lt (as_f32 (f32_mul STRONG_MATCH_WEIGHT (Fin 1))) MIN_EDGE_WEIGHT"
    by (simp add: weight_facts as_f32_def)
  from assms ne s weights_finite weight_facts(5-7) show ?thesis by (cases binding) auto
qed

context graph_reads
begin

text \<open>After a text is ingested, its edges are in the store, with the weights the binding gives.\<close>

lemma text_edges_stored:
  assumes "ingest_text_signals N pats s k body now binding d = (Inr out, d')" "signal_ids N pats body \<subseteq> A"
    and "(x, y) \<in> set (unordered_pairs (record_signals N pats body))"
  shows "\<exists>m. recs d' (EDGE (host N)) (signal_edge N binding x y) None = Some m \<and>
    ends_of m = Some (es_fingerprint_id x, es_fingerprint_id y) \<and> m ''kind'' = Some (JStr (fst (edge_params binding))) \<and>
    stored_weight m = as_f32 (f32_mul (snd (edge_params binding)) (fl_min (es_strength x) (es_strength y))) \<and>
    recs d' (EDGE_BY_FINGERPRINT (host N)) (es_fingerprint_id x) (Some (signal_edge N binding x y)) \<noteq> None \<and>
    recs d' (EDGE_BY_FINGERPRINT (host N)) (es_fingerprint_id y) (Some (signal_edge N binding x y)) \<noteq> None"
proof -
  let ?ps = "plan_records (text_plan N pats s k body now binding)"
  let ?mn = "deterministic_mention_id (hash_hex N) s k TEXT_EXTRACTOR_NAME"
  let ?w = "f32_mul (snd (edge_params binding)) (fl_min (es_strength x) (es_strength y))"
  let ?fs = "text_edge_fields (signal_edge N binding x y) (es_fingerprint_id x) (es_fingerprint_id y)
     (fst (edge_params binding)) ?w ?mn now"
  obtain wo where w: "write_records (host N) ?ps d = (Inr wo, d')"
    using assms(1) by (auto simp: ingest_text_signals_def Let_def split: prod.splits sum.splits)
  have all: "\<forall>p \<in> set ?ps. in_view (recs d') p"
    by (rule write_records_all(1) [OF w text_plan_consistent [OF all_names keys assms(2)]])
  have "extract_signals (hash_hex N) pats body \<noteq> []" using assms(3) by (auto simp: record_signals_def)
  then have "set (text_edge_records N binding ?mn now (x, y)) \<subseteq> set ?ps"
    using assms(3) by (auto simp: text_plan_def plan_text_extraction_def Let_def record_signals_def)
  moreover have "text_edge_records N binding ?mn now (x, y) =
      edge_with_rows N (es_fingerprint_id x) (es_fingerprint_id y) (signal_edge N binding x y) ?fs"
    by (subst text_edge_records_eq [OF surjective_pairing]) (simp add: signal_edge_def)
  ultimately have "\<forall>p \<in> set (edge_with_rows N (es_fingerprint_id x) (es_fingerprint_id y) (signal_edge N binding x y) ?fs).
      in_view (recs d') p" using all by auto
  then obtain m where m: "recs d' (EDGE (host N)) (signal_edge N binding x y) None = Some m" "?fs \<subseteq>\<^sub>m m"
      "recs d' (EDGE_BY_FINGERPRINT (host N)) (es_fingerprint_id x) (Some (signal_edge N binding x y)) \<noteq> None"
      "recs d' (EDGE_BY_FINGERPRINT (host N)) (es_fingerprint_id y) (Some (signal_edge N binding x y)) \<noteq> None"
    by (auto simp: edge_with_rows_def in_view_def planned_simps)
  have "ends_of m = Some (es_fingerprint_id x, es_fingerprint_id y)"
    by (rule ends_of_le [OF _ m(2)]) (simp add: text_edge_fields_def ends_of_def)
  moreover have "m ''kind'' = Some (JStr (fst (edge_params binding)))" "m ''weight'' = Some (json_float ?w)"
    by (rule field_le [OF _ m(2)]; simp add: text_edge_fields_def)+
  moreover have "is_finite ?w"
    using unordered_pairs_elems [OF assms(3)]
    by (intro conjunct1 [OF binding_weight] record_signal_strength [of _ N pats body]) simp_all
  ultimately show ?thesis using m(1,3,4) stored_weight_field by auto
qed

end

section \<open>One contact, one component\<close>

definition personal_ids :: "'d ingest_node \<Rightarrow> signal_patterns \<Rightarrow> string \<Rightarrow> string set" where
  "personal_ids N pats body = es_fingerprint_id ` {x \<in> set (record_signals N pats body). es_strength x = Fin 1}"

context graph_reads
begin

lemma text_edge_strong:
  assumes i: "ingest_text_signals N pats s k body now binding d = (Inr out, d')" and ids: "signal_ids N pats body \<subseteq> A"
    and wf: "graph_wf N A (recs d)" and reads: "reads_succeed (host N) d'"
    and xy: "(x, y) \<in> set (unordered_pairs (record_signals N pats body))"
  shows "strong (stored_graph (host N) d') (signal_edge N binding x y) \<longleftrightarrow>
    binding = Strong \<and> es_strength x = Fin 1 \<and> es_strength y = Fin 1"
proof -
  have wf': "graph_wf N A (recs d')" using text_keeps [OF i ids wf, of UNIV] by (simp add: listed_but_def)
  from text_edges_stored [OF i ids xy] obtain m where m: "recs d' (EDGE (host N)) (signal_edge N binding x y) None = Some m"
    "ends_of m = Some (es_fingerprint_id x, es_fingerprint_id y)" "m ''kind'' = Some (JStr (fst (edge_params binding)))"
    "stored_weight m = as_f32 (f32_mul (snd (edge_params binding)) (fl_min (es_strength x) (es_strength y)))" by blast
  have "x \<in> set (record_signals N pats body)" "y \<in> set (record_signals N pats body)"
    using unordered_pairs_elems [OF xy] by simp_all
  then have "fl_lt (stored_weight m) MIN_EDGE_WEIGHT \<longleftrightarrow> \<not> (binding = Strong \<and> es_strength x = Fin 1 \<and> es_strength y = Fin 1)"
    unfolding m(4) by (intro conjunct2 [OF binding_weight] record_signal_strength [of _ N pats body])
  moreover have "fst (edge_params binding) \<noteq> USER_FORBIDDEN"
    by (cases binding) (auto simp: edge_kind_defs USER_FORBIDDEN_def)
  ultimately show ?thesis
    unfolding strong_def stored_edge [OF reads wf'] by (simp add: m or_default_def) blast
qed

lemma personal_signals_linked:
  assumes i: "ingest_text_signals N pats s k body now Strong d = (Inr out, d')" and ids: "signal_ids N pats body \<subseteq> A"
    and wf: "graph_wf N A (recs d)" and reads: "reads_succeed (host N) d'"
    and x: "x \<in> set (record_signals N pats body)" "es_strength x = Fin 1"
    and y: "y \<in> set (record_signals N pats body)" "es_strength y = Fin 1" and ne: "x \<noteq> y"
  shows "slinked (stored_graph (host N) d') (es_fingerprint_id x) (es_fingerprint_id y) \<or>
    slinked (stored_graph (host N) d') (es_fingerprint_id y) (es_fingerprint_id x)"
proof -
  have one: "slinked (stored_graph (host N) d') (es_fingerprint_id u) (es_fingerprint_id v)"
    if uv: "(u, v) \<in> set (unordered_pairs (record_signals N pats body))" "es_strength u = Fin 1" "es_strength v = Fin 1" for u v
  proof -
    let ?e = "signal_edge N Strong u v"
    have wf': "graph_wf N A (recs d')" using text_keeps [OF i ids wf, of UNIV] by (simp add: listed_but_def)
    from text_edges_stored [OF i ids uv(1)] obtain m where m: "recs d' (EDGE (host N)) ?e None = Some m"
      "ends_of m = Some (es_fingerprint_id u, es_fingerprint_id v)"
      "recs d' (EDGE_BY_FINGERPRINT (host N)) (es_fingerprint_id u) (Some ?e) \<noteq> None" by blast
    have "strong (stored_graph (host N) d') ?e" using text_edge_strong [OF i ids wf reads uv(1)] uv(2,3) by simp
    moreover have "?e \<in> set (g_edges (stored_graph (host N) d') (es_fingerprint_id u))"
      unfolding stored_rows [OF reads wf'] using m(3) by simp
    moreover have "far_end (stored_graph (host N) d') (es_fingerprint_id u) ?e = es_fingerprint_id v"
      unfolding far_end_def stored_edge [OF reads wf'] by (simp add: m)
    ultimately show ?thesis unfolding slinked_def by metis
  qed
  from unordered_pairs_all [OF x(1) y(1) ne] one x(2) y(2) show ?thesis by blast
qed

lemma contact_record_clusters:
  assumes i: "ingest_text_signals N pats s k body now Strong d = (Inr out, d')" and ids: "signal_ids N pats body \<subseteq> A"
    and wf: "graph_wf N A (recs d)" "listed_but N {} (recs d)"
    and reads: "reads_succeed (host N) d'" "finite_edges N (recs d')"
    and three: "3 \<le> card (personal_ids N pats body)" and scan: "personal_ids N pats body \<inter> set fps \<noteq> {}"
  shows "\<exists>comps. find_components (host N) d' fps {} = Some (Inr comps) \<and>
    (\<exists>c \<in> set comps. personal_ids N pats body \<subseteq> set (comp_fingerprint_ids c))"
proof -
  let ?G = "stored_graph (host N) d'"
  have wf': "graph_wf N A (recs d')" "listed_but N {} (recs d')"
    using text_keeps [OF i ids wf] by simp_all
  note G = stored_graph_laws(1) [OF reads(1) wf'(1)] stored_graph_laws(2) [OF reads(1) wf'] stored_graph_laws(3) [OF reads(1) wf'(1) reads(2)]
  have linked: "slinked ?G a b" if ab: "a \<in> personal_ids N pats body" "b \<in> personal_ids N pats body" "a \<noteq> b" for a b
  proof -
    from ab obtain x y where "x \<in> set (record_signals N pats body)" "es_strength x = Fin 1" "a = es_fingerprint_id x"
      "y \<in> set (record_signals N pats body)" "es_strength y = Fin 1" "b = es_fingerprint_id y"
      by (auto simp: personal_ids_def)
    with personal_signals_linked [OF i ids wf(1) reads(1), of x y] ab(3) slinked_sym [OF G(1,2)] show ?thesis by blast
  qed
  from scan obtain fp where fp: "fp \<in> personal_ids N pats body" "fp \<in> set fps" by blast
  let ?C = "{x. (slinked ?G)\<^sup>*\<^sup>* fp x}"
  have sub: "personal_ids N pats body \<subseteq> ?C" using linked [OF fp(1)] by blast
  have link: "link_closed ?G {}" by (simp add: link_closed_def)
  obtain c0 :: component where "set (comp_fingerprint_ids c0) = ?C"
    using walk_component_spec [OF sg_graph_stored [OF reads(1)] G link, of fp] by auto
  then have "finite ?C" by (metis List.finite_set)
  with sub three have big: "MIN_FINGERPRINTS \<le> card ?C" using card_mono [of ?C "personal_ids N pats body"]
    by (simp add: MIN_FINGERPRINTS_def)
  from find_components_spec [OF sg_graph_stored [OF reads(1)] G link, of fps]
  obtain comps where comps: "find_components (host N) d' fps {} = Some (Inr comps)"
    "\<forall>c \<in> set comps. \<exists>start \<in> set fps. set (comp_fingerprint_ids c) = {x. (slinked ?G)\<^sup>*\<^sup>* start x}"
    "\<forall>fp \<in> set fps - {}. MIN_FINGERPRINTS \<le> card {x. (slinked ?G)\<^sup>*\<^sup>* fp x} \<longrightarrow> (\<exists>c \<in> set comps. fp \<in> set (comp_fingerprint_ids c))"
    by blast
  from comps(3) fp(2) big obtain c where c: "c \<in> set comps" "fp \<in> set (comp_fingerprint_ids c)" by blast
  from comps(2) c(1) obtain start where start: "set (comp_fingerprint_ids c) = {x. (slinked ?G)\<^sup>*\<^sup>* start x}" by blast
  have "b \<in> set (comp_fingerprint_ids c)" if "b \<in> personal_ids N pats body" for b
    using c(2) sub that unfolding start by (auto intro: rtranclp_trans)
  with c(1) comps(1) show ?thesis by blast
qed

end

end
