(* ===== verification/Mem_Records.thy ===== *)
theory Mem_Records
  imports Text_Links "HOL-Library.AList"
begin

text \<open>
  An in-memory record store and a hash without collisions, on which the locales of ingestion
  are interpreted: the laws can hold, and the concrete runs of the root theory use it.
\<close>

type_synonym mem_db = "((string \<times> string \<times> string option) \<times> payload) list"

definition mem_held :: "mem_db holds" where
  "mem_held d s k r = map_of d (s, k, r)"

definition rec_row :: "string list \<Rightarrow> payload \<Rightarrow> json" where
  "rec_row fs m = JObj [(''fields'', JObj (List.map_filter (\<lambda>f. map_option (Pair f) (m f)) fs))]"

definition rec_query :: "mem_db \<Rightarrow> query_engine" where
  "rec_query d q = Inr (map (\<lambda>(_, m). rec_row (q_fields q) m)
     (filter (\<lambda>((s, k, _), _). s = schema_name q \<and> (case key_filter q of None \<Rightarrow> True | Some (HashKey h) \<Rightarrow> k = h))
       (AList.clearjunk d)))"

definition rec_mutate ::
    "mem_db \<Rightarrow> string \<Rightarrow> payload \<Rightarrow> key_value \<Rightarrow> mutation_type \<Rightarrow> (fold_db_error + string) \<times> mem_db" where
  "rec_mutate d s m kv t =
     (case kv of
        (None, _) \<Rightarrow> (Inl (EngineError ''no hash key''), d)
      | (Some k, r) \<Rightarrow> (Inr k, (case t of
          Create \<Rightarrow> AList.update (s, k, r) m d
        | Update \<Rightarrow> AList.update (s, k, r) (case map_of d (s, k, r) of None \<Rightarrow> m | Some old \<Rightarrow> old ++ m) d
        | Delete \<Rightarrow> AList.delete (s, k, r) d)))"

definition rec_registry :: canonical_names where
  "rec_registry = [''Fingerprint'' \<mapsto> ''fp'', ''Edge'' \<mapsto> ''edge'', ''Mention'' \<mapsto> ''mention'',
     ''EdgeByFingerprint'' \<mapsto> ''edge_by_fp'', ''MentionByFingerprint'' \<mapsto> ''mention_by_fp'',
     ''MentionBySource'' \<mapsto> ''mention_by_source'', ''ExtractionStatus'' \<mapsto> ''status'',
     ''IngestionError'' \<mapsto> ''ingestion_error'', ''Persona'' \<mapsto> ''persona'', ''Identity'' \<mapsto> ''identity'',
     ''IdentityReceipt'' \<mapsto> ''receipt'']"

definition rec_host :: "mem_db fp_node" where
  "rec_host = \<lparr>FINGERPRINT = ''Fingerprint'', EDGE = ''Edge'', MENTION = ''Mention'',
     EDGE_BY_FINGERPRINT = ''EdgeByFingerprint'', MENTION_BY_FINGERPRINT = ''MentionByFingerprint'',
     PERSONA = ''Persona'', registry = Some rec_registry,
     query_db = rec_query, mutate_db = rec_mutate,
     show_error = (\<lambda>e. case e of Config m \<Rightarrow> m | EngineError m \<Rightarrow> m), show_json = (\<lambda>_. []), show_f32 = (\<lambda>_. [])\<rparr>"

text \<open>The bytes themselves, one character each.\<close>

definition plain_sha :: "bytes \<Rightarrow> string" where
  "plain_sha bs = map (\<lambda>b. char_of (unat b)) bs"

definition rec_node :: "mem_db ingest_node" where
  "rec_node = \<lparr>host = rec_host, MENTION_BY_SOURCE = ''MentionBySource'', EXTRACTION_STATUS = ''ExtractionStatus'',
     INGESTION_ERROR = ''IngestionError'', IDENTITY = ''Identity'', IDENTITY_RECEIPT = ''IdentityReceipt'',
     hash_hex = plain_sha\<rparr>"

lemmas rec_defs = rec_host_def rec_node_def

lemma rec_node_simps [simp]:
  "host rec_node = rec_host" "hash_hex rec_node = plain_sha" "query_db rec_host = rec_query" "mutate_db rec_host = rec_mutate"
  "registry rec_host = Some rec_registry"
  by (simp_all add: rec_defs)

lemma plain_sha_inject: "plain_sha x = plain_sha y \<longleftrightarrow> x = y"
proof -
  have "inj (\<lambda>b :: 8 word. char_of (unat b) :: char)"
  proof (rule injI)
    fix a b :: "8 word"
    assume "(char_of (unat a) :: char) = char_of (unat b)"
    then have "unat a mod 256 = unat b mod 256" by (metis of_char_of)
    moreover have "unat a < 256" "unat b < 256" using unsigned_less [of a] unsigned_less [of b] by simp_all
    ultimately show "a = b" by (simp add: word_unat_eq_iff)
  qed
  then have "inj (map (\<lambda>b :: 8 word. char_of (unat b) :: char))" by (rule inj_mapI)
  moreover have "plain_sha = map (\<lambda>b. char_of (unat b))" by (rule ext) (simp add: plain_sha_def)
  ultimately have "inj plain_sha" by (simp only:)
  then show ?thesis by (auto dest: injD)
qed

section \<open>Fingerprints of one length\<close>

definition same_length_ids :: "string set \<Rightarrow> nat \<Rightarrow> bool" where
  "same_length_ids A n \<longleftrightarrow> (\<forall>a \<in> A. length (as_bytes a) = n)"

lemma plain_edge_keys: "same_length_ids A n \<Longrightarrow> edge_keys_distinct plain_sha A"
  unfolding edge_keys_distinct_def
proof (intro ballI impI)
  fix a b a' b' k k'
  assume "same_length_ids A n" "a \<in> A" "b \<in> A" "a' \<in> A" "b' \<in> A" "edge_id plain_sha a b k = edge_id plain_sha a' b' k'"
  then show "{a, b} = {a', b'}"
    using edge_preimage_inject [of a n b a' b' k k'] by (simp add: edge_id_def plain_sha_inject same_length_ids_def)
qed

section \<open>The laws\<close>

lemma row_of_rec_row: "row_of fs m (rec_row fs m)"
proof -
  have "map_of (List.map_filter (\<lambda>f. map_option (Pair f) (m f)) fs) k = (m |` set fs) k" for k
  proof (induction fs)
    case (Cons f fs)
    then show ?case by (cases "m f") (auto simp: restrict_map_def)
  qed simp
  then show ?thesis by (auto simp: row_of_def rec_row_def)
qed

lemma rec_registry_inj: "lookup_name (Some rec_registry) x = Inr s \<Longrightarrow> lookup_name (Some rec_registry) y = Inr s \<Longrightarrow> x = y"
  by (auto simp: lookup_name_def cn_get_def rec_registry_def split: if_splits)

lemma rec_key_rows:
  assumes "rec_query d (key_query s fs k) = Inr rs"
  shows "\<exists>rks. distinct rks \<and> set rks = {r. mem_held d s k r \<noteq> None} \<and>
    list_all2 (\<lambda>r row. row_of fs (the (mem_held d s k r)) row) rks rs"
proof -
  let ?l = "filter (\<lambda>((s', k', _), _). s' = s \<and> k' = k) (AList.clearjunk d)"
  have rs: "rs = map (\<lambda>(_, m). rec_row fs m) ?l"
    using assms by (auto simp: rec_query_def key_query_def simple_query_def)
  have held: "mem_held d s k r = Some m" if "((s, k, r), m) \<in> set (AList.clearjunk d)" for r m
    using that map_of_eq_Some_iff [OF distinct_clearjunk, of d "(s, k, r)" m] by (simp add: mem_held_def map_of_clearjunk)
  have "distinct (map fst ?l)" using distinct_clearjunk by (rule distinct_map_filter)
  moreover have "inj_on (\<lambda>x. snd (snd (fst x))) (set ?l)"
    using held by (auto simp: inj_on_def) (metis option.inject)
  ultimately have "distinct (map (\<lambda>x. snd (snd (fst x))) ?l)"
    by (simp add: distinct_map)
  moreover have "set (map (\<lambda>x. snd (snd (fst x))) ?l) = {r. mem_held d s k r \<noteq> None}"
  proof -
    have "\<exists>m. ((s, k, r), m) \<in> set (AList.clearjunk d)" if "mem_held d s k r \<noteq> None" for r
      using that map_of_SomeD [of "AList.clearjunk d" "(s, k, r)"] by (auto simp: mem_held_def map_of_clearjunk)
    with held show ?thesis by force
  qed
  moreover have "list_all2 (\<lambda>r row. row_of fs (the (mem_held d s k r)) row) (map (\<lambda>x. snd (snd (fst x))) ?l) rs"
    unfolding rs list_all2_map1 list_all2_map2 using held row_of_rec_row
    by (auto simp: list_all2_same)
  ultimately show ?thesis by blast
qed

lemma rec_graph_reads:
  assumes "same_length_ids A n"
  shows "graph_reads rec_node mem_held A"
proof unfold_locales
  fix d s fs row rs
  assume "query_db (host rec_node) d (simple_query s fs None) = Inr rs" "row \<in> set rs"
  then obtain s' k r m where "((s', k, r), m) \<in> set (AList.clearjunk d)" "s' = s" "row = rec_row fs m"
    by (auto simp: rec_query_def simple_query_def)
  then have "mem_held d s k r = Some m" "row_of fs m row"
    using map_of_eq_Some_iff [OF distinct_clearjunk, of d "(s, k, r)" m] row_of_rec_row
    by (simp_all add: mem_held_def map_of_clearjunk)
  then show "\<exists>k r m. mem_held d s k r = Some m \<and> row_of fs m row" by blast
next
  show "edge_keys_distinct (hash_hex rec_node) A" using plain_edge_keys [OF assms] by simp
qed (use rec_key_rows rec_registry_inj in \<open>auto simp: rec_mutate_def mem_held_def update_conv' same_but_def ingest_names_def
       rec_defs split: mutation_type.splits option.splits prod.splits\<close>)

interpretation mem_records: graph_reads rec_node mem_held "{}"
  by (rule rec_graph_reads [of _ 0]) (simp add: same_length_ids_def)

end
