(* ===== verification/Mem_Cards.thy ===== *)
theory Mem_Cards
  imports Mem_Records Identity_Audit Contact_Import
begin

text \<open>
  The in-memory record store meets the contract of the identity operations; a signature
  scheme and keys that satisfy the laws, for the concrete runs of the root theory.
\<close>

lemma rec_scan_all:
  assumes "rec_query d (simple_query s fs None) = Inr rs" "mem_held d s k r = Some m"
  shows "\<exists>row \<in> set rs. row_of fs m row"
proof -
  from assms(2) have "((s, k, r), m) \<in> set (AList.clearjunk d)"
    by (intro map_of_SomeD) (simp add: mem_held_def map_of_clearjunk)
  with assms(1) have "rec_row fs m \<in> set rs" by (force simp: rec_query_def simple_query_def)
  then show ?thesis using row_of_rec_row by blast
qed

lemma rec_card_store:
  assumes "same_length_ids A n"
  shows "card_store rec_node mem_held A"
proof (intro card_store.intro card_store_axioms.intro)
  show "graph_reads rec_node mem_held A" by (rule rec_graph_reads [OF assms])
next
  fix d s fs rs k r m
  assume "query_db (host rec_node) d (simple_query s fs None) = Inr rs" "mem_held d s k r = Some m"
  then show "\<exists>row \<in> set rs. row_of fs m row" using rec_scan_all by simp
next
  fix d s m k r i d'
  assume u: "mutate_db (host rec_node) d s m (Some k, r) Update = (Inr i, d')"
  show "\<exists>m'. mem_held d' s k r = Some m' \<and> m \<subseteq>\<^sub>m m'"
    using u by (auto simp: rec_mutate_def mem_held_def update_conv' split: option.splits)
  show "same_but mem_held s k r d d'"
    using u by (auto simp: rec_mutate_def mem_held_def update_conv' same_but_def split: option.splits)
qed (simp add: rec_defs ingest_names_def)

interpretation mem_cards: card_store rec_node mem_held "{}"
  by (rule rec_card_store [of _ 0]) (simp add: same_length_ids_def)

section \<open>A signature scheme\<close>

text \<open>The public key is the seed; a signature is the key followed by the first bytes of the message.\<close>

fun plain_json :: "json \<Rightarrow> string" where
  "plain_json JNull = ''n''"
| "plain_json (JBool b) = (if b then ''t'' else ''f'')"
| "plain_json (JInt i) = replicate (nat i) (CHR ''i'')"
| "plain_json (JNum x) = (if fl_lt x (Fin 0) then ''-'' else ''+'')"
| "plain_json (JStr s) = CHR 0x27 # s @ [CHR 0x27]"
| "plain_json (JArr xs) = ''['' @ concat (map plain_json xs) @ '']''"
| "plain_json (JObj kvs) = ''{'' @ concat (map (\<lambda>(k, v). k @ plain_json v) kvs) @ ''}''"

definition plain_cards :: card_crypto where
  "plain_cards = \<lparr>card_b64_encode = plain_sha, card_b64_decode = (\<lambda>s. Inr (map (\<lambda>c. word_of_nat (of_char c)) s)),
     valid_point = (\<lambda>_. Inr ()), ed_verify = (\<lambda>pk msg sig. sig = pk @ take 32 (msg @ replicate 32 0)),
     ed_sign = (\<lambda>seed msg. seed @ take 32 (msg @ replicate 32 0)), json_bytes = (\<lambda>j. as_bytes (plain_json j))\<rparr>"

definition demo_keys :: node_keys where
  "demo_keys = \<lparr>node_public_key = replicate 32 (CHR ''k''), node_private_key = replicate 32 (CHR ''k'')\<rparr>"

lemma plain_keys_sign:
  assumes "length k = 32"
  shows "keys_sign plain_cards \<lparr>node_public_key = k, node_private_key = k\<rparr>"
proof -
  have "map (\<lambda>c :: char. word_of_nat (of_char c)) (plain_sha bs) = bs" for bs
  proof (induction bs)
    case (Cons b bs)
    have "unat b < 256" using unsigned_less [of b] by simp
    with Cons show ?case by (simp add: plain_sha_def)
  qed (simp add: plain_sha_def)
  with assms show ?thesis
    unfolding keys_sign_def by (simp add: plain_cards_def min_def)
qed

lemma demo_keys_sign: "keys_sign plain_cards demo_keys"
  unfolding demo_keys_def by (rule plain_keys_sign) simp

text \<open>A peer's card, signed with the peer's key.\<close>

definition peer_key :: string where "peer_key = replicate 32 (CHR ''p'')"

definition demo_card :: incoming_card where
  "demo_card = (let p = \<lparr>cp_pub_key = peer_key, cp_display_name = ''Bob'', cp_birthday = None,
                        cp_face_embedding = Some (map f32_val [0]), cp_issued_at = ''t''\<rparr> in
     \<lparr>ca_pub_key = peer_key, ca_display_name = ''Bob'', ca_birthday = None, ca_face_embedding = Some [0], ca_node_id = ''n'',
      ca_signature = card_b64_encode plain_cards (ed_sign plain_cards (map (\<lambda>c. word_of_nat (of_char c)) peer_key)
        (canonical_bytes plain_cards p)),
      ca_issued_at = ''t''\<rparr>)"

lemma demo_card_verifies: "verify_card_signature plain_cards demo_card = Inr ()"
proof -
  let ?k = "\<lparr>node_public_key = peer_key, node_private_key = peer_key\<rparr>"
  have "extract_ed25519_seed plain_cards peer_key = Inr (map (\<lambda>c. word_of_nat (of_char c)) peer_key)"
    by (simp add: extract_ed25519_seed_def plain_cards_def peer_key_def map_err_def)
  then have "signed_as plain_cards p (card_b64_encode plain_cards (ed_sign plain_cards
      (map (\<lambda>c. word_of_nat (of_char c)) peer_key) (canonical_bytes plain_cards p)))" if "cp_pub_key p = peer_key" for p
    using own_signature [OF plain_keys_sign, of peer_key _ p] that by (simp add: peer_key_def)
  then show ?thesis by (simp add: verify_card_iff payload_of_card_def demo_card_def Let_def)
qed

section \<open>Writing and reading always succeed\<close>

lemma rec_lookup: "x \<in> dom rec_registry \<Longrightarrow> \<exists>s. lookup_name (Some rec_registry) x = Inr s"
  by (auto simp: lookup_name_def cn_get_def ok_or_def)

lemma rec_writes_ok: "\<forall>p \<in> set ps. pr_schema p \<in> dom rec_registry \<Longrightarrow> \<exists>out d'. write_records rec_host ps d = (Inr out, d')"
proof (induction ps arbitrary: d)
  case (Cons p ps)
  then have "pr_schema p \<in> dom rec_registry" by (meson list.set_intros(1))
  from rec_lookup [OF this] obtain s where s: "lookup_name (Some rec_registry) (pr_schema p) = Inr s" by blast
  obtain w d1 where w: "write_record rec_host p d = (Inr w, d1)"
    using s by (simp add: write_record_def rec_mutate_def)
  moreover obtain out d' where "write_records rec_host ps d1 = (Inr out, d')"
    using Cons.IH [of d1] Cons.prems by (meson list.set_intros(2))
  ultimately show ?case by simp
qed simp

lemma rec_reads_succeed: "reads_succeed rec_host d"
  by (auto simp: reads_succeed_def rec_query_def rec_defs rec_registry_def lookup_name_def cn_get_def ok_or_def)

lemma rec_finite_edges: "finite_edges rec_node (stored_view rec_host mem_held d)"
proof -
  have "{e. mem_held d ''edge'' e None \<noteq> None} \<subseteq> (\<lambda>x. fst (snd (fst x))) ` set d"
  proof
    fix e
    assume "e \<in> {e. mem_held d ''edge'' e None \<noteq> None}"
    then obtain m where "((''edge'', e, None), m) \<in> set d" by (auto simp: mem_held_def dest: map_of_SomeD)
    then show "e \<in> (\<lambda>x. fst (snd (fst x))) ` set d" by force
  qed
  then have "finite {e. mem_held d ''edge'' e None \<noteq> None}" by (rule finite_subset) simp
  moreover have "stored_view rec_host mem_held d ''Edge'' e None = mem_held d ''edge'' e None" for e
    by (simp add: stored_view_def lookup_name_def cn_get_def rec_registry_def)
  ultimately show ?thesis by (simp add: finite_edges_def rec_defs)
qed

text \<open>The empty store satisfies the invariants.\<close>

lemma empty_view: "stored_view nd mem_held [] x k r = None"
  by (simp add: stored_view_def mem_held_def split: sum.split)

lemma empty_store_wf: "graph_wf N A (stored_view nd mem_held [])" "cache_wf N A empty_cache (stored_view nd mem_held [])"
  by (simp_all add: graph_wf_def fingerprints_ok_def mention_rows_ok_def edges_ok_def cache_wf_def cached_ids_def empty_view)
    (simp add: empty_cache_def ann_ok_def)

lemma empty_store_listed: "listed_but N S (stored_view nd mem_held [])"
  by (simp add: listed_but_def empty_view)

lemma empty_store_signed: "identities_signed cc N (stored_view nd mem_held [])"
  by (simp add: identities_signed_def empty_view)

section \<open>A bootstrap and an import\<close>

lemma rec_lookup_simps: "lookup_name (Some rec_registry) ''Identity'' = Inr ''identity''" "lookup_name (Some rec_registry) ''Fingerprint'' = Inr ''fp''"
    "lookup_name (Some rec_registry) ''IdentityReceipt'' = Inr ''receipt''" "lookup_name (Some rec_registry) ''Persona'' = Inr ''persona''"
    "lookup_name (Some rec_registry) ''Edge'' = Inr ''edge''"
  by (simp_all add: lookup_name_def cn_get_def ok_or_def rec_registry_def)

lemma demo_seed: "extract_ed25519_seed plain_cards (node_private_key demo_keys) = Inr (map (\<lambda>c. word_of_nat (of_char c)) (replicate 32 (CHR ''k'')))"
  by (simp add: extract_ed25519_seed_def plain_cards_def demo_keys_def map_err_def)

lemma demo_ensure: "\<exists>out fs more. ensure_me_persona_if_absent plain_cards demo_keys rec_node (''1'', ''2'') ''t'' ''Ana'' [] =
    (Inr (Some out), ((''identity'', identity_id_of (node_public_key demo_keys), None), fs) # more) \<and>
   fs ''pub_key'' = Some (JStr (node_public_key demo_keys)) \<and> fs ''face_embedding'' = Some JNull \<and>
   \<not> (\<exists>x \<in> set more. fst (fst x) = ''identity'')"
  by (simp add: ensure_me_persona_if_absent_def me_persona_exists_def any_record_built_in_def rec_query_def simple_query_def
      bootstrap_self_identity_def demo_seed bootstrap_records_def Let_def rec_lookup_simps rec_defs
      identity_record_def node_pub_key_fingerprint_record_def identity_receipt_record_def receipt_record_def me_persona_record_def
      planned_simps write_record_def rec_mutate_def)

lemma demo_store: "\<exists>d. store_card plain_cards rec_node ''3'' ''u'' demo_card [] = (Inr False, d) \<and>
   mem_held d ''identity'' (identity_id_of peer_key) None \<noteq> None"
proof -
  have k: "ca_pub_key demo_card = peer_key" "ca_face_embedding demo_card = Some [0]" by (simp_all add: demo_card_def Let_def)
  show ?thesis
    by (simp add: store_card_def demo_card_verifies identity_exists_def canonical_lookup_def rec_query_def
        key_query_def simple_query_def import_records_def k Let_def rec_lookup_simps rec_defs build_identity_record_def
        build_identity_receipt_record_def receipt_record_def build_face_records_def planned_simps write_record_def rec_mutate_def mem_held_def)
qed

lemma demo_import: "\<exists>r d. import_identity_card plain_cards it rec_node ''3'' ''u'' demo_card None [] = (Some (Inr r), d) \<and>
   mem_held d ''identity'' (identity_id_of peer_key) None \<noteq> None"
  using demo_store by (auto simp: import_identity_card_def Let_def)

lemma demo_served:
  assumes "ensure_me_persona_if_absent plain_cards demo_keys rec_node (''1'', ''2'') ''t'' ''Ana'' [] = (r, d)"
  shows "\<exists>crd. get_my_identity_card demo_keys rec_node d = Inr crd"
    and "stored_view (host rec_node) mem_held d (IDENTITY rec_node) k s = Some m \<Longrightarrow> m ''face_embedding'' = Some JNull"
proof -
  let ?k = "identity_id_of (node_public_key demo_keys)"
  obtain fs more where d: "d = ((''identity'', ?k, None), fs) # more" "fs ''pub_key'' = Some (JStr (node_public_key demo_keys))"
    "fs ''face_embedding'' = Some JNull" "\<forall>x \<in> set more. fst (fst x) \<noteq> ''identity''"
    using demo_ensure assms by auto
  have "\<forall>x \<in> set (AList.clearjunk (AList.delete (''identity'', ?k, None) more)). fst (fst x) \<noteq> ''identity''"
  proof
    fix x
    assume "x \<in> set (AList.clearjunk (AList.delete (''identity'', ?k, None) more))"
    then have "fst x \<in> fst ` set (AList.clearjunk (AList.delete (''identity'', ?k, None) more))" by (rule imageI)
    then have "fst x \<in> fst ` set more" unfolding dom_clearjunk by (rule subsetD [OF dom_delete_subset])
    with d(4) show "fst (fst x) \<noteq> ''identity''" by (elim imageE) simp
  qed
  then have "filter (\<lambda>((s, k, _), _). s = ''identity'' \<and> k = ?k) (AList.clearjunk (AList.delete (''identity'', ?k, None) more)) = []"
    by (force simp: filter_empty_conv)
  with d(1) have "rec_query d (key_query ''identity'' identity_fields ?k) = Inr [rec_row identity_fields fs]"
    by (simp add: rec_query_def key_query_def simple_query_def)
  with d(2) show "\<exists>crd. get_my_identity_card demo_keys rec_node d = Inr crd"
    by (simp add: get_my_identity_card_def canonical_lookup_def rec_defs rec_lookup_simps fetch_identity_def rec_row_def
        extract_card_def identity_fields_def map_filter_simps string_field_def opt_bind_def)
  have none: "map_of more (''identity'', k, s) = None" for k s
    using d(4) by (metis fst_conv map_of_SomeD not_None_eq)
  show "stored_view (host rec_node) mem_held d (IDENTITY rec_node) k s = Some m \<Longrightarrow> m ''face_embedding'' = Some JNull"
    using d none by (auto simp: stored_view_def rec_defs rec_lookup_simps mem_held_def split: if_splits)
qed

text \<open>Two identities and three receipts, as an audit finds them.\<close>

definition audit_db :: mem_db where
  "audit_db =
     [((''identity'', ''id_a'', None), [''id'' \<mapsto> JStr ''id_a'', ''pub_key'' \<mapsto> JStr ''a'']),
      ((''identity'', ''id_b'', None), [''id'' \<mapsto> JStr ''id_b'', ''pub_key'' \<mapsto> JStr ''b'']),
      ((''receipt'', ''r1'', None), [''identity_id'' \<mapsto> JStr ''id_a'', ''received_at'' \<mapsto> JStr ''1'']),
      ((''receipt'', ''r2'', None), [''identity_id'' \<mapsto> JStr ''id_b'', ''received_at'' \<mapsto> JStr ''2'']),
      ((''receipt'', ''r3'', None), [''identity_id'' \<mapsto> JStr ''id_a'', ''received_at'' \<mapsto> JStr ''3''])]"

section \<open>Three mail addresses\<close>

definition three_mails :: signal_patterns where
  "three_mails = \<lparr>email_matches = (\<lambda>_. [''ana@x.io'', ''bob@x.io'', ''eve@x.io'']), phone_matches = (\<lambda>_. []), name_matches = (\<lambda>_. [])\<rparr>"

definition three_ids :: "string list" where
  "three_ids = map (fingerprint_id_for_string plain_sha kind_EMAIL) [''ana@x.io'', ''bob@x.io'', ''eve@x.io'']"

lemma three_signals:
  "extract_signals plain_sha three_mails body =
     map (\<lambda>m. \<lparr>es_kind = kind_EMAIL, es_value = m, es_fingerprint_id = fingerprint_id_for_string plain_sha kind_EMAIL m,
        es_strength = Fin 1\<rparr>) [''ana@x.io'', ''bob@x.io'', ''eve@x.io'']"
proof -
  have "to_lowercase m = m \<and> classify_email_strength m = Fin 1" if "m \<in> set [''ana@x.io'', ''bob@x.io'', ''eve@x.io'']" for m
    using that by auto code_simp+
  then show ?thesis by (simp add: extract_signals_def three_mails_def email_signal_def Let_def)
qed

lemma three_signal_ids: "signal_ids rec_node three_mails body = set three_ids"
  by (simp add: signal_ids_def three_signals three_ids_def)

lemma plain_sha_ascii: "\<forall>c \<in> set s. char_code c < 128 \<Longrightarrow> plain_sha (as_bytes s) = s"
  by (induction s) (auto simp: plain_sha_def char_bytes_def Let_def char_code_def)

lemma ascii_id:
  assumes "canonicalize_string kind m = m" "\<forall>c \<in> set (kind @ m). char_code c < 128"
  shows "fingerprint_id_for_string plain_sha kind m = ''fp_Fingerprint'' @ kind @ m"
proof -
  have "plain_sha (as_bytes (''Fingerprint'' @ kind @ m)) = ''Fingerprint'' @ kind @ m"
    by (rule plain_sha_ascii) (use assms(2) in \<open>simp add: char_code_def\<close>)
  then show ?thesis
    using assms(1) by (simp add: fingerprint_id_for_string_def fingerprint_id_from_bytes_def fingerprint_preimage_def)
qed

lemma three_ids_are: "three_ids =
    [''fp_Fingerprintemailana@x.io'', ''fp_Fingerprintemailbob@x.io'', ''fp_Fingerprintemaileve@x.io'']"
proof -
  have "canonicalize_string kind_EMAIL ''ana@x.io'' = ''ana@x.io''" "canonicalize_string kind_EMAIL ''bob@x.io'' = ''bob@x.io''"
    "canonicalize_string kind_EMAIL ''eve@x.io'' = ''eve@x.io''"
    by code_simp+
  from this [THEN ascii_id] show ?thesis
    by (simp add: three_ids_def kind_EMAIL_def char_code_def)
qed

lemma three_distinct: "distinct three_ids"
  by (simp add: three_ids_are)

lemma three_length: "same_length_ids (set three_ids) 27"
  by (simp add: same_length_ids_def three_ids_are char_bytes_def Let_def char_code_def)

lemma three_record_signals: "record_signals rec_node three_mails body = extract_signals plain_sha three_mails body"
  using three_distinct by (auto simp: record_signals_def three_signals three_ids_def eq_commute)

lemma three_personal: "personal_ids rec_node three_mails body = set three_ids"
proof -
  have "{e \<in> set (record_signals rec_node three_mails body). es_strength e = Fin 1} =
      set (extract_signals plain_sha three_mails body)"
    by (auto simp: three_record_signals three_signals)
  then show ?thesis by (simp add: personal_ids_def three_signals three_ids_def)
qed

lemma rec_text_ok: "\<exists>out d'. ingest_text_signals rec_node pats s k body now binding d = (Inr out, d')"
proof -
  have "pr_schema p \<in> dom rec_registry" if "p \<in> set (plan_records (text_plan rec_node pats s k body now binding))" for p
    using that
    by (auto simp: text_plan_def plan_text_extraction_def Let_def planned_simps mention_rows_def text_edge_records_def
        edge_with_rows_def rec_defs rec_registry_def split: if_splits prod.splits)
  then obtain out d' where "write_records rec_host (plan_records (text_plan rec_node pats s k body now binding)) d = (Inr out, d')"
    using rec_writes_ok by blast
  then show ?thesis by (simp add: ingest_text_signals_def Let_def)
qed

end
