(* ===== verification/Registration.thy ===== *)
theory Registration
  imports Canonical_Names
begin

text \<open>
  \<^verbatim>\<open>src/fingerprints/registration.rs\<close>: at start-up the built-in schemas are fetched from the
  schema service by descriptive name, loaded and approved locally one after the other, and
  their runtime names installed in the registry. Schemas, their JSON form and the schema
  manager are \<^verbatim>\<open>fold_db\<close>'s and parameters; \<open>builtin\<close> is \<^verbatim>\<open>PHASE_1_DESCRIPTIVE_NAMES\<close> of
  \<^verbatim>\<open>schema_service_core\<close>.
\<close>

record 'c service_schema =
  ss_name :: string
  ss_descriptive_name :: "string option"
  ss_body :: 'c

record ('d, 'c) schema_host =
  fetch_available :: "'d \<Rightarrow> fold_db_error + 'c service_schema list"
  schema_to_json :: "'c service_schema \<Rightarrow> string + string"
  load_schema_from_json :: "'d \<Rightarrow> string \<Rightarrow> (fold_db_error + unit) \<times> 'd"
  approve_schema :: "'d \<Rightarrow> string \<Rightarrow> (fold_db_error + unit) \<times> 'd"
  show_fold_error :: "fold_db_error \<Rightarrow> string"

record 'c registered_schema =
  rg_descriptive_name :: string
  rg_canonical_name :: string
  rg_canonical :: "'c service_schema"

definition by_descriptive :: "'c service_schema list \<Rightarrow> string \<rightharpoonup> 'c service_schema" where
  "by_descriptive available =
     fold (\<lambda>s m. case ss_descriptive_name s of None \<Rightarrow> m | Some n \<Rightarrow> m(n \<mapsto> s)) available Map.empty"

definition register_one ::
    "('d, 'c) schema_host \<Rightarrow> string \<Rightarrow> 'c service_schema \<Rightarrow> 'd \<Rightarrow> (fold_db_error + 'c registered_schema) \<times> 'd" where
  "register_one sh descriptive canonical d =
     (case schema_to_json sh canonical of
        Inl e \<Rightarrow> (Inl (Config (''fingerprints: failed to serialize canonical '' @ quoted (ss_name canonical) @ '': '' @ e)), d)
      | Inr json_text \<Rightarrow>
          (case load_schema_from_json sh d json_text of
             (Inl e, d) \<Rightarrow> (Inl (Config (''fingerprints: failed to load canonical '' @ quoted (ss_name canonical) @
                '' locally: '' @ show_fold_error sh e)), d)
           | (Inr _, d) \<Rightarrow>
               (case approve_schema sh d (ss_name canonical) of
                  (Inl e, d) \<Rightarrow> (Inl (Config (''fingerprints: failed to approve canonical '' @ quoted (ss_name canonical) @
                     '': '' @ show_fold_error sh e)), d)
                | (Inr _, d) \<Rightarrow> (Inr \<lparr>rg_descriptive_name = descriptive, rg_canonical_name = ss_name canonical,
                     rg_canonical = canonical\<rparr>, d))))"

text \<open>The literal breaks two lines, with the indentation of the source in the message.\<close>

definition missing_builtin :: "string \<Rightarrow> string" where
  "missing_builtin descriptive =
     (let line_break = CHR 0x0A # replicate 21 (CHR '' '') in
      ''fingerprints: schema service is missing built-in schema '' @ quoted descriptive @
      ''. The service must be running a build that seeds'' @ line_break @ ''phase-1 built-in schemas (see'' @ line_break @
      ''`schema_service_core::builtin_schemas`). fold_db_node refuses to start without all twelve.'')"

fun register_each ::
    "('d, 'c) schema_host \<Rightarrow> (string \<rightharpoonup> 'c service_schema) \<Rightarrow> string list \<Rightarrow> 'd
     \<Rightarrow> (fold_db_error + 'c registered_schema list) \<times> 'd" where
  "register_each sh m [] d = (Inr [], d)"
| "register_each sh m (descriptive # ds) d =
     (case m descriptive of
        None \<Rightarrow> (Inl (Config (missing_builtin descriptive)), d)
      | Some canonical \<Rightarrow>
          (case register_one sh descriptive canonical d of
             (Inl e, d) \<Rightarrow> (Inl e, d)
           | (Inr r, d) \<Rightarrow>
               (case register_each sh (m(descriptive := None)) ds d of
                  (Inl e, d) \<Rightarrow> (Inl e, d)
                | (Inr rs, d) \<Rightarrow> (Inr (r # rs), d))))"

definition build_canonical_names :: "'c registered_schema list \<Rightarrow> fold_db_error + canonical_names" where
  "build_canonical_names rs =
     (case insert_each (map (\<lambda>r. (rg_descriptive_name r, rg_canonical_name r)) rs) Map.empty of
        (Inl e, _) \<Rightarrow> Inl e | (Inr _, m) \<Rightarrow> Inr m)"

definition lookup_phase_1_schemas ::
    "('d, 'c) schema_host \<Rightarrow> (string set \<Rightarrow> string list) \<Rightarrow> string list \<Rightarrow> 'd \<Rightarrow> canonical_names option
     \<Rightarrow> (fold_db_error + 'c registered_schema list) \<times> 'd \<times> canonical_names option" where
  "lookup_phase_1_schemas sh it builtin d names =
     (case fetch_available sh d of
        Inl e \<Rightarrow> (Inl e, d, names)
      | Inr available \<Rightarrow>
          (case register_each sh (by_descriptive available) builtin d of
             (Inl e, d) \<Rightarrow> (Inl e, d, names)
           | (Inr rs, d) \<Rightarrow>
               (case build_canonical_names rs of
                  Inl e \<Rightarrow> (Inl e, d, names)
                | Inr mapping \<Rightarrow>
                    (case install it mapping names of
                       (Inl e, names) \<Rightarrow> (Inl e, d, names)
                     | (Inr _, names) \<Rightarrow> (Inr rs, d, names)))))"

definition register_phase_1_schemas ::
    "('d, 'c) schema_host \<Rightarrow> (string set \<Rightarrow> string list) \<Rightarrow> string list \<Rightarrow> 'd \<Rightarrow> canonical_names option
     \<Rightarrow> (fold_db_error + 'c registered_schema list) \<times> 'd \<times> canonical_names option" where
  "register_phase_1_schemas = lookup_phase_1_schemas"

section \<open>All or nothing\<close>

text \<open>What is relied on: \<open>writable d n\<close> says that schema \<open>n\<close> is loaded and approved; nothing takes it back.\<close>

locale schema_manager =
  fixes sh :: "('d, 'c) schema_host" and writable :: "'d \<Rightarrow> string \<Rightarrow> bool"
  assumes load_keeps: "load_schema_from_json sh d j = (r, d') \<Longrightarrow> writable d n \<Longrightarrow> writable d' n"
    and approve_keeps: "approve_schema sh d x = (r, d') \<Longrightarrow> writable d n \<Longrightarrow> writable d' n"
    and approved: "schema_to_json sh s = Inr j \<Longrightarrow> load_schema_from_json sh d j = (Inr u, d1) \<Longrightarrow>
        approve_schema sh d1 (ss_name s) = (Inr v, d') \<Longrightarrow> writable d' (ss_name s)"
begin

lemma register_one_ok:
  assumes "register_one sh x s d = (Inr r, d')"
  shows "rg_descriptive_name r = x \<and> rg_canonical_name r = ss_name s \<and> rg_canonical r = s \<and> writable d' (ss_name s)"
  using assms by (auto simp: register_one_def split: sum.splits prod.splits intro: approved)

lemma register_one_keeps: "register_one sh x s d = (r, d') \<Longrightarrow> writable d n \<Longrightarrow> writable d' n"
  by (auto simp: register_one_def split: sum.splits prod.splits dest: load_keeps approve_keeps)

lemma register_each_keeps: "register_each sh m ds d = (r, d') \<Longrightarrow> writable d n \<Longrightarrow> writable d' n"
  by (induction ds arbitrary: m d r)
    (auto split: option.splits sum.splits prod.splits dest: register_one_keeps)

lemma register_each_ok:
  "register_each sh m ds d = (Inr rs, d') \<Longrightarrow>
     map rg_descriptive_name rs = ds \<and> (\<forall>r \<in> set rs. m (rg_descriptive_name r) = Some (rg_canonical r) \<and>
        rg_canonical_name r = ss_name (rg_canonical r) \<and> writable d' (rg_canonical_name r))"
proof (induction ds arbitrary: m d rs)
  case (Cons x ds)
  then obtain s r d1 rs1 where s: "m x = Some s" "register_one sh x s d = (Inr r, d1)"
    "register_each sh (m(x := None)) ds d1 = (Inr rs1, d')" "rs = r # rs1"
    by (auto split: option.splits sum.splits prod.splits)
  from Cons.IH [OF s(3)] have IH: "map rg_descriptive_name rs1 = ds"
    "\<forall>r \<in> set rs1. (m(x := None)) (rg_descriptive_name r) = Some (rg_canonical r) \<and>
        rg_canonical_name r = ss_name (rg_canonical r) \<and> writable d' (rg_canonical_name r)" by auto
  from register_one_ok [OF s(2)] s(1) register_each_keeps [OF s(3)] IH show ?case
    unfolding s(4) by (auto split: if_splits)
qed simp

text \<open>
  From an empty registry: on failure it stays empty, and on success every built-in name
  resolves to the runtime name of a fetched schema that is loaded and approved.
\<close>

lemma registration_result:
  assumes "lookup_phase_1_schemas sh it builtin d None = (res, d', names)"
  shows "case res of
      Inl _ \<Rightarrow> names = None
    | Inr rs \<Rightarrow> \<exists>available. fetch_available sh d = Inr available \<and>
        (\<forall>x \<in> set builtin. \<exists>s. by_descriptive available x = Some s \<and> lookup_name names x = Inr (ss_name s) \<and>
           writable d' (ss_name s))"
proof (cases res)
  case (Inl e)
  with assms show ?thesis by (auto simp: lookup_phase_1_schemas_def install_def Let_def split: sum.splits prod.splits)
next
  case (Inr rs)
  with assms obtain available mapping where a: "fetch_available sh d = Inr available"
    "register_each sh (by_descriptive available) builtin d = (Inr rs, d')" "build_canonical_names rs = Inr mapping"
    "names = Some mapping"
    by (auto simp: lookup_phase_1_schemas_def install_def Let_def split: sum.splits prod.splits)
  note ok = register_each_ok [OF a(2)]
  from a(3) obtain u where "insert_each (map (\<lambda>r. (rg_descriptive_name r, rg_canonical_name r)) rs) Map.empty = (Inr u, mapping)"
    by (auto simp: build_canonical_names_def split: sum.splits prod.splits)
  from insert_each_ok [OF this] have m: "\<forall>r \<in> set rs. mapping (rg_descriptive_name r) = Some (rg_canonical_name r)" by auto
  have "\<exists>s. by_descriptive available x = Some s \<and> lookup_name names x = Inr (ss_name s) \<and> writable d' (ss_name s)"
    if "x \<in> set builtin" for x
  proof -
    from that ok obtain r where r: "r \<in> set rs" "rg_descriptive_name r = x" by (metis image_iff set_map)
    with ok m a(4) show ?thesis by (intro exI [of _ "rg_canonical r"]) (auto simp: lookup_name_def cn_get_def ok_or_def)
  qed
  with Inr a(1) show ?thesis by simp
qed

end

section \<open>An instance\<close>

text \<open>The manager as the list of approved names; a schema's JSON form is its name.\<close>

definition list_host :: "'c service_schema list \<Rightarrow> (string list, 'c) schema_host" where
  "list_host available = \<lparr>fetch_available = (\<lambda>_. Inr available), schema_to_json = (\<lambda>s. Inr (ss_name s)),
     load_schema_from_json = (\<lambda>d _. (Inr (), d)), approve_schema = (\<lambda>d n. (Inr (), n # d)), show_fold_error = (\<lambda>_. [])\<rparr>"

interpretation list_manager: schema_manager "list_host available" "\<lambda>d n. n \<in> set d"
  by unfold_locales (auto simp: list_host_def)

end
