(* ===== verification/Spec2Isabelle.thy ===== *)
theory Spec2Isabelle
  imports Contact_Book Sharing_Roles Trust_Invites Fingerprint_Keys Mem_Node Batch_Spend Calendar_Correct Moments_Correct Mem_Inbound
    Inbound_Polls Ingest_Runs Face_Cache Document_Paths Ai_Calls Mem_Cards Registration Text_Links
begin

text \<open>
  Verification of \<^verbatim>\<open>fold_db_node\<close>, a personal data node written in Rust. The node keeps
  records in the \<^verbatim>\<open>fold_db\<close> engine (a separate crate), builds a graph of fingerprints
  (e-mail addresses, names, faces) over them from texts, photos and contacts, groups the graph
  into personas, ingests folders in batches under a spend limit, holds signed identity cards
  of its owner and of peers, and talks to other nodes through an encrypted
  bulletin board: connection requests, trust roles, data shares, identity cards, queries,
  calendar overlaps and photo moments. This development models these parts and proves what
  makes them correct. File names below are relative to \<^verbatim>\<open>src/src/\<close>.

  \<^bold>\<open>Layers and theories\<close>

  \<^item> \<open>Prelude\<close>: results \<open>'e + 'a\<close> with \<^verbatim>\<open>?\<close>, \<^verbatim>\<open>map_err\<close> and collection into a result; stable
    descending sorts; first-occurrence deduplication; iteration orders of hash maps.
    \<open>Rust_Strings\<close>: the \<^verbatim>\<open>str\<close> and \<^verbatim>\<open>char\<close> functions in use. \<open>Floats\<close>: IEEE doubles and singles
    as rationals with infinities and NaN, with rounding to nearest even.
  \<^item> \<open>Kv_Store\<close>: the \<^verbatim>\<open>KvStore\<close> trait of the engine as a record of operations on a state. What
    is relied on is a locale: \<open>kv_store\<close> (a successful call has its effect), \<open>kv_atomic\<close> (a
    failed call has none) and \<open>kv_reliable\<close> (calls succeed), linked by a \<open>sublocale\<close> and
    interpreted on an association list, \<open>mem_ops\<close>. \<open>Json_Rows\<close>: rows serialized under a key
    prefix, the locales \<open>json_rows\<close> and \<open>row_family\<close> (what a table of rows promises), which
    the tables of the discovery layer interpret.
  \<^item> Stores of the owner. \<open>User_Profile\<close> (\<^verbatim>\<open>user_profile.rs\<close>), \<open>Contact_Book\<close>, \<open>Sharing_Roles\<close>,
    \<open>Trust_Invites\<close> (\<^verbatim>\<open>trust/\<close>).
  \<^item> Trust. \<open>Trust_Ops\<close> (\<^verbatim>\<open>fold_node/operation_processor/trust_ops.rs\<close> and the access context of
    \<^verbatim>\<open>query_ops.rs\<close>): grants and revocations per domain, roles of contacts, field policies and
    the sharing audit. \<open>Trust_Correct\<close>: the locale \<open>trust_store\<close> states what the engine
    promises of trust maps, contacts and roles, and what each operation does follows in it.
  \<^item> The fingerprint graph. \<open>Json_Query\<close>, \<open>Canonical_Names\<close>, \<open>Fingerprint_Keys\<close>, \<open>Resolver\<close>
    (\<^verbatim>\<open>fingerprints/\<close>) with \<open>Resolver_Correct\<close>; \<open>Served_Graph\<close> says when the queries serve a
    graph; \<open>Handlers\<close>, \<open>Personas\<close>, \<open>Persona_Edit\<close>, \<open>Persona_Store\<close>
    (\<^verbatim>\<open>handlers/fingerprints/personas.rs\<close>); \<open>Suggestions\<close>, \<open>Components\<close>, \<open>Suggestions_Correct\<close>
    (\<^verbatim>\<open>suggestions.rs\<close>, \<^verbatim>\<open>auto_propose.rs\<close>); \<open>Mem_Node\<close> is the instance the examples run on.
  \<^item> Ingestion into the graph. \<open>Single_Floats\<close>: single precision by its bits, square roots.
    \<open>Planned_Records\<close> (\<^verbatim>\<open>fingerprints/planned_record.rs\<close>, \<^verbatim>\<open>fingerprints/writer.rs\<close>), \<open>Text_Extractor\<close>,
    \<open>Face_Extractor\<close> (\<^verbatim>\<open>fingerprints/extractors/\<close>, \<^verbatim>\<open>fingerprints/face_ann_cache.rs\<close>),
    \<open>Fingerprint_Ingest\<close> (\<^verbatim>\<open>fingerprints/ingest_photo.rs\<close>, \<^verbatim>\<open>ingest_text.rs\<close>,
    \<^verbatim>\<open>ingestion_error_writer.rs\<close>, their handlers and \<^verbatim>\<open>ingestion/fingerprint_hook.rs\<close>),
    \<open>Contact_Import\<close> (\<^verbatim>\<open>handlers/fingerprints/import_contacts.rs\<close>): an extractor computes a list of
    planned records, the writer issues one create mutation after the other. \<open>Record_Store\<close>,
    \<open>Graph_Plans\<close>, \<open>Ingest_Correct\<close>, \<open>Ingest_Store\<close>, \<open>Ingest_Runs\<close>: the locales \<open>record_store\<close>,
    \<open>named_store\<close>, \<open>ingest_store\<close> and \<open>graph_reads\<close> state what is relied on of the engine, and in
    them every part of a plan keeps the graph well formed, so any run of ingestion calls
    does. \<open>Stored_Graph\<close>, \<open>Text_Links\<close>: the graph that the queries serve from the records, and
    which links a text creates in it. \<open>Face_Cache\<close>: the face cache refines a plain list.
  \<^item> Identity cards. \<open>Identity_Cards\<close> (\<^verbatim>\<open>fingerprints/self_identity.rs\<close> and the card handlers of
    \<^verbatim>\<open>handlers/fingerprints/\<close>), \<open>Identity_Correct\<close> (locale \<open>card_store\<close>: stored cards are signed),
    \<open>Identity_Audit\<close> (one Me persona, repeated imports, the audit list). \<open>Registration\<close>
    (\<^verbatim>\<open>fingerprints/registration.rs\<close>): the start-up registration of the built-in schemas.
    \<open>Mem_Records\<close>, \<open>Mem_Cards\<close>: a store, a hash without collisions and a signature scheme on
    which the locales are interpreted.
  \<^item> Documents. \<open>Decomposer\<close> (\<^verbatim>\<open>ingestion/decomposer.rs\<close>), \<open>Key_Extraction\<close>
    (\<^verbatim>\<open>ingestion/key_extraction.rs\<close>), \<open>Mutation_Generator\<close> (\<^verbatim>\<open>ingestion/mutation_generator.rs\<close>),
    \<open>Document_Paths\<close> (the walks over a document by dotted paths): how a document is split, its fields are
    mapped to a schema and its key is found. \<open>Ingestion_Errors\<close> (\<^verbatim>\<open>ingestion/error.rs\<close>),
    \<open>Ai_Response\<close>, \<open>Ai_Prompts\<close>, \<open>Ai_Calls\<close> (\<^verbatim>\<open>ingestion/ai/\<close>,
    \<^verbatim>\<open>ingestion/ingestion_service/ai_methods.rs\<close>): the schema a language model proposes, from the
    prompt to the validated reply. The model is a request over the network, a parameter.
  \<^item> Batches. \<open>Batch\<close> (\<^verbatim>\<open>ingestion/batch_controller.rs\<close>, \<^verbatim>\<open>ingestion/smart_folder/batch.rs\<close> and two
    routes): the coordinator, its workers and the user as an inductive step relation.
    \<open>Batch_Correct\<close>: invariants by rule induction. \<open>Batch_Spend\<close>: how far several workers can
    overspend, with the rounding of the sums.
  \<^item> Messages. \<open>Connections\<close>, \<open>Async_Queries\<close> (\<^verbatim>\<open>discovery/\<close>), \<open>Received_Cards\<close> (\<^verbatim>\<open>discovery/\<close> and
    \<^verbatim>\<open>handlers/fingerprints/\<close>), \<open>Message_Markers\<close> (\<^verbatim>\<open>handlers/discovery/util.rs\<close>), \<open>Inbound\<close>
    (\<^verbatim>\<open>handlers/discovery/inbound.rs\<close>, the whole poll with the handlers of all twelve message
    types), \<open>Inbound_Correct\<close> and \<open>Inbound_Polls\<close> (one message's turn, and markers across polls).
    The world of a handler is a record of the metadata store,
    the database and what left the node. \<open>Mem_Inbound\<close> is the instance.
  \<^item> \<open>Calendar_Sharing\<close>, \<open>Calendar_Correct\<close> and \<open>Photo_Moments\<close>, \<open>Moments_Correct\<close>: the two
    features that compare fingerprints with peers (\<^verbatim>\<open>discovery/calendar_sharing.rs\<close>,
    \<^verbatim>\<open>discovery/moments.rs\<close> and their handlers).

  \<^bold>\<open>How the code is rendered\<close>

  A Rust function is a definition of the same name, fallible functions return a sum with
  the error on the left and the source's message texts, structs are records, enums are
  datatypes. State is passed explicitly. \<^verbatim>\<open>async\<close> calls are calls: the only concurrency with
  shared state, the batch coordinator, is a step relation over all interleavings. Reads of
  the clock, of random numbers and of the network are arguments. A hash map that is
  iterated takes an iteration order as an argument, and results hold for every order.
  Strings are Latin-1 character lists with their UTF-8 length where the code counts bytes;
  an em dash in a message is written as two hyphens. Time stamps that are subtracted or
  stored as bytes are 64-bit words. Loops over data are recursive functions and total; the
  graph walks take as fuel the number of nodes, and the correctness theorems include that
  it suffices.

  Code outside the repository is a parameter: the key-value store, the query and mutation
  calls of the engine, serde's parsers and printers (a codec, sound if it reads what it
  wrote), the cryptographic primitives (a record with the laws \<open>box_ok\<close>), SHA-256, base64,
  UUIDs, dates and geohashes. Their documented behaviour is a hypothesis of the theorems
  that need it, and each such theorem is applied to a concrete instance.

  \<^bold>\<open>What is shown\<close>

  \<^item> Resolver: the walk returns exactly the fingerprints and mentions reachable over edges
    that are allowed, and its diagnostics are clean exactly when nothing was left out.
  \<^item> Personas: components found are the connected components, the sweep is idempotent,
    patches have the effect asked for and no other, a rejected patch changes nothing.
  \<^item> Ingestion: any sequence of ingestion calls, whatever write fails, leaves a well-formed
    graph and a face cache of stored fingerprints; a contact's signals end up in one
    component; which text edges can be followed.
  \<^item> Documents: taking a document apart and putting it together again gives it back;
    flattening lists exactly the leaves with their paths; a field that has the name of a
    schema field is mapped to it; a record's key is found wherever it is. The prompt shows
    structure and no values but for a content hint; a proposal that is accepted is valid, and
    the requests made for it are bounded; a reply without JSON can panic the task (a flaw,
    proved as such).
  \<^item> Identity cards: every stored card carries its key's signature after any run, there is at
    most one Me persona. Registration of the built-in schemas installs all names or none.
  \<^item> Batches: every file is accounted for in every reachable state, completion means all
    were processed, the coordinator always progresses, one worker keeps to the limit, and
    several exceed it by at most one file's cost for each worker.
  \<^item> Inbound messages: a message that can be opened is dispatched and marked, or reported and
    left for a later poll; while its marker is within the retention window it is not
    dispatched again by any poll; repeats make no difference; a data share is written only
    for an active contact and approved schemas; an acceptance answers the request it names.
  \<^item> Trust: a role's removal cuts access at the next request; the audit lists exactly what
    the policies allow.
  \<^item> Round trips of sealed messages; decided cards stay decided; stored hashes are bounded;
    identifiers identify; the contact book and the profile store keep their contracts.
  \<^item> The section at the end of this theory holds further results, among them the round trips
    of contacts and invites, rejected patches, repeated imports and the flaws of acceptances.

  \<^bold>\<open>Not modelled\<close>

  The engine itself and everything that only calls it (query and mutation handlers),
  outgoing discovery and publishing, the detection of faces in images (models of another
  crate), the language models themselves, file conversion, accounts, device keys and file permissions, HTTP
  routes other than the two of batches, the command-line programs and the user interface. A
  database that cannot be opened (\<^verbatim>\<open>get_db_guard\<close>) ends a handler before it does anything and
  is left out: the handlers are modelled on an open database. Logging has no effect in the
  model; the log lines that slice a text at a byte index, which panic inside a character when
  their level is enabled, are left out with it. The lock of the name registry is never
  poisoned, since nothing panics under it. The metadata store of the node appears in the
  world of an inbound message as two components: the discovery rows (\<open>w_meta\<close>) and, within
  \<open>w_db\<close>, the owner's stores, whose keys have prefixes of their own. The index of the face
  cache is rebuilt with random seeds; a search is a function of the cached entries here, and
  the results hold for every such function that returns positions of the index.
\<close>

section \<open>Resolving a persona\<close>

text \<open>
  C1: resolving a persona always returns, on every finite graph whose lookups do not fail, and the
  result is determined by reachability: the fingerprints are exactly those reachable from existing
  seeds over edges that are not excluded, not forbidden and not below the threshold; the edges are
  exactly the passable edges at those fingerprints; the mentions are theirs less the excluded ones
  plus the included ones; and the diagnostics count exactly the junction rows and mentions that
  were left out.
\<close>

theorem resolve_correct:
  assumes "env_graph env G" "junction_ok G" "finite_graph G" "iteration_order it"
  shows "\<exists>d. diagnoses spec G d \<and>
     resolve it env spec = Some (Inr (if diag_is_clean d then Resolved (resolved_body spec G)
                                      else ResolvedWithDiagnostics (resolved_body spec G) d))"
  using resolve_spec [OF assms] by blast

theorem resolve_correct_witness:
  "\<exists>d. diagnoses (sample_spec (1/2)) sample_graph d \<and>
     resolve sorted_list_of_set (served_env sample_graph) (sample_spec (1/2)) =
       Some (Inr (if diag_is_clean d then Resolved (resolved_body (sample_spec (1/2)) sample_graph)
                  else ResolvedWithDiagnostics (resolved_body (sample_spec (1/2)) sample_graph) d))"
  by (rule resolve_correct [OF sample_env_graph sample_junction_ok sample_finite iteration_order_sorted])

section \<open>Processing inbound messages\<close>

text \<open>
  C2: a poll neither loses a message nor marks one too early: take a message this node can open,
  not yet marked, delivered once in the poll. Either its dispatch succeeded in the world its turn
  began in, the turn left that dispatch's world with the marker added and nothing else, the marker
  stands at the end of the poll and no failure is reported for it; or it is reported among the
  failures and stays without a marker, so a later poll takes it up again. (A message delivered
  twice in one poll can fail first and be marked by its second copy; it is then both reported and
  marked.)
\<close>

theorem poll_settles_or_reports:
  assumes "kv_atomic (in_ops env) view" "process_messages env draw mk (before @ msg # after) w = (errs, w')"
    and "opens env mk msg" "\<not> marked view w (em_message_id msg)"
    and "em_message_id msg \<notin> em_message_id ` (set before \<union> set after)"
  shows "marked view w' (em_message_id msg) \<and> em_message_id msg \<notin> fst ` set errs \<and>
      dispatched_and_marked env view (draw (em_message_id msg)) mk msg
        (snd (process_messages env draw mk before w)) (snd (process_messages env draw mk (before @ [msg]) w)) \<or>
    \<not> marked view w' (em_message_id msg) \<and> em_message_id msg \<in> fst ` set errs"
  by (rule once_in_poll [OF assms])

theorem poll_settles_or_reports_witness:
  "dispatched_and_marked (mem_inbound JNull no_connection no_share) map_of fixed_draws [] sample_message empty_world
     (snd (process_messages (mem_inbound JNull no_connection no_share) (\<lambda>_. fixed_draws) [] [sample_message] empty_world))"
proof -
  have run: "process_messages (mem_inbound JNull no_connection no_share) (\<lambda>_. fixed_draws) [] ([] @ sample_message # []) empty_world =
      ([], empty_world\<lparr>w_meta := [(marker_key ''m1'', Marker_Bytes (encode_marker_timestamp 1000))]\<rparr>)"
    by (simp add: process_messages_def sample_step)
  have "\<not> marked map_of empty_world (em_message_id sample_message)" by (simp add: marked_def empty_world_def)
  from poll_settles_or_reports [OF mem_inbound_atomic run sample_opens this] show ?thesis
    by (simp add: process_messages_def)
qed

text \<open>
  C3: repeated deliveries make no difference: a poll that reports no failure leaves exactly the
  state that processing the first copy of each message this node can open leaves.
\<close>

theorem poll_ignores_repeats:
  assumes "kv_atomic (in_ops env) view" "process_messages env draw mk msgs w = ([], w')"
  shows "process_messages env draw mk (dedup_by em_message_id {} (filter (opens env mk) msgs)) w = ([], w')"
  using fold_process_dedup [OF assms(1), of draw mk msgs w "{}"] assms(2) by (simp add: process_messages_def)

theorem poll_ignores_repeats_witness:
  "\<exists>w'. process_messages (mem_inbound JNull no_connection no_share) (\<lambda>_. fixed_draws) [] [sample_message, sample_message] empty_world = ([], w') \<and>
     process_messages (mem_inbound JNull no_connection no_share) (\<lambda>_. fixed_draws) []
       (dedup_by em_message_id {} (filter (opens (mem_inbound JNull no_connection no_share) []) [sample_message, sample_message])) empty_world = ([], w')"
proof -
  obtain w' where "process_messages (mem_inbound JNull no_connection no_share) (\<lambda>_. fixed_draws) [] [sample_message, sample_message] empty_world = ([], w')"
    using sample_poll by blast
  with poll_ignores_repeats [OF mem_inbound_atomic this] show ?thesis by blast
qed

text \<open>
  C4: a message marked as processed at a time \<open>t\<close> is not dispatched again while its
  marker is within the retention window: through any number of polls, each with whatever messages,
  failures and pruning it has, none of them run more than seven days after \<open>t\<close>, the
  marker keeps its value, and a further delivery of the message changes nothing. (Past the window
  a pruning run removes the marker, and a message still on the bulletin board is dispatched again,
  as the code's comment accepts.)
\<close>

theorem processed_never_redispatched:
  assumes "kv_atomic (in_ops env) view" "view (w_meta w) (marker_key (em_message_id msg)) = Some v"
    and "bytes_of env v = encode_marker_timestamp t"
    and "\<forall>x \<in> set xs. pi_now x < t \<or> pi_now x - t \<le> DEDUP_RETENTION_SECS"
  shows "view (w_meta (run_polls env mk xs w)) (marker_key (em_message_id msg)) = Some v \<and>
     snd (process_messages env draw mk (before @ [msg]) (run_polls env mk xs w)) =
     snd (process_messages env draw mk before (run_polls env mk xs w))"
proof
  show m: "view (w_meta (run_polls env mk xs w)) (marker_key (em_message_id msg)) = Some v"
    by (rule run_polls_keep_marker [OF assms(1,3,4,2)])
  show "snd (process_messages env draw mk (before @ [msg]) (run_polls env mk xs w)) =
     snd (process_messages env draw mk before (run_polls env mk xs w))"
    by (rule redelivery_ignored [OF assms(1)]) (simp add: marked_def m)
qed

theorem processed_never_redispatched_witness:
  "let env = mem_inbound JNull no_connection no_share;
       w = empty_world\<lparr>w_meta := [(marker_key ''m1'', Marker_Bytes (encode_marker_timestamp 1000))]\<rparr>;
       poll = \<lparr>pi_draw = \<lambda>_. fixed_draws, pi_pseudonyms = Inr [[]], pi_poll = \<lambda>_. Inr [sample_message], pi_polls = 50, pi_now = 605800\<rparr>
   in snd (process_messages env (\<lambda>_. fixed_draws) [] [sample_message] (run_polls env [] [poll] w)) = run_polls env [] [poll] w"
proof -
  let ?env = "mem_inbound JNull no_connection no_share"
  let ?w = "empty_world\<lparr>w_meta := [(marker_key ''m1'', Marker_Bytes (encode_marker_timestamp 1000))]\<rparr>"
  let ?poll = "\<lparr>pi_draw = \<lambda>_. fixed_draws, pi_pseudonyms = Inr [[]], pi_poll = \<lambda>_. Inr [sample_message], pi_polls = 50,
    pi_now = 605800\<rparr>"
  have id: "em_message_id sample_message = ''m1''" by (simp add: sample_message_def)
  have "map_of (w_meta ?w) (marker_key (em_message_id sample_message)) = Some (Marker_Bytes (encode_marker_timestamp 1000))"
    by (simp add: id)
  moreover have "bytes_of ?env (Marker_Bytes (encode_marker_timestamp 1000)) = encode_marker_timestamp 1000" by (simp add: mem_inbound_def)
  moreover have "\<forall>x \<in> set [?poll]. pi_now x < 1000 \<or> pi_now x - 1000 \<le> DEDUP_RETENTION_SECS"
    by (simp add: DEDUP_RETENTION_SECS_def)
  ultimately have "snd (process_messages ?env (\<lambda>_. fixed_draws) [] ([] @ [sample_message]) (run_polls ?env [] [?poll] ?w)) =
      snd (process_messages ?env (\<lambda>_. fixed_draws) [] [] (run_polls ?env [] [?poll] ?w))"
    by (rule processed_never_redispatched [OF mem_inbound_atomic, THEN conjunct2])
  then have "snd (process_messages ?env (\<lambda>_. fixed_draws) [] [sample_message] (run_polls ?env [] [?poll] ?w)) = run_polls ?env [] [?poll] ?w"
    unfolding process_messages_def by (simp only: append_Nil fold.simps id_apply snd_conv)
  then show ?thesis by (simp only: Let_def)
qed

text \<open>
  C5: a data share writes nothing -- no record, no file, no face index, no notification -- unless
  the sender is an active contact in a readable contact book and every schema it names is an
  approved one of this node.
\<close>

theorem data_share_guarded:
  assumes "handle_data_share env dr p w = (r, w')" "w' \<noteq> w"
  shows "\<exists>book c states. load_contacts (contact_ops (in_db env)) (w_db w) = Inr book \<and>
     book (ds_sender_public_key p) = Some c \<and> \<not> revoked c \<and> schema_states env (w_db w) = Inr states \<and>
     (\<forall>rec \<in> set (ds_records p). states (sr_schema_name rec) = Some Approved)"
  using assms by (rule data_share_guard)

theorem data_share_guarded_witness:
  "\<exists>w' book c. handle_data_share (mem_inbound JNull no_connection no_share) fixed_draws no_share known_world = (Inr Handled, w') \<and>
     w' \<noteq> known_world \<and> load_contacts (contact_ops mem_trust_db) (w_db known_world) = Inr book \<and> book ''pk'' = Some c \<and> \<not> revoked c"
proof -
  obtain w' where w': "handle_data_share (mem_inbound JNull no_connection no_share) fixed_draws no_share known_world = (Inr Handled, w')"
    "w' \<noteq> known_world"
    using known_share_handled by blast
  from data_share_guarded [OF this] w' show ?thesis
    unfolding mem_inbound_simps(2) by (simp only: no_share_key) blast
qed

section \<open>Diagnostics and exclusions\<close>

text \<open>
  C6: over a store whose reads succeed and whose junction rows only name edges that end at the
  fingerprint they are filed under, the result of the resolver tells whether anything was
  filtered: it is a clean \<open>Resolved\<close> exactly when no seed or endpoint was missing,
  every edge at a reached fingerprint was used and no mention was excluded. (Both conditions are
  needed: a failed read aborts the resolution, and an edge filed at a fingerprint it does not end
  at is counted as used without being followed and without a diagnostic.)
\<close>

theorem resolve_clean_iff:
  assumes "env_graph env G" "junction_ok G" "finite_graph G" "iteration_order it"
  shows "\<exists>r. resolve it env spec = Some (Inr r) \<and> (result_is_clean r \<longleftrightarrow> nothing_filtered spec G)"
proof -
  obtain d where d: "diagnoses spec G d" "finite (Collect (reach spec G))"
      "resolve it env spec = Some (Inr (if diag_is_clean d then Resolved (resolved_body spec G)
                                        else ResolvedWithDiagnostics (resolved_body spec G) d))"
    using resolve_spec [OF assms] by blast
  from diagnoses_clean [OF d(1,2)] d(3) show ?thesis by auto
qed

theorem resolve_clean_iff_witness:
  "\<exists>r. resolve sorted_list_of_set (served_env sample_graph) (sample_spec 1) = Some (Inr r) \<and>
     (result_is_clean r \<longleftrightarrow> nothing_filtered (sample_spec 1) sample_graph)"
  by (rule resolve_clean_iff [OF sample_env_graph sample_junction_ok sample_finite iteration_order_sorted])

text \<open>
  C7: whatever the engine answers, consistent or not, a result never uses an edge the persona
  excludes, and never lists an excluded mention unless it is explicitly included.
\<close>

theorem resolve_respects_exclusions:
  assumes "resolve it env spec = Some (Inr r)"
  shows "r_edge_ids (result_body r) \<inter> excluded_edge_ids spec = {} \<and>
     r_mention_ids (result_body r) \<inter> excluded_mention_ids spec \<subseteq> included_mention_ids spec"
  using resolve_excludes [OF assms] by blast

theorem resolve_respects_exclusions_witness:
  "\<exists>r. resolve sorted_list_of_set (served_env sample_graph) ((sample_spec (1/2))\<lparr>excluded_edge_ids := {''e_bc''}\<rparr>) = Some (Inr r) \<and>
     ''e_bc'' \<notin> r_edge_ids (result_body r)"
proof -
  obtain r where r: "resolve sorted_list_of_set (served_env sample_graph)
      ((sample_spec (1/2))\<lparr>excluded_edge_ids := {''e_bc''}\<rparr>) = Some (Inr r)"
    using resolve_spec [OF sample_env_graph sample_junction_ok sample_finite iteration_order_sorted] by blast
  from resolve_respects_exclusions [OF this] r show ?thesis by auto
qed

section \<open>Suggested personas\<close>



text \<open>
  C9: sweeping is idempotent: after a sweep that created a persona for every candidate, the sweep
  proposes nothing, because each new persona covers its component and persona writes leave the
  graph alone.
\<close>

theorem sweep_idempotent:
  assumes store: "persona_store nd ps view" and apart: "graph_names_apart nd ps"
    and due: "DEBOUNCE_MS \<le> now_ms - last_ms" and first: "list_suggested_personas it sha nd d = Some (Inr sugs)"
    and run: "run_sweep_and_create_personas it sha nd uuids now_ms now last_ms d = Some (out, last', d')"
    and all: "created out = candidates out"
    and fresh: "inj uuids" "\<And>i. view d (''ps_auto_'' @ uuids i) = None"
    and scan: "load_persona_seed_sets nd d' = Inr sets"
  shows "list_suggested_personas it sha nd d' = Some (Inr [])"
proof -
  have "lookup_name (registry nd) (PERSONA nd) = Inr ps"
    using persona_store.canonical_ok [OF store] by (simp add: canonical_lookup_def)
  with run due first all have "create_each nd ps now (zip sugs (map uuids [0..<length sugs])) d 0 = (length sugs, d')"
    by (auto simp: run_sweep_and_create_personas_def split: prod.splits)
  then show ?thesis
    by (rule persona_store.sweep_again [OF store first apart])
      (use fresh scan in \<open>auto simp: distinct_map inj_on_def inj_def\<close>)
qed

theorem sweep_idempotent_witness:
  "\<exists>out l d'. run_sweep_and_create_personas sorted_list_of_set (\<lambda>_. []) (mem_node dense_graph) (\<lambda>i. replicate i CHR ''u'')
       40000 ''now'' 0 [] = Some (out, l, d') \<and> created out = 1 \<and>
     list_suggested_personas sorted_list_of_set (\<lambda>_. []) (mem_node dense_graph) d' = Some (Inr [])"
proof -
  let ?u = "\<lambda>i. replicate i CHR ''u''"
  obtain s where s: "list_suggested_personas sorted_list_of_set (\<lambda>_. []) (mem_node dense_graph) [] = Some (Inr [s])"
    using dense_suggestion by blast
  obtain n d' where c: "create_each (mem_node dense_graph) ''persona'' ''now'' (zip [s] (map ?u [0..<1])) [] 0 = (n, d')"
    by (cases "create_each (mem_node dense_graph) ''persona'' ''now'' (zip [s] (map ?u [0..<1])) [] 0")
  with mem_create_each [of dense_graph "''now''" "zip [s] (map ?u [0..<1])" "[]" 0] have n: "n = 1" by simp
  have run: "run_sweep_and_create_personas sorted_list_of_set (\<lambda>_. []) (mem_node dense_graph) ?u 40000 ''now'' 0 [] =
      Some (\<lparr>candidates = 1, created = 1, skipped_debounced = False\<rparr>, 40000, d')"
    using s c n by (simp add: run_sweep_and_create_personas_def mem_persona_name DEBOUNCE_MS_def)
  obtain sets where sets: "load_persona_seed_sets (mem_node dense_graph) d' = Inr sets" using mem_seed_sets by blast
  have "list_suggested_personas sorted_list_of_set (\<lambda>_. []) (mem_node dense_graph) d' = Some (Inr [])"
    by (rule sweep_idempotent [OF mem_persona_store mem_names_apart _ s run _ _ _ sets])
      (auto simp: DEBOUNCE_MS_def inj_def dest: arg_cong [where f = length])
  with run show ?thesis by auto
qed

text \<open>
  C10: every suggestion has at least three fingerprints, listed in order, and at least five
  distinct mentions, and no stored persona has all its seeds among its fingerprints.
\<close>

theorem suggestions_meet_gates:
  assumes "list_suggested_personas it sha nd d = Some (Inr sugs)" "s \<in> set sugs"
  shows "3 \<le> length (sg_fingerprint_ids s) \<and> 5 \<le> sg_mention_count s \<and> sorted (sg_fingerprint_ids s) \<and>
    (\<forall>sets. load_persona_seed_sets nd d = Inr sets \<longrightarrow> (\<forall>S \<in> set sets. S \<noteq> {} \<longrightarrow> \<not> S \<subseteq> set (sg_fingerprint_ids s)))"
  using suggestions_gated [OF assms] by (simp add: MIN_FINGERPRINTS_def MIN_MENTIONS_def)

theorem suggestions_meet_gates_witness:
  "\<exists>s. list_suggested_personas sorted_list_of_set (\<lambda>_. []) (mem_node dense_graph) [] = Some (Inr [s]) \<and>
     3 \<le> length (sg_fingerprint_ids s) \<and> 5 \<le> sg_mention_count s"
proof -
  obtain s where s: "list_suggested_personas sorted_list_of_set (\<lambda>_. []) (mem_node dense_graph) [] = Some (Inr [s])"
    using dense_suggestion by blast
  from suggestions_meet_gates [OF s, of s] s show ?thesis by auto
qed

section \<open>Editing personas\<close>

text \<open>
  C11: excluding an edge works end to end: after a successful patch that adds an edge to the
  exclusions, the persona returned lists the edge as excluded and its resolved cluster does not
  use it.
\<close>

theorem patch_hides_edge:
  assumes "persona_store nd ps view" "iteration_order it"
    and "apply_persona_patch it nd d pid p = (Some (Inr det), d')"
    and "pp_add_excluded_edge_id p = Some e" "pp_remove_excluded_edge_id p = None"
  shows "e \<in> set (pd_excluded_edge_ids det) \<and> e \<notin> set (pd_edge_ids det)"
  using assms by (intro persona_store.patch_excludes_edge)

theorem patch_hides_edge_witness:
  "\<exists>det d'. apply_persona_patch sorted_list_of_set (mem_node sample_graph) sample_db ''ps_1''
       (empty_patch\<lparr>pp_add_excluded_edge_id := Some ''e_bc''\<rparr>) = (Some (Inr det), d') \<and>
     ''e_bc'' \<in> set (pd_excluded_edge_ids det) \<and> ''e_bc'' \<notin> set (pd_edge_ids det)"
proof -
  obtain det d' where run: "apply_persona_patch sorted_list_of_set (mem_node sample_graph) sample_db ''ps_1''
      (empty_patch\<lparr>pp_add_excluded_edge_id := Some ''e_bc''\<rparr>) = (Some (Inr det), d')"
    using mem_patch_runs by blast
  from patch_hides_edge [OF mem_persona_store iteration_order_sorted run] run show ?thesis
    by (auto simp: empty_patch_def)
qed

text \<open>
  C12: a successful patch changes one stored persona by merging the patched fields into it and no
  other persona; it never changes the id, seeds, included mentions, trust tier, built-in flag or
  creation time, never un-confirms a confirmed persona, and on a built-in persona neither renames
  nor unlinks.
\<close>

theorem patch_effect:
  assumes "persona_store nd ps view" "apply_persona_patch it nd d pid p = (Some (Inr det), d')"
  shows "\<exists>old m'. view d pid = Some old \<and> view d' = (view d)(pid \<mapsto> old ++ m') \<and>
     (\<forall>k \<in> {''id'', ''seed_fingerprint_ids'', ''included_mention_ids'', ''trust_tier'', ''built_in'', ''created_at''}.
        (old ++ m') k = old k) \<and>
     (payload_bool old ''user_confirmed'' \<longrightarrow> payload_bool m' ''user_confirmed'') \<and>
     (payload_bool old ''built_in'' \<longrightarrow> pp_name p = None \<and> \<not> pp_clear_identity_id p)"
proof -
  obtain old m' where m': "view d pid = Some old" "patch_payload p (old |` set persona_fields) = Inr m'"
      "view d' = (view d)(pid \<mapsto> old ++ m')"
    using persona_store.patch_view [OF assms] by blast
  have "(old ++ m') k = old k" if "k \<in> {''id'', ''seed_fingerprint_ids'', ''included_mention_ids'', ''trust_tier'', ''built_in'', ''created_at''}" for k
  proof -
    have "k \<notin> array_stage_fields \<union> late_stage_fields" "k \<in> set persona_fields"
      using that by (auto simp: array_stage_fields_def late_stage_fields_def persona_fields_def)
    with patch_payload_frame [OF m'(2)] have "m' k = old k" by simp
    then show ?thesis by (simp add: map_add_def split: option.split)
  qed
  moreover have "payload_bool old ''user_confirmed'' \<longrightarrow> payload_bool m' ''user_confirmed''"
    using patch_keeps_confirmed [OF m'(2)] by (simp add: payload_bool_def persona_fields_def)
  moreover have "payload_bool old ''built_in'' \<longrightarrow> pp_name p = None \<and> \<not> pp_clear_identity_id p"
    using patch_built_in_guard [OF m'(2)] by (simp add: payload_bool_def persona_fields_def)
  ultimately show ?thesis using m'(1,3) by blast
qed

theorem patch_effect_witness:
  "\<exists>det d' old m'. apply_persona_patch sorted_list_of_set (mem_node sample_graph) sample_db ''ps_1''
       (empty_patch\<lparr>pp_add_excluded_edge_id := Some ''e_bc''\<rparr>) = (Some (Inr det), d') \<and>
     map_of sample_db ''ps_1'' = Some old \<and> map_of d' = (map_of sample_db)(''ps_1'' \<mapsto> old ++ m')"
proof -
  obtain det d' where run: "apply_persona_patch sorted_list_of_set (mem_node sample_graph) sample_db ''ps_1''
      (empty_patch\<lparr>pp_add_excluded_edge_id := Some ''e_bc''\<rparr>) = (Some (Inr det), d')"
    using mem_patch_runs by blast
  from patch_effect [OF mem_persona_store run] run show ?thesis by blast
qed

text \<open>
  C13: a successful merge removes the absorbed persona, changes no third persona, and leaves a
  survivor whose seeds are the duplicate-free union of both personas' seeds and whose verified
  identity is the survivor's or else the absorbed one's; neither persona was built in and two
  different verified identities are never merged.
\<close>

theorem merge_effect:
  assumes "persona_store nd ps view" "merge_personas it nd d sid aid = (Some (Inr det), d')"
  shows "\<exists>s a m. sid \<noteq> aid \<and> view d sid = Some s \<and> view d aid = Some a \<and>
     view d' = (view d)(sid \<mapsto> s ++ m, aid := None) \<and>
     set (payload_strings m ''seed_fingerprint_ids'') =
       set (payload_strings s ''seed_fingerprint_ids'') \<union> set (payload_strings a ''seed_fingerprint_ids'') \<and>
     distinct (payload_strings m ''seed_fingerprint_ids'') \<and>
     payload_identity m = (case payload_identity s of Some k \<Rightarrow> Some k | None \<Rightarrow> payload_identity a) \<and>
     \<not> payload_bool s ''built_in'' \<and> \<not> payload_bool a ''built_in'' \<and>
     (payload_identity s = None \<or> payload_identity a = None \<or> payload_identity s = payload_identity a)"
  using assms(2)
proof (rule persona_store.merge_ok_cases [OF assms(1)])
  fix s a skvs akvs m
  assume c: "sid \<noteq> aid" "view d sid = Some s" "view d aid = Some a" "map_of skvs = s |` set persona_fields"
    "map_of akvs = a |` set persona_fields" "merge_payload (JObj skvs) (JObj akvs) = Inr m"
    "view d' = (view d)(sid \<mapsto> s ++ m, aid := None)"
  have fields: "payload_strings (map_of skvs) ''seed_fingerprint_ids'' = payload_strings s ''seed_fingerprint_ids''"
      "payload_strings (map_of akvs) ''seed_fingerprint_ids'' = payload_strings a ''seed_fingerprint_ids''"
      "payload_identity (map_of skvs) = payload_identity s" "payload_identity (map_of akvs) = payload_identity a"
      "payload_bool (map_of skvs) ''built_in'' = payload_bool s ''built_in''"
      "payload_bool (map_of akvs) ''built_in'' = payload_bool a ''built_in''"
    by (simp_all add: c(4,5) payload_strings_def payload_array_def payload_identity_def payload_bool_def persona_fields_def)
  from merge_payload_seeds [OF c(6)] merge_payload_identity [OF c(6)] merge_payload_guards [OF c(6)] c(1-3,7)
  show ?thesis
    unfolding extract_identity_payload fields by (metis set_union_string_arrays)
qed

theorem merge_effect_witness:
  "\<exists>det d' s a m. merge_personas sorted_list_of_set (mem_node sample_graph) sample_db ''ps_1'' ''ps_2'' = (Some (Inr det), d') \<and>
     map_of sample_db ''ps_1'' = Some s \<and> map_of sample_db ''ps_2'' = Some a \<and>
     map_of d' = (map_of sample_db)(''ps_1'' \<mapsto> s ++ m, ''ps_2'' := None) \<and>
     payload_identity m = (case payload_identity s of Some k \<Rightarrow> Some k | None \<Rightarrow> payload_identity a)"
proof -
  obtain det d' where run: "merge_personas sorted_list_of_set (mem_node sample_graph) sample_db ''ps_1'' ''ps_2'' = (Some (Inr det), d')"
    using mem_merge_runs by blast
  from merge_effect [OF mem_persona_store run] run show ?thesis by blast
qed

section \<open>Ingestion into the graph\<close>

text \<open>
  C14: whatever sequence of photo batches, text batches, hook runs and contact imports a node
  performs, and wherever a write of one of them fails, the stored fingerprint graph stays well
  formed: every fingerprint and edge is stored under its own identifier, and every mention under
  an identifier made from the source it records; every edge ends at two stored fingerprints; a row
  of \<^verbatim>\<open>EdgeByFingerprint\<close> names a stored edge that ends at the row's
  fingerprint; a row of \<^verbatim>\<open>MentionBySource\<close> names a stored mention whose
  identifier is made from the source the row is filed under; a row of
  \<^verbatim>\<open>MentionByFingerprint\<close> names a stored mention, under a stored
  fingerprint (the mention may no longer list it: ingesting a changed source again overwrites the
  mention and leaves the old rows). And every face in the nearest-neighbour cache is a stored
  fingerprint.
\<close>

theorem ingestion_keeps_graph:
  assumes "graph_reads N held A" "search_ok search" "(ingest_step ops N search pats A)\<^sup>*\<^sup>* (d, g) (d', g')"
    and "graph_wf N A (stored_view (host N) held d)" "cache_wf N A (ag_cache g) (stored_view (host N) held d)"
  shows "graph_wf N A (stored_view (host N) held d') \<and> cache_wf N A (ag_cache g') (stored_view (host N) held d')"
  using graph_reads.ingest_run_keeps [OF assms(1,3,2)] assms(4,5) by simp

theorem ingestion_keeps_graph_witness:
  "let d' = snd (ingest_text_signals_batch rec_node three_mails ''t'' (\<lambda>_. ''t'') ''Mail'' [\<lparr>tr_source_key = ''m1'', tr_text = ''b'',
       tr_expected_to_yield = True\<rparr>] []) in
   graph_wf rec_node (set three_ids) (stored_view (host rec_node) mem_held d')"
proof -
  let ?b = "\<lparr>tr_source_key = ''m1'', tr_text = ''b'', tr_expected_to_yield = True\<rparr>"
  let ?g = "\<lparr>ag_cache = empty_cache, ag_initialized = False\<rparr>"
  obtain r d' where d': "ingest_text_signals_batch rec_node three_mails ''t'' (\<lambda>_. ''t'') ''Mail'' [?b] [] = (r, d')"
    by (cases "ingest_text_signals_batch rec_node three_mails ''t'' (\<lambda>_. ''t'') ''Mail'' [?b] []")
  have run: "(ingest_step (mem_ops :: ((string \<times> contact) list, string, contact) kv_ops) rec_node (\<lambda>es q. []) three_mails (set three_ids))\<^sup>*\<^sup>* ([], ?g) (d', ?g)"
    by (rule r_into_rtranclp, rule ingest_step.texts [OF d']) (simp add: three_signal_ids)
  have search: "search_ok (\<lambda>es q. [])" by (simp add: search_ok_def)
  have "graph_wf rec_node (set three_ids) (stored_view (host rec_node) mem_held d') \<and>
      cache_wf rec_node (set three_ids) (ag_cache ?g) (stored_view (host rec_node) mem_held d')"
    by (rule ingestion_keeps_graph [OF rec_graph_reads [OF three_length] search run]) (simp_all add: empty_store_wf)
  then show ?thesis by (simp add: d' Let_def)
qed

text \<open>
  C15: one contact's record becomes one suggestion: after a text of a strongly binding schema is
  ingested into a well-formed graph, all its personal signals (at least three fingerprints of full
  strength) lie together in one of the components the suggestion search returns, whichever of them
  the search starts from.
\<close>

theorem contact_text_clusters:
  assumes "graph_reads N held A" "ingest_text_signals N pats s k body now Strong d = (Inr out, d')" "signal_ids N pats body \<subseteq> A"
    and "graph_wf N A (stored_view (host N) held d)" "listed_but N {} (stored_view (host N) held d)"
    and "reads_succeed (host N) d'" "finite_edges N (stored_view (host N) held d')"
    and "3 \<le> card (personal_ids N pats body)" "personal_ids N pats body \<inter> set fps \<noteq> {}"
  shows "\<exists>comps. find_components (host N) d' fps {} = Some (Inr comps) \<and>
    (\<exists>c \<in> set comps. personal_ids N pats body \<subseteq> set (comp_fingerprint_ids c))"
  using graph_reads.contact_record_clusters [OF assms] .

theorem contact_text_clusters_witness:
  "\<exists>out d' comps. ingest_text_signals rec_node three_mails ''Contacts'' ''c1'' ''b'' ''t'' Strong [] = (Inr out, d') \<and>
     find_components rec_host d' [hd three_ids] {} = Some (Inr comps) \<and>
     (\<exists>c \<in> set comps. set three_ids \<subseteq> set (comp_fingerprint_ids c))"
proof -
  obtain out d' where i: "ingest_text_signals rec_node three_mails ''Contacts'' ''c1'' ''b'' ''t'' Strong [] = (Inr out, d')"
    using rec_text_ok by blast
  have three: "3 \<le> card (personal_ids rec_node three_mails ''b'')"
    unfolding three_personal distinct_card [OF three_distinct] by (simp add: three_ids_are)
  have scan: "personal_ids rec_node three_mails ''b'' \<inter> set [hd three_ids] \<noteq> {}"
    unfolding three_personal by (simp add: three_ids_are)
  have ids: "signal_ids rec_node three_mails ''b'' \<subseteq> set three_ids" by (simp add: three_signal_ids)
  have "\<exists>comps. find_components (host rec_node) d' [hd three_ids] {} = Some (Inr comps) \<and>
      (\<exists>c \<in> set comps. personal_ids rec_node three_mails ''b'' \<subseteq> set (comp_fingerprint_ids c))"
    by (rule contact_text_clusters [OF rec_graph_reads [OF three_length] i ids _ _ _ _ three scan])
      (simp_all only: rec_node_simps empty_store_wf empty_store_listed rec_reads_succeed rec_finite_edges)
  with i show ?thesis unfolding three_personal rec_node_simps by blast
qed

text \<open>
  C16: which links a text creates is decided by its schema and by the strengths of the signals:
  after the text is ingested, the edge between two of its signals is one the suggestion walk may
  follow exactly when the schema binds strongly and both signals have full strength (so a shared
  inbox like info@ never joins two people).
\<close>

theorem text_edge_traversable:
  assumes "graph_reads N held A" "ingest_text_signals N pats s k body now binding d = (Inr out, d')" "signal_ids N pats body \<subseteq> A"
    and "graph_wf N A (stored_view (host N) held d)" "reads_succeed (host N) d'"
    and "(x, y) \<in> set (unordered_pairs (record_signals N pats body))"
  shows "strong (stored_graph (host N) d') (signal_edge N binding x y) \<longleftrightarrow>
    binding = Strong \<and> es_strength x = Fin 1 \<and> es_strength y = Fin 1"
  using graph_reads.text_edge_strong [OF assms] .

theorem text_edge_traversable_witness:
  "\<exists>out d' x y. ingest_text_signals rec_node three_mails ''Contacts'' ''c1'' ''b'' ''t'' Strong [] = (Inr out, d') \<and>
     (x, y) \<in> set (unordered_pairs (record_signals rec_node three_mails ''b'')) \<and>
     strong (stored_graph rec_host d') (signal_edge rec_node Strong x y)"
proof -
  obtain out d' where i: "ingest_text_signals rec_node three_mails ''Contacts'' ''c1'' ''b'' ''t'' Strong [] = (Inr out, d')"
    using rec_text_ok by blast
  have ids: "signal_ids rec_node three_mails ''b'' \<subseteq> set three_ids" by (simp add: three_signal_ids)
  obtain x y zs where sig: "record_signals rec_node three_mails ''b'' = x # y # zs" "es_strength x = Fin 1" "es_strength y = Fin 1"
    by (simp add: three_record_signals three_signals)
  have xy: "(x, y) \<in> set (unordered_pairs (record_signals rec_node three_mails ''b''))" by (simp add: sig(1))
  have "strong (stored_graph (host rec_node) d') (signal_edge rec_node Strong x y) \<longleftrightarrow>
      Strong = Strong \<and> es_strength x = Fin 1 \<and> es_strength y = Fin 1"
    by (rule text_edge_traversable [OF rec_graph_reads [OF three_length] i ids _ _ xy])
      (simp_all only: rec_node_simps empty_store_wf rec_reads_succeed)
  with sig(2,3) have "strong (stored_graph rec_host d') (signal_edge rec_node Strong x y)" by simp
  with i xy show ?thesis by blast
qed

text \<open>
  C17: the face cache refines a plain list: whatever sequence of additions, flushes, rebuilds and
  searches is run on a fresh cache, every search answers as if it went over the list of all
  entries added so far, including the pending ones; the staleness test by length never serves an
  outdated index.
\<close>

theorem face_cache_refines_list:
  "fst (run_cache_ops search xs empty_cache) = fst (list_cache_ops search xs []) \<and>
   ann_entries (snd (run_cache_ops search xs empty_cache)) = snd (list_cache_ops search xs [])"
proof -
  obtain hs c' where r: "run_cache_ops search xs empty_cache = (hs, c')" by (cases "run_cache_ops search xs empty_cache")
  from cache_ops_refine [OF ann_ok_empty r] r show ?thesis by (simp add: empty_cache_def)
qed

section \<open>Ingesting documents\<close>

text \<open>
  C18: decomposing a document loses nothing when its arrays of objects hold only objects: the
  fields left in the parent and the child groups put back under their names are together exactly
  the fields of the document, and the parent has no array of objects left.
\<close>

theorem decompose_reassembles:
  assumes "distinct (map fst kvs)"
    and "\<forall>(k, v) \<in> set kvs. object_array v \<longrightarrow> list_all is_object (the (as_array v))"
  shows "\<exists>p. dr_parent (decompose sha (JObj kvs)) = JObj p \<and> (\<forall>(k, v) \<in> set p. \<not> object_array v) \<and>
    mset p + mset (map (\<lambda>cg. (cg_field_name cg, JArr (cg_items cg))) (dr_children (decompose sha (JObj kvs)))) = mset kvs"
  using children_whole [OF assms(2)] by (auto simp: decompose_object [OF assms(1)] multiset_partition_snd)

theorem decompose_reassembles_witness:
  "\<exists>p. dr_parent (decompose (\<lambda>b. ''h'') (JObj [(''id'', JInt 1), (''posts'', JArr [JObj [(''t'', JStr ''a'')], JObj []])])) = JObj p \<and>
     (\<forall>(k, v) \<in> set p. \<not> object_array v)"
  using decompose_reassembles [of "[(''id'', JInt 1), (''posts'', JArr [JObj [(''t'', JStr ''a'')], JObj []])]" "\<lambda>b. ''h''"]
  by (auto simp: object_array_def)

text \<open>
  C19: flattening a document agrees with walking it: when no key is empty or has a dot, a
  flattened field holds a value exactly if its dotted name, read as a path, leads to that scalar
  or array in the document; a declared key field with a dotted name is therefore found in the
  flattened record.
\<close>

theorem flattening_walks:
  assumes "plain_keys kvs"
  shows "(flatten_json_object kvs x = Some v \<longleftrightarrow>
      (\<exists>p. p \<noteq> [] \<and> join ''.'' p = x \<and> walk_path p (JObj kvs) = Some v \<and> \<not> is_object v)) \<and>
    (\<forall>p w. p \<noteq> [] \<longrightarrow> walk_path p (JObj kvs) = Some w \<longrightarrow> \<not> is_object w \<longrightarrow>
      extract_nested_field_value it (flatten_json_object kvs) (join ''.'' p) = Some w)"
  using flatten_walk [OF assms] declared_path_found [OF assms] by blast

theorem flattening_walks_witness:
  "extract_nested_field_value sorted_list_of_set (flatten_json_object [(''id'', JStr ''a''), (''profile'', JObj [(''age'', JInt 3)])]) ''profile.age'' =
     Some (JInt 3)"
  using flattening_walks [of "[(''id'', JStr ''a''), (''profile'', JObj [(''age'', JInt 3)])]" undefined undefined sorted_list_of_set]
  by (auto dest!: conjunct2 spec [where x = "[''profile'', ''age'']"])

text \<open>
  C20: whatever the order of the hash map of mappers, the mapped record has exactly the target
  fields of the mappers whose source field is present, each with the value of one of its sources,
  and where a field is mapped to itself its own value is kept.
\<close>

theorem identity_mapping_wins:
  assumes "iteration_order it" "finite (dom mappers)" "mappers \<noteq> Map.empty"
  shows "dom (apply_mappers it m mappers) = mapped_to mappers ` {f \<in> dom mappers. m f \<noteq> None} \<and>
    (\<forall>x v. apply_mappers it m mappers x = Some v \<longrightarrow> (\<exists>f \<in> dom mappers. mapped_to mappers f = x \<and> m f = Some v)) \<and>
    (\<forall>f \<in> dom mappers. mapped_to mappers f = f \<longrightarrow> m f \<noteq> None \<longrightarrow> apply_mappers it m mappers f = m f)"
  by (rule mappers_applied [OF assms])

theorem identity_mapping_wins_witness:
  "apply_mappers sorted_list_of_set [''full'' \<mapsto> JStr ''A. B.'', ''name'' \<mapsto> JStr ''Al''] [''full'' \<mapsto> ''P.name'', ''name'' \<mapsto> ''P.name''] ''name'' =
     Some (JStr ''Al'')"
proof -
  let ?m = "[''full'' \<mapsto> JStr ''A. B.'', ''name'' \<mapsto> JStr ''Al'']"
  let ?mappers = "[''full'' \<mapsto> ''P.name'', ''name'' \<mapsto> ''P.name''] :: string \<rightharpoonup> string"
  have self: "mapped_to ?mappers ''name'' = ''name''" by (simp add: mapped_to_def last_segment_def)
  have "?mappers ''name'' \<noteq> Map.empty ''name''" by simp
  then have "?mappers \<noteq> Map.empty" by metis
  with identity_mapping_wins [of sorted_list_of_set ?mappers ?m, OF iteration_order_sorted]
  have "\<forall>f \<in> dom ?mappers. mapped_to ?mappers f = f \<longrightarrow> ?m f \<noteq> None \<longrightarrow>
      apply_mappers sorted_list_of_set ?m ?mappers f = ?m f" by (simp del: fun_upd_apply)
  from bspec [OF this, of "''name''"] self show ?thesis by simp
qed

text \<open>
  C21: a record becomes at most one create mutation, for the schema asked for, with a complete key
  and at least one field; where the schema declares both key fields the result does not depend on
  the clock, so that the same record is written under the same key again.
\<close>

theorem record_key_complete:
  assumes "generate_mutations_for_item it ch sha show schemas now kvs schema mappers pk src md = Inr ms"
  shows "length ms \<le> 1 \<and>
    (\<forall>mu \<in> set ms. mu_schema_name mu = schema \<and> mu_type mu = Create \<and> mu_fields mu \<noteq> Map.empty \<and>
       (\<exists>h r. mu_key_value mu = (Some h, Some r))) \<and>
    (\<forall>s now'. schemas schema = Inr (Some s) \<longrightarrow> declared s = {''hash_field'', ''range_field''} \<longrightarrow>
       generate_mutations_for_item it ch sha show schemas now' kvs schema mappers pk src md = Inr ms)"
  using item_keys [OF assms] item_again assms by metis

theorem record_key_complete_witness:
  "\<exists>mu. generate_mutations_for_item sorted_list_of_set plain_chrono (\<lambda>b. ''h'') (\<lambda>v. ''n'') day_schemas ''now''
       [(''day'', JStr ''2024-01-02''), (''who'', JStr ''al'')] ''Days'' Map.empty ''pk'' None None = Inr [mu] \<and>
     (\<exists>h r. mu_key_value mu = (Some h, Some r))"
proof -
  let ?m = "flatten_json_object [(''day'', JStr ''2024-01-02''), (''who'', JStr ''al'')]"
  have m: "?m ''who'' = Some (JStr ''al'')" "?m ''day'' = Some (JStr ''2024-01-02'')"
    by (simp_all add: flatten_json_object_def path_of_def)
  then obtain keys where "extract_key_values_from_data sorted_list_of_set plain_chrono (\<lambda>v. ''n'') day_schemas ?m ''Days'' = Inr keys"
    by (simp add: extract_key_values_from_data_def day_schemas_def extract_key_def extract_nested_field_value_def)
  moreover have "(?m(''content_hash'' := None)) ''who'' \<noteq> None" using m by simp
  then have "?m(''content_hash'' := None) \<noteq> Map.empty" by metis
  ultimately obtain mu where mu: "generate_mutations_for_item sorted_list_of_set plain_chrono (\<lambda>b. ''h'') (\<lambda>v. ''n'') day_schemas ''now''
       [(''day'', JStr ''2024-01-02''), (''who'', JStr ''al'')] ''Days'' Map.empty ''pk'' None None = Inr [mu]"
    by (simp add: generate_mutations_for_item_def generate_mutations_def apply_mappers_def Let_def)
  from record_key_complete [OF mu] mu show ?thesis by auto
qed

text \<open>
  C22: what a language model is shown of a document that is no text file is its field paths with
  the names of their types and the length of the outermost array: two documents with the same
  skeleton give the same prompt, whatever their values.
\<close>

theorem prompt_shows_types:
  assumes "hint_object d = Some kvs" "map_of kvs ''file_type'' = None" "hint_object d' = Some kvs'" "map_of kvs' ''file_type'' = None"
    and "extract_structure_skeleton d = extract_structure_skeleton d'" "as_array d \<noteq> None \<longleftrightarrow> as_array d' \<noteq> None"
  shows "analyze_and_build_prompt P d = analyze_and_build_prompt P d' \<and>
    ran (extract_structure_skeleton d) \<subseteq> type_names \<union> array_meta ` {n. \<exists>xs. d = JArr xs \<and> length xs = n}"
proof -
  have "d \<noteq> JArr []" "d' \<noteq> JArr []" using assms(1,3) by (auto simp: hint_object_def)
  with prompt_from_skeleton [OF assms(5,6)] hint_needs_file_type assms(1-4) skeleton_shows_types show ?thesis by blast
qed

theorem prompt_shows_types_witness:
  "analyze_and_build_prompt (ai_texts stub_ai) (JObj [(''name'', JStr ''Ann''), (''age'', JInt 30)]) =
     analyze_and_build_prompt (ai_texts stub_ai) (JObj [(''name'', JStr ''Bob''), (''age'', JInt 41)])"
  using prompt_shows_types [of "JObj [(''name'', JStr ''Ann''), (''age'', JInt 30)]" "[(''name'', JStr ''Ann''), (''age'', JInt 30)]"
      "JObj [(''name'', JStr ''Bob''), (''age'', JInt 41)]" "[(''name'', JStr ''Bob''), (''age'', JInt 41)]" "ai_texts stub_ai"]
  by (simp add: hint_object_def extract_structure_skeleton_def path_of_def Let_def)

text \<open>
  C23: for one recommendation the backend is called at most three times, and each call sends at
  most \<open>max_retries\<close> requests to the model: so the requests are at most that product,
  each of a prompt with the one built from the document at its front. The proposal returned is
  sanitized, and it is an object with a non-blank descriptive name unless the model sent an array
  or no schema.
\<close>

theorem recommendation_validated:
  assumes "requests_noted calls A" "analyze_and_build_prompt (ai_texts A) data = Inr base"
  shows "(\<exists>ps. calls (snd (get_ai_recommendation A data s)) = calls s @ ps \<and>
       length ps \<le> min 3 (max 1 (ai_max_retries A)) * ai_max_retries A \<and> (\<forall>p \<in> set ps. prefix base p)) \<and>
    (\<forall>r schema. fst (get_ai_recommendation A data s) = Some (Inr r) \<longrightarrow> new_schemas r = Some schema \<longrightarrow>
       sanitize_string_map_fields (value_text (ai_serde A)) schema = schema \<and>
       (is_object schema \<and> (\<exists>n. descriptive_name_of schema = Some n \<and> trim n \<noteq> []) \<or> (\<exists>xs. schema = JArr xs)))"
proof (intro conjI allI impI)
  show "\<exists>ps. calls (snd (get_ai_recommendation A data s)) = calls s @ ps \<and>
      length ps \<le> min 3 (max 1 (ai_max_retries A)) * ai_max_retries A \<and> (\<forall>p \<in> set ps. prefix base p)"
    using recommendation_calls [OF assms] unfolding asked_with_def .
next
  fix r schema
  assume r: "fst (get_ai_recommendation A data s) = Some (Inr r)" "new_schemas r = Some schema"
  from recommendation_accepted [OF r(1)] accepted_shape r(2)
  show "sanitize_string_map_fields (value_text (ai_serde A)) schema = schema"
    "is_object schema \<and> (\<exists>n. descriptive_name_of schema = Some n \<and> trim n \<noteq> []) \<or> (\<exists>xs. schema = JArr xs)"
    by blast+
qed

theorem recommendation_validated_witness:
  "\<exists>r schema. fst (get_ai_recommendation proposing_ai (JObj [(''a'', JInt 1)]) []) = Some (Inr r) \<and> new_schemas r = Some schema \<and>
     (is_object schema \<and> (\<exists>n. descriptive_name_of schema = Some n \<and> trim n \<noteq> []) \<or> (\<exists>xs. schema = JArr xs)) \<and>
     0 < length (snd (get_ai_recommendation proposing_ai (JObj [(''a'', JInt 1)]) [])) \<and>
     length (snd (get_ai_recommendation proposing_ai (JObj [(''a'', JInt 1)]) [])) \<le> 9"
proof -
  let ?schema = "JObj [(''name'', JStr ''notes''), (''descriptive_name'', JStr ''Notes'')]"
  let ?r = "\<lparr>new_schemas = Some ?schema, mutation_mappers = Map.empty\<rparr>"
  obtain base where base: "analyze_and_build_prompt (ai_texts proposing_ai) (JObj [(''a'', JInt 1)]) = Inr base"
    by (simp add: analyze_and_build_prompt_def)
  have m: "ai_max_retries proposing_ai = 3" "ai_serde proposing_ai = proposing_serde" "ai_clock proposing_ai [] = 0"
    by (simp_all add: proposing_ai_def stub_ai_def)
  have run: "get_ai_recommendation proposing_ai (JObj [(''a'', JInt 1)]) [] = (Some (Inr ?r), [base, base])"
    by (simp add: get_ai_recommendation_def base m Let_def upt_rec proposing_call proposing_parse retry_prompt_def)
  note p = recommendation_validated [OF proposing_requests base, of "[]", unfolded run fst_conv snd_conv m]
  from p [THEN conjunct2, rule_format, of ?r ?schema] show ?thesis
    unfolding run using p [THEN conjunct1] by (intro exI [of _ ?r] exI [of _ ?schema]) simp
qed

text \<open>
  C24: a reply in which no JSON is found makes ingestion panic instead of reporting an error, when
  its 200th byte is inside a character: the preview for the error message is cut at that byte.
\<close>

theorem unparsable_reply_panics:
  assumes "first_ok (value_stream J (text_to_parse response)) = None"
    and "\<forall>c \<in> set (bracket_candidates response). isl (from_text J c)"
    and "response = p @ c # q" "utf8_len p = 199" "\<not> ascii [c]"
  shows "parse_ai_response J response = None"
  using extraction_panics [OF assms] by (simp add: parse_ai_response_def)

theorem unparsable_reply_panics_witness:
  "parse_ai_response empty_serde (replicate 199 CHR ''a'' @ [CHR 0xE9]) = None"
proof (rule unparsable_reply_panics [of _ _ "replicate 199 CHR ''a''" "CHR 0xE9" "[]"])
  show "\<forall>c \<in> set (bracket_candidates (replicate 199 CHR ''a'' @ [CHR 0xE9])). isl (from_text empty_serde c)"
    by (simp add: empty_serde_def)
  have "utf8_len (replicate n CHR ''a'') = n" for n by (induction n) (simp_all add: char_width_def char_code_def)
  then show "utf8_len (replicate 199 CHR ''a'') = 199" .
qed (simp_all add: empty_serde_def ascii_def char_code_def)

section \<open>Identity cards\<close>

text \<open>
  C25: no unsigned identity card ever reaches the store: through any sequence of imports of
  arbitrary cards, bootstraps and reissues, successful or failing at any write, every stored
  Identity is keyed by its public key and carries an Ed25519 signature by that key over its name,
  birthday, face and date.
\<close>

theorem cards_stay_signed:
  assumes "card_store N held A" "keys_sign cc keys" "(card_step cc keys it N)\<^sup>*\<^sup>* d d'"
    and "identities_signed cc N (stored_view (host N) held d)"
  shows "identities_signed cc N (stored_view (host N) held d')"
  using card_store.card_run_signed [OF assms(1,3,2,4)] .

theorem cards_stay_signed_witness:
  "let d1 = snd (ensure_me_persona_if_absent plain_cards demo_keys rec_node (''1'', ''2'') ''t'' ''Ana'' []);
       d2 = snd (import_identity_card plain_cards sorted_list_of_set rec_node ''3'' ''u'' demo_card None d1) in
   identities_signed plain_cards rec_node (stored_view (host rec_node) mem_held d2)"
proof -
  obtain r1 d1 where 1: "ensure_me_persona_if_absent plain_cards demo_keys rec_node (''1'', ''2'') ''t'' ''Ana'' [] = (r1, d1)"
    by (cases "ensure_me_persona_if_absent plain_cards demo_keys rec_node (''1'', ''2'') ''t'' ''Ana'' []")
  obtain r2 d2 where 2: "import_identity_card plain_cards sorted_list_of_set rec_node ''3'' ''u'' demo_card None d1 = (r2, d2)"
    by (cases "import_identity_card plain_cards sorted_list_of_set rec_node ''3'' ''u'' demo_card None d1")
  have "(card_step plain_cards demo_keys sorted_list_of_set rec_node)\<^sup>*\<^sup>* [] d2"
    by (meson card_step.ensure_me [OF 1] card_step.import_card [OF 2] converse_rtranclp_into_rtranclp rtranclp.rtrancl_refl)
  from cards_stay_signed [OF rec_card_store [of "{}" 0] demo_keys_sign this] show ?thesis
    by (simp add: 1 2 Let_def empty_store_signed same_length_ids_def)
qed

text \<open>
  C26: there is never a second Me: starting from at most one built-in persona, any number of
  bootstrap attempts, each with its own name and fresh identifiers and each possibly failing
  midway, leaves at most one, keeps an existing one, creates at most one, and after any attempt
  that reports success there is one.
\<close>

theorem me_persona_unique:
  assumes "card_store N held A" "ensure_attempts cc keys N as d = (rs, d')"
    and "\<exists>x. built_in_personas N (stored_view (host N) held d) \<subseteq> {x}"
  shows "(\<exists>x. built_in_personas N (stored_view (host N) held d') \<subseteq> {x}) \<and>
    built_in_personas N (stored_view (host N) held d) \<subseteq> built_in_personas N (stored_view (host N) held d') \<and>
    (list_ex is_ok rs \<longrightarrow> built_in_personas N (stored_view (host N) held d') \<noteq> {}) \<and>
    length (filter (\<lambda>r. \<exists>out. r = Inr (Some out)) rs) \<le> (if built_in_personas N (stored_view (host N) held d) = {} then 1 else 0)"
  using card_store.attempts_keep_one [OF assms] .

theorem me_persona_unique_witness:
  "let d' = snd (ensure_attempts plain_cards demo_keys rec_node [((''1'', ''2''), ''t'', ''Ana''), ((''3'', ''4''), ''u'', ''Eve'')] []) in
   \<exists>x. built_in_personas rec_node (stored_view (host rec_node) mem_held d') = {x}"
proof -
  obtain r1 d1 where 1: "ensure_me_persona_if_absent plain_cards demo_keys rec_node (''1'', ''2'') ''t'' ''Ana'' [] = (r1, d1)"
    by (cases "ensure_me_persona_if_absent plain_cards demo_keys rec_node (''1'', ''2'') ''t'' ''Ana'' []")
  obtain rs d' where a: "ensure_attempts plain_cards demo_keys rec_node
      [((''1'', ''2''), ''t'', ''Ana''), ((''3'', ''4''), ''u'', ''Eve'')] [] = (rs, d')"
    by (cases "ensure_attempts plain_cards demo_keys rec_node [((''1'', ''2''), ''t'', ''Ana''), ((''3'', ''4''), ''u'', ''Eve'')] []")
  have none: "built_in_personas rec_node (stored_view (host rec_node) mem_held []) = {}"
    by (simp add: built_in_personas_def empty_view)
  have "list_ex is_ok rs" using a 1 demo_ensure by (auto split: prod.splits simp: is_ok_def)
  with me_persona_unique [OF mem_cards.card_store_axioms a] none
  have "\<exists>x. built_in_personas rec_node (stored_view (host rec_node) mem_held d') \<subseteq> {x}"
    "built_in_personas rec_node (stored_view (host rec_node) mem_held d') \<noteq> {}" by blast+
  then have "\<exists>x. built_in_personas rec_node (stored_view (host rec_node) mem_held d') = {x}" by blast
  then show ?thesis by (simp only: a Let_def snd_conv)
qed

section \<open>Smart-folder batches\<close>

text \<open>
  C27: under every interleaving of the coordinator, its workers and the resume and cancel routes,
  each file of a batch is in exactly one place: completed, failed, in flight or pending.
\<close>

theorem batch_files_accounted:
  assumes "breach maxc allowed (new_controller bid limit files loc) s" "distinct (map pf_progress_id files)"
  shows "files_total (ctrl s) = files_completed (ctrl s) + files_failed (ctrl s) + in_flight_count (ctrl s) + files_remaining (ctrl s) \<and>
     mset (in_flight_ids (ctrl s)) = mset (map pf_progress_id (workers s)) + mset (map pf_progress_id (lost s))"
  using batch_accounting [OF assms] by (simp add: batch_acct_def Let_def in_flight_count_def files_remaining_def)

theorem batch_files_accounted_witness:
  "\<exists>s. breach 2 (\<lambda>_ _. True) two_files s \<and> accumulated_cost (ctrl s) = Fin 12 \<and>
     files_total (ctrl s) = files_completed (ctrl s) + files_failed (ctrl s) + in_flight_count (ctrl s) + files_remaining (ctrl s)"
proof -
  obtain s where s: "breach 2 (\<lambda>_ _. True) two_files s" "accumulated_cost (ctrl s) = Fin 12"
    using two_workers_overspend drive_reach [OF breach.start] by blast
  from batch_files_accounted [OF s(1) [unfolded two_files_def]] s show ?thesis by auto
qed

text \<open>
  C28: the coordinator always makes progress and always comes to rest: with at least one worker
  slot every step of it decreases a measure, and unless it has exited or waits for a notification
  that has not come, it has a step; so between requests it runs finitely long and ends exited or
  waiting for a resume.
\<close>

theorem coordinator_progress:
  assumes "0 < maxc"
  shows "wfP (\<lambda>s' s. cstep maxc s s') \<and>
     (\<forall>s. phase s \<noteq> Exited \<and> (phase s = Waiting \<longrightarrow> notified (ctrl s)) \<longrightarrow> (\<exists>s'. cstep maxc s s'))"
proof
  show "wfP (\<lambda>s' s. cstep maxc s s')"
    by (rule wfp_if_convertible_to_nat [where f = bmeasure]) (rule cstep_decreases [OF _ assms])
  show "\<forall>s. phase s \<noteq> Exited \<and> (phase s = Waiting \<longrightarrow> notified (ctrl s)) \<longrightarrow> (\<exists>s'. cstep maxc s s')"
    using coordinator_not_stuck by blast
qed

theorem coordinator_progress_witness: "(0::nat) < 2 \<and> wfP (\<lambda>s' s. cstep 2 s s') \<and> (\<exists>s'. cstep 2 (start_run two_files) s')"
  using coordinator_progress [of 2] by (auto simp: start_run_def)

text \<open>
  C29: with one worker slot the accumulated cost never exceeds the spend limit, in floating-point
  arithmetic as computed, as long as resumes do not lower the limit.
\<close>

theorem sequential_spend_cap:
  assumes "breach 1 raises (new_controller bid (Some l) files loc) s" "fl_le (Fin 0) l"
  shows "\<exists>l'. spend_limit (ctrl s) = Some l' \<and> fl_le (accumulated_cost (ctrl s)) l'"
  using spend_reach [OF assms] by (auto simp: spend_inv_def)

theorem sequential_spend_cap_witness:
  "\<exists>s l'. breach 1 raises two_files s \<and> spend_limit (ctrl s) = Some l' \<and> fl_le (accumulated_cost (ctrl s)) l'"
proof -
  have r: "breach 1 raises two_files (drive 1 [None, None, Some (Some (Inr ()))] (start_run two_files))"
    by (rule drive_reach [OF breach.start])
  from sequential_spend_cap [OF r [unfolded two_files_def]] r show ?thesis by (auto simp: two_files_def)
qed

text \<open>
  C30: with several worker slots the check before each file ignores the files in flight, and this
  is how far the spending can go: when no file's estimate is negative or above \<open>c\<close>
  and no resume lowers the limit, then at every moment the accumulated cost is at most the limit
  with \<open>c\<close> added to it once per worker slot, each sum rounded as the code computes
  it.
\<close>

theorem parallel_spend_bound:
  assumes "breach maxc raises (new_controller bid (Some l) files loc) s" "fl_le (Fin 0) l"
    and "fl_le (Fin 0) c" "costs_within c files"
  shows "\<exists>l' j. spend_limit (ctrl s) = Some l' \<and> j \<le> maxc \<and> fl_le (accumulated_cost (ctrl s)) (overshoot l' c j)"
proof -
  from overspend_reach [OF assms] obtain l' j where "spend_limit (ctrl s) = Some l'" "j + length (workers s) \<le> maxc"
    "fl_le (accumulated_cost (ctrl s)) (overshoot l' c j)" by (auto simp: overspend_inv_def)
  then show ?thesis by (intro exI [of _ l'] exI [of _ j]) simp
qed

theorem parallel_spend_bound_witness:
  "\<exists>s l' j. accumulated_cost (ctrl s) = Fin 12 \<and> spend_limit two_files = Some (Fin 10) \<and> breach 2 raises two_files s \<and>
     spend_limit (ctrl s) = Some l' \<and> j \<le> 2 \<and> fl_le (Fin 12) (overshoot l' (Fin 6) j)"
proof -
  obtain s where s: "breach 2 raises two_files s" "accumulated_cost (ctrl s) = Fin 12"
    using drive_reach [OF breach.start] two_workers_overspend by blast
  have "costs_within (Fin 6) [\<lparr>pf_path = ''/d/a.txt'', pf_progress_id = ''p1'', pf_estimated_cost = Fin 6\<rparr>,
      \<lparr>pf_path = ''/d/b.txt'', pf_progress_id = ''p2'', pf_estimated_cost = Fin 6\<rparr>]" by (simp add: costs_within_def)
  from parallel_spend_bound [OF s(1) [unfolded two_files_def] _ _ this] obtain l' j where
    "spend_limit (ctrl s) = Some l'" "j \<le> 2" "fl_le (accumulated_cost (ctrl s)) (overshoot l' (Fin 6) j)" by auto
  moreover have "spend_limit two_files = Some (Fin 10)" by (simp add: two_files_def new_controller_def)
  ultimately show ?thesis using s by (intro exI [of _ s] exI [of _ l'] exI [of _ j]) simp
qed

section \<open>Trust\<close>

text \<open>
  C31: a handled acceptance with an identity card answers a pending sent request: the row of one
  pending request that the acceptance names (or, without a request id, that was sent to its
  sender's pseudonym) is stored as accepted and no other row of the table changes, or no pending
  row matches and the table stays as it was. It gives the sender the tier of the role that request
  asked for (``acquaintance'' when none was) in that role's domain and nobody else anything, and
  stores the sender as an active contact.
\<close>

theorem accept_creates_trust:
  assumes "trust_store (in_db env) tiers cview rview" "handle_accept env dr p w = (Inr Handled, w')"
    and "cp_identity_card p = Some ident" "json_rows (in_ops env) view (sent_req_codec env)"
  shows "\<exists>sent cfg d1 role c.
     request_answered (cp_sender_pseudonym p) (cp_request_id p) ''accepted'' sent
       (rows_at view (sent_req_codec env) CONN_SENT_PREFIX (w_meta w)) (rows_at view (sent_req_codec env) CONN_SENT_PREFIX (w_meta w')) \<and>
     load_roles (map_order (in_db env)) (role_ops (in_db env)) (w_db w) = (Inr cfg, d1) \<and>
     cfg (unwrap_or ''acquaintance'' (Option.bind sent ls_preferred_role)) = Some role \<and>
     tiers (w_db w') = (tiers (w_db w))(role_domain role :=
       (tiers (w_db w) (role_domain role))(icp_node_public_key ident \<mapsto> role_tier role)) \<and>
     stored_contacts cview (w_db w') (icp_node_public_key ident) = Some c \<and> \<not> revoked c"
proof -
  obtain q s where s: "update_sent_request_status (in_ops env) (sent_req_codec env) (w_meta w) (cp_sender_pseudonym p)
      (cp_request_id p) ''accepted'' = (Inr q, s)"
    and run: "process_accepted_connection env (dr_time dr) (w_db w) p
      (unwrap_or ''acquaintance'' (Option.bind q ls_preferred_role)) = (Inr (), w_db w')"
    by (rule handle_accept_Handled [OF assms(2,3)])
  have "w' = w\<lparr>w_meta := s, w_db := w_db w'\<rparr>" using handle_accept_eq [OF s assms(3), of dr] run assms(2) by simp
  then have "w_meta w' = s" by (metis world.select_convs(1) world.surjective world.update_convs(1,2))
  with update_sent_answers [OF assms(4) s] process_accepted_effect [OF assms(1) run] assms(3) show ?thesis by auto
qed

theorem accept_creates_trust_witness:
  "\<exists>w' role. handle_accept (mem_inbound accept_json sample_accept no_share) fixed_draws sample_accept (role_world ''friend'') = (Inr Handled, w') \<and>
     rows_at map_of (sent_req_codec (mem_inbound accept_json sample_accept no_share)) CONN_SENT_PREFIX (w_meta w') ''rq'' =
       Some ((sample_sent ''friend'')\<lparr>ls_status := ''accepted''\<rparr>) \<and>
     default_roles ''friend'' = Some role \<and> mt_tiers (w_db w') (role_domain role) ''pk'' = Some (role_tier role)"
proof -
  let ?env = "mem_inbound accept_json sample_accept no_share"
  obtain w' where w': "handle_accept ?env fixed_draws sample_accept (role_world ''friend'') = (Inr Handled, w')"
    using friend_accepted by blast
  have rows: "json_rows (in_ops ?env) map_of (sent_req_codec ?env)" unfolding mem_inbound_simps(1) by (rule mem_sent_rows)
  from accept_creates_trust [OF _ w' sample_accept_card rows, of mt_tiers "\<lambda>d. map_of (mt_contacts d)" "\<lambda>d. map_of (mt_roles d)"]
    mem_trust.trust_store_axioms
  obtain sent cfg d1 role where role: "request_answered (cp_sender_pseudonym sample_accept) (cp_request_id sample_accept) ''accepted'' sent
       (rows_at map_of (sent_req_codec ?env) CONN_SENT_PREFIX (w_meta (role_world ''friend'')))
       (rows_at map_of (sent_req_codec ?env) CONN_SENT_PREFIX (w_meta w'))"
    "load_roles (map_order mem_trust_db) (role_ops mem_trust_db) (w_db (role_world ''friend'')) = (Inr cfg, d1)"
    "cfg (unwrap_or ''acquaintance'' (Option.bind sent ls_preferred_role)) = Some role"
    "mt_tiers (w_db w') = (mt_tiers (w_db (role_world ''friend'')))(role_domain role :=
       (mt_tiers (w_db (role_world ''friend'')) (role_domain role))(icp_node_public_key sample_ident \<mapsto> role_tier role))"
    unfolding mem_inbound_simps(2) by blast
  have sent: "sent = Some (sample_sent ''friend'')"
    "rows_at map_of (sent_req_codec ?env) CONN_SENT_PREFIX (w_meta w') ''rq'' = Some ((sample_sent ''friend'')\<lparr>ls_status := ''accepted''\<rparr>)"
    using sample_request_answered [OF role(1) [unfolded sample_accept_rq]] by blast+
  have "default_roles ''friend'' = Some role"
    using role(3) role_world_roles [OF role(2)] unfolding sent(1) by (simp add: unwrap_or_def sample_sent_def)
  with w' role(4) sent(2) show ?thesis by (intro exI [of _ w'] exI [of _ role]) (simp add: sample_ident_def)
qed

text \<open>
  C32: removing a contact's role in a domain takes effect on the next request: the access context
  built for the contact afterwards has no tier in that domain and the tiers it had in every other,
  nobody else's tiers change, and the contact's record no longer names a role for the domain.
\<close>

theorem role_removal_cuts_access:
  assumes "trust_store db tiers cview rview" "remove_role_from_contact db d user dm = (Inr u, d')" "user \<noteq> owner"
    and "build_access_context db owner d' user = Inr cx"
  shows "cx = Remote_Context user ((\<lambda>x. tiers d x user)(dm := None)) \<and>
     (\<forall>other x. other \<noteq> user \<longrightarrow> tiers d' x other = tiers d x other) \<and>
     stored_contacts cview d' = edited (stored_contacts cview d) user (\<lambda>rs. rs(dm := None))"
  using trust_store.remove_role_access [OF assms] trust_store.remove_role_effect [OF assms(1,2)] by auto

theorem role_removal_cuts_access_witness:
  "\<exists>d' cx. remove_role_from_contact mem_trust_db (empty_trust\<lparr>mt_maps := [(''family'', [''ann'' \<mapsto> Inner])]\<rparr>) ''ann'' ''family'' = (Inr (), d') \<and>
     build_access_context mem_trust_db ''me'' d' ''ann'' = Inr cx \<and> (\<exists>t. cx = Remote_Context ''ann'' t \<and> t ''family'' = None)"
proof -
  let ?d = "empty_trust\<lparr>mt_maps := [(''family'', [''ann'' \<mapsto> Inner])]\<rparr>"
  obtain d' where d': "remove_role_from_contact mem_trust_db ?d ''ann'' ''family'' = (Inr (), d')"
    using mem_remove_total by blast
  obtain cx where cx: "build_access_context mem_trust_db ''me'' d' ''ann'' = Inr cx"
    using mem_context_total by blast
  from role_removal_cuts_access [OF mem_trust.trust_store_axioms d' _ cx] have
    "cx = Remote_Context ''ann'' ((\<lambda>x. mt_tiers ?d x ''ann'')(''family'' := None))" by simp
  with d' cx show ?thesis by auto
qed

text \<open>
  C33: the sharing audit of a contact lists a field as readable exactly when the field's policy in
  an approved schema lets the contact's stored tier in the policy's domain read it: no readable
  field is missing and none is listed without a policy that allows it.
\<close>

theorem audit_reports_policy:
  assumes "trust_store db tiers cview rview" "audit_contact_access db d user = Inr r" "schemas_with_states db d = Inr schemas"
  shows "(\<exists>a \<in> set (accessible_schemas r). acc_schema_name a = name \<and> f \<in> set (readable_fields a)) \<longleftrightarrow>
     (\<exists>sch p tier. (sch, Approved) \<in> set schemas \<and> sch_name sch = name \<and> (f, Some p) \<in> set (runtime_fields sch) \<and>
        tiers d (pol_trust_domain p) user = Some tier \<and> min_read_tier p \<le> tier)" (is "?listed \<longleftrightarrow> ?allowed")
proof
  show "?listed \<Longrightarrow> ?allowed" using trust_store.audit_fields [OF assms] by metis
  show "?allowed \<Longrightarrow> ?listed" using trust_store.audit_lists [OF assms] by metis
qed

theorem audit_reports_policy_witness:
  "\<exists>r. audit_contact_access mem_trust_db empty_trust ''ann'' = Inr r \<and>
     \<not> (\<exists>a \<in> set (accessible_schemas r). acc_schema_name a = ''notes'' \<and> ''body'' \<in> set (readable_fields a))"
proof -
  obtain r where r: "audit_contact_access mem_trust_db empty_trust ''ann'' = Inr r"
    using mem_audit_total by blast
  have "schemas_with_states mem_trust_db empty_trust = Inr []" by (simp add: mem_trust_db_def empty_trust_def)
  from audit_reports_policy [OF mem_trust.trust_store_axioms r this, of "''notes''" "''body''"] r show ?thesis by auto
qed

section \<open>Messages and the inbox\<close>

text \<open>
  C34: a message sealed for a public key is opened by the holder of the matching secret key,
  whatever ephemeral key and nonce the sender drew: the layout (ephemeral key, nonce, ciphertext)
  is the one the reader takes apart, and the payload comes back as it was.
\<close>

theorem sealed_message_roundtrip:
  assumes "box_ok cr" "sound_codec c" "to_vec c p = Inr plain" "length nc = 12"
  shows "res_bind (encrypt_message cr c eph nc (public_from cr sk) p) (decrypt_message_raw cr c sk) = Inr p"
proof -
  obtain out where out: "encrypt_message cr c eph nc (public_from cr sk) p = Inr out"
    using seal_total [OF assms(1,3)] by blast
  from open_sealed [OF assms(1) out assms(4), of c] assms(2,3) show ?thesis
    by (simp add: out deserialize_from_slice_def sound_codec_def codec_ok_def)
qed

theorem sealed_message_roundtrip_witness:
  "res_bind (encrypt_message plain_box plain_codec [7] (replicate 12 0) (public_from plain_box [5]) [1, 2, 3])
     (decrypt_message_raw plain_box plain_codec [5]) = Inr [1, 2, 3 :: 8 word]"
  using sealed_message_roundtrip [OF plain_box_ok plain_codec_sound, of "[1, 2, 3]" "[1, 2, 3]" "replicate 12 0" "[7]" "[5]"]
  by (simp add: plain_codec_def)

text \<open>
  C35: what the user decided about a received identity card stays decided: through any sequence of
  accepts and dismissals, each successful or failing for any reason (no such card, a refused
  import, a store error, provided that a failed write changes nothing), an accepted row never
  changes again and a dismissed one stays dismissed with its card.
\<close>

theorem inbox_resolutions_final:
  assumes "json_rows ops view c" "kv_atomic ops view"
    and "rows_at view c RECEIVED_CARD_PREFIX s i = Some r"
  shows "(rc_status r = ''accepted'' \<longrightarrow> rows_at view c RECEIVED_CARD_PREFIX (fst (run_inbox env ops c xs (s, d))) i = Some r) \<and>
     (rc_status r = ''dismissed'' \<longrightarrow> (\<exists>r'. rows_at view c RECEIVED_CARD_PREFIX (fst (run_inbox env ops c xs (s, d))) i = Some r' \<and>
        rc_status r' = ''dismissed'' \<and> rc_card r' = rc_card r))"
  using run_inbox_keeps [OF assms(1,2), of "(s, d)" i env xs] assms(3) by (simp add: kept_settled_def)

theorem inbox_resolutions_final_witness:
  "\<forall>env link d. rows_at map_of plain_codec RECEIVED_CARD_PREFIX (fst (run_inbox env mem_ops plain_codec
     [Dismiss ''m'', Accept ''m'' link] ([(RECEIVED_CARD_PREFIX @ ''m'', sample_card)], d))) ''m'' = Some sample_card"
proof (intro allI)
  fix env link d
  let ?s = "[(RECEIVED_CARD_PREFIX @ ''m'', sample_card)]"
  have row: "rows_at map_of plain_codec RECEIVED_CARD_PREFIX ?s ''m'' = Some sample_card" "rc_status sample_card = ''accepted''"
    by (simp_all add: rows_at_Some plain_codec_def sample_card_def)
  from inbox_resolutions_final [OF plain_rows.json_rows_axioms mem.kv_atomic_axioms row(1), where env = env and xs = "[Dismiss ''m'', Accept ''m'' link]" and d = d] row(2)
  show "rows_at map_of plain_codec RECEIVED_CARD_PREFIX (fst (run_inbox env mem_ops plain_codec
     [Dismiss ''m'', Accept ''m'' link] (?s, d))) ''m'' = Some sample_card" by blast
qed

section \<open>Photo moments\<close>

text \<open>
  C36: a successful save of moment hashes for a peer stores the end of the list of the hashes
  stored before (none, when there was no row) followed by the given ones, each kept at its first
  occurrence: no hash twice, never more than the cap, and something is dropped from the front only
  when the row is then full. So while old and new fit together nothing is lost, and a given hash
  that was not stored before is kept whenever the given list fits. (A given hash that was stored
  before keeps its old place, so it can be among those dropped.)
\<close>

theorem moment_hashes_bounded:
  assumes "json_rows (mom_ops env) view (hashes_codec env)" "save_our_moment_hashes env s peer new = (Inr u, s')"
    and "old = (case rows_at view (hashes_codec env) MOMENT_HASH_PREFIX s peer of None \<Rightarrow> [] | Some hs \<Rightarrow> hs)"
  shows "\<exists>hs dropped. rows_at view (hashes_codec env) MOMENT_HASH_PREFIX s' =
       (rows_at view (hashes_codec env) MOMENT_HASH_PREFIX s)(peer \<mapsto> hs) \<and>
     dedup_by mh_hash {} (old @ new) = dropped @ hs \<and> (dropped \<noteq> [] \<longrightarrow> length hs = MAX_SAVED_MOMENT_HASHES) \<and>
     length hs \<le> MAX_SAVED_MOMENT_HASHES \<and> distinct (map mh_hash hs) \<and> set hs \<subseteq> set old \<union> set new \<and>
     (length new \<le> MAX_SAVED_MOMENT_HASHES \<longrightarrow> mh_hash ` set new - mh_hash ` set old \<subseteq> mh_hash ` set hs) \<and>
     (length old + length new \<le> MAX_SAVED_MOMENT_HASHES \<longrightarrow> mh_hash ` set hs = mh_hash ` set old \<union> mh_hash ` set new)"
proof -
  let ?hs = "merge_moment_hashes old new"
  obtain dropped where d: "dedup_by mh_hash {} (old @ new) = dropped @ ?hs" "dropped \<noteq> [] \<longrightarrow> length ?hs = MAX_SAVED_MOMENT_HASHES"
    by (rule merge_suffix)
  have row: "rows_at view (hashes_codec env) MOMENT_HASH_PREFIX s' =
      (rows_at view (hashes_codec env) MOMENT_HASH_PREFIX s)(peer \<mapsto> ?hs)"
    unfolding assms(3) by (rule save_hashes_effect [OF assms(1,2)])
  show ?thesis
    by (rule exI [of _ ?hs], rule exI [of _ dropped],
      rule conjI [OF row conjI [OF d(1) conjI [OF d(2) conjI [OF merge_bounded conjI [OF merge_distinct
        conjI [OF merge_from conjI [OF impI [OF merge_keeps_new] impI [OF merge_keeps_all]]]]]]]])
qed

theorem moment_hashes_bounded_witness:
  "\<exists>s' hs. save_our_moment_hashes demo_moments demo_moment_store ''p'' [demo_hash\<lparr>mh_hash := ''h2''\<rparr>] = (Inr (), s') \<and>
     rows_at map_of (hashes_codec demo_moments) MOMENT_HASH_PREFIX s' ''p'' = Some hs \<and> mh_hash ` set hs = {''h'', ''h2''}"
proof -
  have old: "[demo_hash] = (case rows_at map_of (hashes_codec demo_moments) MOMENT_HASH_PREFIX demo_moment_store ''p'' of
      None \<Rightarrow> [] | Some hs \<Rightarrow> hs)"
    by (simp add: rows_at_def demo_moment_store_def demo_moments_def)
  obtain s' where s': "save_our_moment_hashes demo_moments demo_moment_store ''p'' [demo_hash\<lparr>mh_hash := ''h2''\<rparr>] = (Inr (), s')"
    by (simp add: save_our_moment_hashes_def load_our_moment_hashes_def get_json_def put_json_def demo_moment_store_def)
      (simp add: demo_moments_def put_json_def)
  have "json_rows (mom_ops demo_moments) map_of (hashes_codec demo_moments)" using demo_hashes.json_rows_axioms by simp
  from moment_hashes_bounded [OF this s' old] obtain hs where
    hs: "rows_at map_of (hashes_codec demo_moments) MOMENT_HASH_PREFIX s' =
      (rows_at map_of (hashes_codec demo_moments) MOMENT_HASH_PREFIX demo_moment_store)(''p'' \<mapsto> hs)"
    and keys: "length [demo_hash] + length [demo_hash\<lparr>mh_hash := ''h2''\<rparr>] \<le> MAX_SAVED_MOMENT_HASHES \<longrightarrow>
      mh_hash ` set hs = mh_hash ` set [demo_hash] \<union> mh_hash ` set [demo_hash\<lparr>mh_hash := ''h2''\<rparr>]"
    by blast
  have "mh_hash ` set hs = {''h'', ''h2''}"
    using keys by (simp add: MAX_SAVED_MOMENT_HASHES_def demo_hash_def insert_commute)
  moreover have "rows_at map_of (hashes_codec demo_moments) MOMENT_HASH_PREFIX s' ''p'' = Some hs" by (simp add: hs)
  ultimately show ?thesis using s' by blast
qed

section \<open>Identifiers and stores\<close>

text \<open>
  C37: fingerprint keys are as good as the hash: unless the hash collides on the two byte strings
  involved, two string values get the same fingerprint id exactly when they have the same kind and
  the same canonical form.
\<close>

theorem fingerprint_id_identifies:
  assumes "k \<in> set fingerprint_kinds" "k' \<in> set fingerprint_kinds"
    and "inj_on sha {fingerprint_preimage k (as_bytes (canonicalize_string k v)),
                     fingerprint_preimage k' (as_bytes (canonicalize_string k' v'))}"
  shows "fingerprint_id_for_string sha k v = fingerprint_id_for_string sha k' v' \<longleftrightarrow>
     k = k' \<and> canonicalize_string k v = canonicalize_string k' v'"
proof -
  let ?x = "fingerprint_preimage k (as_bytes (canonicalize_string k v))"
  let ?y = "fingerprint_preimage k' (as_bytes (canonicalize_string k' v'))"
  have "fingerprint_id_for_string sha k v = fingerprint_id_for_string sha k' v' \<longleftrightarrow> sha ?x = sha ?y"
    by (simp add: fingerprint_id_for_string_def fingerprint_id_from_bytes_def)
  also have "\<dots> \<longleftrightarrow> ?x = ?y" by (rule inj_on_eq_iff [OF assms(3)]) simp_all
  also have "\<dots> \<longleftrightarrow> k = k' \<and> canonicalize_string k v = canonicalize_string k' v'"
    using fingerprint_preimage_inject [OF assms(1,2)] by (metis as_bytes_inject)
  finally show ?thesis .
qed

theorem fingerprint_id_identifies_witness:
  "fingerprint_id_for_string (map (\<lambda>b. char_of (unat b))) kind_EMAIL '' Ann@x.org '' =
     fingerprint_id_for_string (map (\<lambda>b. char_of (unat b))) kind_EMAIL ''ann@X.org'' \<longleftrightarrow>
   kind_EMAIL = kind_EMAIL \<and> canonicalize_string kind_EMAIL '' Ann@x.org '' = canonicalize_string kind_EMAIL ''ann@X.org''"
proof -
  have "inj (map (\<lambda>b :: 8 word. (char_of (unat b) :: char)))"
  proof (intro inj_mapI injI)
    fix a b :: "8 word"
    assume "(char_of (unat a) :: char) = char_of (unat b)"
    then have "(of_char (char_of (unat a) :: char) :: nat) = of_char (char_of (unat b) :: char)" by (rule arg_cong)
    moreover have "unat a < 256" "unat b < 256" using unsigned_less [of a] unsigned_less [of b] by simp_all
    ultimately show "a = b" by (simp add: of_char_of take_bit_nat_eq_self word_unat_eq_iff)
  qed
  then show ?thesis
    by (intro fingerprint_id_identifies) (auto simp: fingerprint_kinds_def intro: inj_on_subset)
qed

text \<open>
  C38: start-up registration is all or nothing: when fetching, loading, approving or naming any
  built-in schema fails, no name is installed, and when it succeeds every built-in name resolves
  to the runtime name of a fetched schema that is loaded and approved -- the node never runs with
  a part of the schemas it writes to.
\<close>

theorem registration_all_or_nothing:
  assumes "schema_manager sh writable" "lookup_phase_1_schemas sh it builtin d None = (res, d', names)"
  shows "case res of
      Inl _ \<Rightarrow> names = None
    | Inr rs \<Rightarrow> \<exists>available. fetch_available sh d = Inr available \<and>
        (\<forall>x \<in> set builtin. \<exists>s. by_descriptive available x = Some s \<and> lookup_name names x = Inr (ss_name s) \<and>
           writable d' (ss_name s))"
  using schema_manager.registration_result [OF assms] .

theorem registration_all_or_nothing_witness:
  "let available = [\<lparr>ss_name = ''p1'', ss_descriptive_name = Some ''Persona'', ss_body = ()\<rparr>,
         \<lparr>ss_name = ''e1'', ss_descriptive_name = Some ''Edge'', ss_body = ()\<rparr>];
       (res, d', names) = lookup_phase_1_schemas (list_host available) sorted_list_of_set [''Edge'', ''Persona''] [] None in
   lookup_name names ''Edge'' = Inr ''e1'' \<and> lookup_name names ''Persona'' = Inr ''p1'' \<and> {''e1'', ''p1''} \<subseteq> set d'"
proof -
  define available where "available = [\<lparr>ss_name = ''p1'', ss_descriptive_name = Some ''Persona'', ss_body = ()\<rparr>,
         \<lparr>ss_name = ''e1'', ss_descriptive_name = Some ''Edge'', ss_body = ()\<rparr>]"
  obtain res d' names where r: "lookup_phase_1_schemas (list_host available) sorted_list_of_set [''Edge'', ''Persona''] [] None = (res, d', names)"
    by (cases "lookup_phase_1_schemas (list_host available) sorted_list_of_set [''Edge'', ''Persona''] [] None")
  have desc: "by_descriptive available ''Edge'' = Some \<lparr>ss_name = ''e1'', ss_descriptive_name = Some ''Edge'', ss_body = ()\<rparr>"
    "by_descriptive available ''Persona'' = Some \<lparr>ss_name = ''p1'', ss_descriptive_name = Some ''Persona'', ss_body = ()\<rparr>"
    by (simp_all add: by_descriptive_def available_def)
  have "\<exists>rs. res = Inr rs"
    using r by (auto simp: lookup_phase_1_schemas_def list_host_def desc register_one_def build_canonical_names_def cn_insert_def
        install_def Let_def split: sum.splits)
  with registration_all_or_nothing [OF list_manager.schema_manager_axioms r] desc
  have "lookup_name names ''Edge'' = Inr ''e1'' \<and> lookup_name names ''Persona'' = Inr ''p1'' \<and> {''e1'', ''p1''} \<subseteq> set d'"
    by (auto simp: list_host_def)
  then show ?thesis by (simp add: available_def [symmetric] r Let_def)
qed

text \<open>
  C39: under every sequence of upserts, revocations and mutual marks each contact stays filed
  under its own key and no contact ever disappears; and when a contact is revoked somewhere in
  such a sequence, it is not among the active ones at any later point before it is upserted again.
\<close>

theorem contact_book_invariant:
  assumes "book_ok book" "iteration_order it"
  shows "book_ok (run_book_ops xs book) \<and> dom book \<subseteq> dom (run_book_ops xs book) \<and>
     (\<forall>before pk later c. xs = before @ Revoke pk # later \<longrightarrow> pk \<in> dom (run_book_ops before book) \<longrightarrow>
        list_all (\<lambda>x. \<not> upserts pk x) later \<longrightarrow> c \<in> set (active_contacts it (run_book_ops xs book)) \<longrightarrow> public_key c \<noteq> pk)"
proof (intro conjI allI impI)
  show ok: "book_ok (run_book_ops xs book)" by (rule book_ok_run_ops [OF assms(1)])
  show "dom book \<subseteq> dom (run_book_ops xs book)" by (rule dom_run_ops)
  fix before pk later c
  assume a: "xs = before @ Revoke pk # later" "pk \<in> dom (run_book_ops before book)" "list_all (\<lambda>x. \<not> upserts pk x) later"
    "c \<in> set (active_contacts it (run_book_ops xs book))"
  have "fst (revoke pk (run_book_ops before book))" using a(2) by (auto simp: revoke_def split: option.splits)
  from revoked_run_ops [OF revoke_revokes [OF this] a(3)] a(1) have "revoked_in (run_book_ops xs book) pk"
    by (simp add: run_book_ops_def)
  with a(4) active_contacts_set [OF ok assms(2)] show "public_key c \<noteq> pk" by (auto simp: revoked_in_def)
qed

theorem contact_book_invariant_witness:
  "\<exists>book. book ''pk'' \<noteq> None \<and>
     (\<forall>c. c \<in> set (active_contacts sorted_list_of_set (run_book_ops [Revoke ''pk'', MarkMutual ''pk''] book)) \<longrightarrow> public_key c \<noteq> ''pk'')"
proof -
  let ?b = "new_book(''pk'' \<mapsto> from_discovery ''pk'' ''Ann'' None Incoming 0 None None None ''d'' ''r'')"
  have "book_ok ?b" by (intro book_ok_upd book_ok_new) (simp add: from_discovery_def)
  from contact_book_invariant [OF this iteration_order_sorted, of "[Revoke ''pk'', MarkMutual ''pk'']", THEN conjunct2, THEN conjunct2,
      rule_format, of "[]" "''pk''" "[MarkMutual ''pk'']"]
  show ?thesis by (intro exI [of _ ?b]) (auto simp: upserts_def run_book_ops_def)
qed

text \<open>
  C40: the user-profile accessor implements the storage contract over sub-keys whatever store it
  is built on: its keys live under their own prefix, so reads, writes, deletes and scans act on
  that part of the store as on a store of its own, and a successful write or delete leaves every
  key outside the prefix, and every other key within it, as it was (reads and scans have no effect
  on the store).
\<close>

theorem profile_refines_store:
  assumes "kv_store ops view"
  shows "kv_store (profile_ops ops) (profile_view view) \<and>
     (\<forall>s k v s' r. profile_put ops s k v = (Inr r, s') \<longrightarrow>
        (\<forall>q. q \<noteq> profile_key k \<longrightarrow> view s' q = view s q)) \<and>
     (\<forall>s k s' b. profile_delete ops s k = (Inr b, s') \<longrightarrow>
        (\<forall>q. q \<noteq> profile_key k \<longrightarrow> view s' q = view s q)) \<and>
     (\<forall>k q. \<not> prefix USER_PROFILE_PREFIX q \<longrightarrow> q \<noteq> profile_key k)"
proof (intro conjI allI impI)
  show "kv_store (profile_ops ops) (profile_view view)" by (rule profile_kv_store [OF assms])
next
  fix s k v s' r q
  assume "profile_put ops s k v = (Inr r, s')" and q: "q \<noteq> profile_key k"
  then have "kv_put ops s (profile_key k) v = (Inr r, s')" by (auto simp: profile_put_def split: prod.splits)
  from kv_store.put_ok [OF assms this] q show "view s' q = view s q" by simp
next
  fix s k s' b q
  assume "profile_delete ops s k = (Inr b, s')" and q: "q \<noteq> profile_key k"
  then have "kv_delete ops s (profile_key k) = (Inr b, s')" by (auto simp: profile_delete_def split: prod.splits)
  from kv_store.delete_ok [OF assms this] q show "view s' q = view s q" by simp
next
  fix k q
  show "\<not> prefix USER_PROFILE_PREFIX q \<Longrightarrow> q \<noteq> profile_key k" by (auto simp: profile_key_def)
qed

theorem profile_refines_store_witness:
  "kv_store (profile_ops mem_ops) (profile_view (map_of :: (string \<times> nat) list \<Rightarrow> string \<rightharpoonup> nat))"
  using profile_refines_store [OF mem.kv_store_axioms] by blast

section \<open>Further results\<close>

text \<open>
  A patch that is rejected leaves the database as it was: whenever a patch request changes the
  state, the patch passed every check (not empty, threshold finite and within 0 and 1, non-blank
  name, an allowed relationship, link and clear not combined), the persona existed, and the edit
  itself was permitted.
\<close>

theorem patch_rejected_unchanged:
  assumes "persona_store nd ps view" "apply_persona_patch it nd d pid p = (res, d')" "d' \<noteq> d"
  shows "\<not> patch_is_empty p \<and> \<not> (pp_link_identity_id p \<noteq> None \<and> pp_clear_identity_id p) \<and>
     (\<forall>t. pp_threshold p = Some t \<longrightarrow> fl_le (Fin 0) t \<and> fl_le t (Fin 1)) \<and>
     (\<forall>n. pp_name p = Some n \<longrightarrow> trim n \<noteq> []) \<and>
     (\<forall>r. pp_relationship p = Some r \<longrightarrow> r \<in> set ALLOWED_RELATIONSHIPS) \<and>
     (\<exists>old m'. view d pid = Some old \<and> patch_payload p (old |` set persona_fields) = Inr m')"
proof -
  obtain old m' where "view d pid = Some old" "patch_payload p (old |` set persona_fields) = Inr m'"
    and v: "validate_patch (show_f32 nd) p = Inr ()"
    using persona_store.patch_state_cases [OF assms] by blast
  then have "\<exists>old m'. view d pid = Some old \<and> patch_payload p (old |` set persona_fields) = Inr m'" by blast
  moreover have "\<not> patch_is_empty p \<and> \<not> (pp_link_identity_id p \<noteq> None \<and> pp_clear_identity_id p) \<and>
     (\<forall>t. pp_threshold p = Some t \<longrightarrow> fl_le (Fin 0) t \<and> fl_le t (Fin 1)) \<and>
     (\<forall>n. pp_name p = Some n \<longrightarrow> trim n \<noteq> []) \<and>
     (\<forall>r. pp_relationship p = Some r \<longrightarrow> r \<in> set ALLOWED_RELATIONSHIPS)"
    using v by (auto simp: validate_patch_def res_bind_eq_Inr require_non_empty_def threshold_upper_def split: if_splits option.splits)
  ultimately show ?thesis by blast
qed

theorem patch_rejected_unchanged_witness:
  "\<exists>det d'. apply_persona_patch sorted_list_of_set (mem_node sample_graph) sample_db ''ps_1''
       (empty_patch\<lparr>pp_add_excluded_edge_id := Some ''e_bc''\<rparr>) = (Some (Inr det), d') \<and> d' \<noteq> sample_db \<and>
     (\<exists>old m'. map_of sample_db ''ps_1'' = Some old \<and>
        patch_payload (empty_patch\<lparr>pp_add_excluded_edge_id := Some ''e_bc''\<rparr>) (old |` set persona_fields) = Inr m')"
proof -
  obtain det d' where run: "apply_persona_patch sorted_list_of_set (mem_node sample_graph) sample_db ''ps_1''
      (empty_patch\<lparr>pp_add_excluded_edge_id := Some ''e_bc''\<rparr>) = (Some (Inr det), d')"
    using mem_patch_runs by blast
  have ne: "d' \<noteq> sample_db" by (rule mem_patch_changes [OF run])
  from patch_rejected_unchanged [OF mem_persona_store run ne] run ne show ?thesis by blast
qed

text \<open>
  One bad photo never spoils a batch: every photo gets its own result, in the order of the
  request, a failed one carries its error and counts nothing, and a photo is reported as ingested
  only when all its embeddings are non-empty and finite, with as many fingerprints as it has
  faces.
\<close>

theorem photo_batch_results:
  assumes "ingest_photo_faces_batch N search now clock s photos d g = (Inr (resp, sweep), d', g')"
  shows "list_all2 (\<lambda>photo r. ir_source_key r = pf_source_key photo \<and> (ir_ok r \<longleftrightarrow> ir_error r = None) \<and>
       (\<not> ir_ok r \<longrightarrow> ir_count r = 0 \<and> ir_records_written r = 0) \<and>
       (ir_ok r \<longrightarrow> ir_count r = length (pf_faces photo) \<and>
          (\<forall>f \<in> set (pf_faces photo). df_embedding f \<noteq> [] \<and> (\<forall>w \<in> set (df_embedding f). is_finite (f32_val w)))))
     photos (rs_per_record resp)"
proof -
  obtain rs where "ingest_photos N search s now clock 0 photos d g = (rs, d', g')" "rs_per_record resp = rs"
    using assms by (auto simp: ingest_photo_faces_batch_def ingest_response_of_def Let_def split: sum.splits prod.splits)
  then show ?thesis using photo_results_each by simp
qed

theorem photo_batch_results_witness:
  "\<exists>resp sweep d' g'. ingest_photo_faces_batch rec_node (\<lambda>es q. []) ''t'' (\<lambda>_. ''t'') ''Photos''
       [\<lparr>pf_source_key = ''p1'', pf_faces = [], pf_expected_to_yield = False\<rparr>] [] \<lparr>ag_cache = empty_cache, ag_initialized = False\<rparr> =
       (Inr (resp, sweep), d', g') \<and> map ir_source_key (rs_per_record resp) = [''p1'']"
proof -
  let ?photos = "[\<lparr>pf_source_key = ''p1'', pf_faces = [], pf_expected_to_yield = False\<rparr>]"
  obtain r d' g' where b: "ingest_photo_faces_batch rec_node (\<lambda>es q. []) ''t'' (\<lambda>_. ''t'') ''Photos'' ?photos []
      \<lparr>ag_cache = empty_cache, ag_initialized = False\<rparr> = (r, d', g')"
    by (rule prod_cases3)
  then obtain resp sweep where r: "r = Inr (resp, sweep)"
    by (auto simp: ingest_photo_faces_batch_def require_non_empty_def trim_def is_whitespace_def char_code_def Let_def split: sum.splits prod.splits)
  from photo_batch_results [OF b [unfolded r]] have "map ir_source_key (rs_per_record resp) = [''p1'']"
    by (auto simp: list_all2_Cons1)
  with b [unfolded r] show ?thesis by (intro exI conjI)
qed

text \<open>
  The card a node serves to others verifies at whoever receives it: read back from the store
  through JSON and single-precision floats, the served fields rebuild exactly the bytes that were
  signed, so importing them passes the signature check, as long as the stored embedding has no
  entry that JSON could not represent.
\<close>

theorem served_card_verifies:
  assumes "card_store N held A" "get_my_identity_card keys N d = Inr crd"
    and "identities_signed cc N (stored_view (host N) held d)"
    and "\<forall>k r m xs. stored_view (host N) held d (IDENTITY N) k r = Some m \<longrightarrow> m ''face_embedding'' = Some (JArr xs) \<longrightarrow> JNull \<notin> set xs"
    and "ca_pub_key inc = my_pub_key crd" "ca_display_name inc = my_display_name crd" "ca_birthday inc = my_birthday crd"
    and "map_option (map f32_val) (ca_face_embedding inc) = my_face_embedding crd"
    and "ca_signature inc = my_signature crd" "ca_issued_at inc = my_issued_at crd"
  shows "verify_card_signature cc inc = Inr ()"
  using card_store.own_card_verifies [OF assms(1-3)] assms(4-) by blast

theorem served_card_verifies_witness:
  "\<exists>d crd. get_my_identity_card demo_keys rec_node d = Inr crd \<and>
     (\<forall>face. map_option (map f32_val) face = my_face_embedding crd \<longrightarrow>
        verify_card_signature plain_cards \<lparr>ca_pub_key = my_pub_key crd, ca_display_name = my_display_name crd,
          ca_birthday = my_birthday crd, ca_face_embedding = face, ca_node_id = [], ca_signature = my_signature crd,
          ca_issued_at = my_issued_at crd\<rparr> = Inr ())"
proof -
  obtain r d where 1: "ensure_me_persona_if_absent plain_cards demo_keys rec_node (''1'', ''2'') ''t'' ''Ana'' [] = (r, d)"
    by (cases "ensure_me_persona_if_absent plain_cards demo_keys rec_node (''1'', ''2'') ''t'' ''Ana'' []")
  from demo_served(1) [OF 1] obtain crd where crd: "get_my_identity_card demo_keys rec_node d = Inr crd" by blast
  have "identities_signed plain_cards rec_node (stored_view (host rec_node) mem_held d)"
    by (rule mem_cards.ensure_me_keeps [OF 1 demo_keys_sign empty_store_signed])
  note verifies = served_card_verifies [OF mem_cards.card_store_axioms crd this]
  have "\<forall>k r m xs. stored_view (host rec_node) mem_held d (IDENTITY rec_node) k r = Some m \<longrightarrow>
      m ''face_embedding'' = Some (JArr xs) \<longrightarrow> JNull \<notin> set xs"
    using demo_served(2) [OF 1] by force
  note verifies' = verifies [OF this]
  show ?thesis by (intro exI conjI allI impI, rule crd, rule verifies') simp_all
qed

text \<open>
  Importing a card again changes nothing at all: once an Identity is stored under the card's key,
  a further import with any content leaves the whole database as it is, and if it succeeds it
  reports the identity as already present -- so a corrected card, which has the same key, never
  replaces the stale one.
\<close>

theorem reimport_changes_nothing:
  assumes "card_store N held A" "import_identity_card cc it N uuid now crd None d = (res, d')"
    and "stored_view (host N) held d (IDENTITY N) (identity_id_of (ca_pub_key crd)) r \<noteq> None"
  shows "d' = d \<and> (\<forall>resp. res = Some (Inr resp) \<longrightarrow> ii_verified resp \<and> ii_was_already_present resp)"
  using card_store.reimport_unchanged [OF assms] .

theorem reimport_changes_nothing_witness:
  "\<exists>d. d \<noteq> [] \<and> snd (import_identity_card plain_cards sorted_list_of_set rec_node ''5'' ''v'' demo_card None d) = d"
proof -
  obtain resp d where 1: "import_identity_card plain_cards sorted_list_of_set rec_node ''3'' ''u'' demo_card None [] = (resp, d)"
    "mem_held d ''identity'' (identity_id_of peer_key) None \<noteq> None"
    using demo_import by blast
  obtain r2 d2 where 2: "import_identity_card plain_cards sorted_list_of_set rec_node ''5'' ''v'' demo_card None d = (r2, d2)"
    by (cases "import_identity_card plain_cards sorted_list_of_set rec_node ''5'' ''v'' demo_card None d")
  have held: "stored_view (host rec_node) mem_held d (IDENTITY rec_node) (identity_id_of (ca_pub_key demo_card)) None \<noteq> None"
    using 1(2) by (simp add: stored_view_def rec_defs rec_lookup_simps demo_card_def Let_def)
  have "d \<noteq> []" using 1(2) by (auto simp: mem_held_def)
  with reimport_changes_nothing [OF mem_cards.card_store_axioms 2 held] 2 show ?thesis by auto
qed

text \<open>
  The audit list of identities has exactly one row per stored identity, newest first, and each row
  shows the newest receipt: no receipt of that identity was received later than the time shown,
  whatever order the store returned the receipts in.
\<close>

theorem audit_list_newest_first:
  assumes "list_identities keys N d = Inr rows"
    and "lookup_name (registry (host N)) (IDENTITY N) = Inr s" "lookup_name (registry (host N)) (IDENTITY_RECEIPT N) = Inr t"
    and "query_db (host N) d (simple_query s [''id'', ''pub_key'', ''display_name'', ''issued_at''] None) = Inr identities"
    and "query_db (host N) d (simple_query t [''identity_id'', ''received_via'', ''received_at'', ''trust_level''] None) = Inr receipts"
    and "distinct (List.map_filter identity_key identities)"
  shows "sorted_wrt (\<lambda>a b. ar_received_at b \<le> ar_received_at a) rows \<and>
    mset (map ar_identity_id rows) = mset (List.map_filter identity_key identities) \<and>
    (\<forall>row \<in> set rows. \<forall>r \<in> set receipts. \<forall>at'. receipt_at (ar_identity_id row) at' r \<longrightarrow> newer_known at' (ar_received_at row))"
  using audit_list_newest [OF assms] .

theorem audit_list_newest_first_witness:
  "\<exists>rows. list_identities demo_keys rec_node audit_db = Inr rows \<and> sorted_wrt (\<lambda>a b. ar_received_at b \<le> ar_received_at a) rows \<and>
     mset (map ar_identity_id rows) = {#''id_a'', ''id_b''#}"
proof -
  obtain identities receipts where q:
    "query_db (host rec_node) audit_db (simple_query ''identity'' [''id'', ''pub_key'', ''display_name'', ''issued_at''] None) = Inr identities"
    "query_db (host rec_node) audit_db (simple_query ''receipt'' [''identity_id'', ''received_via'', ''received_at'', ''trust_level''] None) = Inr receipts"
    by (simp add: rec_query_def simple_query_def)
  have ids: "List.map_filter identity_key identities = [''id_a'', ''id_b'']"
    using q(1) by (auto simp: rec_query_def simple_query_def audit_db_def rec_row_def identity_key_def map_filter_simps
        string_field_def opt_bind_def)
  obtain rows where rows: "list_identities demo_keys rec_node audit_db = Inr rows"
    by (simp add: list_identities_def canonical_lookup_def rec_defs rec_lookup_simps rec_query_def simple_query_def)
  have names: "lookup_name (registry (host rec_node)) (IDENTITY rec_node) = Inr ''identity''"
    "lookup_name (registry (host rec_node)) (IDENTITY_RECEIPT rec_node) = Inr ''receipt''"
    by (simp_all add: rec_defs rec_lookup_simps)
  have "distinct (List.map_filter identity_key identities)" by (simp add: ids)
  from audit_list_newest_first [OF rows names q this] rows show ?thesis unfolding ids by auto
qed

text \<open>
  A batch whose status is Completed has nothing pending and no worker left, and unless a worker
  panicked every file of it was completed or failed.
\<close>

theorem batch_completed_all:
  assumes "breach maxc allowed (new_controller bid limit files loc) s" "distinct (map pf_progress_id files)"
    and "status (ctrl s) = Completed"
  shows "pending_files (ctrl s) = [] \<and> workers s = [] \<and>
     (lost s = [] \<longrightarrow> files_completed (ctrl s) + files_failed (ctrl s) = files_total (ctrl s))"
proof -
  have p: "pending_files (ctrl s) = []" "workers s = []"
    using popped_reach [OF assms(1)] assms(3) by (auto simp: popped_inv_def)
  have "in_flight_files (ctrl s) = []" if "lost s = []"
    using batch_accounting [OF assms(1,2)] p(2) that by (simp add: batch_acct_def Let_def in_flight_ids_def)
  with p batch_accounting [OF assms(1,2)] show ?thesis by (auto simp: batch_acct_def Let_def)
qed

theorem batch_completed_all_witness:
  "\<exists>s. breach 2 (\<lambda>_ _. True) two_files s \<and> status (ctrl s) = Completed \<and> pending_files (ctrl s) = [] \<and> workers s = []"
proof -
  obtain s where s: "breach 2 (\<lambda>_ _. True) two_files s" "status (ctrl s) = Completed"
    using two_workers_overspend drive_reach [OF breach.start] by blast
  from batch_completed_all [OF s(1) [unfolded two_files_def] _ s(2)] s show ?thesis by auto
qed

text \<open>
  The bound of \<open>parallel_spend_bound\<close> is not idle: with two worker slots and a limit
  of 10, two files of cost 6 both start, and the batch ends Completed having spent 12.
\<close>

theorem concurrent_overspend:
  "\<exists>s. breach 2 (\<lambda>_ _. False) two_files s \<and> status (ctrl s) = Completed \<and>
     spend_limit two_files = Some (Fin 10) \<and> accumulated_cost (ctrl s) = Fin 12"
proof -
  let ?s = "drive 2 [None, None, None, Some (Some (Inr ())), None, Some (Some (Inr ())), None, Some None] (start_run two_files)"
  have "breach 2 (\<lambda>_ _. False) two_files ?s" by (rule drive_reach [OF breach.start])
  moreover have "spend_limit two_files = Some (Fin 10)" by (simp add: two_files_def new_controller_def)
  ultimately show ?thesis using two_workers_overspend by blast
qed

text \<open>
  A worker that panics is dropped without a record: the batch still ends Completed while the file
  stays in flight, neither completed nor failed.
\<close>

theorem panicked_file_lost:
  "\<exists>c s. breach 1 (\<lambda>_ _. False) c s \<and> status (ctrl s) = Completed \<and> files_total (ctrl s) = 1 \<and>
     files_completed (ctrl s) + files_failed (ctrl s) = 0 \<and> in_flight_count (ctrl s) = 1"
proof -
  let ?c = "new_controller ''b'' None [\<lparr>pf_path = ''/d/a.txt'', pf_progress_id = ''p1'', pf_estimated_cost = Fin 6\<rparr>] False"
  let ?s = "drive 1 [None, None, Some None, None, Some None, Some None] (start_run ?c)"
  have r: "breach 1 (\<lambda>_ _. False) ?c ?s" by (rule drive_reach [OF breach.start])
  have "files_total (ctrl ?s) = 1" "files_completed (ctrl ?s) + files_failed (ctrl ?s) = 0"
    by (simp_all add: run_defs)
  with r panicked_worker_completes show ?thesis unfolding in_flight_count_def by blast
qed

text \<open>
  A handler's failure is not final: the message is reported with the error and stays unmarked, so
  the next poll dispatches it again.
\<close>

theorem failed_message_retried:
  assumes "kv_atomic (in_ops env) view" "open_message env mk msg = Some raw"
    and "kv_get (in_ops env) (w_meta w) (marker_key (em_message_id msg)) = Inr None"
    and "dispatch_decrypted_message env (draw (em_message_id msg)) mk msg raw w = (Inl e, w1)"
  shows "\<not> marked view (snd (process_message env draw mk msg (errs, w))) (em_message_id msg) \<and>
     fst (process_message env draw mk msg (errs, w)) = errs @ [(em_message_id msg, e)]"
proof -
  obtain errs' w' where run: "process_message env draw mk msg (errs, w) = (errs', w')"
    by (cases "process_message env draw mk msg (errs, w)")
  from process_failed [OF assms(1) run assms(2-4)] run
  show ?thesis by simp
qed

theorem failed_message_retried_witness:
  "\<exists>w'. process_message (mem_inbound accept_json sample_accept no_share) (\<lambda>_. fixed_draws) [] sample_message
       ([], role_world ''nobody'') = ([(em_message_id sample_message, Internal
          (''process accepted connection: '' @ show_handler_error (Internal (''Unknown role: '' @ ''nobody''))))], w') \<and>
     \<not> marked map_of w' (em_message_id sample_message)"
proof -
  let ?e = "Internal (''process accepted connection: '' @ show_handler_error (Internal (''Unknown role: '' @ ''nobody'')))"
  obtain w1 where d: "dispatch_decrypted_message (mem_inbound accept_json sample_accept no_share) fixed_draws [] sample_message
      accept_json (role_world ''nobody'') = (Inl ?e, w1)"
    using accept_unknown_role by blast
  note * = failed_message_retried [where draw = "\<lambda>_. fixed_draws", OF mem_inbound_atomic sample_open role_world_unmarked d, of "[]"]
  show ?thesis
    by (intro exI [of _ "snd (process_message (mem_inbound accept_json sample_accept no_share) (\<lambda>_. fixed_draws) [] sample_message
       ([], role_world ''nobody''))"] conjI prod_eqI) (use * in \<open>simp_all only: prod.sel append_Nil not_False_eq_True\<close>)
qed

text \<open>
  A completed pruning run removes exactly the markers that are unreadable or older than the
  retention window: every other key keeps its value, and the marker of a message processed within
  the window (or stamped in the future by a clock that was set back) is still there, so the
  message cannot be replayed.
\<close>

theorem prune_keeps_fresh_markers:
  assumes "kv_store ops view" "prune_msg_processed_markers ops read s now ret = (Inr n, s')"
  shows "(\<forall>k. view s' k = (if prefix MSG_PROCESSED_PREFIX k \<and> (\<exists>v. view s k = Some v \<and> stale_marker now ret (read v))
            then None else view s k)) \<and>
     (\<forall>i v t. view s (MSG_PROCESSED_PREFIX @ i) = Some v \<longrightarrow> read v = encode_marker_timestamp t \<longrightarrow>
        now < t \<or> now - t \<le> ret \<longrightarrow> view s' (MSG_PROCESSED_PREFIX @ i) = Some v)"
proof (intro conjI allI impI)
  fix i v t
  assume "view s (MSG_PROCESSED_PREFIX @ i) = Some v" "read v = encode_marker_timestamp t" "now < t \<or> now - t \<le> ret"
  with fresh_marker_kept [of now t ret] prune_view [OF assms, of "MSG_PROCESSED_PREFIX @ i"]
  show "view s' (MSG_PROCESSED_PREFIX @ i) = Some v" by auto
qed (rule prune_view [OF assms])

theorem prune_keeps_fresh_markers_witness:
  "\<exists>n s'. prune_msg_processed_markers mem_ops id [(''msg_processed:a'', encode_marker_timestamp 900), (''msg_processed:b'', [])]
       1000 200 = (Inr n, s') \<and> map_of s' ''msg_processed:a'' = Some (encode_marker_timestamp 900)"
proof -
  let ?s = "[(''msg_processed:a'', encode_marker_timestamp 900), (''msg_processed:b'', [])]"
  obtain n s' where run: "prune_msg_processed_markers mem_ops id ?s 1000 200 = (Inr n, s')"
    using prune_total [OF mem_kv_reliable] by blast
  have p: "MSG_PROCESSED_PREFIX @ ''a'' = ''msg_processed:a''" by (simp add: MSG_PROCESSED_PREFIX_def)
  have "map_of ?s (MSG_PROCESSED_PREFIX @ ''a'') = Some (encode_marker_timestamp 900)" by (simp add: p)
  moreover have "(1000 :: 64 word) < 900 \<or> (1000 :: 64 word) - 900 \<le> 200" by simp
  ultimately have "map_of s' (MSG_PROCESSED_PREFIX @ ''a'') = Some (encode_marker_timestamp 900)"
    using prune_keeps_fresh_markers [OF mem.kv_store_axioms run] by (metis id_apply)
  with run show ?thesis unfolding p by blast
qed

text \<open>
  An acceptance nobody asked for is taken as one: with no pending sent request that matches it, it
  still grants its sender the tier of the ``acquaintance'' role and stores the sender as an active
  contact, also when the sender was a revoked contact before.
\<close>

theorem unsolicited_accept_trusted:
  assumes "trust_store (in_db env) tiers cview rview" "json_rows (in_ops env) view (sent_req_codec env)"
    and "\<forall>i r. rows_at view (sent_req_codec env) CONN_SENT_PREFIX (w_meta w) i = Some r \<longrightarrow> ls_status r \<noteq> ''pending''"
    and "handle_accept env dr p w = (Inr Handled, w')" "cp_identity_card p = Some ident"
  shows "\<exists>cfg d1 role c. load_roles (map_order (in_db env)) (role_ops (in_db env)) (w_db w) = (Inr cfg, d1) \<and>
     cfg ''acquaintance'' = Some role \<and>
     tiers (w_db w') (role_domain role) (icp_node_public_key ident) = Some (role_tier role) \<and>
     stored_contacts cview (w_db w') (icp_node_public_key ident) = Some c \<and> \<not> revoked c"
proof -
  obtain sent s where s: "update_sent_request_status (in_ops env) (sent_req_codec env) (w_meta w) (cp_sender_pseudonym p)
      (cp_request_id p) ''accepted'' = (Inr sent, s)"
    and run: "process_accepted_connection env (dr_time dr) (w_db w) p
      (unwrap_or ''acquaintance'' (Option.bind sent ls_preferred_role)) = (Inr (), w_db w')"
    by (rule handle_accept_Handled [OF assms(4,5)])
  have "sent = None"
    using update_sent_effect [OF assms(2), of "w_meta w"] s assms(3) by (cases sent) fastforce+
  with process_accepted_effect [OF assms(1) run] assms(5) show ?thesis by (fastforce simp: unwrap_or_def)
qed

theorem unsolicited_accept_trusted_witness:
  "\<exists>w' (role :: sharing_role). handle_accept (mem_inbound accept_json sample_accept no_share) fixed_draws sample_accept empty_world = (Inr Handled, w') \<and>
     mt_tiers (w_db w') (role_domain role) ''pk'' = Some (role_tier role)"
proof -
  obtain w' where w': "handle_accept (mem_inbound accept_json sample_accept no_share) fixed_draws sample_accept empty_world = (Inr Handled, w')"
    using unknown_accepted by blast
  note * = unsolicited_accept_trusted [of "mem_inbound accept_json sample_accept no_share", unfolded mem_inbound_simps(1,2),
      OF mem_trust.trust_store_axioms mem_sent_rows _ this sample_accept_card]
  have "icp_node_public_key sample_ident = ''pk''" by (simp add: sample_ident_def)
  moreover have "\<forall>i r. rows_at map_of (sent_req_codec (mem_inbound accept_json sample_accept no_share))
      CONN_SENT_PREFIX (w_meta empty_world) i = Some r \<longrightarrow> ls_status r \<noteq> ''pending''"
    by (simp add: empty_world_def rows_at_def)
  from * [OF this] have "\<exists>role :: sharing_role. mt_tiers (w_db w') (role_domain role) (icp_node_public_key sample_ident) = Some (role_tier role)"
    by blast
  ultimately show ?thesis using w' by auto
qed

text \<open>
  An acceptance whose processing fails is retried by the next poll, but with another role: the
  first delivery has already marked the sent request as accepted, so the retry no longer finds it
  and gives the sender the ``acquaintance'' role whatever role was asked for.
\<close>

theorem retried_accept_loses_role:
  assumes "json_rows (in_ops env) view (sent_req_codec env)" "kv_reliable (in_ops env) view"
    and "\<And>i r. rows_at view (sent_req_codec env) CONN_SENT_PREFIX (w_meta w) i = Some r \<Longrightarrow> ls_request_id r = i"
    and "cp_identity_card p = Some ident" "cp_request_id p = Some rid"
    and "update_sent_request_status (in_ops env) (sent_req_codec env) (w_meta w) (cp_sender_pseudonym p) (Some rid) ''accepted''
      = (Inr (Some r), s)"
    and "handle_accept env dr p w = (Inl e, w1)"
  shows "handle_accept env dr' p w1 =
     (case process_accepted_connection env (dr_time dr') (w_db w1) p ''acquaintance'' of
        (Inl e, d) \<Rightarrow> (Inl (Internal (''process accepted connection: '' @ show_handler_error e)), w1\<lparr>w_db := d\<rparr>)
      | (Inr _, d) \<Rightarrow> (Inr Handled, w1\<lparr>w_db := d\<rparr>))"
proof -
  have "w_meta w1 = s"
    using handle_accept_eq [OF assms(6) [folded assms(5)] assms(4), of dr] assms(7) by (auto split: prod.splits sum.splits)
  with answer_consumed [OF assms(1,2,3,6)]
  have "update_sent_request_status (in_ops env) (sent_req_codec env) (w_meta w1) (cp_sender_pseudonym p) (cp_request_id p) ''accepted''
      = (Inr None, w_meta w1)" by (simp add: assms(5))
  moreover have "w1\<lparr>w_meta := w_meta w1, w_db := d\<rparr> = w1\<lparr>w_db := d\<rparr>" for d by (cases w1) simp
  ultimately show ?thesis
    using handle_accept_eq [OF _ assms(4), of env w1 None "w_meta w1" dr'] by (simp only: unwrap_or_def option.case Option.bind.bind_lzero)
qed

theorem retried_accept_loses_role_witness:
  "\<exists>e w1. handle_accept (mem_inbound accept_json sample_accept no_share) fixed_draws sample_accept (role_world ''nobody'') = (Inl e, w1) \<and>
     handle_accept (mem_inbound accept_json sample_accept no_share) fixed_draws sample_accept w1 =
     (case process_accepted_connection (mem_inbound accept_json sample_accept no_share) 0 (w_db w1) sample_accept ''acquaintance'' of
        (Inl e, d) \<Rightarrow> (Inl (Internal (''process accepted connection: '' @ show_handler_error e)), w1\<lparr>w_db := d\<rparr>)
      | (Inr _, d) \<Rightarrow> (Inr Handled, w1\<lparr>w_db := d\<rparr>))"
proof -
  obtain e w1 where first: "handle_accept (mem_inbound accept_json sample_accept no_share) fixed_draws sample_accept (role_world ''nobody'') = (Inl e, w1)"
    using accept_unknown_role [of no_share] unfolding accept_dispatch by blast
  have t: "dr_time fixed_draws = 0" by (simp add: fixed_draws_def)
  have upd: "update_sent_request_status mem_ops (sent_req_codec (mem_inbound accept_json sample_accept no_share))
      (w_meta (role_world ''nobody'')) (cp_sender_pseudonym sample_accept) (Some ''rq'') ''accepted'' =
      (Inr (Some ((sample_sent ''nobody'')\<lparr>ls_status := ''accepted''\<rparr>)),
       [(CONN_SENT_PREFIX @ ''rq'', Sent_Bytes ((sample_sent ''nobody'')\<lparr>ls_status := ''accepted''\<rparr>))])"
    by (rule sample_answered)
  note retry = retried_accept_loses_role [where env = "mem_inbound accept_json sample_accept no_share" and dr' = fixed_draws,
      unfolded mem_inbound_simps(1) t, OF mem_sent_rows mem_kv_reliable _ sample_accept_card sample_accept_rq upd first]
  show ?thesis by (intro exI conjI, rule first, rule retry, rule role_world_filed)
qed

text \<open>
  The similarity of two calendar events is a number between 0 and 1 in the double-precision
  arithmetic the code computes it in -- never a NaN, an infinity or a value pushed over 1 by
  rounding -- and does not depend on which of the two events comes first.
\<close>

theorem similarity_score:
  assumes "\<And>x y. x < y \<Longrightarrow> 0 \<le> secs_between env y x"
    and "length (title_tokens a) + length (title_tokens b) < 2 ^ 64"
    and "length (location_tokens a) + length (location_tokens b) < 2 ^ 64"
  shows "(\<exists>r. event_similarity env a b = Fin r \<and> 0 \<le> r \<and> r \<le> 1) \<and> event_similarity env a b = event_similarity env b a"
  using event_similarity_unit [OF assms] event_similarity_sym [of env a b] by (simp add: unit_score_def)

theorem similarity_score_witness:
  "\<exists>r. event_similarity demo_calendar
     \<lparr>event_hash = ''a'', title_tokens = [''team'', ''lunch''], location_tokens = [''cafe''], ev_start_time = ''100'', ev_end_time = ''200'',
       display_title = ''Team lunch'', display_location = ''Cafe''\<rparr>
     \<lparr>event_hash = ''b'', title_tokens = [''lunch''], location_tokens = [], ev_start_time = ''150'', ev_end_time = ''250'',
       display_title = ''Lunch'', display_location = []\<rparr> = Fin r \<and> 0 \<le> r \<and> r \<le> 1"
  by (rule similarity_score [THEN conjunct1]) simp_all

text \<open>
  The detector of shared events reports one entry for each local event that some peer event is
  similar enough to and none for the others, whatever order the hash map iterates in; an entry
  names each such peer once, counts them, and has a score over the threshold; the entries with
  most peers come first.
\<close>

theorem shared_events_detected:
  assumes "iteration_order (event_order env)"
  shows "sorted_wrt (\<lambda>a b. se_connection_count b \<le> se_connection_count a) (detect_shared_events env ls ps) \<and>
     (\<exists>hs. distinct hs \<and> set hs = {h. matching_peers env (set (comparisons ls ps)) h \<noteq> {}} \<and>
        mset (detect_shared_events env ls ps) = mset (map (\<lambda>h. the (map_of (detect_loop env ls ps) h)) hs) \<and>
        (\<forall>h \<in> set hs. entry_ok (matching_peers env (set (comparisons ls ps)) h) (the (map_of (detect_loop env ls ps) h))))"
  using detect_shared_events_entries [OF assms, of ls ps] sorted_sort_desc [of se_connection_count]
  by (simp add: detect_shared_events_def Let_def)

theorem shared_events_detected_witness:
  "sorted_wrt (\<lambda>a b. se_connection_count b \<le> se_connection_count a)
     (detect_shared_events demo_calendar
        [\<lparr>event_hash = ''a'', title_tokens = [''lunch''], location_tokens = [], ev_start_time = ''100'', ev_end_time = ''200'',
          display_title = ''Lunch'', display_location = []\<rparr>]
        [\<lparr>pe_peer_pseudonym = ''p'', fingerprints = [], pe_updated_at = ''now''\<rparr>])"
  by (rule shared_events_detected [of demo_calendar, THEN conjunct1]) (simp add: iteration_order_sorted)

text \<open>
  Opting out of calendar sharing erases what was shared: afterwards no local fingerprint and no
  peer's events are stored, the opt-in flag reads false, and no other key of the store has
  changed.
\<close>

theorem opt_out_purges:
  assumes "kv_store (cal_ops env) view" "calendar_sharing_opt_out env s = (Inr st, s')"
  shows "view s' k = (if prefix CALENDAR_EVENTS_PREFIX k \<or> prefix PEER_EVENTS_PREFIX k then None
     else if k = CALENDAR_SHARING_OPTED_IN_KEY then Some (byte_lit env ''false'') else view s k)"
  using opt_out_view [OF assms] by (simp add: calendar_key_def)

theorem opt_out_purges_witness:
  "\<exists>st s'. calendar_sharing_opt_out demo_calendar [(CALENDAR_EVENTS_PREFIX @ ''a'', Raw ''x''), (''other'', Raw ''y'')] = (Inr st, s') \<and>
     map_of s' (CALENDAR_EVENTS_PREFIX @ ''a'') = None \<and> map_of s' CALENDAR_SHARING_OPTED_IN_KEY = Some (Raw ''false'') \<and>
     map_of s' ''other'' = Some (Raw ''y'')"
proof -
  let ?s = "[(CALENDAR_EVENTS_PREFIX @ ''a'', Raw ''x''), (''other'', Raw ''y'')]"
  obtain st s' where run: "calendar_sharing_opt_out demo_calendar ?s = (Inr st, s')"
    using opt_out_total [of demo_calendar map_of ?s] mem_kv_reliable unfolding demo_calendar_simps(1) by blast
  have "kv_store (cal_ops demo_calendar) map_of" by (simp add: mem.kv_store_axioms)
  note * = opt_out_purges [OF this run]
  have "map_of s' CALENDAR_SHARING_OPTED_IN_KEY = Some (Raw ''false'')" "map_of s' ''other'' = Some (Raw ''y'')"
    unfolding * by (simp_all add: CALENDAR_EVENTS_PREFIX_def PEER_EVENTS_PREFIX_def CALENDAR_SHARING_OPTED_IN_KEY_def)
  with run * [of "CALENDAR_EVENTS_PREFIX @ ''a''"] show ?thesis by simp
qed

text \<open>
  Two photos taken within an hour of each other in the same or in neighbouring cells always match
  under a common secret: the sets of hashes made for them meet, also when the photos fall on
  different sides of an hour or cell boundary.
\<close>

theorem nearby_photos_match:
  assumes "civil_hourly env" "\<bar>t1 - t2\<bar> \<le> one_hour"
    and "encode_location env lat1 lon1 = Some gh" "encode_location env lat2 lon2 = Some gh'"
    and "gh' \<in> set (neighboring_geohashes env gh)"
  shows "find_hash_overlaps (generate_moment_hashes env t1 lat1 lon1 r1 k)
     (map mh_hash (generate_moment_hashes env t2 lat2 lon2 r2 k)) \<noteq> []"
  using assms by (rule nearby_photos_share)

theorem nearby_photos_match_witness:
  "find_hash_overlaps (generate_moment_hashes demo_moments 0 (Fin 1) (Fin 2) ''r1'' ''k'')
     (map mh_hash (generate_moment_hashes demo_moments one_hour (Fin 3) (Fin 4) ''r2'' ''k'')) \<noteq> []"
  by (rule nearby_photos_match [where gh = "''9q8yyk''" and gh' = "''9q8yyk''"])
    (simp_all add: one_hour_def encode_location_def neighboring_geohashes_def, simp_all add: demo_moments_def)

text \<open>
  A second detection with the same peer reports and stores every moment of the first again, under
  new ids: nothing remembers which moments were already found.
\<close>

theorem redetection_duplicates:
  assumes "json_rows (mom_ops env) view (moment_codec env)"
    and "detect_shared_moments env now uuid n s peer name = (Inr out, s1)"
    and "detect_shared_moments env now' uuid' n' s1 peer name' = (Inr out', s2)"
  shows "map (\<lambda>m. (sm_time_bucket m, sm_geohash m, sm_our_record_id m)) out' =
       map (\<lambda>m. (sm_time_bucket m, sm_geohash m, sm_our_record_id m)) out \<and>
     map sm_moment_id out' = map uuid' [n' ..< n' + length out]"
proof -
  note same = redetected [OF assms]
  have len: "length out' = length out" using arg_cong [OF same, of length] by simp
  have out': "out' = detected peer name' now' uuid' n' (dedup_by dedup_key {} (stored_matches env view s1 peer))"
    by (rule detect_returns [OF json_rows.axioms(1) [OF assms(1)] assms(3)])
  have "map sm_moment_id out' = map uuid' [n' ..< n' + length out']"
    unfolding out' length_detected by (rule detected_ids)
  with same show ?thesis by (simp only: len simp_thms)
qed

theorem redetection_duplicates_witness:
  "\<exists>out out' s1 s2. detect_shared_moments demo_moments ''t1'' (\<lambda>_. ''u1'') 0 demo_moment_store ''p'' None = (Inr out, s1) \<and> out \<noteq> [] \<and>
     detect_shared_moments demo_moments ''t2'' (\<lambda>_. ''u2'') 0 s1 ''p'' None = (Inr out', s2) \<and>
     map sm_moment_id out' = map (\<lambda>_. ''u2'') [0 ..< 0 + length out]"
proof -
  obtain out out' s1 s2 where runs: "detect_shared_moments demo_moments ''t1'' (\<lambda>_. ''u1'') 0 demo_moment_store ''p'' None = (Inr out, s1)"
    "out \<noteq> []" "detect_shared_moments demo_moments ''t2'' (\<lambda>_. ''u2'') 0 s1 ''p'' None = (Inr out', s2)"
    using demo_redetect by blast
  have "json_rows (mom_ops demo_moments) map_of (moment_codec demo_moments)" using demo_moment_rows.json_rows_axioms by simp
  from redetection_duplicates [OF this runs(1,3)] runs show ?thesis by blast
qed

text \<open>
  Saving the contact book and loading it back gives the saved book laid over what the store held:
  every saved contact is read back unchanged and contacts removed in memory only are still in the
  store.
\<close>

theorem contacts_roundtrip:
  assumes "kv_store ops view" "iteration_order it" "finite (dom book)"
    and "save_contacts it ops s book = (Inr u, s')" "load_contacts ops s = Inr old" "load_contacts ops s' = Inr new"
  shows "new = old ++ book"
  using load_contacts_eq [OF assms(1,5)] load_contacts_eq [OF assms(1,6)] save_contacts_stored [OF assms(1-4)] by simp

theorem contacts_roundtrip_witness:
  "\<exists>s' old new. save_contacts sorted_list_of_set mem_ops [] (new_book(''pk'' \<mapsto> from_discovery ''pk'' ''Ann'' None Mutual 0 None None None ''d'' ''r'')) = (Inr (), s') \<and>
     load_contacts mem_ops [] = Inr old \<and> load_contacts mem_ops s' = Inr new \<and>
     new = old ++ (new_book(''pk'' \<mapsto> from_discovery ''pk'' ''Ann'' None Mutual 0 None None None ''d'' ''r''))"
proof -
  let ?b = "new_book(''pk'' \<mapsto> from_discovery ''pk'' ''Ann'' None Mutual 0 None None None ''d'' ''r'')"
  obtain s' where save: "save_contacts sorted_list_of_set mem_ops [] ?b = (Inr (), s')"
    unfolding save_contacts_def using profile_mem.put_all_total by blast
  obtain old new where load: "load_contacts mem_ops [] = Inr old" "load_contacts mem_ops s' = Inr new"
    using mem_load_contacts by blast
  have "finite (dom ?b)" by (simp add: new_book_def)
  from contacts_roundtrip [OF mem.kv_store_axioms iteration_order_sorted this save load] save load
  show ?thesis by blast
qed

text \<open>
  An invite signed with the key pair of its public key verifies exactly while it is valid: from
  less than 301 seconds before its creation until its age reaches thirty days and one second.
\<close>

theorem invite_verifies:
  assumes "signing_ok cr sk pk" "create_invite cr n now sk pk idc role = Inr i"
  shows "verify_invite cr now' i = Inr True \<longleftrightarrow>
     -301 * 1000000000 < now' - now \<and> now' - now < (30 * 24 * 60 * 60 + 1) * 1000000000"
proof -
  have "created_at i = now" using assms(2) by (auto simp: create_invite_def res_bind_eq_Inr)
  then have "in_window now' i \<longleftrightarrow>
      -301 * 1000000000 < now' - now \<and> now' - now < (30 * 24 * 60 * 60 + 1) * 1000000000"
    by (simp only: in_window_def MAX_AGE_SECS_def)
  then show ?thesis using create_then_verify [OF assms] verify_window [of cr now' i True] by blast
qed

theorem invite_verifies_witness:
  "\<exists>i. create_invite plain_crypto ''n'' 0 ''sk'' ''pk'' (new_card ''Ann'' None None) ''friend'' = Inr i \<and>
     verify_invite plain_crypto 86400000000000 i = Inr True"
proof -
  obtain i where i: "create_invite plain_crypto ''n'' 0 ''sk'' ''pk'' (new_card ''Ann'' None None) ''friend'' = Inr i"
    using plain_creates by blast
  from invite_verifies [OF plain_signing i, of 86400000000000] i show ?thesis by auto
qed

text \<open>
  Lowering the threshold of a persona never loses a fingerprint: its cluster at the lower
  threshold contains the cluster at the higher one.
\<close>

theorem resolve_threshold_monotone:
  assumes "env_graph env G" "junction_ok G" "finite_graph G" "iteration_order it"
    and "fl_le t' (threshold spec)"
  shows "\<exists>r r'. resolve it env spec = Some (Inr r) \<and> resolve it env (spec\<lparr>threshold := t'\<rparr>) = Some (Inr r') \<and>
     r_fingerprint_ids (result_body r) \<subseteq> r_fingerprint_ids (result_body r')"
proof -
  have body: "\<exists>r. resolve it env sp = Some (Inr r) \<and> r_fingerprint_ids (result_body r) = Collect (reach sp G)" for sp
    using resolve_spec [OF assms(1-4), of sp] by (auto simp: resolved_body_def)
  from body [of spec] body [of "spec\<lparr>threshold := t'\<rparr>"] reach_lower [OF assms(5)] show ?thesis by fastforce
qed

theorem resolve_threshold_monotone_witness:
  "\<exists>r r'. resolve sorted_list_of_set (served_env sample_graph) (sample_spec 1) = Some (Inr r) \<and>
     resolve sorted_list_of_set (served_env sample_graph) ((sample_spec 1)\<lparr>threshold := Fin (1/2)\<rparr>) = Some (Inr r') \<and>
     r_fingerprint_ids (result_body r) \<subseteq> r_fingerprint_ids (result_body r')"
  by (rule resolve_threshold_monotone [OF sample_env_graph sample_junction_ok sample_finite iteration_order_sorted])
    (simp add: sample_spec_def)

text \<open>
  The face of an imported identity card is stored as a fingerprint with an edge to the card's key,
  but no junction row is written for the edge, so no walk over the graph (which starts from the
  rows) ever follows it.
\<close>

theorem imported_face_unlisted:
  assumes "card_store N held A" "store_card cc N uuid now crd d = (Inr False, d')" "ca_face_embedding crd = Some e"
  shows "stored_view (host N) held d' (EDGE (host N)) (edge_id (hash_hex N)
       (fingerprint_id_for_face_embedding (hash_hex N) (map f32_bytes e))
       (fingerprint_id_from_bytes (hash_hex N) kind_NODE_PUB_KEY (as_bytes (ca_pub_key crd))) edge_IDENTITY_FACE) None \<noteq> None \<and>
    stored_view (host N) held d' (EDGE_BY_FINGERPRINT (host N)) = stored_view (host N) held d (EDGE_BY_FINGERPRINT (host N))"
  using card_store.import_face_unlisted [OF assms] .

theorem imported_face_unlisted_witness:
  "\<exists>d. store_card plain_cards rec_node ''3'' ''u'' demo_card [] = (Inr False, d) \<and>
     (\<exists>e. stored_view rec_host mem_held d ''Edge'' e None \<noteq> None \<and>
        (\<forall>k r. stored_view rec_host mem_held d ''EdgeByFingerprint'' k r = None))"
proof -
  obtain d where 2: "store_card plain_cards rec_node ''3'' ''u'' demo_card [] = (Inr False, d)" using demo_store by blast
  have face: "ca_face_embedding demo_card = Some [0]" by (simp add: demo_card_def Let_def)
  from imported_face_unlisted [OF mem_cards.card_store_axioms 2 face] 2 show ?thesis
    by (auto simp: empty_view rec_defs)
qed

text \<open>
  A successful delete removes exactly the persona named, which existed and was not built in.
\<close>

theorem delete_effect:
  assumes "persona_store nd ps view" "delete_persona nd d pid = (Inr j, d')"
  shows "\<exists>m. view d pid = Some m \<and> \<not> payload_bool m ''built_in'' \<and> view d' = (view d)(pid := None)"
  using assms by (rule persona_store.delete_ok_view)

theorem delete_effect_witness:
  "\<exists>j d' m. delete_persona (mem_node sample_graph) sample_db ''ps_2'' = (Inr j, d') \<and>
     map_of sample_db ''ps_2'' = Some m \<and> map_of d' = (map_of sample_db)(''ps_2'' := None)"
proof -
  obtain j d' where run: "delete_persona (mem_node sample_graph) sample_db ''ps_2'' = (Inr j, d')"
    using mem_delete_runs by blast
  from delete_effect [OF mem_persona_store run] run show ?thesis by blast
qed

text \<open>
  Before the canonical name registry is initialized no persona resolves to an empty cluster by
  accident: resolving any persona with a seed returns a configuration error.
\<close>

theorem resolve_needs_names:
  assumes "registry env = None" "seed_fingerprint_ids spec \<noteq> []"
  shows "\<exists>msg. resolve it env spec = Some (Inl (Config msg))"
  using assms by (rule resolve_uninitialized)

theorem resolve_needs_names_witness:
  "\<exists>msg. resolve sorted_list_of_set ((served_env sample_graph)\<lparr>registry := None\<rparr>) (sample_spec 1) = Some (Inl (Config msg))"
  by (rule resolve_needs_names) (simp_all add: sample_spec_def)

text \<open>
  A sweep that ran claims its window whatever its outcome, error or not: every sweep requested
  within thirty seconds of it is skipped, proposes and creates nothing and leaves the database and
  the time of the last sweep as they were.
\<close>

theorem sweep_debounced:
  assumes "run_sweep_and_create_personas it sha nd uuids now_ms now last_ms d = Some (out, last', d')"
    and "\<not> skipped_debounced out" "now_ms' < now_ms + DEBOUNCE_MS"
  shows "last' = now_ms \<and>
     run_sweep_and_create_personas it sha nd uuids' now_ms' now' last' d2 = Some (no_outcome\<lparr>skipped_debounced := True\<rparr>, last', d2)"
proof -
  have "last' = now_ms"
    using assms(1,2) by (auto simp: run_sweep_and_create_personas_def split: if_splits option.splits sum.splits prod.splits)
  moreover have "now_ms' - now_ms < DEBOUNCE_MS"
    using assms(3) by (simp add: DEBOUNCE_MS_def)
  ultimately show ?thesis by (simp add: run_sweep_and_create_personas_def)
qed

theorem sweep_debounced_witness:
  "\<exists>out d'. run_sweep_and_create_personas sorted_list_of_set (\<lambda>_. []) (mem_node dense_graph) (\<lambda>i. replicate i CHR ''u'')
       40000 ''now'' 0 [] = Some (out, 40000, d') \<and>
     run_sweep_and_create_personas sorted_list_of_set (\<lambda>_. []) (mem_node dense_graph) (\<lambda>i. replicate i CHR ''v'')
       50000 ''later'' 40000 d' = Some (no_outcome\<lparr>skipped_debounced := True\<rparr>, 40000, d')"
proof -
  obtain s where s: "list_suggested_personas sorted_list_of_set (\<lambda>_. []) (mem_node dense_graph) [] = Some (Inr [s])"
    using dense_suggestion by blast
  obtain n d' where "create_each (mem_node dense_graph) ''persona'' ''now'' (zip [s] (map (\<lambda>i. replicate i CHR ''u'') [0..<1])) [] 0 = (n, d')"
    by (cases "create_each (mem_node dense_graph) ''persona'' ''now'' (zip [s] (map (\<lambda>i. replicate i CHR ''u'') [0..<1])) [] 0")
  with s have run: "run_sweep_and_create_personas sorted_list_of_set (\<lambda>_. []) (mem_node dense_graph) (\<lambda>i. replicate i CHR ''u'')
      40000 ''now'' 0 [] = Some (\<lparr>candidates = 1, created = n, skipped_debounced = False\<rparr>, 40000, d')"
    by (simp add: run_sweep_and_create_personas_def mem_persona_name DEBOUNCE_MS_def)
  have "run_sweep_and_create_personas sorted_list_of_set (\<lambda>_. []) (mem_node dense_graph) (\<lambda>i. replicate i CHR ''v'')
       50000 ''later'' 40000 d' = Some (no_outcome\<lparr>skipped_debounced := True\<rparr>, 40000, d')"
    using sweep_debounced [OF run, of 50000] by (simp add: DEBOUNCE_MS_def)
  with run show ?thesis by blast
qed

text \<open>
  Edge keys do not depend on the order of the endpoints and, unless the hash collides, two edges
  between endpoints of one length (fingerprint ids are) get the same id exactly when they join the
  same pair with the same kind.
\<close>

theorem edge_id_identifies:
  assumes "length (as_bytes a) = n" "length (as_bytes b) = n" "length (as_bytes a') = n" "length (as_bytes b') = n"
    and "inj_on sha {edge_preimage a b k, edge_preimage a' b' k'}"
  shows "edge_id sha a b k = edge_id sha b a k \<and>
     (edge_id sha a b k = edge_id sha a' b' k' \<longleftrightarrow> {a, b} = {a', b'} \<and> k = k')"
proof -
  have sym: "edge_id sha a b k = edge_id sha b a k" unfolding edge_id_def edge_preimage_sym [of a] by (rule refl)
  have same: "edge_preimage a b k = edge_preimage a' b' k'" if "{a, b} = {a', b'}" "k = k'"
    using that edge_preimage_sym [of a b] by (auto simp: doubleton_eq_iff)
  have "edge_id sha a b k = edge_id sha a' b' k' \<longleftrightarrow> sha (edge_preimage a b k) = sha (edge_preimage a' b' k')"
    by (simp add: edge_id_def)
  also have "\<dots> \<longleftrightarrow> edge_preimage a b k = edge_preimage a' b' k'" by (rule inj_on_eq_iff [OF assms(5)]) simp_all
  also have "\<dots> \<longleftrightarrow> {a, b} = {a', b'} \<and> k = k'" using edge_preimage_inject [OF assms(1-4)] same by blast
  finally show ?thesis using sym by blast
qed

theorem edge_id_identifies_witness:
  "edge_id (\<lambda>b. replicate (length b) CHR ''h'') ''fp_a'' ''fp_b'' ''StrongMatch'' \<noteq>
     edge_id (\<lambda>b. replicate (length b) CHR ''h'') ''fp_b'' ''fp_a'' ''CoOccurrence''"
proof -
  let ?sha = "\<lambda>b :: 8 word list. replicate (length b) CHR ''h''"
  have len: "length (as_bytes ''fp_a'') = 4" "length (as_bytes ''fp_b'') = 4" by code_simp+
  have ne: "length (edge_preimage ''fp_a'' ''fp_b'' ''StrongMatch'') \<noteq> length (edge_preimage ''fp_b'' ''fp_a'' ''CoOccurrence'')"
    by code_simp
  have "inj_on ?sha {edge_preimage ''fp_a'' ''fp_b'' ''StrongMatch'', edge_preimage ''fp_b'' ''fp_a'' ''CoOccurrence''}"
    using ne by (auto simp: inj_on_def)
  moreover have "''StrongMatch'' \<noteq> ''CoOccurrence''" by simp
  ultimately show ?thesis using edge_id_identifies [OF len(1,2,2,1)] by blast
qed

text \<open>
  Canonical forms are stable: for every kind but handles, canonicalizing a canonical form changes
  nothing.
\<close>

theorem canonicalize_idempotent:
  assumes "kind \<noteq> kind_HANDLE"
  shows "canonicalize_string kind (canonicalize_string kind v) = canonicalize_string kind v"
  using assms by (rule canonicalize_idem)

theorem canonicalize_idempotent_witness:
  "canonicalize_string kind_FULL_NAME (canonicalize_string kind_FULL_NAME '' Ann   LEE '') = ''ann lee''"
proof -
  have "kind_FULL_NAME \<noteq> kind_HANDLE" by (simp add: kind_defs)
  moreover have "canonicalize_string kind_FULL_NAME '' Ann   LEE '' = ''ann lee''" by code_simp
  ultimately show ?thesis using canonicalize_idempotent [of kind_FULL_NAME "'' Ann   LEE ''"] by simp
qed

text \<open>
  Handles are the exception: the at sign is stripped after trimming, so a space behind it survives
  the first pass and is removed by the second, and the two forms are keyed apart.
\<close>

theorem handle_canonical_unstable:
  "canonicalize_string kind_HANDLE ''@ bob'' = '' bob'' \<and> canonicalize_string kind_HANDLE '' bob'' = ''bob''"
  by code_simp

text \<open>
  Loading the sharing roles gives the stored roles, leaving the store alone, when there are any;
  on a store without roles it gives the seven built-in roles and has stored exactly those.
\<close>

theorem roles_load:
  assumes "kv_store ops view" "iteration_order it" "roles_ok (stored_roles view s)" "load_roles it ops s = (Inr cfg, s')"
  shows "(if stored_roles view s = Map.empty then cfg = default_roles else cfg = stored_roles view s \<and> s' = s) \<and>
     stored_roles view s' = cfg"
  using load_roles_stored [OF assms(1,3) _ assms(4)] load_roles_seeds [OF assms(1,2) _ assms(4)] by auto

theorem roles_load_witness:
  "\<exists>s'. load_roles sorted_list_of_set mem_ops [] = (Inr default_roles, s') \<and> stored_roles map_of s' = default_roles"
proof -
  obtain s' where s': "save_roles sorted_list_of_set mem_ops [] default_roles = (Inr (), s')"
    unfolding save_roles_def using profile_mem.put_all_total by blast
  then have run: "load_roles sorted_list_of_set mem_ops [] = (Inr default_roles, s')"
    by (simp add: load_roles_def profile_scan_def)
  have "stored_roles map_of [] = Map.empty" by (simp add: stored_roles_def profile_view_def fun_eq_iff)
  then have "roles_ok (stored_roles map_of [])" by (simp add: roles_ok_def)
  from roles_load [OF mem.kv_store_axioms iteration_order_sorted this run] run show ?thesis by blast
qed

text \<open>
  An invite is read back from its token unchanged.
\<close>

theorem invite_token_roundtrip:
  assumes "token_ok cr" "to_token cr i = Inr t"
  shows "from_token cr t = Inr i"
  using assms by (rule token_roundtrip_lemma)

theorem invite_token_roundtrip_witness:
  "\<exists>i t. to_token plain_crypto i = Inr t \<and> from_token plain_crypto t = Inr i"
proof -
  obtain i where i: "create_invite plain_crypto ''n'' 0 ''sk'' ''pk'' (new_card ''Ann'' None None) ''friend'' = Inr i"
    using plain_creates by blast
  obtain t where "to_token plain_crypto i = Inr t" using plain_token by blast
  with invite_token_roundtrip [OF plain_token_ok] show ?thesis by blast
qed

text \<open>
  The displayed key fingerprint is not always eight hexadecimal digits: it is printed without
  leading zeros, so whenever the first byte of the hash is below sixteen it is shorter.
\<close>

theorem invite_fingerprint_short:
  assumes "b64_decode cr (sender_pub_key i) = Inr bytes" "sha256 cr bytes = a # b # c # d # rest" "a < 16"
  shows "length (invite_fingerprint cr i) < 8"
  using assms by (rule short_fingerprint)

theorem invite_fingerprint_short_witness:
  "\<exists>i. length (invite_fingerprint plain_crypto i) < 8"
proof -
  from invite_fingerprint_short [OF plain_hash] show ?thesis by auto
qed

text \<open>
  Recording, accepting and saving sent invites loses none: any sequence of recordings keeps one
  invite per nonce, accepting changes only the invite named, and saving then loading gives exactly
  those invites besides the ones stored under other nonces.
\<close>

theorem sent_invites_roundtrip:
  assumes "kv_store ops view" "xs = mark_accepted n (fold record_sent ys [])"
    and "save_sent ops s xs = (Inr u, s')" "load_sent ops s' = Inr zs"
  shows "distinct (map si_nonce xs) \<and> si_nonce ` set xs = si_nonce ` set ys \<and>
     (\<forall>i \<in> set xs. if si_nonce i = n then si_status i = Accepted else i \<in> set (fold record_sent ys [])) \<and>
     set zs = set xs \<union> {v. \<exists>m. m \<notin> si_nonce ` set xs \<and> profile_view view s (sent_key m) = Some v}"
proof -
  have d: "distinct (map si_nonce (fold record_sent ys []))" by (rule sent.fold_add_distinct) simp
  have "si_nonce ` set xs = si_nonce ` set (fold record_sent ys [])"
    by (simp only: assms(2) set_map [symmetric] mark_accepted_nonces)
  also have "\<dots> = si_nonce ` set ys" by (simp add: sent.fold_add_nonces)
  finally have "si_nonce ` set xs = si_nonce ` set ys" .
  moreover have dx: "distinct (map si_nonce xs)" using d by (simp add: assms(2))
  ultimately show ?thesis
    using save_sent_load [OF assms(1,3) dx assms(4)] mark_accepted_hit [OF d] mark_accepted_others
    by (auto simp: assms(2))
qed

theorem sent_invites_roundtrip_witness:
  "\<exists>s' zs. save_sent mem_ops [] (mark_accepted ''n1'' (fold record_sent [\<lparr>si_nonce = ''n1'', recipient_hint = '''', si_role = ''friend'',
       si_created_at = 0, si_status = Pending\<rparr>] [])) = (Inr (), s') \<and> load_sent mem_ops s' = Inr zs \<and>
     set zs = {\<lparr>si_nonce = ''n1'', recipient_hint = '''', si_role = ''friend'', si_created_at = 0, si_status = Accepted\<rparr>}"
proof -
  let ?i = "\<lparr>si_nonce = ''n1'', recipient_hint = '''', si_role = ''friend'', si_created_at = 0, si_status = Pending\<rparr>"
  let ?xs = "mark_accepted ''n1'' (fold record_sent [?i] [])"
  obtain s' where save: "save_sent mem_ops [] ?xs = (Inr (), s')"
    unfolding save_sent_def using profile_mem.put_all_total by blast
  obtain zs where load: "load_sent mem_ops s' = Inr zs"
    using profile_mem.scan_total [of s' SENT_INVITES_PREFIX] by (auto simp: load_sent_def)
  from sent_invites_roundtrip [OF mem.kv_store_axioms refl save load] save load show ?thesis
    by (simp add: record_sent_def profile_view_def)
qed

text \<open>
  A declined invite is recognised by its nonce and declining twice records it once; undoing it on
  a loaded history removes it from memory and from the store, and only it, so that a later load
  does not bring it back.
\<close>

theorem declined_invites_history:
  assumes "kv_store ops view" "\<And>n v. profile_view view s (declined_key n) = Some v \<Longrightarrow> di_nonce v = n"
    and "load_declined ops s = Inr xs" "undecline ops s xs n = (Inr b, s', xs')" "load_declined ops s' = Inr ys"
  shows "is_declined (decline x xs) (di_nonce x) \<and> decline x (decline x xs) = decline x xs \<and>
     b = is_declined xs n \<and> \<not> is_declined ys n \<and> set ys = set xs' \<and> set xs' = {i \<in> set xs. di_nonce i \<noteq> n}"
proof -
  have "is_declined (decline x xs) (di_nonce x)"
    using declined.add_nonces [of x xs] unfolding is_declined_def list_ex_iff by (metis imageE insertI1)
  with undecline_effect [OF assms] declined.add_idem [of x xs] show ?thesis by simp
qed

theorem declined_invites_history_witness:
  "\<exists>s xs s' xs' ys b. load_declined mem_ops s = Inr xs \<and> undecline mem_ops s xs ''n1'' = (Inr b, s', xs') \<and>
     load_declined mem_ops s' = Inr ys \<and> \<not> is_declined ys ''n1''"
proof -
  let ?i = "\<lparr>di_sender_pub_key = ''pk'', di_sender_name = ''Ann'', di_sender_hint = None, di_role = ''friend'', declined_at = 0, di_nonce = ''n1''\<rparr>"
  let ?s = "[(profile_key (declined_key ''n1''), ?i)]"
  obtain xs where xs: "load_declined mem_ops ?s = Inr xs"
    using profile_mem.scan_total [of ?s DECLINED_INVITES_PREFIX] by (auto simp: load_declined_def)
  obtain r s' xs' where und: "undecline mem_ops ?s xs ''n1'' = (r, s', xs')" by (cases "undecline mem_ops ?s xs ''n1''") auto
  then obtain b where r: "r = Inr b" by (auto simp: undecline_def profile_delete_def Let_def split: if_splits)
  obtain ys where ys: "load_declined mem_ops s' = Inr ys"
    using profile_mem.scan_total [of s' DECLINED_INVITES_PREFIX] by (auto simp: load_declined_def)
  have keys: "di_nonce v = n" if "profile_view map_of ?s (declined_key n) = Some v" for n v
    using that by (auto simp: profile_view_def declined_key_def split: if_splits)
  from declined_invites_history [OF mem.kv_store_axioms keys xs und [unfolded r] ys] xs und r ys show ?thesis by blast
qed

text \<open>
  Once a canonical name is registered it is never changed by a later installation, successful or
  not, and after a successful installation of a mapping every descriptive name of it resolves to
  the name it maps to.
\<close>

theorem canonical_names_install:
  assumes "iteration_order it" "finite (dom mapping)" "install it mapping (Some m) = (r, Some m')"
  shows "(\<forall>d c. m d = Some c \<longrightarrow> lookup_name (Some m') d = Inr c) \<and>
     (r = Inr () \<longrightarrow> (\<forall>d c. mapping d = Some c \<longrightarrow> lookup_name (Some m') d = Inr c))"
proof -
  have "m' d = Some c" if "m d = Some c" for d c
    using install_extends [OF assms(3)] that by (auto simp: map_le_def dom_def)
  moreover have "m' d = Some c" if "r = Inr ()" "mapping d = Some c" for d c
  proof (cases "dom m = {}")
    case True
    with assms(3) that show ?thesis by (simp add: install_def)
  next
    case False
    from install_ok [OF assms(1,2) this, of "()"] assms(3) that show ?thesis by simp
  qed
  ultimately show ?thesis by (simp add: lookup_name_def cn_get_def)
qed

theorem canonical_names_install_witness:
  "\<exists>r m'. install sorted_list_of_set [''Persona'' \<mapsto> ''schema_2'', ''Edge'' \<mapsto> ''schema_3''] (Some [''Persona'' \<mapsto> ''schema_1'']) = (r, Some m') \<and>
     lookup_name (Some m') ''Persona'' = Inr ''schema_1''"
proof -
  let ?new = "[''Persona'' \<mapsto> ''schema_2'', ''Edge'' \<mapsto> ''schema_3'']" and ?m = "[''Persona'' \<mapsto> ''schema_1'']"
  obtain r m' where run: "install sorted_list_of_set ?new (Some ?m) = (r, Some m')"
    by (cases "insert_each (map (\<lambda>d. (d, the (?new d))) (sorted_list_of_set (dom ?new))) ?m") (auto simp: install_def Let_def)
  have "finite (dom ?new)" by simp
  from canonical_names_install [OF iteration_order_sorted this run] run show ?thesis by auto
qed

text \<open>
  The first answer to a sent request is the one that counts: once a sent request is accepted or
  declined, no sequence of later answers, forged or repeated, changes its row.
\<close>

theorem sent_answers_final:
  assumes "json_rows ops view c" "answer_all ops c s us = Inr s'"
    and "rows_at view c CONN_SENT_PREFIX s i = Some r" "ls_status r \<noteq> ''pending''"
  shows "rows_at view c CONN_SENT_PREFIX s' i = Some r"
  using assms by (rule answers_final)

theorem sent_answers_final_witness:
  "\<exists>s'. answer_all mem_ops plain_codec [(CONN_SENT_PREFIX @ ''rq'', (sample_sent ''friend'')\<lparr>ls_status := ''accepted''\<rparr>)]
       [(''ann'', Some ''rq'', ''declined'')] = Inr s' \<and>
     rows_at map_of plain_codec CONN_SENT_PREFIX s' ''rq'' = Some ((sample_sent ''friend'')\<lparr>ls_status := ''accepted''\<rparr>)"
proof -
  let ?r = "(sample_sent ''friend'')\<lparr>ls_status := ''accepted''\<rparr>"
  obtain s' where s': "answer_all mem_ops plain_codec [(CONN_SENT_PREFIX @ ''rq'', ?r)] [(''ann'', Some ''rq'', ''declined'')] = Inr s'"
    by (auto simp: update_sent_request_status_def plain_codec_def Let_def)
  from sent_answers_final [OF plain_rows.json_rows_axioms s', of "''rq''" ?r] s' show ?thesis
    by (simp add: rows_at_Some plain_codec_def)
qed

end
